(* ===== verification/Prelude.thy ===== *)
theory Prelude
  imports Main "HOL-Library.Word" "HOL-Library.AList" "HOL-Library.Char_ord"
    "HOL-Library.List_Lexorder"
begin

unbundle bit_operations_syntax

text \<open>
  Shared vocabulary of the development.

  \<^item> Machine integers: \<open>u8\<close>, \<open>u16\<close>, \<open>u32\<close>, \<open>u64\<close> are words; the signed Rust types share
    the width and are read with \<open>sint\<close>. A \<open>usize\<close> is a natural number with the bound
    \<open>usize_max\<close> of the 64-bit targets written out where the source saturates or checks.
  \<^item> Byte sequences and the conversions \<open>to_le_bytes\<close>, \<open>to_be_bytes\<close> and back.
  \<^item> The result type \<open>'e + 'a\<close> (Rust \<open>Result\<close>) with \<open>bind_res\<close> for the \<open>?\<close> operator.
  \<^item> The state-result monad: a method on \<open>&mut self\<close> that returns \<open>Result\<close> is a function
    \<open>'s \<Rightarrow> ('e + 'a) \<times> 's\<close>: the state written before an early return is kept, as in Rust.
    \<open>wp\<close> is its weakest precondition, with one equation per combinator (collection
    \<open>wp_simps\<close>).
  \<^item> Finite maps: a hash map is an association list with distinct keys, an ordered map a
    strictly sorted one; both implement the contract of the locale \<open>finite_map_store\<close>.
\<close>

named_theorems wp_simps \<open>equations of the weakest precondition of the state-result monad\<close>

section \<open>Machine integers\<close>

type_synonym u8 = "8 word"
type_synonym u16 = "16 word"
type_synonym u32 = "32 word"
type_synonym u64 = "64 word"
type_synonym i8 = "8 word"
type_synonym i16 = "16 word"
type_synonym i32 = "32 word"
type_synonym i64 = "64 word"
type_synonym bytes = "8 word list"

definition usize_max :: nat where
  "usize_max = 2 ^ 64 - 1"

definition usize_saturating_add :: "nat \<Rightarrow> nat \<Rightarrow> nat" where
  "usize_saturating_add a b = min (a + b) usize_max"

definition usize_saturating_mul :: "nat \<Rightarrow> nat \<Rightarrow> nat" where
  "usize_saturating_mul a b = min (a * b) usize_max"

definition usize_checked_add :: "nat \<Rightarrow> nat \<Rightarrow> nat option" where
  "usize_checked_add a b = (if a + b \<le> usize_max then Some (a + b) else None)"

definition div_ceil :: "nat \<Rightarrow> nat \<Rightarrow> nat" where
  "div_ceil a b = (a + b - 1) div b"

definition saturating_add_word :: "'a::len word \<Rightarrow> 'a word \<Rightarrow> 'a word" where
  "saturating_add_word a b = (if unat a + unat b < 2 ^ LENGTH('a) then a + b else - 1)"

definition saturating_sub_word :: "'a::len word \<Rightarrow> 'a word \<Rightarrow> 'a word" where
  "saturating_sub_word a b = (if b \<le> a then a - b else 0)"

lemma saturating_add_le: "a + b \<le> c \<Longrightarrow> c \<le> usize_max \<Longrightarrow> usize_saturating_add a b = a + b"
  by (simp add: usize_saturating_add_def)

lemma unat_saturating_sub_word: "unat (saturating_sub_word a b) = unat a - unat b"
  by (auto simp: saturating_sub_word_def unat_sub word_le_nat_alt)

lemma unat_saturating_add_word:
  "unat (saturating_add_word a b) = min (unat a + unat b) (2 ^ LENGTH('a) - 1)"
  for a b :: "'a::len word"
proof (cases "unat a + unat b < 2 ^ LENGTH('a)")
  case True
  then show ?thesis
    by (simp add: saturating_add_word_def unat_word_ariths)
next
  case False
  then show ?thesis
    by (simp add: saturating_add_word_def unsigned_minus_1_eq_mask mask_eq_exp_minus_1)
qed

text \<open>Masking the low bits is reduction modulo a power of two.\<close>

lemma unat_take_bit: "unat (take_bit n w) = unat w mod 2 ^ n"
  for w :: "'a::len word"
  by (simp add: unsigned_take_bit_eq flip: take_bit_eq_mod)

lemma unat_and_mask: "unat (w AND mask n) = unat w mod 2 ^ n"
  for w :: "'a::len word"
  by (simp flip: take_bit_eq_mask add: unat_take_bit)

section \<open>Bytes of a word\<close>

primrec le_bytes :: "nat \<Rightarrow> 'a::len word \<Rightarrow> bytes" where
  "le_bytes 0 w = []"
| "le_bytes (Suc n) w = ucast w # le_bytes n (drop_bit 8 w)"

fun of_le_bytes :: "bytes \<Rightarrow> 'a::len word" where
  "of_le_bytes [] = 0"
| "of_le_bytes (b # bs) = ucast b OR push_bit 8 (of_le_bytes bs)"

definition be_bytes :: "nat \<Rightarrow> 'a::len word \<Rightarrow> bytes" where
  "be_bytes n w = rev (le_bytes n w)"

definition of_be_bytes :: "bytes \<Rightarrow> 'a::len word" where
  "of_be_bytes bs = of_le_bytes (rev bs)"

lemma length_le_bytes [simp]: "length (le_bytes n w) = n"
  by (induction n arbitrary: w) auto

lemma length_be_bytes [simp]: "length (be_bytes n w) = n"
  by (simp add: be_bytes_def)

lemma bit_of_le_bytes_le_bytes:
  "bit (of_le_bytes (le_bytes n w) :: 'a word) i = (i < 8 * n \<and> bit w i)"
  for w :: "'a::len word"
proof (induction n arbitrary: w i)
  case 0
  then show ?case by simp
next
  case (Suc n)
  show ?case
    by (auto simp: bit_or_iff bit_push_bit_iff bit_ucast_iff Suc bit_drop_bit_eq
        dest: bit_imp_le_length)
qed

lemma of_le_bytes_le_bytes:
  "LENGTH('a) \<le> 8 * n \<Longrightarrow> of_le_bytes (le_bytes n w) = (w :: 'a::len word)"
  by (rule bit_word_eqI) (auto simp: bit_of_le_bytes_le_bytes)

lemma of_be_bytes_be_bytes:
  "LENGTH('a) \<le> 8 * n \<Longrightarrow> of_be_bytes (be_bytes n w) = (w :: 'a::len word)"
  by (simp add: of_be_bytes_def be_bytes_def of_le_bytes_le_bytes)

lemma of_be_bytes_2 [simp]: "of_be_bytes (be_bytes 2 w) = (w :: u16)"
  by (rule of_be_bytes_be_bytes) simp

lemma of_be_bytes_4 [simp]: "of_be_bytes (be_bytes 4 w) = (w :: u32)"
  by (rule of_be_bytes_be_bytes) simp

lemma of_be_bytes_8 [simp]: "of_be_bytes (be_bytes 8 w) = (w :: u64)"
  by (rule of_be_bytes_be_bytes) simp

lemma of_le_bytes_2 [simp]: "of_le_bytes (le_bytes 2 w) = (w :: u16)"
  by (rule of_le_bytes_le_bytes) simp

lemma of_le_bytes_4 [simp]: "of_le_bytes (le_bytes 4 w) = (w :: u32)"
  by (rule of_le_bytes_le_bytes) simp

lemma of_le_bytes_8 [simp]: "of_le_bytes (le_bytes 8 w) = (w :: u64)"
  by (rule of_le_bytes_le_bytes) simp

text \<open>Three little-endian bytes hold the low 24 bits of a \<open>u32\<close>.\<close>

lemma of_le_bytes_3: "of_le_bytes (le_bytes 3 w) = take_bit 24 (w :: u32)"
  by (rule bit_word_eqI) (auto simp: bit_of_le_bytes_le_bytes bit_take_bit_iff)

section \<open>Results and the \<open>?\<close> operator\<close>

definition bind_res :: "'e + 'a \<Rightarrow> ('a \<Rightarrow> 'e + 'b) \<Rightarrow> 'e + 'b" where
  "bind_res m f = (case m of Inl e \<Rightarrow> Inl e | Inr x \<Rightarrow> f x)"

lemma bind_res_Inr [simp]: "bind_res (Inr x) f = f x"
  by (simp add: bind_res_def)

lemma bind_res_Inl [simp]: "bind_res (Inl e) f = Inl e"
  by (simp add: bind_res_def)

lemma bind_res_eq_Inr: "bind_res m f = Inr y \<longleftrightarrow> (\<exists>x. m = Inr x \<and> f x = Inr y)"
  by (cases m) auto

lemma bind_res_cong [fundef_cong]:
  "m = m' \<Longrightarrow> (\<And>x. m' = Inr x \<Longrightarrow> f x = f' x) \<Longrightarrow> bind_res m f = bind_res m' f'"
  by (cases m') auto

fun try_map :: "('a \<Rightarrow> 'e + 'b) \<Rightarrow> 'a list \<Rightarrow> 'e + 'b list" where
  "try_map f [] = Inr []"
| "try_map f (x # xs) = bind_res (f x) (\<lambda>y. bind_res (try_map f xs) (\<lambda>ys. Inr (y # ys)))"

fun try_each :: "('a \<Rightarrow> 'e + unit) \<Rightarrow> 'a list \<Rightarrow> 'e + unit" where
  "try_each f [] = Inr ()"
| "try_each f (x # xs) = bind_res (f x) (\<lambda>_. try_each f xs)"

lemma try_each_Inr: "try_each f xs = Inr () \<longleftrightarrow> (\<forall>x \<in> set xs. f x = Inr ())"
  by (induction xs) (auto simp: bind_res_eq_Inr)

lemma try_map_Inr: "try_map f xs = Inr ys \<longleftrightarrow> list_all2 (\<lambda>x y. f x = Inr y) xs ys"
  by (induction xs arbitrary: ys) (auto simp: bind_res_eq_Inr list_all2_Cons1)

section \<open>The state-result monad\<close>

type_synonym ('s, 'e, 'a) sr = "'s \<Rightarrow> ('e + 'a) \<times> 's"

definition sret :: "'a \<Rightarrow> ('s, 'e, 'a) sr" where
  "sret x = (\<lambda>s. (Inr x, s))"

definition sfail :: "'e \<Rightarrow> ('s, 'e, 'a) sr" where
  "sfail e = (\<lambda>s. (Inl e, s))"

definition sbind :: "('s, 'e, 'a) sr \<Rightarrow> ('a \<Rightarrow> ('s, 'e, 'b) sr) \<Rightarrow> ('s, 'e, 'b) sr" where
  "sbind m f = (\<lambda>s. case m s of (Inl e, s') \<Rightarrow> (Inl e, s') | (Inr x, s') \<Rightarrow> f x s')"

definition slift :: "'e + 'a \<Rightarrow> ('s, 'e, 'a) sr" where
  "slift r = (\<lambda>s. (r, s))"

definition sget :: "('s \<Rightarrow> 'a) \<Rightarrow> ('s, 'e, 'a) sr" where
  "sget f = (\<lambda>s. (Inr (f s), s))"

definition smod :: "('s \<Rightarrow> 's) \<Rightarrow> ('s, 'e, unit) sr" where
  "smod f = (\<lambda>s. (Inr (), f s))"

primrec sfor :: "'x list \<Rightarrow> ('x \<Rightarrow> ('s, 'e, unit) sr) \<Rightarrow> ('s, 'e, unit) sr" where
  "sfor [] f = sret ()"
| "sfor (x # xs) f = sbind (f x) (\<lambda>_. sfor xs f)"

primrec smap :: "'x list \<Rightarrow> ('x \<Rightarrow> ('s, 'e, 'b) sr) \<Rightarrow> ('s, 'e, 'b list) sr" where
  "smap [] f = sret []"
| "smap (x # xs) f = sbind (f x) (\<lambda>y. sbind (smap xs f) (\<lambda>ys. sret (y # ys)))"

lemmas sr_defs = sret_def sfail_def sbind_def slift_def sget_def smod_def

lemma sbind_cong [fundef_cong]:
  "s = t \<Longrightarrow> m t = m' t \<Longrightarrow> (\<And>x s'. m' t = (Inr x, s') \<Longrightarrow> f x s' = f' x s') \<Longrightarrow>
   sbind m f s = sbind m' f' t"
  by (auto simp: sbind_def split: prod.splits sum.splits)

definition wp :: "('s, 'e, 'a) sr \<Rightarrow> ('a \<Rightarrow> 's \<Rightarrow> bool) \<Rightarrow> ('e \<Rightarrow> 's \<Rightarrow> bool) \<Rightarrow> 's \<Rightarrow> bool" where
  "wp m Q E s = (case m s of (Inl e, s') \<Rightarrow> E e s' | (Inr x, s') \<Rightarrow> Q x s')"

lemma wp_sret [wp_simps]: "wp (sret x) Q E s = Q x s"
  by (simp add: wp_def sret_def)

lemma wp_sfail [wp_simps]: "wp (sfail e) Q E s = E e s"
  by (simp add: wp_def sfail_def)

lemma wp_sget [wp_simps]: "wp (sget f) Q E s = Q (f s) s"
  by (simp add: wp_def sget_def)

lemma wp_smod [wp_simps]: "wp (smod f) Q E s = Q () (f s)"
  by (simp add: wp_def smod_def)

lemma wp_slift [wp_simps]: "wp (slift r) Q E s = (case r of Inl e \<Rightarrow> E e s | Inr x \<Rightarrow> Q x s)"
  by (simp add: wp_def slift_def)

lemma wp_sbind [wp_simps]: "wp (sbind m f) Q E s = wp m (\<lambda>x. wp (f x) Q E) E s"
  by (auto simp: wp_def sbind_def split: prod.splits sum.splits)

lemma wp_if [wp_simps]: "wp (if b then m else n) Q E s = (if b then wp m Q E s else wp n Q E s)"
  by simp

lemma wp_mono:
  assumes "wp m Q E s" and "\<And>x s'. Q x s' \<Longrightarrow> Q' x s'" and "\<And>e s'. E e s' \<Longrightarrow> E' e s'"
  shows "wp m Q' E' s"
  using assms by (auto simp: wp_def split: prod.splits sum.splits)

lemma wpD_Inr: "wp m Q E s \<Longrightarrow> m s = (Inr x, s') \<Longrightarrow> Q x s'"
  by (simp add: wp_def)

lemma wpD_Inl: "wp m Q E s \<Longrightarrow> m s = (Inl e, s') \<Longrightarrow> E e s'"
  by (simp add: wp_def)

lemma wp_snd: "wp m (\<lambda>_. I) (\<lambda>_. I) s \<longleftrightarrow> I (snd (m s))"
  by (auto simp: wp_def split: prod.splits sum.splits)

lemma wp_sfor:
  assumes "\<And>x s. x \<in> set xs \<Longrightarrow> I s \<Longrightarrow> wp (f x) (\<lambda>_. I) E s" and "I s"
  shows "wp (sfor xs f) (\<lambda>_. I) E s"
  using assms
proof (induction xs arbitrary: s)
  case Nil
  then show ?case by (simp add: wp_simps)
next
  case (Cons x xs)
  have "wp (f x) (\<lambda>_. I) E s" using Cons.prems by simp
  then have "wp (f x) (\<lambda>_. wp (sfor xs f) (\<lambda>_. I) E) E s"
    by (rule wp_mono) (use Cons in auto)
  then show ?case by (simp add: wp_simps)
qed

lemma smap_snoc:
  "smap xs f s = (Inr ys, s') \<Longrightarrow> f x s' = (Inr y, s'') \<Longrightarrow> smap (xs @ [x]) f s = (Inr (ys @ [y]), s'')"
  by (induction xs arbitrary: s ys) (auto simp: sr_defs split: prod.splits sum.splits)

text \<open>
  \<open>preserves I m\<close>: the method keeps the predicate \<open>I\<close>, on success and on error. Frame facts
  ("this method does not touch that field") are proved by composing these.
\<close>

definition preserves :: "('s \<Rightarrow> bool) \<Rightarrow> ('s, 'e, 'a) sr \<Rightarrow> bool" where
  "preserves I m \<longleftrightarrow> (\<forall>s. I s \<longrightarrow> I (snd (m s)))"

named_theorems preserves_intros \<open>composition of preserved predicates\<close>

lemma preservesD: "preserves I m \<Longrightarrow> I s \<Longrightarrow> I (snd (m s))"
  by (simp add: preserves_def)

lemma preserves_wp: "preserves I m \<longleftrightarrow> (\<forall>s. I s \<longrightarrow> wp m (\<lambda>_. I) (\<lambda>_. I) s)"
  by (simp add: preserves_def wp_snd)

lemma preserves_sret [preserves_intros]: "preserves I (sret x)"
  by (simp add: preserves_def sret_def)

lemma preserves_sfail [preserves_intros]: "preserves I (sfail e)"
  by (simp add: preserves_def sfail_def)

lemma preserves_slift [preserves_intros]: "preserves I (slift r)"
  by (simp add: preserves_def slift_def)

lemma preserves_sget [preserves_intros]: "preserves I (sget f)"
  by (simp add: preserves_def sget_def)

lemma preserves_smod [preserves_intros]: "(\<And>s. I s \<Longrightarrow> I (f s)) \<Longrightarrow> preserves I (smod f)"
  by (simp add: preserves_def smod_def)

lemma preserves_if [preserves_intros]:
  "(b \<Longrightarrow> preserves I m) \<Longrightarrow> (\<not> b \<Longrightarrow> preserves I n) \<Longrightarrow> preserves I (if b then m else n)"
  by simp

lemma preserves_case_option [preserves_intros]:
  "preserves I m \<Longrightarrow> (\<And>x. preserves I (f x)) \<Longrightarrow> preserves I (case opt of None \<Rightarrow> m | Some x \<Rightarrow> f x)"
  by (simp split: option.split)

lemma preserves_case_prod [preserves_intros]:
  "(\<And>a b. preserves I (f a b)) \<Longrightarrow> preserves I (case x of (a, b) \<Rightarrow> f a b)"
  by (simp split: prod.split)

lemma preserves_sbind [preserves_intros]:
  "preserves I m \<Longrightarrow> (\<And>x. preserves I (f x)) \<Longrightarrow> preserves I (sbind m f)"
  unfolding preserves_wp wp_sbind by (auto intro: wp_mono)

lemma preserves_sfor [preserves_intros]: "(\<And>x. preserves I (f x)) \<Longrightarrow> preserves I (sfor xs f)"
  by (induction xs) (auto intro: preserves_intros)

section \<open>Simulation of state programs\<close>

text \<open>Two programs over different states simulate each other along \<open>R\<close>: from related states they
  return the same value, or the same error, in related states.\<close>

definition sim :: "('t \<Rightarrow> 's \<Rightarrow> bool) \<Rightarrow> ('t, 'e, 'a) sr \<Rightarrow> ('s, 'e, 'a) sr \<Rightarrow> bool" where
  "sim R m n \<longleftrightarrow> (\<forall>t s. R t s \<longrightarrow> fst (m t) = fst (n s) \<and> R (snd (m t)) (snd (n s)))"

named_theorems sim_intros \<open>composition of simulations\<close>

lemma simD: "sim R m n \<Longrightarrow> R t s \<Longrightarrow> fst (m t) = fst (n s) \<and> R (snd (m t)) (snd (n s))"
  by (simp add: sim_def)

lemma sim_sret [sim_intros]: "sim R (sret x) (sret x)"
  by (simp add: sim_def sret_def)

lemma sim_sfail [sim_intros]: "sim R (sfail e) (sfail e)"
  by (simp add: sim_def sfail_def)

lemma sim_slift [sim_intros]: "sim R (slift r) (slift r)"
  by (simp add: sim_def slift_def)

lemma sim_sget: "(\<And>t s. R t s \<Longrightarrow> f t = g s) \<Longrightarrow> sim R (sget f) (sget g)"
  by (simp add: sim_def sget_def)

lemma sim_smod: "(\<And>t s. R t s \<Longrightarrow> R (f t) (g s)) \<Longrightarrow> sim R (smod f) (smod g)"
  by (simp add: sim_def smod_def)

lemma sim_sbind [sim_intros]:
  assumes "sim R m n" and "\<And>x. sim R (f x) (g x)"
  shows "sim R (sbind m f) (sbind n g)"
  unfolding sim_def
proof (intro allI impI)
  fix t s assume "R t s"
  from simD [OF assms(1) this] have eq: "fst (m t) = fst (n s)" and rel: "R (snd (m t)) (snd (n s))" by auto
  show "fst (sbind m f t) = fst (sbind n g s) \<and> R (snd (sbind m f t)) (snd (sbind n g s))"
    using eq rel simD [OF assms(2) rel]
    by (cases "m t"; cases "n s"; cases "fst (m t)") (auto simp: sbind_def)
qed

lemma sim_if [sim_intros]: "sim R m n \<Longrightarrow> sim R m' n' \<Longrightarrow> sim R (if b then m else m') (if b then n else n')"
  by simp

lemma sim_case_option [sim_intros]:
  "sim R m n \<Longrightarrow> (\<And>x. sim R (f x) (g x)) \<Longrightarrow>
    sim R (case v of None \<Rightarrow> m | Some x \<Rightarrow> f x) (case v of None \<Rightarrow> n | Some x \<Rightarrow> g x)"
  by (cases v) simp_all

lemma sim_case_prod [sim_intros]:
  "(\<And>a b. sim R (f a b) (g a b)) \<Longrightarrow> sim R (case v of (a, b) \<Rightarrow> f a b) (case v of (a, b) \<Rightarrow> g a b)"
  by (cases v) simp

lemma sim_sfor [sim_intros]: "(\<And>x. sim R (f x) (g x)) \<Longrightarrow> sim R (sfor xs f) (sfor xs g)"
  by (induction xs) (auto intro!: sim_intros)

lemma sim_smap [sim_intros]: "(\<And>x. sim R (f x) (g x)) \<Longrightarrow> sim R (smap xs f) (smap xs g)"
  by (induction xs) (auto intro!: sim_intros)

section \<open>Byte cursors\<close>

text \<open>
  The crate-local readers (\<open>Reader\<close>, \<open>PacketReader\<close>, \<open>Decoder\<close>) are one structure: a byte
  slice and a position in it. \<open>cursor_rest\<close> is what is still to be read. A slice is at most
  \<open>isize_max\<close> bytes long, which Rust guarantees.
\<close>

definition isize_max :: nat where
  "isize_max = 2 ^ 63 - 1"

record byte_cursor =
  cur_bytes :: bytes
  cur_pos :: nat

definition cursor_new :: "bytes \<Rightarrow> byte_cursor" where
  "cursor_new bs = \<lparr>cur_bytes = bs, cur_pos = 0\<rparr>"

definition cursor_rest :: "byte_cursor \<Rightarrow> bytes" where
  "cursor_rest r = drop (cur_pos r) (cur_bytes r)"

definition cursor_adv :: "nat \<Rightarrow> byte_cursor \<Rightarrow> byte_cursor" where
  "cursor_adv n r = r\<lparr>cur_pos := cur_pos r + n\<rparr>"

definition cursor_ok :: "byte_cursor \<Rightarrow> bool" where
  "cursor_ok r \<longleftrightarrow> cur_pos r \<le> length (cur_bytes r) \<and> length (cur_bytes r) \<le> isize_max"

lemma cursor_rest_new [simp]: "cursor_rest (cursor_new bs) = bs"
  by (simp add: cursor_rest_def cursor_new_def)

lemma cursor_ok_new [simp]: "length bs \<le> isize_max \<Longrightarrow> cursor_ok (cursor_new bs)"
  by (simp add: cursor_ok_def cursor_new_def)

lemma cursor_rest_adv [simp]: "cursor_rest (cursor_adv n r) = drop n (cursor_rest r)"
  by (simp add: cursor_rest_def cursor_adv_def add.commute)

lemma cursor_ok_adv [simp]:
  "cursor_ok r \<Longrightarrow> n \<le> length (cursor_rest r) \<Longrightarrow> cursor_ok (cursor_adv n r)"
  by (auto simp: cursor_ok_def cursor_adv_def cursor_rest_def)

lemma cursor_adv_adv [simp]: "cursor_adv n (cursor_adv m r) = cursor_adv (m + n) r"
  by (simp add: cursor_adv_def add.assoc)

lemma cursor_adv_0 [simp]: "cursor_adv 0 r = r"
  by (simp add: cursor_adv_def)

lemma cur_bytes_adv [simp]: "cur_bytes (cursor_adv n r) = cur_bytes r"
  by (simp add: cursor_adv_def)

lemma cur_pos_adv [simp]: "cur_pos (cursor_adv n r) = cur_pos r + n"
  by (simp add: cursor_adv_def)

text \<open>
  \<open>parses p xs v\<close>: on any input that starts with \<open>xs\<close> the parser \<open>p\<close> returns \<open>v\<close> and has
  consumed exactly \<open>xs\<close>. Round trips are proved by composing these facts along the writer.
\<close>

definition parses :: "(byte_cursor, 'e, 'a) sr \<Rightarrow> bytes \<Rightarrow> 'a \<Rightarrow> bool" where
  "parses p xs v \<longleftrightarrow>
     (\<forall>r ys. cursor_ok r \<longrightarrow> cursor_rest r = xs @ ys \<longrightarrow> p r = (Inr v, cursor_adv (length xs) r))"

lemma parsesD:
  "parses p xs v \<Longrightarrow> cursor_ok r \<Longrightarrow> cursor_rest r = xs @ ys \<Longrightarrow>
   p r = (Inr v, cursor_adv (length xs) r)"
  by (simp add: parses_def)

lemma parses_sret [intro]: "parses (sret v) [] v"
  by (simp add: parses_def sret_def)

lemma parses_sret_eq: "v = w \<Longrightarrow> parses (sret v) [] w"
  by (simp add: parses_sret)

lemma parses_slift: "res = Inr v \<Longrightarrow> parses (slift res) [] v"
  by (simp add: parses_def slift_def)

lemma parses_bind:
  assumes p: "parses p xs v" and f: "parses (f v) ys w"
  shows "parses (sbind p f) (xs @ ys) w"
proof -
  have "sbind p f r = (Inr w, cursor_adv (length (xs @ ys)) r)"
    if "cursor_ok r" and "cursor_rest r = (xs @ ys) @ zs" for r zs
    using that parsesD [OF p, of r "ys @ zs"] parsesD [OF f, of "cursor_adv (length xs) r" zs]
    by (simp add: sbind_def)
  then show ?thesis by (simp add: parses_def)
qed

lemma parses_bind_Nil:
  "parses p [] v \<Longrightarrow> parses (f v) ys w \<Longrightarrow> parses (sbind p f) ys w"
  using parses_bind [of p "[]"] by simp

lemma parses_bind_last:
  "parses p xs v \<Longrightarrow> parses (f v) [] w \<Longrightarrow> parses (sbind p f) xs w"
  using parses_bind [of p xs v f "[]"] by simp

lemma parses_case_prod: "parses (f a b) xs v \<Longrightarrow> parses (case (a, b) of (x, y) \<Rightarrow> f x y) xs v"
  by simp

lemma parses_run:
  "parses p bs v \<Longrightarrow> length bs \<le> isize_max \<Longrightarrow> fst (p (cursor_new bs)) = Inr v"
  using parsesD [of p bs v "cursor_new bs" "[]"] by simp

text \<open>
  Readers only move forward inside their slice: the reason the decoding loops stop.
\<close>

definition forward :: "(byte_cursor, 'e, 'a) sr \<Rightarrow> bool" where
  "forward p \<longleftrightarrow> (\<forall>r x r'. p r = (Inr x, r') \<longrightarrow>
     cur_bytes r' = cur_bytes r \<and> cur_pos r \<le> cur_pos r' \<and>
     (cur_pos r \<le> length (cur_bytes r) \<longrightarrow> cur_pos r' \<le> length (cur_bytes r)))"

named_theorems forward_intros \<open>readers that only move forward\<close>

lemma forward_sret [forward_intros]: "forward (sret x)"
  by (simp add: forward_def sret_def)

lemma forward_sfail [forward_intros]: "forward (sfail e)"
  by (simp add: forward_def sfail_def)

lemma forward_slift [forward_intros]: "forward (slift x)"
  by (simp add: forward_def slift_def)

lemma forward_if [forward_intros]: "forward p \<Longrightarrow> forward q \<Longrightarrow> forward (if b then p else q)"
  by simp

lemma forward_case_prod [forward_intros]: "(\<And>a b. forward (f a b)) \<Longrightarrow> forward (case x of (a, b) \<Rightarrow> f a b)"
  by (cases x) simp

lemma forward_sbind [forward_intros]:
  "forward p \<Longrightarrow> (\<And>x. forward (f x)) \<Longrightarrow> forward (sbind p f)"
  unfolding forward_def sbind_def by (fastforce split: prod.splits sum.splits)

lemma forwardD:
  "forward p \<Longrightarrow> p r = (Inr x, r') \<Longrightarrow> cur_pos r \<le> length (cur_bytes r) \<Longrightarrow>
     cur_bytes r' = cur_bytes r \<and> cur_pos r \<le> cur_pos r' \<and> cur_pos r' \<le> length (cur_bytes r')"
  by (auto simp: forward_def)

text \<open>
  What every reader promises of its raw read: with enough bytes left it returns the next
  \<open>n\<close> and moves behind them; otherwise it fails and does not move.
\<close>

locale byte_reader =
  fixes read :: "nat \<Rightarrow> (byte_cursor, 'e, bytes) sr"
  assumes read_enough:
      "cursor_ok r \<Longrightarrow> n \<le> length (cursor_rest r) \<Longrightarrow>
       read n r = (Inr (take n (cursor_rest r)), cursor_adv n r)"
    and read_short: "cursor_ok r \<Longrightarrow> length (cursor_rest r) < n \<Longrightarrow> \<exists>e. read n r = (Inl e, r)"
begin

lemma read_Inr:
  assumes "cursor_ok r" and "read n r = (Inr bs, r')"
  shows "n \<le> length (cursor_rest r)" and "bs = take n (cursor_rest r)" and "r' = cursor_adv n r"
proof -
  show n: "n \<le> length (cursor_rest r)"
    using assms read_short [of r n] by (cases "length (cursor_rest r) < n") auto
  show "bs = take n (cursor_rest r)" and "r' = cursor_adv n r"
    using assms read_enough [OF assms(1) n] by auto
qed

lemma read_ok: "cursor_ok r \<Longrightarrow> read n r = (res, r') \<Longrightarrow> cursor_ok r'"
  by (cases "n \<le> length (cursor_rest r)")
    (use read_short [of r n] read_enough [of r n] in auto)

lemma wp_read:
  assumes "cursor_ok r"
    and "n \<le> length (cursor_rest r) \<Longrightarrow> Q (take n (cursor_rest r)) (cursor_adv n r)"
    and "\<And>e. E e r"
  shows "wp (read n) Q E r"
  using assms read_enough [of r n] read_short [of r n]
  by (cases "n \<le> length (cursor_rest r)") (auto simp: wp_def)

text \<open>Reading raw bytes, one byte, or a big- or little-endian word of \<open>n\<close> bytes.\<close>

lemma parses_read: "length xs = n \<Longrightarrow> parses (read n) xs xs"
  by (auto simp: parses_def read_enough)

lemma parses_be:
  assumes "LENGTH('a) \<le> 8 * n"
  shows "parses (sbind (read n) (\<lambda>bs. sret (of_be_bytes bs))) (be_bytes n w) (w :: 'a::len word)"
  by (rule parses_bind_last [OF parses_read parses_sret_eq]) (simp_all add: of_be_bytes_be_bytes assms)

lemma parses_le:
  assumes "LENGTH('a) \<le> 8 * n"
  shows "parses (sbind (read n) (\<lambda>bs. sret (of_le_bytes bs))) (le_bytes n w) (w :: 'a::len word)"
  by (rule parses_bind_last [OF parses_read parses_sret_eq]) (simp_all add: of_le_bytes_le_bytes assms)

lemma parses_hd: "parses (sbind (read 1) (\<lambda>bs. sret (hd bs))) [b] b"
  by (rule parses_bind_last [OF parses_read parses_sret_eq]) simp_all

end

section \<open>Finite maps\<close>

text \<open>
  The contract of the standard library's maps the components rely on: what a lookup
  returns after an insertion, a removal or a filter on the keys, and how the number of
  entries moves.
\<close>

locale finite_map_store =
  fixes empty :: "'m"
    and lookup :: "'m \<Rightarrow> 'k \<Rightarrow> 'v option"
    and insert :: "'k \<Rightarrow> 'v \<Rightarrow> 'm \<Rightarrow> 'm"
    and remove :: "'k \<Rightarrow> 'm \<Rightarrow> 'm"
    and len :: "'m \<Rightarrow> nat"
    and invar :: "'m \<Rightarrow> bool"
  assumes lookup_empty: "lookup empty = (\<lambda>_. None)"
    and lookup_insert: "invar m \<Longrightarrow> lookup (insert k v m) = (lookup m)(k \<mapsto> v)"
    and lookup_remove: "invar m \<Longrightarrow> lookup (remove k m) = (lookup m)(k := None)"
    and len_card: "invar m \<Longrightarrow> len m = card (dom (lookup m))"
    and finite_dom: "invar m \<Longrightarrow> finite (dom (lookup m))"
    and invar_empty: "invar empty"
    and invar_insert: "invar m \<Longrightarrow> invar (insert k v m)"
    and invar_remove: "invar m \<Longrightarrow> invar (remove k m)"
begin

lemma insert_then_lookup: "invar m \<Longrightarrow> lookup (insert k v m) k = Some v"
  by (simp add: lookup_insert)

lemma remove_then_lookup: "invar m \<Longrightarrow> lookup (remove k m) k = None"
  by (simp add: lookup_remove)

lemma len_insert:
  assumes "invar m"
  shows "len (insert k v m) = (if lookup m k = None then Suc (len m) else len m)"
proof -
  have "dom (lookup (insert k v m)) = Set.insert k (dom (lookup m))"
    using assms by (simp add: lookup_insert)
  then show ?thesis
    using assms by (auto simp: len_card invar_insert finite_dom card_insert_if domIff)
qed

lemma len_remove:
  assumes "invar m"
  shows "len (remove k m) = (if lookup m k = None then len m else len m - 1)"
proof -
  have "dom (lookup (remove k m)) = dom (lookup m) - {k}"
    using assms by (simp add: lookup_remove)
  then show ?thesis
    using assms by (auto simp: len_card invar_remove finite_dom card_Diff_singleton_if domIff)
qed

lemma len_insert_le: "invar m \<Longrightarrow> len (insert k v m) \<le> Suc (len m)"
  by (simp add: len_insert)

lemma len_remove_le: "invar m \<Longrightarrow> len (remove k m) \<le> len m"
  by (simp add: len_remove)

end

subsection \<open>Hash maps\<close>

type_synonym ('k, 'v) hash_map = "('k \<times> 'v) list"

definition hm_ok :: "('k, 'v) hash_map \<Rightarrow> bool" where
  "hm_ok m = distinct (map fst m)"

definition hm_retain :: "('k \<Rightarrow> bool) \<Rightarrow> ('k, 'v) hash_map \<Rightarrow> ('k, 'v) hash_map" where
  "hm_retain p m = filter (\<lambda>(k, _). p k) m"

lemma hm_ok_Nil [simp]: "hm_ok []"
  by (simp add: hm_ok_def)

lemma hm_ok_update [simp]: "hm_ok m \<Longrightarrow> hm_ok (AList.update k v m)"
  by (simp add: hm_ok_def distinct_update)

lemma hm_ok_delete [simp]: "hm_ok m \<Longrightarrow> hm_ok (AList.delete k m)"
  by (simp add: hm_ok_def distinct_delete)

lemma hm_ok_retain [simp]: "hm_ok m \<Longrightarrow> hm_ok (hm_retain p m)"
  unfolding hm_ok_def hm_retain_def by (rule distinct_map_filter)

lemma map_of_retain: "map_of (hm_retain p m) k = (if p k then map_of m k else None)"
  by (induction m) (auto simp: hm_retain_def)

lemma length_retain_le: "length (hm_retain p m) \<le> length m"
  by (simp add: hm_retain_def)

lemma length_delete_less: "map_of m k = Some v \<Longrightarrow> length (AList.delete k m) < length m"
  by (induction m) (auto simp: le_imp_less_Suc length_delete_le split: if_splits)

interpretation hm: finite_map_store "[]" map_of AList.update AList.delete length hm_ok
proof
  show "length m = card (dom (map_of m))" if "hm_ok m" for m :: "('k, 'v) hash_map"
    using that unfolding hm_ok_def dom_map_of_conv_image_fst
    by (metis distinct_card length_map set_map)
qed (auto simp: update_conv' delete_conv' finite_dom_map_of)

subsection \<open>Ordered maps\<close>

type_synonym ('k, 'v) btree_map = "('k \<times> 'v) list"

definition bt_ok :: "('k::linorder, 'v) btree_map \<Rightarrow> bool" where
  "bt_ok m = sorted_wrt (<) (map fst m)"

fun bt_insert :: "'k::linorder \<Rightarrow> 'v \<Rightarrow> ('k, 'v) btree_map \<Rightarrow> ('k, 'v) btree_map" where
  "bt_insert k v [] = [(k, v)]"
| "bt_insert k v ((k', v') # m) =
     (if k < k' then (k, v) # (k', v') # m
      else if k = k' then (k, v) # m
      else (k', v') # bt_insert k v m)"

definition bt_remove :: "'k::linorder \<Rightarrow> ('k, 'v) btree_map \<Rightarrow> ('k, 'v) btree_map" where
  "bt_remove k m = filter (\<lambda>e. fst e \<noteq> k) m"

lemma set_fst_bt_insert [simp]: "fst ` set (bt_insert k v m) = Set.insert k (fst ` set m)"
  by (induction k v m rule: bt_insert.induct) auto

lemma map_of_bt_insert [simp]: "bt_ok m \<Longrightarrow> map_of (bt_insert k v m) = (map_of m)(k \<mapsto> v)"
  by (induction k v m rule: bt_insert.induct) (auto simp: bt_ok_def fun_eq_iff)

lemma bt_ok_bt_insert [simp]: "bt_ok m \<Longrightarrow> bt_ok (bt_insert k v m)"
  by (induction k v m rule: bt_insert.induct) (auto simp: bt_ok_def)

lemma map_of_bt_remove [simp]: "map_of (bt_remove k m) = (map_of m)(k := None)"
  by (induction m) (auto simp: bt_remove_def fun_eq_iff)

lemma bt_ok_bt_remove [simp]: "bt_ok m \<Longrightarrow> bt_ok (bt_remove k m)"
  by (induction m) (auto simp: bt_ok_def bt_remove_def)

lemma bt_ok_Nil [simp]: "bt_ok []"
  by (simp add: bt_ok_def)

lemma bt_ok_distinct: "bt_ok m \<Longrightarrow> distinct (map fst m)"
  by (simp add: bt_ok_def strict_sorted_iff)

interpretation bt: finite_map_store "[]" map_of bt_insert bt_remove length bt_ok
proof
  show "length m = card (dom (map_of m))" if "bt_ok m" for m :: "('k::linorder, 'v) btree_map"
    using bt_ok_distinct [OF that] unfolding dom_map_of_conv_image_fst
    by (metis distinct_card length_map set_map)
qed (auto simp: finite_dom_map_of)

lemma bt_ok_keys: "bt_ok m \<Longrightarrow> map fst m = sorted_list_of_set (dom (map_of m))"
  unfolding dom_map_of_conv_image_fst bt_ok_def strict_sorted_iff
  using sorted_list_of_set.idem_if_sorted_distinct [of "map fst m"] by simp

section \<open>Lists\<close>

lemma drop_eq_append: "drop n xs = ys @ zs \<Longrightarrow> drop (n + length ys) xs = zs"
  by (metis add.commute append_eq_conv_conj drop_drop)

lemma take_drop_append: "drop n xs = ys @ zs \<Longrightarrow> take (length ys) (drop n xs) = ys"
  by simp

end
