(* ===== verification/RakNet_Sequence.thy ===== *)
theory RakNet_Sequence
  imports Prelude
begin

unbundle bit_operations_syntax

text \<open>
  The crate \<open>revy-raknet\<close>, files \<open>lib.rs\<close> (errors), \<open>budget.rs\<close> (resource limits) and
  \<open>sequence.rs\<close> (wrapping 24-bit sequence numbers and the run-length receive history).

  The macro \<open>sequence_type!\<close> declares three newtypes with one body; \<open>seq24\<close> models the
  body, the three type synonyms the instances. Error messages keep the literal text; a
  value interpolated by \<open>format!\<close> is left out.
\<close>

section \<open>Errors and budgets\<close>

record budget_exceeded =
  resource :: string
  requested :: nat
  limit :: nat

datatype raknet_error =
    Wire string
  | Budget budget_exceeded
  | Closed
  | PeerTimeout
  | RetransmitExhausted u32 u16
  | QueueFull
  | Io

record raknet_budgets =
  max_peers :: nat
  peer_ingress_queue :: nat
  peer_command_queue :: nat
  application_queue :: nat
  max_datagram_bytes :: nat
  max_payload_bytes :: nat
  max_reassembly_bytes_per_peer :: nat
  max_reassembly_parts_per_peer :: nat
  max_ordered_holdback :: nat
  max_unacked_datagrams :: nat

definition default_budgets :: raknet_budgets where
  "default_budgets = \<lparr>
     max_peers = 4096,
     peer_ingress_queue = 256,
     peer_command_queue = 256,
     application_queue = 256,
     max_datagram_bytes = 2048,
     max_payload_bytes = 4 * 1024 * 1024,
     max_reassembly_bytes_per_peer = 8 * 1024 * 1024,
     max_reassembly_parts_per_peer = 4096,
     max_ordered_holdback = 1024,
     max_unacked_datagrams = 2048\<rparr>"

definition ensure_budget :: "string \<Rightarrow> nat \<Rightarrow> nat \<Rightarrow> raknet_error + unit" where
  "ensure_budget res req lim =
     (if req > lim then Inl (Budget \<lparr>resource = res, requested = req, limit = lim\<rparr>)
      else Inr ())"

lemma ensure_budget_Inr [simp]: "ensure_budget res req lim = Inr () \<longleftrightarrow> req \<le> lim"
  by (simp add: ensure_budget_def)

lemma case_ensure_budget [simp]:
  "case_sum f g (ensure_budget res req lim) =
     (if req \<le> lim then g () else f (Budget \<lparr>resource = res, requested = req, limit = lim\<rparr>))"
  by (simp add: ensure_budget_def)

lemma ensure_budget_ok: "req \<le> lim \<Longrightarrow> ensure_budget res req lim = Inr ()"
  by simp

section \<open>24-bit sequence numbers\<close>

definition MODULUS :: u32 where
  "MODULUS = push_bit 24 1"

definition MASK :: u32 where
  "MASK = MODULUS - 1"

definition HALF_RANGE :: u32 where
  "HALF_RANGE = MODULUS div 2"

datatype seq24 = Seq24 (seq_value: u32)

type_synonym datagram_sequence = seq24
type_synonym reliable_sequence = seq24
type_synonym order_sequence = seq24

definition seq_new :: "u32 \<Rightarrow> seq24" where
  "seq_new v = Seq24 (v AND MASK)"

definition seq_next :: "seq24 \<Rightarrow> seq24" where
  "seq_next s = seq_new (seq_value s + 1)"

definition seq_previous :: "seq24 \<Rightarrow> seq24" where
  "seq_previous s = seq_new (seq_value s - 1)"

definition wrapping_distance_from :: "seq24 \<Rightarrow> seq24 \<Rightarrow> u32" where
  "wrapping_distance_from s older = (seq_value s - seq_value older) AND MASK"

definition is_newer_than :: "seq24 \<Rightarrow> seq24 \<Rightarrow> bool" where
  "is_newer_than s other =
     (let distance = wrapping_distance_from s other
      in distance \<noteq> 0 \<and> distance < HALF_RANGE)"

datatype ordering = Less | Equal | Greater

definition seq_partial_cmp :: "seq24 \<Rightarrow> seq24 \<Rightarrow> ordering option" where
  "seq_partial_cmp s other =
     (if s = other then Some Equal
      else if is_newer_than s other then Some Greater
      else Some Less)"

definition seq_deserialize :: "u32 \<Rightarrow> string + seq24" where
  "seq_deserialize v =
     (if v > MASK then Inl ''24-bit sequence exceeds its wire domain'' else Inr (Seq24 v))"

text \<open>The well-formedness the newtypes keep: the value fits the wire domain.\<close>

definition seq_ok :: "seq24 \<Rightarrow> bool" where
  "seq_ok s = (seq_value s \<le> MASK)"

section \<open>Run-length receive history\<close>

datatype run_length = RunLength (run_count: u32)

definition RunLength_SINGLE :: run_length where
  "RunLength_SINGLE = RunLength 1"

definition run_grow :: "run_length \<Rightarrow> bool \<times> run_length" where
  "run_grow l = (if run_count l = MODULUS then (False, l) else (True, RunLength (run_count l + 1)))"

definition run_length_deserialize :: "u32 \<Rightarrow> string + run_length" where
  "run_length_deserialize count =
     (if count = 0 \<or> count > MODULUS
      then Inl ''sequence run length must fit one nonempty 24-bit cycle''
      else Inr (RunLength count))"

record sequence_run =
  run_first :: seq24
  run_len :: run_length

record sequence_history =
  runs :: "sequence_run list"

definition push_run :: "sequence_run list \<Rightarrow> seq24 \<Rightarrow> sequence_run list" where
  "push_run rs s = rs @ [\<lparr>run_first = s, run_len = RunLength_SINGLE\<rparr>]"

fun from_sequences_loop ::
  "seq24 list \<Rightarrow> sequence_run list \<Rightarrow> seq24 option \<Rightarrow> sequence_run list" where
  "from_sequences_loop [] rs previous = rs"
| "from_sequences_loop (s # ss) rs previous =
     (if (case previous of None \<Rightarrow> False | Some p \<Rightarrow> seq_next p = s) \<and> rs \<noteq> []
         \<and> fst (run_grow (run_len (last rs)))
      then from_sequences_loop ss
             (butlast rs @ [(last rs)\<lparr>run_len := snd (run_grow (run_len (last rs)))\<rparr>]) (Some s)
      else from_sequences_loop ss (push_run rs s) (Some s))"

definition from_sequences :: "seq24 list \<Rightarrow> sequence_history" where
  "from_sequences ss = \<lparr>runs = from_sequences_loop ss [] None\<rparr>"

fun sequence_count_loop :: "sequence_run list \<Rightarrow> nat \<Rightarrow> raknet_error + nat" where
  "sequence_count_loop [] count = Inr count"
| "sequence_count_loop (r # rs) count =
     (case usize_checked_add count (unat (run_count (run_len r))) of
        None \<Rightarrow> Inl (Wire ''sequence history count exceeds the target's count domain'')
      | Some count' \<Rightarrow> sequence_count_loop rs count')"

definition sequence_count :: "sequence_history \<Rightarrow> raknet_error + nat" where
  "sequence_count h = sequence_count_loop (runs h) 0"

primrec scan_run :: "nat \<Rightarrow> seq24 \<Rightarrow> seq24 list" where
  "scan_run 0 s = []"
| "scan_run (Suc n) s = s # scan_run n (seq_next s)"

definition run_sequences :: "sequence_run \<Rightarrow> seq24 list" where
  "run_sequences r = scan_run (unat (run_count (run_len r))) (run_first r)"

definition sequences :: "sequence_history \<Rightarrow> seq24 list" where
  "sequences h = concat (map run_sequences (runs h))"

section \<open>Arithmetic of sequence numbers\<close>

lemma MASK_mask: "MASK = mask 24"
  by (simp add: MASK_def MODULUS_def mask_eq_exp_minus_1 push_bit_of_1)

lemma MASK_num: "MASK = 0xFFFFFF"
  by (simp add: MASK_def MODULUS_def push_bit_of_1)

lemma MODULUS_num: "MODULUS = 0x1000000"
  by (simp add: MODULUS_def push_bit_of_1)

lemma HALF_RANGE_num: "HALF_RANGE = 0x800000"
  by (simp add: HALF_RANGE_def MODULUS_def push_bit_of_1)

lemmas seq_consts = MASK_num MODULUS_num HALF_RANGE_num

lemma seq_ok_uint: "seq_ok s \<longleftrightarrow> uint (seq_value s) < 2 ^ 24"
  by (simp add: seq_ok_def MASK_num word_le_def) linarith

lemma uint_and_MASK: "uint (w AND MASK) = uint w mod 2 ^ 24"
  unfolding MASK_mask take_bit_eq_mask [symmetric] unsigned_take_bit_eq
  by (simp only: take_bit_eq_mod)

lemma seq_ok_new [simp, intro]: "seq_ok (seq_new v)"
  by (simp add: seq_ok_uint seq_new_def uint_and_MASK)

lemma seq_ok_next [simp, intro]: "seq_ok (seq_next s)"
  by (simp add: seq_next_def)

lemma seq_ok_previous [simp, intro]: "seq_ok (seq_previous s)"
  by (simp add: seq_previous_def)

lemma seq_eq_uint: "s = t \<longleftrightarrow> uint (seq_value s) = uint (seq_value t)"
  by (cases s; cases t) (simp add: word_uint_eq_iff)

lemma uint_seq_new: "uint (seq_value (seq_new v)) = uint v mod 2 ^ 24"
  by (simp add: seq_new_def uint_and_MASK)

lemma uint_mod_mod: "(x mod 2 ^ 32) mod 2 ^ 24 = x mod (2 ^ 24 :: int)"
  by (simp add: mod_mod_cancel)

lemma uint_seq_next: "uint (seq_value (seq_next s)) = (uint (seq_value s) + 1) mod 2 ^ 24"
  using uint_mod_mod [of "uint (seq_value s) + 1"]
  by (simp add: seq_next_def uint_seq_new uint_word_ariths)

lemma uint_seq_previous: "uint (seq_value (seq_previous s)) = (uint (seq_value s) - 1) mod 2 ^ 24"
  using uint_mod_mod [of "uint (seq_value s) - 1"]
  by (simp add: seq_previous_def uint_seq_new uint_word_ariths)

lemma uint_distance:
  "uint (wrapping_distance_from s t) = (uint (seq_value s) - uint (seq_value t)) mod 2 ^ 24"
  using uint_mod_mod [of "uint (seq_value s) - uint (seq_value t)"]
  by (simp add: wrapping_distance_from_def uint_and_MASK uint_word_ariths)

lemma is_newer_uint:
  "is_newer_than s t \<longleftrightarrow>
     (let d = (uint (seq_value s) - uint (seq_value t)) mod 2 ^ 24 in d \<noteq> 0 \<and> d < 2 ^ 23)"
proof -
  have "uint HALF_RANGE = 2 ^ 23" by (simp add: HALF_RANGE_num)
  then show ?thesis
    unfolding is_newer_than_def Let_def word_less_def uint_distance [symmetric]
    by (simp add: uint_0_iff)
qed

lemmas seq_uint = seq_ok_uint seq_eq_uint uint_seq_next uint_seq_previous is_newer_uint Let_def

lemma seq_new_value: "seq_ok s \<Longrightarrow> seq_new (seq_value s) = s"
  by (simp add: seq_uint uint_seq_new)

lemma seq_next_previous: "seq_ok s \<Longrightarrow> seq_next (seq_previous s) = s"
  by (simp add: seq_uint mod_simps)

lemma seq_previous_next: "seq_ok s \<Longrightarrow> seq_previous (seq_next s) = s"
  by (simp add: seq_uint mod_simps)

lemma seq_next_newer: "is_newer_than (seq_next s) s"
  by (simp add: seq_uint mod_simps)

lemma is_newer_irrefl [simp]: "\<not> is_newer_than s s"
  by (simp add: seq_uint)


text \<open>
  Inside a window of half the range the wrapping comparison agrees with the order of the
  unwrapped counters: this is what ordered and sequenced delivery rest on.
\<close>

lemma is_newer_seq_new:
  assumes "a < b" and "b - a < 2 ^ 23" and "b < 2 ^ 32"
  shows "is_newer_than (seq_new (word_of_nat b)) (seq_new (word_of_nat a))"
proof -
  have "uint (word_of_nat b :: u32) = int b" "uint (word_of_nat a :: u32) = int a"
    using assms by (simp_all add: unsigned_of_nat take_bit_nat_eq_self)
  moreover have "(int b mod 2 ^ 24 - int a mod 2 ^ 24) mod 2 ^ 24 = int b - int a"
    using assms by (simp add: mod_diff_eq of_nat_diff)
  ultimately show ?thesis
    using assms by (simp add: is_newer_uint uint_seq_new Let_def)
qed

lemma is_newer_asym: "is_newer_than s t \<Longrightarrow> \<not> is_newer_than t s"
proof -
  have "(a - b) mod 2 ^ 24 \<noteq> 0 \<Longrightarrow> (a - b) mod 2 ^ 24 < (2::int) ^ 23 \<Longrightarrow>
      \<not> (b - a) mod 2 ^ 24 < 2 ^ 23" for a b :: int
    using zmod_zminus1_eq_if [of "a - b" "2 ^ 24"] by (auto split: if_splits)
  then show "is_newer_than s t \<Longrightarrow> \<not> is_newer_than t s"
    by (auto simp: is_newer_uint Let_def)
qed

lemma seq_next_inj: "seq_ok s \<Longrightarrow> seq_ok t \<Longrightarrow> seq_next s = seq_next t \<Longrightarrow> s = t"
  by (metis seq_previous_next)

section \<open>The history represents the arrivals\<close>

definition run_ok :: "sequence_run \<Rightarrow> bool" where
  "run_ok r = (1 \<le> unat (run_count (run_len r)) \<and> unat (run_count (run_len r)) \<le> 2 ^ 24)"

lemma scan_run_snoc: "scan_run (Suc n) s = scan_run n s @ [(seq_next ^^ n) s]"
  by (induction n arbitrary: s) (simp_all add: funpow_swap1)

lemma length_scan_run [simp]: "length (scan_run n s) = n"
  by (induction n arbitrary: s) auto

lemma unat_MODULUS: "unat MODULUS = 2 ^ 24"
  by (simp add: MODULUS_num)

lemma run_grow_ok:
  assumes "run_ok r" and "fst (run_grow (run_len r))"
  shows "unat (run_count (snd (run_grow (run_len r)))) = Suc (unat (run_count (run_len r)))"
    and "run_ok (r\<lparr>run_len := snd (run_grow (run_len r))\<rparr>)"
proof -
  let ?c = "run_count (run_len r)"
  have ne: "unat ?c \<noteq> 2 ^ 24"
    using assms(2) unat_MODULUS by (metis fst_conv run_grow_def word_unat_eq_iff)
  have lt: "unat ?c + 1 < 2 ^ 32"
    using assms(1) by (simp add: run_ok_def)
  have "unat (?c + 1) = Suc (unat ?c)"
    using lt by (simp add: unat_word_ariths)
  then show "unat (run_count (snd (run_grow (run_len r)))) = Suc (unat ?c)"
    and "run_ok (r\<lparr>run_len := snd (run_grow (run_len r))\<rparr>)"
    using assms ne by (auto simp: run_grow_def run_ok_def split: if_splits)
qed

text \<open>The loop invariant: the runs built so far expand to the arrivals consumed so far, and the
  last run ends at the previous arrival.\<close>

definition history_inv :: "seq24 list \<Rightarrow> sequence_run list \<Rightarrow> seq24 option \<Rightarrow> bool" where
  "history_inv done rs previous \<longleftrightarrow>
     concat (map run_sequences rs) = done \<and> (\<forall>r \<in> set rs. run_ok r) \<and>
     (\<forall>p. previous = Some p \<longrightarrow> rs \<noteq> [] \<and>
        (seq_next ^^ (unat (run_count (run_len (last rs))) - 1)) (run_first (last rs)) = p)"

lemma history_inv_push: "history_inv done rs prev \<Longrightarrow> history_inv (done @ [s]) (push_run rs s) (Some s)"
  by (auto simp: history_inv_def push_run_def run_sequences_def RunLength_SINGLE_def run_ok_def)

lemma history_inv_grow:
  assumes inv: "history_inv done rs (Some p)" and ne: "rs \<noteq> []"
    and nxt: "seq_next p = s" and grow: "fst (run_grow (run_len (last rs)))"
  shows "history_inv (done @ [s])
    (butlast rs @ [(last rs)\<lparr>run_len := snd (run_grow (run_len (last rs)))\<rparr>]) (Some s)"
proof -
  define r where "r = last rs"
  define n where "n = unat (run_count (run_len r))"
  obtain rs' where rs: "rs = rs' @ [r]"
    using ne unfolding r_def by (metis append_butlast_last_id)
  have ok: "run_ok r" using inv rs by (simp add: history_inv_def)
  then obtain k where k: "n = Suc k"
    unfolding run_ok_def n_def by (cases "unat (run_count (run_len r))") auto
  have last: "(seq_next ^^ n) (run_first r) = s"
    using inv nxt k unfolding history_inv_def n_def r_def by (simp add: rs)
  have gr: "fst (run_grow (run_len r))" using grow by (simp add: r_def)
  have cnt: "unat (run_count (snd (run_grow (run_len r)))) = Suc n"
    using run_grow_ok(1) [OF ok gr] by (simp add: n_def)
  have "scan_run (Suc n) (run_first r) = scan_run n (run_first r) @ [s]"
    unfolding scan_run_snoc last ..
  then show ?thesis
    using inv run_grow_ok(2) [OF ok gr] cnt last
    by (auto simp: history_inv_def rs run_sequences_def n_def [symmetric] simp del: scan_run.simps)
qed

lemma from_sequences_loop_inv:
  "history_inv done rs prev \<Longrightarrow> \<exists>p. history_inv (done @ ss) (from_sequences_loop ss rs prev) p"
proof (induction ss rs prev arbitrary: "done" rule: from_sequences_loop.induct)
  case (1 rs previous)
  then show ?case by auto
next
  case (2 s ss rs previous)
  let ?g = "(case previous of None \<Rightarrow> False | Some p \<Rightarrow> seq_next p = s) \<and> rs \<noteq> []
         \<and> fst (run_grow (run_len (last rs)))"
  show ?case
  proof (cases ?g)
    case True
    then obtain p where "previous = Some p" "seq_next p = s" by (auto split: option.splits)
    with True "2.prems" have "history_inv (done @ [s])
      (butlast rs @ [(last rs)\<lparr>run_len := snd (run_grow (run_len (last rs)))\<rparr>]) (Some s)"
      by (auto intro: history_inv_grow)
    from "2.IH"(1) [OF True this] True show ?thesis by simp
  next
    case False
    from "2.IH"(2) [OF False history_inv_push [OF "2.prems"]] False show ?thesis by auto
  qed
qed

lemma sequence_count_loop_eq:
  "n + length (concat (map run_sequences rs)) \<le> usize_max \<Longrightarrow>
   sequence_count_loop rs n = Inr (n + length (concat (map run_sequences rs)))"
  by (induction rs arbitrary: n) (auto simp: usize_checked_add_def run_sequences_def)

lemma history_exact:
  assumes "length ss \<le> usize_max"
  shows "sequences (from_sequences ss) = ss \<and> sequence_count (from_sequences ss) = Inr (length ss)"
proof -
  have "history_inv [] [] None" by (simp add: history_inv_def)
  from from_sequences_loop_inv [OF this, of ss]
  have eq: "concat (map run_sequences (from_sequences_loop ss [] None)) = ss"
    by (auto simp: history_inv_def)
  with sequence_count_loop_eq [of 0 "from_sequences_loop ss [] None"] assms
  show ?thesis
    by (simp add: sequences_def from_sequences_def sequence_count_def)
qed

text \<open>C32: a receive-history checkpoint expands to exactly the sequence numbers it was built
  from, in arrival order, with gaps, reordering, repetitions and wrap-around, and its count
  is the number of arrivals.\<close>

theorem history_roundtrip:
  assumes "length ss \<le> usize_max"
  shows "sequences (from_sequences ss) = ss \<and> sequence_count (from_sequences ss) = Inr (length ss)"
  using assms by (rule history_exact)

theorem history_roundtrip_witness:
  "sequences (from_sequences (map seq_new [0xFFFFFE, 0xFFFFFF, 0, 5, 4])) =
     map seq_new [0xFFFFFE, 0xFFFFFF, 0, 5, 4]"
  using history_roundtrip [of "map seq_new [0xFFFFFE, 0xFFFFFF, 0, 5, 4]"]
  by (simp add: usize_max_def)

end
