(* ===== verification/RakNet_Wire.thy ===== *)
theory RakNet_Wire
  imports RakNet_Sequence
begin

unbundle bit_operations_syntax

text \<open>
  The crate \<open>revy-raknet\<close>, file \<open>wire.rs\<close>: the datagram, acknowledgement, handshake and
  offline-message codecs, over the crate's \<open>Reader\<close>. The reader's methods are state-result
  functions on a byte cursor; \<open>while !reader.is_empty()\<close> is the terminating function
  \<open>decode_frames\<close>, every frame consuming at least one byte.
\<close>

section \<open>Reader\<close>

definition rk_bytes :: "nat \<Rightarrow> (byte_cursor, raknet_error, bytes) sr" where
  "rk_bytes n r =
     (case usize_checked_add (cur_pos r) n of
        None \<Rightarrow> (Inl (Wire ''raknet cursor overflowed''), r)
      | Some e \<Rightarrow>
          if e \<le> length (cur_bytes r)
          then (Inr (take n (drop (cur_pos r) (cur_bytes r))), r\<lparr>cur_pos := e\<rparr>)
          else (Inl (Wire ''truncated raknet packet''), r))"

definition rk_is_empty :: "byte_cursor \<Rightarrow> bool" where
  "rk_is_empty r = (cur_pos r = length (cur_bytes r))"

definition rk_u8 :: "(byte_cursor, raknet_error, u8) sr" where
  "rk_u8 = sbind (rk_bytes 1) (\<lambda>bs. sret (hd bs))"

definition rk_u16_be :: "(byte_cursor, raknet_error, u16) sr" where
  "rk_u16_be = sbind (rk_bytes 2) (\<lambda>bs. sret (of_be_bytes bs))"

definition rk_u24_le :: "(byte_cursor, raknet_error, u32) sr" where
  "rk_u24_le = sbind (rk_bytes 3) (\<lambda>bs. sret
     (ucast (bs ! 0) OR push_bit 8 (ucast (bs ! 1)) OR push_bit 16 (ucast (bs ! 2))))"

definition rk_u32_be :: "(byte_cursor, raknet_error, u32) sr" where
  "rk_u32_be = sbind (rk_bytes 4) (\<lambda>bs. sret (of_be_bytes bs))"

definition rk_i64_be :: "(byte_cursor, raknet_error, i64) sr" where
  "rk_i64_be = sbind (rk_bytes 8) (\<lambda>bs. sret (of_be_bytes bs))"

definition MAGIC :: bytes where
  "MAGIC = [0x00, 0xff, 0xff, 0x00, 0xfe, 0xfe, 0xfe, 0xfe,
            0xfd, 0xfd, 0xfd, 0xfd, 0x12, 0x34, 0x56, 0x78]"

definition rk_magic :: "(byte_cursor, raknet_error, unit) sr" where
  "rk_magic = sbind (rk_bytes (length MAGIC)) (\<lambda>bs.
     if bs = MAGIC then sret () else sfail (Wire ''invalid raknet offline magic''))"

text \<open>A socket address: the octets, the port and, for version 6, flow label and scope.\<close>

datatype socket_addr =
    V4 (v4_octets: bytes) (v4_port: u16)
  | V6 (v6_octets: bytes) (v6_port: u16) (v6_flowinfo: u32) (v6_scope_id: u32)

definition rk_address :: "(byte_cursor, raknet_error, socket_addr) sr" where
  "rk_address = sbind rk_u8 (\<lambda>version.
     if version = 4 then
       sbind (rk_bytes 4) (\<lambda>octets. sbind rk_u16_be (\<lambda>port.
         sret (V4 (map (\<lambda>b. NOT b) octets) port)))
     else if version = 6 then
       sbind (rk_bytes 2) (\<lambda>_. sbind rk_u16_be (\<lambda>port. sbind rk_u32_be (\<lambda>flowinfo.
         sbind (rk_bytes 16) (\<lambda>ip. sbind rk_u32_be (\<lambda>scope_id.
           sret (V6 ip port flowinfo scope_id))))))
     else sfail (Wire ''unsupported raknet address version''))"

definition write_u24_le :: "u32 \<Rightarrow> bytes" where
  "write_u24_le v = take 3 (le_bytes 4 v)"

definition write_address :: "socket_addr \<Rightarrow> bytes" where
  "write_address a =
     (case a of
        V4 octets port \<Rightarrow> [4] @ map (\<lambda>b. NOT b) octets @ be_bytes 2 port
      | V6 octets port flowinfo scope_id \<Rightarrow>
          [6] @ le_bytes 2 (23 :: u16) @ be_bytes 2 port @ be_bytes 4 flowinfo @ octets
            @ be_bytes 4 scope_id)"

section \<open>Offline messages\<close>

datatype offline_request =
    Ping i64
  | OpenConnection1 u8 u16
  | OpenConnection2 u16 i64

definition decode_offline_request :: "bytes \<Rightarrow> raknet_error + offline_request option" where
  "decode_offline_request bs =
     (case bs of [] \<Rightarrow> Inr None
      | pid # _ \<Rightarrow> fst (sbind rk_u8 (\<lambda>_.
          if pid = 0x01 \<or> pid = 0x02 then
            sbind rk_i64_be (\<lambda>time. sbind rk_magic (\<lambda>_. sbind rk_i64_be (\<lambda>_.
              sret (Some (Ping time)))))
          else if pid = 0x05 then
            sbind rk_magic (\<lambda>_. sbind rk_u8 (\<lambda>protocol.
              let mtu = (if length bs < 2 ^ 16 then word_of_nat (length bs) else - 1)
              in sret (Some (OpenConnection1 protocol mtu))))
          else if pid = 0x07 then
            sbind rk_magic (\<lambda>_. sbind rk_address (\<lambda>_. sbind rk_u16_be (\<lambda>mtu.
              sbind rk_i64_be (\<lambda>client_guid. sret (Some (OpenConnection2 mtu client_guid))))))
          else sret None) (cursor_new bs)))"

definition encode_unconnected_pong :: "i64 \<Rightarrow> i64 \<Rightarrow> bytes \<Rightarrow> raknet_error + bytes" where
  "encode_unconnected_pong time server_guid motd =
     (if length motd < 2 ^ 16
      then Inr ([0x1c] @ be_bytes 8 time @ be_bytes 8 server_guid @ MAGIC
                @ be_bytes 2 (word_of_nat (length motd) :: u16) @ motd)
      else Inl (Wire ''raknet pong motd exceeded u16 length''))"

definition encode_open_connection_reply_1 :: "i64 \<Rightarrow> u16 \<Rightarrow> bytes" where
  "encode_open_connection_reply_1 server_guid mtu =
     [0x06] @ MAGIC @ be_bytes 8 server_guid @ [0] @ be_bytes 2 mtu"

definition encode_incompatible_protocol :: "u8 \<Rightarrow> i64 \<Rightarrow> bytes" where
  "encode_incompatible_protocol protocol server_guid =
     [0x19] @ [protocol] @ MAGIC @ be_bytes 8 server_guid"

definition encode_open_connection_reply_2 :: "i64 \<Rightarrow> socket_addr \<Rightarrow> u16 \<Rightarrow> bytes" where
  "encode_open_connection_reply_2 server_guid client_addr mtu =
     [0x08] @ MAGIC @ be_bytes 8 server_guid @ write_address client_addr @ be_bytes 2 mtu @ [0]"

section \<open>Datagrams\<close>

datatype reliability =
    Unreliable
  | UnreliableSequenced
  | Reliable
  | ReliableOrdered
  | ReliableSequenced
  | UnreliableWithReceipt
  | ReliableWithReceipt
  | ReliableOrderedWithReceipt

definition reliability_from_tag :: "u8 \<Rightarrow> raknet_error + reliability" where
  "reliability_from_tag tag =
     (if tag = 0 then Inr Unreliable
      else if tag = 1 then Inr UnreliableSequenced
      else if tag = 2 then Inr Reliable
      else if tag = 3 then Inr ReliableOrdered
      else if tag = 4 then Inr ReliableSequenced
      else if tag = 5 then Inr UnreliableWithReceipt
      else if tag = 6 then Inr ReliableWithReceipt
      else if tag = 7 then Inr ReliableOrderedWithReceipt
      else Inl (Wire ''invalid reliability tag''))"

fun reliability_tag :: "reliability \<Rightarrow> u8" where
  "reliability_tag Unreliable = 0"
| "reliability_tag UnreliableSequenced = 1"
| "reliability_tag Reliable = 2"
| "reliability_tag ReliableOrdered = 3"
| "reliability_tag ReliableSequenced = 4"
| "reliability_tag UnreliableWithReceipt = 5"
| "reliability_tag ReliableWithReceipt = 6"
| "reliability_tag ReliableOrderedWithReceipt = 7"

definition reliable :: "reliability \<Rightarrow> bool" where
  "reliable rel = (rel \<in> {Reliable, ReliableOrdered, ReliableSequenced, ReliableWithReceipt,
                          ReliableOrderedWithReceipt})"

definition sequenced :: "reliability \<Rightarrow> bool" where
  "sequenced rel = (rel \<in> {UnreliableSequenced, ReliableSequenced})"

definition ordered :: "reliability \<Rightarrow> bool" where
  "ordered rel = (rel \<in> {UnreliableSequenced, ReliableOrdered, ReliableSequenced,
                         ReliableOrderedWithReceipt})"

record split_header =
  split_count :: u32
  split_id :: u16
  split_index :: u32

record frame =
  fr_reliability :: reliability
  fr_reliable_index :: "reliable_sequence option"
  fr_sequence_index :: "order_sequence option"
  fr_order_index :: "order_sequence option"
  fr_order_channel :: u8
  fr_split :: "split_header option"
  fr_payload :: bytes

record datagram =
  dg_sequence :: datagram_sequence
  dg_frames :: "frame list"

definition decode_frame :: "raknet_budgets \<Rightarrow> (byte_cursor, raknet_error, frame) sr" where
  "decode_frame budgets =
     sbind rk_u8 (\<lambda>frame_flags.
     sbind (slift (reliability_from_tag (drop_bit 5 frame_flags))) (\<lambda>rel.
     sbind rk_u16_be (\<lambda>bit_len16.
     let bit_len = unat bit_len16; byte_len = div_ceil bit_len 8 in
     sbind (slift (ensure_budget ''frame payload bytes'' byte_len (max_payload_bytes budgets))) (\<lambda>_.
     sbind (if reliable rel then sbind rk_u24_le (\<lambda>v. sret (Some (seq_new v))) else sret None)
       (\<lambda>reliable_index.
     sbind (if sequenced rel then sbind rk_u24_le (\<lambda>v. sret (Some (seq_new v))) else sret None)
       (\<lambda>sequence_index.
     sbind (if ordered rel
            then sbind rk_u24_le (\<lambda>v. sbind rk_u8 (\<lambda>ch. sret (Some (seq_new v), ch)))
            else sret (None, 0)) (\<lambda>(order_index, order_channel).
     sbind (if frame_flags AND 0x10 \<noteq> 0
            then sbind rk_u32_be (\<lambda>count. sbind rk_u16_be (\<lambda>sid. sbind rk_u32_be (\<lambda>index.
                   sret (Some \<lparr>split_count = count, split_id = sid, split_index = index\<rparr>))))
            else sret None) (\<lambda>split.
     sbind (rk_bytes byte_len) (\<lambda>payload.
     sret \<lparr>fr_reliability = rel, fr_reliable_index = reliable_index,
           fr_sequence_index = sequence_index, fr_order_index = order_index,
           fr_order_channel = order_channel, fr_split = split, fr_payload = payload\<rparr>)))))))))"

text \<open>Every frame moves the position by at least its flag byte and stays inside the slice.\<close>

lemma forward_rk_bytes [forward_intros]: "forward (rk_bytes n)"
  by (auto simp: forward_def rk_bytes_def usize_checked_add_def split: if_splits)

lemma forward_rk_u8 [forward_intros]: "forward rk_u8"
  unfolding rk_u8_def by (intro forward_intros)

lemma forward_rk_u16_be [forward_intros]: "forward rk_u16_be"
  unfolding rk_u16_be_def by (intro forward_intros)

lemma forward_rk_u24_le [forward_intros]: "forward rk_u24_le"
  unfolding rk_u24_le_def by (intro forward_intros)

lemma forward_rk_u32_be [forward_intros]: "forward rk_u32_be"
  unfolding rk_u32_be_def by (intro forward_intros)

lemma rk_u8_progress:
  "rk_u8 r = (Inr b, r') \<Longrightarrow>
     cur_bytes r' = cur_bytes r \<and> cur_pos r < cur_pos r' \<and> cur_pos r' \<le> length (cur_bytes r')"
  by (auto simp: rk_u8_def sbind_def sret_def rk_bytes_def usize_checked_add_def
      split: if_splits prod.splits sum.splits)

lemma decode_frame_progress:
  assumes "decode_frame budgets r = (Inr f, r')"
  shows "cur_bytes r' = cur_bytes r \<and> cur_pos r < cur_pos r' \<and> cur_pos r' \<le> length (cur_bytes r')"
proof -
  have "\<exists>g. decode_frame budgets = sbind rk_u8 g \<and> (\<forall>x. forward (g x))"
    unfolding decode_frame_def Let_def by (intro exI conjI, rule refl) (intro allI forward_intros)
  then obtain g where g: "decode_frame budgets = sbind rk_u8 g" "\<And>x. forward (g x)" by blast
  from assms obtain b r1 where "rk_u8 r = (Inr b, r1)" "g b r1 = (Inr f, r')"
    unfolding g(1) by (auto simp: sbind_def split: prod.splits sum.splits)
  with rk_u8_progress [of r b r1] forwardD [OF g(2), of b r1 f r'] show ?thesis by auto
qed

function decode_frames ::
  "raknet_budgets \<Rightarrow> frame list \<Rightarrow> (byte_cursor, raknet_error, frame list) sr" where
  "decode_frames budgets frames r =
     (if rk_is_empty r then (Inr frames, r)
      else case decode_frame budgets r of
             (Inl e, r') \<Rightarrow> (Inl e, r')
           | (Inr f, r') \<Rightarrow> decode_frames budgets (frames @ [f]) r')"
  by pat_completeness auto
termination
  by (relation "measure (\<lambda>(_, _, r). length (cur_bytes r) - cur_pos r)")
    (auto dest!: decode_frame_progress [OF sym])

declare decode_frames.simps [simp del]

definition decode_datagram :: "bytes \<Rightarrow> raknet_budgets \<Rightarrow> raknet_error + datagram" where
  "decode_datagram bs budgets =
     bind_res (ensure_budget ''datagram bytes'' (length bs) (max_datagram_bytes budgets)) (\<lambda>_.
       fst (sbind rk_u8 (\<lambda>flags.
            if flags AND 0x80 = 0 \<or> flags AND 0x60 \<noteq> 0
            then sfail (Wire ''invalid datagram flags'')
            else sbind rk_u24_le (\<lambda>v.
                 sbind (decode_frames budgets []) (\<lambda>frames.
                 sret \<lparr>dg_sequence = seq_new v, dg_frames = frames\<rparr>))) (cursor_new bs)))"

definition datagram_bit_len :: "bytes \<Rightarrow> u16" where
  "datagram_bit_len payload =
     (let n = usize_saturating_mul (length payload) 8
      in if n < 2 ^ 16 then word_of_nat n else - 1)"

definition encode_frame :: "frame \<Rightarrow> bytes" where
  "encode_frame f =
     [push_bit 5 (reliability_tag (fr_reliability f)) OR (if fr_split f \<noteq> None then 0x10 else 0)]
     @ be_bytes 2 (datagram_bit_len (fr_payload f))
     @ (case fr_reliable_index f of None \<Rightarrow> [] | Some i \<Rightarrow> write_u24_le (seq_value i))
     @ (case fr_sequence_index f of None \<Rightarrow> [] | Some i \<Rightarrow> write_u24_le (seq_value i))
     @ (case fr_order_index f of None \<Rightarrow> []
        | Some i \<Rightarrow> write_u24_le (seq_value i) @ [fr_order_channel f])
     @ (case fr_split f of None \<Rightarrow> []
        | Some s \<Rightarrow> be_bytes 4 (split_count s) @ be_bytes 2 (split_id s) @ be_bytes 4 (split_index s))
     @ fr_payload f"

definition encode_datagram :: "datagram_sequence \<Rightarrow> frame \<Rightarrow> bytes" where
  "encode_datagram s f = [0x84] @ write_u24_le (seq_value s) @ encode_frame f"

section \<open>Acknowledgements\<close>

datatype acknowledgement =
    Ack "(datagram_sequence \<times> datagram_sequence) list"
  | Nack "(datagram_sequence \<times> datagram_sequence) list"

primrec decode_ranges ::
  "nat \<Rightarrow> (datagram_sequence \<times> datagram_sequence) list \<Rightarrow>
   (byte_cursor, raknet_error, (datagram_sequence \<times> datagram_sequence) list) sr" where
  "decode_ranges 0 ranges = sret ranges"
| "decode_ranges (Suc n) ranges =
     sbind rk_u8 (\<lambda>flag.
     sbind rk_u24_le (\<lambda>v.
     let start = seq_new v in
     sbind (if flag \<noteq> 0 then sret start else sbind rk_u24_le (\<lambda>w. sret (seq_new w))) (\<lambda>end'.
     decode_ranges n (ranges @ [(start, end')]))))"

definition decode_acknowledgement :: "bytes \<Rightarrow> raknet_error + acknowledgement option" where
  "decode_acknowledgement bs =
     (case bs of [] \<Rightarrow> Inr None
      | pid # _ \<Rightarrow>
          if pid \<notin> {0xa0, 0xc0} then Inr None
          else fst (sbind rk_u8 (\<lambda>_.
                    sbind rk_u16_be (\<lambda>count.
                    sbind (decode_ranges (unat count) []) (\<lambda>ranges.
                    sret (Some (if pid = 0xc0 then Ack ranges else Nack ranges)))))
                   (cursor_new bs)))"

definition encode_ack_range :: "u8 \<Rightarrow> datagram_sequence \<Rightarrow> datagram_sequence \<Rightarrow> bytes" where
  "encode_ack_range pid start end' =
     [pid] @ be_bytes 2 (1 :: u16) @ [if start = end' then 1 else 0]
     @ write_u24_le (seq_value start)
     @ (if start \<noteq> end' then write_u24_le (seq_value end') else [])"

definition encode_ack :: "datagram_sequence \<Rightarrow> bytes" where
  "encode_ack s = encode_ack_range 0xc0 s s"

definition encode_nack :: "datagram_sequence \<Rightarrow> datagram_sequence \<Rightarrow> bytes" where
  "encode_nack start end' = encode_ack_range 0xa0 start end'"

section \<open>Online handshake payloads\<close>

definition unspecified_addr :: socket_addr where
  "unspecified_addr = V4 [0, 0, 0, 0] 0"

definition encode_connection_accept :: "socket_addr \<Rightarrow> i64 \<Rightarrow> i64 \<Rightarrow> bytes" where
  "encode_connection_accept client_addr request_time timestamp =
     [0x10] @ write_address client_addr @ be_bytes 2 (0 :: u16)
     @ concat (replicate 10 (write_address unspecified_addr))
     @ be_bytes 8 request_time @ be_bytes 8 timestamp"

definition encode_connected_pong :: "i64 \<Rightarrow> i64 \<Rightarrow> bytes" where
  "encode_connected_pong ping_time pong_time =
     [0x03] @ be_bytes 8 ping_time @ be_bytes 8 pong_time"

definition decode_connection_request :: "bytes \<Rightarrow> raknet_error + i64 option" where
  "decode_connection_request payload =
     (case payload of [] \<Rightarrow> Inr None
      | pid # _ \<Rightarrow>
          if pid \<noteq> 0x09 then Inr None
          else fst (sbind rk_u8 (\<lambda>_. sbind rk_i64_be (\<lambda>_. sbind rk_i64_be (\<lambda>request_time.
                 sbind rk_u8 (\<lambda>_. sret (Some request_time))))) (cursor_new payload)))"

definition decode_connected_ping :: "bytes \<Rightarrow> raknet_error + i64 option" where
  "decode_connected_ping payload =
     (case payload of [] \<Rightarrow> Inr None
      | pid # _ \<Rightarrow>
          if pid \<noteq> 0x00 then Inr None
          else fst (sbind rk_u8 (\<lambda>_. sbind rk_i64_be (\<lambda>t. sret (Some t))) (cursor_new payload)))"

section \<open>Reading what was written\<close>

interpretation rk: byte_reader rk_bytes
proof
  show "rk_bytes n r = (Inr (take n (cursor_rest r)), cursor_adv n r)"
    if "cursor_ok r" and "n \<le> length (cursor_rest r)" for r n
    using that by (auto simp: rk_bytes_def usize_checked_add_def cursor_ok_def cursor_rest_def
        cursor_adv_def usize_max_def isize_max_def)
  show "\<exists>e. rk_bytes n r = (Inl e, r)" if "cursor_ok r" and "length (cursor_rest r) < n" for r n
    using that by (auto simp: rk_bytes_def usize_checked_add_def cursor_ok_def cursor_rest_def)
qed

lemma u24_of_le_bytes:
  "length bs = 3 \<Longrightarrow>
   ucast (bs ! 0) OR push_bit 8 (ucast (bs ! 1)) OR push_bit 16 (ucast (bs ! 2)) =
     (of_le_bytes bs :: u32)"
  by (auto simp: length_Suc_conv numeral_3_eq_3 push_bit_or or.assoc)

lemma parses_u8: "parses rk_u8 [b] b"
  unfolding rk_u8_def by (rule rk.parses_hd)

lemma parses_u16_be: "parses rk_u16_be (be_bytes 2 w) w"
  unfolding rk_u16_be_def by (rule rk.parses_be) simp

lemma parses_u32_be: "parses rk_u32_be (be_bytes 4 w) w"
  unfolding rk_u32_be_def by (rule rk.parses_be) simp

lemma parses_i64_be: "parses rk_i64_be (be_bytes 8 w) w"
  unfolding rk_i64_be_def by (rule rk.parses_be) simp

lemma write_u24_le_bytes: "write_u24_le v = le_bytes 3 v"
  by (simp add: write_u24_le_def numeral_eq_Suc)

lemma length_write_u24_le [simp]: "length (write_u24_le v) = 3"
  by (simp add: write_u24_le_bytes)

lemma seq_new_u24 [simp]: "seq_ok s \<Longrightarrow> seq_new (of_le_bytes (write_u24_le (seq_value s))) = s"
  by (simp add: write_u24_le_bytes of_le_bytes_3 seq_new_def MASK_mask seq_ok_def
      flip: take_bit_eq_mask) (metis MASK_mask seq_new_def seq_new_value seq_ok_def take_bit_eq_mask)


lemma parses_u24_le: "parses rk_u24_le (write_u24_le v) (of_le_bytes (write_u24_le v))"
  unfolding rk_u24_le_def
  using u24_of_le_bytes [of "write_u24_le v"]
  by (auto intro!: parses_bind_last [OF rk.parses_read parses_sret_eq])

lemmas rk_parses = parses_u8 parses_u16_be parses_u32_be parses_i64_be parses_u24_le rk.parses_read

lemma parses_seq:
  "seq_ok s \<Longrightarrow> parses (sbind rk_u24_le (\<lambda>v. sret (Some (seq_new v)))) (write_u24_le (seq_value s)) (Some s)"
  by (rule parses_bind_last [OF parses_u24_le parses_sret_eq]) simp

text \<open>
  The frames the sender builds: the indexes present are those the reliability class puts on
  the wire, a frame outside the ordered classes has channel 0, and the bit length of the
  payload fits its 16-bit field.
\<close>

definition frame_wf :: "frame \<Rightarrow> bool" where
  "frame_wf f \<longleftrightarrow>
     (fr_reliable_index f \<noteq> None) = reliable (fr_reliability f) \<and>
     (fr_sequence_index f \<noteq> None) = sequenced (fr_reliability f) \<and>
     (fr_order_index f \<noteq> None) = ordered (fr_reliability f) \<and>
     (\<not> ordered (fr_reliability f) \<longrightarrow> fr_order_channel f = 0) \<and>
     pred_option seq_ok (fr_reliable_index f) \<and>
     pred_option seq_ok (fr_sequence_index f) \<and>
     pred_option seq_ok (fr_order_index f)"

lemma reliability_from_tag_tag [simp]: "reliability_from_tag (reliability_tag rel) = Inr rel"
  by (cases rel) (simp_all add: reliability_from_tag_def)

lemma frame_flags_tag:
  "drop_bit 5 (push_bit 5 (reliability_tag rel) OR (if split then 0x10 else 0)) = reliability_tag rel"
  by (cases rel) simp_all

lemma frame_flags_split:
  "(push_bit 5 (reliability_tag rel) OR (if split then 0x10 else 0)) AND 0x10 = (0 :: u8) \<longleftrightarrow> \<not> split"
  by (cases rel) simp_all

lemma unat_datagram_bit_len:
  "length payload < 8192 \<Longrightarrow> unat (datagram_bit_len payload) = 8 * length payload"
  by (simp add: datagram_bit_len_def usize_saturating_mul_def usize_max_def unat_word_ariths
      unsigned_of_nat take_bit_nat_eq_self min_def)

lemma div_ceil_mult_8 [simp]: "div_ceil (8 * n) 8 = n"
  by (simp add: div_ceil_def)

text \<open>The optional parts of a frame, each read back by the branch its flag selects.\<close>

lemma parses_index:
  assumes "(idx \<noteq> None) = b" and "pred_option seq_ok idx"
  shows "parses (if b then sbind rk_u24_le (\<lambda>v. sret (Some (seq_new v))) else sret None)
    (case idx of None \<Rightarrow> [] | Some i \<Rightarrow> write_u24_le (seq_value i)) idx"
  using assms by (cases idx) (auto intro: parses_seq)

lemma parses_order:
  assumes "(idx \<noteq> None) = b" and "pred_option seq_ok idx" and "\<not> b \<longrightarrow> ch = 0"
  shows "parses (if b then sbind rk_u24_le (\<lambda>v. sbind rk_u8 (\<lambda>ch. sret (Some (seq_new v), ch)))
      else sret (None, 0))
    (case idx of None \<Rightarrow> [] | Some i \<Rightarrow> write_u24_le (seq_value i) @ [ch]) (idx, ch)"
  using assms
  by (cases idx)
    (auto intro!: parses_bind [OF parses_u24_le] parses_bind_last [OF parses_u8] parses_sret_eq)

lemma parses_split:
  "parses (if sp \<noteq> None
      then sbind rk_u32_be (\<lambda>count. sbind rk_u16_be (\<lambda>sid. sbind rk_u32_be (\<lambda>index.
             sret (Some \<lparr>split_count = count, split_id = sid, split_index = index\<rparr>))))
      else sret None)
    (case sp of None \<Rightarrow> []
     | Some s \<Rightarrow> be_bytes 4 (split_count s) @ be_bytes 2 (split_id s) @ be_bytes 4 (split_index s)) sp"
  by (cases sp)
    (auto intro!: parses_bind [OF parses_u32_be] parses_bind [OF parses_u16_be]
      parses_bind_last [OF parses_u32_be] parses_sret_eq)

lemma parses_frame:
  assumes wf: "frame_wf f" and small: "length (fr_payload f) < 8192"
    and budget: "length (fr_payload f) \<le> max_payload_bytes budgets"
  shows "parses (decode_frame budgets) (encode_frame f) f"
proof -
  let ?flags = "push_bit 5 (reliability_tag (fr_reliability f)) OR (if fr_split f \<noteq> None then 0x10 else 0)"
  have tag: "reliability_from_tag (drop_bit 5 ?flags) = Inr (fr_reliability f)"
    by (simp only: frame_flags_tag reliability_from_tag_tag)
  have split: "(?flags AND 0x10 \<noteq> 0) = (fr_split f \<noteq> None)"
    by (simp only: frame_flags_split not_not)
  have len: "div_ceil (unat (datagram_bit_len (fr_payload f))) 8 = length (fr_payload f)"
    using small by (simp add: unat_datagram_bit_len)
  have budget': "ensure_budget ''frame payload bytes'' (length (fr_payload f)) (max_payload_bytes budgets) = Inr ()"
    using budget by simp
  note parts = parses_index [of "fr_reliable_index f" "reliable (fr_reliability f)"]
    parses_index [of "fr_sequence_index f" "sequenced (fr_reliability f)"]
    parses_order [of "fr_order_index f" "ordered (fr_reliability f)" "fr_order_channel f"]
  show ?thesis
    unfolding decode_frame_def encode_frame_def Let_def
    by (intro parses_bind [OF parses_u8] parses_bind_Nil [OF parses_slift [OF tag]]
        parses_bind [OF parses_u16_be], unfold len split,
        intro parses_bind_Nil [OF parses_slift [OF budget']] parses_bind [OF parts(1)]
          parses_bind [OF parts(2)] parses_bind [OF parts(3)] parses_bind [OF parses_split]
          parses_case_prod parses_bind_last [OF rk.parses_read] parses_sret_eq)
      (use wf in \<open>auto simp: frame_wf_def\<close>)
qed

lemma rk_is_empty_rest: "cursor_ok r \<Longrightarrow> rk_is_empty r \<longleftrightarrow> cursor_rest r = []"
  by (auto simp: rk_is_empty_def cursor_rest_def cursor_ok_def)

lemma decode_frames_encode:
  assumes "\<And>f. f \<in> set fs \<Longrightarrow> frame_wf f \<and> length (fr_payload f) < 8192 \<and>
      length (fr_payload f) \<le> max_payload_bytes budgets"
    and "cursor_ok r" and "cursor_rest r = concat (map encode_frame fs)"
  shows "fst (decode_frames budgets acc r) = Inr (acc @ fs)"
  using assms
proof (induction fs arbitrary: acc r)
  case Nil
  then show ?case by (simp add: decode_frames.simps rk_is_empty_rest)
next
  case (Cons f fs)
  let ?r = "cursor_adv (length (encode_frame f)) r"
  have "decode_frame budgets r = (Inr f, ?r)"
    using Cons.prems by (intro parsesD [OF parses_frame]) auto
  moreover have "\<not> rk_is_empty r"
    using Cons.prems by (simp add: rk_is_empty_rest encode_frame_def)
  ultimately have "decode_frames budgets acc r = decode_frames budgets (acc @ [f]) ?r"
    by (subst decode_frames.simps) simp
  also have "fst \<dots> = Inr ((acc @ [f]) @ fs)"
    using Cons.prems by (intro Cons.IH) auto
  finally show ?case by simp
qed

text \<open>C22: a datagram the sender encodes decodes to the same sequence number and the same
  frame, in every reliability class and with or without a split header, whenever the
  payload's bit length fits its field and the receiver's budgets admit the sizes.\<close>

theorem datagram_roundtrip:
  assumes "frame_wf f" and "seq_ok s" and "length (fr_payload f) < 8192"
    and "length (fr_payload f) \<le> max_payload_bytes budgets"
    and "length (encode_datagram s f) \<le> max_datagram_bytes budgets"
    and "max_datagram_bytes budgets \<le> isize_max"
  shows "decode_datagram (encode_datagram s f) budgets = Inr \<lparr>dg_sequence = s, dg_frames = [f]\<rparr>"
proof -
  let ?bs = "encode_datagram s f"
  let ?r = "cursor_new ?bs"
  have ok: "cursor_ok ?r" using assms by simp
  have u8: "rk_u8 ?r = (Inr 0x84, cursor_adv 1 ?r)"
    using parsesD [OF parses_u8 ok, of "0x84"] by (simp add: encode_datagram_def)
  have u24: "rk_u24_le (cursor_adv 1 ?r) =
      (Inr (of_le_bytes (write_u24_le (seq_value s))), cursor_adv 3 (cursor_adv 1 ?r))"
    using parsesD [OF parses_u24_le, of "cursor_adv 1 ?r"] ok by (simp add: encode_datagram_def)
  have "fst (decode_frames budgets [] (cursor_adv 3 (cursor_adv 1 ?r))) = Inr ([] @ [f])"
    using assms ok by (intro decode_frames_encode) (auto simp: encode_datagram_def)
  then show ?thesis
    using assms u8 u24
    by (auto simp: decode_datagram_def sbind_def sret_def ensure_budget_ok split: prod.splits sum.splits)
qed

definition sample_frame :: frame where
  "sample_frame = \<lparr>fr_reliability = ReliableOrdered, fr_reliable_index = Some (seq_new 9),
     fr_sequence_index = None, fr_order_index = Some (seq_new 4), fr_order_channel = 0,
     fr_split = Some \<lparr>split_count = 2, split_id = 7, split_index = 1\<rparr>,
     fr_payload = [0xfe, 1, 2, 3]\<rparr>"

theorem datagram_roundtrip_witness:
  "decode_datagram (encode_datagram (seq_new 7) sample_frame) default_budgets =
     Inr \<lparr>dg_sequence = seq_new 7, dg_frames = [sample_frame]\<rparr>"
  by (rule datagram_roundtrip)
    (simp_all add: sample_frame_def frame_wf_def reliable_def sequenced_def ordered_def
      default_budgets_def isize_max_def encode_datagram_def encode_frame_def)

text \<open>C31: acknowledgements round trip: an ACK names exactly the received datagram, a NACK
  exactly the missing range.\<close>

theorem acknowledgement_roundtrip:
  assumes "seq_ok s" and "seq_ok e"
  shows "decode_acknowledgement (encode_ack s) = Inr (Some (Ack [(s, s)])) \<and>
         decode_acknowledgement (encode_nack s e) = Inr (Some (Nack [(s, e)]))"
proof -
  have ranges: "parses (decode_ranges 1 []) ([if s = e then 1 else 0] @ write_u24_le (seq_value s)
      @ (if s \<noteq> e then write_u24_le (seq_value e) else [])) [(s, e)]" if "seq_ok e" for e
    unfolding One_nat_def decode_ranges.simps
  proof (rule parses_bind [OF parses_u8 parses_bind [OF parses_u24_le]])
    show "parses (let start = seq_new (of_le_bytes (write_u24_le (seq_value s))) in
        sbind (if (if s = e then 1 else 0 :: u8) \<noteq> 0 then sret start
               else sbind rk_u24_le (\<lambda>w. sret (seq_new w)))
          (\<lambda>end'. sret ([] @ [(start, end')])))
        (if s \<noteq> e then write_u24_le (seq_value e) else []) [(s, e)]"
      using assms that
      by (cases "s = e")
        (auto simp: Let_def intro!: parses_bind_Nil [OF parses_sret] parses_bind_last parses_sret_eq
          parses_bind_last [OF parses_u24_le])
  qed
  have whole: "parses (sbind rk_u8 (\<lambda>_. sbind rk_u16_be (\<lambda>count.
        sbind (decode_ranges (unat count) []) (\<lambda>ranges.
        sret (Some (if pid = 0xc0 then Ack ranges else Nack ranges))))))
      (encode_ack_range pid s e) (Some (if pid = 0xc0 then Ack [(s, e)] else Nack [(s, e)]))"
    if "seq_ok e" for pid e
    unfolding encode_ack_range_def
    by (intro parses_bind [OF parses_u8] parses_bind [OF parses_u16_be] parses_bind_last)
      (use ranges [OF that] in auto)
  have run: "decode_acknowledgement (encode_ack_range pid s e) =
      Inr (Some (if pid = 0xc0 then Ack [(s, e)] else Nack [(s, e)]))"
    if "seq_ok e" "pid \<in> {0xa0, 0xc0}" for pid e
    using that parses_run [OF whole, of e pid]
    by (auto simp: decode_acknowledgement_def encode_ack_range_def isize_max_def)
  show ?thesis
    using assms run [of s "0xc0"] run [of e "0xa0"] by (simp add: encode_ack_def encode_nack_def)
qed

theorem acknowledgement_roundtrip_witness:
  "decode_acknowledgement (encode_nack (seq_new 0xFFFFFF) (seq_new 2)) =
     Inr (Some (Nack [(seq_new 0xFFFFFF, seq_new 2)]))"
  using acknowledgement_roundtrip [of "seq_new 0xFFFFFF" "seq_new 2"] by simp

end
