(* ===== verification/RakNet_Peer.thy ===== *)
theory RakNet_Peer
  imports RakNet_Wire
begin

unbundle bit_operations_syntax

text \<open>
  The crate \<open>revy-raknet\<close>, file \<open>peer.rs\<close>: the state of \<open>PeerActor\<close> and its handlers for
  datagrams, acknowledgements, frames, fragments, ordered delivery, sending, timers.

  \<^item> A handler is a state-result function on \<open>peer_actor\<close>. What the handler does outside the
    actor is recorded in it: \<open>pa_sent\<close> are the datagrams given to the UDP socket, oldest first,
    \<open>pa_accepted_peers\<close> counts the peers handed to the accept queue.
  \<^item> \<open>peer_env\<close> is what a handler reads from its surroundings: the clock (one reading per
    handler, in nanoseconds), the wall clock, whether the socket takes a datagram, whether the
    accept queue is open, and the iteration order of a hash map's keys.
  \<^item> The inbox and the activity instant sit behind a mutex in Rust; a handler is one atomic step
    here, and other tasks act between steps.
  \<^item> \<open>Instant\<close> is a natural number of nanoseconds since the clock's origin; \<open>checked_sub\<close>
    fails below the origin.
\<close>

section \<open>State\<close>

record unacked_datagram =
  ud_bytes :: bytes
  ud_sent_at :: nat
  ud_attempts :: u16

type_synonym reassembly = "bytes option list"

record peer_inbox =
  ib_queue :: "bytes list"
  ib_closed :: bool
  ib_capacity :: nat

record peer_actor =
  pa_remote_addr :: socket_addr
  pa_mtu :: u16
  pa_budgets :: raknet_budgets
  pa_inbox :: peer_inbox
  pa_last_observed :: nat
  pa_accepted :: bool
  pa_next_datagram :: datagram_sequence
  pa_next_reliable :: reliable_sequence
  pa_next_ordered :: order_sequence
  pa_next_split_id :: u16
  pa_last_datagram :: "datagram_sequence option"
  pa_seen_datagrams :: "datagram_sequence set"
  pa_seen_datagram_order :: "datagram_sequence list"
  pa_seen_reliable :: "reliable_sequence set"
  pa_seen_reliable_order :: "reliable_sequence list"
  pa_ordered_expected :: "(u8, order_sequence) hash_map"
  pa_sequenced_latest :: "(u8, order_sequence) hash_map"
  pa_ordered_holdback :: "(u8 \<times> order_sequence, bytes) hash_map"
  pa_reassembly :: "(u16, reassembly) hash_map"
  pa_reassembly_bytes :: nat
  pa_reassembly_parts :: nat
  pa_unacked :: "(datagram_sequence, unacked_datagram) hash_map"
  pa_sent :: "bytes list"
  pa_accepted_peers :: nat

record peer_env =
  env_now :: nat
  env_epoch_millis :: i64
  env_send_ok :: "bytes \<Rightarrow> bool"
  env_accept_open :: bool
  env_hash_order :: "datagram_sequence list \<Rightarrow> datagram_sequence list"

type_synonym 'a peer_op = "(peer_actor, raknet_error, 'a) sr"

definition nanos_per_milli :: nat where
  "nanos_per_milli = 1000000"

definition RETRANSMIT_BASE_DELAY :: nat where
  "RETRANSMIT_BASE_DELAY = 200 * nanos_per_milli"

definition RETRANSMIT_MAX_BACKOFF_SHIFT :: nat where
  "RETRANSMIT_MAX_BACKOFF_SHIFT = 3"

definition PEER_TIMEOUT :: nat where
  "PEER_TIMEOUT = 12000 * nanos_per_milli"

definition MAX_RETRANSMIT_ATTEMPTS :: u16 where
  "MAX_RETRANSMIT_ATTEMPTS = 60"

definition DATAGRAM_HEADER_BUDGET :: nat where
  "DATAGRAM_HEADER_BUDGET = 64"

definition retransmit_delay :: "u16 \<Rightarrow> nat" where
  "retransmit_delay attempts =
     (let shift = min (unat (saturating_sub_word attempts 1)) RETRANSMIT_MAX_BACKOFF_SHIFT
      in RETRANSMIT_BASE_DELAY * 2 ^ shift)"

definition in_range :: "datagram_sequence \<Rightarrow> datagram_sequence \<times> datagram_sequence \<Rightarrow> bool" where
  "in_range s bounds =
     (wrapping_distance_from s (fst bounds) \<le> wrapping_distance_from (snd bounds) (fst bounds))"

definition duplicate_window_limit :: "raknet_budgets \<Rightarrow> nat" where
  "duplicate_window_limit b = max (usize_saturating_mul (max_unacked_datagrams b) 2) 1"

section \<open>Inbox and activity\<close>

definition inbox_new :: "nat \<Rightarrow> peer_inbox" where
  "inbox_new capacity = \<lparr>ib_queue = [], ib_closed = False, ib_capacity = capacity\<rparr>"

definition inbox_push :: "bytes \<Rightarrow> peer_inbox \<Rightarrow> raknet_error + peer_inbox" where
  "inbox_push payload ib =
     bind_res (ensure_budget ''application queue entries''
                 (usize_saturating_add (length (ib_queue ib)) 1) (ib_capacity ib))
       (\<lambda>_. Inr (ib\<lparr>ib_queue := ib_queue ib @ [payload]\<rparr>))"

text \<open>One poll of \<open>PeerInbox::receive\<close>: \<open>None\<close> is "wait for a notification".\<close>

definition inbox_receive :: "peer_inbox \<Rightarrow> (raknet_error + bytes) option \<times> peer_inbox" where
  "inbox_receive ib =
     (case ib_queue ib of
        payload # q \<Rightarrow> (Some (Inr payload), ib\<lparr>ib_queue := q\<rparr>)
      | [] \<Rightarrow> (if ib_closed ib then Some (Inl Closed) else None, ib))"

definition inbox_close :: "peer_inbox \<Rightarrow> peer_inbox" where
  "inbox_close ib = ib\<lparr>ib_closed := True\<rparr>"

definition activity_observe :: "nat \<Rightarrow> nat \<Rightarrow> nat" where
  "activity_observe observed_at current = (if observed_at > current then observed_at else current)"

definition instant_checked_sub :: "nat \<Rightarrow> nat \<Rightarrow> nat option" where
  "instant_checked_sub t d = (if d \<le> t then Some (t - d) else None)"

definition rebase_instant :: "nat \<Rightarrow> nat \<Rightarrow> nat \<Rightarrow> nat" where
  "rebase_instant frozen_at resumed_at t =
     (let elapsed = frozen_at - t
      in case instant_checked_sub resumed_at elapsed of Some u \<Rightarrow> u | None \<Rightarrow> resumed_at)"

definition activity_resume :: "nat \<Rightarrow> nat \<Rightarrow> nat \<Rightarrow> nat" where
  "activity_resume frozen_at resumed_at observed = rebase_instant frozen_at resumed_at observed"

definition push_inbox :: "bytes \<Rightarrow> unit peer_op" where
  "push_inbox payload a =
     (case inbox_push payload (pa_inbox a) of
        Inl e \<Rightarrow> (Inl e, a)
      | Inr ib \<Rightarrow> (Inr (), a\<lparr>pa_inbox := ib\<rparr>))"

section \<open>Construction\<close>

definition peer_new ::
  "socket_addr \<Rightarrow> u16 \<Rightarrow> raknet_budgets \<Rightarrow> peer_inbox \<Rightarrow> nat \<Rightarrow> peer_actor" where
  "peer_new remote_addr mtu budgets inbox last_observed = \<lparr>
     pa_remote_addr = remote_addr, pa_mtu = mtu, pa_budgets = budgets, pa_inbox = inbox,
     pa_last_observed = last_observed, pa_accepted = False,
     pa_next_datagram = Seq24 0, pa_next_reliable = Seq24 0, pa_next_ordered = Seq24 0,
     pa_next_split_id = 0, pa_last_datagram = None,
     pa_seen_datagrams = {}, pa_seen_datagram_order = [],
     pa_seen_reliable = {}, pa_seen_reliable_order = [],
     pa_ordered_expected = [], pa_sequenced_latest = [], pa_ordered_holdback = [],
     pa_reassembly = [], pa_reassembly_bytes = 0, pa_reassembly_parts = 0,
     pa_unacked = [], pa_sent = [], pa_accepted_peers = 0\<rparr>"

section \<open>Sending\<close>

definition socket_send :: "peer_env \<Rightarrow> bytes \<Rightarrow> unit peer_op" where
  "socket_send env bs a =
     (if env_send_ok env bs then (Inr (), a\<lparr>pa_sent := pa_sent a @ [bs]\<rparr>) else (Inl Io, a))"

definition send_frame :: "peer_env \<Rightarrow> frame \<Rightarrow> unit peer_op" where
  "send_frame env f =
     sbind (sget (\<lambda>a. ensure_budget ''unacknowledged datagrams''
        (usize_saturating_add (length (pa_unacked a)) 1) (max_unacked_datagrams (pa_budgets a)))) (\<lambda>res.
     sbind (slift res) (\<lambda>_.
     sbind (sget pa_next_datagram) (\<lambda>s.
     sbind (smod (\<lambda>a. a\<lparr>pa_next_datagram := seq_next (pa_next_datagram a)\<rparr>)) (\<lambda>_.
     let bs = encode_datagram s f in
     sbind (sget (\<lambda>a. ensure_budget ''datagram bytes'' (length bs) (max_datagram_bytes (pa_budgets a))))
       (\<lambda>res'.
     sbind (slift res') (\<lambda>_.
     sbind (socket_send env bs) (\<lambda>_.
     smod (\<lambda>a. a\<lparr>pa_unacked := AList.update s
        \<lparr>ud_bytes = bs, ud_sent_at = env_now env, ud_attempts = 1\<rparr> (pa_unacked a)\<rparr>))))))))"

fun chunks_fuel :: "nat \<Rightarrow> nat \<Rightarrow> bytes \<Rightarrow> bytes list" where
  "chunks_fuel 0 n xs = []"
| "chunks_fuel (Suc k) n xs = (if xs = [] then [] else take n xs # chunks_fuel k n (drop n xs))"

definition chunks :: "nat \<Rightarrow> bytes \<Rightarrow> bytes list" where
  "chunks n xs = chunks_fuel (length xs) n xs"

definition reliable_ordered_frame ::
  "reliable_sequence \<Rightarrow> order_sequence \<Rightarrow> split_header option \<Rightarrow> bytes \<Rightarrow> frame" where
  "reliable_ordered_frame reliable_index order_index split payload = \<lparr>
     fr_reliability = ReliableOrdered, fr_reliable_index = Some reliable_index,
     fr_sequence_index = None, fr_order_index = Some order_index, fr_order_channel = 0,
     fr_split = split, fr_payload = payload\<rparr>"

definition send_fragment ::
  "peer_env \<Rightarrow> order_sequence \<Rightarrow> nat \<Rightarrow> u16 \<Rightarrow> nat \<times> bytes \<Rightarrow> unit peer_op" where
  "send_fragment env order_index fragment_count sid = (\<lambda>(fragment_index, chunk).
     sbind (sget pa_next_reliable) (\<lambda>reliable_index.
     sbind (smod (\<lambda>a. a\<lparr>pa_next_reliable := seq_next (pa_next_reliable a)\<rparr>)) (\<lambda>_.
     let split = (if fragment_count > 1
                  then Some \<lparr>split_count = word_of_nat fragment_count, split_id = sid,
                             split_index = word_of_nat fragment_index\<rparr>
                  else None)
     in send_frame env (reliable_ordered_frame reliable_index order_index split chunk))))"

definition send_reliable_ordered :: "peer_env \<Rightarrow> bytes \<Rightarrow> unit peer_op" where
  "send_reliable_ordered env payload =
     sbind (sget (\<lambda>a. unat (pa_mtu a) - DATAGRAM_HEADER_BUDGET)) (\<lambda>fragment_capacity.
     if fragment_capacity = 0 then sfail (Wire ''negotiated mtu is too small'')
     else
     sbind (sget pa_next_ordered) (\<lambda>order_index.
     sbind (smod (\<lambda>a. a\<lparr>pa_next_ordered := seq_next (pa_next_ordered a)\<rparr>)) (\<lambda>_.
     let fragment_count = max (div_ceil (length payload) fragment_capacity) 1 in
     if fragment_count \<ge> 2 ^ 32 then sfail (Wire ''fragment count exceeded u32'')
     else
     sbind (sget pa_next_split_id) (\<lambda>sid.
     sbind (smod (\<lambda>a. a\<lparr>pa_next_split_id := pa_next_split_id a + 1\<rparr>)) (\<lambda>_.
     sbind (sfor (enumerate 0 (chunks fragment_capacity payload))
              (send_fragment env order_index fragment_count sid)) (\<lambda>_.
     if payload = [] then
       sbind (sget pa_next_reliable) (\<lambda>reliable_index.
       sbind (smod (\<lambda>a. a\<lparr>pa_next_reliable := seq_next (pa_next_reliable a)\<rparr>)) (\<lambda>_.
       send_frame env (reliable_ordered_frame reliable_index order_index None payload)))
     else sret ()))))))"

definition send_application :: "peer_env \<Rightarrow> bytes \<Rightarrow> unit peer_op" where
  "send_application env payload =
     sbind (sget pa_accepted) (\<lambda>acc.
     if \<not> acc then sfail (Wire ''application payload sent before online handshake completed'')
     else
     sbind (sget (\<lambda>a. ensure_budget ''application payload bytes'' (length payload)
                        (max_payload_bytes (pa_budgets a)))) (\<lambda>res.
     sbind (slift res) (\<lambda>_. send_reliable_ordered env payload)))"

section \<open>Delivering\<close>

definition deliver_payload :: "peer_env \<Rightarrow> bytes \<Rightarrow> unit peer_op" where
  "deliver_payload env payload =
     sbind (slift (decode_connection_request payload)) (\<lambda>request.
     case request of
       Some request_time \<Rightarrow>
         sbind (sget pa_remote_addr) (\<lambda>addr.
         send_reliable_ordered env (encode_connection_accept addr request_time (env_epoch_millis env)))
     | None \<Rightarrow>
         sbind (slift (decode_connected_ping payload)) (\<lambda>ping.
         case ping of
           Some ping_time \<Rightarrow>
             send_reliable_ordered env (encode_connected_pong ping_time (env_epoch_millis env))
         | None \<Rightarrow>
             sbind (sget pa_accepted) (\<lambda>acc.
             let first = (case payload of [] \<Rightarrow> None | b # _ \<Rightarrow> Some b) in
             if first = Some 0x13 \<and> \<not> acc then
               sbind (smod (\<lambda>a. a\<lparr>pa_accepted := True\<rparr>)) (\<lambda>_.
               if env_accept_open env
               then smod (\<lambda>a. a\<lparr>pa_accepted_peers := pa_accepted_peers a + 1\<rparr>)
               else sfail Closed)
             else if first = Some 0x13 \<or> first = Some 0x03 then sret ()
             else if first = Some 0x15 \<or> first = Some 0x1c then sfail Closed
             else if acc then push_inbox payload
             else sret ())))"

section \<open>Ordered delivery\<close>

definition expected_of :: "peer_actor \<Rightarrow> u8 \<Rightarrow> order_sequence" where
  "expected_of a channel =
     (case map_of (pa_ordered_expected a) channel of None \<Rightarrow> Seq24 0 | Some e \<Rightarrow> e)"

text \<open>The sending half changes the counters of the sender, the unacknowledged datagrams and the
  socket, and nothing else.\<close>

definition receive_part :: "peer_actor \<Rightarrow> peer_actor" where
  "receive_part a = a\<lparr>pa_next_datagram := Seq24 0, pa_next_reliable := Seq24 0,
     pa_next_ordered := Seq24 0, pa_next_split_id := 0, pa_unacked := [], pa_sent := []\<rparr>"

lemma socket_send_preserves [preserves_intros]:
  "(\<And>a bs. I a \<Longrightarrow> I (a\<lparr>pa_sent := bs\<rparr>)) \<Longrightarrow> preserves I (socket_send env bs)"
  by (simp add: preserves_def socket_send_def)

lemma send_frame_receive_part [preserves_intros]:
  "preserves (\<lambda>a. receive_part a = c) (send_frame env f)"
  unfolding send_frame_def Let_def by (intro preserves_intros) (simp_all add: receive_part_def)

lemma send_reliable_ordered_receive_part [preserves_intros]:
  "preserves (\<lambda>a. receive_part a = c) (send_reliable_ordered env payload)"
  unfolding send_reliable_ordered_def send_fragment_def Let_def
  by (intro preserves_intros) (simp_all add: receive_part_def)

lemma receive_part_holdback:
  "receive_part a = receive_part b \<Longrightarrow> pa_ordered_holdback a = pa_ordered_holdback b"
  by (drule arg_cong [where f = pa_ordered_holdback]) (simp add: receive_part_def)

lemma send_reliable_ordered_holdback [preserves_intros]:
  "preserves (\<lambda>a. pa_ordered_holdback a = c) (send_reliable_ordered env payload)"
  using send_reliable_ordered_receive_part receive_part_holdback
  unfolding preserves_def by metis

lemma deliver_payload_holdback:
  "preserves (\<lambda>a. pa_ordered_holdback a = c) (deliver_payload env payload)"
  unfolding deliver_payload_def Let_def
  by (intro preserves_intros) (auto simp: preserves_def push_inbox_def split: sum.split)

lemma deliver_payload_keeps_holdback [simp]:
  "pa_ordered_holdback (snd (deliver_payload env payload a)) = pa_ordered_holdback a"
  using preservesD [OF deliver_payload_holdback refl] .

lemma deliver_payload_holdback_eq:
  "(res, a') = deliver_payload env payload a \<Longrightarrow> pa_ordered_holdback a' = pa_ordered_holdback a"
  by (metis deliver_payload_keeps_holdback snd_conv)

text \<open>The loop after an in-order payload: it takes every held payload that became next. Each
  round removes one held payload.\<close>

function drain_holdback :: "peer_env \<Rightarrow> u8 \<Rightarrow> unit peer_op" where
  "drain_holdback env channel a =
     (let expected = expected_of a channel in
      case map_of (pa_ordered_holdback a) (channel, expected) of
        None \<Rightarrow> (Inr (), a)
      | Some payload \<Rightarrow>
          (case deliver_payload env payload
                  (a\<lparr>pa_ordered_holdback := AList.delete (channel, expected) (pa_ordered_holdback a),
                     pa_ordered_expected :=
                       AList.update channel (seq_next expected) (pa_ordered_expected a)\<rparr>) of
             (Inl e, a') \<Rightarrow> (Inl e, a')
           | (Inr _, a') \<Rightarrow> drain_holdback env channel a'))"
  by pat_completeness auto
termination
  by (relation "measure (\<lambda>(_, _, a). length (pa_ordered_holdback a))")
    (auto dest!: deliver_payload_holdback_eq simp: length_delete_less)

declare drain_holdback.simps [simp del]

definition accept_ordered :: "peer_env \<Rightarrow> u8 \<Rightarrow> order_sequence \<Rightarrow> bytes \<Rightarrow> unit peer_op" where
  "accept_ordered env channel s payload =
     sbind (smod (\<lambda>a. a\<lparr>pa_ordered_expected :=
        (case map_of (pa_ordered_expected a) channel of
           None \<Rightarrow> AList.update channel (Seq24 0) (pa_ordered_expected a)
         | Some _ \<Rightarrow> pa_ordered_expected a)\<rparr>)) (\<lambda>_.
     sbind (sget (\<lambda>a. expected_of a channel)) (\<lambda>expected.
     if s = expected then
       sbind (smod (\<lambda>a. a\<lparr>pa_ordered_expected :=
          AList.update channel (seq_next expected) (pa_ordered_expected a)\<rparr>)) (\<lambda>_.
       sbind (deliver_payload env payload) (\<lambda>_.
       drain_holdback env channel))
     else if is_newer_than s expected then
       sbind (sget (\<lambda>a. ensure_budget ''ordered holdback entries''
          (usize_saturating_add (length (pa_ordered_holdback a)) 1)
          (max_ordered_holdback (pa_budgets a)))) (\<lambda>res.
       sbind (slift res) (\<lambda>_.
       smod (\<lambda>a. a\<lparr>pa_ordered_holdback :=
          (case map_of (pa_ordered_holdback a) (channel, s) of
             None \<Rightarrow> AList.update (channel, s) payload (pa_ordered_holdback a)
           | Some _ \<Rightarrow> pa_ordered_holdback a)\<rparr>)))
     else sret ()))"

section \<open>Fragments\<close>

definition parts_bytes :: "reassembly \<Rightarrow> nat" where
  "parts_bytes parts = sum_list (map (\<lambda>part. case part of None \<Rightarrow> 0 | Some bs \<Rightarrow> length bs) parts)"

definition join_parts :: "reassembly \<Rightarrow> bytes" where
  "join_parts parts = concat (map (\<lambda>part. case part of None \<Rightarrow> [] | Some bs \<Rightarrow> bs) parts)"

definition open_reassembly :: "u16 \<Rightarrow> nat \<Rightarrow> peer_actor \<Rightarrow> peer_actor" where
  "open_reassembly sid count a =
     (if map_of (pa_reassembly a) sid = None
      then a\<lparr>pa_reassembly_parts := usize_saturating_add (pa_reassembly_parts a) count,
             pa_reassembly := AList.update sid (replicate count None) (pa_reassembly a)\<rparr>
      else a)"

definition store_fragment :: "u16 \<Rightarrow> nat \<Rightarrow> bytes \<Rightarrow> reassembly \<Rightarrow> unit peer_op" where
  "store_fragment sid index payload parts =
     (if parts ! index = None then
        sbind (sget (\<lambda>a. ensure_budget ''reassembly bytes per peer''
           (usize_saturating_add (pa_reassembly_bytes a) (length payload))
           (max_reassembly_bytes_per_peer (pa_budgets a)))) (\<lambda>res.
        sbind (slift res) (\<lambda>_.
        smod (\<lambda>a. a\<lparr>pa_reassembly_bytes :=
                       usize_saturating_add (pa_reassembly_bytes a) (length payload),
                     pa_reassembly :=
                       AList.update sid (parts[index := Some payload]) (pa_reassembly a)\<rparr>)))
      else sret ())"

definition complete_reassembly :: "u16 \<Rightarrow> bytes option peer_op" where
  "complete_reassembly sid =
     sbind (sget (\<lambda>a. the (map_of (pa_reassembly a) sid))) (\<lambda>parts.
     if None \<in> set parts then sret None
     else
     sbind (smod (\<lambda>a. a\<lparr>pa_reassembly := AList.delete sid (pa_reassembly a),
                         pa_reassembly_parts := pa_reassembly_parts a - length parts,
                         pa_reassembly_bytes := pa_reassembly_bytes a - parts_bytes parts\<rparr>)) (\<lambda>_.
     sret (Some (join_parts parts))))"

definition accept_fragment :: "split_header \<Rightarrow> bytes \<Rightarrow> bytes option peer_op" where
  "accept_fragment sp payload =
     (let count = unat (split_count sp); index = unat (split_index sp); sid = split_id sp in
      if count = 0 \<or> index \<ge> count then sfail (Wire ''invalid fragment range'')
      else
      sbind (sget (\<lambda>a. ensure_budget ''reassembly parts per peer''
         (usize_saturating_add (pa_reassembly_parts a)
            ((if map_of (pa_reassembly a) sid = None then 1 else 0) * count))
         (max_reassembly_parts_per_peer (pa_budgets a)))) (\<lambda>res.
      sbind (slift res) (\<lambda>_.
      sbind (smod (open_reassembly sid count)) (\<lambda>_.
      sbind (sget (\<lambda>a. the (map_of (pa_reassembly a) sid))) (\<lambda>parts.
      if length parts \<noteq> count then sfail (Wire ''fragment count changed within split sequence'')
      else
      sbind (store_fragment sid index payload parts) (\<lambda>_.
      complete_reassembly sid))))))"

section \<open>Receiving\<close>

text \<open>Eviction from a duplicate window: \<open>while order.len() > limit\<close> pop the oldest.\<close>

fun evict :: "nat \<Rightarrow> seq24 list \<Rightarrow> seq24 set \<Rightarrow> seq24 list \<times> seq24 set" where
  "evict lim [] seen = ([], seen)"
| "evict lim (x # order) seen =
     (if length (x # order) > lim then evict lim order (seen - {x}) else (x # order, seen))"

definition note_reliable :: "reliable_sequence \<Rightarrow> peer_actor \<Rightarrow> peer_actor" where
  "note_reliable idx a =
     (let (order, seen) = evict (duplicate_window_limit (pa_budgets a))
            (pa_seen_reliable_order a @ [idx]) (insert idx (pa_seen_reliable a))
      in a\<lparr>pa_seen_reliable_order := order, pa_seen_reliable := seen\<rparr>)"

definition note_datagram :: "datagram_sequence \<Rightarrow> peer_actor \<Rightarrow> peer_actor" where
  "note_datagram s a =
     (let (order, seen) = evict (duplicate_window_limit (pa_budgets a))
            (pa_seen_datagram_order a @ [s]) (insert s (pa_seen_datagrams a))
      in a\<lparr>pa_seen_datagram_order := order, pa_seen_datagrams := seen\<rparr>)"

definition route_payload :: "peer_env \<Rightarrow> frame \<Rightarrow> bytes \<Rightarrow> unit peer_op" where
  "route_payload env f payload =
     (if sequenced (fr_reliability f) then
        (case fr_sequence_index f of
           None \<Rightarrow> sfail (Wire ''sequenced frame lacked sequence index'')
         | Some s \<Rightarrow>
             sbind (sget (\<lambda>a. map_of (pa_sequenced_latest a) (fr_order_channel f))) (\<lambda>latest.
             if (case latest of None \<Rightarrow> False | Some l \<Rightarrow> \<not> is_newer_than s l) then sret ()
             else
             sbind (smod (\<lambda>a. a\<lparr>pa_sequenced_latest :=
                AList.update (fr_order_channel f) s (pa_sequenced_latest a)\<rparr>)) (\<lambda>_.
             deliver_payload env payload)))
      else if ordered (fr_reliability f) then
        (case fr_order_index f of
           None \<Rightarrow> sfail (Wire ''ordered frame lacked order index'')
         | Some s \<Rightarrow> accept_ordered env (fr_order_channel f) s payload)
      else deliver_payload env payload)"

definition receive_unique_frame :: "peer_env \<Rightarrow> frame \<Rightarrow> unit peer_op" where
  "receive_unique_frame env f =
     (case fr_split f of
        None \<Rightarrow> route_payload env f (fr_payload f)
      | Some sp \<Rightarrow>
          sbind (accept_fragment sp (fr_payload f)) (\<lambda>complete.
          case complete of None \<Rightarrow> sret () | Some payload \<Rightarrow> route_payload env f payload))"

definition receive_frame :: "peer_env \<Rightarrow> frame \<Rightarrow> unit peer_op" where
  "receive_frame env f =
     (case fr_reliable_index f of
        None \<Rightarrow> receive_unique_frame env f
      | Some idx \<Rightarrow>
          sbind (sget (\<lambda>a. idx \<in> pa_seen_reliable a)) (\<lambda>dup.
          if dup then sret ()
          else sbind (smod (note_reliable idx)) (\<lambda>_. receive_unique_frame env f)))"

section \<open>Acknowledgements and retransmission\<close>

definition retransmit :: "peer_env \<Rightarrow> datagram_sequence \<Rightarrow> unit peer_op" where
  "retransmit env s =
     sbind (sget (\<lambda>a. map_of (pa_unacked a) s)) (\<lambda>entry.
     case entry of
       None \<Rightarrow> sret ()
     | Some d \<Rightarrow>
         if ud_attempts d \<ge> MAX_RETRANSMIT_ATTEMPTS
         then sfail (RetransmitExhausted (seq_value s) (ud_attempts d))
         else
         sbind (socket_send env (ud_bytes d)) (\<lambda>_.
         smod (\<lambda>a. a\<lparr>pa_unacked := AList.update s
            (d\<lparr>ud_sent_at := env_now env, ud_attempts := saturating_add_word (ud_attempts d) 1\<rparr>)
            (pa_unacked a)\<rparr>)))"

definition apply_acknowledgement :: "peer_env \<Rightarrow> acknowledgement \<Rightarrow> unit peer_op" where
  "apply_acknowledgement env ack =
     (case ack of
        Ack ranges \<Rightarrow>
          smod (\<lambda>a. a\<lparr>pa_unacked :=
            hm_retain (\<lambda>s. \<not> list_ex (in_range s) ranges) (pa_unacked a)\<rparr>)
      | Nack ranges \<Rightarrow>
          sbind (sget (\<lambda>a. filter (\<lambda>s. list_ex (in_range s) ranges)
                    (env_hash_order env (map fst (pa_unacked a))))) (\<lambda>ss.
          sfor ss (retransmit env)))"

definition receive_datagram :: "peer_env \<Rightarrow> bytes \<Rightarrow> unit peer_op" where
  "receive_datagram env bs =
     sbind (smod (\<lambda>a. a\<lparr>pa_last_observed := activity_observe (env_now env) (pa_last_observed a)\<rparr>)) (\<lambda>_.
     sbind (slift (decode_acknowledgement bs)) (\<lambda>ack.
     case ack of
       Some acknowledgement \<Rightarrow> apply_acknowledgement env acknowledgement
     | None \<Rightarrow>
         sbind (sget (\<lambda>a. decode_datagram bs (pa_budgets a))) (\<lambda>res.
         sbind (slift res) (\<lambda>d.
         sbind (socket_send env (encode_ack (dg_sequence d))) (\<lambda>_.
         sbind (sget (\<lambda>a. dg_sequence d \<in> pa_seen_datagrams a)) (\<lambda>dup.
         if dup then sret ()
         else
         sbind (smod (note_datagram (dg_sequence d))) (\<lambda>_.
         sbind (sget pa_last_datagram) (\<lambda>last.
         sbind (case last of
                  Some previous \<Rightarrow>
                    sbind (if is_newer_than (dg_sequence d) previous \<and>
                              wrapping_distance_from (dg_sequence d) previous > 1
                           then socket_send env
                                  (encode_nack (seq_next previous) (seq_previous (dg_sequence d)))
                           else sret ()) (\<lambda>_.
                    if is_newer_than (dg_sequence d) previous
                    then smod (\<lambda>a. a\<lparr>pa_last_datagram := Some (dg_sequence d)\<rparr>)
                    else sret ())
                | None \<Rightarrow> smod (\<lambda>a. a\<lparr>pa_last_datagram := Some (dg_sequence d)\<rparr>)) (\<lambda>_.
         sfor (dg_frames d) (receive_frame env))))))))))"

section \<open>Timers\<close>

definition on_timer :: "peer_env \<Rightarrow> unit peer_op" where
  "on_timer env =
     sbind (sget (\<lambda>a. env_now env - pa_last_observed a \<ge> PEER_TIMEOUT)) (\<lambda>expired.
     if expired then sfail PeerTimeout
     else
     sbind (sget (\<lambda>a. filter (\<lambda>s. case map_of (pa_unacked a) s of
                  None \<Rightarrow> False
                | Some d \<Rightarrow> env_now env - ud_sent_at d \<ge> retransmit_delay (ud_attempts d))
               (env_hash_order env (map fst (pa_unacked a))))) (\<lambda>due.
     sfor due (retransmit env)))"

definition next_timer_deadline :: "peer_actor \<Rightarrow> nat" where
  "next_timer_deadline a =
     (let timeout = pa_last_observed a + PEER_TIMEOUT
      in fold (\<lambda>e acc. min (ud_sent_at (snd e) + retransmit_delay (ud_attempts (snd e))) acc)
           (pa_unacked a) timeout)"

definition resume_timers :: "nat \<Rightarrow> nat \<Rightarrow> peer_actor \<Rightarrow> peer_actor" where
  "resume_timers frozen_at resumed_at a = a\<lparr>
     pa_last_observed := activity_resume frozen_at resumed_at (pa_last_observed a),
     pa_unacked := map (\<lambda>(s, d). (s, d\<lparr>ud_sent_at := rebase_instant frozen_at resumed_at (ud_sent_at d)\<rparr>))
                     (pa_unacked a)\<rparr>"

section \<open>The invariant of a peer\<close>

text \<open>
  \<^item> The datagrams awaiting acknowledgement are at most the budget, each fits a datagram and has
    been sent between once and the retransmission limit.
  \<^item> A duplicate window is the set of a bounded list of distinct sequence numbers.
  \<^item> The fragment counters are exactly the parts and bytes held, every assembly in progress has
    a missing part, and both totals stay inside their budgets.
  \<^item> The holdback and the application queue stay inside their budgets.
\<close>

definition unacked_ok :: "raknet_budgets \<Rightarrow> datagram_sequence \<times> unacked_datagram \<Rightarrow> bool" where
  "unacked_ok b e \<longleftrightarrow> seq_ok (fst e) \<and> length (ud_bytes (snd e)) \<le> max_datagram_bytes b \<and>
     1 \<le> ud_attempts (snd e) \<and> ud_attempts (snd e) \<le> MAX_RETRANSMIT_ATTEMPTS"

definition unacked_inv :: "raknet_budgets \<Rightarrow> (datagram_sequence, unacked_datagram) hash_map \<Rightarrow> bool" where
  "unacked_inv b m \<longleftrightarrow> hm_ok m \<and> length m \<le> max_unacked_datagrams b \<and>
     (\<forall>e \<in> set m. unacked_ok b e)"

definition window_ok :: "nat \<Rightarrow> seq24 list \<Rightarrow> seq24 set \<Rightarrow> bool" where
  "window_ok lim order seen \<longleftrightarrow> seen = set order \<and> distinct order \<and> length order \<le> lim"

definition holdback_inv :: "raknet_budgets \<Rightarrow> (u8 \<times> order_sequence, bytes) hash_map \<Rightarrow> bool" where
  "holdback_inv b m \<longleftrightarrow> hm_ok m \<and> length m \<le> max_ordered_holdback b"

definition total_parts :: "(u16, reassembly) hash_map \<Rightarrow> nat" where
  "total_parts m = sum_list (map (length \<circ> snd) m)"

definition total_bytes :: "(u16, reassembly) hash_map \<Rightarrow> nat" where
  "total_bytes m = sum_list (map (parts_bytes \<circ> snd) m)"

definition fragment_inv :: "raknet_budgets \<Rightarrow> (u16, reassembly) hash_map \<Rightarrow> nat \<Rightarrow> nat \<Rightarrow> bool" where
  "fragment_inv b m parts bytes \<longleftrightarrow> hm_ok m \<and> parts = total_parts m \<and> bytes = total_bytes m \<and>
     parts \<le> max_reassembly_parts_per_peer b \<and> bytes \<le> max_reassembly_bytes_per_peer b \<and>
     (\<forall>e \<in> set m. None \<in> set (snd e))"

definition inbox_inv :: "raknet_budgets \<Rightarrow> peer_inbox \<Rightarrow> bool" where
  "inbox_inv b ib \<longleftrightarrow> ib_capacity ib = application_queue b \<and> length (ib_queue ib) \<le> application_queue b"

text \<open>Every budget is below \<open>usize::MAX\<close>: a saturated sum never passes a check.\<close>

definition budgets_ok :: "raknet_budgets \<Rightarrow> bool" where
  "budgets_ok b \<longleftrightarrow> application_queue b < usize_max \<and> max_datagram_bytes b < usize_max \<and>
     max_payload_bytes b < usize_max \<and> max_reassembly_bytes_per_peer b < usize_max \<and>
     max_reassembly_parts_per_peer b < usize_max \<and> max_ordered_holdback b < usize_max \<and>
     max_unacked_datagrams b < usize_max"

definition peer_inv :: "peer_actor \<Rightarrow> bool" where
  "peer_inv a \<longleftrightarrow> budgets_ok (pa_budgets a) \<and>
     seq_ok (pa_next_datagram a) \<and> seq_ok (pa_next_reliable a) \<and> seq_ok (pa_next_ordered a) \<and>
     unacked_inv (pa_budgets a) (pa_unacked a) \<and>
     window_ok (duplicate_window_limit (pa_budgets a)) (pa_seen_datagram_order a) (pa_seen_datagrams a) \<and>
     window_ok (duplicate_window_limit (pa_budgets a)) (pa_seen_reliable_order a) (pa_seen_reliable a) \<and>
     hm_ok (pa_ordered_expected a) \<and> hm_ok (pa_sequenced_latest a) \<and>
     holdback_inv (pa_budgets a) (pa_ordered_holdback a) \<and>
     fragment_inv (pa_budgets a) (pa_reassembly a) (pa_reassembly_parts a) (pa_reassembly_bytes a) \<and>
     inbox_inv (pa_budgets a) (pa_inbox a)"

text \<open>A handler keeps the invariant on success and on error.\<close>

abbreviation keeps_inv :: "'a peer_op \<Rightarrow> bool" where
  "keeps_inv m \<equiv> preserves peer_inv m"

lemma keeps_invI: "(\<And>a. peer_inv a \<Longrightarrow> wp m (\<lambda>_. peer_inv) (\<lambda>_. peer_inv) a) \<Longrightarrow> keeps_inv m"
  by (simp add: preserves_wp)

lemma keeps_inv_wp: "keeps_inv m \<Longrightarrow> peer_inv a \<Longrightarrow> wp m (\<lambda>_. peer_inv) (\<lambda>_. peer_inv) a"
  by (simp add: preserves_wp)

text \<open>One lemma per piece of state and change to it.\<close>

lemma saturating_add_within [simp]:
  "c < usize_max \<Longrightarrow> usize_saturating_add a b \<le> c \<longleftrightarrow> a + b \<le> c"
  by (auto simp: usize_saturating_add_def)

lemma saturating_add_exact:
  "a + b \<le> c \<Longrightarrow> c < usize_max \<Longrightarrow> usize_saturating_add a b = a + b"
  by (simp add: usize_saturating_add_def)

lemma set_update_subset: "set (AList.update k v m) \<subseteq> insert (k, v) (set m)"
  by (induction m) auto

lemma set_delete_subset: "set (AList.delete k m) \<subseteq> set m"
  by (induction m) auto

lemma set_retain_subset: "set (hm_retain p m) \<subseteq> set m"
  by (auto simp: hm_retain_def)

lemma unacked_inv_insert:
  assumes "unacked_inv b m" and "budgets_ok b" and "unacked_ok b (s, d)"
    and "usize_saturating_add (length m) 1 \<le> max_unacked_datagrams b"
  shows "unacked_inv b (AList.update s d m)"
  using assms hm.len_insert_le [of m s d] set_update_subset [of s d m]
  by (auto simp: unacked_inv_def budgets_ok_def)

lemma unacked_inv_replace:
  assumes "unacked_inv b m" and "map_of m s = Some d" and "unacked_ok b (s, d')"
  shows "unacked_inv b (AList.update s d' m)"
  using assms hm.len_insert [of m s d'] set_update_subset [of s d' m]
  by (auto simp: unacked_inv_def)

lemma unacked_inv_retain: "unacked_inv b m \<Longrightarrow> unacked_inv b (hm_retain p m)"
  using length_retain_le [of p m] set_retain_subset [of p m]
  by (auto simp: unacked_inv_def intro: order_trans)

lemma holdback_inv_insert:
  assumes "holdback_inv b m" and "budgets_ok b"
    and "usize_saturating_add (length m) 1 \<le> max_ordered_holdback b"
  shows "holdback_inv b (AList.update k v m)"
  using assms hm.len_insert_le [of m k v] by (auto simp: holdback_inv_def budgets_ok_def)

lemma holdback_inv_remove: "holdback_inv b m \<Longrightarrow> holdback_inv b (AList.delete k m)"
  using hm.len_remove_le [of m k] by (auto simp: holdback_inv_def)

lemma inbox_inv_push:
  "inbox_inv b ib \<Longrightarrow> budgets_ok b \<Longrightarrow> inbox_push payload ib = Inr ib' \<Longrightarrow> inbox_inv b ib'"
  by (auto simp: inbox_inv_def inbox_push_def bind_res_eq_Inr budgets_ok_def)

lemma evict_window:
  assumes "distinct order"
  shows "case evict lim order (set order) of (order', seen') \<Rightarrow> window_ok lim order' seen'"
proof -
  have "set (x # order) - {x} = set order" if "distinct (x # order)" for x :: seq24 and order
    using that by auto
  then show ?thesis
    using assms by (induction order) (auto simp: window_ok_def)
qed

lemma window_ok_note:
  assumes "window_ok lim order seen" and "s \<notin> seen"
    and "evict lim' (order @ [s]) (insert s seen) = (order', seen')"
  shows "window_ok lim' order' seen'"
  using assms evict_window [of "order @ [s]" lim'] by (auto simp: window_ok_def)

section \<open>Every handler keeps the invariant\<close>

lemma keeps_inv_socket_send [preserves_intros]: "keeps_inv (socket_send env bs)"
  by (rule socket_send_preserves) (simp add: peer_inv_def)

lemma wp_socket_send [wp_simps]:
  "wp (socket_send env bs) Q E a \<longleftrightarrow>
     (if env_send_ok env bs then Q () (a\<lparr>pa_sent := pa_sent a @ [bs]\<rparr>) else E Io a)"
  by (simp add: wp_def socket_send_def)

lemma keeps_inv_send_frame [preserves_intros]: "keeps_inv (send_frame env f)"
  by (rule keeps_invI)
    (auto simp: send_frame_def Let_def wp_simps peer_inv_def unacked_ok_def
      MAX_RETRANSMIT_ATTEMPTS_def intro!: unacked_inv_insert)

lemma keeps_inv_send_fragment [preserves_intros]:
  "keeps_inv (send_fragment env order_index fragment_count sid c)"
  unfolding send_fragment_def Let_def
  by (intro preserves_intros) (auto simp: peer_inv_def)

lemma keeps_inv_send_reliable_ordered [preserves_intros]:
  "keeps_inv (send_reliable_ordered env payload)"
  unfolding send_reliable_ordered_def Let_def
  by (intro preserves_intros) (auto simp: peer_inv_def)

lemma keeps_inv_send_application: "keeps_inv (send_application env payload)"
  unfolding send_application_def by (intro preserves_intros)

lemma keeps_inv_push_inbox [preserves_intros]: "keeps_inv (push_inbox payload)"
  by (auto simp: preserves_def push_inbox_def peer_inv_def inbox_inv_push split: sum.splits)

lemma keeps_inv_deliver_payload [preserves_intros]: "keeps_inv (deliver_payload env payload)"
  unfolding deliver_payload_def Let_def
  by (intro preserves_intros) (auto simp: peer_inv_def)

lemma preserves_drain_holdback:
  assumes deliver: "\<And>payload. preserves I (deliver_payload env payload)"
    and update: "\<And>a k e. I a \<Longrightarrow> I (a\<lparr>pa_ordered_holdback := AList.delete k (pa_ordered_holdback a),
        pa_ordered_expected := AList.update channel e (pa_ordered_expected a)\<rparr>)"
  shows "preserves I (drain_holdback env channel)"
proof -
  have "I (snd (drain_holdback env channel a))" if "I a" for a
    using that deliver update
  proof (induction env channel a rule: drain_holdback.induct)
    case (1 env channel a)
    let ?e = "expected_of a channel"
    show ?case
    proof (cases "map_of (pa_ordered_holdback a) (channel, ?e)")
      case None
      with 1 show ?thesis by (simp add: drain_holdback.simps)
    next
      case (Some payload)
      define b where "b = a\<lparr>pa_ordered_holdback := AList.delete (channel, ?e) (pa_ordered_holdback a),
        pa_ordered_expected := AList.update channel (seq_next ?e) (pa_ordered_expected a)\<rparr>"
      have "I b" using 1(2,4) by (simp add: b_def)
      then have b: "I (snd (deliver_payload env payload b))"
        by (rule preservesD [OF 1(3)])
      show ?thesis
      proof (cases "deliver_payload env payload b")
        case (Pair res a')
        with 1(1) [OF refl Some] 1(3,4) b Some show ?thesis
          by (subst drain_holdback.simps) (auto simp: b_def Let_def split: sum.split)
      qed
    qed
  qed
  then show ?thesis by (simp add: preserves_def)
qed

lemma keeps_inv_drain_holdback [preserves_intros]: "keeps_inv (drain_holdback env channel)"
  by (rule preserves_drain_holdback) (auto intro: preserves_intros simp: peer_inv_def holdback_inv_remove)

lemma keeps_inv_accept_ordered [preserves_intros]: "keeps_inv (accept_ordered env channel s payload)"
proof (rule keeps_invI)
  fix a assume inv: "peer_inv a"
  have tail: "wp (sbind (deliver_payload env payload) (\<lambda>_. drain_holdback env channel))
      (\<lambda>_. peer_inv) (\<lambda>_. peer_inv) b" if "peer_inv b" for b
    by (rule keeps_inv_wp [OF _ that]) (intro preserves_intros)
  have entry: "peer_inv (a\<lparr>pa_ordered_expected := m\<rparr>)" if "hm_ok m" for m
    using inv that by (simp add: peer_inv_def)
  show "wp (accept_ordered env channel s payload) (\<lambda>_. peer_inv) (\<lambda>_. peer_inv) a"
    using inv unfolding accept_ordered_def wp_sbind wp_smod wp_sget
    by (auto simp: wp_simps peer_inv_def intro!: tail [unfolded wp_sbind] holdback_inv_insert
        split: option.split)
qed

subsection \<open>Fragments\<close>

lemma sum_update:
  "sum_list (map (f \<circ> snd) (AList.update k v m)) + (case map_of m k of None \<Rightarrow> 0 | Some v0 \<Rightarrow> f v0) =
   sum_list (map (f \<circ> snd) m) + (f v :: nat)"
  by (induction m) (auto split: option.splits)

lemma delete_notin: "map_of m k = None \<Longrightarrow> AList.delete k m = m"
  by (induction m) (auto split: if_splits)

lemma sum_delete:
  "hm_ok m \<Longrightarrow> map_of m k = Some v \<Longrightarrow>
   sum_list (map (f \<circ> snd) (AList.delete k m)) + (f v :: nat) = sum_list (map (f \<circ> snd) m)"
proof (induction m)
  case (Cons e m)
  then show ?case
    by (cases e) (auto simp: hm_ok_def delete_notin map_of_eq_None_iff split: if_splits)
qed simp

lemma parts_bytes_replicate [simp]: "parts_bytes (replicate n None) = 0"
  by (simp add: parts_bytes_def)

lemma parts_bytes_update:
  "i < length parts \<Longrightarrow> parts ! i = None \<Longrightarrow>
   parts_bytes (parts[i := Some bs]) = parts_bytes parts + length bs"
  by (simp add: parts_bytes_def map_update sum_list_update)

lemma fragment_inv_open:
  assumes "fragment_inv b m parts bytes" and "map_of m k = None" and "0 < count"
    and "parts + count \<le> max_reassembly_parts_per_peer b"
  shows "fragment_inv b (AList.update k (replicate count None) m) (parts + count) bytes"
  using assms sum_update [of length k "replicate count None" m]
    sum_update [of parts_bytes k "replicate count None" m]
    set_update_subset [of k "replicate count None" m]
  by (auto simp: fragment_inv_def total_parts_def total_bytes_def)

lemma fragment_inv_fill:
  assumes "fragment_inv b m parts bytes" and "map_of m k = Some ps" and "i < length ps"
    and "ps ! i = None" and "bytes + length payload \<le> max_reassembly_bytes_per_peer b"
    and "None \<in> set (ps[i := Some payload])"
  shows "fragment_inv b (AList.update k (ps[i := Some payload]) m) parts (bytes + length payload)"
  using assms sum_update [of length k "ps[i := Some payload]" m]
    sum_update [of parts_bytes k "ps[i := Some payload]" m]
    set_update_subset [of k "ps[i := Some payload]" m]
  by (auto simp: fragment_inv_def total_parts_def total_bytes_def parts_bytes_update)

lemma fragment_inv_close:
  assumes "fragment_inv b m parts bytes" and "map_of m k = Some ps"
  shows "fragment_inv b (AList.delete k m) (parts - length ps) (bytes - parts_bytes ps)"
proof -
  have "hm_ok m" using assms by (simp add: fragment_inv_def)
  from sum_delete [OF this assms(2), of length] sum_delete [OF this assms(2), of parts_bytes]
  show ?thesis
    using assms set_delete_subset [of k m]
    by (auto simp: fragment_inv_def total_parts_def total_bytes_def)
qed

lemma delete_update_same: "AList.delete k (AList.update k v m) = AList.delete k m"
  by (induction m) auto

lemma peer_inv_fragments:
  assumes "peer_inv a" and "fragment_inv (pa_budgets a) m parts bytes"
  shows "peer_inv (a\<lparr>pa_reassembly := m, pa_reassembly_parts := parts, pa_reassembly_bytes := bytes\<rparr>)"
  using assms by (simp add: peer_inv_def)

lemma peer_inv_open_reassembly:
  assumes "peer_inv a" and "0 < count"
    and "usize_saturating_add (pa_reassembly_parts a)
       ((if map_of (pa_reassembly a) sid = None then 1 else 0) * count)
       \<le> max_reassembly_parts_per_peer (pa_budgets a)"
  shows "peer_inv (open_reassembly sid count a)"
    and "\<exists>parts. map_of (pa_reassembly (open_reassembly sid count a)) sid = Some parts"
proof -
  have b: "max_reassembly_parts_per_peer (pa_budgets a) < usize_max"
    using assms(1) by (simp add: peer_inv_def budgets_ok_def)
  have "fragment_inv (pa_budgets a) (pa_reassembly a) (pa_reassembly_parts a) (pa_reassembly_bytes a)"
    using assms(1) by (simp add: peer_inv_def)
  from fragment_inv_open [OF this _ assms(2), of sid] show "peer_inv (open_reassembly sid count a)"
    using assms(1,3) b
    by (auto simp: open_reassembly_def peer_inv_def saturating_add_exact)
  show "\<exists>parts. map_of (pa_reassembly (open_reassembly sid count a)) sid = Some parts"
    by (auto simp: open_reassembly_def update_conv')
qed

lemma wp_store_complete:
  assumes inv: "peer_inv a" and m: "map_of (pa_reassembly a) sid = Some parts"
    and index: "index < length parts"
  shows "wp (sbind (store_fragment sid index payload parts) (\<lambda>_. complete_reassembly sid))
    (\<lambda>_. peer_inv) (\<lambda>_. peer_inv) a"
proof -
  have b: "max_reassembly_bytes_per_peer (pa_budgets a) < usize_max"
    using inv by (simp add: peer_inv_def budgets_ok_def)
  have frag: "fragment_inv (pa_budgets a) (pa_reassembly a) (pa_reassembly_parts a) (pa_reassembly_bytes a)"
    using inv by (simp add: peer_inv_def)
  have hole: "None \<in> set parts"
    using frag map_of_SomeD [OF m] by (auto simp: fragment_inv_def)
  note fill = fragment_inv_fill [OF frag m index, of payload]
  note close = fragment_inv_close [OF frag m]
  show ?thesis
    using inv b m index hole fill close
    by (auto simp: store_fragment_def complete_reassembly_def wp_simps peer_inv_def update_conv'
        saturating_add_exact parts_bytes_update delete_update_same)
qed

lemma keeps_inv_accept_fragment [preserves_intros]: "keeps_inv (accept_fragment sp payload)"
proof (rule keeps_invI)
  fix a assume inv: "peer_inv a"
  let ?count = "unat (split_count sp)" and ?index = "unat (split_index sp)" and ?sid = "split_id sp"
  let ?a = "open_reassembly ?sid ?count a"
  have inner: "peer_inv ?a \<and> (length (the (map_of (pa_reassembly ?a) ?sid)) = ?count \<longrightarrow>
      wp (sbind (store_fragment ?sid ?index payload (the (map_of (pa_reassembly ?a) ?sid)))
           (\<lambda>_. complete_reassembly ?sid)) (\<lambda>_. peer_inv) (\<lambda>_. peer_inv) ?a)"
    if "?index < ?count" "usize_saturating_add (pa_reassembly_parts a)
        ((if map_of (pa_reassembly a) ?sid = None then 1 else 0) * ?count)
        \<le> max_reassembly_parts_per_peer (pa_budgets a)"
    using that peer_inv_open_reassembly [OF inv _ that(2)]
    by (auto intro!: wp_store_complete)
  show "wp (accept_fragment sp payload) (\<lambda>_. peer_inv) (\<lambda>_. peer_inv) a"
    using inv inner unfolding accept_fragment_def Let_def wp_if wp_sbind wp_sfail wp_sget wp_smod wp_slift
    by (auto simp: not_le)
qed

subsection \<open>Receiving, acknowledging, timers\<close>

lemma peer_inv_note_reliable:
  "peer_inv a \<Longrightarrow> idx \<notin> pa_seen_reliable a \<Longrightarrow> peer_inv (note_reliable idx a)"
  by (auto simp: note_reliable_def peer_inv_def Let_def intro: window_ok_note split: prod.split)

lemma peer_inv_note_datagram:
  "peer_inv a \<Longrightarrow> s \<notin> pa_seen_datagrams a \<Longrightarrow> peer_inv (note_datagram s a)"
  by (auto simp: note_datagram_def peer_inv_def Let_def intro: window_ok_note split: prod.split)

lemma keeps_inv_route_payload [preserves_intros]: "keeps_inv (route_payload env f payload)"
  unfolding route_payload_def
  by (intro preserves_intros) (auto simp: peer_inv_def)

lemma keeps_inv_receive_unique_frame [preserves_intros]: "keeps_inv (receive_unique_frame env f)"
  unfolding receive_unique_frame_def by (intro preserves_intros)

lemma keeps_inv_receive_frame [preserves_intros]: "keeps_inv (receive_frame env f)"
proof (rule keeps_invI)
  fix a assume inv: "peer_inv a"
  show "wp (receive_frame env f) (\<lambda>_. peer_inv) (\<lambda>_. peer_inv) a"
    using inv
    by (auto simp: receive_frame_def wp_simps peer_inv_note_reliable
        intro!: keeps_inv_wp keeps_inv_receive_unique_frame split: option.split)
qed

lemma keeps_inv_retransmit [preserves_intros]: "keeps_inv (retransmit env s)"
proof (rule keeps_invI)
  fix a assume inv: "peer_inv a"
  have "unacked_ok (pa_budgets a) (s, d\<lparr>ud_sent_at := t, ud_attempts := saturating_add_word (ud_attempts d) 1\<rparr>)"
    if "map_of (pa_unacked a) s = Some d" "\<not> MAX_RETRANSMIT_ATTEMPTS \<le> ud_attempts d" for d t
  proof -
    have "unacked_ok (pa_budgets a) (s, d)"
      using inv map_of_SomeD [OF that(1)] by (auto simp: peer_inv_def unacked_inv_def)
    then show ?thesis
      using that(2)
      by (simp add: unacked_ok_def word_le_nat_alt unat_saturating_add_word MAX_RETRANSMIT_ATTEMPTS_def)
  qed
  then show "wp (retransmit env s) (\<lambda>_. peer_inv) (\<lambda>_. peer_inv) a"
    using inv
    by (auto simp: retransmit_def wp_simps peer_inv_def intro: unacked_inv_replace split: option.split)
qed

lemma keeps_inv_apply_acknowledgement [preserves_intros]: "keeps_inv (apply_acknowledgement env ack)"
proof (cases ack)
  case (Ack ranges)
  then show ?thesis
    by (auto simp: apply_acknowledgement_def peer_inv_def unacked_inv_retain intro!: preserves_smod)
next
  case (Nack ranges)
  then show ?thesis
    by (auto simp: apply_acknowledgement_def intro!: preserves_intros)
qed

lemma keeps_inv_on_timer: "keeps_inv (on_timer env)"
  unfolding on_timer_def by (intro preserves_intros)

lemma peer_inv_last_datagram [simp]: "peer_inv (a\<lparr>pa_last_datagram := l\<rparr>) = peer_inv a"
  by (simp add: peer_inv_def)

lemma peer_inv_last_observed [simp]: "peer_inv (a\<lparr>pa_last_observed := l\<rparr>) = peer_inv a"
  by (simp add: peer_inv_def)

lemma peer_inv_sent [simp]: "peer_inv (a\<lparr>pa_sent := l\<rparr>) = peer_inv a"
  by (simp add: peer_inv_def)

lemma peer_inv_resume_timers: "peer_inv a \<Longrightarrow> peer_inv (resume_timers frozen_at resumed_at a)"
  by (auto simp: resume_timers_def peer_inv_def unacked_inv_def unacked_ok_def hm_ok_def
      comp_def case_prod_beta)

lemma keeps_inv_receive_datagram: "keeps_inv (receive_datagram env bs)"
proof (rule keeps_invI)
  fix a assume inv: "peer_inv a"
  have frames: "wp (sfor fs (receive_frame env)) (\<lambda>_. peer_inv) (\<lambda>_. peer_inv) b" if "peer_inv b" for fs b
    by (rule keeps_inv_wp [OF _ that]) (intro preserves_intros)
  have ack: "wp (apply_acknowledgement env k) (\<lambda>_. peer_inv) (\<lambda>_. peer_inv) b" if "peer_inv b" for k b
    by (rule keeps_inv_wp [OF keeps_inv_apply_acknowledgement that])
  show "wp (receive_datagram env bs) (\<lambda>_. peer_inv) (\<lambda>_. peer_inv) a"
    using inv unfolding receive_datagram_def
    by (auto simp: wp_simps peer_inv_note_datagram
       intro!: ack frames split: option.split sum.split)
qed

end
