(* ===== verification/RakNet_Delivery.thy ===== *)
theory RakNet_Delivery
  imports RakNet_Peer
begin

unbundle bit_operations_syntax

text \<open>
  What the receiving half of a peer promises the application: ordered payloads come out exactly
  once and in order whatever the arrival order, fragments are joined into the payload that was
  cut, and what one peer sends another receives.
\<close>

section \<open>Ordered delivery\<close>

text \<open>An application payload: not one of the control messages of the online handshake.\<close>

definition app_payload :: "bytes \<Rightarrow> bool" where
  "app_payload p = (case p of [] \<Rightarrow> True | b # _ \<Rightarrow> b \<notin> {0x00, 0x03, 0x09, 0x13, 0x15, 0x1c})"

definition enqueue :: "bytes \<Rightarrow> peer_actor \<Rightarrow> peer_actor" where
  "enqueue p a = a\<lparr>pa_inbox := (pa_inbox a)\<lparr>ib_queue := ib_queue (pa_inbox a) @ [p]\<rparr>\<rparr>"

lemma deliver_app:
  assumes "app_payload p" and "pa_accepted a"
    and "length (ib_queue (pa_inbox a)) < ib_capacity (pa_inbox a)"
    and "ib_capacity (pa_inbox a) < usize_max"
  shows "deliver_payload env p a = (Inr (), enqueue p a)"
  using assms
  by (cases p) (auto simp: deliver_payload_def decode_connection_request_def
      decode_connected_ping_def app_payload_def push_inbox_def inbox_push_def sbind_def sret_def
      slift_def sget_def enqueue_def ensure_budget_def usize_saturating_add_def)

text \<open>The sequence number of the \<open>i\<close>-th payload after base \<open>b\<close>.\<close>

definition sq :: "nat \<Rightarrow> seq24" where
  "sq i = seq_new (word_of_nat i)"

lemma uint_sq: "uint (seq_value (sq i)) = int i mod 2 ^ 24"
  using uint_mod_mod [of "int i"]
  by (simp add: sq_def uint_seq_new unsigned_of_nat take_bit_eq_mod of_nat_mod)

lemma seq_next_sq: "seq_next (sq i) = sq (Suc i)"
  by (simp add: seq_eq_uint uint_seq_next uint_sq mod_simps ac_simps)

lemma sq_newer: "i < j \<Longrightarrow> j - i < 2 ^ 23 \<Longrightarrow> j < 2 ^ 32 \<Longrightarrow> is_newer_than (sq j) (sq i)"
  unfolding sq_def by (rule is_newer_seq_new)

lemma sq_inj:
  assumes "sq (b + i) = sq (b + j)" and "i < n" and "j < n" and "n \<le> 2 ^ 23" and "b + n < 2 ^ 32"
  shows "i = j"
proof (rule ccontr)
  assume "i \<noteq> j"
  moreover have "i - j < 2 ^ 23" "j - i < 2 ^ 23" using assms by auto
  ultimately show False
    using assms sq_newer [of "b + i" "b + j"] sq_newer [of "b + j" "b + i"]
    by (cases "i < j") auto
qed

text \<open>
  The state of a channel after the payloads with numbers in \<open>S\<close> have arrived: the first \<open>k\<close> are in
  the application queue, in order; the others that arrived are held back.
\<close>

record stream =
  st_channel :: u8
  st_base :: nat
  st_payloads :: "bytes list"
  st_queued :: "bytes list"
  st_foreign :: nat

definition stream_ok :: "stream \<Rightarrow> peer_actor \<Rightarrow> bool" where
  "stream_ok st a \<longleftrightarrow>
     (let n = length (st_payloads st) in
      n < 2 ^ 23 \<and> st_base st + n < 2 ^ 32 \<and> (\<forall>p \<in> set (st_payloads st). app_payload p) \<and>
      length (st_queued st) + n \<le> ib_capacity (pa_inbox a) \<and> ib_capacity (pa_inbox a) < usize_max \<and>
      st_foreign st + n \<le> max_ordered_holdback (pa_budgets a) \<and>
      max_ordered_holdback (pa_budgets a) < usize_max \<and> pa_accepted a)"

definition holds :: "stream \<Rightarrow> nat set \<Rightarrow> nat \<Rightarrow> (u8 \<times> order_sequence, bytes) hash_map \<Rightarrow> bool" where
  "holds st S k h \<longleftrightarrow> hm_ok h \<and> length h \<le> st_foreign st + card {i \<in> S. k \<le> i} \<and>
     (\<forall>s p. map_of h (st_channel st, s) = Some p \<longleftrightarrow>
        (\<exists>i \<in> S. k \<le> i \<and> s = sq (st_base st + i) \<and> p = st_payloads st ! i))"

definition delivered :: "stream \<Rightarrow> nat set \<Rightarrow> nat \<Rightarrow> peer_actor \<Rightarrow> bool" where
  "delivered st S k a \<longleftrightarrow> stream_ok st a \<and>
     S \<subseteq> {..<length (st_payloads st)} \<and> {..<k} \<subseteq> S \<and>
     ib_queue (pa_inbox a) = st_queued st @ take k (st_payloads st) \<and>
     expected_of a (st_channel st) = sq (st_base st + k) \<and>
     holds st S k (pa_ordered_holdback a)"

lemma delivered_k: "delivered st S k a \<Longrightarrow> k \<le> length (st_payloads st)"
  unfolding delivered_def by (metis lessThan_subset_iff order_trans)

lemma expected_of_update [simp]:
  "expected_of (a\<lparr>pa_ordered_expected := AList.update ch e m\<rparr>) ch = e"
  by (simp add: expected_of_def update_conv')

lemma expected_of_frame [simp]:
  "expected_of (a\<lparr>pa_ordered_holdback := h\<rparr>) ch = expected_of a ch"
  "expected_of (enqueue p a) ch = expected_of a ch"
  by (simp_all add: expected_of_def enqueue_def)

text \<open>Delivering the next payload of the stream, out of the holdback or on arrival.\<close>

lemma delivered_push:
  assumes ok: "stream_ok st a" and S: "S \<subseteq> {..<length (st_payloads st)}" "{..<Suc k} \<subseteq> S"
    and q: "ib_queue (pa_inbox a) = st_queued st @ take k (st_payloads st)"
    and e: "expected_of a (st_channel st) = sq (st_base st + Suc k)"
    and h: "holds st S (Suc k) (pa_ordered_holdback a)"
  shows "deliver_payload env (st_payloads st ! k) a = (Inr (), enqueue (st_payloads st ! k) a)"
    and "delivered st S (Suc k) (enqueue (st_payloads st ! k) a)"
proof -
  have kn: "k < length (st_payloads st)" using S by auto
  show "deliver_payload env (st_payloads st ! k) a = (Inr (), enqueue (st_payloads st ! k) a)"
    using ok q kn by (intro deliver_app) (auto simp: stream_ok_def Let_def)
  show "delivered st S (Suc k) (enqueue (st_payloads st ! k) a)"
    using assms kn
    by (auto simp: delivered_def stream_ok_def Let_def take_Suc_conv_app_nth enqueue_def expected_of_def)
qed

lemma card_at_least_Suc:
  assumes "finite S" and "k \<in> S"
  shows "card {i \<in> S. k \<le> i} = Suc (card {i \<in> S. Suc k \<le> i})"
proof -
  have "{i \<in> S. k \<le> i} = insert k {i \<in> S. Suc k \<le> i}" using assms by auto
  then show ?thesis using assms by simp
qed

lemma stream_sq_inj:
  assumes "stream_ok st a" and "i < length (st_payloads st)" and "j < length (st_payloads st)"
    and "sq (st_base st + i) = sq (st_base st + j)"
  shows "i = j"
  using assms by (intro sq_inj [of "st_base st" i j "length (st_payloads st)"]) (auto simp: stream_ok_def Let_def)

lemma holds_remove:
  assumes ok: "stream_ok st a" and S: "S \<subseteq> {..<length (st_payloads st)}" and k: "k \<in> S"
    and h: "holds st S k h"
  shows "holds st S (Suc k) (AList.delete (st_channel st, sq (st_base st + k)) h)"
proof -
  have fin: "finite S" using S finite_subset by blast
  have held: "map_of h (st_channel st, sq (st_base st + k)) \<noteq> None"
    using h k unfolding holds_def by (metis option.distinct(1) order_refl)
  have "hm_ok h" "length h \<le> st_foreign st + card {i \<in> S. k \<le> i}"
    using h by (simp_all add: holds_def)
  then have len: "length (AList.delete (st_channel st, sq (st_base st + k)) h)
      \<le> st_foreign st + card {i \<in> S. Suc k \<le> i}"
    using held hm.len_remove [of h "(st_channel st, sq (st_base st + k))"]
    by (auto simp: card_at_least_Suc [OF fin k])
  have inj: "i = k" if "i \<in> S" "sq (st_base st + i) = sq (st_base st + k)" for i
    using that S k by (intro stream_sq_inj [OF ok]) auto
  have iff: "s \<noteq> sq (st_base st + k) \<and> (\<exists>i \<in> S. k \<le> i \<and> s = sq (st_base st + i) \<and> p = st_payloads st ! i)
      \<longleftrightarrow> (\<exists>i \<in> S. Suc k \<le> i \<and> s = sq (st_base st + i) \<and> p = st_payloads st ! i)" for s p
    using inj by (metis Suc_leD Suc_le_eq le_less not_less_eq_eq order_refl)
  show ?thesis
    using h len unfolding holds_def iff [symmetric] by (auto simp: delete_conv')
qed

lemma drain_delivers:
  "delivered st S k a \<Longrightarrow>
   \<exists>k' a'. drain_holdback env (st_channel st) a = (Inr (), a') \<and> delivered st S k' a' \<and> k' \<notin> S"
proof (induction "length (st_payloads st) - k" arbitrary: k a rule: less_induct)
  case less
  let ?p = "st_payloads st ! k" and ?key = "(st_channel st, sq (st_base st + k))"
  have d: "stream_ok st a" "S \<subseteq> {..<length (st_payloads st)}" "{..<k} \<subseteq> S"
    "ib_queue (pa_inbox a) = st_queued st @ take k (st_payloads st)"
    "expected_of a (st_channel st) = sq (st_base st + k)" "holds st S k (pa_ordered_holdback a)"
    using less.prems by (auto simp: delivered_def)
  show ?case
  proof (cases "k \<in> S")
    case False
    have "map_of (pa_ordered_holdback a) ?key = None"
    proof (rule ccontr)
      assume "map_of (pa_ordered_holdback a) ?key \<noteq> None"
      then obtain i where i: "i \<in> S" "k \<le> i" "sq (st_base st + k) = sq (st_base st + i)"
        using d(6) unfolding holds_def by blast
      then have "k = i" using d(2) by (intro stream_sq_inj [OF d(1)]) auto
      with i False show False by simp
    qed
    then show ?thesis
      using less.prems False d(5) by (auto simp: drain_holdback.simps)
  next
    case True
    define b where "b = a\<lparr>pa_ordered_holdback := AList.delete ?key (pa_ordered_holdback a),
      pa_ordered_expected := AList.update (st_channel st) (seq_next (sq (st_base st + k))) (pa_ordered_expected a)\<rparr>"
    have held: "map_of (pa_ordered_holdback a) ?key = Some ?p"
      using d(6) True unfolding holds_def by blast
    have kn: "k < length (st_payloads st)" using True d(2) by auto
    have b: "stream_ok st b" "ib_queue (pa_inbox b) = st_queued st @ take k (st_payloads st)"
      "expected_of b (st_channel st) = sq (st_base st + Suc k)"
      "holds st S (Suc k) (pa_ordered_holdback b)"
      using d holds_remove [OF d(1,2) True d(6)]
      by (simp_all add: b_def stream_ok_def expected_of_def update_conv' seq_next_sq)
    have S: "{..<Suc k} \<subseteq> S" using d(3) True by (auto simp: less_Suc_eq)
    note push = delivered_push [OF b(1) d(2) S b(2,3,4)]
    have "length (st_payloads st) - Suc k < length (st_payloads st) - k" using kn by simp
    from less.hyps [OF this push(2)]
    obtain k' a' where "drain_holdback env (st_channel st) (enqueue ?p b) = (Inr (), a')"
      "delivered st S k' a'" "k' \<notin> S" by blast
    moreover have "drain_holdback env (st_channel st) a = drain_holdback env (st_channel st) (enqueue ?p b)"
      using held d(5) push(1) by (subst drain_holdback.simps) (simp add: b_def Let_def)
    ultimately show ?thesis by auto
  qed
qed

lemma holds_keep:
  "k \<notin> S \<Longrightarrow> holds st S k h \<Longrightarrow> holds st (insert k S) (Suc k) h"
proof -
  assume "k \<notin> S" and h: "holds st S k h"
  then have "{i \<in> insert k S. Suc k \<le> i} = {i \<in> S. k \<le> i}"
    by (auto simp: Suc_le_eq le_less)
  moreover from this have "(\<exists>i \<in> insert k S. Suc k \<le> i \<and> P i) \<longleftrightarrow> (\<exists>i \<in> S. k \<le> i \<and> P i)" for P
    by blast
  ultimately show ?thesis using h by (simp add: holds_def)
qed

lemma holds_insert:
  assumes h: "holds st S k h" and k: "k < i" and fin: "finite S"
    and inj: "\<And>j. j \<in> S \<Longrightarrow> sq (st_base st + j) = sq (st_base st + i) \<Longrightarrow> j = i"
  shows "holds st (insert i S) k
    (case map_of h (st_channel st, sq (st_base st + i)) of
       None \<Rightarrow> AList.update (st_channel st, sq (st_base st + i)) (st_payloads st ! i) h
     | Some _ \<Rightarrow> h)"
proof (cases "map_of h (st_channel st, sq (st_base st + i))")
  case None
  have eq: "{j \<in> insert i S. k \<le> j} = insert i {j \<in> S. k \<le> j}" using k by auto
  have "i \<notin> S" using h None k unfolding holds_def by (metis less_imp_le option.distinct(1))
  then have "card {j \<in> insert i S. k \<le> j} = Suc (card {j \<in> S. k \<le> j})"
    unfolding eq using fin by simp
  then show ?thesis
    using h None k hm.len_insert [of h "(st_channel st, sq (st_base st + i))" "st_payloads st ! i"]
      inj unfolding holds_def by (auto simp: update_conv')
next
  case (Some p)
  then have "i \<in> S" using h inj unfolding holds_def by metis
  then show ?thesis using h Some by (simp add: insert_absorb)
qed

text \<open>One arrival, in any position: it never fails and keeps the stream in order.\<close>

lemma accept_ordered_step:
  assumes d: "delivered st S k a" and k: "k \<notin> S" and i: "i < length (st_payloads st)"
  shows "\<exists>k' a'. accept_ordered env (st_channel st) (sq (st_base st + i)) (st_payloads st ! i) a = (Inr (), a')
    \<and> delivered st (insert i S) k' a' \<and> k' \<notin> insert i S"
proof -
  let ?n = "length (st_payloads st)" and ?ch = "st_channel st" and ?s = "sq (st_base st + i)"
  define b where "b = a\<lparr>pa_ordered_expected := (case map_of (pa_ordered_expected a) ?ch of
      None \<Rightarrow> AList.update ?ch (Seq24 0) (pa_ordered_expected a) | Some _ \<Rightarrow> pa_ordered_expected a)\<rparr>"
  have exp: "expected_of b ?ch = expected_of a ?ch"
    by (auto simp: b_def expected_of_def update_conv' split: option.split)
  then have db: "stream_ok st b" "S \<subseteq> {..<?n}" "{..<k} \<subseteq> S"
    "ib_queue (pa_inbox b) = st_queued st @ take k (st_payloads st)"
    "expected_of b ?ch = sq (st_base st + k)" "holds st S k (pa_ordered_holdback b)"
    using d by (auto simp: delivered_def b_def stream_ok_def)
  have fin: "finite S" using db(2) finite_subset by blast
  have kn: "k \<le> ?n" using d by (rule delivered_k)
  have win: "st_base st + ?n < 2 ^ 32" "?n < 2 ^ 23" using db(1) by (auto simp: stream_ok_def Let_def)
  consider "i = k" | "k < i" | "i < k" by linarith
  then show ?thesis
  proof cases
    case 1
    define c where "c = b\<lparr>pa_ordered_expected := AList.update ?ch (seq_next ?s) (pa_ordered_expected b)\<rparr>"
    have c: "stream_ok st c" "ib_queue (pa_inbox c) = st_queued st @ take k (st_payloads st)"
      "expected_of c ?ch = sq (st_base st + Suc k)" "holds st (insert k S) (Suc k) (pa_ordered_holdback c)"
      using db holds_keep [OF k db(6)] 1 by (simp_all add: c_def stream_ok_def seq_next_sq)
    have S: "insert k S \<subseteq> {..<?n}" "{..<Suc k} \<subseteq> insert k S"
      using db(2,3) i 1 by (auto simp: less_Suc_eq)
    note push = delivered_push [OF c(1) S c(2,3,4)]
    have "accept_ordered env ?ch ?s (st_payloads st ! i) a =
        drain_holdback env ?ch (enqueue (st_payloads st ! k) c)"
      using push(1) [of env] 1
      by (simp add: accept_ordered_def sbind_def smod_def sget_def b_def [symmetric] db(5) c_def)
    with drain_delivers [OF push(2), of env] 1 show ?thesis by simp
  next
    case 2
    have newer: "is_newer_than ?s (sq (st_base st + k))"
      using 2 i win by (intro sq_newer) auto
    have "card {i \<in> S. k \<le> i} \<le> card ({..<?n} - {k})"
      using db(2) k by (intro card_mono) auto
    also have "\<dots> = ?n - 1" using 2 i by simp
    finally have room: "length (pa_ordered_holdback b) + 1 \<le> max_ordered_holdback (pa_budgets b)"
      using db(1,6) 2 i by (auto simp: holds_def stream_ok_def Let_def)
    have inj: "j = i" if "j \<in> S" "sq (st_base st + j) = ?s" for j
      using that db(2) i by (intro stream_sq_inj [OF db(1)]) auto
    let ?h = "case map_of (pa_ordered_holdback b) (?ch, ?s) of
       None \<Rightarrow> AList.update (?ch, ?s) (st_payloads st ! i) (pa_ordered_holdback b)
     | Some _ \<Rightarrow> pa_ordered_holdback b"
    have "delivered st (insert i S) k (b\<lparr>pa_ordered_holdback := ?h\<rparr>)"
      using db i holds_insert [OF db(6) 2 fin inj]
      by (auto simp: delivered_def stream_ok_def)
    moreover have "accept_ordered env ?ch ?s (st_payloads st ! i) a = (Inr (), b\<lparr>pa_ordered_holdback := ?h\<rparr>)"
      using newer db(1,5) room
      by (auto simp: accept_ordered_def sbind_def smod_def sget_def slift_def b_def [symmetric]
          ensure_budget_def stream_ok_def Let_def not_less [symmetric] saturating_add_exact)
    ultimately show ?thesis using k 2 by auto
  next
    case 3
    have "is_newer_than (sq (st_base st + k)) ?s"
      using 3 kn win by (intro sq_newer) auto
    then have "\<not> is_newer_than ?s (sq (st_base st + k))" "?s \<noteq> sq (st_base st + k)"
      using is_newer_asym by auto
    then have "accept_ordered env ?ch ?s (st_payloads st ! i) a = (Inr (), b)"
      by (auto simp: accept_ordered_def sbind_def smod_def sget_def sret_def b_def [symmetric] db(5))
    moreover have "insert i S = S" using 3 db(3) by auto
    ultimately show ?thesis using db k by (auto simp: delivered_def)
  qed
qed

lemma accept_ordered_all:
  "delivered st S k a \<Longrightarrow> k \<notin> S \<Longrightarrow> set arrivals \<subseteq> {..<length (st_payloads st)} \<Longrightarrow>
   \<exists>k' a'. sfor arrivals (\<lambda>i. accept_ordered env (st_channel st) (sq (st_base st + i)) (st_payloads st ! i)) a
       = (Inr (), a') \<and> delivered st (S \<union> set arrivals) k' a' \<and> k' \<notin> S \<union> set arrivals"
proof (induction arrivals arbitrary: S k a)
  case Nil
  then show ?case by (auto simp: sret_def)
next
  case (Cons i arrivals)
  then obtain k1 a1 where
    "accept_ordered env (st_channel st) (sq (st_base st + i)) (st_payloads st ! i) a = (Inr (), a1)"
    "delivered st (insert i S) k1 a1" "k1 \<notin> insert i S"
    using accept_ordered_step [of st S k a i env] by auto
  with Cons.IH [of "insert i S" k1 a1] Cons.prems show ?case
    by (auto simp: sbind_def)
qed

text \<open>C4: ordered delivery. For a stream of application payloads numbered consecutively from
  any base, also across the 24-bit wrap, and for every arrival sequence with reordering, loss and duplication,
  every arrival is accepted without error, and the application queue gains exactly the payloads
  before the first one missing, once each and in sending order.\<close>

theorem ordered_delivery_exactly_once:
  assumes "stream_ok st a" and "ib_queue (pa_inbox a) = st_queued st"
    and "expected_of a (st_channel st) = sq (st_base st)"
    and "hm_ok (pa_ordered_holdback a)" and "length (pa_ordered_holdback a) \<le> st_foreign st"
    and "\<And>s. map_of (pa_ordered_holdback a) (st_channel st, s) = None"
    and "set arrivals \<subseteq> {..<length (st_payloads st)}"
  shows "\<exists>k a'. sfor arrivals (\<lambda>i. accept_ordered env (st_channel st) (sq (st_base st + i)) (st_payloads st ! i)) a
      = (Inr (), a') \<and> {..<k} \<subseteq> set arrivals \<and> k \<notin> set arrivals \<and>
      ib_queue (pa_inbox a') = st_queued st @ take k (st_payloads st)"
proof -
  have "delivered st {} 0 a"
    using assms by (simp add: delivered_def holds_def)
  from accept_ordered_all [OF this _ assms(7), of env] show ?thesis
    by (auto simp: delivered_def)
qed

text \<open>Three payloads numbered from just below the wrap, arriving as third, first, third, second.\<close>

definition sample_peer :: peer_actor where
  "sample_peer = (peer_new (V4 [127, 0, 0, 1] 19132) 1400 default_budgets (inbox_new 256) 0)\<lparr>
     pa_accepted := True, pa_ordered_expected := [(0, sq 16777215)]\<rparr>"

definition sample_env :: peer_env where
  "sample_env = \<lparr>env_now = 0, env_epoch_millis = 0, env_send_ok = (\<lambda>_. True),
     env_accept_open = True, env_hash_order = (\<lambda>ss. ss)\<rparr>"

definition sample_stream :: stream where
  "sample_stream = \<lparr>st_channel = 0, st_base = 16777215, st_payloads = [[0xfe, 1], [0xfe, 2], [0xfe, 3]],
     st_queued = [], st_foreign = 0\<rparr>"

theorem ordered_delivery_exactly_once_witness:
  "\<exists>a'. sfor [2, 0, 2, 1] (\<lambda>i. accept_ordered sample_env (st_channel sample_stream)
        (sq (st_base sample_stream + i)) (st_payloads sample_stream ! i)) sample_peer = (Inr (), a') \<and>
      ib_queue (pa_inbox a') = [[0xfe, 1], [0xfe, 2], [0xfe, 3]]"
proof -
  have pre: "stream_ok sample_stream sample_peer"
    "ib_queue (pa_inbox sample_peer) = st_queued sample_stream"
    "expected_of sample_peer (st_channel sample_stream) = sq (st_base sample_stream)"
    "hm_ok (pa_ordered_holdback sample_peer)"
    "length (pa_ordered_holdback sample_peer) \<le> st_foreign sample_stream"
    "\<And>s. map_of (pa_ordered_holdback sample_peer) (st_channel sample_stream, s) = None"
    by (simp_all add: stream_ok_def sample_stream_def sample_peer_def peer_new_def inbox_new_def
        expected_of_def app_payload_def usize_max_def default_budgets_def)
  have arr: "set [2, 0, 2, 1] \<subseteq> {..<length (st_payloads sample_stream)}"
    by (simp add: sample_stream_def)
  have third: "k = 3" if "{..<k} \<subseteq> set [2, 0, 2, 1]" "k \<notin> set [2, 0, 2, 1]" for k :: nat
  proof (rule ccontr)
    assume "k \<noteq> 3"
    with that(2) have "3 < k" by auto
    with that(1) show False by auto
  qed
  from ordered_delivery_exactly_once [OF pre arr, of sample_env] third show ?thesis
    by (fastforce simp: sample_stream_def)
qed

section \<open>Fragments\<close>

text \<open>The assembly after the fragments with indexes in \<open>S\<close> have arrived.\<close>

definition parts_of :: "bytes list \<Rightarrow> nat set \<Rightarrow> reassembly" where
  "parts_of cs S = map (\<lambda>i. if i \<in> S then Some (cs ! i) else None) [0..<length cs]"

definition assembling :: "u16 \<Rightarrow> bytes list \<Rightarrow> nat set \<Rightarrow> peer_actor \<Rightarrow> peer_actor" where
  "assembling sid cs S a = (if S = {} then a else
     a\<lparr>pa_reassembly := AList.update sid (parts_of cs S) (pa_reassembly a),
       pa_reassembly_parts := pa_reassembly_parts a + length cs,
       pa_reassembly_bytes := pa_reassembly_bytes a + parts_bytes (parts_of cs S)\<rparr>)"

definition fragment_header :: "u16 \<Rightarrow> bytes list \<Rightarrow> nat \<Rightarrow> split_header" where
  "fragment_header sid cs i = \<lparr>split_count = word_of_nat (length cs), split_id = sid,
     split_index = word_of_nat i\<rparr>"

definition fragments_fit :: "u16 \<Rightarrow> bytes list \<Rightarrow> peer_actor \<Rightarrow> bool" where
  "fragments_fit sid cs a \<longleftrightarrow> length cs < 2 ^ 32 \<and> map_of (pa_reassembly a) sid = None \<and>
     pa_reassembly_parts a + length cs \<le> max_reassembly_parts_per_peer (pa_budgets a) \<and>
     max_reassembly_parts_per_peer (pa_budgets a) < usize_max \<and>
     pa_reassembly_bytes a + length (concat cs) \<le> max_reassembly_bytes_per_peer (pa_budgets a) \<and>
     max_reassembly_bytes_per_peer (pa_budgets a) < usize_max"

lemma length_parts_of [simp]: "length (parts_of cs S) = length cs"
  by (simp add: parts_of_def)

lemma nth_parts_of: "i < length cs \<Longrightarrow> parts_of cs S ! i = (if i \<in> S then Some (cs ! i) else None)"
  by (simp add: parts_of_def)

lemma parts_of_empty: "parts_of cs {} = replicate (length cs) None"
  by (simp add: parts_of_def map_replicate_const)

lemma parts_of_insert:
  "i < length cs \<Longrightarrow> (parts_of cs S)[i := Some (cs ! i)] = parts_of cs (insert i S)"
  by (rule nth_equalityI) (auto simp: nth_parts_of nth_list_update)

lemma None_in_parts_of: "None \<in> set (parts_of cs S) \<longleftrightarrow> \<not> {..<length cs} \<subseteq> S"
  by (auto simp: parts_of_def)

lemma parts_bytes_mono: "parts_bytes (parts_of cs S) \<le> length (concat cs)"
proof -
  have "parts_bytes (parts_of cs S) = sum_list (map (\<lambda>i. if i \<in> S then length (cs ! i) else 0) [0..<length cs])"
    by (simp add: parts_bytes_def parts_of_def comp_def) (rule arg_cong [of _ _ sum_list], auto)
  also have "\<dots> \<le> sum_list (map (\<lambda>i. length (cs ! i)) [0..<length cs])"
    by (rule sum_list_mono) auto
  also have "\<dots> = length (concat cs)"
    unfolding length_concat by (rule arg_cong [of _ _ sum_list]) (auto intro: nth_equalityI)
  finally show ?thesis .
qed

lemma join_parts_of_all: "{..<length cs} \<subseteq> S \<Longrightarrow> join_parts (parts_of cs S) = concat cs"
proof -
  assume "{..<length cs} \<subseteq> S"
  then have "map (\<lambda>part. case part of None \<Rightarrow> [] | Some bs \<Rightarrow> bs) (parts_of cs S) = map ((!) cs) [0..<length cs]"
    by (auto simp: parts_of_def)
  then show ?thesis by (simp add: join_parts_def map_nth)
qed

lemma update_twice: "AList.update k w (AList.update k v m) = AList.update k w m"
  by (induction m) auto

text \<open>One fragment: it is stored, or it completes the payload and leaves no trace.\<close>

lemma accept_fragment_step:
  assumes fit: "fragments_fit sid cs a" and i: "i < length cs" and S: "S \<subseteq> {..<length cs}" "S \<noteq> {..<length cs}"
  shows "accept_fragment (fragment_header sid cs i) (cs ! i) (assembling sid cs S a) =
    (if insert i S = {..<length cs} then (Inr (Some (concat cs)), a)
     else (Inr None, assembling sid cs (insert i S) a))"
proof -
  let ?n = "length cs" and ?b = "assembling sid cs S a"
  have ui: "unat (word_of_nat i :: u32) = i" "unat (word_of_nat ?n :: u32) = ?n"
    using fit i by (simp_all add: fragments_fit_def unsigned_of_nat take_bit_nat_eq_self)
  define c where "c = a\<lparr>pa_reassembly := AList.update sid (parts_of cs S) (pa_reassembly a),
       pa_reassembly_parts := pa_reassembly_parts a + ?n,
       pa_reassembly_bytes := pa_reassembly_bytes a + parts_bytes (parts_of cs S)\<rparr>"
  have opened: "open_reassembly sid ?n ?b = c"
  proof (cases "S = {}")
    case True
    with fit show ?thesis
      by (simp add: open_reassembly_def assembling_def c_def fragments_fit_def parts_of_empty
          saturating_add_exact [of _ _ "max_reassembly_parts_per_peer (pa_budgets a)"])
  next
    case False
    then show ?thesis
      by (simp add: open_reassembly_def assembling_def c_def update_conv')
  qed
  define d where "d = a\<lparr>pa_reassembly := AList.update sid (parts_of cs (insert i S)) (pa_reassembly a),
       pa_reassembly_parts := pa_reassembly_parts a + ?n,
       pa_reassembly_bytes := pa_reassembly_bytes a + parts_bytes (parts_of cs (insert i S))\<rparr>"
  have budget: "usize_saturating_add (pa_reassembly_parts ?b)
      ((if map_of (pa_reassembly ?b) sid = None then 1 else 0) * ?n)
      \<le> max_reassembly_parts_per_peer (pa_budgets ?b)"
    using fit by (auto simp: assembling_def fragments_fit_def update_conv')
  have stored: "store_fragment sid i (cs ! i) (parts_of cs S) c = (Inr (), d)"
  proof (cases "i \<in> S")
    case True
    then show ?thesis
      using i by (simp add: store_fragment_def nth_parts_of c_def d_def insert_absorb sret_def)
  next
    case False
    have grow: "parts_bytes (parts_of cs (insert i S)) = parts_bytes (parts_of cs S) + length (cs ! i)"
      using False i by (simp add: parts_bytes_update nth_parts_of flip: parts_of_insert)
    then have le: "pa_reassembly_bytes a + parts_bytes (parts_of cs S) + length (cs ! i)
        \<le> max_reassembly_bytes_per_peer (pa_budgets a)"
      using fit parts_bytes_mono [of cs "insert i S"] by (simp add: fragments_fit_def)
    with False i fit show ?thesis
      by (simp add: store_fragment_def nth_parts_of sbind_def sget_def slift_def smod_def c_def d_def
          ensure_budget_ok fragments_fit_def parts_of_insert update_twice grow ac_simps
          saturating_add_exact [OF le])
  qed
  have complete: "complete_reassembly sid d =
    (if {..<?n} \<subseteq> insert i S then (Inr (Some (concat cs)), a) else (Inr None, d))"
    using fit
    by (simp add: complete_reassembly_def sbind_def sget_def sret_def smod_def d_def update_conv'
        None_in_parts_of join_parts_of_all delete_update_same delete_notin fragments_fit_def)
  have sub: "{..<?n} \<subseteq> insert i S \<longleftrightarrow> insert i S = {..<?n}" using i S by auto
  have "map_of (pa_reassembly c) sid = Some (parts_of cs S)" by (simp add: c_def update_conv')
  then have "accept_fragment (fragment_header sid cs i) (cs ! i) ?b = complete_reassembly sid d"
    using i ui budget stored length_pos_if_in_set [of "cs ! i" cs]
    by (auto simp: accept_fragment_def fragment_header_def sbind_def sget_def slift_def smod_def
        ensure_budget_ok opened Let_def)
  moreover have "assembling sid cs (insert i S) a = d" by (simp add: assembling_def d_def)
  ultimately show ?thesis by (simp add: complete sub)
qed

lemma accept_fragments_pending:
  assumes fit: "fragments_fit sid cs a" and "S \<union> set arrivals \<subset> {..<length cs}"
  shows "smap arrivals (\<lambda>j. accept_fragment (fragment_header sid cs j) (cs ! j)) (assembling sid cs S a) =
    (Inr (replicate (length arrivals) None), assembling sid cs (S \<union> set arrivals) a)"
  using assms(2)
proof (induction arrivals arbitrary: S)
  case Nil
  then show ?case by (simp add: sret_def)
next
  case (Cons j js)
  have "accept_fragment (fragment_header sid cs j) (cs ! j) (assembling sid cs S a) =
      (Inr None, assembling sid cs (insert j S) a)"
    using Cons.prems by (subst accept_fragment_step [OF fit]) auto
  with Cons.IH [of "insert j S"] Cons.prems show ?case
    by (simp add: sbind_def sret_def)
qed

text \<open>C18: reassembly. The fragments of a payload, arriving in any order and with duplicates, are all
  accepted; the last missing one yields the payload that was cut, and the peer's assembly
  state and its part and byte counters are exactly what they were before the first.\<close>

theorem fragments_reassemble:
  assumes "fragments_fit sid cs a" and "set arrivals = {..<length cs} - {i}" and "i < length cs"
  shows "smap (arrivals @ [i]) (\<lambda>j. accept_fragment (fragment_header sid cs j) (cs ! j)) a =
    (Inr (replicate (length arrivals) None @ [Some (concat cs)]), a)"
proof (rule smap_snoc)
  let ?S = "set arrivals"
  have sub: "?S \<subseteq> {..<length cs}" "?S \<noteq> {..<length cs}" "insert i ?S = {..<length cs}"
    using assms(2,3) by blast+
  then have "{} \<union> ?S \<subset> {..<length cs}" by blast
  from accept_fragments_pending [OF assms(1) this]
  show "smap arrivals (\<lambda>j. accept_fragment (fragment_header sid cs j) (cs ! j)) a =
      (Inr (replicate (length arrivals) None), assembling sid cs ?S a)"
    by (simp add: assembling_def [of _ _ "{}"])
  show "accept_fragment (fragment_header sid cs i) (cs ! i) (assembling sid cs ?S a) =
      (Inr (Some (concat cs)), a)"
    by (simp add: accept_fragment_step [OF assms(1,3) sub(1,2)] sub(3))
qed

theorem fragments_reassemble_witness:
  "smap [2, 0, 2, 1] (\<lambda>j. accept_fragment (fragment_header 7 [[1, 2], [3], [4, 5]] j) ([[1, 2], [3], [4, 5]] ! j))
     sample_peer = (Inr [None, None, None, Some [1, 2, 3, 4, 5]], sample_peer)"
proof -
  have fit: "fragments_fit 7 [[1, 2], [3], [4, 5]] sample_peer"
    by (simp add: fragments_fit_def sample_peer_def peer_new_def default_budgets_def usize_max_def)
  have "set [2, 0, 2] = {..<length [[1, 2], [3], [4, 5 :: u8]]} - {1}" by auto
  from fragments_reassemble [OF fit this] show ?thesis
    by (simp add: numeral_3_eq_3)
qed

end
