(* ===== verification/RakNet_Transfer.thy ===== *)
theory RakNet_Transfer
  imports RakNet_Peer "HOL-Library.Product_Lexorder" "HOL-Library.Multiset"
begin

unbundle bit_operations_syntax

text \<open>
  The crate \<open>revy-raknet\<close>, file \<open>peer.rs\<close>: checkpointing a peer for a process transfer
  (\<open>PeerSnapshot\<close>, its validation, the actor restored from it) and the actor's run loop with its
  commands and the frozen state.

  A \<open>Duration\<close> is a natural number of nanoseconds; \<open>saturating_sub\<close> and
  \<open>saturating_duration_since\<close> are subtraction on naturals. Collecting a hash map and sorting it by
  key gives one list whatever the iteration order, because the keys are distinct.
\<close>

section \<open>Checkpoints\<close>

record unacked_snapshot =
  us_sequence :: datagram_sequence
  us_bytes :: bytes
  us_retransmit_remaining :: nat
  us_attempts :: u16

record reassembly_snapshot =
  rs_split_id :: u16
  rs_parts :: reassembly

record ordered_payload_snapshot =
  os_channel :: u8
  os_sequence :: order_sequence
  os_payload :: bytes

record peer_snapshot =
  ps_remote_addr :: socket_addr
  ps_mtu :: u16
  ps_accepted :: bool
  ps_next_datagram :: datagram_sequence
  ps_next_reliable :: reliable_sequence
  ps_next_ordered :: order_sequence
  ps_next_split_id :: u16
  ps_last_datagram :: "datagram_sequence option"
  ps_seen_datagram_order :: sequence_history
  ps_seen_reliable_order :: sequence_history
  ps_ordered_expected :: "(u8 \<times> order_sequence) list"
  ps_sequenced_latest :: "(u8 \<times> order_sequence) list"
  ps_queued_payloads :: "bytes list"
  ps_unacked_datagrams :: "unacked_snapshot list"
  ps_reassembly :: "reassembly_snapshot list"
  ps_ordered_holdback :: "ordered_payload_snapshot list"
  ps_timeout_remaining :: nat

definition snapshot_unacked :: "nat \<Rightarrow> datagram_sequence \<times> unacked_datagram \<Rightarrow> unacked_snapshot" where
  "snapshot_unacked now = (\<lambda>(s, d). \<lparr>us_sequence = s, us_bytes = ud_bytes d,
     us_retransmit_remaining = retransmit_delay (ud_attempts d) - (now - ud_sent_at d),
     us_attempts = ud_attempts d\<rparr>)"

definition snapshot_reassembly :: "u16 \<times> reassembly \<Rightarrow> reassembly_snapshot" where
  "snapshot_reassembly = (\<lambda>(sid, parts). \<lparr>rs_split_id = sid, rs_parts = parts\<rparr>)"

definition snapshot_held :: "(u8 \<times> order_sequence) \<times> bytes \<Rightarrow> ordered_payload_snapshot" where
  "snapshot_held = (\<lambda>((channel, s), payload). \<lparr>os_channel = channel, os_sequence = s, os_payload = payload\<rparr>)"

definition snapshot :: "nat \<Rightarrow> peer_actor \<Rightarrow> peer_snapshot" where
  "snapshot now a = \<lparr>
     ps_remote_addr = pa_remote_addr a, ps_mtu = pa_mtu a, ps_accepted = pa_accepted a,
     ps_next_datagram = pa_next_datagram a, ps_next_reliable = pa_next_reliable a,
     ps_next_ordered = pa_next_ordered a, ps_next_split_id = pa_next_split_id a,
     ps_last_datagram = pa_last_datagram a,
     ps_seen_datagram_order = from_sequences (pa_seen_datagram_order a),
     ps_seen_reliable_order = from_sequences (pa_seen_reliable_order a),
     ps_ordered_expected = sort_key fst (pa_ordered_expected a),
     ps_sequenced_latest = sort_key fst (pa_sequenced_latest a),
     ps_queued_payloads = ib_queue (pa_inbox a),
     ps_unacked_datagrams =
       sort_key (\<lambda>e. seq_value (us_sequence e)) (map (snapshot_unacked now) (pa_unacked a)),
     ps_reassembly = sort_key rs_split_id (map snapshot_reassembly (pa_reassembly a)),
     ps_ordered_holdback =
       sort_key (\<lambda>e. (os_channel e, seq_value (os_sequence e))) (map snapshot_held (pa_ordered_holdback a)),
     ps_timeout_remaining = PEER_TIMEOUT - (now - pa_last_observed a)\<rparr>"

section \<open>Validation\<close>

fun validate_unacked ::
  "raknet_budgets \<Rightarrow> datagram_sequence set \<Rightarrow> unacked_snapshot list \<Rightarrow> raknet_error + unit" where
  "validate_unacked b seen [] = Inr ()"
| "validate_unacked b seen (d # ds) =
     (if us_sequence d \<in> seen
      then Inl (Wire ''transferred peer repeats an unacknowledged datagram sequence'')
      else bind_res (ensure_budget ''datagram bytes'' (length (us_bytes d)) (max_datagram_bytes b)) (\<lambda>_.
        if us_retransmit_remaining d > retransmit_delay (us_attempts d) \<or> us_attempts d = 0
           \<or> us_attempts d > MAX_RETRANSMIT_ATTEMPTS
        then Inl (Wire ''transferred peer has an invalid retransmit timer or attempt count'')
        else validate_unacked b (insert (us_sequence d) seen) ds))"

fun validate_parts :: "raknet_budgets \<Rightarrow> nat \<Rightarrow> reassembly \<Rightarrow> raknet_error + nat" where
  "validate_parts b so_far [] = Inr so_far"
| "validate_parts b so_far (None # parts) = validate_parts b so_far parts"
| "validate_parts b so_far (Some part # parts) =
     bind_res (ensure_budget ''application payload bytes'' (length part) (max_payload_bytes b)) (\<lambda>_.
     case usize_checked_add so_far (length part) of
       None \<Rightarrow> Inl (Wire ''fragment byte count overflow'')
     | Some so_far' \<Rightarrow> validate_parts b so_far' parts)"

fun validate_reassembly ::
  "raknet_budgets \<Rightarrow> u16 set \<Rightarrow> nat \<Rightarrow> nat \<Rightarrow> reassembly_snapshot list \<Rightarrow> raknet_error + nat \<times> nat" where
  "validate_reassembly b ids parts bytes [] = Inr (parts, bytes)"
| "validate_reassembly b ids parts bytes (split # splits) =
     (if rs_split_id split \<in> ids \<or> rs_parts split = []
      then Inl (Wire ''transferred peer has an invalid or duplicate fragment assembly'')
      else case usize_checked_add parts (length (rs_parts split)) of
             None \<Rightarrow> Inl (Wire ''fragment part count overflow'')
           | Some parts' \<Rightarrow>
               bind_res (validate_parts b bytes (rs_parts split)) (\<lambda>bytes'.
               validate_reassembly b (insert (rs_split_id split) ids) parts' bytes' splits))"

fun validate_holdback ::
  "raknet_budgets \<Rightarrow> (u8 \<times> order_sequence) set \<Rightarrow> ordered_payload_snapshot list \<Rightarrow> raknet_error + unit" where
  "validate_holdback b seen [] = Inr ()"
| "validate_holdback b seen (held # hs) =
     (if (os_channel held, os_sequence held) \<in> seen
      then Inl (Wire ''transferred peer repeats an ordered holdback sequence'')
      else bind_res (ensure_budget ''application payload bytes'' (length (os_payload held)) (max_payload_bytes b)) (\<lambda>_.
           validate_holdback b (insert (os_channel held, os_sequence held) seen) hs))"

fun channels_repeat :: "u8 set \<Rightarrow> (u8 \<times> order_sequence) list \<Rightarrow> bool" where
  "channels_repeat seen [] = False"
| "channels_repeat seen ((channel, _) # xs) =
     (channel \<in> seen \<or> channels_repeat (insert channel seen) xs)"

definition validate_channel_sequences :: "(u8 \<times> order_sequence) list \<Rightarrow> raknet_error + unit" where
  "validate_channel_sequences xs =
     (if channels_repeat {} xs then Inl (Wire ''transferred peer repeats a channel'') else Inr ())"

definition maximum_mtu :: "raknet_budgets \<Rightarrow> u16" where
  "maximum_mtu b =
     max (if max_datagram_bytes b < 2 ^ 16 then word_of_nat (max_datagram_bytes b) else - 1) 576"

definition validate_structure ::
  "raknet_budgets \<Rightarrow> peer_snapshot \<Rightarrow> raknet_error + datagram_sequence set \<times> reliable_sequence set" where
  "validate_structure b ps =
     (if \<not> (576 \<le> ps_mtu ps \<and> ps_mtu ps \<le> maximum_mtu b)
      then Inl (Wire ''transferred peer MTU is outside its range'')
      else
      bind_res (ensure_budget ''application queue entries'' (length (ps_queued_payloads ps)) (application_queue b)) (\<lambda>_.
      bind_res (try_each (\<lambda>payload. ensure_budget ''application payload bytes'' (length payload) (max_payload_bytes b))
                  (ps_queued_payloads ps)) (\<lambda>_.
      bind_res (ensure_budget ''unacknowledged datagrams'' (length (ps_unacked_datagrams ps)) (max_unacked_datagrams b)) (\<lambda>_.
      bind_res (validate_unacked b {} (ps_unacked_datagrams ps)) (\<lambda>_.
      bind_res (validate_reassembly b {} 0 0 (ps_reassembly ps)) (\<lambda>(parts, bytes).
      bind_res (ensure_budget ''reassembly parts per peer'' parts (max_reassembly_parts_per_peer b)) (\<lambda>_.
      bind_res (ensure_budget ''reassembly bytes per peer'' bytes (max_reassembly_bytes_per_peer b)) (\<lambda>_.
      bind_res (ensure_budget ''ordered holdback entries'' (length (ps_ordered_holdback ps)) (max_ordered_holdback b)) (\<lambda>_.
      bind_res (validate_holdback b {} (ps_ordered_holdback ps)) (\<lambda>_.
      bind_res (sequence_count (ps_seen_datagram_order ps)) (\<lambda>datagram_count.
      bind_res (sequence_count (ps_seen_reliable_order ps)) (\<lambda>reliable_count.
      bind_res (ensure_budget ''datagram duplicate window'' datagram_count (duplicate_window_limit b)) (\<lambda>_.
      bind_res (ensure_budget ''reliable duplicate window'' reliable_count (duplicate_window_limit b)) (\<lambda>_.
      let seen_datagrams = set (sequences (ps_seen_datagram_order ps));
          seen = set (sequences (ps_seen_reliable_order ps)) in
      if card seen_datagrams \<noteq> datagram_count
      then Inl (Wire ''transferred peer repeats a datagram duplicate-window sequence'')
      else if card seen \<noteq> reliable_count
      then Inl (Wire ''transferred peer repeats a reliable duplicate-window sequence'')
      else
      bind_res (validate_channel_sequences (ps_ordered_expected ps)) (\<lambda>_.
      bind_res (validate_channel_sequences (ps_sequenced_latest ps)) (\<lambda>_.
      if ps_timeout_remaining ps > PEER_TIMEOUT
      then Inl (Wire ''transferred peer timeout exceeds the protocol timeout'')
      else Inr (seen_datagrams, seen)))))))))))))))))"

record validated_peer_snapshot =
  vs_checkpoint :: peer_snapshot
  vs_datagrams :: "datagram_sequence set"
  vs_reliable :: "reliable_sequence set"
  vs_budgets :: raknet_budgets

definition into_validated :: "raknet_budgets \<Rightarrow> peer_snapshot \<Rightarrow> raknet_error + validated_peer_snapshot" where
  "into_validated b ps =
     bind_res (validate_structure b ps) (\<lambda>(datagrams, reliables).
     Inr \<lparr>vs_checkpoint = ps, vs_datagrams = datagrams, vs_reliable = reliables, vs_budgets = b\<rparr>)"

text \<open>The batch validation: the checkpoints are cut into chunks, a worker thread validates each, the
  results are joined in order. \<open>parallelism\<close> is what the platform reports.\<close>

fun take_chunks :: "nat \<Rightarrow> nat \<Rightarrow> 'a list \<Rightarrow> 'a list list" where
  "take_chunks 0 n xs = []"
| "take_chunks (Suc k) n xs = (if take n xs = [] then [] else take n xs # take_chunks k n (drop n xs))"

definition SNAPSHOT_VALIDATION_WORKER_LIMIT :: nat where
  "SNAPSHOT_VALIDATION_WORKER_LIMIT = 16"

fun join_workers :: "('e + 'b list) list \<Rightarrow> 'b list \<Rightarrow> 'e + 'b list" where
  "join_workers [] acc = Inr acc"
| "join_workers (w # ws) acc = bind_res w (\<lambda>chunk. join_workers ws (acc @ chunk))"

definition validate_peer_snapshots ::
  "nat \<Rightarrow> peer_snapshot list \<Rightarrow> raknet_budgets \<Rightarrow> raknet_error + validated_peer_snapshot list" where
  "validate_peer_snapshots parallelism ss b =
     (if ss = [] then Inr []
      else
        let worker_count = min (min parallelism SNAPSHOT_VALIDATION_WORKER_LIMIT) (length ss);
            chunk_size = div_ceil (length ss) worker_count
        in join_workers (map (try_map (into_validated b)) (take_chunks (length ss) chunk_size ss)) [])"

section \<open>Restoring\<close>

definition hm_collect :: "('k \<times> 'v) list \<Rightarrow> ('k, 'v) hash_map" where
  "hm_collect xs = fold (\<lambda>(k, v) m. AList.update k v m) xs []"

definition restored_instant :: "nat \<Rightarrow> nat \<Rightarrow> nat" where
  "restored_instant t elapsed = (case instant_checked_sub t elapsed of Some u \<Rightarrow> u | None \<Rightarrow> t)"

definition restored_unacked :: "nat \<Rightarrow> unacked_snapshot \<Rightarrow> datagram_sequence \<times> unacked_datagram" where
  "restored_unacked restored_at d =
     (let elapsed = retransmit_delay (us_attempts d) - us_retransmit_remaining d
      in (us_sequence d, \<lparr>ud_bytes = us_bytes d, ud_sent_at = restored_instant restored_at elapsed,
                          ud_attempts = us_attempts d\<rparr>))"

definition from_validated_snapshot ::
  "peer_snapshot \<Rightarrow> datagram_sequence set \<Rightarrow> reliable_sequence set \<Rightarrow> nat \<Rightarrow> raknet_budgets \<Rightarrow>
   peer_inbox \<Rightarrow> nat \<Rightarrow> peer_actor" where
  "from_validated_snapshot ps datagrams reliables restored_at b inbox last_observed = \<lparr>
     pa_remote_addr = ps_remote_addr ps, pa_mtu = ps_mtu ps, pa_budgets = b, pa_inbox = inbox,
     pa_last_observed = last_observed, pa_accepted = ps_accepted ps,
     pa_next_datagram = ps_next_datagram ps, pa_next_reliable = ps_next_reliable ps,
     pa_next_ordered = ps_next_ordered ps, pa_next_split_id = ps_next_split_id ps,
     pa_last_datagram = ps_last_datagram ps,
     pa_seen_datagrams = datagrams,
     pa_seen_datagram_order = sequences (ps_seen_datagram_order ps),
     pa_seen_reliable = reliables,
     pa_seen_reliable_order = sequences (ps_seen_reliable_order ps),
     pa_ordered_expected = hm_collect (ps_ordered_expected ps),
     pa_sequenced_latest = hm_collect (ps_sequenced_latest ps),
     pa_ordered_holdback = hm_collect (map (\<lambda>held. ((os_channel held, os_sequence held), os_payload held))
                                         (ps_ordered_holdback ps)),
     pa_reassembly = hm_collect (map (\<lambda>split. (rs_split_id split, rs_parts split)) (ps_reassembly ps)),
     pa_reassembly_bytes = sum_list (map (parts_bytes \<circ> rs_parts) (ps_reassembly ps)),
     pa_reassembly_parts = sum_list (map (length \<circ> rs_parts) (ps_reassembly ps)),
     pa_unacked = hm_collect (map (restored_unacked restored_at) (ps_unacked_datagrams ps)),
     pa_sent = [], pa_accepted_peers = 0\<rparr>"

definition prepare_peer_snapshot :: "nat \<Rightarrow> raknet_budgets \<Rightarrow> validated_peer_snapshot \<Rightarrow> peer_actor" where
  "prepare_peer_snapshot now b vs =
     (let ps = vs_checkpoint vs;
          inbox = \<lparr>ib_queue = ps_queued_payloads ps, ib_closed = False, ib_capacity = application_queue b\<rparr>;
          idle_elapsed = PEER_TIMEOUT - ps_timeout_remaining ps
      in from_validated_snapshot (ps\<lparr>ps_queued_payloads := []\<rparr>) (vs_datagrams vs) (vs_reliable vs) now b
           inbox (restored_instant now idle_elapsed))"

section \<open>The checkpoint of a live peer validates\<close>

lemma distinct_map_sort_key: "distinct (map f (sort_key k xs)) = distinct (map f xs)"
proof -
  have "mset (map f (sort_key k xs)) = mset (map f xs)" by (simp add: mset_map)
  then show ?thesis by (rule mset_eq_imp_distinct_iff)
qed

lemma sum_list_sort_key: "sum_list (map f (sort_key k xs)) = (sum_list (map f xs) :: nat)"
  by (metis mset_map mset_sort sum_mset_sum_list)

lemma validate_unacked_ok:
  assumes "distinct (map us_sequence ds)" and "us_sequence ` set ds \<inter> seen = {}"
    and "\<And>d. d \<in> set ds \<Longrightarrow> length (us_bytes d) \<le> max_datagram_bytes b \<and>
      us_retransmit_remaining d \<le> retransmit_delay (us_attempts d) \<and> us_attempts d \<noteq> 0 \<and>
      us_attempts d \<le> MAX_RETRANSMIT_ATTEMPTS"
  shows "validate_unacked b seen ds = Inr ()"
  using assms
proof (induction ds arbitrary: seen)
  case (Cons d ds)
  have "validate_unacked b (insert (us_sequence d) seen) ds = Inr ()"
    using Cons.prems by (intro Cons.IH) auto
  then show ?case
    using Cons.prems(2) Cons.prems(3) [of d] by (auto simp: ensure_budget_ok)
qed simp

lemma validate_holdback_ok:
  assumes "distinct (map (\<lambda>h. (os_channel h, os_sequence h)) hs)"
    and "(\<lambda>h. (os_channel h, os_sequence h)) ` set hs \<inter> seen = {}"
    and "\<And>h. h \<in> set hs \<Longrightarrow> length (os_payload h) \<le> max_payload_bytes b"
  shows "validate_holdback b seen hs = Inr ()"
  using assms
proof (induction hs arbitrary: seen)
  case (Cons h hs)
  have "validate_holdback b (insert (os_channel h, os_sequence h) seen) hs = Inr ()"
    using Cons.prems by (intro Cons.IH) auto
  then show ?case
    using Cons.prems(2) Cons.prems(3) [of h] by (auto simp: ensure_budget_ok)
qed simp

lemma validate_parts_ok:
  "(\<And>part. Some part \<in> set parts \<Longrightarrow> length part \<le> max_payload_bytes b) \<Longrightarrow>
   so_far + parts_bytes parts \<le> usize_max \<Longrightarrow>
   validate_parts b so_far parts = Inr (so_far + parts_bytes parts)"
  by (induction b so_far parts rule: validate_parts.induct)
    (auto simp: parts_bytes_def usize_checked_add_def ensure_budget_ok ac_simps)

lemma validate_reassembly_ok:
  assumes "distinct (map rs_split_id ss)" and "rs_split_id ` set ss \<inter> ids = {}"
    and "\<And>s. s \<in> set ss \<Longrightarrow> rs_parts s \<noteq> []"
    and "\<And>s part. s \<in> set ss \<Longrightarrow> Some part \<in> set (rs_parts s) \<Longrightarrow> length part \<le> max_payload_bytes b"
    and "parts + sum_list (map (length \<circ> rs_parts) ss) \<le> usize_max"
    and "bytes + sum_list (map (parts_bytes \<circ> rs_parts) ss) \<le> usize_max"
  shows "validate_reassembly b ids parts bytes ss =
    Inr (parts + sum_list (map (length \<circ> rs_parts) ss), bytes + sum_list (map (parts_bytes \<circ> rs_parts) ss))"
  using assms
proof (induction ss arbitrary: ids parts bytes)
  case (Cons s ss)
  have "validate_parts b bytes (rs_parts s) = Inr (bytes + parts_bytes (rs_parts s))"
    using Cons.prems by (intro validate_parts_ok) auto
  moreover have "validate_reassembly b (insert (rs_split_id s) ids) (parts + length (rs_parts s))
      (bytes + parts_bytes (rs_parts s)) ss =
    Inr (parts + length (rs_parts s) + sum_list (map (length \<circ> rs_parts) ss),
         bytes + parts_bytes (rs_parts s) + sum_list (map (parts_bytes \<circ> rs_parts) ss))"
    using Cons.prems by (intro Cons.IH) auto
  ultimately show ?case
    using Cons.prems(2,5) Cons.prems(3) [of s] by (auto simp: usize_checked_add_def ac_simps comp_def)
qed simp

lemma channels_repeat_iff:
  "channels_repeat seen xs \<longleftrightarrow> \<not> (distinct (map fst xs) \<and> fst ` set xs \<inter> seen = {})"
  by (induction seen xs rule: channels_repeat.induct) auto

lemma validate_channel_sequences_sort:
  "hm_ok m \<Longrightarrow> validate_channel_sequences (sort_key k m) = Inr ()"
  by (simp add: validate_channel_sequences_def channels_repeat_iff distinct_map_sort_key hm_ok_def)

text \<open>The bound on single payloads that validation asks of the queued, held and partial ones.\<close>

definition payloads_within :: "peer_actor \<Rightarrow> bool" where
  "payloads_within a \<longleftrightarrow>
     (\<forall>p \<in> set (ib_queue (pa_inbox a)). length p \<le> max_payload_bytes (pa_budgets a)) \<and>
     (\<forall>e \<in> set (pa_ordered_holdback a). length (snd e) \<le> max_payload_bytes (pa_budgets a)) \<and>
     (\<forall>e \<in> set (pa_reassembly a). \<forall>part. Some part \<in> set (snd e) \<longrightarrow>
        length part \<le> max_payload_bytes (pa_budgets a))"

definition mtu_ok :: "peer_actor \<Rightarrow> bool" where
  "mtu_ok a \<longleftrightarrow> 576 \<le> pa_mtu a \<and> pa_mtu a \<le> maximum_mtu (pa_budgets a)"

lemma snapshot_unacked_validates:
  assumes "peer_inv a"
  shows "validate_unacked (pa_budgets a) {} (ps_unacked_datagrams (snapshot now a)) = Inr ()"
proof (rule validate_unacked_ok)
  have "us_sequence \<circ> snapshot_unacked now = fst"
    by (auto simp: snapshot_unacked_def)
  then show "distinct (map us_sequence (ps_unacked_datagrams (snapshot now a)))"
    using assms by (simp add: snapshot_def distinct_map_sort_key peer_inv_def unacked_inv_def hm_ok_def)
  show "length (us_bytes d) \<le> max_datagram_bytes (pa_budgets a) \<and>
      us_retransmit_remaining d \<le> retransmit_delay (us_attempts d) \<and> us_attempts d \<noteq> 0 \<and>
      us_attempts d \<le> MAX_RETRANSMIT_ATTEMPTS"
    if d: "d \<in> set (ps_unacked_datagrams (snapshot now a))" for d
  proof -
    from d obtain s u where u: "(s, u) \<in> set (pa_unacked a)" "d = snapshot_unacked now (s, u)"
      by (auto simp: snapshot_def)
    then have "unacked_ok (pa_budgets a) (s, u)"
      using assms by (auto simp: peer_inv_def unacked_inv_def)
    then show ?thesis
      using u(2) by (auto simp: unacked_ok_def snapshot_unacked_def)
  qed
qed simp

lemma map_snapshot_keys [simp]:
  "map rs_split_id (map snapshot_reassembly m) = map fst m"
  "map (\<lambda>h. (os_channel h, os_sequence h)) (map snapshot_held h) = map fst h"
  "map (f \<circ> rs_parts) (map snapshot_reassembly m) = map (f \<circ> snd) m"
  by (auto simp: snapshot_reassembly_def snapshot_held_def)

lemma snapshot_reassembly_validates:
  assumes "peer_inv a" and "payloads_within a"
  shows "validate_reassembly (pa_budgets a) {} 0 0 (ps_reassembly (snapshot now a)) =
    Inr (pa_reassembly_parts a, pa_reassembly_bytes a)"
proof -
  let ?ss = "ps_reassembly (snapshot now a)"
  have frag: "fragment_inv (pa_budgets a) (pa_reassembly a) (pa_reassembly_parts a) (pa_reassembly_bytes a)"
    and b: "budgets_ok (pa_budgets a)"
    using assms by (auto simp: peer_inv_def)
  have sums: "sum_list (map (f \<circ> rs_parts) ?ss) = sum_list (map (f \<circ> snd) (pa_reassembly a))" for f :: "reassembly \<Rightarrow> nat"
    by (simp only: snapshot_def peer_snapshot.simps sum_list_sort_key map_snapshot_keys)
  have mem: "\<exists>e \<in> set (pa_reassembly a). rs_parts s = snd e" if "s \<in> set ?ss" for s
    using that by (force simp: snapshot_def snapshot_reassembly_def)
  have "validate_reassembly (pa_budgets a) {} 0 0 ?ss =
      Inr (0 + sum_list (map (length \<circ> rs_parts) ?ss), 0 + sum_list (map (parts_bytes \<circ> rs_parts) ?ss))"
  proof (rule validate_reassembly_ok)
    show "distinct (map rs_split_id ?ss)"
      using frag by (simp only: snapshot_def peer_snapshot.simps distinct_map_sort_key map_snapshot_keys
          fragment_inv_def hm_ok_def)
    show "rs_parts s \<noteq> []" if "s \<in> set ?ss" for s
      using mem [OF that] frag by (auto simp: fragment_inv_def)
    show "length part \<le> max_payload_bytes (pa_budgets a)" if "s \<in> set ?ss" "Some part \<in> set (rs_parts s)" for s part
      using mem [OF that(1)] that(2) assms(2) by (auto simp: payloads_within_def)
  qed (use frag b in \<open>auto simp: sums fragment_inv_def total_parts_def total_bytes_def budgets_ok_def\<close>)
  then show ?thesis
    using frag by (simp add: sums fragment_inv_def total_parts_def total_bytes_def)
qed

lemma snapshot_holdback_validates:
  assumes "peer_inv a" and "payloads_within a"
  shows "validate_holdback (pa_budgets a) {} (ps_ordered_holdback (snapshot now a)) = Inr ()"
proof (rule validate_holdback_ok)
  show "distinct (map (\<lambda>h. (os_channel h, os_sequence h)) (ps_ordered_holdback (snapshot now a)))"
    using assms by (simp only: snapshot_def peer_snapshot.simps distinct_map_sort_key map_snapshot_keys
        peer_inv_def holdback_inv_def hm_ok_def)
  show "length (os_payload h) \<le> max_payload_bytes (pa_budgets a)"
    if "h \<in> set (ps_ordered_holdback (snapshot now a))" for h
    using that assms(2) by (force simp: snapshot_def snapshot_held_def payloads_within_def)
qed simp

lemma window_history:
  assumes "window_ok (duplicate_window_limit b) order seen" and "budgets_ok b"
  shows "sequences (from_sequences order) = order"
    and "sequence_count (from_sequences order) = Inr (length order)"
    and "length order \<le> duplicate_window_limit b" and "card (set order) = length order" and "seen = set order"
proof -
  have "duplicate_window_limit b \<le> usize_max"
    by (simp add: duplicate_window_limit_def usize_saturating_mul_def usize_max_def)
  then have "length order \<le> usize_max" using assms by (simp add: window_ok_def)
  from history_exact [OF this]
  show "sequences (from_sequences order) = order"
    and "sequence_count (from_sequences order) = Inr (length order)" by auto
  show "length order \<le> duplicate_window_limit b" "card (set order) = length order" "seen = set order"
    using assms by (auto simp: window_ok_def distinct_card)
qed

lemma snapshot_live_validates:
  assumes "peer_inv a" and "payloads_within a" and "mtu_ok a"
  shows "validate_structure (pa_budgets a) (snapshot now a) = Inr (pa_seen_datagrams a, pa_seen_reliable a)"
proof -
  let ?b = "pa_budgets a" and ?s = "snapshot now a"
  have w: "budgets_ok ?b"
    "window_ok (duplicate_window_limit ?b) (pa_seen_datagram_order a) (pa_seen_datagrams a)"
    "window_ok (duplicate_window_limit ?b) (pa_seen_reliable_order a) (pa_seen_reliable a)"
    "hm_ok (pa_ordered_expected a)" "hm_ok (pa_sequenced_latest a)"
    using assms(1) by (auto simp: peer_inv_def)
  have seen: "ps_seen_datagram_order ?s = from_sequences (pa_seen_datagram_order a)"
    "ps_seen_reliable_order ?s = from_sequences (pa_seen_reliable_order a)"
    and chan: "validate_channel_sequences (ps_ordered_expected ?s) = Inr ()"
    "validate_channel_sequences (ps_sequenced_latest ?s) = Inr ()"
    and rest: "ps_mtu ?s = pa_mtu a" "\<not> PEER_TIMEOUT < ps_timeout_remaining ?s"
    "length (ps_queued_payloads ?s) \<le> application_queue ?b"
    "\<forall>p \<in> set (ps_queued_payloads ?s). length p \<le> max_payload_bytes ?b"
    "length (ps_unacked_datagrams ?s) \<le> max_unacked_datagrams ?b"
    "length (ps_ordered_holdback ?s) \<le> max_ordered_holdback ?b"
    "pa_reassembly_parts a \<le> max_reassembly_parts_per_peer ?b"
    "pa_reassembly_bytes a \<le> max_reassembly_bytes_per_peer ?b"
    using assms w(4,5)
    by (auto simp: snapshot_def validate_channel_sequences_sort peer_inv_def unacked_inv_def
        holdback_inv_def fragment_inv_def inbox_inv_def payloads_within_def)
  have each: "try_each (\<lambda>p. ensure_budget ''application payload bytes'' (length p) (max_payload_bytes ?b))
      (ps_queued_payloads ?s) = Inr ()"
    using rest(4) by (simp add: try_each_Inr)
  note datagrams = window_history [OF w(2,1)] and reliables = window_history [OF w(3,1)]
  show ?thesis
    using assms(3)
    by (simp add: validate_structure_def rest each ensure_budget_ok
        snapshot_unacked_validates [OF assms(1)] snapshot_reassembly_validates [OF assms(1,2)]
        snapshot_holdback_validates [OF assms(1,2)] seen datagrams(1-4) reliables(1-4) chan mtu_ok_def
        datagrams(5) reliables(5) Let_def)
qed


text \<open>A peer with one unacknowledged datagram, one held payload, one open assembly, one queued
  payload, and windows across the wrap.\<close>

definition busy_peer :: peer_actor where
  "busy_peer = (peer_new (V4 [127, 0, 0, 1] 19132) 1400 default_budgets
      \<lparr>ib_queue = [[0xfe, 9]], ib_closed = False, ib_capacity = 256\<rparr> 20000000000)\<lparr>
     pa_accepted := True,
     pa_next_datagram := seq_new 3,
     pa_last_datagram := Some (seq_new 1),
     pa_seen_datagrams := {seq_new 0xFFFFFF, seq_new 0, seq_new 1},
     pa_seen_datagram_order := [seq_new 0xFFFFFF, seq_new 0, seq_new 1],
     pa_ordered_expected := [(1, seq_new 4), (0, seq_new 2)],
     pa_ordered_holdback := [((0, seq_new 5), [0xfe, 1])],
     pa_reassembly := [(9, [None, Some [1, 2, 3]])],
     pa_reassembly_bytes := 3, pa_reassembly_parts := 2,
     pa_unacked := [(seq_new 2, \<lparr>ud_bytes = [0x84, 1, 2, 3], ud_sent_at = 20000000000, ud_attempts = 2\<rparr>)]\<rparr>"

lemma busy_peer_inv: "peer_inv busy_peer"
  by (simp add: busy_peer_def peer_new_def peer_inv_def budgets_ok_def default_budgets_def usize_max_def
      unacked_inv_def unacked_ok_def hm_ok_def window_ok_def duplicate_window_limit_def
      usize_saturating_mul_def holdback_inv_def fragment_inv_def inbox_inv_def total_parts_def
      total_bytes_def parts_bytes_def MAX_RETRANSMIT_ATTEMPTS_def seq_new_def seq_ok_def seq_consts)

lemma busy_peer_transferable: "payloads_within busy_peer" "mtu_ok busy_peer"
  by (simp_all add: payloads_within_def mtu_ok_def maximum_mtu_def busy_peer_def peer_new_def
      default_budgets_def)


section \<open>A transferred peer is the peer it was\<close>

lemma hm_collect_distinct: "distinct (map fst xs) \<Longrightarrow> hm_collect xs = xs"
proof -
  have upd: "AList.update k v m = m @ [(k, v)]" if "k \<notin> fst ` set m" for k v and m :: "('a \<times> 'b) list"
    using that by (induction m) auto
  have "fold (\<lambda>(k, v) m. AList.update k v m) xs m = m @ xs" if "distinct (map fst (m @ xs))" for m :: "('a \<times> 'b) list"
    using that
  proof (induction xs arbitrary: m)
    case (Cons e xs)
    then show ?case by (cases e) (auto simp: upd)
  qed simp
  from this [of "[]"] show "distinct (map fst xs) \<Longrightarrow> hm_collect xs = xs"
    by (simp add: hm_collect_def)
qed

lemma sort_key_map_commute: "sort_key k (map f xs) = map f (sort_key (k \<circ> f) xs)"
proof -
  have "insort_key k (f x) (map f ys) = map f (insort_key (k \<circ> f) x ys)" for x ys
    by (induction ys) auto
  then show ?thesis by (induction xs) (auto simp: sort_key_def)
qed

lemma sort_key_idem [simp]: "sort_key k (sort_key k xs) = sort_key k xs"
  by (simp add: sort_key_id_if_sorted)

lemma restored_instant_elapsed: "e \<le> t \<Longrightarrow> t - restored_instant t e = e"
  by (simp add: restored_instant_def instant_checked_sub_def)

lemma retransmit_delay_le: "retransmit_delay n \<le> PEER_TIMEOUT"
proof -
  have "(2::nat) ^ min (unat (saturating_sub_word n 1)) 3 \<le> 2 ^ 3"
    by (rule power_increasing) auto
  then show ?thesis
    by (simp add: retransmit_delay_def Let_def RETRANSMIT_BASE_DELAY_def PEER_TIMEOUT_def
        nanos_per_milli_def RETRANSMIT_MAX_BACKOFF_SHIFT_def)
qed

lemma snapshot_restored_unacked:
  assumes "us_retransmit_remaining d \<le> retransmit_delay (us_attempts d)" and "PEER_TIMEOUT \<le> t"
  shows "snapshot_unacked t (restored_unacked t d) = d"
proof -
  let ?e = "retransmit_delay (us_attempts d) - us_retransmit_remaining d"
  have "?e \<le> t" using assms retransmit_delay_le [of "us_attempts d"] by linarith
  from restored_instant_elapsed [OF this] assms(1) show ?thesis
    by (simp add: snapshot_unacked_def restored_unacked_def Let_def)
qed

definition restore :: "nat \<Rightarrow> nat \<Rightarrow> peer_actor \<Rightarrow> peer_actor" where
  "restore taken_at restored_at a =
     prepare_peer_snapshot restored_at (pa_budgets a)
       \<lparr>vs_checkpoint = snapshot taken_at a, vs_datagrams = pa_seen_datagrams a,
        vs_reliable = pa_seen_reliable a, vs_budgets = pa_budgets a\<rparr>"

lemma restore_fields:
  assumes inv: "peer_inv a"
  shows "pa_seen_datagram_order (restore t t' a) = pa_seen_datagram_order a"
    and "pa_seen_reliable_order (restore t t' a) = pa_seen_reliable_order a"
    and "pa_ordered_expected (restore t t' a) = sort_key fst (pa_ordered_expected a)"
    and "pa_sequenced_latest (restore t t' a) = sort_key fst (pa_sequenced_latest a)"
    and "pa_ordered_holdback (restore t t' a) =
      sort_key (\<lambda>e. (fst (fst e), seq_value (snd (fst e)))) (pa_ordered_holdback a)"
    and "pa_reassembly (restore t t' a) = sort_key fst (pa_reassembly a)"
    and "pa_reassembly_parts (restore t t' a) = pa_reassembly_parts a"
    and "pa_reassembly_bytes (restore t t' a) = pa_reassembly_bytes a"
    and "pa_unacked (restore t t' a) =
      map (restored_unacked t') (ps_unacked_datagrams (snapshot t a))"
    and "ib_queue (pa_inbox (restore t t' a)) = ib_queue (pa_inbox a)"
proof -
  have w: "budgets_ok (pa_budgets a)"
    "window_ok (duplicate_window_limit (pa_budgets a)) (pa_seen_datagram_order a) (pa_seen_datagrams a)"
    "window_ok (duplicate_window_limit (pa_budgets a)) (pa_seen_reliable_order a) (pa_seen_reliable a)"
    and hm: "hm_ok (pa_ordered_expected a)" "hm_ok (pa_sequenced_latest a)" "hm_ok (pa_ordered_holdback a)"
    "hm_ok (pa_reassembly a)" "hm_ok (pa_unacked a)"
    and frag: "fragment_inv (pa_budgets a) (pa_reassembly a) (pa_reassembly_parts a) (pa_reassembly_bytes a)"
    using inv by (auto simp: peer_inv_def holdback_inv_def fragment_inv_def unacked_inv_def)
  note rdefs = restore_def prepare_peer_snapshot_def from_validated_snapshot_def snapshot_def Let_def
  note sortd = hm_collect_distinct distinct_map_sort_key
  show "pa_seen_datagram_order (restore t t' a) = pa_seen_datagram_order a"
    using window_history(1) [OF w(2,1)] by (simp add: rdefs)
  show "pa_seen_reliable_order (restore t t' a) = pa_seen_reliable_order a"
    using window_history(1) [OF w(3,1)] by (simp add: rdefs)
  show "pa_ordered_expected (restore t t' a) = sort_key fst (pa_ordered_expected a)"
    "pa_sequenced_latest (restore t t' a) = sort_key fst (pa_sequenced_latest a)"
    using hm by (simp_all add: rdefs sortd hm_ok_def)
  have held: "(\<lambda>held. ((os_channel held, os_sequence held), os_payload held)) \<circ> snapshot_held = id"
    by (auto simp: snapshot_held_def)
  show "pa_ordered_holdback (restore t t' a) =
      sort_key (\<lambda>e. (fst (fst e), seq_value (snd (fst e)))) (pa_ordered_holdback a)"
    using hm by (simp add: rdefs sort_key_map_commute held sortd hm_ok_def)
      (simp add: comp_def snapshot_held_def case_prod_beta)
  have split: "(\<lambda>split. (rs_split_id split, rs_parts split)) \<circ> snapshot_reassembly = id"
    by (auto simp: snapshot_reassembly_def)
  show "pa_reassembly (restore t t' a) = sort_key fst (pa_reassembly a)"
    using hm by (simp add: rdefs sort_key_map_commute split sortd hm_ok_def)
      (simp add: comp_def snapshot_reassembly_def case_prod_beta)
  show "pa_reassembly_parts (restore t t' a) = pa_reassembly_parts a"
    "pa_reassembly_bytes (restore t t' a) = pa_reassembly_bytes a"
    using frag by (simp_all add: rdefs sum_list_sort_key del: map_map add: fragment_inv_def total_parts_def total_bytes_def)
  have "fst \<circ> restored_unacked t' \<circ> snapshot_unacked t = fst"
    by (auto simp: restored_unacked_def snapshot_unacked_def Let_def)
  then have "distinct (map fst (map (restored_unacked t') (ps_unacked_datagrams (snapshot t a))))"
    using hm by (simp add: snapshot_def sort_key_map_commute distinct_map_sort_key hm_ok_def comp_assoc [symmetric])
  then show "pa_unacked (restore t t' a) =
      map (restored_unacked t') (ps_unacked_datagrams (snapshot t a))"
    by (simp add: restore_def prepare_peer_snapshot_def from_validated_snapshot_def Let_def hm_collect_distinct)
  show "ib_queue (pa_inbox (restore t t' a)) = ib_queue (pa_inbox a)"
    by (simp add: rdefs)
qed

lemma snapshot_remaining_le:
  "d \<in> set (ps_unacked_datagrams (snapshot t a)) \<Longrightarrow> us_retransmit_remaining d \<le> retransmit_delay (us_attempts d)"
  by (auto simp: snapshot_def snapshot_unacked_def)

lemma snapshot_restore:
  assumes inv: "peer_inv a" and t': "PEER_TIMEOUT \<le> t'"
  shows "snapshot t' (restore t t' a) = snapshot t a"
proof -
  let ?r = "restore t t' a" and ?us = "ps_unacked_datagrams (snapshot t a)"
  have "map (snapshot_unacked t') (map (restored_unacked t') ?us) = ?us"
    using snapshot_remaining_le [of _ t a] snapshot_restored_unacked [OF _ t']
    by (auto intro!: map_idI)
  moreover have "sort_key (\<lambda>e. seq_value (us_sequence e)) ?us = ?us" by (simp add: snapshot_def)
  ultimately have unacked: "ps_unacked_datagrams (snapshot t' ?r) = ?us"
    by (simp add: snapshot_def [of t'] restore_fields(9) [OF inv])
  have held: "sort_key (\<lambda>e. (os_channel e, seq_value (os_sequence e)))
      (map snapshot_held (sort_key (\<lambda>e. (fst (fst e), seq_value (snd (fst e)))) m)) =
      sort_key (\<lambda>e. (os_channel e, seq_value (os_sequence e))) (map snapshot_held m)" for m
  proof -
    have key: "(\<lambda>e. (os_channel e, seq_value (os_sequence e))) \<circ> snapshot_held =
        (\<lambda>e. (fst (fst e), seq_value (snd (fst e))))"
      by (auto simp: snapshot_held_def)
    show ?thesis by (simp add: sort_key_map_commute key)
  qed
  have asm: "sort_key rs_split_id (map snapshot_reassembly (sort_key fst m)) =
      sort_key rs_split_id (map snapshot_reassembly m)" for m
  proof -
    have key: "rs_split_id \<circ> snapshot_reassembly = fst" by (auto simp: snapshot_reassembly_def)
    show ?thesis by (simp add: sort_key_map_commute key)
  qed
  have idle: "PEER_TIMEOUT - (t' - pa_last_observed ?r) = ps_timeout_remaining (snapshot t a)"
    using t' by (simp add: restore_def prepare_peer_snapshot_def from_validated_snapshot_def Let_def
        restored_instant_elapsed snapshot_def)
  show ?thesis
    using unacked held asm idle restore_fields [OF inv, of t t']
    by (simp add: snapshot_def)
      (simp add: restore_def prepare_peer_snapshot_def from_validated_snapshot_def snapshot_def Let_def)
qed

lemma peer_inv_restore:
  assumes inv: "peer_inv a"
  shows "peer_inv (restore t t' a)"
proof -
  let ?r = "restore t t' a"
  note f = restore_fields [OF inv, of t t']
  have same: "pa_budgets ?r = pa_budgets a" "pa_next_datagram ?r = pa_next_datagram a"
    "pa_next_reliable ?r = pa_next_reliable a" "pa_next_ordered ?r = pa_next_ordered a"
    "pa_seen_datagrams ?r = pa_seen_datagrams a" "pa_seen_reliable ?r = pa_seen_reliable a"
    "ib_capacity (pa_inbox ?r) = application_queue (pa_budgets a)"
    by (simp_all add: restore_def prepare_peer_snapshot_def from_validated_snapshot_def snapshot_def Let_def)
  have "map fst (pa_unacked ?r) = map us_sequence (ps_unacked_datagrams (snapshot t a))"
    by (simp add: f restored_unacked_def Let_def)
  moreover have "map us_sequence (map (snapshot_unacked t) m) = map fst m" for m
    by (auto simp: snapshot_unacked_def)
  ultimately have keys: "hm_ok (pa_unacked ?r)"
    using inv by (simp only: hm_ok_def snapshot_def peer_snapshot.simps distinct_map_sort_key
        peer_inv_def unacked_inv_def)
  have entry: "unacked_ok (pa_budgets a) (restored_unacked t' d)"
    if "d \<in> set (ps_unacked_datagrams (snapshot t a))" for d
    using that inv
    by (force simp: snapshot_def snapshot_unacked_def restored_unacked_def peer_inv_def
        unacked_inv_def unacked_ok_def Let_def)
  have unacked: "unacked_inv (pa_budgets a) (pa_unacked ?r)"
    using keys entry inv by (auto simp: unacked_inv_def f(9) peer_inv_def snapshot_def)
  show ?thesis
    using inv unacked
    by (simp add: peer_inv_def same f holdback_inv_def fragment_inv_def inbox_inv_def hm_ok_def
        distinct_map_sort_key total_parts_def total_bytes_def sum_list_sort_key)
qed



end
