(* ===== verification/RakNet_Run.thy ===== *)
theory RakNet_Run
  imports RakNet_Transfer
begin

text \<open>
  The crate \<open>revy-raknet\<close>, file \<open>peer.rs\<close>: the actor's run loop \<open>run_with_state\<close>, its commands, and the
  router's and the application's side of the channels.

  \<^item> \<open>peer_run\<close> is the loop's state with its two channels as bounded queues; a channel is
    open while a sender exists. \<open>pr_replies\<close> records what was answered on the oneshot channels.
  \<^item> \<open>run_iteration\<close> is one pass through the loop body: \<open>tokio::select! { biased; ... }\<close> polls the
    commands, then the datagrams, then the timer. Where the loop would wait, the state stays.
  \<^item> \<open>peer_reach\<close> interleaves iterations, at any clock readings, with the router delivering datagrams,
    anyone queueing commands, the application taking payloads, and the senders going away.
\<close>

datatype peer_command =
    Send bytes
  | Freeze
  | SealTransfer
  | Resume
  | Transfer

datatype peer_execution =
    Running
  | Frozen (frozen_since: nat)

datatype peer_reply =
    SendReply bytes "raknet_error + unit"
  | FreezeReply
  | SealReply peer_snapshot
  | TransferReply

record peer_run =
  pr_actor :: peer_actor
  pr_execution :: peer_execution
  pr_deferred :: "bytes list"
  pr_commands :: "peer_command list"
  pr_commands_open :: bool
  pr_ingress :: "bytes list"
  pr_ingress_open :: bool
  pr_replies :: "peer_reply list"
  pr_stopped :: bool

definition reply :: "peer_reply \<Rightarrow> peer_run \<Rightarrow> peer_run" where
  "reply r st = st\<lparr>pr_replies := pr_replies st @ [r]\<rparr>"

text \<open>Leaving the loop: the inbox is closed behind it.\<close>

definition stop :: "peer_run \<Rightarrow> peer_run" where
  "stop st = st\<lparr>pr_stopped := True,
     pr_actor := (pr_actor st)\<lparr>pa_inbox := inbox_close (pa_inbox (pr_actor st))\<rparr>\<rparr>"

definition apply_command :: "peer_env \<Rightarrow> peer_command \<Rightarrow> peer_run \<Rightarrow> bool \<times> peer_run" where
  "apply_command env command st =
     (case command of
        Send payload \<Rightarrow>
          (case send_application env payload (pr_actor st) of
             (result, a) \<Rightarrow> (isl result, reply (SendReply payload result) (st\<lparr>pr_actor := a\<rparr>)))
      | Freeze \<Rightarrow> (False, reply FreezeReply (st\<lparr>pr_execution := Frozen (env_now env)\<rparr>))
      | SealTransfer \<Rightarrow> (False, reply (SealReply (snapshot (env_now env) (pr_actor st))) st)
      | Resume \<Rightarrow> (False, st)
      | Transfer \<Rightarrow> (True, reply TransferReply st))"

definition frozen_command :: "peer_env \<Rightarrow> nat \<Rightarrow> peer_command \<Rightarrow> peer_run \<Rightarrow> peer_run" where
  "frozen_command env since command st =
     (case command of
        Freeze \<Rightarrow> reply FreezeReply st
      | SealTransfer \<Rightarrow> reply (SealReply (snapshot since (pr_actor st))) st
      | Resume \<Rightarrow> st\<lparr>pr_actor := resume_timers since (env_now env) (pr_actor st), pr_execution := Running\<rparr>
      | Transfer \<Rightarrow> stop (reply TransferReply st)
      | Send payload \<Rightarrow>
          if length (pr_deferred st) < peer_command_queue (pa_budgets (pr_actor st))
          then st\<lparr>pr_deferred := pr_deferred st @ [payload]\<rparr>
          else reply (SendReply payload (Inl QueueFull)) st)"

definition after_command :: "bool \<times> peer_run \<Rightarrow> peer_run" where
  "after_command r = (if fst r then stop (snd r) else snd r)"

definition after_handler :: "(raknet_error + unit) \<times> peer_actor \<Rightarrow> peer_run \<Rightarrow> peer_run" where
  "after_handler r st =
     (let st' = st\<lparr>pr_actor := snd r\<rparr> in if isl (fst r) then stop st' else st')"

definition run_iteration :: "peer_env \<Rightarrow> peer_run \<Rightarrow> peer_run" where
  "run_iteration env st =
     (if pr_stopped st then st
      else case pr_execution st of
        Frozen since \<Rightarrow>
          (case pr_commands st of
             command # rest \<Rightarrow> frozen_command env since command (st\<lparr>pr_commands := rest\<rparr>)
           | [] \<Rightarrow> if pr_commands_open st then st else stop st)
      | Running \<Rightarrow>
          (case pr_deferred st of
             payload # rest \<Rightarrow> after_command (apply_command env (Send payload) (st\<lparr>pr_deferred := rest\<rparr>))
           | [] \<Rightarrow>
          (case pr_commands st of
             command # rest \<Rightarrow> after_command (apply_command env command (st\<lparr>pr_commands := rest\<rparr>))
           | [] \<Rightarrow>
             if \<not> pr_commands_open st then stop st
             else
          (case pr_ingress st of
             bs # rest \<Rightarrow> after_handler (receive_datagram env bs (pr_actor st)) (st\<lparr>pr_ingress := rest\<rparr>)
           | [] \<Rightarrow>
             if \<not> pr_ingress_open st then stop st
             else if next_timer_deadline (pr_actor st) \<le> env_now env
             then after_handler (on_timer env (pr_actor st)) st
             else st))))"

section \<open>The other side of the channels\<close>

definition control_deliver :: "nat \<Rightarrow> bytes \<Rightarrow> (peer_run, raknet_error, unit) sr" where
  "control_deliver now bs st =
     (if pr_stopped st then (Inl Closed, st)
      else if length (pr_ingress st) < peer_ingress_queue (pa_budgets (pr_actor st))
      then (Inr (), st\<lparr>pr_ingress := pr_ingress st @ [bs],
                       pr_actor := (pr_actor st)\<lparr>pa_last_observed :=
                         activity_observe now (pa_last_observed (pr_actor st))\<rparr>\<rparr>)
      else (Inl QueueFull, st))"

definition queue_command :: "peer_command \<Rightarrow> (peer_run, raknet_error, unit) sr" where
  "queue_command command st =
     (if pr_stopped st then (Inl Closed, st)
      else if length (pr_commands st) < peer_command_queue (pa_budgets (pr_actor st))
      then (Inr (), st\<lparr>pr_commands := pr_commands st @ [command]\<rparr>)
      else (Inl QueueFull, st))"

definition app_receive :: "peer_run \<Rightarrow> (raknet_error + bytes) option \<times> peer_run" where
  "app_receive st =
     (case inbox_receive (pa_inbox (pr_actor st)) of
        (res, ib) \<Rightarrow> (res, st\<lparr>pr_actor := (pr_actor st)\<lparr>pa_inbox := ib\<rparr>\<rparr>))"

definition run_new :: "peer_actor \<Rightarrow> peer_execution \<Rightarrow> peer_run" where
  "run_new a ex = \<lparr>pr_actor = a, pr_execution = ex, pr_deferred = [], pr_commands = [],
     pr_commands_open = True, pr_ingress = [], pr_ingress_open = True, pr_replies = [],
     pr_stopped = False\<rparr>"

definition spawn_peer :: "socket_addr \<Rightarrow> u16 \<Rightarrow> raknet_budgets \<Rightarrow> nat \<Rightarrow> peer_run" where
  "spawn_peer remote_addr mtu b now =
     run_new (peer_new remote_addr mtu b (inbox_new (application_queue b)) now) Running"

inductive peer_step :: "peer_run \<Rightarrow> peer_run \<Rightarrow> bool" where
  iterate: "peer_step st (run_iteration env st)"
| deliver: "peer_step st (snd (control_deliver now bs st))"
| command: "peer_step st (snd (queue_command c st))"
| receive: "peer_step st (snd (app_receive st))"
| commands_closed: "peer_step st (st\<lparr>pr_commands_open := False\<rparr>)"
| ingress_closed: "peer_step st (st\<lparr>pr_ingress_open := False\<rparr>)"

inductive peer_reach :: "peer_run \<Rightarrow> peer_run \<Rightarrow> bool" for start where
  start: "peer_reach start start"
| step: "peer_reach start st \<Longrightarrow> peer_step st st' \<Longrightarrow> peer_reach start st'"

inductive_cases peer_stepE: "peer_step st st'"

section \<open>The invariant of the run loop\<close>

definition run_inv :: "peer_run \<Rightarrow> bool" where
  "run_inv st \<longleftrightarrow> peer_inv (pr_actor st) \<and>
     length (pr_deferred st) \<le> peer_command_queue (pa_budgets (pr_actor st)) \<and>
     length (pr_commands st) \<le> peer_command_queue (pa_budgets (pr_actor st)) \<and>
     length (pr_ingress st) \<le> peer_ingress_queue (pa_budgets (pr_actor st))"

text \<open>No handler changes the budgets.\<close>

lemma socket_send_budgets [preserves_intros]: "preserves (\<lambda>a. pa_budgets a = b) (socket_send env bs)"
  by (rule socket_send_preserves) simp

lemma send_frame_budgets [preserves_intros]: "preserves (\<lambda>a. pa_budgets a = b) (send_frame env f)"
  unfolding send_frame_def Let_def by (intro preserves_intros) auto

lemma send_reliable_ordered_budgets [preserves_intros]:
  "preserves (\<lambda>a. pa_budgets a = b) (send_reliable_ordered env payload)"
  unfolding send_reliable_ordered_def send_fragment_def Let_def by (intro preserves_intros) auto

lemma send_application_budgets [preserves_intros]:
  "preserves (\<lambda>a. pa_budgets a = b) (send_application env payload)"
  unfolding send_application_def by (intro preserves_intros)

lemma deliver_payload_budgets [preserves_intros]:
  "preserves (\<lambda>a. pa_budgets a = b) (deliver_payload env payload)"
  unfolding deliver_payload_def Let_def
  by (intro preserves_intros) (auto simp: preserves_def push_inbox_def split: sum.split)

lemma drain_holdback_budgets [preserves_intros]:
  "preserves (\<lambda>a. pa_budgets a = b) (drain_holdback env channel)"
  by (rule preserves_drain_holdback) (auto intro: preserves_intros)

lemma accept_ordered_budgets [preserves_intros]:
  "preserves (\<lambda>a. pa_budgets a = b) (accept_ordered env channel s payload)"
  unfolding accept_ordered_def by (intro preserves_intros) auto

lemma accept_fragment_budgets [preserves_intros]:
  "preserves (\<lambda>a. pa_budgets a = b) (accept_fragment sp payload)"
  unfolding accept_fragment_def store_fragment_def complete_reassembly_def Let_def
  by (intro preserves_intros) (auto simp: open_reassembly_def)

lemma receive_frame_budgets [preserves_intros]:
  "preserves (\<lambda>a. pa_budgets a = b) (receive_frame env f)"
  unfolding receive_frame_def receive_unique_frame_def route_payload_def
  by (intro preserves_intros) (auto simp: note_reliable_def Let_def split: prod.split)

lemma retransmit_budgets [preserves_intros]: "preserves (\<lambda>a. pa_budgets a = b) (retransmit env s)"
  unfolding retransmit_def by (intro preserves_intros) auto

lemma apply_acknowledgement_budgets [preserves_intros]:
  "preserves (\<lambda>a. pa_budgets a = b) (apply_acknowledgement env ack)"
  unfolding apply_acknowledgement_def by (cases ack) (auto intro!: preserves_intros)

lemma receive_datagram_budgets [preserves_intros]:
  "preserves (\<lambda>a. pa_budgets a = b) (receive_datagram env bs)"
  unfolding receive_datagram_def
  by (intro preserves_intros) (auto simp: note_datagram_def Let_def split: prod.split)

lemma on_timer_budgets [preserves_intros]: "preserves (\<lambda>a. pa_budgets a = b) (on_timer env)"
  unfolding on_timer_def by (intro preserves_intros)

lemmas budgets_frame [simp] =
  preservesD [OF send_application_budgets refl] preservesD [OF receive_datagram_budgets refl]
  preservesD [OF on_timer_budgets refl]

lemmas handlers_keep_inv = preservesD [OF keeps_inv_send_application]
  preservesD [OF keeps_inv_receive_datagram] preservesD [OF keeps_inv_on_timer] peer_inv_resume_timers

lemma peer_inv_inbox:
  "peer_inv a \<Longrightarrow> inbox_inv (pa_budgets a) ib \<Longrightarrow> peer_inv (a\<lparr>pa_inbox := ib\<rparr>)"
  by (simp add: peer_inv_def)

lemma run_inv_reply [simp]: "run_inv (reply r st) = run_inv st"
  by (simp add: run_inv_def reply_def)

lemma run_inv_actor:
  "run_inv st \<Longrightarrow> peer_inv a \<Longrightarrow> pa_budgets a = pa_budgets (pr_actor st) \<Longrightarrow> run_inv (st\<lparr>pr_actor := a\<rparr>)"
  by (simp add: run_inv_def)

lemma run_inv_peer: "run_inv st \<Longrightarrow> peer_inv (pr_actor st)"
  by (simp add: run_inv_def)

lemma run_inv_stop: "run_inv st \<Longrightarrow> run_inv (stop st)"
  by (auto simp: run_inv_def stop_def peer_inv_def inbox_inv_def inbox_close_def)

lemma run_inv_after_handler:
  assumes "run_inv st" and "preserves peer_inv m" and "pa_budgets (snd (m (pr_actor st))) = pa_budgets (pr_actor st)"
  shows "run_inv (after_handler (m (pr_actor st)) st)"
  using assms preservesD [OF assms(2), of "pr_actor st"] run_inv_stop
  by (auto simp: after_handler_def run_inv_def Let_def)

lemma run_inv_apply_command: "run_inv st \<Longrightarrow> run_inv (snd (apply_command env c st))"
  using handlers_keep_inv(1) [OF run_inv_peer, of st env] run_inv_actor [of st]
  by (cases c) (auto simp: apply_command_def case_prod_beta, simp add: run_inv_def)

lemma run_inv_after_command: "run_inv (snd r) \<Longrightarrow> run_inv (after_command r)"
  by (simp add: after_command_def run_inv_stop)

lemma run_inv_frozen_command: "run_inv st \<Longrightarrow> run_inv (frozen_command env since c st)"
  using peer_inv_resume_timers [OF run_inv_peer, of st since "env_now env"]
  by (cases c) (auto simp: frozen_command_def run_inv_stop, auto simp: run_inv_def resume_timers_def)

lemma run_inv_iteration: "run_inv st \<Longrightarrow> run_inv (run_iteration env st)"
proof -
  assume inv: "run_inv st"
  have smaller: "run_inv (st\<lparr>pr_commands := rest\<rparr>)" if "pr_commands st = c # rest" for c rest
    using inv that by (simp add: run_inv_def)
  have deferred: "run_inv (st\<lparr>pr_deferred := rest\<rparr>)" if "pr_deferred st = c # rest" for c rest
    using inv that by (simp add: run_inv_def)
  have ingress: "run_inv (after_handler (receive_datagram env bs (pr_actor st)) (st\<lparr>pr_ingress := rest\<rparr>))"
    if "pr_ingress st = bs # rest" for bs rest
    using run_inv_after_handler [of "st\<lparr>pr_ingress := rest\<rparr>" "receive_datagram env bs"] inv that
    by (simp add: run_inv_def keeps_inv_receive_datagram)
  have timer: "run_inv (after_handler (on_timer env (pr_actor st)) st)"
    using run_inv_after_handler [OF inv keeps_inv_on_timer] by simp
  show ?thesis
    using inv smaller deferred ingress timer
    by (auto simp: run_iteration_def run_inv_stop run_inv_frozen_command run_inv_after_command
        run_inv_apply_command split: peer_execution.split list.split)
qed

lemma run_inv_step: "peer_step st st' \<Longrightarrow> run_inv st \<Longrightarrow> run_inv st'"
  by (erule peer_stepE)
    (auto simp: run_inv_iteration, auto simp: run_inv_def control_deliver_def queue_command_def
      app_receive_def inbox_receive_def peer_inv_def inbox_inv_def split: list.splits)

lemma run_inv_reach: "peer_reach start st \<Longrightarrow> run_inv start \<Longrightarrow> run_inv st"
  by (induction rule: peer_reach.induct) (auto intro: run_inv_step)

lemma peer_inv_new:
  "budgets_ok b \<Longrightarrow> peer_inv (peer_new remote_addr mtu b (inbox_new (application_queue b)) now)"
  by (simp add: peer_new_def peer_inv_def unacked_inv_def window_ok_def holdback_inv_def fragment_inv_def
      inbox_inv_def inbox_new_def total_parts_def total_bytes_def seq_ok_def)

text \<open>C7: resource bounds hold in every reachable state. Whatever datagrams the router delivers, whatever
  commands are queued, at whatever times the loop runs, including freezing, resuming, errors and closed
  channels, the peer keeps its invariant and every queue stays inside its budget.\<close>

theorem reachable_within_budgets:
  assumes "budgets_ok b" and "peer_reach (spawn_peer remote_addr mtu b now) st"
  shows "run_inv st"
proof (rule run_inv_reach [OF assms(2)])
  show "run_inv (spawn_peer remote_addr mtu b now)"
    using peer_inv_new [OF assms(1)] by (simp add: run_inv_def spawn_peer_def run_new_def)
qed

theorem reachable_within_budgets_witness:
  "run_inv (run_iteration \<lparr>env_now = 5, env_epoch_millis = 0, env_send_ok = (\<lambda>_. True),
       env_accept_open = True, env_hash_order = (\<lambda>ss. ss)\<rparr>
     (snd (control_deliver 3 [0xc0] (spawn_peer (V4 [127, 0, 0, 1] 19132) 1400 default_budgets 0))))"
  by (rule reachable_within_budgets [where b = default_budgets])
    (simp add: budgets_ok_def default_budgets_def usize_max_def,
      rule peer_reach.step [OF peer_reach.step [OF peer_reach.start peer_step.deliver] peer_step.iterate])

section \<open>Freezing\<close>

text \<open>The part of the actor that belongs to the protocol: everything but the activity instant the
  router also writes and the inbox the application also reads.\<close>

definition protocol_part :: "peer_actor \<Rightarrow> peer_actor" where
  "protocol_part a = a\<lparr>pa_last_observed := 0, pa_inbox := inbox_new 0\<rparr>"

definition frozen :: "peer_run \<Rightarrow> bool" where
  "frozen st \<longleftrightarrow> (\<exists>since. pr_execution st = Frozen since)"

lemma protocol_part_stop [simp]:
  "protocol_part (pr_actor (stop st)) = protocol_part (pr_actor st)" "pr_execution (stop st) = pr_execution st"
  by (simp_all add: stop_def protocol_part_def)

lemma reply_frame [simp]: "pr_actor (reply r st) = pr_actor st" "pr_execution (reply r st) = pr_execution st"
  by (simp_all add: reply_def)

lemma frozen_command_frozen:
  "pr_execution (frozen_command env since c st) = Frozen since' \<Longrightarrow>
   pr_execution st = Frozen since \<Longrightarrow>
   protocol_part (pr_actor (frozen_command env since c st)) = protocol_part (pr_actor st) \<and> since' = since"
  by (cases c) (simp_all add: frozen_command_def split: if_splits)

lemma frozen_iteration:
  assumes "pr_execution st = Frozen since" and "pr_execution (run_iteration env st) = Frozen since'"
  shows "protocol_part (pr_actor (run_iteration env st)) = protocol_part (pr_actor st) \<and> since' = since"
proof (cases "pr_stopped st")
  case True
  with assms show ?thesis by (simp add: run_iteration_def)
next
  case False
  with assms show ?thesis
    using frozen_command_frozen [of env since _ "st\<lparr>pr_commands := _\<rparr>" since']
    by (cases "pr_commands st") (auto simp: run_iteration_def split: if_splits)
qed

lemma frozen_step:
  assumes "peer_step st st'" and "pr_execution st = Frozen since" and "pr_execution st' = Frozen since'"
  shows "protocol_part (pr_actor st') = protocol_part (pr_actor st) \<and> since' = since"
  using assms
proof (cases rule: peer_step.cases)
  case (iterate env)
  with assms show ?thesis using frozen_iteration by simp
qed (auto simp: control_deliver_def queue_command_def app_receive_def protocol_part_def
    split: if_splits prod.splits)

text \<open>Steps that never leave the frozen state.\<close>

inductive frozen_reach :: "peer_run \<Rightarrow> peer_run \<Rightarrow> bool" for start where
  start: "frozen start \<Longrightarrow> frozen_reach start start"
| step: "frozen_reach start st \<Longrightarrow> peer_step st st' \<Longrightarrow> frozen st' \<Longrightarrow> frozen_reach start st'"

lemma frozen_reach_same:
  "frozen_reach start st \<Longrightarrow> frozen st \<and> pr_execution st = pr_execution start \<and>
     protocol_part (pr_actor st) = protocol_part (pr_actor start)"
proof (induction rule: frozen_reach.induct)
  case (step st st')
  then show ?case using frozen_step [of st st'] by (auto simp: frozen_def)
qed auto

text \<open>The time every timer has left at a moment, apart from whether activity was observed after it.\<close>

definition timers_left :: "nat \<Rightarrow> peer_actor \<Rightarrow> (datagram_sequence \<times> nat) list \<times> nat" where
  "timers_left now a =
     (map (\<lambda>(s, d). (s, retransmit_delay (ud_attempts d) - (now - ud_sent_at d))) (pa_unacked a),
      PEER_TIMEOUT - (now - pa_last_observed a))"

lemma rebase_elapsed:
  "frozen_at - t \<le> resumed_at \<Longrightarrow> resumed_at - rebase_instant frozen_at resumed_at t = frozen_at - t"
  by (simp add: rebase_instant_def instant_checked_sub_def Let_def)

lemma snapshot_protocol_part:
  "protocol_part a = protocol_part b \<Longrightarrow>
   (snapshot t a)\<lparr>ps_queued_payloads := [], ps_timeout_remaining := 0\<rparr> =
   (snapshot t b)\<lparr>ps_queued_payloads := [], ps_timeout_remaining := 0\<rparr>"
proof -
  have "(snapshot t a)\<lparr>ps_queued_payloads := [], ps_timeout_remaining := 0\<rparr> =
      (snapshot t (protocol_part a))\<lparr>ps_queued_payloads := [], ps_timeout_remaining := 0\<rparr>" for a
    by (simp add: snapshot_def protocol_part_def)
  then show "protocol_part a = protocol_part b \<Longrightarrow> ?thesis" by metis
qed

text \<open>C19: frozen time is free. After any number of steps in the frozen state, with traffic arriving and
  commands queueing, a sealed checkpoint is that of the state that was frozen, at the instant of freezing
  (what the application took and what the router observed meanwhile apart), and resuming leaves every
  retransmission timer and the idle timeout exactly the time it had left when frozen.\<close>

theorem freeze_is_transparent:
  assumes "frozen_reach start st" and "pr_execution start = Frozen since" and "since \<le> env_now env"
  shows "(\<exists>ps. pr_replies (frozen_command env since SealTransfer st) = pr_replies st @ [SealReply ps] \<and>
      ps\<lparr>ps_queued_payloads := [], ps_timeout_remaining := 0\<rparr> =
      (snapshot since (pr_actor start))\<lparr>ps_queued_payloads := [], ps_timeout_remaining := 0\<rparr>) \<and>
    pr_execution (frozen_command env since Resume st) = Running \<and>
    timers_left (env_now env) (pr_actor (frozen_command env since Resume st)) =
      timers_left since (pr_actor st)"
proof -
  have "since - t \<le> env_now env" for t using assms(3) by simp
  moreover have "protocol_part (pr_actor st) = protocol_part (pr_actor start)"
    using frozen_reach_same [OF assms(1)] by simp
  ultimately show ?thesis
    using snapshot_protocol_part [of "pr_actor st" "pr_actor start" since]
    by (auto simp: frozen_command_def reply_def timers_left_def resume_timers_def activity_resume_def
        rebase_elapsed)
qed

definition late_env :: peer_env where
  "late_env = \<lparr>env_now = 50000000000, env_epoch_millis = 0, env_send_ok = (\<lambda>_. True),
     env_accept_open = True, env_hash_order = (\<lambda>ss. ss)\<rparr>"

theorem freeze_is_transparent_witness:
  "timers_left 50000000000 (pr_actor (frozen_command late_env 20100000000 Resume
       (snd (control_deliver 20050000000 [1] (run_new busy_peer (Frozen 20100000000)))))) =
     ([(seq_new 2, 300000000)], 11950000000)"
proof -
  let ?start = "run_new busy_peer (Frozen 20100000000)"
  let ?st = "snd (control_deliver 20050000000 [1] ?start)"
  have "frozen ?start" "frozen ?st"
    by (auto simp: frozen_def run_new_def control_deliver_def)
  then have "frozen_reach ?start ?st"
    by (intro frozen_reach.step [OF frozen_reach.start peer_step.deliver])
  from freeze_is_transparent [OF this, of 20100000000 late_env] show ?thesis
    by (simp add: run_new_def late_env_def control_deliver_def busy_peer_def peer_new_def
        default_budgets_def timers_left_def activity_observe_def PEER_TIMEOUT_def nanos_per_milli_def
        retransmit_delay_def RETRANSMIT_BASE_DELAY_def RETRANSMIT_MAX_BACKOFF_SHIFT_def
        unat_saturating_sub_word)
qed

section \<open>Responsiveness\<close>

lemma apply_send_frame:
  "pr_execution (snd (apply_command env (Send p) st)) = pr_execution st"
  "pr_commands (snd (apply_command env (Send p) st)) = pr_commands st"
  "pr_ingress (snd (apply_command env (Send p) st)) = pr_ingress st"
  "pr_deferred (snd (apply_command env (Send p) st)) = pr_deferred st"
  by (simp_all add: apply_command_def case_prod_beta reply_def)

lemma run_stopped: "pr_stopped st \<Longrightarrow> pr_stopped (fold run_iteration envs st)"
  by (induction envs arbitrary: st) (auto simp: run_iteration_def)

text \<open>C29: control stays responsive. A freeze request at the head of the command queue takes effect
  after the sends deferred before it, whatever datagrams are waiting: after one pass per deferred send and
  one more the peer has stopped on a failed send or is frozen, with the waiting datagrams untouched.\<close>

theorem freeze_responsive:
  assumes "pr_execution st = Running" and "pr_commands st = Freeze # rest"
    and "length envs = Suc (length (pr_deferred st))"
  shows "pr_stopped (fold run_iteration envs st) \<or>
    (pr_execution (fold run_iteration envs st) = Frozen (env_now (last envs)) \<and>
     pr_ingress (fold run_iteration envs st) = pr_ingress st \<and>
     pr_deferred (fold run_iteration envs st) = [] \<and>
     pr_commands (fold run_iteration envs st) = rest)"
  using assms
proof (induction "pr_deferred st" arbitrary: st envs)
  case Nil
  then obtain env where "envs = [env]" by (auto simp: length_Suc_conv)
  with Nil show ?case
    by (auto simp: run_iteration_def after_command_def apply_command_def reply_def)
next
  case (Cons p ds)
  have "length envs = Suc (Suc (length ds))"
    using Cons.prems(3) by (simp add: Cons.hyps(2) [symmetric])
  then obtain env envs' where envs: "envs = env # envs'" "length envs' = Suc (length ds)"
    by (cases envs) auto
  define st1 where "st1 = run_iteration env st"
  show ?case
  proof (cases "pr_stopped st1")
    case True
    then show ?thesis using envs run_stopped [OF True] by (simp add: st1_def)
  next
    case False
    then have run: "st1 = snd (apply_command env (Send p) (st\<lparr>pr_deferred := ds\<rparr>))"
      using Cons.hyps(2) [symmetric] Cons.prems(1)
      by (auto simp: st1_def run_iteration_def after_command_def stop_def split: if_splits)
    have "ds = pr_deferred st1" "pr_execution st1 = Running" "pr_commands st1 = Freeze # rest"
      "pr_ingress st1 = pr_ingress st"
      using Cons.prems by (simp_all add: run apply_send_frame)
    with Cons.hyps(1) [of st1 envs'] envs show ?thesis
      by (auto simp: st1_def)
  qed
qed

theorem freeze_responsive_witness:
  "pr_execution (fold run_iteration [late_env]
      ((run_new busy_peer Running)\<lparr>pr_commands := [Freeze], pr_ingress := [[1], [2]]\<rparr>)) = Frozen 50000000000"
proof -
  let ?st = "(run_new busy_peer Running)\<lparr>pr_commands := [Freeze], pr_ingress := [[1], [2]]\<rparr>"
  have "\<not> pr_stopped (fold run_iteration [late_env] ?st)"
    by (simp add: run_iteration_def run_new_def after_command_def apply_command_def reply_def)
  with freeze_responsive [of ?st "[]" "[late_env]"] show ?thesis
    by (simp add: run_new_def late_env_def)
qed

section \<open>Timers\<close>

definition due_at :: "nat \<Rightarrow> unacked_datagram \<Rightarrow> bool" where
  "due_at now d \<longleftrightarrow> ud_sent_at d + retransmit_delay (ud_attempts d) \<le> now"

lemma retransmit_delay_pos: "0 < retransmit_delay n"
  by (simp add: retransmit_delay_def Let_def RETRANSMIT_BASE_DELAY_def nanos_per_milli_def)

lemma retransmit_delay_nonzero [simp]: "retransmit_delay n \<noteq> 0"
  using retransmit_delay_pos [of n] by simp

lemma due_at_elapsed: "now - ud_sent_at d \<ge> retransmit_delay (ud_attempts d) \<longleftrightarrow> due_at now d"
  using retransmit_delay_pos [of "ud_attempts d"] by (auto simp: due_at_def)

lemma fold_min_le: "fold (\<lambda>e acc. min (f e) acc) xs (t::nat) \<le> n \<longleftrightarrow> t \<le> n \<or> (\<exists>e \<in> set xs. f e \<le> n)"
  by (induction xs arbitrary: t) (auto simp: min_le_iff_disj)

lemma deadline_iff:
  "next_timer_deadline a \<le> now \<longleftrightarrow>
     pa_last_observed a + PEER_TIMEOUT \<le> now \<or> (\<exists>e \<in> set (pa_unacked a). due_at now (snd e))"
  by (simp add: next_timer_deadline_def Let_def fold_min_le due_at_def)

lemma retransmit_clears:
  assumes "retransmit env s a = (Inr (), a')" and "hm_ok (pa_unacked a)"
  shows "pa_last_observed a' = pa_last_observed a \<and> hm_ok (pa_unacked a') \<and>
    (\<forall>t d. map_of (pa_unacked a') t = Some d \<longrightarrow> due_at (env_now env) d \<longrightarrow>
       t \<noteq> s \<and> map_of (pa_unacked a) t = Some d)"
  using assms
  by (auto simp: retransmit_def sbind_def sget_def sret_def sfail_def smod_def socket_send_def
      update_conv' due_at_def split: option.splits if_splits)

lemma retransmit_all_clears:
  assumes "sfor ss (retransmit env) a = (Inr (), a')" and "hm_ok (pa_unacked a)"
    and "\<And>t d. map_of (pa_unacked a) t = Some d \<Longrightarrow> due_at (env_now env) d \<Longrightarrow> t \<in> set ss"
  shows "pa_last_observed a' = pa_last_observed a \<and> hm_ok (pa_unacked a') \<and>
    (\<forall>t d. map_of (pa_unacked a') t = Some d \<longrightarrow> \<not> due_at (env_now env) d)"
  using assms
proof (induction ss arbitrary: a)
  case Nil
  then show ?case by (auto simp: sret_def)
next
  case (Cons s ss)
  then obtain a1 where a1: "retransmit env s a = (Inr (), a1)" "sfor ss (retransmit env) a1 = (Inr (), a')"
    by (auto simp: sbind_def split: prod.splits sum.splits)
  note clear = retransmit_clears [OF a1(1) Cons.prems(2)]
  have "t \<in> set ss" if "map_of (pa_unacked a1) t = Some d" "due_at (env_now env) d" for t d
    using clear that Cons.prems(3) [of t d] by auto
  with Cons.IH [OF a1(2)] clear show ?case by auto
qed



end
