(* ===== verification/Voxel_Model.thy ===== *)
theory Voxel_Model
  imports Prelude "HOL-Library.Product_Lexorder"
begin

unbundle bit_operations_syntax

text \<open>
  The crate \<open>revy-voxel-semantic\<close>, files \<open>model.rs\<close> and \<open>rules.rs\<close>: blocks, positions, chunk columns,
  item stacks, the player inventory and its slots, and the container descriptions shared by the
  content and the core.

  An \<open>i32\<close> coordinate is an integer; where Rust adds two of them the release build's wrap-around is
  written out (\<open>i32_wrap\<close>). \<open>div_euclid\<close> and \<open>rem_euclid\<close> by 16 are \<open>div\<close> and \<open>mod\<close>. The \<open>f64\<close>
  vectors are not modelled. The \<open>i16\<close> container properties are integers too. A \<open>BTreeMap\<close> is a strictly sorted association list.
\<close>

section \<open>Blocks and positions\<close>

definition i32_wrap :: "int \<Rightarrow> int" where
  "i32_wrap v = (v + 2 ^ 31) mod 2 ^ 32 - 2 ^ 31"

definition i32_ok :: "int \<Rightarrow> bool" where
  "i32_ok v \<longleftrightarrow> - (2 ^ 31) \<le> v \<and> v < 2 ^ 31"

lemma i32_wrap_id [simp]: "i32_ok v \<Longrightarrow> i32_wrap v = v"
  by (simp add: i32_ok_def i32_wrap_def)

type_synonym block_key = string

record block_state =
  bs_key :: block_key
  bs_properties :: "(string, string) btree_map"

definition block_state_new :: "string \<Rightarrow> block_state" where
  "block_state_new key = \<lparr>bs_key = key, bs_properties = []\<rparr>"

datatype block_face = Bottom | Top | North | South | West | East

definition block_face_from_protocol_byte :: "u8 \<Rightarrow> block_face option" where
  "block_face_from_protocol_byte v =
     (if v = 0 then Some Bottom else if v = 1 then Some Top else if v = 2 then Some North
      else if v = 3 then Some South else if v = 4 then Some West else if v = 5 then Some East
      else None)"

fun block_face_offset :: "block_face \<Rightarrow> int \<times> int \<times> int" where
  "block_face_offset Bottom = (0, -1, 0)"
| "block_face_offset Top = (0, 1, 0)"
| "block_face_offset North = (0, 0, -1)"
| "block_face_offset South = (0, 0, 1)"
| "block_face_offset West = (-1, 0, 0)"
| "block_face_offset East = (1, 0, 0)"

record block_pos =
  bp_x :: int
  bp_y :: int
  bp_z :: int

record chunk_pos =
  cp_x :: int
  cp_z :: int

text \<open>\<open>BlockPos\<close> and \<open>ChunkPos\<close> derive \<open>Ord\<close>: the order of their fields.\<close>

instantiation block_pos_ext :: (linorder) linorder
begin

definition less_eq_block_pos_ext :: "'a block_pos_scheme \<Rightarrow> 'a block_pos_scheme \<Rightarrow> bool" where
  "less_eq_block_pos_ext p q \<longleftrightarrow>
     (bp_x p, bp_y p, bp_z p, block_pos.more p) \<le> (bp_x q, bp_y q, bp_z q, block_pos.more q)"

definition less_block_pos_ext :: "'a block_pos_scheme \<Rightarrow> 'a block_pos_scheme \<Rightarrow> bool" where
  "less_block_pos_ext p q \<longleftrightarrow>
     (bp_x p, bp_y p, bp_z p, block_pos.more p) < (bp_x q, bp_y q, bp_z q, block_pos.more q)"

instance
  by standard (auto simp: less_eq_block_pos_ext_def less_block_pos_ext_def)

end

instantiation chunk_pos_ext :: (linorder) linorder
begin

definition less_eq_chunk_pos_ext :: "'a chunk_pos_scheme \<Rightarrow> 'a chunk_pos_scheme \<Rightarrow> bool" where
  "less_eq_chunk_pos_ext p q \<longleftrightarrow> (cp_x p, cp_z p, chunk_pos.more p) \<le> (cp_x q, cp_z q, chunk_pos.more q)"

definition less_chunk_pos_ext :: "'a chunk_pos_scheme \<Rightarrow> 'a chunk_pos_scheme \<Rightarrow> bool" where
  "less_chunk_pos_ext p q \<longleftrightarrow> (cp_x p, cp_z p, chunk_pos.more p) < (cp_x q, cp_z q, chunk_pos.more q)"

instance
  by standard (auto simp: less_eq_chunk_pos_ext_def less_chunk_pos_ext_def)

end

definition CHUNK_WIDTH :: int where "CHUNK_WIDTH = 16"

definition SECTION_HEIGHT :: int where "SECTION_HEIGHT = 16"

definition block_pos_new :: "int \<Rightarrow> int \<Rightarrow> int \<Rightarrow> block_pos" where
  "block_pos_new x y z = \<lparr>bp_x = x, bp_y = y, bp_z = z\<rparr>"

definition block_chunk_pos :: "block_pos \<Rightarrow> chunk_pos" where
  "block_chunk_pos p = \<lparr>cp_x = bp_x p div CHUNK_WIDTH, cp_z = bp_z p div CHUNK_WIDTH\<rparr>"

definition block_pos_offset :: "block_pos \<Rightarrow> block_face \<Rightarrow> block_pos" where
  "block_pos_offset p face =
     (case block_face_offset face of (dx, dy, dz) \<Rightarrow>
        block_pos_new (i32_wrap (bp_x p + dx)) (i32_wrap (bp_y p + dy)) (i32_wrap (bp_z p + dz)))"

text \<open>The chunks in view: \<open>for dz in -r..=r, for dx in -r..=r\<close>, collected in a set.\<close>

definition required_chunks :: "chunk_pos \<Rightarrow> u8 \<Rightarrow> chunk_pos set" where
  "required_chunks center view_distance =
     (let r = uint view_distance in
      set (concat (map (\<lambda>dz. map (\<lambda>dx. \<lparr>cp_x = i32_wrap (cp_x center + dx), cp_z = i32_wrap (cp_z center + dz)\<rparr>)
                                 [-r..r]) [-r..r])))"

section \<open>Sections and chunk columns\<close>

datatype section_block_index = SectionBlockIndex (into_raw: u16)

definition section_index_new :: "u8 \<Rightarrow> u8 \<Rightarrow> u8 \<Rightarrow> section_block_index" where
  "section_index_new x y z =
     SectionBlockIndex (push_bit 8 (ucast y) OR push_bit 4 (ucast z) OR ucast x)"

definition section_index_from_raw :: "u16 \<Rightarrow> section_block_index" where
  "section_index_from_raw raw = SectionBlockIndex (raw AND 0x0fff)"

definition section_index_expand :: "section_block_index \<Rightarrow> u8 \<times> u8 \<times> u8" where
  "section_index_expand i =
     (ucast (into_raw i AND 0x0F),
      ucast (drop_bit 8 (into_raw i) AND 0x0F),
      ucast (drop_bit 4 (into_raw i) AND 0x0F))"

definition flatten_block_index :: "u8 \<Rightarrow> u8 \<Rightarrow> u8 \<Rightarrow> section_block_index" where
  "flatten_block_index x y z = section_index_new x y z"

definition expand_block_index :: "u16 \<Rightarrow> u8 \<times> u8 \<times> u8" where
  "expand_block_index index = section_index_expand (section_index_from_raw index)"

instantiation section_block_index :: linorder
begin

definition less_eq_section_block_index :: "section_block_index \<Rightarrow> section_block_index \<Rightarrow> bool" where
  "less_eq_section_block_index i j \<longleftrightarrow> into_raw i \<le> into_raw j"

definition less_section_block_index :: "section_block_index \<Rightarrow> section_block_index \<Rightarrow> bool" where
  "less_section_block_index i j \<longleftrightarrow> into_raw i < into_raw j"

instance
  by standard (auto simp: less_eq_section_block_index_def less_section_block_index_def
      section_block_index.expand)

end

record chunk_section =
  cs_y :: int
  cs_blocks :: "(section_block_index, block_state) btree_map"

definition section_new :: "int \<Rightarrow> chunk_section" where
  "section_new y = \<lparr>cs_y = y, cs_blocks = []\<rparr>"

definition section_get_block :: "chunk_section \<Rightarrow> u8 \<Rightarrow> u8 \<Rightarrow> u8 \<Rightarrow> block_state option" where
  "section_get_block s x y z = map_of (cs_blocks s) (flatten_block_index x y z)"

definition section_set_block ::
  "u8 \<Rightarrow> u8 \<Rightarrow> u8 \<Rightarrow> block_state option \<Rightarrow> chunk_section \<Rightarrow> chunk_section" where
  "section_set_block x y z st s =
     (let index = flatten_block_index x y z in
      case st of
        Some state \<Rightarrow> s\<lparr>cs_blocks := bt_insert index state (cs_blocks s)\<rparr>
      | None \<Rightarrow> s\<lparr>cs_blocks := bt_remove index (cs_blocks s)\<rparr>)"

definition section_is_empty :: "chunk_section \<Rightarrow> bool" where
  "section_is_empty s = (cs_blocks s = [])"

definition section_local_y :: "int \<Rightarrow> u8" where
  "section_local_y y = word_of_int (y mod SECTION_HEIGHT)"

record chunk_column =
  cc_pos :: chunk_pos
  cc_sections :: "(int, chunk_section) btree_map"
  cc_biomes :: bytes

definition column_new :: "chunk_pos \<Rightarrow> chunk_column" where
  "column_new p = \<lparr>cc_pos = p, cc_sections = [], cc_biomes = replicate 256 1\<rparr>"

definition column_get_block :: "chunk_column \<Rightarrow> u8 \<Rightarrow> int \<Rightarrow> u8 \<Rightarrow> block_state option" where
  "column_get_block c x y z =
     (case map_of (cc_sections c) (y div SECTION_HEIGHT) of
        None \<Rightarrow> None
      | Some s \<Rightarrow> section_get_block s x (section_local_y y) z)"

definition column_set_block ::
  "u8 \<Rightarrow> int \<Rightarrow> u8 \<Rightarrow> block_state option \<Rightarrow> chunk_column \<Rightarrow> chunk_column" where
  "column_set_block x y z st c =
     (let section_y = y div SECTION_HEIGHT; local_y = section_local_y y in
      case st of
        Some state \<Rightarrow>
          (let s = (case map_of (cc_sections c) section_y of None \<Rightarrow> section_new section_y | Some s \<Rightarrow> s);
               s' = section_set_block x local_y z (Some state) s in
           if section_is_empty s' then c\<lparr>cc_sections := bt_remove section_y (cc_sections c)\<rparr>
           else c\<lparr>cc_sections := bt_insert section_y s' (cc_sections c)\<rparr>)
      | None \<Rightarrow>
          (case map_of (cc_sections c) section_y of
             None \<Rightarrow> c
           | Some s \<Rightarrow>
               let s' = section_set_block x local_y z None s in
               if section_is_empty s' then c\<lparr>cc_sections := bt_remove section_y (cc_sections c)\<rparr>
               else c\<lparr>cc_sections := bt_insert section_y s' (cc_sections c)\<rparr>))"

record chunk_delta =
  cd_added :: "chunk_pos list"
  cd_removed :: "chunk_pos list"

section \<open>Items\<close>

type_synonym item_key = string

datatype item_data_value =
    ByteV i8
  | ShortV i16
  | IntV i32
  | LongV i64
  | FloatV u32
  | DoubleV u64
  | ByteArrayV bytes
  | StringV string
  | ListV "item_data_value list"
  | CompoundV "(string \<times> item_data_value) list"
  | IntArrayV "i32 list"
  | LongArrayV "i64 list"

type_synonym item_data_map = "(string, item_data_value) btree_map"

record item_stack =
  is_key :: item_key
  is_count :: u8
  is_damage :: u16
  is_components :: item_data_map
  is_extra :: item_data_map

definition item_stack_new :: "string \<Rightarrow> u8 \<Rightarrow> u16 \<Rightarrow> item_stack" where
  "item_stack_new key count damage =
     \<lparr>is_key = key, is_count = count, is_damage = damage, is_components = [], is_extra = []\<rparr>"

definition item_stack_unsupported :: "u8 \<Rightarrow> u16 \<Rightarrow> item_stack" where
  "item_stack_unsupported count damage = item_stack_new ''minecraft:unsupported'' count damage"

definition is_legacy_compatible :: "item_stack \<Rightarrow> bool" where
  "is_legacy_compatible s \<longleftrightarrow> is_components s = [] \<and> is_extra s = []"

definition has_modern_payload :: "item_stack \<Rightarrow> bool" where
  "has_modern_payload s = (\<not> is_legacy_compatible s)"

section \<open>Inventory slots\<close>

definition PLAYER_INVENTORY_SLOT_COUNT :: nat where "PLAYER_INVENTORY_SLOT_COUNT = 45"
definition AUXILIARY_SLOT_COUNT :: u8 where "AUXILIARY_SLOT_COUNT = 9"
definition MAIN_INVENTORY_SLOT_COUNT :: u8 where "MAIN_INVENTORY_SLOT_COUNT = 27"
definition HOTBAR_START_SLOT :: u8 where "HOTBAR_START_SLOT = 36"
definition HOTBAR_SLOT_COUNT :: u8 where "HOTBAR_SLOT_COUNT = 9"

datatype inventory_slot =
    WindowLocal u16
  | MainInventory u8
  | Hotbar u8
  | Offhand

definition slot_crafting_result :: inventory_slot where
  "slot_crafting_result = WindowLocal 0"

definition slot_crafting_input :: "u8 \<Rightarrow> inventory_slot option" where
  "slot_crafting_input index = (if index < 4 then Some (WindowLocal (ucast (index + 1))) else None)"

definition slot_container :: "u8 \<Rightarrow> inventory_slot" where
  "slot_container index = WindowLocal (ucast index)"

fun legacy_window_index :: "inventory_slot \<Rightarrow> u8 option" where
  "legacy_window_index (WindowLocal index) =
     (if index < ucast AUXILIARY_SLOT_COUNT then Some (ucast index) else None)"
| "legacy_window_index (MainInventory index) =
     (if index < MAIN_INVENTORY_SLOT_COUNT then Some (AUXILIARY_SLOT_COUNT + index) else None)"
| "legacy_window_index (Hotbar index) =
     (if index < HOTBAR_SLOT_COUNT then Some (HOTBAR_START_SLOT + index) else None)"
| "legacy_window_index Offhand = None"

fun is_storage_slot :: "inventory_slot \<Rightarrow> bool" where
  "is_storage_slot (WindowLocal _) = False"
| "is_storage_slot _ = True"

fun container_index :: "inventory_slot \<Rightarrow> u8 option" where
  "container_index (WindowLocal index) = (if index \<le> 255 then Some (ucast index) else None)"
| "container_index _ = None"

definition is_crafting_result :: "inventory_slot \<Rightarrow> bool" where
  "is_crafting_result slot = (slot = WindowLocal 0)"

fun crafting_input_index :: "inventory_slot \<Rightarrow> u8 option" where
  "crafting_input_index (WindowLocal index) =
     (if index \<ge> 1 \<and> index \<le> 4 then Some (ucast index - 1) else None)"
| "crafting_input_index _ = None"

fun is_reserved_auxiliary :: "inventory_slot \<Rightarrow> bool" where
  "is_reserved_auxiliary (WindowLocal index) = (5 \<le> index \<and> index \<le> 8)"
| "is_reserved_auxiliary _ = False"

section \<open>The player inventory\<close>

record player_inventory =
  pi_slots :: "item_stack option list"
  pi_offhand :: "item_stack option"

definition inventory_new_empty :: player_inventory where
  "inventory_new_empty = \<lparr>pi_slots = replicate PLAYER_INVENTORY_SLOT_COUNT None, pi_offhand = None\<rparr>"

definition inventory_get :: "player_inventory \<Rightarrow> u8 \<Rightarrow> item_stack option" where
  "inventory_get pinv slot =
     (if unat slot < length (pi_slots pinv) then pi_slots pinv ! unat slot else None)"

text \<open>\<open>set\<close> compares the slot with the constant slot count and then indexes the vector; on an
  inventory of 45 slots the index is in range.\<close>

definition inventory_set :: "u8 \<Rightarrow> item_stack option \<Rightarrow> player_inventory \<Rightarrow> bool \<times> player_inventory" where
  "inventory_set slot stack pinv =
     (if unat slot \<ge> PLAYER_INVENTORY_SLOT_COUNT then (False, pinv)
      else (True, pinv\<lparr>pi_slots := (pi_slots pinv)[unat slot := stack]\<rparr>))"

definition selected_hotbar_stack :: "player_inventory \<Rightarrow> u8 \<Rightarrow> item_stack option" where
  "selected_hotbar_stack pinv selected =
     (if selected \<ge> HOTBAR_SLOT_COUNT then None else inventory_get pinv (HOTBAR_START_SLOT + selected))"

definition inventory_get_slot :: "player_inventory \<Rightarrow> inventory_slot \<Rightarrow> item_stack option" where
  "inventory_get_slot pinv slot =
     (case slot of
        Offhand \<Rightarrow> pi_offhand pinv
      | _ \<Rightarrow> (case legacy_window_index slot of None \<Rightarrow> None | Some i \<Rightarrow> inventory_get pinv i))"

definition inventory_set_slot ::
  "inventory_slot \<Rightarrow> item_stack option \<Rightarrow> player_inventory \<Rightarrow> bool \<times> player_inventory" where
  "inventory_set_slot slot stack pinv =
     (case slot of
        Offhand \<Rightarrow> (True, pinv\<lparr>pi_offhand := stack\<rparr>)
      | _ \<Rightarrow> (case legacy_window_index slot of None \<Rightarrow> (False, pinv) | Some i \<Rightarrow> inventory_set i stack pinv))"

datatype interaction_hand = MainHand | OffhandHand

definition selected_stack :: "player_inventory \<Rightarrow> u8 \<Rightarrow> interaction_hand \<Rightarrow> item_stack option" where
  "selected_stack pinv selected hand =
     (case hand of MainHand \<Rightarrow> selected_hotbar_stack pinv selected | OffhandHand \<Rightarrow> pi_offhand pinv)"

definition inventory_crafting_result :: "player_inventory \<Rightarrow> item_stack option" where
  "inventory_crafting_result pinv = inventory_get_slot pinv slot_crafting_result"

definition set_crafting_result :: "item_stack option \<Rightarrow> player_inventory \<Rightarrow> bool \<times> player_inventory" where
  "set_crafting_result stack pinv = inventory_set_slot slot_crafting_result stack pinv"

definition crafting_input :: "player_inventory \<Rightarrow> u8 \<Rightarrow> item_stack option" where
  "crafting_input pinv index =
     (case slot_crafting_input index of None \<Rightarrow> None | Some slot \<Rightarrow> inventory_get_slot pinv slot)"

definition set_crafting_input :: "u8 \<Rightarrow> item_stack option \<Rightarrow> player_inventory \<Rightarrow> bool \<times> player_inventory" where
  "set_crafting_input index stack pinv =
     (case slot_crafting_input index of None \<Rightarrow> (False, pinv) | Some slot \<Rightarrow> inventory_set_slot slot stack pinv)"

record inventory_window_contents =
  wc_player_inventory :: player_inventory
  wc_local_slots :: "item_stack option list"

definition window_contents_player :: "player_inventory \<Rightarrow> inventory_window_contents" where
  "window_contents_player pinv = \<lparr>wc_player_inventory = pinv,
     wc_local_slots = map (\<lambda>i. inventory_get_slot pinv (WindowLocal (word_of_nat i)))
                        [0..<unat AUXILIARY_SLOT_COUNT]\<rparr>"

definition window_contents_with_local_slots ::
  "player_inventory \<Rightarrow> item_stack option list \<Rightarrow> inventory_window_contents" where
  "window_contents_with_local_slots pinv slots = \<lparr>wc_player_inventory = pinv, wc_local_slots = slots\<rparr>"

definition window_contents_get_slot :: "inventory_window_contents \<Rightarrow> inventory_slot \<Rightarrow> item_stack option" where
  "window_contents_get_slot wc slot =
     (case slot of
        WindowLocal index \<Rightarrow>
          (if unat index < length (wc_local_slots wc) then wc_local_slots wc ! unat index else None)
      | _ \<Rightarrow> inventory_get_slot (wc_player_inventory wc) slot)"

datatype inventory_click_button = LeftButton | RightButton

datatype inventory_click_target = SlotTarget inventory_slot | Outside | Unsupported

datatype inventory_click_validation = StrictSlotEcho "item_stack option" | Authoritative

record inventory_transaction_context =
  tc_window_id :: u8
  tc_action_number :: i16

section \<open>Containers\<close>

type_synonym block_entity_kind_id = string
type_synonym container_kind_id = string
type_synonym container_property_key = string

datatype tool_class = Pickaxe | Shovel | Axe

record mining_tool_spec =
  mt_class :: tool_class
  mt_tier :: u8

datatype container_slot_role = Generic | OutputOnly | Unavailable

record container_spec =
  sp_local_slot_count :: u16
  sp_slot_roles :: "(u16, container_slot_role) btree_map"

definition container_slot_role_of :: "container_spec \<Rightarrow> u16 \<Rightarrow> container_slot_role" where
  "container_slot_role_of spec index =
     (case map_of (sp_slot_roles spec) index of None \<Rightarrow> Generic | Some role \<Rightarrow> role)"

datatype container_binding =
    Virtual
  | BlockBinding block_pos block_entity_kind_id

record open_container_state =
  oc_kind :: container_kind_id
  oc_binding :: container_binding
  oc_local_slots :: "item_stack option list"
  oc_properties :: "(container_property_key, int) btree_map"

record container_block_entity_state =
  be_kind :: block_entity_kind_id
  be_slots :: "item_stack option list"
  be_properties :: "(container_property_key, int) btree_map"

definition world_position :: "open_container_state \<Rightarrow> block_pos option" where
  "world_position st = (case oc_binding st of Virtual \<Rightarrow> None | BlockBinding p _ \<Rightarrow> Some p)"

definition container_block_entity_kind :: "open_container_state \<Rightarrow> block_entity_kind_id option" where
  "container_block_entity_kind st = (case oc_binding st of Virtual \<Rightarrow> None | BlockBinding _ k \<Rightarrow> Some k)"

definition container_block_entity_state_of :: "open_container_state \<Rightarrow> container_block_entity_state option" where
  "container_block_entity_state_of st =
     (case container_block_entity_kind st of
        None \<Rightarrow> None
      | Some k \<Rightarrow> Some \<lparr>be_kind = k, be_slots = oc_local_slots st, be_properties = oc_properties st\<rparr>)"

definition property_entries :: "open_container_state \<Rightarrow> (container_property_key \<times> int) list" where
  "property_entries st = oc_properties st"

datatype block_entity_state = ContainerEntity (container_state: container_block_entity_state)

definition has_inventory_contents :: "block_entity_state \<Rightarrow> bool" where
  "has_inventory_contents e = list_ex (\<lambda>slot. slot \<noteq> None) (be_slots (container_state e))"

section \<open>Addressing inside a section\<close>

lemma nibble_bits: "x < 16 \<Longrightarrow> bit (x :: u8) i \<Longrightarrow> i < 4"
proof -
  assume "x < 16"
  then have "take_bit 4 x = x"
    by (simp add: word_unat_eq_iff unat_take_bit word_less_nat_alt)
  then show "bit x i \<Longrightarrow> i < 4"
    by (metis bit_take_bit_iff)
qed

lemma mask_0F: "(0x0F :: u16) = mask 4"
  by (simp add: mask_eq_exp_minus_1)

lemma bit_section_index:
  "bit (into_raw (section_index_new x y z)) i \<longleftrightarrow>
     (8 \<le> i \<and> i < 16 \<and> bit y (i - 8)) \<or> (4 \<le> i \<and> i < 16 \<and> bit z (i - 4)) \<or> bit x i"
  by (auto simp: section_index_new_def bit_or_iff bit_push_bit_iff bit_ucast_iff dest: bit_imp_le_length)

lemma expand_section_index:
  assumes "x < 16" "y < 16" "z < 16"
  shows "section_index_expand (section_index_new x y z) = (x, y, z)"
proof -
  note nib = nibble_bits [OF assms(1)] nibble_bits [OF assms(2)] nibble_bits [OF assms(3)]
  have "ucast (into_raw (section_index_new x y z) AND 0x0F) = x"
    by (rule bit_word_eqI)
      (auto simp: mask_0F bit_ucast_iff bit_and_iff bit_mask_iff bit_section_index dest: nib)
  moreover have "ucast (drop_bit 8 (into_raw (section_index_new x y z)) AND 0x0F) = y"
    by (rule bit_word_eqI)
      (auto simp: mask_0F bit_ucast_iff bit_and_iff bit_mask_iff bit_drop_bit_eq bit_section_index dest: nib)
  moreover have "ucast (drop_bit 4 (into_raw (section_index_new x y z)) AND 0x0F) = z"
    by (rule bit_word_eqI)
      (auto simp: mask_0F bit_ucast_iff bit_and_iff bit_mask_iff bit_drop_bit_eq bit_section_index dest: nib)
  ultimately show ?thesis by (simp add: section_index_expand_def)
qed

lemma section_index_inj:
  assumes "x < 16" "y < 16" "z < 16" "x' < 16" "y' < 16" "z' < 16"
    and "section_index_new x y z = section_index_new x' y' z'"
  shows "x = x' \<and> y = y' \<and> z = z'"
proof -
  have "(x, y, z) = (x', y', z')"
    unfolding expand_section_index [OF assms(1-3), symmetric] expand_section_index [OF assms(4-6), symmetric]
    by (rule arg_cong [OF assms(7)])
  then show ?thesis by simp
qed

lemma uint_section_local_y: "uint (section_local_y y) = y mod 16"
proof -
  have "(y mod 16) mod 256 = y mod 16" by (rule mod_pos_pos_trivial) auto
  then show ?thesis
    unfolding section_local_y_def SECTION_HEIGHT_def unsigned_of_int take_bit_eq_mod by simp
qed

lemma section_local_y_less: "section_local_y y < 16"
  unfolding word_less_def uint_section_local_y by simp

lemma section_local_y_inj: "section_local_y y = section_local_y y' \<Longrightarrow> y mod 16 = y' mod 16"
  by (metis uint_section_local_y)

text \<open>The packed index of a block in its section unpacks to the coordinates it was packed from, on the
  whole 16 by 16 by 16 section, so no two blocks share an index.\<close>

lemma section_index_roundtrip:
  assumes "x < 16" and "y < 16" and "z < 16"
  shows "expand_block_index (into_raw (flatten_block_index x y z)) = (x, y, z)"
proof -
  have "(0x0fff :: u16) = mask 12" by (simp add: mask_eq_exp_minus_1)
  then have "into_raw (section_index_new x y z) AND 0x0fff = take_bit 12 (into_raw (section_index_new x y z))"
    by (simp only: take_bit_eq_mask)
  also have "\<dots> = into_raw (section_index_new x y z)"
    by (rule bit_word_eqI)
      (auto simp: bit_take_bit_iff bit_section_index
        dest: nibble_bits [OF assms(1)] nibble_bits [OF assms(2)] nibble_bits [OF assms(3)])
  finally have "into_raw (section_index_new x y z) AND 0x0fff = into_raw (section_index_new x y z)" .
  then show ?thesis
    using expand_section_index [OF assms]
    by (simp add: expand_block_index_def flatten_block_index_def section_index_from_raw_def)
qed

lemma and_0x0F: "w AND 0x0F = take_bit 4 w" for w :: "'a::len word"
  by (simp add: take_bit_eq_mask mask_eq_exp_minus_1)

lemma flatten_expand:
  "(case expand_block_index raw of (x, y, z) \<Rightarrow> flatten_block_index x y z) = section_index_from_raw raw"
proof -
  have mask: "(0x0fff :: u16) = mask 12" by (simp add: mask_eq_exp_minus_1)
  have "into_raw (section_index_new (ucast (w AND 0x0F)) (ucast (drop_bit 8 w AND 0x0F)) (ucast (drop_bit 4 w AND 0x0F))) = w"
    if "w = raw AND 0x0fff" for w :: u16
    unfolding that section_index_new_def section_block_index.sel mask and_0x0F
  proof (rule bit_word_eqI)
    fix n assume "n < LENGTH(16)"
    then show "bit (push_bit 8 (ucast (ucast (take_bit 4 (drop_bit 8 (raw AND mask 12))) :: u8)) OR
        push_bit 4 (ucast (ucast (take_bit 4 (drop_bit 4 (raw AND mask 12))) :: u8)) OR
        ucast (ucast (take_bit 4 (raw AND mask 12)) :: u8) :: u16) n = bit (raw AND mask 12) n"
      by (cases "n < 4"; cases "n < 8")
        (auto simp: bit_or_iff bit_push_bit_iff bit_ucast_iff bit_take_bit_iff bit_drop_bit_eq bit_and_iff bit_mask_iff)
  qed
  then show ?thesis
    by (auto simp: expand_block_index_def section_index_expand_def section_index_from_raw_def flatten_block_index_def
        section_block_index.expand)
qed

lemma from_raw_into_raw: "into_raw index < 0x1000 \<Longrightarrow> section_index_from_raw (into_raw index) = index"
proof -
  assume "into_raw index < 0x1000"
  then have "unat (into_raw index) < 2 ^ 12" by (simp add: word_less_nat_alt)
  then have "into_raw index AND mask 12 = into_raw index"
    by (simp add: word_unat_eq_iff unat_and_mask)
  then show ?thesis
    by (simp add: section_index_from_raw_def section_block_index.expand mask_eq_exp_minus_1)
qed

lemma into_raw_from_raw: "into_raw (section_index_from_raw raw) < 0x1000"
proof -
  have "unat (raw AND mask 12) < 2 ^ 12" unfolding unat_and_mask by (rule mod_less_divisor) simp
  then show ?thesis by (simp add: section_index_from_raw_def word_less_nat_alt mask_eq_exp_minus_1)
qed

section \<open>Chunk columns are block maps\<close>

definition section_ok :: "int \<times> chunk_section \<Rightarrow> bool" where
  "section_ok e \<longleftrightarrow> cs_y (snd e) = fst e \<and> bt_ok (cs_blocks (snd e)) \<and> cs_blocks (snd e) \<noteq> []"

text \<open>The sections of a column are sorted by height, labelled with it, and never empty.\<close>

definition column_ok :: "chunk_column \<Rightarrow> bool" where
  "column_ok c \<longleftrightarrow> bt_ok (cc_sections c) \<and> (\<forall>e \<in> set (cc_sections c). section_ok e)"

lemma set_bt_insert: "set (bt_insert k v m) \<subseteq> insert (k, v) (set m)"
  by (induction k v m rule: bt_insert.induct) auto

lemma set_bt_remove: "set (bt_remove k m) \<subseteq> set m"
  by (auto simp: bt_remove_def)

lemma bt_insert_not_Nil [simp]: "bt_insert k v m \<noteq> []"
  by (cases m) (auto split: if_splits)

lemma column_ok_lookup: "column_ok c \<Longrightarrow> map_of (cc_sections c) sy = Some s \<Longrightarrow> section_ok (sy, s)"
  by (auto simp: column_ok_def dest: map_of_SomeD)

lemma column_ok_insert:
  "column_ok c \<Longrightarrow> section_ok (sy, s) \<Longrightarrow> column_ok (c\<lparr>cc_sections := bt_insert sy s (cc_sections c)\<rparr>)"
  using set_bt_insert [of sy s "cc_sections c"] by (auto simp: column_ok_def)

lemma column_ok_remove: "column_ok c \<Longrightarrow> column_ok (c\<lparr>cc_sections := bt_remove sy (cc_sections c)\<rparr>)"
  using set_bt_remove [of sy "cc_sections c"] by (auto simp: column_ok_def)

lemma section_ok_set:
  "cs_y s = sy \<Longrightarrow> bt_ok (cs_blocks s) \<Longrightarrow>
   \<not> section_is_empty (section_set_block x y z st s) \<Longrightarrow> section_ok (sy, section_set_block x y z st s)"
  by (auto simp: section_ok_def section_set_block_def section_is_empty_def Let_def split: option.splits)

lemma column_ok_set_block: "column_ok c \<Longrightarrow> column_ok (column_set_block x y z st c)"
  using column_ok_lookup [of c "y div SECTION_HEIGHT"]
  by (auto simp: column_set_block_def Let_def section_new_def intro!: column_ok_insert column_ok_remove
      section_ok_set split: option.split) (auto simp: section_ok_def)

lemma section_get_set:
  assumes "bt_ok (cs_blocks s)" and "x < 16" "y < 16" "z < 16" "x' < 16" "y' < 16" "z' < 16"
  shows "section_get_block (section_set_block x y z st s) x' y' z' =
    (if (x', y', z') = (x, y, z) then st else section_get_block s x' y' z')"
  using assms section_index_inj [OF assms(2-7)]
  by (auto simp: section_get_block_def section_set_block_def flatten_block_index_def Let_def
      split: option.splits)

lemma column_get_set:
  assumes ok: "column_ok c" and b: "x < 16" "z < 16" "x' < 16" "z' < 16"
  shows "column_get_block (column_set_block x y z st c) x' y' z' =
    (if (x', y', z') = (x, y, z) then st else column_get_block c x' y' z')"
proof -
  let ?sy = "y div SECTION_HEIGHT" and ?sy' = "y' div SECTION_HEIGHT"
  let ?s = "case map_of (cc_sections c) ?sy of None \<Rightarrow> section_new ?sy | Some s \<Rightarrow> s"
  let ?s' = "section_set_block x (section_local_y y) z st ?s"
  have bt: "bt_ok (cc_sections c)" using ok by (simp add: column_ok_def)
  have sb: "bt_ok (cs_blocks ?s)"
    using column_ok_lookup [OF ok, of ?sy] by (auto simp: section_new_def section_ok_def split: option.split)
  have at: "section_get_block ?s' x' (section_local_y y') z' =
      (if (x', section_local_y y', z') = (x, section_local_y y, z) then st
       else section_get_block ?s x' (section_local_y y') z')"
    using section_get_set [OF sb b(1) section_local_y_less b(2,3) section_local_y_less b(4)] by simp
  have empty: "section_get_block ?s' x' (section_local_y y') z' = None" if "section_is_empty ?s'"
    using that by (simp add: section_is_empty_def section_get_block_def)
  have fresh: "section_get_block (section_new ?sy) a v d = None" for a v d
    by (simp add: section_new_def section_get_block_def)
  have sections: "map_of (cc_sections (column_set_block x y z st c)) ?sy' =
      (if ?sy' = ?sy then
         (if section_is_empty ?s' \<or> (st = None \<and> map_of (cc_sections c) ?sy = None) then None else Some ?s')
       else map_of (cc_sections c) ?sy')"
    using bt by (auto simp: column_set_block_def Let_def split: option.split)
  have same: "y' = y" if "?sy' = ?sy" "section_local_y y' = section_local_y y"
    using that section_local_y_inj [of y' y] div_mult_mod_eq [of y 16] div_mult_mod_eq [of y' 16]
    by (simp add: SECTION_HEIGHT_def)
  show ?thesis
    using at empty fresh sections same
    by (auto simp: column_get_block_def split: option.splits if_splits)
qed

section \<open>Player inventory slots\<close>

definition inventory_ok :: "player_inventory \<Rightarrow> bool" where
  "inventory_ok pinv \<longleftrightarrow> length (pi_slots pinv) = PLAYER_INVENTORY_SLOT_COUNT"

lemmas slot_counts = PLAYER_INVENTORY_SLOT_COUNT_def AUXILIARY_SLOT_COUNT_def MAIN_INVENTORY_SLOT_COUNT_def
  HOTBAR_START_SLOT_def HOTBAR_SLOT_COUNT_def

lemma unat_add_small: "unat a + unat b < 256 \<Longrightarrow> unat (a + b) = unat a + unat (b :: u8)"
  by (simp add: unat_word_ariths)

lemma unat_legacy_window_index:
  assumes "legacy_window_index slot = Some i"
  shows "case slot of WindowLocal k \<Rightarrow> unat i = unat k \<and> unat k < 9
    | MainInventory k \<Rightarrow> unat i = 9 + unat k \<and> unat k < 27
    | Hotbar k \<Rightarrow> unat i = 36 + unat k \<and> unat k < 9
    | Offhand \<Rightarrow> False"
proof (cases slot)
  case (WindowLocal k)
  then show ?thesis
    using assms by (auto simp: slot_counts word_less_nat_alt unsigned_ucast_eq take_bit_nat_eq_self split: if_splits)
next
  case (MainInventory k)
  then show ?thesis
    using assms by (auto simp: slot_counts word_less_nat_alt unat_word_ariths split: if_splits)
next
  case (Hotbar k)
  then show ?thesis
    using assms by (auto simp: slot_counts word_less_nat_alt unat_word_ariths split: if_splits)
qed (use assms in simp)

lemma legacy_window_index_less: "legacy_window_index slot = Some i \<Longrightarrow> unat i < PLAYER_INVENTORY_SLOT_COUNT"
  using unat_legacy_window_index [of slot i]
  by (cases slot) (auto simp: PLAYER_INVENTORY_SLOT_COUNT_def)

lemma legacy_window_index_inj:
  "legacy_window_index slot = Some i \<Longrightarrow> legacy_window_index slot' = Some i \<Longrightarrow> slot = slot'"
  using unat_legacy_window_index [of slot i] unat_legacy_window_index [of slot' i]
  by (cases slot; cases slot') (auto simp: word_unat_eq_iff)

definition slot_valid :: "inventory_slot \<Rightarrow> bool" where
  "slot_valid slot \<longleftrightarrow> slot = Offhand \<or> legacy_window_index slot \<noteq> None"

lemma inventory_set_slot_valid:
  "fst (inventory_set_slot slot stack pinv) = slot_valid slot"
  using legacy_window_index_less [of slot]
  by (cases slot)
    (auto simp: inventory_set_slot_def inventory_set_def slot_valid_def not_le split: option.splits)

lemma inventory_get_set_slot:
  assumes "inventory_ok pinv" and "slot_valid slot"
  shows "inventory_get_slot (snd (inventory_set_slot slot stack pinv)) slot' =
    (if slot' = slot then stack else inventory_get_slot pinv slot')"
proof (cases "slot = Offhand")
  case True
  then show ?thesis
    by (cases slot') (auto simp: inventory_set_slot_def inventory_get_slot_def inventory_get_def split: option.split)
next
  case False
  with assms(2) obtain i where i: "legacy_window_index slot = Some i" by (auto simp: slot_valid_def)
  have len: "unat i < length (pi_slots pinv)"
    using legacy_window_index_less [OF i] assms(1) by (simp add: inventory_ok_def)
  have set: "inventory_set_slot slot stack pinv = (True, pinv\<lparr>pi_slots := (pi_slots pinv)[unat i := stack]\<rparr>)"
    using False i legacy_window_index_less [OF i]
    by (cases slot) (auto simp: inventory_set_slot_def inventory_set_def)
  have other: "j \<noteq> i" if "legacy_window_index slot' = Some j" "slot' \<noteq> slot" for j
    using that i legacy_window_index_inj by blast
  have get: "inventory_get_slot p slot' =
      (case legacy_window_index slot' of None \<Rightarrow> None | Some j \<Rightarrow> inventory_get p j)" if "slot' \<noteq> Offhand" for p
    using that by (cases slot') (simp_all add: inventory_get_slot_def)
  have neq: "unat j \<noteq> unat i" if "legacy_window_index slot' = Some j" "slot' \<noteq> slot" for j
    using other [OF that] by (simp add: word_unat_eq_iff)
  show ?thesis
  proof (cases "slot' = Offhand")
    case True
    with False show ?thesis by (simp add: set inventory_get_slot_def)
  next
    case off: False
    show ?thesis
      using len neq i
      by (auto simp: get [OF off] set inventory_get_def split: option.split)
  qed
qed

lemma inventory_ok_set_slot: "inventory_ok pinv \<Longrightarrow> inventory_ok (snd (inventory_set_slot slot stack pinv))"
  by (auto simp: inventory_ok_def inventory_set_slot_def inventory_set_def split: inventory_slot.split option.split)

text \<open>Inventory slots are independent. Writing a slot of a player inventory succeeds exactly on the 46
  slots that exist, is read back at that slot, changes no other slot under any of its names, and keeps
  the inventory at its 45 indexed slots.\<close>

lemma inventory_slots_independent:
  assumes "inventory_ok pinv"
  shows "fst (inventory_set_slot slot stack pinv) = slot_valid slot \<and>
    inventory_ok (snd (inventory_set_slot slot stack pinv)) \<and>
    inventory_get_slot (snd (inventory_set_slot slot stack pinv)) slot' =
      (if slot' = slot \<and> slot_valid slot then stack else inventory_get_slot pinv slot')"
proof (cases "slot_valid slot")
  case True
  then show ?thesis
    using inventory_set_slot_valid inventory_ok_set_slot [OF assms] inventory_get_set_slot [OF assms] by simp
next
  case False
  then have "snd (inventory_set_slot slot stack pinv) = pinv"
    by (cases slot) (auto simp: slot_valid_def inventory_set_slot_def split: option.splits)
  then show ?thesis using False inventory_set_slot_valid assms by simp
qed

section \<open>Chunks in view\<close>

lemma i32_wrap_ok: "i32_ok (i32_wrap v)"
proof -
  have "0 \<le> (v + 2 ^ 31) mod (2 ^ 32)" "(v + 2 ^ 31) mod (2 ^ 32) < (2::int) ^ 32" by simp_all
  then show ?thesis by (simp add: i32_ok_def i32_wrap_def)
qed

definition chunk_in_range :: "chunk_pos \<Rightarrow> int \<Rightarrow> bool" where
  "chunk_in_range c r \<longleftrightarrow> i32_ok (cp_x c - r) \<and> i32_ok (cp_x c + r) \<and> i32_ok (cp_z c - r) \<and> i32_ok (cp_z c + r)"

text \<open>The chunks in view are exactly those within the view distance in both directions, the centre
  and \<open>(2 v + 1) ^ 2\<close> chunks in all, whenever the square does not cross the 32-bit coordinate range.\<close>

lemma required_chunks_square:
  assumes "chunk_in_range center (uint v)"
  shows "required_chunks center v =
      {c. \<bar>cp_x c - cp_x center\<bar> \<le> uint v \<and> \<bar>cp_z c - cp_z center\<bar> \<le> uint v \<and> chunk_pos.more c = ()} \<and>
    card (required_chunks center v) = (2 * unat v + 1) ^ 2"
proof -
  let ?r = "uint v"
  have ok: "i32_wrap (cp_x center + d) = cp_x center + d" "i32_wrap (cp_z center + d) = cp_z center + d"
    if "- ?r \<le> d" "d \<le> ?r" for d
    using that assms by (auto simp: chunk_in_range_def i32_ok_def intro!: i32_wrap_id)
  let ?f = "\<lambda>(dx, dz). \<lparr>cp_x = cp_x center + dx, cp_z = cp_z center + dz\<rparr>"
  have "required_chunks center v = (\<Union>dz \<in> {- ?r .. ?r}. (\<lambda>dx. \<lparr>cp_x = i32_wrap (cp_x center + dx),
      cp_z = i32_wrap (cp_z center + dz)\<rparr>) ` {- ?r .. ?r})"
    by (simp add: required_chunks_def Let_def)
  also have "\<dots> = (\<Union>dz \<in> {- ?r .. ?r}. (\<lambda>dx. \<lparr>cp_x = cp_x center + dx, cp_z = cp_z center + dz\<rparr>) ` {- ?r .. ?r})"
    by (intro SUP_cong refl image_cong) (simp add: ok)
  also have "\<dots> = ?f ` ({- ?r .. ?r} \<times> {- ?r .. ?r})" by auto
  finally have img: "required_chunks center v = ?f ` ({- ?r .. ?r} \<times> {- ?r .. ?r})" .
  have "inj_on ?f ({- ?r .. ?r} \<times> {- ?r .. ?r})" by (auto simp: inj_on_def)
  then have "card (required_chunks center v) = card ({- ?r .. ?r} \<times> {- ?r .. ?r})"
    unfolding img by (rule card_image)
  also have "\<dots> = (2 * unat v + 1) ^ 2"
  proof -
    have "card {- ?r .. ?r} = nat (2 * ?r + 1)" by simp
    also have "\<dots> = 2 * unat v + 1" by (simp add: nat_add_distrib nat_mult_distrib)
    finally show ?thesis by (simp only: card_cartesian_product power2_eq_square)
  qed
  finally have card: "card (required_chunks center v) = (2 * unat v + 1) ^ 2" .
  have "required_chunks center v =
      {c. \<bar>cp_x c - cp_x center\<bar> \<le> ?r \<and> \<bar>cp_z c - cp_z center\<bar> \<le> ?r \<and> chunk_pos.more c = ()}"
  proof (rule set_eqI)
    fix c :: chunk_pos
    obtain x z where c: "c = \<lparr>cp_x = x, cp_z = z\<rparr>" by (cases c) auto
    have "c \<in> required_chunks center v \<longleftrightarrow> (x - cp_x center, z - cp_z center) \<in> {- ?r .. ?r} \<times> {- ?r .. ?r}"
      unfolding img c by (auto intro!: image_eqI [of _ _ "(x - cp_x center, z - cp_z center)"])
    then show "c \<in> required_chunks center v \<longleftrightarrow>
        c \<in> {c. \<bar>cp_x c - cp_x center\<bar> \<le> ?r \<and> \<bar>cp_z c - cp_z center\<bar> \<le> ?r \<and> chunk_pos.more c = ()}"
      by (auto simp: c)
  qed
  with card show ?thesis by simp
qed

end
