(* ===== verification/Float64.thy ===== *)
theory Float64
  imports Prelude
begin

unbundle bit_operations_syntax

text \<open>
  The \<open>f64\<close> and \<open>f32\<close> values of the source, as IEEE 754 bit patterns (\<open>f64::to_bits\<close>), and the operations the
  core uses of them: addition, subtraction and multiplication rounded to nearest even, the
  comparisons, \<open>floor\<close>, the conversions from and to \<open>i32\<close>. A finite number is \<open>m * 2 ^ e\<close>; every
  operation is computed exactly on integers and rounded once. NaN payloads are not kept: a
  result that is not a number is the canonical pattern. The equality of the derived
  \<open>PartialEq\<close> instances is \<open>f64_eq\<close> and \<open>f32_eq\<close>: NaN differs from itself and the two zeros agree.
\<close>

type_synonym f64 = u64
type_synonym f32 = u32

datatype fval = FNan | FInf bool | FFin bool int int

definition f64_neg_bit :: "f64 \<Rightarrow> bool" where "f64_neg_bit x = bit x 63"
definition f64_exponent :: "f64 \<Rightarrow> int" where "f64_exponent x = uint (drop_bit 52 x AND 0x7FF)"
definition f64_fraction :: "f64 \<Rightarrow> int" where "f64_fraction x = uint (x AND 0xFFFFFFFFFFFFF)"

definition f64_decode :: "f64 \<Rightarrow> fval" where
  "f64_decode x =
     (let s = f64_neg_bit x; e = f64_exponent x; f = f64_fraction x in
      if e = 2047 then (if f = 0 then FInf s else FNan)
      else if e = 0 then FFin s f (- 1074)
      else FFin s (f + 2 ^ 52) (e - 1075))"

definition f64_bits :: "bool \<Rightarrow> int \<Rightarrow> int \<Rightarrow> f64" where
  "f64_bits s e f = word_of_int ((if s then 2 ^ 63 else 0) + e * 2 ^ 52 + f)"

function bit_length :: "int \<Rightarrow> int" where
  "bit_length n = (if n \<le> 0 then 0 else bit_length (n div 2) + 1)"
  by auto
termination by (relation "measure nat") auto

declare bit_length.simps [simp del]

definition round_shift :: "int \<Rightarrow> nat \<Rightarrow> int" where
  "round_shift m s =
     (let d = m div 2 ^ s; r = 2 * (m mod 2 ^ s) in
      if r > 2 ^ s \<or> (r = 2 ^ s \<and> odd d) then d + 1 else d)"

definition f64_round :: "bool \<Rightarrow> int \<Rightarrow> int \<Rightarrow> f64" where
  "f64_round s m e =
     (if m = 0 then f64_bits s 0 0
      else
        let q = max (e + bit_length m - 53) (- 1074);
            n = (if q \<le> e then m * 2 ^ nat (e - q) else round_shift m (nat (q - e)));
            (n, q) = (if n = 2 ^ 53 then (2 ^ 52, q + 1) else (n, q)) in
        if n < 2 ^ 52 then f64_bits s 0 n
        else if q + 1075 \<ge> 2047 then f64_bits s 2047 0
        else f64_bits s (q + 1075) (n - 2 ^ 52))"

definition f64_encode :: "fval \<Rightarrow> f64" where
  "f64_encode v =
     (case v of FNan \<Rightarrow> f64_bits False 2047 (2 ^ 51) | FInf s \<Rightarrow> f64_bits s 2047 0 | FFin s m e \<Rightarrow> f64_round s m e)"

definition signed :: "bool \<Rightarrow> int \<Rightarrow> int" where
  "signed s m = (if s then - m else m)"

fun fval_add :: "fval \<Rightarrow> fval \<Rightarrow> fval" where
  "fval_add (FFin s m e) (FFin t n f) =
     (let q = min e f;
          v = signed s m * 2 ^ nat (e - q) + signed t n * 2 ^ nat (f - q) in
      FFin (if v = 0 then s \<and> t else v < 0) \<bar>v\<bar> q)"
| "fval_add (FInf s) (FInf t) = (if s = t then FInf s else FNan)"
| "fval_add FNan _ = FNan"
| "fval_add _ FNan = FNan"
| "fval_add (FInf s) _ = FInf s"
| "fval_add _ (FInf t) = FInf t"

fun fval_neg :: "fval \<Rightarrow> fval" where
  "fval_neg (FFin s m e) = FFin (\<not> s) m e"
| "fval_neg (FInf s) = FInf (\<not> s)"
| "fval_neg FNan = FNan"

fun fval_mul :: "fval \<Rightarrow> fval \<Rightarrow> fval" where
  "fval_mul (FFin s m e) (FFin t n f) = FFin (s \<noteq> t) (m * n) (e + f)"
| "fval_mul (FInf s) (FInf t) = FInf (s \<noteq> t)"
| "fval_mul FNan _ = FNan"
| "fval_mul _ FNan = FNan"
| "fval_mul (FInf s) (FFin t n f) = (if n = 0 then FNan else FInf (s \<noteq> t))"
| "fval_mul (FFin s m e) (FInf t) = (if m = 0 then FNan else FInf (s \<noteq> t))"

fun fval_less :: "fval \<Rightarrow> fval \<Rightarrow> bool" where
  "fval_less (FFin s m e) (FFin t n f) =
     (let q = min e f in signed s m * 2 ^ nat (e - q) < signed t n * 2 ^ nat (f - q))"
| "fval_less FNan _ = False"
| "fval_less _ FNan = False"
| "fval_less (FInf s) (FInf t) = (s \<and> \<not> t)"
| "fval_less (FInf s) _ = s"
| "fval_less _ (FInf t) = (\<not> t)"

fun fval_eq :: "fval \<Rightarrow> fval \<Rightarrow> bool" where
  "fval_eq (FFin s m e) (FFin t n f) =
     (let q = min e f in signed s m * 2 ^ nat (e - q) = signed t n * 2 ^ nat (f - q))"
| "fval_eq (FInf s) (FInf t) = (s = t)"
| "fval_eq _ _ = False"

definition f64_add :: "f64 \<Rightarrow> f64 \<Rightarrow> f64" where
  "f64_add x y = f64_encode (fval_add (f64_decode x) (f64_decode y))"

definition f64_sub :: "f64 \<Rightarrow> f64 \<Rightarrow> f64" where
  "f64_sub x y = f64_encode (fval_add (f64_decode x) (fval_neg (f64_decode y)))"

definition f64_mul :: "f64 \<Rightarrow> f64 \<Rightarrow> f64" where
  "f64_mul x y = f64_encode (fval_mul (f64_decode x) (f64_decode y))"

definition f64_lt :: "f64 \<Rightarrow> f64 \<Rightarrow> bool" where
  "f64_lt x y = fval_less (f64_decode x) (f64_decode y)"

definition f64_eq :: "f64 \<Rightarrow> f64 \<Rightarrow> bool" where
  "f64_eq x y = fval_eq (f64_decode x) (f64_decode y)"

definition f64_le :: "f64 \<Rightarrow> f64 \<Rightarrow> bool" where
  "f64_le x y = (f64_lt x y \<or> f64_eq x y)"

definition f64_of_int :: "int \<Rightarrow> f64" where
  "f64_of_int n = f64_round (n < 0) \<bar>n\<bar> 0"

definition f64_is_nan :: "f64 \<Rightarrow> bool" where
  "f64_is_nan x = (f64_decode x = FNan)"

fun fval_floor :: "fval \<Rightarrow> int option" where
  "fval_floor (FFin s m e) =
     Some (if e \<ge> 0 then signed s m * 2 ^ nat e else signed s m div 2 ^ nat (- e))"
| "fval_floor _ = None"

text \<open>\<open>x.floor() as i32\<close>: the cast saturates and maps NaN to 0.\<close>

definition f64_floor_as_i32 :: "f64 \<Rightarrow> int" where
  "f64_floor_as_i32 x =
     (case f64_decode x of
        FNan \<Rightarrow> 0
      | FInf s \<Rightarrow> (if s then - (2 ^ 31) else 2 ^ 31 - 1)
      | v \<Rightarrow> max (- (2 ^ 31)) (min (2 ^ 31 - 1) (the (fval_floor v))))"

text \<open>The \<open>f32\<close> equality of the derived instances.\<close>

definition f32_decode :: "f32 \<Rightarrow> fval" where
  "f32_decode x =
     (let s = bit x 31; e = uint (drop_bit 23 x AND 0xFF); f = uint (x AND 0x7FFFFF) in
      if e = 255 then (if f = 0 then FInf s else FNan)
      else if e = 0 then FFin s f (- 149)
      else FFin s (f + 2 ^ 23) (e - 150))"

definition f32_eq :: "f32 \<Rightarrow> f32 \<Rightarrow> bool" where
  "f32_eq x y = fval_eq (f32_decode x) (f32_decode y)"

definition f32_is_nan :: "f32 \<Rightarrow> bool" where
  "f32_is_nan x = (f32_decode x = FNan)"

lemma fval_eq_refl: "fval_eq v v = (v \<noteq> FNan)"
  by (cases v) simp_all

lemma f64_eq_refl: "f64_eq x x = (\<not> f64_is_nan x)"
  by (simp add: f64_eq_def f64_is_nan_def fval_eq_refl)

lemma f32_eq_refl: "f32_eq x x = (\<not> f32_is_nan x)"
  by (simp add: f32_eq_def f32_is_nan_def fval_eq_refl)

end
