(* ===== verification/Core_State.thy ===== *)
theory Core_State
  imports Voxel_Model Float64
begin

text \<open>
  The state of the game core, crate \<open>revy-voxel-core\<close>: \<open>core/mod.rs\<close> (the stores of \<open>ServerCore\<close>),
  \<open>core/world.rs\<close> and \<open>core/state_backend.rs\<close>.

  The gameplay code is written against the traits \<open>CoreStateRead\<close> and \<open>CoreStateMut\<close>; a value of
  \<open>'s core_backend\<close> is an implementation of them on states \<open>'s\<close>. There are two: \<open>base_backend\<close> works
  on the core itself (\<open>BaseState\<close>) and \<open>overlay_backend\<close> on a transaction's overlay over an unchanged
  snapshot (\<open>OverlayState\<close>). The locale \<open>backend_simulation\<close> states what gameplay code relies on when it
  is previewed on one backend and applied on another; it is interpreted on the two.

  A mutable borrow (\<open>player_session_mut\<close> and the like) is the operation that yields the value, and in the
  overlay first copies it there, together with a write of the new value. The content behaviour is
  a record of the trait's functions. \<open>PlayerId\<close> is the 128-bit UUID in its byte order,
  \<open>EntityId\<close> the \<open>i32\<close> as an integer. A panic is an error value. \<open>VersionComponent\<close> is a copy-on-write
  pointer and has no counterpart.
\<close>

section \<open>Positions of entities\<close>

record vec3 =
  v_x :: f64
  v_y :: f64
  v_z :: f64

definition floor_to_i32 :: "f64 \<Rightarrow> int option" where
  "floor_to_i32 v =
     (case fval_floor (f64_decode v) of
        None \<Rightarrow> None
      | Some n \<Rightarrow> if i32_ok n then Some n else None)"

definition chunk_from_world_position :: "f64 \<Rightarrow> f64 \<Rightarrow> chunk_pos option" where
  "chunk_from_world_position x z =
     (case floor_to_i32 x of
        None \<Rightarrow> None
      | Some block_x \<Rightarrow>
          (case floor_to_i32 z of
             None \<Rightarrow> None
           | Some block_z \<Rightarrow> Some \<lparr>cp_x = block_x div CHUNK_WIDTH, cp_z = block_z div CHUNK_WIDTH\<rparr>))"

definition vec3_chunk_pos :: "vec3 \<Rightarrow> chunk_pos option" where
  "vec3_chunk_pos v = chunk_from_world_position (v_x v) (v_z v)"

section \<open>The records of the stores\<close>

type_synonym player_id = "128 word"
type_synonym entity_id = int
type_synonym connection_id = u64

datatype dimension_id = Overworld

record world_meta =
  wm_level_name :: string
  wm_seed :: u64
  wm_spawn :: block_pos
  wm_dimension :: dimension_id
  wm_age :: i64
  wm_time :: i64
  wm_level_type :: string
  wm_game_mode :: u8
  wm_difficulty :: u8
  wm_max_players :: u32

record core_config =
  cfg_level_name :: string
  cfg_seed :: u64
  cfg_max_players :: u32
  cfg_view_distance :: u8
  cfg_game_mode :: u8
  cfg_difficulty :: u8
  cfg_spawn :: block_pos

record client_view =
  cv_center :: chunk_pos
  cv_view_distance :: u8
  cv_loaded_chunks :: "chunk_pos set"

definition client_view_new :: "chunk_pos \<Rightarrow> u8 \<Rightarrow> client_view" where
  "client_view_new center view_distance =
     \<lparr>cv_center = center, cv_view_distance = view_distance,
      cv_loaded_chunks = required_chunks center view_distance\<rparr>"

definition client_view_retarget :: "chunk_pos \<Rightarrow> u8 \<Rightarrow> client_view \<Rightarrow> chunk_delta \<times> client_view" where
  "client_view_retarget center view_distance view =
     (let next_loaded = required_chunks center view_distance;
          added = sorted_list_of_set (next_loaded - cv_loaded_chunks view);
          removed = sorted_list_of_set (cv_loaded_chunks view - next_loaded) in
      (\<lparr>cd_added = added, cd_removed = removed\<rparr>,
       view\<lparr>cv_center := center, cv_view_distance := view_distance, cv_loaded_chunks := next_loaded\<rparr>))"

record dropped_item_snapshot =
  di_item :: item_stack
  di_position :: vec3
  di_velocity :: vec3

record dropped_item_state =
  ds_snapshot :: dropped_item_snapshot
  ds_last_updated_at_ms :: u64
  ds_pickup_allowed_at_ms :: u64
  ds_despawn_at_ms :: u64

record active_mining_state =
  am_position :: block_pos
  am_started_at_ms :: u64
  am_duration_ms :: u64
  am_last_stage :: "u8 option"
  am_tool_context :: "mining_tool_spec option"

record world_container_viewers =
  vw_kind :: container_kind_id
  vw_viewers :: "(player_id, u8) btree_map"

datatype entity_kind = PlayerEntity | DroppedItemEntity

record player_identity =
  pid_player_id :: player_id
  pid_username :: string

record player_transform =
  pt_position :: vec3
  pt_yaw :: f32
  pt_pitch :: f32
  pt_on_ground :: bool
  pt_dimension :: dimension_id

record player_vitals =
  pv_health :: f32
  pv_food :: i16
  pv_food_saturation :: f32

record player_snapshot =
  ps_id :: player_id
  ps_username :: string
  ps_position :: vec3
  ps_yaw :: f32
  ps_pitch :: f32
  ps_on_ground :: bool
  ps_dimension :: dimension_id
  ps_health :: f32
  ps_food :: i16
  ps_food_saturation :: f32
  ps_inventory :: player_inventory
  ps_selected_hotbar_slot :: u8

record open_inventory_window =
  ow_window_id :: u8
  ow_container :: open_container_state

record player_session_state =
  se_entity_id :: entity_id
  se_cursor :: "item_stack option"
  se_active_container :: "open_inventory_window option"
  se_next_non_player_window_id :: u8
  se_view :: client_view
  se_pending_keep_alive_id :: "int option"
  se_last_keep_alive_sent_at :: "u64 option"
  se_next_keep_alive_at :: u64

section \<open>The content behaviour\<close>

record content_behavior =
  cb_generate_chunk :: "world_meta \<Rightarrow> chunk_pos \<Rightarrow> chunk_column"
  cb_player_container_kind :: container_kind_id
  cb_container_spec :: "container_kind_id \<Rightarrow> container_spec option"
  cb_container_title :: "container_kind_id \<Rightarrow> string"
  cb_container_kind_for_block :: "block_state \<Rightarrow> container_kind_id option"
  cb_default_block_entity_for_block :: "block_state \<Rightarrow> container_block_entity_state option"
  cb_default_block_entity_for_kind :: "block_entity_kind_id \<Rightarrow> container_block_entity_state option"
  cb_block_entity_kind_for_container :: "container_kind_id \<Rightarrow> block_entity_kind_id option"
  cb_container_kind_for_block_entity :: "container_block_entity_state \<Rightarrow> container_kind_id option"
  cb_is_air_block :: "block_state \<Rightarrow> bool"
  cb_is_unbreakable_block :: "block_state \<Rightarrow> bool"
  cb_placeable_block_state_from_item_key :: "string \<Rightarrow> block_state option"
  cb_is_supported_inventory_item :: "string \<Rightarrow> bool"
  cb_starter_inventory :: player_inventory
  cb_tool_spec_for_item :: "item_stack option \<Rightarrow> mining_tool_spec option"
  cb_survival_mining_duration_ms :: "block_state \<Rightarrow> mining_tool_spec option \<Rightarrow> u64 option"
  cb_survival_drop_for_block :: "block_state \<Rightarrow> item_stack option"
  cb_normalize_container :: "open_container_state \<Rightarrow> open_container_state"
  cb_normalize_player_inventory :: "player_inventory \<Rightarrow> player_inventory"
  cb_try_take_output :: "container_kind_id \<Rightarrow> inventory_click_button \<Rightarrow>
    item_stack option list \<times> item_stack option \<Rightarrow> bool \<times> item_stack option list \<times> item_stack option"
  cb_tick_container :: "open_container_state \<Rightarrow> open_container_state"

section \<open>The stores\<close>

record world_store =
  ws_config :: core_config
  ws_world_meta :: world_meta
  ws_chunks :: "(chunk_pos, chunk_column) btree_map"
  ws_block_entities :: "(block_pos, block_entity_state) btree_map"
  ws_container_viewers :: "(block_pos, world_container_viewers) btree_map"
  ws_saved_players :: "(player_id, player_snapshot) btree_map"

record entity_store =
  es_entity_kinds :: "(entity_id, entity_kind) btree_map"
  es_players_by_player_id :: "(player_id, entity_id) btree_map"
  es_player_identity :: "(entity_id, player_identity) btree_map"
  es_player_transform :: "(entity_id, player_transform) btree_map"
  es_player_vitals :: "(entity_id, player_vitals) btree_map"
  es_player_inventory :: "(entity_id, player_inventory) btree_map"
  es_player_selected_hotbar :: "(entity_id, u8) btree_map"
  es_player_active_mining :: "(entity_id, active_mining_state) btree_map"
  es_dropped_items :: "(entity_id, dropped_item_state) btree_map"
  es_next_entity_id :: int

record session_store =
  ss_player_sessions :: "(player_id, player_session_state) btree_map"
  ss_next_keep_alive_id :: int
  ss_keepalive_interval_ms :: u64
  ss_keepalive_timeout_ms :: u64

record server_core =
  sc_content_behavior :: content_behavior
  sc_world :: world_store
  sc_entities :: entity_store
  sc_sessions :: session_store

definition DEFAULT_KEEPALIVE_INTERVAL_MS :: u64 where "DEFAULT_KEEPALIVE_INTERVAL_MS = 10000"
definition DEFAULT_KEEPALIVE_TIMEOUT_MS :: u64 where "DEFAULT_KEEPALIVE_TIMEOUT_MS = 30000"

definition server_core_new :: "core_config \<Rightarrow> content_behavior \<Rightarrow> server_core" where
  "server_core_new config content = \<lparr>
     sc_content_behavior = content,
     sc_world = \<lparr>ws_config = config,
       ws_world_meta = \<lparr>wm_level_name = cfg_level_name config, wm_seed = cfg_seed config, wm_spawn = cfg_spawn config,
         wm_dimension = Overworld, wm_age = 0, wm_time = 6000, wm_level_type = ''FLAT'',
         wm_game_mode = cfg_game_mode config, wm_difficulty = cfg_difficulty config,
         wm_max_players = cfg_max_players config\<rparr>,
       ws_chunks = [], ws_block_entities = [], ws_container_viewers = [], ws_saved_players = []\<rparr>,
     sc_entities = \<lparr>es_entity_kinds = [], es_players_by_player_id = [], es_player_identity = [],
       es_player_transform = [], es_player_vitals = [], es_player_inventory = [], es_player_selected_hotbar = [],
       es_player_active_mining = [], es_dropped_items = [], es_next_entity_id = 1\<rparr>,
     sc_sessions = \<lparr>ss_player_sessions = [], ss_next_keep_alive_id = 1,
       ss_keepalive_interval_ms = DEFAULT_KEEPALIVE_INTERVAL_MS,
       ss_keepalive_timeout_ms = DEFAULT_KEEPALIVE_TIMEOUT_MS\<rparr>\<rparr>"

definition i32_saturating_succ :: "int \<Rightarrow> int" where
  "i32_saturating_succ n = min (n + 1) (2 ^ 31 - 1)"

abbreviation (input) upd_world :: "(world_store \<Rightarrow> world_store) \<Rightarrow> server_core \<Rightarrow> server_core" where
  "upd_world f c \<equiv> c\<lparr>sc_world := f (sc_world c)\<rparr>"

abbreviation (input) upd_entities :: "(entity_store \<Rightarrow> entity_store) \<Rightarrow> server_core \<Rightarrow> server_core" where
  "upd_entities f c \<equiv> c\<lparr>sc_entities := f (sc_entities c)\<rparr>"

abbreviation (input) upd_sessions :: "(session_store \<Rightarrow> session_store) \<Rightarrow> server_core \<Rightarrow> server_core" where
  "upd_sessions f c \<equiv> c\<lparr>sc_sessions := f (sc_sessions c)\<rparr>"

section \<open>Programs over a backend\<close>

datatype core_panic =
    CoordinatePanic
  | StackCountPanic
  | MissingChunkPanic
  | CommitConflictPanic
  | LoginPanic

type_synonym ('s, 'a) core_prog = "('s, core_panic, 'a) sr"

record 's core_backend =
  b_content_behavior :: "('s, content_behavior) core_prog"
  b_config :: "('s, core_config) core_prog"
  b_world_meta :: "('s, world_meta) core_prog"
  b_block_state :: "block_pos \<Rightarrow> ('s, block_state option) core_prog"
  b_block_entity :: "block_pos \<Rightarrow> ('s, block_entity_state option) core_prog"
  b_saved_player :: "player_id \<Rightarrow> ('s, player_snapshot option) core_prog"
  b_player_entity_id :: "player_id \<Rightarrow> ('s, entity_id option) core_prog"
  b_player_session :: "player_id \<Rightarrow> ('s, player_session_state option) core_prog"
  b_player_identity_by_entity :: "entity_id \<Rightarrow> ('s, player_identity option) core_prog"
  b_player_transform_by_entity :: "entity_id \<Rightarrow> ('s, player_transform option) core_prog"
  b_player_vitals_by_entity :: "entity_id \<Rightarrow> ('s, player_vitals option) core_prog"
  b_player_inventory_by_entity :: "entity_id \<Rightarrow> ('s, player_inventory option) core_prog"
  b_player_selected_hotbar_by_entity :: "entity_id \<Rightarrow> ('s, u8 option) core_prog"
  b_player_active_mining_by_entity :: "entity_id \<Rightarrow> ('s, active_mining_state option) core_prog"
  b_dropped_item_by_entity :: "entity_id \<Rightarrow> ('s, dropped_item_state option) core_prog"
  b_player_ids :: "('s, player_id list) core_prog"
  b_player_entity_ids :: "('s, entity_id list) core_prog"
  b_dropped_item_ids :: "('s, entity_id list) core_prog"
  b_container_viewers :: "block_pos \<Rightarrow> ('s, world_container_viewers option) core_prog"
  b_keepalive_interval_ms :: "('s, u64) core_prog"
  b_ensure_chunk :: "chunk_pos \<Rightarrow> ('s, chunk_column) core_prog"
  b_set_block_state :: "block_pos \<Rightarrow> block_state option \<Rightarrow> ('s, unit) core_prog"
  b_set_block_entity :: "block_pos \<Rightarrow> block_entity_state option \<Rightarrow> ('s, unit) core_prog"
  b_player_session_mut :: "player_id \<Rightarrow> ('s, player_session_state option) core_prog"
  b_write_player_session :: "player_id \<Rightarrow> player_session_state \<Rightarrow> ('s, unit) core_prog"
  b_player_session_inventory_mut ::
    "player_id \<Rightarrow> ('s, (player_session_state \<times> entity_id \<times> player_inventory) option) core_prog"
  b_player_transform_mut :: "entity_id \<Rightarrow> ('s, player_transform option) core_prog"
  b_write_player_transform :: "entity_id \<Rightarrow> player_transform \<Rightarrow> ('s, unit) core_prog"
  b_player_inventory_mut :: "entity_id \<Rightarrow> ('s, player_inventory option) core_prog"
  b_write_player_inventory :: "entity_id \<Rightarrow> player_inventory \<Rightarrow> ('s, unit) core_prog"
  b_player_selected_hotbar_mut :: "entity_id \<Rightarrow> ('s, u8 option) core_prog"
  b_write_player_selected_hotbar :: "entity_id \<Rightarrow> u8 \<Rightarrow> ('s, unit) core_prog"
  b_player_active_mining_mut :: "entity_id \<Rightarrow> ('s, active_mining_state option) core_prog"
  b_write_player_active_mining :: "entity_id \<Rightarrow> active_mining_state \<Rightarrow> ('s, unit) core_prog"
  b_remove_player_active_mining :: "entity_id \<Rightarrow> ('s, active_mining_state option) core_prog"
  b_set_player_active_mining :: "entity_id \<Rightarrow> active_mining_state option \<Rightarrow> ('s, unit) core_prog"
  b_allocate_entity_id :: "('s, entity_id) core_prog"
  b_allocate_keep_alive_id :: "('s, int) core_prog"
  b_set_entity_kind :: "entity_id \<Rightarrow> entity_kind option \<Rightarrow> ('s, unit) core_prog"
  b_set_dropped_item :: "entity_id \<Rightarrow> dropped_item_state option \<Rightarrow> ('s, unit) core_prog"
  b_take_dropped_item :: "entity_id \<Rightarrow> ('s, dropped_item_state option) core_prog"
  b_set_saved_player :: "player_id \<Rightarrow> player_snapshot option \<Rightarrow> ('s, unit) core_prog"
  b_set_container_viewers :: "block_pos \<Rightarrow> world_container_viewers option \<Rightarrow> ('s, unit) core_prog"
  b_spawn_online_player :: "player_snapshot \<Rightarrow> u64 \<Rightarrow> entity_id option \<Rightarrow> ('s, entity_id) core_prog"
  b_remove_online_player :: "player_id \<Rightarrow> ('s, player_session_state option) core_prog"

definition chunk_of :: "vec3 \<Rightarrow> ('s, chunk_pos) core_prog" where
  "chunk_of v = (case vec3_chunk_pos v of None \<Rightarrow> sfail CoordinatePanic | Some c \<Rightarrow> sret c)"

section \<open>The core itself: \<open>BaseState\<close>\<close>

definition apply_optional_entry :: "'k::linorder \<Rightarrow> 'v option \<Rightarrow> ('k, 'v) btree_map \<Rightarrow> ('k, 'v) btree_map" where
  "apply_optional_entry key v m = (case v of Some v \<Rightarrow> bt_insert key v m | None \<Rightarrow> bt_remove key m)"

definition local_block_x :: "block_pos \<Rightarrow> u8" where
  "local_block_x p = word_of_int (bp_x p mod CHUNK_WIDTH)"

definition local_block_z :: "block_pos \<Rightarrow> u8" where
  "local_block_z p = word_of_int (bp_z p mod CHUNK_WIDTH)"

definition chunk_block_at :: "chunk_column \<Rightarrow> block_pos \<Rightarrow> block_state option" where
  "chunk_block_at c p = column_get_block c (local_block_x p) (bp_y p) (local_block_z p)"

definition generated_chunk :: "server_core \<Rightarrow> chunk_pos \<Rightarrow> chunk_column" where
  "generated_chunk c pos = cb_generate_chunk (sc_content_behavior c) (ws_world_meta (sc_world c)) pos"

definition block_at :: "server_core \<Rightarrow> block_pos \<Rightarrow> block_state option" where
  "block_at c p =
     (case map_of (ws_chunks (sc_world c)) (block_chunk_pos p) of
        None \<Rightarrow> chunk_block_at (generated_chunk c (block_chunk_pos p)) p
      | Some chunk \<Rightarrow> chunk_block_at chunk p)"

definition block_entity_at :: "server_core \<Rightarrow> block_pos \<Rightarrow> block_entity_state option" where
  "block_entity_at c p = map_of (ws_block_entities (sc_world c)) p"

definition base_ensure_chunk :: "chunk_pos \<Rightarrow> (server_core, chunk_column) core_prog" where
  "base_ensure_chunk pos c =
     (let c' = (case map_of (ws_chunks (sc_world c)) pos of
                  Some _ \<Rightarrow> c
                | None \<Rightarrow> upd_world (ws_chunks_update (bt_insert pos (generated_chunk c pos))) c) in
      case map_of (ws_chunks (sc_world c')) pos of
        None \<Rightarrow> (Inl MissingChunkPanic, c')
      | Some chunk \<Rightarrow> (Inr chunk, c'))"

definition set_block_at :: "block_pos \<Rightarrow> block_state option \<Rightarrow> (server_core, unit) core_prog" where
  "set_block_at p st =
     sbind (base_ensure_chunk (block_chunk_pos p)) (\<lambda>chunk.
       smod (upd_world (ws_chunks_update (bt_insert (block_chunk_pos p)
         (column_set_block (local_block_x p) (bp_y p) (local_block_z p) st chunk)))))"

definition base_player_session_inventory_mut ::
  "player_id \<Rightarrow> (server_core, (player_session_state \<times> entity_id \<times> player_inventory) option) core_prog" where
  "base_player_session_inventory_mut p =
     sget (\<lambda>c. case map_of (es_players_by_player_id (sc_entities c)) p of
        None \<Rightarrow> None
      | Some e \<Rightarrow>
          (case map_of (ss_player_sessions (sc_sessions c)) p of
             None \<Rightarrow> None
           | Some s \<Rightarrow> map_option (\<lambda>i. (s, e, i)) (map_of (es_player_inventory (sc_entities c)) e)))"

definition base_allocate_entity_id :: "(server_core, entity_id) core_prog" where
  "base_allocate_entity_id c =
     (Inr (es_next_entity_id (sc_entities c)), upd_entities (es_next_entity_id_update i32_saturating_succ) c)"

definition base_allocate_keep_alive_id :: "(server_core, int) core_prog" where
  "base_allocate_keep_alive_id c =
     (Inr (ss_next_keep_alive_id (sc_sessions c)), upd_sessions (ss_next_keep_alive_id_update i32_saturating_succ) c)"

definition snapshot_identity :: "player_snapshot \<Rightarrow> player_identity" where
  "snapshot_identity p = \<lparr>pid_player_id = ps_id p, pid_username = ps_username p\<rparr>"

definition snapshot_transform :: "player_snapshot \<Rightarrow> player_transform" where
  "snapshot_transform p = \<lparr>pt_position = ps_position p, pt_yaw = ps_yaw p, pt_pitch = ps_pitch p,
     pt_on_ground = ps_on_ground p, pt_dimension = ps_dimension p\<rparr>"

definition snapshot_vitals :: "player_snapshot \<Rightarrow> player_vitals" where
  "snapshot_vitals p = \<lparr>pv_health = ps_health p, pv_food = ps_food p, pv_food_saturation = ps_food_saturation p\<rparr>"

definition new_session :: "entity_id \<Rightarrow> client_view \<Rightarrow> u64 \<Rightarrow> u64 \<Rightarrow> player_session_state" where
  "new_session e view now_ms keepalive_interval_ms =
     \<lparr>se_entity_id = e, se_cursor = None, se_active_container = None, se_next_non_player_window_id = 1,
      se_view = view, se_pending_keep_alive_id = None, se_last_keep_alive_sent_at = None,
      se_next_keep_alive_at = saturating_add_word now_ms keepalive_interval_ms\<rparr>"

definition base_insert_player :: "player_snapshot \<Rightarrow> u64 \<Rightarrow> entity_id \<Rightarrow> client_view \<Rightarrow> server_core \<Rightarrow> server_core" where
  "base_insert_player player now_ms e view c =
     upd_sessions (\<lambda>ss. ss\<lparr>ss_player_sessions :=
         bt_insert (ps_id player) (new_session e view now_ms (ss_keepalive_interval_ms ss)) (ss_player_sessions ss)\<rparr>)
     (upd_entities (\<lambda>es. es\<lparr>
         es_entity_kinds := bt_insert e PlayerEntity (es_entity_kinds es),
         es_players_by_player_id := bt_insert (ps_id player) e (es_players_by_player_id es),
         es_player_identity := bt_insert e (snapshot_identity player) (es_player_identity es),
         es_player_transform := bt_insert e (snapshot_transform player) (es_player_transform es),
         es_player_vitals := bt_insert e (snapshot_vitals player) (es_player_vitals es),
         es_player_inventory := bt_insert e (ps_inventory player) (es_player_inventory es),
         es_player_selected_hotbar := bt_insert e (ps_selected_hotbar_slot player) (es_player_selected_hotbar es),
         es_player_active_mining := bt_remove e (es_player_active_mining es)\<rparr>) c)"

definition base_spawn_online_player ::
  "player_snapshot \<Rightarrow> u64 \<Rightarrow> entity_id option \<Rightarrow> (server_core, entity_id) core_prog" where
  "base_spawn_online_player player now_ms expected_entity_id =
     sbind (case expected_entity_id of Some e \<Rightarrow> sret e | None \<Rightarrow> base_allocate_entity_id) (\<lambda>e.
     sbind (smod (\<lambda>c. if es_next_entity_id (sc_entities c) \<le> e
                       then upd_entities (es_next_entity_id_update (\<lambda>_. i32_saturating_succ e)) c else c)) (\<lambda>_.
     sbind (chunk_of (ps_position player)) (\<lambda>center.
     sbind (sget (\<lambda>c. client_view_new center (cfg_view_distance (ws_config (sc_world c))))) (\<lambda>view.
     sbind (smod (base_insert_player player now_ms e view)) (\<lambda>_.
     sret e)))))"

definition core_remove_online_player :: "player_id \<Rightarrow> (server_core, player_session_state option) core_prog" where
  "core_remove_online_player p c =
     (case map_of (ss_player_sessions (sc_sessions c)) p of
        None \<Rightarrow> (Inr None, c)
      | Some session \<Rightarrow>
          let e = se_entity_id session in
          (Inr (Some session),
           upd_entities (\<lambda>es. es\<lparr>
             es_players_by_player_id := bt_remove p (es_players_by_player_id es),
             es_entity_kinds := bt_remove e (es_entity_kinds es),
             es_player_identity := bt_remove e (es_player_identity es),
             es_player_transform := bt_remove e (es_player_transform es),
             es_player_vitals := bt_remove e (es_player_vitals es),
             es_player_inventory := bt_remove e (es_player_inventory es),
             es_player_selected_hotbar := bt_remove e (es_player_selected_hotbar es),
             es_player_active_mining := bt_remove e (es_player_active_mining es)\<rparr>)
           (upd_sessions (ss_player_sessions_update (bt_remove p)) c)))"

definition base_backend :: "server_core core_backend" where
  "base_backend = \<lparr>
     b_content_behavior = sget sc_content_behavior,
     b_config = sget (\<lambda>c. ws_config (sc_world c)),
     b_world_meta = sget (\<lambda>c. ws_world_meta (sc_world c)),
     b_block_state = (\<lambda>p. sget (\<lambda>c. block_at c p)),
     b_block_entity = (\<lambda>p. sget (\<lambda>c. block_entity_at c p)),
     b_saved_player = (\<lambda>p. sget (\<lambda>c. map_of (ws_saved_players (sc_world c)) p)),
     b_player_entity_id = (\<lambda>p. sget (\<lambda>c. map_of (es_players_by_player_id (sc_entities c)) p)),
     b_player_session = (\<lambda>p. sget (\<lambda>c. map_of (ss_player_sessions (sc_sessions c)) p)),
     b_player_identity_by_entity = (\<lambda>e. sget (\<lambda>c. map_of (es_player_identity (sc_entities c)) e)),
     b_player_transform_by_entity = (\<lambda>e. sget (\<lambda>c. map_of (es_player_transform (sc_entities c)) e)),
     b_player_vitals_by_entity = (\<lambda>e. sget (\<lambda>c. map_of (es_player_vitals (sc_entities c)) e)),
     b_player_inventory_by_entity = (\<lambda>e. sget (\<lambda>c. map_of (es_player_inventory (sc_entities c)) e)),
     b_player_selected_hotbar_by_entity = (\<lambda>e. sget (\<lambda>c. map_of (es_player_selected_hotbar (sc_entities c)) e)),
     b_player_active_mining_by_entity = (\<lambda>e. sget (\<lambda>c. map_of (es_player_active_mining (sc_entities c)) e)),
     b_dropped_item_by_entity = (\<lambda>e. sget (\<lambda>c. map_of (es_dropped_items (sc_entities c)) e)),
     b_player_ids = sget (\<lambda>c. map fst (ss_player_sessions (sc_sessions c))),
     b_player_entity_ids = sget (\<lambda>c. sorted_list_of_set (snd ` set (es_players_by_player_id (sc_entities c)))),
     b_dropped_item_ids = sget (\<lambda>c. map fst (es_dropped_items (sc_entities c))),
     b_container_viewers = (\<lambda>p. sget (\<lambda>c. map_of (ws_container_viewers (sc_world c)) p)),
     b_keepalive_interval_ms = sget (\<lambda>c. ss_keepalive_interval_ms (sc_sessions c)),
     b_ensure_chunk = base_ensure_chunk,
     b_set_block_state = set_block_at,
     b_set_block_entity = (\<lambda>p v. smod (upd_world (ws_block_entities_update (apply_optional_entry p v)))),
     b_player_session_mut = (\<lambda>p. sget (\<lambda>c. map_of (ss_player_sessions (sc_sessions c)) p)),
     b_write_player_session = (\<lambda>p v. smod (upd_sessions (ss_player_sessions_update (bt_insert p v)))),
     b_player_session_inventory_mut = base_player_session_inventory_mut,
     b_player_transform_mut = (\<lambda>e. sget (\<lambda>c. map_of (es_player_transform (sc_entities c)) e)),
     b_write_player_transform = (\<lambda>e v. smod (upd_entities (es_player_transform_update (bt_insert e v)))),
     b_player_inventory_mut = (\<lambda>e. sget (\<lambda>c. map_of (es_player_inventory (sc_entities c)) e)),
     b_write_player_inventory = (\<lambda>e v. smod (upd_entities (es_player_inventory_update (bt_insert e v)))),
     b_player_selected_hotbar_mut = (\<lambda>e. sget (\<lambda>c. map_of (es_player_selected_hotbar (sc_entities c)) e)),
     b_write_player_selected_hotbar = (\<lambda>e v. smod (upd_entities (es_player_selected_hotbar_update (bt_insert e v)))),
     b_player_active_mining_mut = (\<lambda>e. sget (\<lambda>c. map_of (es_player_active_mining (sc_entities c)) e)),
     b_write_player_active_mining = (\<lambda>e v. smod (upd_entities (es_player_active_mining_update (bt_insert e v)))),
     b_remove_player_active_mining = (\<lambda>e. sbind (sget (\<lambda>c. map_of (es_player_active_mining (sc_entities c)) e)) (\<lambda>v.
       sbind (smod (upd_entities (es_player_active_mining_update (bt_remove e)))) (\<lambda>_. sret v))),
     b_set_player_active_mining =
       (\<lambda>e v. smod (upd_entities (es_player_active_mining_update (apply_optional_entry e v)))),
     b_allocate_entity_id = base_allocate_entity_id,
     b_allocate_keep_alive_id = base_allocate_keep_alive_id,
     b_set_entity_kind = (\<lambda>e v. smod (upd_entities (es_entity_kinds_update (apply_optional_entry e v)))),
     b_set_dropped_item = (\<lambda>e v. smod (upd_entities (es_dropped_items_update (apply_optional_entry e v)))),
     b_take_dropped_item = (\<lambda>e. sbind (sget (\<lambda>c. map_of (es_dropped_items (sc_entities c)) e)) (\<lambda>v.
       sbind (smod (upd_entities (es_dropped_items_update (bt_remove e)))) (\<lambda>_. sret v))),
     b_set_saved_player = (\<lambda>p v. smod (upd_world (ws_saved_players_update (apply_optional_entry p v)))),
     b_set_container_viewers = (\<lambda>p v. smod (upd_world (ws_container_viewers_update (apply_optional_entry p v)))),
     b_spawn_online_player = base_spawn_online_player,
     b_remove_online_player = core_remove_online_player\<rparr>"

section \<open>A transaction's overlay: \<open>OverlayState\<close>\<close>

record tx_overlay =
  ov_chunks :: "(chunk_pos, chunk_column) btree_map"
  ov_block_entities :: "(block_pos, block_entity_state option) btree_map"
  ov_container_viewers :: "(block_pos, world_container_viewers option) btree_map"
  ov_saved_players :: "(player_id, player_snapshot option) btree_map"
  ov_players_by_player_id :: "(player_id, entity_id option) btree_map"
  ov_entity_kinds :: "(entity_id, entity_kind option) btree_map"
  ov_player_identity :: "(entity_id, player_identity option) btree_map"
  ov_player_transform :: "(entity_id, player_transform option) btree_map"
  ov_player_vitals :: "(entity_id, player_vitals option) btree_map"
  ov_player_inventory :: "(entity_id, player_inventory option) btree_map"
  ov_player_selected_hotbar :: "(entity_id, u8 option) btree_map"
  ov_player_active_mining :: "(entity_id, active_mining_state option) btree_map"
  ov_dropped_items :: "(entity_id, dropped_item_state option) btree_map"
  ov_player_sessions :: "(player_id, player_session_state option) btree_map"
  ov_next_entity_id :: "int option"
  ov_next_keep_alive_id :: "int option"

definition tx_overlay_default :: tx_overlay where
  "tx_overlay_default = \<lparr>ov_chunks = [], ov_block_entities = [], ov_container_viewers = [], ov_saved_players = [],
     ov_players_by_player_id = [], ov_entity_kinds = [], ov_player_identity = [], ov_player_transform = [],
     ov_player_vitals = [], ov_player_inventory = [], ov_player_selected_hotbar = [], ov_player_active_mining = [],
     ov_dropped_items = [], ov_player_sessions = [], ov_next_entity_id = None, ov_next_keep_alive_id = None\<rparr>"

record overlay_state =
  os_base :: server_core
  os_overlay :: tx_overlay

abbreviation (input) upd_overlay :: "(tx_overlay \<Rightarrow> tx_overlay) \<Rightarrow> overlay_state \<Rightarrow> overlay_state" where
  "upd_overlay f t \<equiv> t\<lparr>os_overlay := f (os_overlay t)\<rparr>"

text \<open>A read: the overlay's entry if it has one, else the base.\<close>

definition overlay_entry :: "('k, 'v option) btree_map \<Rightarrow> ('k, 'v) btree_map \<Rightarrow> 'k \<Rightarrow> 'v option" where
  "overlay_entry ov base key = (case map_of ov key of Some entry \<Rightarrow> entry | None \<Rightarrow> map_of base key)"

definition overlay_block_state :: "overlay_state \<Rightarrow> block_pos \<Rightarrow> block_state option" where
  "overlay_block_state t p =
     (case map_of (ov_chunks (os_overlay t)) (block_chunk_pos p) of
        Some chunk \<Rightarrow> chunk_block_at chunk p
      | None \<Rightarrow> block_at (os_base t) p)"

text \<open>The keys that are present: the base's, with the overlay's insertions and removals.\<close>

definition overlay_keys :: "('k::linorder, 'v option) btree_map \<Rightarrow> ('k, 'v) btree_map \<Rightarrow> 'k list" where
  "overlay_keys ov base =
     sorted_list_of_set (fold (\<lambda>(key, entry) S. case entry of Some _ \<Rightarrow> insert key S | None \<Rightarrow> S - {key})
       ov (fst ` set base))"

definition overlay_player_entity_ids :: "(player_id, entity_id option) btree_map \<Rightarrow>
    (player_id, entity_id) btree_map \<Rightarrow> entity_id list" where
  "overlay_player_entity_ids ov base =
     sorted_list_of_set (fold (\<lambda>(p, entry) S.
         case entry of
           Some e \<Rightarrow> insert e S
         | None \<Rightarrow> (case map_of base p of Some e \<Rightarrow> S - {e} | None \<Rightarrow> S))
       ov (snd ` set base))"

text \<open>A mutable borrow copies the base's value into the overlay when it has no entry yet.\<close>

definition overlay_borrow :: "(tx_overlay \<Rightarrow> ('k, 'v option) btree_map) \<Rightarrow>
    ((('k::linorder, 'v option) btree_map \<Rightarrow> ('k, 'v option) btree_map) \<Rightarrow> tx_overlay \<Rightarrow> tx_overlay) \<Rightarrow>
    (server_core \<Rightarrow> ('k, 'v) btree_map) \<Rightarrow> 'k \<Rightarrow> (overlay_state, 'v option) core_prog" where
  "overlay_borrow get upd base key t =
     (case map_of (get (os_overlay t)) key of
        Some entry \<Rightarrow> (Inr entry, t)
      | None \<Rightarrow>
          (case map_of (base (os_base t)) key of
             None \<Rightarrow> (Inr None, t)
           | Some v \<Rightarrow> (Inr (Some v), upd_overlay (upd (bt_insert key (Some v))) t)))"

definition overlay_ensure_chunk :: "chunk_pos \<Rightarrow> (overlay_state, chunk_column) core_prog" where
  "overlay_ensure_chunk pos t =
     (case map_of (ov_chunks (os_overlay t)) pos of
        Some chunk \<Rightarrow> (Inr chunk, t)
      | None \<Rightarrow>
          let chunk = (case map_of (ws_chunks (sc_world (os_base t))) pos of
                         Some chunk \<Rightarrow> chunk
                       | None \<Rightarrow> generated_chunk (os_base t) pos) in
          (Inr chunk, upd_overlay (ov_chunks_update (bt_insert pos chunk)) t))"

definition overlay_set_block_state :: "block_pos \<Rightarrow> block_state option \<Rightarrow> (overlay_state, unit) core_prog" where
  "overlay_set_block_state p st =
     sbind (overlay_ensure_chunk (block_chunk_pos p)) (\<lambda>_.
     sbind (sget (\<lambda>t. map_of (ov_chunks (os_overlay t)) (block_chunk_pos p))) (\<lambda>entry.
       case entry of
         None \<Rightarrow> sfail MissingChunkPanic
       | Some chunk \<Rightarrow> smod (upd_overlay (ov_chunks_update (bt_insert (block_chunk_pos p)
           (column_set_block (local_block_x p) (bp_y p) (local_block_z p) st chunk))))))"

abbreviation (input) session_borrow :: "player_id \<Rightarrow> (overlay_state, player_session_state option) core_prog" where
  "session_borrow \<equiv> overlay_borrow ov_player_sessions ov_player_sessions_update (\<lambda>c. ss_player_sessions (sc_sessions c))"

abbreviation (input) inventory_borrow :: "entity_id \<Rightarrow> (overlay_state, player_inventory option) core_prog" where
  "inventory_borrow \<equiv> overlay_borrow ov_player_inventory ov_player_inventory_update (\<lambda>c. es_player_inventory (sc_entities c))"

definition overlay_player_session_inventory_mut ::
  "player_id \<Rightarrow> (overlay_state, (player_session_state \<times> entity_id \<times> player_inventory) option) core_prog" where
  "overlay_player_session_inventory_mut p =
     sbind (sget (\<lambda>t. overlay_entry (ov_players_by_player_id (os_overlay t))
                        (es_players_by_player_id (sc_entities (os_base t))) p)) (\<lambda>entity.
     case entity of
       None \<Rightarrow> sret None
     | Some e \<Rightarrow>
         sbind (sget (\<lambda>t. map_of (ov_player_sessions (os_overlay t)) p = None \<and>
                          map_of (ss_player_sessions (sc_sessions (os_base t))) p = None)) (\<lambda>absent.
         if absent then sret None
         else
           sbind (session_borrow p) (\<lambda>session.
           sbind (inventory_borrow e) (\<lambda>inventory.
             sret (case (session, inventory) of (Some s, Some i) \<Rightarrow> Some (s, e, i) | _ \<Rightarrow> None)))))"

definition overlay_next_entity_id :: "overlay_state \<Rightarrow> int" where
  "overlay_next_entity_id t =
     (case ov_next_entity_id (os_overlay t) of Some n \<Rightarrow> n | None \<Rightarrow> es_next_entity_id (sc_entities (os_base t)))"

definition overlay_next_keep_alive_id :: "overlay_state \<Rightarrow> int" where
  "overlay_next_keep_alive_id t =
     (case ov_next_keep_alive_id (os_overlay t) of Some n \<Rightarrow> n | None \<Rightarrow> ss_next_keep_alive_id (sc_sessions (os_base t)))"

definition overlay_allocate_entity_id :: "(overlay_state, entity_id) core_prog" where
  "overlay_allocate_entity_id t =
     (let n = overlay_next_entity_id t in
      (Inr n, upd_overlay (ov_next_entity_id_update (\<lambda>_. Some (i32_saturating_succ n))) t))"

definition overlay_allocate_keep_alive_id :: "(overlay_state, int) core_prog" where
  "overlay_allocate_keep_alive_id t =
     (let n = overlay_next_keep_alive_id t in
      (Inr n, upd_overlay (ov_next_keep_alive_id_update (\<lambda>_. Some (i32_saturating_succ n))) t))"

definition overlay_claim_entity_id :: "entity_id \<Rightarrow> overlay_state \<Rightarrow> overlay_state" where
  "overlay_claim_entity_id e t =
     (case ov_next_entity_id (os_overlay t) of
        Some n \<Rightarrow> upd_overlay (ov_next_entity_id_update (\<lambda>_. Some (max n (i32_saturating_succ e)))) t
      | None \<Rightarrow>
          if es_next_entity_id (sc_entities (os_base t)) \<le> e
          then upd_overlay (ov_next_entity_id_update (\<lambda>_. Some (i32_saturating_succ e))) t else t)"

definition overlay_insert_player ::
  "player_snapshot \<Rightarrow> u64 \<Rightarrow> entity_id \<Rightarrow> client_view \<Rightarrow> overlay_state \<Rightarrow> overlay_state" where
  "overlay_insert_player player now_ms e view t =
     upd_overlay (\<lambda>ov. ov\<lparr>
       ov_entity_kinds := bt_insert e (Some PlayerEntity) (ov_entity_kinds ov),
       ov_players_by_player_id := bt_insert (ps_id player) (Some e) (ov_players_by_player_id ov),
       ov_player_identity := bt_insert e (Some (snapshot_identity player)) (ov_player_identity ov),
       ov_player_transform := bt_insert e (Some (snapshot_transform player)) (ov_player_transform ov),
       ov_player_vitals := bt_insert e (Some (snapshot_vitals player)) (ov_player_vitals ov),
       ov_player_inventory := bt_insert e (Some (ps_inventory player)) (ov_player_inventory ov),
       ov_player_selected_hotbar := bt_insert e (Some (ps_selected_hotbar_slot player)) (ov_player_selected_hotbar ov),
       ov_player_active_mining := bt_insert e None (ov_player_active_mining ov),
       ov_player_sessions := bt_insert (ps_id player)
         (Some (new_session e view now_ms (ss_keepalive_interval_ms (sc_sessions (os_base t))))) (ov_player_sessions ov)\<rparr>) t"

definition overlay_spawn_online_player ::
  "player_snapshot \<Rightarrow> u64 \<Rightarrow> entity_id option \<Rightarrow> (overlay_state, entity_id) core_prog" where
  "overlay_spawn_online_player player now_ms expected_entity_id =
     sbind (case expected_entity_id of Some e \<Rightarrow> sret e | None \<Rightarrow> overlay_allocate_entity_id) (\<lambda>e.
     sbind (smod (overlay_claim_entity_id e)) (\<lambda>_.
     sbind (chunk_of (ps_position player)) (\<lambda>center.
     sbind (sget (\<lambda>t. client_view_new center (cfg_view_distance (ws_config (sc_world (os_base t)))))) (\<lambda>view.
     sbind (smod (overlay_insert_player player now_ms e view)) (\<lambda>_.
     sret e)))))"

definition overlay_remove_online_player :: "player_id \<Rightarrow> (overlay_state, player_session_state option) core_prog" where
  "overlay_remove_online_player p t =
     (case overlay_entry (ov_player_sessions (os_overlay t)) (ss_player_sessions (sc_sessions (os_base t))) p of
        None \<Rightarrow> (Inr None, t)
      | Some session \<Rightarrow>
          let e = se_entity_id session in
          (Inr (Some session),
           upd_overlay (\<lambda>ov. ov\<lparr>
             ov_player_sessions := bt_insert p None (ov_player_sessions ov),
             ov_players_by_player_id := bt_insert p None (ov_players_by_player_id ov),
             ov_entity_kinds := bt_insert e None (ov_entity_kinds ov),
             ov_player_identity := bt_insert e None (ov_player_identity ov),
             ov_player_transform := bt_insert e None (ov_player_transform ov),
             ov_player_vitals := bt_insert e None (ov_player_vitals ov),
             ov_player_inventory := bt_insert e None (ov_player_inventory ov),
             ov_player_selected_hotbar := bt_insert e None (ov_player_selected_hotbar ov),
             ov_player_active_mining := bt_insert e None (ov_player_active_mining ov)\<rparr>) t))"

definition overlay_backend :: "overlay_state core_backend" where
  "overlay_backend = \<lparr>
     b_content_behavior = sget (\<lambda>t. sc_content_behavior (os_base t)),
     b_config = sget (\<lambda>t. ws_config (sc_world (os_base t))),
     b_world_meta = sget (\<lambda>t. ws_world_meta (sc_world (os_base t))),
     b_block_state = (\<lambda>p. sget (\<lambda>t. overlay_block_state t p)),
     b_block_entity = (\<lambda>p. sget (\<lambda>t. overlay_entry (ov_block_entities (os_overlay t)) (ws_block_entities (sc_world (os_base t))) p)),
     b_saved_player = (\<lambda>p. sget (\<lambda>t. overlay_entry (ov_saved_players (os_overlay t)) (ws_saved_players (sc_world (os_base t))) p)),
     b_player_entity_id = (\<lambda>p. sget (\<lambda>t. overlay_entry (ov_players_by_player_id (os_overlay t)) (es_players_by_player_id (sc_entities (os_base t))) p)),
     b_player_session = (\<lambda>p. sget (\<lambda>t. overlay_entry (ov_player_sessions (os_overlay t)) (ss_player_sessions (sc_sessions (os_base t))) p)),
     b_player_identity_by_entity = (\<lambda>e. sget (\<lambda>t. overlay_entry (ov_player_identity (os_overlay t)) (es_player_identity (sc_entities (os_base t))) e)),
     b_player_transform_by_entity = (\<lambda>e. sget (\<lambda>t. overlay_entry (ov_player_transform (os_overlay t)) (es_player_transform (sc_entities (os_base t))) e)),
     b_player_vitals_by_entity = (\<lambda>e. sget (\<lambda>t. overlay_entry (ov_player_vitals (os_overlay t)) (es_player_vitals (sc_entities (os_base t))) e)),
     b_player_inventory_by_entity = (\<lambda>e. sget (\<lambda>t. overlay_entry (ov_player_inventory (os_overlay t)) (es_player_inventory (sc_entities (os_base t))) e)),
     b_player_selected_hotbar_by_entity = (\<lambda>e. sget (\<lambda>t. overlay_entry (ov_player_selected_hotbar (os_overlay t)) (es_player_selected_hotbar (sc_entities (os_base t))) e)),
     b_player_active_mining_by_entity = (\<lambda>e. sget (\<lambda>t. overlay_entry (ov_player_active_mining (os_overlay t)) (es_player_active_mining (sc_entities (os_base t))) e)),
     b_dropped_item_by_entity = (\<lambda>e. sget (\<lambda>t. overlay_entry (ov_dropped_items (os_overlay t)) (es_dropped_items (sc_entities (os_base t))) e)),
     b_player_ids = sget (\<lambda>t. overlay_keys (ov_player_sessions (os_overlay t)) (ss_player_sessions (sc_sessions (os_base t)))),
     b_player_entity_ids = sget (\<lambda>t. overlay_player_entity_ids (ov_players_by_player_id (os_overlay t))
       (es_players_by_player_id (sc_entities (os_base t)))),
     b_dropped_item_ids = sget (\<lambda>t. overlay_keys (ov_dropped_items (os_overlay t)) (es_dropped_items (sc_entities (os_base t)))),
     b_container_viewers = (\<lambda>p. sget (\<lambda>t. overlay_entry (ov_container_viewers (os_overlay t)) (ws_container_viewers (sc_world (os_base t))) p)),
     b_keepalive_interval_ms = sget (\<lambda>t. ss_keepalive_interval_ms (sc_sessions (os_base t))),
     b_ensure_chunk = overlay_ensure_chunk,
     b_set_block_state = overlay_set_block_state,
     b_set_block_entity = (\<lambda>p v. smod (upd_overlay (ov_block_entities_update (bt_insert p v)))),
     b_player_session_mut = overlay_borrow ov_player_sessions ov_player_sessions_update (\<lambda>c. ss_player_sessions (sc_sessions c)),
     b_write_player_session = (\<lambda>p v. smod (upd_overlay (ov_player_sessions_update (bt_insert p (Some v))))),
     b_player_session_inventory_mut = overlay_player_session_inventory_mut,
     b_player_transform_mut = overlay_borrow ov_player_transform ov_player_transform_update (\<lambda>c. es_player_transform (sc_entities c)),
     b_write_player_transform = (\<lambda>e v. smod (upd_overlay (ov_player_transform_update (bt_insert e (Some v))))),
     b_player_inventory_mut = overlay_borrow ov_player_inventory ov_player_inventory_update (\<lambda>c. es_player_inventory (sc_entities c)),
     b_write_player_inventory = (\<lambda>e v. smod (upd_overlay (ov_player_inventory_update (bt_insert e (Some v))))),
     b_player_selected_hotbar_mut = overlay_borrow ov_player_selected_hotbar ov_player_selected_hotbar_update (\<lambda>c. es_player_selected_hotbar (sc_entities c)),
     b_write_player_selected_hotbar = (\<lambda>e v. smod (upd_overlay (ov_player_selected_hotbar_update (bt_insert e (Some v))))),
     b_player_active_mining_mut = overlay_borrow ov_player_active_mining ov_player_active_mining_update (\<lambda>c. es_player_active_mining (sc_entities c)),
     b_write_player_active_mining = (\<lambda>e v. smod (upd_overlay (ov_player_active_mining_update (bt_insert e (Some v))))),
     b_remove_player_active_mining = (\<lambda>e. sbind (sget (\<lambda>t. overlay_entry (ov_player_active_mining (os_overlay t)) (es_player_active_mining (sc_entities (os_base t))) e)) (\<lambda>v.
       case v of None \<Rightarrow> sret None
       | Some x \<Rightarrow> sbind (smod (upd_overlay (ov_player_active_mining_update (bt_insert e None)))) (\<lambda>_. sret (Some x)))),
     b_set_player_active_mining = (\<lambda>e v. smod (upd_overlay (ov_player_active_mining_update (bt_insert e v)))),
     b_allocate_entity_id = overlay_allocate_entity_id,
     b_allocate_keep_alive_id = overlay_allocate_keep_alive_id,
     b_set_entity_kind = (\<lambda>e v. smod (upd_overlay (ov_entity_kinds_update (bt_insert e v)))),
     b_set_dropped_item = (\<lambda>e v. smod (upd_overlay (ov_dropped_items_update (bt_insert e v)))),
     b_take_dropped_item = (\<lambda>e. sbind (sget (\<lambda>t. overlay_entry (ov_dropped_items (os_overlay t)) (es_dropped_items (sc_entities (os_base t))) e)) (\<lambda>v.
       case v of None \<Rightarrow> sret None
       | Some x \<Rightarrow> sbind (smod (upd_overlay (ov_dropped_items_update (bt_insert e None)))) (\<lambda>_. sret (Some x)))),
     b_set_saved_player = (\<lambda>p v. smod (upd_overlay (ov_saved_players_update (bt_insert p v)))),
     b_set_container_viewers = (\<lambda>p v. smod (upd_overlay (ov_container_viewers_update (bt_insert p v)))),
     b_spawn_online_player = overlay_spawn_online_player,
     b_remove_online_player = overlay_remove_online_player\<rparr>"

section \<open>The two backends agree\<close>

text \<open>An overlay map over a base map stands for a map.\<close>

definition ov_rel :: "('k::linorder, 'v option) btree_map \<Rightarrow> ('k, 'v) btree_map \<Rightarrow> ('k, 'v) btree_map \<Rightarrow> bool" where
  "ov_rel ov base m \<longleftrightarrow> bt_ok ov \<and> bt_ok base \<and> bt_ok m \<and> map_of m = overlay_entry ov base"

definition chunks_rel :: "overlay_state \<Rightarrow> server_core \<Rightarrow> bool" where
  "chunks_rel t c \<longleftrightarrow>
     bt_ok (ov_chunks (os_overlay t)) \<and> bt_ok (ws_chunks (sc_world (os_base t))) \<and> bt_ok (ws_chunks (sc_world c)) \<and>
     map_of (ws_chunks (sc_world c)) = map_of (ws_chunks (sc_world (os_base t))) ++ map_of (ov_chunks (os_overlay t))"

text \<open>The entity ids an overlay gives to players are new, and the base gives one to at most one player.\<close>

definition players_rel :: "(player_id, entity_id option) btree_map \<Rightarrow> (player_id, entity_id) btree_map \<Rightarrow> bool" where
  "players_rel ov base \<longleftrightarrow>
     inj_on (map_of base) (dom (map_of base)) \<and>
     (\<forall>p e. map_of ov p = Some (Some e) \<longrightarrow> map_of base p = None \<and> e \<notin> ran (map_of base))"

definition overlay_rel :: "overlay_state \<Rightarrow> server_core \<Rightarrow> bool" where
  "overlay_rel t c \<longleftrightarrow>
     sc_content_behavior c = sc_content_behavior (os_base t) \<and>
     ws_config (sc_world c) = ws_config (sc_world (os_base t)) \<and>
     ws_world_meta (sc_world c) = ws_world_meta (sc_world (os_base t)) \<and>
     ss_keepalive_interval_ms (sc_sessions c) = ss_keepalive_interval_ms (sc_sessions (os_base t)) \<and>
     es_next_entity_id (sc_entities c) = overlay_next_entity_id t \<and>
     ss_next_keep_alive_id (sc_sessions c) = overlay_next_keep_alive_id t \<and>
     chunks_rel t c \<and>
     players_rel (ov_players_by_player_id (os_overlay t)) (es_players_by_player_id (sc_entities (os_base t))) \<and>
     ov_rel (ov_block_entities (os_overlay t)) (ws_block_entities (sc_world (os_base t))) (ws_block_entities (sc_world c)) \<and>
     ov_rel (ov_container_viewers (os_overlay t)) (ws_container_viewers (sc_world (os_base t))) (ws_container_viewers (sc_world c)) \<and>
     ov_rel (ov_saved_players (os_overlay t)) (ws_saved_players (sc_world (os_base t))) (ws_saved_players (sc_world c)) \<and>
     ov_rel (ov_players_by_player_id (os_overlay t)) (es_players_by_player_id (sc_entities (os_base t))) (es_players_by_player_id (sc_entities c)) \<and>
     ov_rel (ov_entity_kinds (os_overlay t)) (es_entity_kinds (sc_entities (os_base t))) (es_entity_kinds (sc_entities c)) \<and>
     ov_rel (ov_player_identity (os_overlay t)) (es_player_identity (sc_entities (os_base t))) (es_player_identity (sc_entities c)) \<and>
     ov_rel (ov_player_transform (os_overlay t)) (es_player_transform (sc_entities (os_base t))) (es_player_transform (sc_entities c)) \<and>
     ov_rel (ov_player_vitals (os_overlay t)) (es_player_vitals (sc_entities (os_base t))) (es_player_vitals (sc_entities c)) \<and>
     ov_rel (ov_player_inventory (os_overlay t)) (es_player_inventory (sc_entities (os_base t))) (es_player_inventory (sc_entities c)) \<and>
     ov_rel (ov_player_selected_hotbar (os_overlay t)) (es_player_selected_hotbar (sc_entities (os_base t))) (es_player_selected_hotbar (sc_entities c)) \<and>
     ov_rel (ov_player_active_mining (os_overlay t)) (es_player_active_mining (sc_entities (os_base t))) (es_player_active_mining (sc_entities c)) \<and>
     ov_rel (ov_dropped_items (os_overlay t)) (es_dropped_items (sc_entities (os_base t))) (es_dropped_items (sc_entities c)) \<and>
     ov_rel (ov_player_sessions (os_overlay t)) (ss_player_sessions (sc_sessions (os_base t))) (ss_player_sessions (sc_sessions c))"

lemma ov_rel_put:
  "ov_rel ov base m \<Longrightarrow> ov_rel (bt_insert key v ov) base (apply_optional_entry key v m)"
  by (cases v) (auto simp: ov_rel_def apply_optional_entry_def overlay_entry_def fun_eq_iff)

lemma ov_rel_insert: "ov_rel ov base m \<Longrightarrow> ov_rel (bt_insert key (Some v) ov) base (bt_insert key v m)"
  using ov_rel_put [of ov base m key "Some v"] by (simp add: apply_optional_entry_def)

lemma ov_rel_remove: "ov_rel ov base m \<Longrightarrow> ov_rel (bt_insert key None ov) base (bt_remove key m)"
  using ov_rel_put [of ov base m key None] by (simp add: apply_optional_entry_def)

lemma ov_rel_copy:
  "ov_rel ov base m \<Longrightarrow> map_of ov key = None \<Longrightarrow> map_of base key = Some v \<Longrightarrow> ov_rel (bt_insert key (Some v) ov) base m"
  by (auto simp: ov_rel_def overlay_entry_def fun_eq_iff)

lemma ov_rel_lookup: "ov_rel ov base m \<Longrightarrow> overlay_entry ov base key = map_of m key"
  by (simp add: ov_rel_def)

lemma bt_remove_absent: "map_of m key = None \<Longrightarrow> bt_remove key m = m"
  by (auto simp: bt_remove_def filter_id_conv map_of_eq_None_iff)

lemma ov_rel_empty: "bt_ok m \<Longrightarrow> ov_rel [] m m"
  by (simp add: ov_rel_def overlay_entry_def fun_eq_iff)

lemma fold_overlay_keys:
  "distinct (map fst ov) \<Longrightarrow>
   fold (\<lambda>(key, entry) S. case entry of Some _ \<Rightarrow> insert key S | None \<Rightarrow> S - {key}) ov S =
     {key. case map_of ov key of Some entry \<Rightarrow> entry \<noteq> None | None \<Rightarrow> key \<in> S}"
proof (induction ov arbitrary: S)
  case (Cons x ov)
  obtain key entry where x: "x = (key, entry)" by (cases x)
  then have "map_of ov key = None" using Cons.prems by (simp add: map_of_eq_None_iff)
  then show ?case
    using Cons.IH Cons.prems by (auto simp: x split: option.splits if_splits)
qed simp

lemma ov_rel_keys: "ov_rel ov base m \<Longrightarrow> overlay_keys ov base = map fst m"
proof -
  assume rel: "ov_rel ov base m"
  then have ok: "bt_ok ov" "bt_ok base" "bt_ok m" and look: "map_of m = overlay_entry ov base"
    by (auto simp: ov_rel_def)
  have "{key. case map_of ov key of Some entry \<Rightarrow> entry \<noteq> None | None \<Rightarrow> key \<in> fst ` set base} = dom (map_of m)"
    unfolding look by (auto simp: overlay_entry_def dom_def dom_map_of_conv_image_fst [symmetric] split: option.splits)
  then show ?thesis
    unfolding overlay_keys_def fold_overlay_keys [OF bt_ok_distinct [OF ok(1)]] bt_ok_keys [OF ok(3)] by simp
qed

lemma fold_overlay_ids:
  assumes "\<And>p e. (p, Some e) \<in> set ov \<Longrightarrow> e \<notin> ran base"
  shows "fold (\<lambda>(p, entry) S. case entry of
             Some e \<Rightarrow> insert e S
           | None \<Rightarrow> (case base p of Some e \<Rightarrow> S - {e} | None \<Rightarrow> S)) ov S =
         {e. (\<exists>p. (p, Some e) \<in> set ov) \<or> (e \<in> S \<and> (\<forall>p. (p, None) \<in> set ov \<longrightarrow> base p \<noteq> Some e))}"
  using assms
proof (induction ov arbitrary: S)
  case (Cons x ov)
  obtain p entry where x: "x = (p, entry)" by (cases x)
  have fresh: "e \<notin> ran base" if "(q, Some e) \<in> set (x # ov)" for q e
    using Cons.prems that by blast
  have IH: "fold (\<lambda>(p, entry) S. case entry of
             Some e \<Rightarrow> insert e S
           | None \<Rightarrow> (case base p of Some e \<Rightarrow> S - {e} | None \<Rightarrow> S)) ov S' =
         {e. (\<exists>p. (p, Some e) \<in> set ov) \<or> (e \<in> S' \<and> (\<forall>p. (p, None) \<in> set ov \<longrightarrow> base p \<noteq> Some e))}" for S'
    using Cons.IH fresh by (meson list.set_intros(2))
  show ?case
  proof (cases entry)
    case (Some e)
    then have "e \<notin> ran base" using fresh [of p e] x by simp
    with Some show ?thesis by (auto simp: x IH ran_def)
  next
    case None
    then show ?thesis
      using fresh by (cases "base p") (auto simp: x IH ran_def)
  qed
qed simp

lemma overlay_player_entity_ids_eq:
  assumes "ov_rel ov base m" and "players_rel ov base"
  shows "overlay_player_entity_ids ov base = sorted_list_of_set (snd ` set m)"
proof -
  have ok: "bt_ok ov" "bt_ok base" "bt_ok m" and look: "map_of m = overlay_entry ov base"
    using assms(1) by (auto simp: ov_rel_def)
  have ran: "snd ` set m' = ran (map_of m')" if "bt_ok m'" for m' :: "(player_id, entity_id) btree_map"
    using bt_ok_distinct [OF that] by (metis ran_distinct)
  have mem: "(p, entry) \<in> set ov \<longleftrightarrow> map_of ov p = Some entry" for p entry
    using bt_ok_distinct [OF ok(1)] by simp
  have inj: "map_of base p = Some e \<Longrightarrow> map_of base q = Some e \<Longrightarrow> p = q" for p q e
    using assms(2) unfolding players_rel_def by (metis domI inj_onD)
  have fresh: "map_of ov p = Some (Some e) \<Longrightarrow> map_of base p = None \<and> e \<notin> ran (map_of base)" for p e
    using assms(2) by (auto simp: players_rel_def)
  have "(\<exists>p. map_of ov p = Some (Some e)) \<or>
      (e \<in> ran (map_of base) \<and> (\<forall>p. map_of ov p = Some None \<longrightarrow> map_of base p \<noteq> Some e)) \<longleftrightarrow>
      e \<in> ran (map_of m)" (is "?L \<longleftrightarrow> _") for e
  proof
    assume ?L
    then show "e \<in> ran (map_of m)"
    proof
      assume "\<exists>p. map_of ov p = Some (Some e)"
      then obtain p where "map_of ov p = Some (Some e)" by blast
      then have "map_of m p = Some e" by (simp add: look overlay_entry_def)
      then show ?thesis by (rule ranI)
    next
      assume removed: "e \<in> ran (map_of base) \<and> (\<forall>p. map_of ov p = Some None \<longrightarrow> map_of base p \<noteq> Some e)"
      then obtain p where p: "map_of base p = Some e" by (auto simp: ran_def)
      then have "map_of ov p = None" using removed fresh by (cases "map_of ov p"; cases "the (map_of ov p)") auto
      then have "map_of m p = Some e" using p by (simp add: look overlay_entry_def)
      then show ?thesis by (rule ranI)
    qed
  next
    assume "e \<in> ran (map_of m)"
    then obtain p where p: "overlay_entry ov base p = Some e" by (auto simp: ran_def look)
    show ?L
    proof (cases "map_of ov p")
      case None
      then have base: "map_of base p = Some e" using p by (simp add: overlay_entry_def)
      then have "map_of base q \<noteq> Some e" if "map_of ov q = Some None" for q
        using inj [of p e q] None that by auto
      with base show ?thesis by (auto intro: ranI)
    next
      case (Some entry)
      with p show ?thesis by (auto simp: overlay_entry_def)
    qed
  qed
  then have "{e. (\<exists>p. (p, Some e) \<in> set ov) \<or>
      (e \<in> snd ` set base \<and> (\<forall>p. (p, None) \<in> set ov \<longrightarrow> map_of base p \<noteq> Some e))} = snd ` set m"
    unfolding mem ran [OF ok(2)] ran [OF ok(3)] by blast
  then show ?thesis
    unfolding overlay_player_entity_ids_def using fold_overlay_ids [of ov "map_of base" "snd ` set base"] fresh mem
    by simp
qed

text \<open>
  What gameplay code needs of two backends for a run on one to tell what a run on the other does: every
  method of the traits simulates its counterpart. A player may be spawned only in a state where the
  identity is free (\<open>spawnable\<close>).
\<close>

locale backend_simulation =
  fixes R :: "'t \<Rightarrow> 's \<Rightarrow> bool"
    and B :: "'t core_backend"
    and C :: "'s core_backend"
    and spawnable :: "'t \<Rightarrow> player_snapshot \<Rightarrow> entity_id \<Rightarrow> bool"
  assumes sim_content_behavior [sim_intros]: "sim R (b_content_behavior B) (b_content_behavior C)"
    and sim_config [sim_intros]: "sim R (b_config B) (b_config C)"
    and sim_world_meta [sim_intros]: "sim R (b_world_meta B) (b_world_meta C)"
    and sim_block_state [sim_intros]: "\<And>p. sim R (b_block_state B p) (b_block_state C p)"
    and sim_block_entity [sim_intros]: "\<And>p. sim R (b_block_entity B p) (b_block_entity C p)"
    and sim_saved_player [sim_intros]: "\<And>p. sim R (b_saved_player B p) (b_saved_player C p)"
    and sim_player_entity_id [sim_intros]: "\<And>p. sim R (b_player_entity_id B p) (b_player_entity_id C p)"
    and sim_player_session [sim_intros]: "\<And>p. sim R (b_player_session B p) (b_player_session C p)"
    and sim_player_identity_by_entity [sim_intros]: "\<And>e. sim R (b_player_identity_by_entity B e) (b_player_identity_by_entity C e)"
    and sim_player_transform_by_entity [sim_intros]: "\<And>e. sim R (b_player_transform_by_entity B e) (b_player_transform_by_entity C e)"
    and sim_player_vitals_by_entity [sim_intros]: "\<And>e. sim R (b_player_vitals_by_entity B e) (b_player_vitals_by_entity C e)"
    and sim_player_inventory_by_entity [sim_intros]: "\<And>e. sim R (b_player_inventory_by_entity B e) (b_player_inventory_by_entity C e)"
    and sim_player_selected_hotbar_by_entity [sim_intros]: "\<And>e. sim R (b_player_selected_hotbar_by_entity B e) (b_player_selected_hotbar_by_entity C e)"
    and sim_player_active_mining_by_entity [sim_intros]: "\<And>e. sim R (b_player_active_mining_by_entity B e) (b_player_active_mining_by_entity C e)"
    and sim_dropped_item_by_entity [sim_intros]: "\<And>e. sim R (b_dropped_item_by_entity B e) (b_dropped_item_by_entity C e)"
    and sim_player_ids [sim_intros]: "sim R (b_player_ids B) (b_player_ids C)"
    and sim_player_entity_ids [sim_intros]: "sim R (b_player_entity_ids B) (b_player_entity_ids C)"
    and sim_dropped_item_ids [sim_intros]: "sim R (b_dropped_item_ids B) (b_dropped_item_ids C)"
    and sim_container_viewers [sim_intros]: "\<And>p. sim R (b_container_viewers B p) (b_container_viewers C p)"
    and sim_keepalive_interval_ms [sim_intros]: "sim R (b_keepalive_interval_ms B) (b_keepalive_interval_ms C)"
    and sim_ensure_chunk [sim_intros]: "\<And>cp. sim R (b_ensure_chunk B cp) (b_ensure_chunk C cp)"
    and sim_set_block_state [sim_intros]: "\<And>p v. sim R (b_set_block_state B p v) (b_set_block_state C p v)"
    and sim_set_block_entity [sim_intros]: "\<And>p v. sim R (b_set_block_entity B p v) (b_set_block_entity C p v)"
    and sim_player_session_mut [sim_intros]: "\<And>p. sim R (b_player_session_mut B p) (b_player_session_mut C p)"
    and sim_write_player_session [sim_intros]: "\<And>p v. sim R (b_write_player_session B p v) (b_write_player_session C p v)"
    and sim_player_session_inventory_mut [sim_intros]: "\<And>p. sim R (b_player_session_inventory_mut B p) (b_player_session_inventory_mut C p)"
    and sim_player_transform_mut [sim_intros]: "\<And>e. sim R (b_player_transform_mut B e) (b_player_transform_mut C e)"
    and sim_write_player_transform [sim_intros]: "\<And>e v. sim R (b_write_player_transform B e v) (b_write_player_transform C e v)"
    and sim_player_inventory_mut [sim_intros]: "\<And>e. sim R (b_player_inventory_mut B e) (b_player_inventory_mut C e)"
    and sim_write_player_inventory [sim_intros]: "\<And>e v. sim R (b_write_player_inventory B e v) (b_write_player_inventory C e v)"
    and sim_player_selected_hotbar_mut [sim_intros]: "\<And>e. sim R (b_player_selected_hotbar_mut B e) (b_player_selected_hotbar_mut C e)"
    and sim_write_player_selected_hotbar [sim_intros]: "\<And>e v. sim R (b_write_player_selected_hotbar B e v) (b_write_player_selected_hotbar C e v)"
    and sim_player_active_mining_mut [sim_intros]: "\<And>e. sim R (b_player_active_mining_mut B e) (b_player_active_mining_mut C e)"
    and sim_write_player_active_mining [sim_intros]: "\<And>e v. sim R (b_write_player_active_mining B e v) (b_write_player_active_mining C e v)"
    and sim_remove_player_active_mining [sim_intros]: "\<And>e. sim R (b_remove_player_active_mining B e) (b_remove_player_active_mining C e)"
    and sim_set_player_active_mining [sim_intros]: "\<And>e v. sim R (b_set_player_active_mining B e v) (b_set_player_active_mining C e v)"
    and sim_allocate_entity_id [sim_intros]: "sim R (b_allocate_entity_id B) (b_allocate_entity_id C)"
    and sim_allocate_keep_alive_id [sim_intros]: "sim R (b_allocate_keep_alive_id B) (b_allocate_keep_alive_id C)"
    and sim_set_entity_kind [sim_intros]: "\<And>e v. sim R (b_set_entity_kind B e v) (b_set_entity_kind C e v)"
    and sim_set_dropped_item [sim_intros]: "\<And>e v. sim R (b_set_dropped_item B e v) (b_set_dropped_item C e v)"
    and sim_take_dropped_item [sim_intros]: "\<And>e. sim R (b_take_dropped_item B e) (b_take_dropped_item C e)"
    and sim_set_saved_player [sim_intros]: "\<And>p v. sim R (b_set_saved_player B p v) (b_set_saved_player C p v)"
    and sim_set_container_viewers [sim_intros]: "\<And>p v. sim R (b_set_container_viewers B p v) (b_set_container_viewers C p v)"
    and sim_remove_online_player [sim_intros]: "\<And>p. sim R (b_remove_online_player B p) (b_remove_online_player C p)"
    and sim_spawn_online_player: "R t s \<Longrightarrow> spawnable t player e \<Longrightarrow>
      fst (b_spawn_online_player B player now_ms (Some e) t) = fst (b_spawn_online_player C player now_ms (Some e) s) \<and>
      R (snd (b_spawn_online_player B player now_ms (Some e) t)) (snd (b_spawn_online_player C player now_ms (Some e) s))"

text \<open>The operations of the overlay, one kind at a time.\<close>

lemma sim_borrow:
  assumes "\<And>t c. overlay_rel t c \<Longrightarrow> ov_rel (get (os_overlay t)) (base (os_base t)) (base c)"
    and "\<And>t c v. overlay_rel t c \<Longrightarrow> map_of (get (os_overlay t)) key = None \<Longrightarrow> map_of (base (os_base t)) key = Some v \<Longrightarrow>
      overlay_rel (upd_overlay (upd (bt_insert key (Some v))) t) c"
  shows "sim overlay_rel (overlay_borrow get upd base key) (sget (\<lambda>c. map_of (base c) key))"
  unfolding sim_def
proof (intro allI impI)
  fix t c assume rel: "overlay_rel t c"
  have look: "map_of (base c) key = overlay_entry (get (os_overlay t)) (base (os_base t)) key"
    using assms(1) [OF rel] by (simp add: ov_rel_def)
  show "fst (overlay_borrow get upd base key t) = fst (sget (\<lambda>c. map_of (base c) key) c) \<and>
      overlay_rel (snd (overlay_borrow get upd base key t)) (snd (sget (\<lambda>c. map_of (base c) key) c))"
    using rel assms(2) [OF rel]
    by (auto simp: overlay_borrow_def sget_def look overlay_entry_def split: option.splits)
qed

lemma overlay_next_ids [simp]:
  "ov_next_entity_id ov = ov_next_entity_id (os_overlay t) \<Longrightarrow>
     overlay_next_entity_id (t\<lparr>os_overlay := ov\<rparr>) = overlay_next_entity_id t"
  "ov_next_keep_alive_id ov = ov_next_keep_alive_id (os_overlay t) \<Longrightarrow>
     overlay_next_keep_alive_id (t\<lparr>os_overlay := ov\<rparr>) = overlay_next_keep_alive_id t"
  by (simp_all add: overlay_next_entity_id_def overlay_next_keep_alive_id_def split: option.split)

lemma chunks_rel_other [simp]:
  "ws_chunks w = ws_chunks (sc_world c) \<Longrightarrow> chunks_rel t (c\<lparr>sc_world := w\<rparr>) = chunks_rel t c"
  "chunks_rel t (c\<lparr>sc_entities := es\<rparr>) = chunks_rel t c"
  "chunks_rel t (c\<lparr>sc_sessions := ss\<rparr>) = chunks_rel t c"
  "ov_chunks ov = ov_chunks (os_overlay t) \<Longrightarrow> chunks_rel (t\<lparr>os_overlay := ov\<rparr>) c = chunks_rel t c"
  by (simp_all add: chunks_rel_def)

lemmas ov_rel_intros = ov_rel_put ov_rel_insert ov_rel_remove ov_rel_copy

lemmas backend_defs = overlay_backend_def base_backend_def

lemma sim_overlay_reads:
  "sim overlay_rel (b_content_behavior overlay_backend) (b_content_behavior base_backend)"
  "sim overlay_rel (b_config overlay_backend) (b_config base_backend)"
  "sim overlay_rel (b_world_meta overlay_backend) (b_world_meta base_backend)"
  "sim overlay_rel (b_block_entity overlay_backend p) (b_block_entity base_backend p)"
  "sim overlay_rel (b_saved_player overlay_backend q) (b_saved_player base_backend q)"
  "sim overlay_rel (b_player_entity_id overlay_backend q) (b_player_entity_id base_backend q)"
  "sim overlay_rel (b_player_session overlay_backend q) (b_player_session base_backend q)"
  "sim overlay_rel (b_player_identity_by_entity overlay_backend e) (b_player_identity_by_entity base_backend e)"
  "sim overlay_rel (b_player_transform_by_entity overlay_backend e) (b_player_transform_by_entity base_backend e)"
  "sim overlay_rel (b_player_vitals_by_entity overlay_backend e) (b_player_vitals_by_entity base_backend e)"
  "sim overlay_rel (b_player_inventory_by_entity overlay_backend e) (b_player_inventory_by_entity base_backend e)"
  "sim overlay_rel (b_player_selected_hotbar_by_entity overlay_backend e) (b_player_selected_hotbar_by_entity base_backend e)"
  "sim overlay_rel (b_player_active_mining_by_entity overlay_backend e) (b_player_active_mining_by_entity base_backend e)"
  "sim overlay_rel (b_dropped_item_by_entity overlay_backend e) (b_dropped_item_by_entity base_backend e)"
  "sim overlay_rel (b_player_ids overlay_backend) (b_player_ids base_backend)"
  "sim overlay_rel (b_player_entity_ids overlay_backend) (b_player_entity_ids base_backend)"
  "sim overlay_rel (b_dropped_item_ids overlay_backend) (b_dropped_item_ids base_backend)"
  "sim overlay_rel (b_container_viewers overlay_backend p) (b_container_viewers base_backend p)"
  "sim overlay_rel (b_keepalive_interval_ms overlay_backend) (b_keepalive_interval_ms base_backend)"
  unfolding backend_defs
  by (auto intro!: sim_sget overlay_player_entity_ids_eq
      simp: overlay_rel_def block_entity_at_def ov_rel_lookup ov_rel_keys)

lemma sim_overlay_writes:
  "sim overlay_rel (b_set_block_entity overlay_backend p v1) (b_set_block_entity base_backend p v1)"
  "sim overlay_rel (b_write_player_session overlay_backend q v2) (b_write_player_session base_backend q v2)"
  "sim overlay_rel (b_write_player_transform overlay_backend e v3) (b_write_player_transform base_backend e v3)"
  "sim overlay_rel (b_write_player_inventory overlay_backend e v4) (b_write_player_inventory base_backend e v4)"
  "sim overlay_rel (b_write_player_selected_hotbar overlay_backend e v5) (b_write_player_selected_hotbar base_backend e v5)"
  "sim overlay_rel (b_write_player_active_mining overlay_backend e v6) (b_write_player_active_mining base_backend e v6)"
  "sim overlay_rel (b_set_player_active_mining overlay_backend e v7) (b_set_player_active_mining base_backend e v7)"
  "sim overlay_rel (b_set_entity_kind overlay_backend e v8) (b_set_entity_kind base_backend e v8)"
  "sim overlay_rel (b_set_dropped_item overlay_backend e v9) (b_set_dropped_item base_backend e v9)"
  "sim overlay_rel (b_set_saved_player overlay_backend q v10) (b_set_saved_player base_backend q v10)"
  "sim overlay_rel (b_set_container_viewers overlay_backend p v11) (b_set_container_viewers base_backend p v11)"
  unfolding backend_defs core_backend.simps
  by (rule sim_smod; simp add: overlay_rel_def ov_rel_intros)+

lemma sim_overlay_borrows:
  "sim overlay_rel (b_player_session_mut overlay_backend q) (b_player_session_mut base_backend q)"
  "sim overlay_rel (b_player_transform_mut overlay_backend e) (b_player_transform_mut base_backend e)"
  "sim overlay_rel (b_player_inventory_mut overlay_backend e) (b_player_inventory_mut base_backend e)"
  "sim overlay_rel (b_player_selected_hotbar_mut overlay_backend e) (b_player_selected_hotbar_mut base_backend e)"
  "sim overlay_rel (b_player_active_mining_mut overlay_backend e) (b_player_active_mining_mut base_backend e)"
  unfolding backend_defs core_backend.simps
  by (rule sim_borrow; simp add: overlay_rel_def ov_rel_copy)+

lemma sim_overlay_takes:
  "sim overlay_rel (b_remove_player_active_mining overlay_backend e) (b_remove_player_active_mining base_backend e)"
  "sim overlay_rel (b_take_dropped_item overlay_backend e) (b_take_dropped_item base_backend e)"
  unfolding backend_defs
  by (auto simp: sim_def sr_defs overlay_rel_def ov_rel_lookup ov_rel_remove bt_remove_absent ov_rel_def [symmetric]
      split: option.splits)

lemma sim_overlay_allocations:
  "sim overlay_rel (b_allocate_entity_id overlay_backend) (b_allocate_entity_id base_backend)"
  "sim overlay_rel (b_allocate_keep_alive_id overlay_backend) (b_allocate_keep_alive_id base_backend)"
  unfolding backend_defs
  by (simp_all add: sim_def base_allocate_entity_id_def overlay_allocate_entity_id_def base_allocate_keep_alive_id_def
      overlay_allocate_keep_alive_id_def overlay_rel_def Let_def)
    (simp_all add: overlay_next_entity_id_def overlay_next_keep_alive_id_def)

text \<open>Chunks: a missing chunk is generated on both sides alike.\<close>

lemma overlay_rel_chunks:
  assumes "overlay_rel t c"
  shows "chunks_rel t c" and "generated_chunk c pos = generated_chunk (os_base t) pos"
    and "map_of (ws_chunks (sc_world c)) pos =
      (case map_of (ov_chunks (os_overlay t)) pos of
         Some chunk \<Rightarrow> Some chunk | None \<Rightarrow> map_of (ws_chunks (sc_world (os_base t))) pos)"
  using assms by (auto simp: overlay_rel_def chunks_rel_def generated_chunk_def map_add_def split: option.split)

lemma overlay_rel_put_chunk:
  assumes "overlay_rel t c"
  shows "overlay_rel (upd_overlay (ov_chunks_update (bt_insert pos chunk)) t) (upd_world (ws_chunks_update (bt_insert pos chunk)) c)"
  using assms by (simp add: overlay_rel_def chunks_rel_def)

lemma overlay_rel_copy_chunk:
  assumes "overlay_rel t c" and "map_of (ws_chunks (sc_world c)) pos = Some chunk"
  shows "overlay_rel (upd_overlay (ov_chunks_update (bt_insert pos chunk)) t) c"
  using assms by (auto simp: overlay_rel_def chunks_rel_def fun_eq_iff map_add_def split: option.splits)

lemma sim_overlay_block_state:
  "sim overlay_rel (b_block_state overlay_backend p) (b_block_state base_backend p)"
  unfolding backend_defs core_backend.simps
proof (rule sim_sget)
  fix t c assume rel: "overlay_rel t c"
  show "overlay_block_state t p = block_at c p"
    by (simp add: overlay_block_state_def block_at_def overlay_rel_chunks [OF rel] split: option.split)
qed

lemma base_ensure_chunk_cases:
  assumes "bt_ok (ws_chunks (sc_world c))"
  shows "base_ensure_chunk pos c =
    (case map_of (ws_chunks (sc_world c)) pos of
       Some chunk \<Rightarrow> (Inr chunk, c)
     | None \<Rightarrow> (Inr (generated_chunk c pos), upd_world (ws_chunks_update (bt_insert pos (generated_chunk c pos))) c))"
  using assms by (simp add: base_ensure_chunk_def Let_def split: option.split)

lemma sim_overlay_ensure_chunk: "sim overlay_rel (overlay_ensure_chunk pos) (base_ensure_chunk pos)"
  unfolding sim_def
proof (intro allI impI)
  fix t c assume rel: "overlay_rel t c"
  have ok: "bt_ok (ws_chunks (sc_world c))" using rel by (simp add: overlay_rel_def chunks_rel_def)
  note look = overlay_rel_chunks [OF rel]
  show "fst (overlay_ensure_chunk pos t) = fst (base_ensure_chunk pos c) \<and>
      overlay_rel (snd (overlay_ensure_chunk pos t)) (snd (base_ensure_chunk pos c))"
  proof (cases "map_of (ov_chunks (os_overlay t)) pos")
    case (Some chunk)
    then show ?thesis using rel look by (simp add: overlay_ensure_chunk_def base_ensure_chunk_cases [OF ok])
  next
    case None
    then show ?thesis
      using look overlay_rel_put_chunk [OF rel] overlay_rel_copy_chunk [OF rel]
      by (simp add: overlay_ensure_chunk_def base_ensure_chunk_cases [OF ok] Let_def split: option.split)
  qed
qed

lemma overlay_ensure_chunk_entry:
  assumes "bt_ok (ov_chunks (os_overlay t))"
  obtains chunk t' where "overlay_ensure_chunk pos t = (Inr chunk, t')" and "map_of (ov_chunks (os_overlay t')) pos = Some chunk"
  using assms by (cases "map_of (ov_chunks (os_overlay t)) pos") (auto simp: overlay_ensure_chunk_def Let_def)

lemma sim_overlay_set_block: "sim overlay_rel (overlay_set_block_state p st) (set_block_at p st)"
  unfolding sim_def
proof (intro allI impI)
  fix t c assume rel: "overlay_rel t c"
  let ?pos = "block_chunk_pos p"
  have "bt_ok (ov_chunks (os_overlay t))" using rel by (simp add: overlay_rel_def chunks_rel_def)
  then obtain chunk t' where t': "overlay_ensure_chunk ?pos t = (Inr chunk, t')"
    and entry: "map_of (ov_chunks (os_overlay t')) ?pos = Some chunk"
    by (rule overlay_ensure_chunk_entry)
  obtain c' where c': "base_ensure_chunk ?pos c = (Inr chunk, c')" and rel': "overlay_rel t' c'"
    using simD [OF sim_overlay_ensure_chunk rel, of ?pos] t' by (cases "base_ensure_chunk ?pos c") auto
  show "fst (overlay_set_block_state p st t) = fst (set_block_at p st c) \<and>
      overlay_rel (snd (overlay_set_block_state p st t)) (snd (set_block_at p st c))"
    using overlay_rel_put_chunk [OF rel']
    by (simp add: overlay_set_block_state_def set_block_at_def sr_defs t' c' entry)
qed

lemma sim_overlay_session_inventory:
  "sim overlay_rel (overlay_player_session_inventory_mut p) (base_player_session_inventory_mut p)"
  unfolding sim_def
proof (intro allI impI)
  fix t c assume rel: "overlay_rel t c"
  let ?e = "map_of (es_players_by_player_id (sc_entities c)) p"
  have e: "overlay_entry (ov_players_by_player_id (os_overlay t)) (es_players_by_player_id (sc_entities (os_base t))) p = ?e"
    using rel by (simp add: overlay_rel_def ov_rel_lookup)
  let ?b = "\<lambda>e. sbind (session_borrow p) (\<lambda>session. sbind (inventory_borrow e) (\<lambda>inventory.
             sret (case (session, inventory) of (Some s, Some i) \<Rightarrow> Some (s, e, i) | _ \<Rightarrow> None)))"
  let ?c = "\<lambda>e. sbind (sget (\<lambda>c. map_of (ss_player_sessions (sc_sessions c)) p)) (\<lambda>session.
             sbind (sget (\<lambda>c. map_of (es_player_inventory (sc_entities c)) e)) (\<lambda>inventory.
             sret (case (session, inventory) of (Some s, Some i) \<Rightarrow> Some (s, e, i) | _ \<Rightarrow> None)))"
  have "sim overlay_rel (?b e) (?c e)" for e
    using sim_overlay_borrows [unfolded backend_defs core_backend.simps] by (intro sim_intros) auto
  note b = simD [OF this rel]
  have absent: "map_of (ov_player_sessions (os_overlay t)) p = None \<Longrightarrow>
      map_of (ss_player_sessions (sc_sessions (os_base t))) p = None \<Longrightarrow>
      map_of (ss_player_sessions (sc_sessions c)) p = None"
    using rel by (simp add: overlay_rel_def ov_rel_def overlay_entry_def)
  show "fst (overlay_player_session_inventory_mut p t) = fst (base_player_session_inventory_mut p c) \<and>
      overlay_rel (snd (overlay_player_session_inventory_mut p t)) (snd (base_player_session_inventory_mut p c))"
  proof (cases ?e)
    case None
    then show ?thesis
      using rel by (simp add: overlay_player_session_inventory_mut_def base_player_session_inventory_mut_def sr_defs e)
  next
    case (Some e')
    have c: "base_player_session_inventory_mut p c = ?c e' c"
      by (simp add: base_player_session_inventory_mut_def sr_defs Some split: option.split)
    show ?thesis
      using rel b [of e'] absent
      by (auto simp: overlay_player_session_inventory_mut_def c sr_defs e Some split: option.splits)
  qed
qed

lemma sim_overlay_remove_player:
  "sim overlay_rel (overlay_remove_online_player p) (core_remove_online_player p)"
  unfolding sim_def
proof (intro allI impI)
  fix t c assume rel: "overlay_rel t c"
  have session: "overlay_entry (ov_player_sessions (os_overlay t)) (ss_player_sessions (sc_sessions (os_base t))) p =
      map_of (ss_player_sessions (sc_sessions c)) p"
    using rel by (simp add: overlay_rel_def ov_rel_lookup)
  have ok: "bt_ok (ov_players_by_player_id (os_overlay t))"
    using rel by (simp add: overlay_rel_def ov_rel_def)
  show "fst (overlay_remove_online_player p t) = fst (core_remove_online_player p c) \<and>
      overlay_rel (snd (overlay_remove_online_player p t)) (snd (core_remove_online_player p c))"
    using rel ok unfolding overlay_remove_online_player_def core_remove_online_player_def session
    by (cases "map_of (ss_player_sessions (sc_sessions c)) p")
      (simp_all add: overlay_rel_def Let_def ov_rel_remove players_rel_def)
qed

text \<open>A player is spawned over a base that does not know it, under an entity id no player of the base has.\<close>

definition overlay_spawnable :: "overlay_state \<Rightarrow> player_snapshot \<Rightarrow> entity_id \<Rightarrow> bool" where
  "overlay_spawnable t player e \<longleftrightarrow>
     map_of (es_players_by_player_id (sc_entities (os_base t))) (ps_id player) = None \<and>
     e \<notin> ran (map_of (es_players_by_player_id (sc_entities (os_base t)))) \<and> i32_ok e"

lemma overlay_rel_next_entity:
  "overlay_rel t c \<Longrightarrow>
   overlay_rel (upd_overlay (ov_next_entity_id_update (\<lambda>_. Some n)) t) (upd_entities (es_next_entity_id_update (\<lambda>_. n)) c)"
  "overlay_rel t c \<Longrightarrow> n = overlay_next_entity_id t \<Longrightarrow>
   overlay_rel (upd_overlay (ov_next_entity_id_update (\<lambda>_. Some n)) t) c"
  by (simp_all add: overlay_rel_def) (simp_all add: overlay_next_entity_id_def)

lemma overlay_rel_claim:
  assumes rel: "overlay_rel t c" and "i32_ok e"
  shows "overlay_rel (overlay_claim_entity_id e t)
     (if es_next_entity_id (sc_entities c) \<le> e then upd_entities (es_next_entity_id_update (\<lambda>_. i32_saturating_succ e)) c else c)"
proof (cases "ov_next_entity_id (os_overlay t)")
  case None
  then have "es_next_entity_id (sc_entities c) = es_next_entity_id (sc_entities (os_base t))"
    using rel by (simp add: overlay_rel_def overlay_next_entity_id_def)
  then show ?thesis
    using rel overlay_rel_next_entity(1) [OF rel] None by (simp add: overlay_claim_entity_id_def)
next
  case (Some n)
  then have n: "es_next_entity_id (sc_entities c) = n" "overlay_next_entity_id t = n"
    using rel by (simp_all add: overlay_rel_def overlay_next_entity_id_def)
  have "max n (i32_saturating_succ e) = (if n \<le> e then i32_saturating_succ e else n)"
    using assms(2) by (auto simp: i32_saturating_succ_def i32_ok_def max_def min_def)
  then show ?thesis
    using overlay_rel_next_entity [OF rel] Some n by (simp add: overlay_claim_entity_id_def)
qed

lemma overlay_rel_insert_player:
  assumes rel: "overlay_rel t c" and "overlay_spawnable t player e"
  shows "overlay_rel (overlay_insert_player player now_ms e view t) (base_insert_player player now_ms e view c)"
proof -
  have ok: "bt_ok (ov_players_by_player_id (os_overlay t))"
    using rel by (simp add: overlay_rel_def ov_rel_def)
  then have "players_rel (bt_insert (ps_id player) (Some e) (ov_players_by_player_id (os_overlay t)))
      (es_players_by_player_id (sc_entities (os_base t)))"
    using assms by (auto simp: overlay_rel_def players_rel_def overlay_spawnable_def)
  then show ?thesis
    using rel unfolding overlay_rel_def overlay_insert_player_def base_insert_player_def
    by (simp add: ov_rel_insert ov_rel_remove)
qed

lemma sim_overlay_spawn:
  assumes rel: "overlay_rel t c" and free: "overlay_spawnable t player e"
  shows "fst (overlay_spawn_online_player player now_ms (Some e) t) = fst (base_spawn_online_player player now_ms (Some e) c) \<and>
    overlay_rel (snd (overlay_spawn_online_player player now_ms (Some e) t)) (snd (base_spawn_online_player player now_ms (Some e) c))"
proof -
  let ?t = "overlay_claim_entity_id e t"
  let ?c = "if es_next_entity_id (sc_entities c) \<le> e then upd_entities (es_next_entity_id_update (\<lambda>_. i32_saturating_succ e)) c else c"
  have rel': "overlay_rel ?t ?c"
    using overlay_rel_claim [OF rel] free by (simp add: overlay_spawnable_def)
  have base: "os_base ?t = os_base t"
    by (simp add: overlay_claim_entity_id_def split: option.split)
  have free': "overlay_spawnable ?t player e" using free by (simp add: overlay_spawnable_def base)
  have config: "ws_config (sc_world c) = ws_config (sc_world (os_base t))"
    using rel by (simp add: overlay_rel_def)
  show ?thesis
    using rel' overlay_rel_insert_player [OF rel' free'] config
    by (cases "es_next_entity_id (sc_entities c) \<le> e"; cases "vec3_chunk_pos (ps_position player)")
      (simp_all add: overlay_spawn_online_player_def base_spawn_online_player_def chunk_of_def sr_defs base)
qed

lemma sim_overlay_others:
  "sim overlay_rel (b_ensure_chunk overlay_backend pos) (b_ensure_chunk base_backend pos)"
  "sim overlay_rel (b_set_block_state overlay_backend p st) (b_set_block_state base_backend p st)"
  "sim overlay_rel (b_player_session_inventory_mut overlay_backend q) (b_player_session_inventory_mut base_backend q)"
  "sim overlay_rel (b_remove_online_player overlay_backend q) (b_remove_online_player base_backend q)"
  unfolding backend_defs core_backend.simps
  by (rule sim_overlay_ensure_chunk sim_overlay_set_block sim_overlay_session_inventory sim_overlay_remove_player)+

lemma backend_spawn:
  "b_spawn_online_player overlay_backend = overlay_spawn_online_player"
  "b_spawn_online_player base_backend = base_spawn_online_player"
  by (simp_all add: backend_defs)

interpretation overlay: backend_simulation overlay_rel overlay_backend base_backend overlay_spawnable
  by unfold_locales (rule sim_overlay_reads sim_overlay_writes sim_overlay_borrows sim_overlay_takes sim_overlay_allocations
    sim_overlay_block_state sim_overlay_others
      sim_overlay_spawn [folded backend_spawn]; assumption?)+

section \<open>Methods the traits define\<close>

definition bind_some :: "('s, 'a option) core_prog \<Rightarrow> ('a \<Rightarrow> ('s, 'b option) core_prog) \<Rightarrow> ('s, 'b option) core_prog" where
  "bind_some m f = sbind m (\<lambda>v. case v of None \<Rightarrow> sret None | Some x \<Rightarrow> f x)"

lemma sim_bind_some [sim_intros]:
  "sim R m n \<Longrightarrow> (\<And>x. sim R (f x) (g x)) \<Longrightarrow> sim R (bind_some m f) (bind_some n g)"
  unfolding bind_some_def by (intro sim_intros)

definition compose_player_snapshot_by_entity :: "'s core_backend \<Rightarrow> entity_id \<Rightarrow> ('s, player_snapshot option) core_prog" where
  "compose_player_snapshot_by_entity B e =
     bind_some (b_player_identity_by_entity B e) (\<lambda>identity.
     bind_some (b_player_transform_by_entity B e) (\<lambda>transform.
     bind_some (b_player_vitals_by_entity B e) (\<lambda>vitals.
     bind_some (b_player_inventory_by_entity B e) (\<lambda>inventory.
     bind_some (b_player_selected_hotbar_by_entity B e) (\<lambda>selected.
       sret (Some \<lparr>ps_id = pid_player_id identity, ps_username = pid_username identity,
         ps_position = pt_position transform, ps_yaw = pt_yaw transform, ps_pitch = pt_pitch transform,
         ps_on_ground = pt_on_ground transform, ps_dimension = pt_dimension transform,
         ps_health = pv_health vitals, ps_food = pv_food vitals, ps_food_saturation = pv_food_saturation vitals,
         ps_inventory = inventory, ps_selected_hotbar_slot = selected\<rparr>))))))"

definition compose_player_snapshot :: "'s core_backend \<Rightarrow> player_id \<Rightarrow> ('s, player_snapshot option) core_prog" where
  "compose_player_snapshot B p = bind_some (b_player_entity_id B p) (compose_player_snapshot_by_entity B)"

definition state_player_inventory :: "'s core_backend \<Rightarrow> player_id \<Rightarrow> ('s, player_inventory option) core_prog" where
  "state_player_inventory B p = bind_some (b_player_entity_id B p) (b_player_inventory_by_entity B)"

definition state_player_selected_hotbar :: "'s core_backend \<Rightarrow> player_id \<Rightarrow> ('s, u8 option) core_prog" where
  "state_player_selected_hotbar B p = bind_some (b_player_entity_id B p) (b_player_selected_hotbar_by_entity B)"

definition state_player_transform :: "'s core_backend \<Rightarrow> player_id \<Rightarrow> ('s, player_transform option) core_prog" where
  "state_player_transform B p = bind_some (b_player_entity_id B p) (b_player_transform_by_entity B)"

definition state_player_active_mining :: "'s core_backend \<Rightarrow> player_id \<Rightarrow> ('s, active_mining_state option) core_prog" where
  "state_player_active_mining B p = bind_some (b_player_entity_id B p) (b_player_active_mining_by_entity B)"

definition online_player_count :: "'s core_backend \<Rightarrow> ('s, nat) core_prog" where
  "online_player_count B = sbind (b_player_ids B) (\<lambda>ids. sret (length ids))"

text \<open>The constants \<open>0.5\<close>, \<open>1.62\<close>, \<open>6.0 * 6.0\<close>, \<open>PLAYER_WIDTH / 2\<close> and \<open>PLAYER_HEIGHT\<close> as bit patterns.\<close>

definition F64_HALF :: f64 where "F64_HALF = 0x3FE0000000000000"
definition F64_ONE :: f64 where "F64_ONE = 0x3FF0000000000000"
definition EYE_HEIGHT :: f64 where "EYE_HEIGHT = 0x3FF9EB851EB851EC"
definition BLOCK_EDIT_REACH_SQUARED :: f64 where "BLOCK_EDIT_REACH_SQUARED = 0x4042000000000000"
definition PLAYER_HALF_WIDTH :: f64 where "PLAYER_HALF_WIDTH = 0x3FD3333333333333"
definition PLAYER_HEIGHT :: f64 where "PLAYER_HEIGHT = 0x3FFCCCCCCCCCCCCD"

definition f64_square :: "f64 \<Rightarrow> f64" where
  "f64_square x = f64_mul x x"

definition distance_squared_to_block_center :: "vec3 \<Rightarrow> block_pos \<Rightarrow> f64" where
  "distance_squared_to_block_center position block =
     (let dx = f64_sub (v_x position) (f64_add (f64_of_int (bp_x block)) F64_HALF);
          dy = f64_sub (f64_add (v_y position) EYE_HEIGHT) (f64_add (f64_of_int (bp_y block)) F64_HALF);
          dz = f64_sub (v_z position) (f64_add (f64_of_int (bp_z block)) F64_HALF) in
      f64_add (f64_add (f64_square dx) (f64_square dy)) (f64_square dz))"

definition block_intersects_player :: "block_pos \<Rightarrow> player_transform \<Rightarrow> bool" where
  "block_intersects_player block player =
     (let pos = pt_position player;
          min_x = f64_sub (v_x pos) PLAYER_HALF_WIDTH; max_x = f64_add (v_x pos) PLAYER_HALF_WIDTH;
          min_y = v_y pos; max_y = f64_add (v_y pos) PLAYER_HEIGHT;
          min_z = f64_sub (v_z pos) PLAYER_HALF_WIDTH; max_z = f64_add (v_z pos) PLAYER_HALF_WIDTH;
          bx = f64_of_int (bp_x block); by = f64_of_int (bp_y block); bz = f64_of_int (bp_z block) in
      f64_lt min_x (f64_add bx F64_ONE) \<and> f64_lt bx max_x \<and>
      f64_lt min_y (f64_add by F64_ONE) \<and> f64_lt by max_y \<and>
      f64_lt min_z (f64_add bz F64_ONE) \<and> f64_lt bz max_z)"

definition can_edit_block_for_snapshot ::
  "'s core_backend \<Rightarrow> player_snapshot \<Rightarrow> block_pos \<Rightarrow> ('s, bool) core_prog" where
  "can_edit_block_for_snapshot B actor position =
     (if \<not> (0 \<le> bp_y position \<and> bp_y position \<le> 255) then sret False
      else if f64_lt BLOCK_EDIT_REACH_SQUARED (distance_squared_to_block_center (ps_position actor) position)
      then sret False
      else
        sbind (b_player_entity_ids B) (\<lambda>ids.
        sbind (smap ids (b_player_transform_by_entity B)) (\<lambda>transforms.
        sret (\<not> list_ex (\<lambda>t. case t of None \<Rightarrow> False | Some t \<Rightarrow> block_intersects_player position t) transforms))))"

definition can_edit_block :: "'s core_backend \<Rightarrow> player_id \<Rightarrow> block_pos \<Rightarrow> ('s, bool) core_prog" where
  "can_edit_block B p position =
     sbind (compose_player_snapshot B p) (\<lambda>player.
     case player of None \<Rightarrow> sret False | Some player \<Rightarrow> can_edit_block_for_snapshot B player position)"

definition initial_visible_chunks :: "'s core_backend \<Rightarrow> chunk_pos \<Rightarrow> u8 \<Rightarrow> ('s, chunk_column list) core_prog" where
  "initial_visible_chunks B center view_distance =
     smap (sorted_list_of_set (required_chunks center view_distance)) (b_ensure_chunk B)"

lemma sim_chunk_of [sim_intros]: "sim R (chunk_of v) (chunk_of v)"
  unfolding chunk_of_def by (intro sim_intros)

context backend_simulation
begin

lemma sim_compose [sim_intros]:
  "sim R (compose_player_snapshot_by_entity B e) (compose_player_snapshot_by_entity C e)"
  "sim R (compose_player_snapshot B p) (compose_player_snapshot C p)"
  unfolding compose_player_snapshot_def compose_player_snapshot_by_entity_def by (intro sim_intros)+

lemma sim_trait_methods [sim_intros]:
  "sim R (state_player_inventory B p) (state_player_inventory C p)"
  "sim R (state_player_selected_hotbar B p) (state_player_selected_hotbar C p)"
  "sim R (state_player_transform B p) (state_player_transform C p)"
  "sim R (state_player_active_mining B p) (state_player_active_mining C p)"
  "sim R (online_player_count B) (online_player_count C)"
  unfolding state_player_inventory_def state_player_selected_hotbar_def state_player_transform_def
    state_player_active_mining_def online_player_count_def by (intro sim_intros)+

lemma sim_can_edit [sim_intros]:
  "sim R (can_edit_block_for_snapshot B actor position) (can_edit_block_for_snapshot C actor position)"
  "sim R (can_edit_block B p position) (can_edit_block C p position)"
  unfolding can_edit_block_for_snapshot_def can_edit_block_def by (intro sim_intros)+

lemma sim_initial_visible_chunks [sim_intros]:
  "sim R (initial_visible_chunks B center d) (initial_visible_chunks C center d)"
  unfolding initial_visible_chunks_def by (intro sim_intros)

end

text \<open>An empty overlay stands for its base. The condition on a core: its maps are ordered maps and no two
  players share an entity.\<close>

definition core_ok :: "server_core \<Rightarrow> bool" where
  "core_ok c \<longleftrightarrow> overlay_rel \<lparr>os_base = c, os_overlay = tx_overlay_default\<rparr> c"

lemma server_core_new_ok: "core_ok (server_core_new config content)"
  by (simp add: core_ok_def overlay_rel_def server_core_new_def tx_overlay_default_def overlay_next_entity_id_def
      overlay_next_keep_alive_id_def chunks_rel_def players_rel_def ov_rel_empty)

end
