(* ===== verification/Core_Inventory.thy ===== *)
theory Core_Inventory
  imports Core_State
begin

text \<open>
  Inventories and containers of the core, crate \<open>revy-voxel-core\<close>: \<open>core/inventory/util.rs\<close>, \<open>state.rs\<close>,
  \<open>sync.rs\<close>, \<open>click.rs\<close> and \<open>lifecycle.rs\<close>, and the events they produce.

  The code that works on borrowed values (a cursor, a slot, an inventory) is a function on those
  values; the code that works on the state is a program over a backend. A container has fewer
  than \<open>2 ^ 16\<close> slots, so that the conversion of a slot index to \<open>u16\<close> succeeds.
\<close>

section \<open>Stacks: \<open>util.rs\<close>\<close>

definition MAX_STACK_SIZE :: u8 where "MAX_STACK_SIZE = 64"

definition decrement_cursor :: "item_stack option \<Rightarrow> item_stack option" where
  "decrement_cursor cursor =
     (case cursor of
        None \<Rightarrow> None
      | Some stack \<Rightarrow>
          let n = saturating_sub_word (is_count stack) 1 in
          if n = 0 then None else Some (stack\<lparr>is_count := n\<rparr>))"

definition stack_keys_match :: "item_stack \<Rightarrow> item_stack \<Rightarrow> bool" where
  "stack_keys_match l r \<longleftrightarrow>
     is_key l = is_key r \<and> is_damage l = is_damage r \<and> is_components l = is_components r \<and> is_extra l = is_extra r"

definition persistent_slot_order :: "inventory_slot list" where
  "persistent_slot_order =
     map (\<lambda>i. Hotbar (word_of_nat i)) [0..<9] @ map (\<lambda>i. MainInventory (word_of_nat i)) [0..<27] @ [Offhand]"

fun merge_into_existing :: "inventory_slot list \<Rightarrow> player_inventory \<Rightarrow> item_stack \<Rightarrow> player_inventory \<times> item_stack option" where
  "merge_into_existing [] pinv stack = (pinv, Some stack)"
| "merge_into_existing (slot # slots) pinv stack =
     (case inventory_get_slot pinv slot of
        None \<Rightarrow> merge_into_existing slots pinv stack
      | Some existing \<Rightarrow>
          if \<not> stack_keys_match existing stack \<or> is_count existing \<ge> MAX_STACK_SIZE
          then merge_into_existing slots pinv stack
          else
            let available = saturating_sub_word MAX_STACK_SIZE (is_count existing);
                moved = min available (is_count stack);
                pinv' = snd (inventory_set_slot slot
                  (Some (existing\<lparr>is_count := saturating_add_word (is_count existing) moved\<rparr>)) pinv);
                rest = saturating_sub_word (is_count stack) moved in
            if rest = 0 then (pinv', None)
            else merge_into_existing slots pinv' (stack\<lparr>is_count := rest\<rparr>))"

fun place_in_empty :: "inventory_slot list \<Rightarrow> player_inventory \<Rightarrow> item_stack \<Rightarrow> player_inventory \<times> item_stack option" where
  "place_in_empty [] pinv stack = (pinv, Some stack)"
| "place_in_empty (slot # slots) pinv stack =
     (if inventory_get_slot pinv slot \<noteq> None then place_in_empty slots pinv stack
      else (snd (inventory_set_slot slot (Some stack) pinv), None))"

definition merge_stack_into_player_inventory ::
  "player_inventory \<Rightarrow> item_stack \<Rightarrow> player_inventory \<times> item_stack option" where
  "merge_stack_into_player_inventory pinv stack =
     (case merge_into_existing persistent_slot_order pinv stack of
        (pinv', None) \<Rightarrow> (pinv', None)
      | (pinv', Some rest) \<Rightarrow> place_in_empty persistent_slot_order pinv' rest)"

section \<open>Windows: \<open>state.rs\<close> and \<open>sync.rs\<close>\<close>

definition window_contents_of :: "open_inventory_window \<Rightarrow> player_inventory \<Rightarrow> inventory_window_contents" where
  "window_contents_of window pinv = window_contents_with_local_slots pinv (oc_local_slots (ow_container window))"

definition window_property_entries :: "open_inventory_window \<Rightarrow> (container_property_key \<times> int) list" where
  "window_property_entries window = property_entries (ow_container window)"

definition window_world_position :: "open_inventory_window \<Rightarrow> block_pos option" where
  "window_world_position window = world_position (ow_container window)"

definition window_world_block_entity :: "open_inventory_window \<Rightarrow> (block_pos \<times> container_block_entity_state) option" where
  "window_world_block_entity window =
     (case window_world_position window of
        None \<Rightarrow> None
      | Some p \<Rightarrow> map_option (Pair p) (container_block_entity_state_of (ow_container window)))"

definition active_window :: "player_session_state \<Rightarrow> u8 \<Rightarrow> open_inventory_window option" where
  "active_window session window_id =
     (case se_active_container session of
        None \<Rightarrow> None
      | Some window \<Rightarrow> if ow_window_id window = window_id then Some window else None)"

definition active_window_container :: "content_behavior \<Rightarrow> player_session_state \<Rightarrow> u8 \<Rightarrow> container_kind_id option" where
  "active_window_container cb session window_id =
     (if window_id = 0 then Some (cb_player_container_kind cb)
      else map_option (\<lambda>w. oc_kind (ow_container w)) (active_window session window_id))"

definition window_contents ::
  "content_behavior \<Rightarrow> player_session_state \<Rightarrow> player_inventory \<Rightarrow> container_kind_id \<Rightarrow> inventory_window_contents" where
  "window_contents cb session pinv container =
     (if container = cb_player_container_kind cb then window_contents_player pinv
      else case se_active_container session of
        Some window \<Rightarrow>
          if oc_kind (ow_container window) = container then window_contents_of window pinv
          else window_contents_with_local_slots pinv []
      | None \<Rightarrow> window_contents_with_local_slots pinv [])"

fun resolve_inventory_target :: "inventory_click_target \<Rightarrow> inventory_slot option" where
  "resolve_inventory_target (SlotTarget slot) = Some slot"
| "resolve_inventory_target Outside = None"
| "resolve_inventory_target Unsupported = None"

datatype event_target = ToConnection connection_id | ToPlayer player_id | EveryoneExcept player_id

datatype core_event =
    LoginAccepted player_id entity_id player_snapshot
  | PlayBootstrap player_snapshot entity_id world_meta u8
  | ChunkBatch "chunk_column list"
  | EntitySpawned entity_id player_snapshot
  | EntityMoved entity_id player_snapshot
  | DroppedItemSpawned entity_id dropped_item_snapshot
  | BlockBreakingProgress entity_id block_pos "u8 option" u64
  | EntityDespawned "entity_id list"
  | InventoryContents u8 container_kind_id inventory_window_contents
  | ContainerOpened u8 container_kind_id string
  | ContainerClosed u8
  | ContainerPropertyChanged u8 container_property_key int
  | InventorySlotChanged u8 container_kind_id inventory_slot "item_stack option"
  | InventoryTransactionProcessed inventory_transaction_context bool
  | CursorChanged "item_stack option"
  | SelectedHotbarSlotChanged u8
  | BlockChanged block_pos "block_state option"
  | KeepAliveRequested int
  | Disconnect string

type_synonym targeted_event = "event_target \<times> core_event"

definition visible_slots :: "content_behavior \<Rightarrow> container_kind_id \<Rightarrow> inventory_slot list" where
  "visible_slots cb container =
     (case cb_container_spec cb container of
        Some spec \<Rightarrow> map (\<lambda>i. WindowLocal (word_of_nat i)) [0..<unat (sp_local_slot_count spec)]
      | None \<Rightarrow> []) @
     map (\<lambda>i. MainInventory (word_of_nat i)) [0..<27] @ map (\<lambda>i. Hotbar (word_of_nat i)) [0..<9] @
     (if container = cb_player_container_kind cb then [Offhand] else [])"

definition inventory_diff_events :: "content_behavior \<Rightarrow> u8 \<Rightarrow> container_kind_id \<Rightarrow> player_id \<Rightarrow>
    inventory_window_contents \<Rightarrow> inventory_window_contents \<Rightarrow> targeted_event list" where
  "inventory_diff_events cb window_id container p before after =
     map (\<lambda>slot. (ToPlayer p, InventorySlotChanged window_id container slot (window_contents_get_slot after slot)))
       (filter (\<lambda>slot. window_contents_get_slot before slot \<noteq> window_contents_get_slot after slot) (visible_slots cb container))"

definition property_events :: "u8 \<Rightarrow> player_id \<Rightarrow> (container_property_key \<times> int) list \<Rightarrow> targeted_event list" where
  "property_events window_id p entries =
     map (\<lambda>(key, v). (ToPlayer p, ContainerPropertyChanged window_id key v)) entries"

definition property_diff_events :: "u8 \<Rightarrow> player_id \<Rightarrow> (container_property_key \<times> int) list \<Rightarrow>
    (container_property_key \<times> int) list \<Rightarrow> targeted_event list" where
  "property_diff_events window_id p before after =
     map (\<lambda>(key, v). (ToPlayer p, ContainerPropertyChanged window_id key v))
       (filter (\<lambda>(key, v). map_of before key \<noteq> Some v) after)"

definition window_resync_events :: "content_behavior \<Rightarrow> player_id \<Rightarrow> u8 \<Rightarrow> container_kind_id \<Rightarrow>
    inventory_window_contents \<Rightarrow> u8 \<Rightarrow> item_stack option \<Rightarrow> inventory_slot option \<Rightarrow> targeted_event list" where
  "window_resync_events cb p window_id container contents selected cursor slot =
     [(ToPlayer p, InventoryContents window_id container contents)] @
     (case slot of
        None \<Rightarrow> []
      | Some slot \<Rightarrow> [(ToPlayer p, InventorySlotChanged window_id container slot (window_contents_get_slot contents slot))]) @
     (if container = cb_player_container_kind cb then [(ToPlayer p, SelectedHotbarSlotChanged selected)] else []) @
     [(ToPlayer p, CursorChanged cursor)]"

section \<open>The changes an operation reports\<close>

record window_diff_delta =
  wd_player_id :: player_id
  wd_window_id :: u8
  wd_container :: container_kind_id
  wd_before_contents :: inventory_window_contents
  wd_after_contents :: inventory_window_contents
  wd_before_properties :: "(container_property_key \<times> int) list"
  wd_after_properties :: "(container_property_key \<times> int) list"

record close_container_delta =
  cl_player_id :: player_id
  cl_window_id :: u8
  cl_contents :: "inventory_window_contents option"

record open_container_delta =
  op_closed :: "close_container_delta list"
  op_player_id :: player_id
  op_window_id :: u8
  op_container :: container_kind_id
  op_title :: string
  op_contents :: inventory_window_contents
  op_properties :: "(container_property_key \<times> int) list"

record inventory_click_delta =
  ic_player_id :: player_id
  ic_transaction :: inventory_transaction_context
  ic_accepted :: bool
  ic_should_resync_on_reject :: bool
  ic_container :: container_kind_id
  ic_window_id :: u8
  ic_resolved_slot :: "inventory_slot option"
  ic_before_contents :: inventory_window_contents
  ic_after_contents :: inventory_window_contents
  ic_before_properties :: "(container_property_key \<times> int) list"
  ic_after_properties :: "(container_property_key \<times> int) list"
  ic_before_cursor :: "item_stack option"
  ic_after_cursor :: "item_stack option"
  ic_selected_hotbar_before :: u8
  ic_selected_hotbar_after :: u8
  ic_world_sync :: "window_diff_delta list"

record dropped_item_tick_delta =
  dt_inventory_delta :: "window_diff_delta option"
  dt_despawn :: "entity_id list option"

section \<open>Clicks on a slot: \<open>click.rs\<close>\<close>

text \<open>\<open>get_slot_mut\<close>: the slot's value, if there is such a slot, and the write through the reference.\<close>

definition inventory_slot_mut :: "player_inventory \<Rightarrow> inventory_slot \<Rightarrow> item_stack option option" where
  "inventory_slot_mut pinv slot =
     (case slot of
        Offhand \<Rightarrow> Some (pi_offhand pinv)
      | _ \<Rightarrow> (case legacy_window_index slot of
               None \<Rightarrow> None
             | Some i \<Rightarrow> if unat i < length (pi_slots pinv) then Some (pi_slots pinv ! unat i) else None))"

definition inventory_slot_write :: "inventory_slot \<Rightarrow> item_stack option \<Rightarrow> player_inventory \<Rightarrow> player_inventory" where
  "inventory_slot_write slot v pinv =
     (case slot of
        Offhand \<Rightarrow> pinv\<lparr>pi_offhand := v\<rparr>
      | _ \<Rightarrow> (case legacy_window_index slot of
               None \<Rightarrow> pinv
             | Some i \<Rightarrow> pinv\<lparr>pi_slots := (pi_slots pinv)[unat i := v]\<rparr>))"

type_synonym cursor_slot = "item_stack option \<times> item_stack option"

definition apply_outside_click :: "inventory_click_button \<Rightarrow> item_stack option \<Rightarrow> bool \<times> item_stack option" where
  "apply_outside_click button cursor =
     (case button of LeftButton \<Rightarrow> (True, None) | RightButton \<Rightarrow> (True, decrement_cursor cursor))"

definition apply_left_click_slot_value :: "cursor_slot \<Rightarrow> core_panic + bool \<times> cursor_slot" where
  "apply_left_click_slot_value = (\<lambda>(cursor, slot).
     case (cursor, slot) of
       (None, None) \<Rightarrow> Inr (True, None, None)
     | (None, Some s) \<Rightarrow> Inr (True, Some s, None)
     | (Some c, None) \<Rightarrow> Inr (True, None, Some c)
     | (Some c, Some s) \<Rightarrow>
         if stack_keys_match c s then
           let total_count = unat (is_count c) + unat (is_count s);
               placed = min total_count (unat MAX_STACK_SIZE);
               remainder = total_count - placed;
               slot' = Some (s\<lparr>is_count := word_of_nat placed\<rparr>) in
           if remainder = 0 then Inr (True, None, slot')
           else if remainder > 255 then Inl StackCountPanic
           else Inr (True, Some (c\<lparr>is_count := word_of_nat remainder\<rparr>), slot')
         else Inr (True, Some s, Some c))"

definition apply_right_click_slot_value :: "cursor_slot \<Rightarrow> bool \<times> cursor_slot" where
  "apply_right_click_slot_value = (\<lambda>(cursor, slot).
     case (cursor, slot) of
       (None, None) \<Rightarrow> (True, None, None)
     | (None, Some s) \<Rightarrow>
         let cursor_count = saturating_add_word (is_count s) 1 div 2;
             slot_count = is_count s div 2 in
         (True, Some (s\<lparr>is_count := cursor_count\<rparr>),
          if slot_count = 0 then None else Some (s\<lparr>is_count := slot_count\<rparr>))
     | (Some c, None) \<Rightarrow> (True, decrement_cursor (Some c), Some (c\<lparr>is_count := 1\<rparr>))
     | (Some c, Some s) \<Rightarrow>
         if stack_keys_match c s \<and> is_count s < MAX_STACK_SIZE then
           (True, decrement_cursor (Some c), Some (s\<lparr>is_count := saturating_add_word (is_count s) 1\<rparr>))
         else (False, Some c, Some s))"

definition apply_click_slot_value :: "inventory_click_button \<Rightarrow> cursor_slot \<Rightarrow> core_panic + bool \<times> cursor_slot" where
  "apply_click_slot_value button cs =
     (case button of LeftButton \<Rightarrow> apply_left_click_slot_value cs | RightButton \<Rightarrow> Inr (apply_right_click_slot_value cs))"

definition collect_player_local_slots :: "player_inventory \<Rightarrow> u16 \<Rightarrow> item_stack option list" where
  "collect_player_local_slots pinv local_slot_count =
     map (\<lambda>i. inventory_get_slot pinv (WindowLocal (word_of_nat i))) [0..<unat local_slot_count]"

definition store_player_local_slots :: "item_stack option list \<Rightarrow> player_inventory \<Rightarrow> player_inventory" where
  "store_player_local_slots slots pinv =
     fold (\<lambda>(i, stack) pinv. snd (inventory_set_slot (WindowLocal (word_of_nat i)) stack pinv)) (enumerate 0 slots) pinv"

text \<open>A click on a slot of the player's own storage.\<close>

definition click_inventory_slot :: "inventory_click_button \<Rightarrow> inventory_slot \<Rightarrow>
    player_inventory \<times> item_stack option \<Rightarrow> core_panic + bool \<times> player_inventory \<times> item_stack option" where
  "click_inventory_slot button slot = (\<lambda>(pinv, cursor).
     case inventory_slot_mut pinv slot of
       None \<Rightarrow> Inr (False, pinv, cursor)
     | Some stack \<Rightarrow>
         bind_res (apply_click_slot_value button (cursor, stack)) (\<lambda>(applied, cursor', stack').
           Inr (applied, inventory_slot_write slot stack' pinv, cursor')))"

definition apply_player_window_click :: "content_behavior \<Rightarrow> inventory_slot option \<Rightarrow> inventory_click_button \<Rightarrow>
    player_inventory \<times> item_stack option \<Rightarrow> core_panic + bool \<times> player_inventory \<times> item_stack option" where
  "apply_player_window_click cb slot button = (\<lambda>(pinv, cursor).
     case slot of
       None \<Rightarrow> Inr (False, pinv, cursor)
     | Some slot \<Rightarrow>
         (case cb_container_spec cb (cb_player_container_kind cb) of
            None \<Rightarrow> Inr (False, pinv, cursor)
          | Some spec \<Rightarrow>
              (case slot of
                 WindowLocal index \<Rightarrow>
                   if index < sp_local_slot_count spec then
                     (case container_slot_role_of spec index of
                        Unavailable \<Rightarrow> Inr (False, pinv, cursor)
                      | OutputOnly \<Rightarrow>
                          (case cb_try_take_output cb (cb_player_container_kind cb) button
                                  (collect_player_local_slots pinv (sp_local_slot_count spec), cursor) of
                             (applied, local_slots, cursor') \<Rightarrow>
                               Inr (applied,
                                 if applied then cb_normalize_player_inventory cb (store_player_local_slots local_slots pinv)
                                 else pinv, cursor'))
                      | Generic \<Rightarrow>
                          bind_res (click_inventory_slot button slot (pinv, cursor)) (\<lambda>(applied, pinv', cursor').
                            Inr (applied, if applied then cb_normalize_player_inventory cb pinv' else pinv', cursor')))
                   else Inr (False, pinv, cursor)
               | _ \<Rightarrow> click_inventory_slot button slot (pinv, cursor))))"

definition click_container_slot :: "content_behavior \<Rightarrow> u16 \<Rightarrow> inventory_click_button \<Rightarrow>
    open_container_state \<times> item_stack option \<Rightarrow> core_panic + bool \<times> open_container_state \<times> item_stack option" where
  "click_container_slot cb index button = (\<lambda>(container, cursor).
     if unat index < length (oc_local_slots container) then
       bind_res (apply_click_slot_value button (cursor, oc_local_slots container ! unat index)) (\<lambda>(applied, cursor', stack').
         let container' = container\<lparr>oc_local_slots := (oc_local_slots container)[unat index := stack']\<rparr> in
         Inr (applied, if applied then cb_normalize_container cb container' else container', cursor'))
     else Inr (False, container, cursor))"

definition take_container_output :: "content_behavior \<Rightarrow> inventory_click_button \<Rightarrow>
    open_container_state \<times> item_stack option \<Rightarrow> bool \<times> open_container_state \<times> item_stack option" where
  "take_container_output cb button = (\<lambda>(container, cursor).
     case cb_try_take_output cb (oc_kind container) button (oc_local_slots container, cursor) of
       (applied, local_slots, cursor') \<Rightarrow>
         let container' = container\<lparr>oc_local_slots := local_slots\<rparr> in
         (applied, if applied then cb_normalize_container cb container' else container', cursor'))"

definition apply_active_container_click :: "content_behavior \<Rightarrow> u8 \<Rightarrow> inventory_slot option \<Rightarrow>
    inventory_click_target \<Rightarrow> inventory_click_button \<Rightarrow> player_session_state \<times> player_inventory \<Rightarrow>
    core_panic + bool \<times> player_session_state \<times> player_inventory" where
  "apply_active_container_click cb window_id slot target button = (\<lambda>(session, pinv).
     if target = Outside then
       (case apply_outside_click button (se_cursor session) of
          (applied, cursor') \<Rightarrow> Inr (applied, session\<lparr>se_cursor := cursor'\<rparr>, pinv))
     else case slot of
       None \<Rightarrow> Inr (False, session, pinv)
     | Some slot \<Rightarrow>
         (case active_window session window_id of
            None \<Rightarrow> Inr (False, session, pinv)
          | Some window \<Rightarrow>
              (case cb_container_spec cb (oc_kind (ow_container window)) of
                 None \<Rightarrow> Inr (False, session, pinv)
               | Some spec \<Rightarrow>
                   let put = (\<lambda>(applied, container, cursor). (applied,
                     session\<lparr>se_cursor := cursor, se_active_container := Some (window\<lparr>ow_container := container\<rparr>)\<rparr>, pinv)) in
                   (case slot of
                      WindowLocal index \<Rightarrow>
                        if index < sp_local_slot_count spec then
                          (case container_slot_role_of spec index of
                             Unavailable \<Rightarrow> Inr (False, session, pinv)
                           | OutputOnly \<Rightarrow> Inr (put (take_container_output cb button (ow_container window, se_cursor session)))
                           | Generic \<Rightarrow>
                               bind_res (click_container_slot cb index button (ow_container window, se_cursor session))
                                 (\<lambda>r. Inr (put r)))
                        else Inr (False, session, pinv)
                    | _ \<Rightarrow>
                        bind_res (click_inventory_slot button slot (pinv, se_cursor session)) (\<lambda>(applied, pinv', cursor').
                          Inr (applied, session\<lparr>se_cursor := cursor'\<rparr>, pinv'))))))"

section \<open>Containers in the world: \<open>lifecycle.rs\<close>\<close>

definition fold_active_container_items_into_player ::
  "content_behavior \<Rightarrow> open_inventory_window \<Rightarrow> player_inventory \<Rightarrow> player_inventory" where
  "fold_active_container_items_into_player cb window pinv =
     (case oc_binding (ow_container window) of
        BlockBinding _ _ \<Rightarrow> pinv
      | Virtual \<Rightarrow>
          let spec = cb_container_spec cb (oc_kind (ow_container window)) in
          fold (\<lambda>(index, stack) pinv.
            case stack of
              None \<Rightarrow> pinv
            | Some stack \<Rightarrow>
                if (case spec of None \<Rightarrow> False
                    | Some spec \<Rightarrow> container_slot_role_of spec (word_of_nat index) = OutputOnly \<and> index = 0)
                then pinv else fst (merge_stack_into_player_inventory pinv stack))
          (enumerate 0 (oc_local_slots (ow_container window))) pinv)"

definition close_active_container_window :: "content_behavior \<Rightarrow> player_session_state \<times> player_inventory \<Rightarrow>
    (open_inventory_window \<times> player_session_state \<times> player_inventory) option" where
  "close_active_container_window cb = (\<lambda>(session, pinv).
     case se_active_container session of
       None \<Rightarrow> None
     | Some window \<Rightarrow> Some (window, session\<lparr>se_active_container := None\<rparr>,
         fold_active_container_items_into_player cb window pinv))"

definition writeback_world_container_state :: "'s core_backend \<Rightarrow> open_inventory_window \<Rightarrow> ('s, unit) core_prog" where
  "writeback_world_container_state B window =
     (case window_world_block_entity window of
        None \<Rightarrow> sret ()
      | Some (position, entity) \<Rightarrow>
          sbind (b_block_state B position) (\<lambda>block.
          case block of
            None \<Rightarrow> sret ()
          | Some block \<Rightarrow>
              sbind (b_content_behavior B) (\<lambda>cb.
              if cb_container_kind_for_block cb block \<noteq> Some (oc_kind (ow_container window)) then sret ()
              else b_set_block_entity B position (Some (ContainerEntity entity)))))"

definition register_world_container_viewer_state ::
  "'s core_backend \<Rightarrow> block_pos \<Rightarrow> player_id \<Rightarrow> u8 \<Rightarrow> container_kind_id \<Rightarrow> ('s, unit) core_prog" where
  "register_world_container_viewer_state B position p window_id kind =
     sbind (b_container_viewers B position) (\<lambda>viewers.
       let entry = (case viewers of Some v \<Rightarrow> v | None \<Rightarrow> \<lparr>vw_kind = kind, vw_viewers = []\<rparr>) in
       b_set_container_viewers B position (Some (entry\<lparr>vw_viewers := bt_insert p window_id (vw_viewers entry)\<rparr>)))"

definition unregister_world_container_viewer_at_state ::
  "'s core_backend \<Rightarrow> block_pos \<Rightarrow> player_id \<Rightarrow> ('s, unit) core_prog" where
  "unregister_world_container_viewer_at_state B position p =
     sbind (b_container_viewers B position) (\<lambda>viewers.
     case viewers of
       None \<Rightarrow> sret ()
     | Some entry \<Rightarrow>
         let entry = entry\<lparr>vw_viewers := bt_remove p (vw_viewers entry)\<rparr> in
         if vw_viewers entry = [] then b_set_container_viewers B position None
         else b_set_container_viewers B position (Some entry))"

definition unregister_world_container_viewer_state ::
  "'s core_backend \<Rightarrow> open_inventory_window \<Rightarrow> player_id \<Rightarrow> ('s, unit) core_prog" where
  "unregister_world_container_viewer_state B window p =
     (case window_world_position window of
        None \<Rightarrow> sret ()
      | Some position \<Rightarrow> unregister_world_container_viewer_at_state B position p)"

definition close_player_active_container_state ::
  "'s core_backend \<Rightarrow> player_id \<Rightarrow> bool \<Rightarrow> ('s, close_container_delta option) core_prog" where
  "close_player_active_container_state B p include_player_contents =
     sbind (b_content_behavior B) (\<lambda>cb.
     bind_some (b_player_session_inventory_mut B p) (\<lambda>(session, e, pinv).
     case close_active_container_window cb (session, pinv) of
       None \<Rightarrow> sret None
     | Some (window, session', pinv') \<Rightarrow>
         sbind (b_write_player_session B p session') (\<lambda>_.
         sbind (b_write_player_inventory B e pinv') (\<lambda>_.
         sbind (if include_player_contents
                then sbind (state_player_inventory B p) (\<lambda>i.
                  sret (Some (window_contents_player (case i of Some i \<Rightarrow> i | None \<Rightarrow> inventory_new_empty))))
                else sret None) (\<lambda>contents.
         sbind (writeback_world_container_state B window) (\<lambda>_.
         sbind (unregister_world_container_viewer_state B window p) (\<lambda>_.
         sret (Some \<lparr>cl_player_id = p, cl_window_id = ow_window_id window, cl_contents = contents\<rparr>))))))))"

definition active_window_id :: "'s core_backend \<Rightarrow> player_id \<Rightarrow> ('s, u8 option) core_prog" where
  "active_window_id B p =
     bind_some (b_player_session B p) (\<lambda>session. sret (map_option ow_window_id (se_active_container session)))"

definition close_inventory_window_state ::
  "'s core_backend \<Rightarrow> player_id \<Rightarrow> u8 \<Rightarrow> ('s, close_container_delta option) core_prog" where
  "close_inventory_window_state B p window_id =
     (if window_id = 0 then sret None
      else bind_some (active_window_id B p) (\<lambda>active.
        if active \<noteq> window_id then sret None
        else close_player_active_container_state B p True))"

definition allocate_non_player_window_id :: "'s core_backend \<Rightarrow> player_id \<Rightarrow> ('s, u8 option) core_prog" where
  "allocate_non_player_window_id B p =
     bind_some (b_player_session_mut B p) (\<lambda>session.
       let window_id = max (se_next_non_player_window_id session) 1 in
       sbind (b_write_player_session B p
         (session\<lparr>se_next_non_player_window_id := (if window_id = 255 then 1 else window_id + 1)\<rparr>)) (\<lambda>_.
       sret (Some window_id)))"

definition default_container_contents :: "content_behavior \<Rightarrow> container_kind_id \<Rightarrow> u16 \<Rightarrow>
    item_stack option list \<times> (container_property_key, int) btree_map" where
  "default_container_contents cb kind local_slot_count =
     (case Option.bind (cb_block_entity_kind_for_container cb kind) (cb_default_block_entity_for_kind cb) of
        Some entity \<Rightarrow> (be_slots entity, be_properties entity)
      | None \<Rightarrow> (replicate (unat local_slot_count) None, []))"

definition build_virtual_container_state :: "content_behavior \<Rightarrow> container_kind_id \<Rightarrow> open_container_state option" where
  "build_virtual_container_state cb kind =
     map_option (\<lambda>spec. case default_container_contents cb kind (sp_local_slot_count spec) of (slots, props) \<Rightarrow>
       \<lparr>oc_kind = kind, oc_binding = Virtual, oc_local_slots = slots, oc_properties = props\<rparr>) (cb_container_spec cb kind)"

definition build_world_container_state ::
  "'s core_backend \<Rightarrow> block_pos \<Rightarrow> container_kind_id \<Rightarrow> ('s, open_container_state option) core_prog" where
  "build_world_container_state B position kind =
     sbind (b_content_behavior B) (\<lambda>cb.
     case cb_container_spec cb kind of
       None \<Rightarrow> sret None
     | Some spec \<Rightarrow>
         (case cb_block_entity_kind_for_container cb kind of
            None \<Rightarrow> sret (Some \<lparr>oc_kind = kind, oc_binding = Virtual,
              oc_local_slots = replicate (unat (sp_local_slot_count spec)) None, oc_properties = []\<rparr>)
          | Some entity_kind \<Rightarrow>
              sbind (b_block_entity B position) (\<lambda>existing.
              case (case existing of
                      Some (ContainerEntity entity) \<Rightarrow>
                        if be_kind entity = entity_kind then Some entity
                        else cb_default_block_entity_for_kind cb entity_kind
                    | None \<Rightarrow> cb_default_block_entity_for_kind cb entity_kind) of
                None \<Rightarrow> sret None
              | Some entity \<Rightarrow>
                  sbind (b_set_block_entity B position (Some (ContainerEntity entity))) (\<lambda>_.
                  sret (Some \<lparr>oc_kind = kind, oc_binding = BlockBinding position entity_kind,
                    oc_local_slots = be_slots entity, oc_properties = be_properties entity\<rparr>)))))"

definition open_non_player_window_state :: "'s core_backend \<Rightarrow> player_id \<Rightarrow> open_inventory_window \<Rightarrow> string \<Rightarrow>
    ('s, open_container_delta option) core_prog" where
  "open_non_player_window_state B p window title =
     bind_some (b_player_session B p) (\<lambda>_.
     sbind (b_content_behavior B) (\<lambda>cb.
     let window = window\<lparr>ow_container := cb_normalize_container cb (ow_container window)\<rparr> in
     sbind (close_player_active_container_state B p False) (\<lambda>closed.
     bind_some (b_player_entity_id B p) (\<lambda>e.
     bind_some (b_player_inventory_by_entity B e) (\<lambda>pinv.
     bind_some (b_player_session_mut B p) (\<lambda>session.
     sbind (b_write_player_session B p (session\<lparr>se_active_container := Some window\<rparr>)) (\<lambda>_.
     sbind (case window_world_position window of
              None \<Rightarrow> sret ()
            | Some position \<Rightarrow> register_world_container_viewer_state B position p (ow_window_id window)
                                 (oc_kind (ow_container window))) (\<lambda>_.
     sret (Some \<lparr>op_closed = (case closed of Some d \<Rightarrow> [d] | None \<Rightarrow> []), op_player_id = p,
       op_window_id = ow_window_id window, op_container = oc_kind (ow_container window), op_title = title,
       op_contents = window_contents_of window pinv, op_properties = window_property_entries window\<rparr>)))))))))"

definition open_built_window :: "'s core_backend \<Rightarrow> player_id \<Rightarrow> u8 \<Rightarrow> open_container_state \<Rightarrow>
    ('s, open_container_delta option) core_prog" where
  "open_built_window B p window_id container =
     sbind (b_content_behavior B) (\<lambda>cb.
       let container = cb_normalize_container cb container in
       open_non_player_window_state B p \<lparr>ow_window_id = window_id, ow_container = container\<rparr>
         (cb_container_title cb (oc_kind container)))"

definition open_virtual_container_state ::
  "'s core_backend \<Rightarrow> player_id \<Rightarrow> container_kind_id \<Rightarrow> ('s, open_container_delta option) core_prog" where
  "open_virtual_container_state B p kind =
     bind_some (allocate_non_player_window_id B p) (\<lambda>window_id.
     sbind (b_content_behavior B) (\<lambda>cb.
     bind_some (sret (build_virtual_container_state cb kind)) (open_built_window B p window_id)))"

definition open_world_container_state ::
  "'s core_backend \<Rightarrow> player_id \<Rightarrow> block_pos \<Rightarrow> ('s, open_container_delta option) core_prog" where
  "open_world_container_state B p position =
     bind_some (b_block_state B position) (\<lambda>block.
     sbind (b_content_behavior B) (\<lambda>cb.
     bind_some (sret (cb_container_kind_for_block cb block)) (\<lambda>kind.
     bind_some (allocate_non_player_window_id B p) (\<lambda>window_id.
     bind_some (build_world_container_state B position kind) (open_built_window B p window_id)))))"

text \<open>The other viewers of a container see what the acting player's window shows.\<close>

datatype viewer_sync = Actor | Stale player_id | Synced window_diff_delta

definition shows_container :: "block_pos \<Rightarrow> container_kind_id \<Rightarrow> open_inventory_window \<Rightarrow> bool" where
  "shows_container position kind window \<longleftrightarrow>
     window_world_position window = Some position \<and> oc_kind (ow_container window) = kind"

definition sync_viewer :: "'s core_backend \<Rightarrow> block_pos \<Rightarrow> open_container_state \<Rightarrow> player_id \<Rightarrow> player_id \<Rightarrow>
    ('s, viewer_sync) core_prog" where
  "sync_viewer B position source actor viewer =
     (if viewer = actor then sret Actor
      else
        sbind (state_player_inventory B viewer) (\<lambda>inventory.
        case inventory of
          None \<Rightarrow> sret (Stale viewer)
        | Some before_inventory \<Rightarrow>
            sbind (b_player_session B viewer) (\<lambda>session.
            case Option.bind session se_active_container of
              None \<Rightarrow> sret (Stale viewer)
            | Some before_window \<Rightarrow>
                if \<not> shows_container position (oc_kind source) before_window then sret (Stale viewer)
                else
                  sbind (b_player_session_mut B viewer) (\<lambda>session.
                  case session of
                    None \<Rightarrow> sret (Stale viewer)
                  | Some session \<Rightarrow>
                      (case se_active_container session of
                         None \<Rightarrow> sret (Stale viewer)
                       | Some window \<Rightarrow>
                           if \<not> shows_container position (oc_kind source) window then sret (Stale viewer)
                           else
                             let window' = window\<lparr>ow_container := (ow_container window)
                                   \<lparr>oc_local_slots := oc_local_slots source, oc_properties := oc_properties source\<rparr>\<rparr> in
                             sbind (b_write_player_session B viewer (session\<lparr>se_active_container := Some window'\<rparr>)) (\<lambda>_.
                             sret (Synced \<lparr>wd_player_id = viewer, wd_window_id = ow_window_id window',
                               wd_container = oc_kind source,
                               wd_before_contents = window_contents_of before_window before_inventory,
                               wd_after_contents = window_contents_of window' before_inventory,
                               wd_before_properties = window_property_entries before_window,
                               wd_after_properties = window_property_entries window'\<rparr>)))))))"

fun stale_viewers :: "viewer_sync list \<Rightarrow> player_id list" where
  "stale_viewers [] = []"
| "stale_viewers (Stale p # rs) = p # stale_viewers rs"
| "stale_viewers (_ # rs) = stale_viewers rs"

fun synced_deltas :: "viewer_sync list \<Rightarrow> window_diff_delta list" where
  "synced_deltas [] = []"
| "synced_deltas (Synced d # rs) = d # synced_deltas rs"
| "synced_deltas (_ # rs) = synced_deltas rs"

definition sync_world_container_viewers_state ::
  "'s core_backend \<Rightarrow> block_pos \<Rightarrow> player_id \<Rightarrow> ('s, window_diff_delta list) core_prog" where
  "sync_world_container_viewers_state B position actor =
     sbind (b_player_session B actor) (\<lambda>session.
     case Option.bind session se_active_container of
       None \<Rightarrow> sret []
     | Some source \<Rightarrow>
         if window_world_position source \<noteq> Some position then sret []
         else
           sbind (writeback_world_container_state B source) (\<lambda>_.
           sbind (b_container_viewers B position) (\<lambda>viewers.
           case viewers of
             None \<Rightarrow> sret []
           | Some viewers \<Rightarrow>
               sbind (smap (map fst (vw_viewers viewers)) (sync_viewer B position (ow_container source) actor)) (\<lambda>results.
               sbind (sfor (stale_viewers results) (unregister_world_container_viewer_at_state B position)) (\<lambda>_.
               sret (synced_deltas results))))))"

definition tick_active_container_state :: "'s core_backend \<Rightarrow> player_id \<Rightarrow> ('s, window_diff_delta option) core_prog" where
  "tick_active_container_state B p =
     bind_some (b_player_session B p) (\<lambda>before_session.
     bind_some (sret (se_active_container before_session)) (\<lambda>before_window.
     bind_some (state_player_inventory B p) (\<lambda>before_inventory.
     sbind (b_content_behavior B) (\<lambda>cb.
     bind_some (b_player_session_inventory_mut B p) (\<lambda>(session, e, pinv).
     bind_some (sret (se_active_container session)) (\<lambda>window.
     let window' = window\<lparr>ow_container := cb_tick_container cb (ow_container window)\<rparr>;
         before_contents = window_contents_of before_window before_inventory;
         before_properties = window_property_entries before_window;
         after_contents = window_contents_of window' pinv;
         after_properties = window_property_entries window' in
     sbind (b_write_player_session B p (session\<lparr>se_active_container := Some window'\<rparr>)) (\<lambda>_.
     sbind (b_player_session B p) (\<lambda>session.
     sbind (case Option.bind session se_active_container of
              None \<Rightarrow> sret ()
            | Some w \<Rightarrow> if window_world_position w = None then sret () else writeback_world_container_state B w) (\<lambda>_.
     if before_contents = after_contents \<and> before_properties = after_properties then sret None
     else
       sbind (case window_world_position before_window of
                None \<Rightarrow> sret ()
              | Some position \<Rightarrow> sbind (sync_world_container_viewers_state B position p) (\<lambda>_. sret ())) (\<lambda>_.
       sret (Some \<lparr>wd_player_id = p, wd_window_id = ow_window_id before_window,
         wd_container = oc_kind (ow_container before_window), wd_before_contents = before_contents,
         wd_after_contents = after_contents, wd_before_properties = before_properties,
         wd_after_properties = after_properties\<rparr>)))))))))))"

definition close_world_container_viewers_state ::
  "'s core_backend \<Rightarrow> block_pos \<Rightarrow> ('s, close_container_delta list) core_prog" where
  "close_world_container_viewers_state B position =
     sbind (b_container_viewers B position) (\<lambda>viewers.
     sbind (smap (case viewers of None \<Rightarrow> [] | Some v \<Rightarrow> map fst (vw_viewers v))
              (\<lambda>viewer. close_player_active_container_state B viewer True)) (\<lambda>deltas.
     sbind (b_set_container_viewers B position None) (\<lambda>_.
     sret (List.map_filter id deltas))))"

definition close_world_container_if_invalid_state ::
  "'s core_backend \<Rightarrow> block_pos \<Rightarrow> block_state option \<Rightarrow> ('s, close_container_delta list) core_prog" where
  "close_world_container_if_invalid_state B position block =
     sbind (b_content_behavior B) (\<lambda>cb.
     let current_kind = Option.bind block (cb_container_kind_for_block cb);
         expected = Option.bind current_kind (cb_block_entity_kind_for_container cb) in
     sbind (b_block_entity B position) (\<lambda>entity.
     sbind (case entity of
              None \<Rightarrow> sret ()
            | Some (ContainerEntity container) \<Rightarrow>
                if Some (be_kind container) \<noteq> expected then b_set_block_entity B position None else sret ()) (\<lambda>_.
     sbind (b_container_viewers B position) (\<lambda>viewers.
     case viewers of
       None \<Rightarrow> sret []
     | Some viewers \<Rightarrow>
         if current_kind = Some (vw_kind viewers) then sret []
         else close_world_container_viewers_state B position))))"

definition clear_local_slots :: "u16 \<Rightarrow> player_inventory \<Rightarrow> item_stack list \<times> player_inventory" where
  "clear_local_slots local_slot_count pinv =
     fold (\<lambda>i (overflow, pinv).
       let slot = WindowLocal (word_of_nat i) in
       (overflow @ (case inventory_get_slot pinv slot of Some stack \<Rightarrow> [stack] | None \<Rightarrow> []),
        snd (inventory_set_slot slot None pinv)))
     [0..<unat local_slot_count] ([], pinv)"

definition merge_all :: "item_stack list \<Rightarrow> player_inventory \<Rightarrow> player_inventory" where
  "merge_all stacks pinv = fold (\<lambda>stack pinv. fst (merge_stack_into_player_inventory pinv stack)) stacks pinv"

definition persist_live_player_state :: "content_behavior \<Rightarrow> player_snapshot \<Rightarrow> item_stack option \<Rightarrow>
    open_inventory_window option \<Rightarrow> player_snapshot" where
  "persist_live_player_state cb snap cursor active =
     (let pinv = (case active of
                    None \<Rightarrow> ps_inventory snap
                  | Some window \<Rightarrow> fold_active_container_items_into_player cb window (ps_inventory snap));
          pinv = (case cb_container_spec cb (cb_player_container_kind cb) of
                    None \<Rightarrow> pinv
                  | Some spec \<Rightarrow>
                      (case clear_local_slots (sp_local_slot_count spec) pinv of (overflow, cleared) \<Rightarrow>
                         merge_all (overflow @ (case cursor of Some c \<Rightarrow> [c] | None \<Rightarrow> [])) cleared)) in
      snap\<lparr>ps_inventory := cb_normalize_player_inventory cb pinv\<rparr>)"

definition persisted_online_player_snapshot_state ::
  "'s core_backend \<Rightarrow> player_id \<Rightarrow> ('s, player_snapshot option) core_prog" where
  "persisted_online_player_snapshot_state B p =
     bind_some (compose_player_snapshot B p) (\<lambda>snap.
     bind_some (b_player_session B p) (\<lambda>session.
     sbind (b_content_behavior B) (\<lambda>cb.
     sret (Some (persist_live_player_state cb snap (se_cursor session) (se_active_container session))))))"

definition merge_stack_into_online_player_inventory_state :: "'s core_backend \<Rightarrow> player_id \<Rightarrow> item_stack \<Rightarrow>
    ('s, window_diff_delta option \<times> item_stack option) core_prog" where
  "merge_stack_into_online_player_inventory_state B p stack =
     sbind (b_player_session B p) (\<lambda>before_session.
     sbind (state_player_inventory B p) (\<lambda>before_inventory.
     sbind (b_player_entity_id B p) (\<lambda>entity.
     case (before_session, before_inventory, entity) of
       (Some before_session, Some before_inventory, Some e) \<Rightarrow>
         sbind (b_content_behavior B) (\<lambda>cb.
         sbind (b_player_inventory_mut B e) (\<lambda>inventory.
         case inventory of
           None \<Rightarrow> sret (None, Some stack)
         | Some inventory \<Rightarrow>
             (case merge_stack_into_player_inventory inventory stack of (inventory', leftover) \<Rightarrow>
                sbind (b_write_player_inventory B e inventory') (\<lambda>_.
                sbind (b_player_session B p) (\<lambda>after_session.
                sbind (state_player_inventory B p) (\<lambda>after_inventory.
                case (after_session, after_inventory) of
                  (Some after_session, Some after_inventory) \<Rightarrow>
                    let contents = (\<lambda>session pinv. case se_active_container session of
                          Some window \<Rightarrow> window_contents_of window pinv | None \<Rightarrow> window_contents_player pinv) in
                    sret (Some \<lparr>wd_player_id = p,
                      wd_window_id = (case se_active_container before_session of Some w \<Rightarrow> ow_window_id w | None \<Rightarrow> 0),
                      wd_container = (case se_active_container before_session of
                        Some w \<Rightarrow> oc_kind (ow_container w) | None \<Rightarrow> cb_player_container_kind cb),
                      wd_before_contents = contents before_session before_inventory,
                      wd_after_contents = contents after_session after_inventory,
                      wd_before_properties = [], wd_after_properties = []\<rparr>, leftover)
                | _ \<Rightarrow> sret (None, leftover)))))))
     | _ \<Rightarrow> sret (None, Some stack))))"

section \<open>Dropped items\<close>

definition DROPPED_ITEM_PICKUP_RADIUS_SQUARED :: f64 where "DROPPED_ITEM_PICKUP_RADIUS_SQUARED = 0x4002000000000000"
definition DROPPED_ITEM_PHYSICS_STEP_MS :: u64 where "DROPPED_ITEM_PHYSICS_STEP_MS = 50"
definition DROPPED_ITEM_GRAVITY_PER_STEP :: f64 where "DROPPED_ITEM_GRAVITY_PER_STEP = 0x3FA47AE147AE147B"
definition DROPPED_ITEM_DRAG :: f64 where "DROPPED_ITEM_DRAG = 0x3FEF5C28F5C28F5C"
definition DROPPED_ITEM_REST_HEIGHT :: f64 where "DROPPED_ITEM_REST_HEIGHT = 0x3FD0000000000000"

fun find_rest_block :: "'s core_backend \<Rightarrow> int \<Rightarrow> int \<Rightarrow> int list \<Rightarrow> ('s, int option) core_prog" where
  "find_rest_block B x z [] = sret None"
| "find_rest_block B x z (y # ys) =
     sbind (b_block_state B (block_pos_new x y z)) (\<lambda>block.
     sbind (b_content_behavior B) (\<lambda>cb.
     if (case block of None \<Rightarrow> True | Some block \<Rightarrow> cb_is_air_block cb block) then find_rest_block B x z ys
     else sret (Some y)))"

definition dropped_item_rest_y :: "'s core_backend \<Rightarrow> f64 \<Rightarrow> f64 \<Rightarrow> f64 \<Rightarrow> ('s, f64 option) core_prog" where
  "dropped_item_rest_y B x y z =
     (let max_block_y = max 0 (min 255 (f64_floor_as_i32 y)) in
      sbind (find_rest_block B (f64_floor_as_i32 x) (f64_floor_as_i32 z) (rev [0..max_block_y])) (\<lambda>block_y.
      sret (map_option (\<lambda>b. f64_add (f64_add (f64_of_int b) F64_ONE) DROPPED_ITEM_REST_HEIGHT) block_y)))"

definition advance_dropped_item_step :: "'s core_backend \<Rightarrow> dropped_item_state \<Rightarrow> ('s, dropped_item_state) core_prog" where
  "advance_dropped_item_step B item =
     (let snap = ds_snapshot item;
          velocity_y = f64_mul (f64_sub (v_y (di_velocity snap)) DROPPED_ITEM_GRAVITY_PER_STEP) DROPPED_ITEM_DRAG;
          next_y = f64_add (v_y (di_position snap)) velocity_y;
          put = (\<lambda>y vy. item\<lparr>ds_snapshot := snap\<lparr>di_position := (di_position snap)\<lparr>v_y := y\<rparr>,
                   di_velocity := (di_velocity snap)\<lparr>v_y := vy\<rparr>\<rparr>\<rparr>) in
      sbind (dropped_item_rest_y B (v_x (di_position snap)) next_y (v_z (di_position snap))) (\<lambda>rest.
      case rest of
        Some rest_y \<Rightarrow> if f64_le next_y rest_y then sret (put rest_y 0) else sret (put next_y velocity_y)
      | None \<Rightarrow> sret (put next_y velocity_y)))"

primrec advance_dropped_item_steps :: "'s core_backend \<Rightarrow> nat \<Rightarrow> dropped_item_state \<Rightarrow> ('s, dropped_item_state) core_prog" where
  "advance_dropped_item_steps B 0 item = sret item"
| "advance_dropped_item_steps B (Suc n) item = sbind (advance_dropped_item_step B item) (advance_dropped_item_steps B n)"

definition saturating_mul_word :: "u64 \<Rightarrow> u64 \<Rightarrow> u64" where
  "saturating_mul_word a b = (if unat a * unat b < 2 ^ 64 then a * b else - 1)"

definition advance_dropped_item_entity :: "'s core_backend \<Rightarrow> dropped_item_state \<Rightarrow> u64 \<Rightarrow> ('s, dropped_item_state) core_prog" where
  "advance_dropped_item_entity B item now_ms =
     (let elapsed_ms = saturating_sub_word now_ms (ds_last_updated_at_ms item);
          step_count = elapsed_ms div DROPPED_ITEM_PHYSICS_STEP_MS in
      if step_count = 0 then sret item
      else sbind (advance_dropped_item_steps B (unat step_count) item) (\<lambda>item.
        sret (item\<lparr>ds_last_updated_at_ms := saturating_add_word (ds_last_updated_at_ms item)
          (saturating_mul_word step_count DROPPED_ITEM_PHYSICS_STEP_MS)\<rparr>)))"

definition distance_squared :: "vec3 \<Rightarrow> vec3 \<Rightarrow> f64" where
  "distance_squared l r =
     f64_add (f64_add (f64_square (f64_sub (v_x l) (v_x r))) (f64_square (f64_sub (v_y l) (v_y r))))
       (f64_square (f64_sub (v_z l) (v_z r)))"

fun nearest_player :: "'s core_backend \<Rightarrow> vec3 \<Rightarrow> player_id list \<Rightarrow> (player_id \<times> f64) option \<Rightarrow>
    ('s, player_id option) core_prog" where
  "nearest_player B position [] best = sret (map_option fst best)"
| "nearest_player B position (p # ps) best =
     sbind (state_player_transform B p) (\<lambda>transform.
     case transform of
       None \<Rightarrow> nearest_player B position ps best
     | Some transform \<Rightarrow>
         let d = distance_squared (pt_position transform) position in
         if f64_lt DROPPED_ITEM_PICKUP_RADIUS_SQUARED d then nearest_player B position ps best
         else case best of
           Some (q, best_d) \<Rightarrow>
             if f64_le best_d d then nearest_player B position ps best
             else nearest_player B position ps (Some (p, d))
         | None \<Rightarrow> nearest_player B position ps (Some (p, d)))"

definition nearest_pickup_player_in :: "'s core_backend \<Rightarrow> vec3 \<Rightarrow> ('s, player_id option) core_prog" where
  "nearest_pickup_player_in B position = sbind (b_player_ids B) (\<lambda>ids. nearest_player B position ids None)"

definition no_tick_delta :: dropped_item_tick_delta where
  "no_tick_delta = \<lparr>dt_inventory_delta = None, dt_despawn = None\<rparr>"

definition tick_dropped_item_state :: "'s core_backend \<Rightarrow> entity_id \<Rightarrow> u64 \<Rightarrow> ('s, dropped_item_tick_delta) core_prog" where
  "tick_dropped_item_state B e now_ms =
     sbind (b_take_dropped_item B e) (\<lambda>item.
     case item of
       None \<Rightarrow> sret no_tick_delta
     | Some item \<Rightarrow>
         sbind (advance_dropped_item_entity B item now_ms) (\<lambda>item.
         if now_ms \<ge> ds_despawn_at_ms item then
           sbind (b_set_entity_kind B e None) (\<lambda>_. sret \<lparr>dt_inventory_delta = None, dt_despawn = Some [e]\<rparr>)
         else if now_ms < ds_pickup_allowed_at_ms item then
           sbind (b_set_dropped_item B e (Some item)) (\<lambda>_. sret no_tick_delta)
         else
           sbind (nearest_pickup_player_in B (di_position (ds_snapshot item))) (\<lambda>player.
           case player of
             None \<Rightarrow> sbind (b_set_dropped_item B e (Some item)) (\<lambda>_. sret no_tick_delta)
           | Some p \<Rightarrow>
               sbind (merge_stack_into_online_player_inventory_state B p (di_item (ds_snapshot item))) (\<lambda>(delta, leftover).
               case leftover of
                 Some leftover \<Rightarrow>
                   sbind (b_set_dropped_item B e (Some (item\<lparr>ds_snapshot := (ds_snapshot item)\<lparr>di_item := leftover\<rparr>\<rparr>))) (\<lambda>_.
                   sret \<lparr>dt_inventory_delta = delta, dt_despawn = None\<rparr>)
               | None \<Rightarrow>
                   sbind (b_set_entity_kind B e None) (\<lambda>_.
                   sret \<lparr>dt_inventory_delta = delta, dt_despawn = Some [e]\<rparr>)))))"

section \<open>Inventory clicks\<close>

definition apply_click :: "content_behavior \<Rightarrow> u8 \<Rightarrow> inventory_click_target \<Rightarrow> inventory_click_button \<Rightarrow>
    player_session_state \<times> player_inventory \<Rightarrow> core_panic + bool \<times> player_session_state \<times> player_inventory" where
  "apply_click cb window_id target button = (\<lambda>(session, pinv).
     let slot = resolve_inventory_target target in
     if window_id = 0 then
       (case target of
          Outside \<Rightarrow>
            (case apply_outside_click button (se_cursor session) of
               (applied, cursor') \<Rightarrow> Inr (applied, session\<lparr>se_cursor := cursor'\<rparr>, pinv))
        | _ \<Rightarrow>
            bind_res (apply_player_window_click cb slot button (pinv, se_cursor session)) (\<lambda>(applied, pinv', cursor').
              Inr (applied, session\<lparr>se_cursor := cursor'\<rparr>, pinv')))
     else apply_active_container_click cb window_id slot target button (session, pinv))"

definition click_accepted :: "inventory_click_validation \<Rightarrow> bool \<Rightarrow> inventory_slot option \<Rightarrow>
    inventory_window_contents \<Rightarrow> bool" where
  "click_accepted validation applied slot after_contents =
     (case validation of
        Authoritative \<Rightarrow> applied
      | StrictSlotEcho clicked_item \<Rightarrow>
          applied \<and> slot \<noteq> None \<and> clicked_item = Option.bind slot (window_contents_get_slot after_contents))"

definition properties_of_window :: "player_session_state \<Rightarrow> u8 \<Rightarrow> (container_property_key \<times> int) list" where
  "properties_of_window session window_id =
     (case active_window session window_id of Some w \<Rightarrow> window_property_entries w | None \<Rightarrow> [])"

definition apply_inventory_click_state :: "'s core_backend \<Rightarrow> player_id \<Rightarrow> inventory_transaction_context \<Rightarrow>
    inventory_click_target \<Rightarrow> inventory_click_button \<Rightarrow> inventory_click_validation \<Rightarrow>
    ('s, inventory_click_delta option) core_prog" where
  "apply_inventory_click_state B p transaction target button validation =
     sbind (b_content_behavior B) (\<lambda>cb.
     bind_some (b_player_session B p) (\<lambda>before_session.
     bind_some (compose_player_snapshot B p) (\<lambda>before_snapshot.
     bind_some (state_player_inventory B p) (\<lambda>before_inventory.
     let window_id = tc_window_id transaction;
         slot = resolve_inventory_target target;
         base_delta = \<lparr>ic_player_id = p, ic_transaction = transaction, ic_accepted = False,
           ic_should_resync_on_reject = False, ic_container = cb_player_container_kind cb, ic_window_id = window_id,
           ic_resolved_slot = None, ic_before_contents = window_contents_player before_inventory,
           ic_after_contents = window_contents_player before_inventory, ic_before_properties = [],
           ic_after_properties = [], ic_before_cursor = se_cursor before_session,
           ic_after_cursor = se_cursor before_session,
           ic_selected_hotbar_before = ps_selected_hotbar_slot before_snapshot,
           ic_selected_hotbar_after = ps_selected_hotbar_slot before_snapshot, ic_world_sync = []\<rparr> in
     case active_window_container cb before_session window_id of
       None \<Rightarrow> sret (Some base_delta)
     | Some container \<Rightarrow>
         bind_some (b_player_session_inventory_mut B p) (\<lambda>(session, e, pinv).
         sbind (slift (apply_click cb window_id target button (session, pinv))) (\<lambda>(applied, session', pinv').
         sbind (b_write_player_session B p session') (\<lambda>_.
         sbind (b_write_player_inventory B e pinv') (\<lambda>_.
         let after_contents = window_contents cb session' pinv' container;
             accepted = click_accepted validation applied slot after_contents in
         sbind (state_player_selected_hotbar B p) (\<lambda>selected.
         sbind (if accepted
                then (case Option.bind (active_window before_session window_id) window_world_position of
                        None \<Rightarrow> sret []
                      | Some position \<Rightarrow> sync_world_container_viewers_state B position p)
                else sret []) (\<lambda>world_sync.
         sret (Some (base_delta\<lparr>ic_accepted := accepted, ic_should_resync_on_reject := True,
           ic_container := container, ic_resolved_slot := slot,
           ic_before_contents := window_contents cb before_session before_inventory container,
           ic_after_contents := after_contents,
           ic_before_properties := properties_of_window before_session window_id,
           ic_after_properties := properties_of_window session' window_id,
           ic_after_cursor := se_cursor session',
           ic_selected_hotbar_after := (case selected of Some n \<Rightarrow> n | None \<Rightarrow> 0),
           ic_world_sync := world_sync\<rparr>))))))))))))"

section \<open>The programs on two backends\<close>

lemma sim_case_block_entity [sim_intros]:
  "(\<And>c. sim R (f c) (g c)) \<Longrightarrow>
    sim R (case v of ContainerEntity c \<Rightarrow> f c) (case v of ContainerEntity c \<Rightarrow> g c)"
  by (cases v) simp

context backend_simulation
begin

lemma sim_window_programs [sim_intros]:
  "sim R (writeback_world_container_state B window) (writeback_world_container_state C window)"
  "sim R (register_world_container_viewer_state B position p window_id kind) (register_world_container_viewer_state C position p window_id kind)"
  "sim R (unregister_world_container_viewer_at_state B position p) (unregister_world_container_viewer_at_state C position p)"
  "sim R (allocate_non_player_window_id B p) (allocate_non_player_window_id C p)"
  "sim R (build_world_container_state B position kind) (build_world_container_state C position kind)"
  "sim R (active_window_id B p) (active_window_id C p)"
  unfolding writeback_world_container_state_def register_world_container_viewer_state_def
    unregister_world_container_viewer_at_state_def allocate_non_player_window_id_def build_world_container_state_def
    active_window_id_def Let_def
  by (intro sim_intros)+

lemma sim_close [sim_intros]:
  "sim R (unregister_world_container_viewer_state B window p) (unregister_world_container_viewer_state C window p)"
  "sim R (close_player_active_container_state B p b) (close_player_active_container_state C p b)"
  "sim R (close_inventory_window_state B p w) (close_inventory_window_state C p w)"
  "sim R (close_world_container_viewers_state B position) (close_world_container_viewers_state C position)"
  "sim R (close_world_container_if_invalid_state B position block) (close_world_container_if_invalid_state C position block)"
  unfolding unregister_world_container_viewer_state_def close_player_active_container_state_def
    close_inventory_window_state_def close_world_container_viewers_state_def
    close_world_container_if_invalid_state_def Let_def
  by (intro sim_intros)+

lemma sim_open [sim_intros]:
  "sim R (open_non_player_window_state B p window title) (open_non_player_window_state C p window title)"
  "sim R (open_built_window B p window_id container) (open_built_window C p window_id container)"
  "sim R (open_virtual_container_state B p kind) (open_virtual_container_state C p kind)"
  "sim R (open_world_container_state B p position) (open_world_container_state C p position)"
  unfolding open_non_player_window_state_def open_virtual_container_state_def open_world_container_state_def
    open_built_window_def Let_def
  by (intro sim_intros)+

lemma sim_sync [sim_intros]:
  "sim R (sync_viewer B position source actor viewer) (sync_viewer C position source actor viewer)"
  "sim R (sync_world_container_viewers_state B position actor) (sync_world_container_viewers_state C position actor)"
  "sim R (tick_active_container_state B p) (tick_active_container_state C p)"
  unfolding sync_viewer_def sync_world_container_viewers_state_def tick_active_container_state_def Let_def
  by (intro sim_intros)+

lemma sim_persist [sim_intros]:
  "sim R (persisted_online_player_snapshot_state B p) (persisted_online_player_snapshot_state C p)"
  "sim R (merge_stack_into_online_player_inventory_state B p stack) (merge_stack_into_online_player_inventory_state C p stack)"
  unfolding persisted_online_player_snapshot_state_def merge_stack_into_online_player_inventory_state_def Let_def
  by (intro sim_intros)+

lemma sim_find_rest_block [sim_intros]: "sim R (find_rest_block B x z ys) (find_rest_block C x z ys)"
proof (induction ys)
  case (Cons y ys)
  show ?case by (simp del: sim_if) (intro sim_intros Cons)
qed (simp add: sim_intros)

lemma sim_advance_steps [sim_intros]: "sim R (advance_dropped_item_steps B n item) (advance_dropped_item_steps C n item)"
proof (induction n arbitrary: item)
  case (Suc n)
  have "sim R (advance_dropped_item_step B item) (advance_dropped_item_step C item)"
    unfolding advance_dropped_item_step_def dropped_item_rest_y_def Let_def by (intro sim_intros)
  then show ?case by (simp add: sim_sbind Suc)
qed (simp add: sim_intros)

lemma sim_nearest_player [sim_intros]: "sim R (nearest_player B position ps best) (nearest_player C position ps best)"
proof (induction ps arbitrary: best)
  case (Cons p ps)
  show ?case unfolding nearest_player.simps Let_def by (intro sim_intros Cons)
qed (simp add: sim_intros)

lemma sim_tick_dropped_item [sim_intros]:
  "sim R (tick_dropped_item_state B e now_ms) (tick_dropped_item_state C e now_ms)"
  unfolding tick_dropped_item_state_def advance_dropped_item_entity_def nearest_pickup_player_in_def Let_def
  by (intro sim_intros)

lemma sim_inventory_click [sim_intros]:
  "sim R (apply_inventory_click_state B p transaction target button validation)
     (apply_inventory_click_state C p transaction target button validation)"
  unfolding apply_inventory_click_state_def Let_def by (intro sim_intros)

end

end
