(* ===== verification/Canonical_Content.thy ===== *)
theory Canonical_Content
  imports Voxel_Model "HOL-Library.Multiset"
begin

text \<open>
  The crate \<open>mc-content-canonical\<close>: the catalogue of block and item keys, the containers, crafting, and
  the furnace. A function on \<open>&mut\<close> slots returns the slots it leaves. The container properties are
  \<open>i16\<close> values, represented as integers; \<open>saturating_add\<close> and \<open>saturating_sub\<close> are written out.

  The mining times are products of \<open>f32\<close> hardness constants by 30, rounded up; the products are the exact
  integers, so the hardness is kept in tenths.
\<close>

section \<open>Catalogue\<close>

definition STONE :: string where "STONE = ''minecraft:stone''"
definition AIR :: string where "AIR = ''minecraft:air''"
definition DIRT :: string where "DIRT = ''minecraft:dirt''"
definition GRASS_BLOCK :: string where "GRASS_BLOCK = ''minecraft:grass_block''"
definition COBBLESTONE :: string where "COBBLESTONE = ''minecraft:cobblestone''"
definition OAK_PLANKS :: string where "OAK_PLANKS = ''minecraft:oak_planks''"
definition BEDROCK :: string where "BEDROCK = ''minecraft:bedrock''"
definition SAND :: string where "SAND = ''minecraft:sand''"
definition SANDSTONE :: string where "SANDSTONE = ''minecraft:sandstone''"
definition GLASS :: string where "GLASS = ''minecraft:glass''"
definition BRICKS :: string where "BRICKS = ''minecraft:bricks''"
definition OAK_LOG :: string where "OAK_LOG = ''minecraft:oak_log''"
definition STICK :: string where "STICK = ''minecraft:stick''"
definition CRAFTING_TABLE :: string where "CRAFTING_TABLE = ''minecraft:crafting_table''"
definition CHEST :: string where "CHEST = ''minecraft:chest''"
definition FURNACE :: string where "FURNACE = ''minecraft:furnace''"

definition PLAYER_ID :: string where "PLAYER_ID = ''canonical:player''"
definition CRAFTING_TABLE_ID :: string where "CRAFTING_TABLE_ID = ''canonical:crafting_table''"
definition CHEST_27_ID :: string where "CHEST_27_ID = ''canonical:chest_27''"
definition FURNACE_ID :: string where "FURNACE_ID = ''canonical:furnace''"
definition CHEST_BLOCK_ENTITY :: string where "CHEST_BLOCK_ENTITY = ''canonical:chest''"
definition FURNACE_BLOCK_ENTITY :: string where "FURNACE_BLOCK_ENTITY = ''canonical:furnace''"
definition FURNACE_BURN_LEFT :: string where "FURNACE_BURN_LEFT = ''canonical:furnace.burn_left''"
definition FURNACE_BURN_MAX :: string where "FURNACE_BURN_MAX = ''canonical:furnace.burn_max''"
definition FURNACE_COOK_PROGRESS :: string where "FURNACE_COOK_PROGRESS = ''canonical:furnace.cook_progress''"
definition FURNACE_COOK_TOTAL_KEY :: string where "FURNACE_COOK_TOTAL_KEY = ''canonical:furnace.cook_total''"

lemmas catalog_keys = STONE_def AIR_def DIRT_def GRASS_BLOCK_def COBBLESTONE_def OAK_PLANKS_def BEDROCK_def
  SAND_def SANDSTONE_def GLASS_def BRICKS_def OAK_LOG_def STICK_def CRAFTING_TABLE_def CHEST_def FURNACE_def

lemmas id_keys = PLAYER_ID_def CRAFTING_TABLE_ID_def CHEST_27_ID_def FURNACE_ID_def CHEST_BLOCK_ENTITY_def
  FURNACE_BLOCK_ENTITY_def FURNACE_BURN_LEFT_def FURNACE_BURN_MAX_def FURNACE_COOK_PROGRESS_def
  FURNACE_COOK_TOTAL_KEY_def

definition PLAYER_LOCAL_SLOT_COUNT :: u16 where "PLAYER_LOCAL_SLOT_COUNT = 9"

definition FURNACE_COOK_TOTAL :: int where "FURNACE_COOK_TOTAL = 200"

definition creative_starter_inventory :: player_inventory where
  "creative_starter_inventory =
     fold (\<lambda>(slot, key) pinv. snd (inventory_set slot (Some (item_stack_new key 64 0)) pinv))
       (zip [36, 37, 38, 39, 40, 41, 42, 43, 44]
            [STONE, DIRT, GRASS_BLOCK, COBBLESTONE, OAK_PLANKS, SAND, SANDSTONE, GLASS, BRICKS])
       inventory_new_empty"

definition item_supported_for_inventory :: "string \<Rightarrow> bool" where
  "item_supported_for_inventory key \<longleftrightarrow>
     key \<in> set [STONE, DIRT, GRASS_BLOCK, COBBLESTONE, OAK_PLANKS, SAND, SANDSTONE, GLASS, BRICKS,
                OAK_LOG, STICK, CRAFTING_TABLE, CHEST, FURNACE]"

definition placeable_block_state_from_item_key :: "string \<Rightarrow> block_state option" where
  "placeable_block_state_from_item_key key =
     (if key \<in> set [STONE, DIRT, GRASS_BLOCK, COBBLESTONE, OAK_PLANKS, SAND, SANDSTONE, GLASS, BRICKS,
                    CRAFTING_TABLE, CHEST, FURNACE]
      then Some (block_state_new key) else None)"

definition default_column_blocks :: "u8 \<Rightarrow> u8 \<Rightarrow> chunk_column \<Rightarrow> chunk_column" where
  "default_column_blocks x z c =
     column_set_block x 3 z (Some (block_state_new GRASS_BLOCK))
      (column_set_block x 2 z (Some (block_state_new DIRT))
        (column_set_block x 1 z (Some (block_state_new STONE))
          (column_set_block x 0 z (Some (block_state_new BEDROCK)) c)))"

definition default_chunk :: "chunk_pos \<Rightarrow> chunk_column" where
  "default_chunk p =
     fold (\<lambda>z c. fold (\<lambda>x c. default_column_blocks (word_of_nat x) (word_of_nat z) c) [0..<16] c)
       [0..<16] (column_new p)"

definition furnace_default_properties :: "(container_property_key, int) btree_map" where
  "furnace_default_properties =
     bt_insert FURNACE_COOK_TOTAL_KEY FURNACE_COOK_TOTAL
       (bt_insert FURNACE_COOK_PROGRESS 0 (bt_insert FURNACE_BURN_MAX 0 (bt_insert FURNACE_BURN_LEFT 0 [])))"

definition default_block_entity_for_kind :: "block_entity_kind_id \<Rightarrow> container_block_entity_state option" where
  "default_block_entity_for_kind kind =
     (if kind = CHEST_BLOCK_ENTITY
      then Some \<lparr>be_kind = kind, be_slots = replicate 27 None, be_properties = []\<rparr>
      else if kind = FURNACE_BLOCK_ENTITY
      then Some \<lparr>be_kind = kind, be_slots = replicate 3 None, be_properties = furnace_default_properties\<rparr>
      else None)"

definition default_block_entity_for_block :: "block_state \<Rightarrow> container_block_entity_state option" where
  "default_block_entity_for_block block =
     (if bs_key block = CHEST then default_block_entity_for_kind CHEST_BLOCK_ENTITY
      else if bs_key block = FURNACE then default_block_entity_for_kind FURNACE_BLOCK_ENTITY
      else None)"

definition canonical_container_spec :: "container_kind_id \<Rightarrow> container_spec option" where
  "canonical_container_spec kind =
     (if kind = PLAYER_ID then
        Some \<lparr>sp_local_slot_count = PLAYER_LOCAL_SLOT_COUNT,
              sp_slot_roles = [(0, OutputOnly), (5, Unavailable), (6, Unavailable), (7, Unavailable), (8, Unavailable)]\<rparr>
      else if kind = CRAFTING_TABLE_ID then
        Some \<lparr>sp_local_slot_count = 10, sp_slot_roles = [(0, OutputOnly)]\<rparr>
      else if kind = CHEST_27_ID then
        Some \<lparr>sp_local_slot_count = 27, sp_slot_roles = []\<rparr>
      else if kind = FURNACE_ID then
        Some \<lparr>sp_local_slot_count = 3, sp_slot_roles = [(2, OutputOnly)]\<rparr>
      else None)"

definition container_title :: "container_kind_id \<Rightarrow> string" where
  "container_title kind =
     (if kind = PLAYER_ID then ''Player'' else if kind = CRAFTING_TABLE_ID then ''Crafting''
      else if kind = CHEST_27_ID then ''Chest'' else if kind = FURNACE_ID then ''Furnace'' else kind)"

definition container_kind_for_block :: "block_state \<Rightarrow> container_kind_id option" where
  "container_kind_for_block block =
     (if bs_key block = CRAFTING_TABLE then Some CRAFTING_TABLE_ID
      else if bs_key block = CHEST then Some CHEST_27_ID
      else if bs_key block = FURNACE then Some FURNACE_ID else None)"

definition block_entity_kind_for_container :: "container_kind_id \<Rightarrow> block_entity_kind_id option" where
  "block_entity_kind_for_container kind =
     (if kind = CHEST_27_ID then Some CHEST_BLOCK_ENTITY
      else if kind = FURNACE_ID then Some FURNACE_BLOCK_ENTITY else None)"

definition container_kind_for_block_entity :: "container_block_entity_state \<Rightarrow> container_kind_id option" where
  "container_kind_for_block_entity e =
     (if be_kind e = CHEST_BLOCK_ENTITY then Some CHEST_27_ID
      else if be_kind e = FURNACE_BLOCK_ENTITY then Some FURNACE_ID else None)"

definition is_air_block :: "block_state \<Rightarrow> bool" where
  "is_air_block block = (bs_key block = AIR)"

definition is_unbreakable_block :: "block_state \<Rightarrow> bool" where
  "is_unbreakable_block block = (bs_key block = BEDROCK)"

definition survival_hardness_tenths :: "block_state \<Rightarrow> nat option" where
  "survival_hardness_tenths block =
     map_of [(STONE, 15), (GRASS_BLOCK, 6), (DIRT, 5), (COBBLESTONE, 20), (OAK_PLANKS, 20), (SAND, 5),
             (SANDSTONE, 8), (GLASS, 3), (BRICKS, 20), (CRAFTING_TABLE, 25), (CHEST, 25), (FURNACE, 35)]
       (bs_key block)"

definition survival_mining_duration_ms :: "block_state \<Rightarrow> mining_tool_spec option \<Rightarrow> nat option" where
  "survival_mining_duration_ms block tool =
     (case survival_hardness_tenths block of
        None \<Rightarrow> None
      | Some hardness \<Rightarrow> let ticks = div_ceil (hardness * 30) 10 in Some (max ticks 1 * 50))"

definition survival_drop_for_block :: "block_state \<Rightarrow> item_stack option" where
  "survival_drop_for_block block =
     (case map_of [(STONE, COBBLESTONE), (GRASS_BLOCK, DIRT), (DIRT, DIRT), (COBBLESTONE, COBBLESTONE),
                   (OAK_PLANKS, OAK_PLANKS), (SAND, SAND), (SANDSTONE, SANDSTONE), (BRICKS, BRICKS),
                   (CRAFTING_TABLE, CRAFTING_TABLE), (CHEST, CHEST), (FURNACE, FURNACE)] (bs_key block) of
        None \<Rightarrow> None
      | Some key \<Rightarrow> Some (item_stack_new key 1 0))"

section \<open>Taking an output\<close>

type_synonym slots = "item_stack option list"

definition slot_at :: "slots \<Rightarrow> nat \<Rightarrow> item_stack option" where
  "slot_at slots i = (if i < length slots then slots ! i else None)"

text \<open>Lowering a count; an emptied stack leaves its slot.\<close>

definition take_from :: "u8 \<Rightarrow> item_stack \<Rightarrow> item_stack option" where
  "take_from n stack =
     (let left = saturating_sub_word (is_count stack) n
      in if left = 0 then None else Some (stack\<lparr>is_count := left\<rparr>))"

text \<open>What reaches the cursor: \<open>None\<close> when it holds something that cannot take the output.\<close>

definition cursor_gain :: "item_stack option \<Rightarrow> item_stack \<Rightarrow> u8 \<Rightarrow> item_stack option" where
  "cursor_gain cursor output take_count =
     (case cursor of
        None \<Rightarrow> Some (output\<lparr>is_count := take_count\<rparr>)
      | Some existing \<Rightarrow>
          if is_key existing = is_key output \<and> unat (is_count existing) + unat take_count \<le> 64
          then Some (existing\<lparr>is_count := saturating_add_word (is_count existing) take_count\<rparr>)
          else None)"

definition click_count :: "inventory_click_button \<Rightarrow> item_stack \<Rightarrow> u8" where
  "click_count button output = (case button of LeftButton \<Rightarrow> is_count output | RightButton \<Rightarrow> 1)"

definition take_output_slot ::
  "nat \<Rightarrow> inventory_click_button \<Rightarrow> slots \<times> item_stack option \<Rightarrow> bool \<times> slots \<times> item_stack option" where
  "take_output_slot output_index button = (\<lambda>(slots, cursor).
     case slot_at slots output_index of
       None \<Rightarrow> (False, slots, cursor)
     | Some output \<Rightarrow>
         let take_count = click_count button output in
         if take_count = 0 then (False, slots, cursor)
         else case cursor_gain cursor output take_count of
                None \<Rightarrow> (False, slots, cursor)
              | Some cursor' \<Rightarrow> (True, slots[output_index := take_from take_count output], Some cursor'))"

section \<open>Crafting\<close>

definition crafting_defs :: "(string option list \<times> nat \<times> nat \<times> string \<times> u8) list" where
  "crafting_defs =
    [([Some OAK_LOG], 1, 1, OAK_PLANKS, 4),
     ([Some OAK_PLANKS, Some OAK_PLANKS], 1, 2, STICK, 4),
     ([Some SAND, Some SAND, Some SAND, Some SAND], 2, 2, SANDSTONE, 1),
     ([Some OAK_PLANKS, Some OAK_PLANKS, Some OAK_PLANKS, Some OAK_PLANKS], 2, 2, CRAFTING_TABLE, 1),
     ([Some OAK_PLANKS, Some OAK_PLANKS, Some OAK_PLANKS,
       Some OAK_PLANKS, None, Some OAK_PLANKS,
       Some OAK_PLANKS, Some OAK_PLANKS, Some OAK_PLANKS], 3, 3, CHEST, 1),
     ([Some COBBLESTONE, Some COBBLESTONE, Some COBBLESTONE,
       Some COBBLESTONE, None, Some COBBLESTONE,
       Some COBBLESTONE, Some COBBLESTONE, Some COBBLESTONE], 3, 3, FURNACE, 1)]"

definition occupied_inputs :: "slots \<Rightarrow> (nat \<times> item_stack) list" where
  "occupied_inputs inputs =
     map (\<lambda>(i, s). (i, the s)) (filter (\<lambda>(i, s). s \<noteq> None) (enumerate 0 inputs))"

definition max_list :: "nat list \<Rightarrow> nat" where
  "max_list xs = foldr max xs 0"

fun find_recipe ::
  "string option list \<Rightarrow> nat \<Rightarrow> nat \<Rightarrow> (string option list \<times> nat \<times> nat \<times> string \<times> u8) list \<Rightarrow>
   (string \<times> u8) option" where
  "find_recipe cells w h [] = None"
| "find_recipe cells w h ((pattern, pw, ph, output_key, output_count) # defs) =
     (if pw \<noteq> w \<or> ph \<noteq> h then find_recipe cells w h defs
      else if list_all (\<lambda>(expected, actual). expected = actual) (zip pattern cells)
      then Some (output_key, output_count)
      else find_recipe cells w h defs)"

definition current_crafting_recipe :: "slots \<Rightarrow> nat \<Rightarrow> (item_stack \<times> nat list) option" where
  "current_crafting_recipe inputs width =
     (let occ = occupied_inputs inputs in
      if occ = [] then None
      else
        let min_x = min_list (map (\<lambda>(i, _). i mod width) occ);
            max_x = max_list (map (\<lambda>(i, _). i mod width) occ);
            min_y = min_list (map (\<lambda>(i, _). i div width) occ);
            max_y = max_list (map (\<lambda>(i, _). i div width) occ);
            w = max_x - min_x + 1; h = max_y - min_y + 1;
            place = (\<lambda>i. (i div width - min_y) * w + (i mod width - min_x));
            cells = fold (\<lambda>(i, s) cs. cs[place i := Some (is_key s)]) occ (replicate (w * h) None);
            originals = fold (\<lambda>(i, s) os. os[place i := Some i]) occ (replicate (w * h) None)
        in case find_recipe cells w h crafting_defs of
             None \<Rightarrow> None
           | Some (output_key, output_count) \<Rightarrow>
               Some (item_stack_new output_key output_count 0, List.map_filter id originals))"

definition crafting_inputs :: "slots \<Rightarrow> nat \<Rightarrow> slots" where
  "crafting_inputs slots width = (if width = 2 then take 4 (drop 1 slots) else take 9 (drop 1 slots))"

text \<open>The result slot is slot 0; Rust panics on an empty slot list, the model leaves it.\<close>

definition recompute_crafting_result :: "nat \<Rightarrow> slots \<Rightarrow> slots" where
  "recompute_crafting_result width slots =
     slots[0 := map_option fst (current_crafting_recipe (crafting_inputs slots width) width)]"

definition consume_input :: "nat \<Rightarrow> nat \<Rightarrow> slots \<Rightarrow> slots" where
  "consume_input input_start index slots =
     (case slot_at slots (input_start + index) of
        None \<Rightarrow> slots
      | Some stack \<Rightarrow> slots[input_start + index := take_from 1 stack])"

definition take_crafting_result ::
  "nat \<Rightarrow> nat \<Rightarrow> nat \<Rightarrow> inventory_click_button \<Rightarrow> slots \<times> item_stack option \<Rightarrow>
   bool \<times> slots \<times> item_stack option" where
  "take_crafting_result input_start input_count width button = (\<lambda>(slots, cursor).
     case current_crafting_recipe (take input_count (drop input_start slots)) width of
       None \<Rightarrow> (False, recompute_crafting_result width slots, cursor)
     | Some (output, consume) \<Rightarrow>
         (case cursor_gain cursor output (click_count button output) of
            None \<Rightarrow> (False, slots, cursor)
          | Some cursor' \<Rightarrow>
              (True, recompute_crafting_result width (fold (consume_input input_start) consume slots),
               Some cursor')))"

definition take_player_crafting_result ::
  "inventory_click_button \<Rightarrow> slots \<times> item_stack option \<Rightarrow> bool \<times> slots \<times> item_stack option" where
  "take_player_crafting_result button = take_crafting_result 1 4 2 button"

definition take_container_crafting_result ::
  "inventory_click_button \<Rightarrow> slots \<times> item_stack option \<Rightarrow> bool \<times> slots \<times> item_stack option" where
  "take_container_crafting_result button = take_crafting_result 1 9 3 button"

definition recompute_crafting_result_for_player :: "player_inventory \<Rightarrow> player_inventory" where
  "recompute_crafting_result_for_player pinv =
     (let slots = map (\<lambda>i. inventory_get_slot pinv (WindowLocal (word_of_nat i)))
                    [0..<unat PLAYER_LOCAL_SLOT_COUNT]
      in fold (\<lambda>(i, stack) pinv. snd (inventory_set_slot (WindowLocal (word_of_nat i)) stack pinv))
           (enumerate 0 (recompute_crafting_result 2 slots)) pinv)"

section \<open>The furnace\<close>

definition property :: "container_property_key \<Rightarrow> open_container_state \<Rightarrow> int" where
  "property key st = (case map_of (oc_properties st) key of None \<Rightarrow> 0 | Some v \<Rightarrow> v)"

definition set_property :: "container_property_key \<Rightarrow> int \<Rightarrow> open_container_state \<Rightarrow> open_container_state" where
  "set_property key v st = st\<lparr>oc_properties := bt_insert key v (oc_properties st)\<rparr>"

definition furnace_available_output :: "slots \<Rightarrow> item_stack option" where
  "furnace_available_output slots =
     (case slot_at slots 0 of
        None \<Rightarrow> None
      | Some input \<Rightarrow>
          (case (if is_key input = SAND \<and> is_count input > 0 then Some (item_stack_new GLASS 1 0)
                 else if is_key input = COBBLESTONE \<and> is_count input > 0 then Some (item_stack_new STONE 1 0)
                 else None) of
             None \<Rightarrow> None
           | Some output \<Rightarrow>
               (case slot_at slots 2 of
                  None \<Rightarrow> Some output
                | Some existing \<Rightarrow>
                    if is_key existing = is_key output \<and> is_count existing < 64 then Some output else None)))"

definition furnace_fuel_burn_time :: "item_stack option \<Rightarrow> int option" where
  "furnace_fuel_burn_time fuel =
     (case fuel of
        None \<Rightarrow> None
      | Some fuel \<Rightarrow>
          if is_count fuel = 0 then None
          else if is_key fuel = STICK then Some 100
          else if is_key fuel = OAK_PLANKS \<or> is_key fuel = OAK_LOG then Some 300
          else None)"

definition normalize_furnace :: "open_container_state \<Rightarrow> open_container_state" where
  "normalize_furnace st =
     (let st1 = set_property FURNACE_COOK_TOTAL_KEY FURNACE_COOK_TOTAL st;
          st2 = (if property FURNACE_BURN_LEFT st1 = 0 then set_property FURNACE_BURN_MAX 0 st1 else st1)
      in if furnace_available_output (oc_local_slots st) = None
         then set_property FURNACE_COOK_PROGRESS 0 st2 else st2)"

text \<open>One tick: the burning fuel, lighting the next fuel, cooking.\<close>

definition furnace_burn_down :: "open_container_state \<Rightarrow> open_container_state" where
  "furnace_burn_down st =
     (let burn_left = property FURNACE_BURN_LEFT st
      in if burn_left > 0 then set_property FURNACE_BURN_LEFT (burn_left - 1) st else st)"

definition furnace_light_fuel :: "open_container_state \<Rightarrow> open_container_state" where
  "furnace_light_fuel st =
     (if property FURNACE_BURN_LEFT st = 0 \<and> furnace_available_output (oc_local_slots st) \<noteq> None then
        (case furnace_fuel_burn_time (slot_at (oc_local_slots st) 1) of
           None \<Rightarrow> st
         | Some burn_time \<Rightarrow>
             (let st' = set_property FURNACE_BURN_MAX burn_time (set_property FURNACE_BURN_LEFT burn_time st)
              in st'\<lparr>oc_local_slots := (case slot_at (oc_local_slots st) 1 of
                   None \<Rightarrow> oc_local_slots st
                 | Some fuel \<Rightarrow> (oc_local_slots st)[1 := take_from 1 fuel])\<rparr>))
      else st)"

definition furnace_finish_item :: "item_stack \<Rightarrow> slots \<Rightarrow> slots" where
  "furnace_finish_item output slots =
     (let slots' = (case slot_at slots 0 of None \<Rightarrow> slots | Some input \<Rightarrow> slots[0 := take_from 1 input])
      in case slot_at slots' 2 of
           Some existing \<Rightarrow>
             (if is_key existing = is_key output
              then slots'[2 := Some (existing\<lparr>is_count := saturating_add_word (is_count existing) (is_count output)\<rparr>)]
              else slots'[2 := Some output])
         | None \<Rightarrow> slots'[2 := Some output])"

definition furnace_cook :: "int \<Rightarrow> open_container_state \<Rightarrow> open_container_state" where
  "furnace_cook cook_total st =
     (if property FURNACE_BURN_LEFT st > 0 then
        (case furnace_available_output (oc_local_slots st) of
           Some output \<Rightarrow>
             (let progress = min (property FURNACE_COOK_PROGRESS st + 1) 32767 in
              if progress \<ge> cook_total
              then set_property FURNACE_COOK_PROGRESS 0
                     (st\<lparr>oc_local_slots := furnace_finish_item output (oc_local_slots st)\<rparr>)
              else set_property FURNACE_COOK_PROGRESS progress st)
         | None \<Rightarrow> set_property FURNACE_COOK_PROGRESS 0 st)
      else set_property FURNACE_BURN_MAX 0 (set_property FURNACE_COOK_PROGRESS 0 st))"

definition tick_furnace :: "open_container_state \<Rightarrow> open_container_state" where
  "tick_furnace st =
     (let st1 = normalize_furnace st;
          cook_total = (case map_of (oc_properties st1) FURNACE_COOK_TOTAL_KEY of
                          None \<Rightarrow> FURNACE_COOK_TOTAL | Some v \<Rightarrow> v)
      in furnace_cook cook_total (furnace_light_fuel (furnace_burn_down st1)))"

section \<open>The behaviour the core calls\<close>

definition canonical_normalize_container :: "open_container_state \<Rightarrow> open_container_state" where
  "canonical_normalize_container st =
     (if oc_kind st = CRAFTING_TABLE_ID
      then st\<lparr>oc_local_slots := recompute_crafting_result 3 (oc_local_slots st)\<rparr>
      else if oc_kind st = FURNACE_ID then normalize_furnace st else st)"

definition canonical_normalize_player_inventory :: "player_inventory \<Rightarrow> player_inventory" where
  "canonical_normalize_player_inventory pinv = recompute_crafting_result_for_player pinv"

definition canonical_try_take_output ::
  "container_kind_id \<Rightarrow> inventory_click_button \<Rightarrow> slots \<times> item_stack option \<Rightarrow>
   bool \<times> slots \<times> item_stack option" where
  "canonical_try_take_output kind button sc =
     (if kind = PLAYER_ID then take_player_crafting_result button sc
      else if kind = CRAFTING_TABLE_ID then take_container_crafting_result button sc
      else if kind = FURNACE_ID then take_output_slot 2 button sc
      else (False, sc))"

definition canonical_tick_container :: "open_container_state \<Rightarrow> open_container_state" where
  "canonical_tick_container st = (if oc_kind st = FURNACE_ID then tick_furnace st else st)"

section \<open>Stacks in bounds\<close>

definition stack_ok :: "item_stack \<Rightarrow> bool" where
  "stack_ok s \<longleftrightarrow> 0 < unat (is_count s) \<and> unat (is_count s) \<le> 64"

definition slot_ok :: "item_stack option \<Rightarrow> bool" where
  "slot_ok slot = pred_option stack_ok slot"

definition slots_ok :: "slots \<Rightarrow> bool" where
  "slots_ok slots = (\<forall>slot \<in> set slots. slot_ok slot)"

definition count_of :: "item_stack option \<Rightarrow> nat" where
  "count_of slot = (case slot of None \<Rightarrow> 0 | Some s \<Rightarrow> unat (is_count s))"

lemma slot_ok_simps [simp]: "slot_ok None" "slot_ok (Some s) = stack_ok s"
  by (simp_all add: slot_ok_def)

lemma count_of_simps [simp]: "count_of None = 0" "count_of (Some s) = unat (is_count s)"
  by (simp_all add: count_of_def)

lemma slots_ok_update: "slots_ok slots \<Longrightarrow> slot_ok slot \<Longrightarrow> slots_ok (slots[i := slot])"
  by (auto simp: slots_ok_def dest: set_update_subset_insert [THEN subsetD])

lemma slots_ok_at: "slots_ok slots \<Longrightarrow> slot_ok (slot_at slots i)"
  by (auto simp: slots_ok_def slot_at_def)

lemma slot_at_update: "slot_at (slots[i := slot]) j = (if j = i \<and> i < length slots then slot else slot_at slots j)"
  by (auto simp: slot_at_def)

lemma saturating_sub_zero: "saturating_sub_word a n = 0 \<longleftrightarrow> unat a \<le> unat (n :: u8)"
  using unat_saturating_sub_word [of a n] unsigned_eq_0_iff [of "saturating_sub_word a n"] by auto

lemma count_of_take_from: "count_of (take_from n s) = unat (is_count s) - unat n"
  by (simp add: take_from_def Let_def unat_saturating_sub_word saturating_sub_zero)

lemma slot_ok_take_from: "stack_ok s \<Longrightarrow> slot_ok (take_from n s)"
  by (auto simp: take_from_def Let_def stack_ok_def unat_saturating_sub_word saturating_sub_zero)

lemma cursor_gain_ok:
  assumes "cursor_gain cursor output n = Some c" and "slot_ok cursor" and "0 < n" and "unat n \<le> 64"
  shows "stack_ok c \<and> is_key c = is_key output \<and> unat (is_count c) = count_of cursor + unat n"
  using assms
  by (auto simp: cursor_gain_def stack_ok_def unat_saturating_add_word word_less_nat_alt
      split: option.splits if_splits)

section \<open>The furnace keeps its invariant\<close>

definition furnace_inv :: "open_container_state \<Rightarrow> bool" where
  "furnace_inv st \<longleftrightarrow> length (oc_local_slots st) = 3 \<and> slots_ok (oc_local_slots st) \<and> bt_ok (oc_properties st) \<and>
     0 \<le> property FURNACE_BURN_LEFT st \<and> property FURNACE_BURN_LEFT st \<le> property FURNACE_BURN_MAX st \<and>
     property FURNACE_BURN_MAX st \<le> 300 \<and>
     0 \<le> property FURNACE_COOK_PROGRESS st \<and> property FURNACE_COOK_PROGRESS st < FURNACE_COOK_TOTAL"

lemma property_keys_distinct [simp]:
  "FURNACE_BURN_LEFT \<noteq> FURNACE_BURN_MAX" "FURNACE_BURN_LEFT \<noteq> FURNACE_COOK_PROGRESS"
  "FURNACE_BURN_LEFT \<noteq> FURNACE_COOK_TOTAL_KEY" "FURNACE_BURN_MAX \<noteq> FURNACE_COOK_PROGRESS"
  "FURNACE_BURN_MAX \<noteq> FURNACE_COOK_TOTAL_KEY" "FURNACE_COOK_PROGRESS \<noteq> FURNACE_COOK_TOTAL_KEY"
  "FURNACE_BURN_MAX \<noteq> FURNACE_BURN_LEFT" "FURNACE_COOK_PROGRESS \<noteq> FURNACE_BURN_LEFT"
  "FURNACE_COOK_TOTAL_KEY \<noteq> FURNACE_BURN_LEFT" "FURNACE_COOK_PROGRESS \<noteq> FURNACE_BURN_MAX"
  "FURNACE_COOK_TOTAL_KEY \<noteq> FURNACE_BURN_MAX" "FURNACE_COOK_TOTAL_KEY \<noteq> FURNACE_COOK_PROGRESS"
  by (simp_all add: id_keys)

lemma property_set_property [simp]:
  "bt_ok (oc_properties st) \<Longrightarrow> property k (set_property k' v st) = (if k = k' then v else property k st)"
  by (simp add: property_def set_property_def)

lemma set_property_frame [simp]:
  "oc_local_slots (set_property k v st) = oc_local_slots st"
  "bt_ok (oc_properties st) \<Longrightarrow> bt_ok (oc_properties (set_property k v st))"
  "oc_kind (set_property k v st) = oc_kind st"
  "oc_binding (set_property k v st) = oc_binding st"
  by (simp_all add: set_property_def)

lemma property_slots [simp]: "property k (st\<lparr>oc_local_slots := s\<rparr>) = property k st"
  by (simp add: property_def)

lemma map_of_set_property:
  "bt_ok (oc_properties st) \<Longrightarrow>
   map_of (oc_properties (set_property k v st)) j = (if j = k then Some v else map_of (oc_properties st) j)"
  by (simp add: set_property_def)

lemma furnace_inv_normalize: "furnace_inv st \<Longrightarrow> furnace_inv (normalize_furnace st)"
  by (auto simp: furnace_inv_def normalize_furnace_def Let_def FURNACE_COOK_TOTAL_def)

lemma furnace_inv_burn_down: "furnace_inv st \<Longrightarrow> furnace_inv (furnace_burn_down st)"
  by (auto simp: furnace_inv_def furnace_burn_down_def Let_def)

lemma furnace_fuel_burn_time_range: "furnace_fuel_burn_time fuel = Some t \<Longrightarrow> 0 < t \<and> t \<le> 300"
  by (auto simp: furnace_fuel_burn_time_def split: option.splits if_splits)

lemma furnace_inv_light_fuel:
  assumes inv: "furnace_inv st"
  shows "furnace_inv (furnace_light_fuel st)"
proof -
  have slots: "slots_ok (oc_local_slots st)" using inv by (simp add: furnace_inv_def)
  have "slots_ok ((oc_local_slots st)[1 := take_from 1 fuel])" if "slot_at (oc_local_slots st) 1 = Some fuel" for fuel
    using slots_ok_at [OF slots, of 1] that by (simp add: slots_ok_update [OF slots] slot_ok_take_from)
  then show ?thesis
    using inv by (auto simp: furnace_light_fuel_def furnace_inv_def Let_def slots
        dest: furnace_fuel_burn_time_range split: option.splits)
qed

lemma furnace_available_output_props:
  assumes "furnace_available_output slots = Some out"
  shows "is_count out = 1" and "\<exists>input. slot_at slots 0 = Some input \<and> 0 < is_count input"
    and "slot_at slots 2 = Some existing \<Longrightarrow> is_key existing = is_key out \<and> is_count existing < 64"
  using assms
  by (auto simp: furnace_available_output_def item_stack_new_def split: option.splits if_splits)

lemma unat_succ_64: "c < (64 :: u8) \<Longrightarrow> unat (saturating_add_word c 1) = unat c + 1"
  by (simp add: unat_saturating_add_word word_less_nat_alt)

lemma slots_ok_finish:
  assumes "slots_ok slots" and out: "furnace_available_output slots = Some out"
  shows "slots_ok (furnace_finish_item out slots)"
proof -
  note one = furnace_available_output_props(1) [OF out] and merge = furnace_available_output_props(3) [OF out]
  obtain input where input: "slot_at slots 0 = Some input"
    using furnace_available_output_props(2) [OF out] by blast
  have "slots_ok (slots[0 := take_from 1 input])"
    using assms(1) slots_ok_at [OF assms(1), of 0] by (simp add: input slots_ok_update slot_ok_take_from)
  moreover have "stack_ok out" using one by (simp add: stack_ok_def)
  ultimately show ?thesis
  proof (cases "slot_at slots 2")
    case (Some e)
    with \<open>slots_ok (slots[0 := take_from 1 input])\<close> merge [OF Some] show ?thesis
      by (simp add: furnace_finish_item_def Let_def input one slot_at_update slots_ok_update stack_ok_def
          unat_succ_64 word_less_nat_alt)
  qed (simp add: furnace_finish_item_def Let_def input slot_at_update slots_ok_update)
qed

lemma furnace_inv_cook:
  assumes inv: "furnace_inv st"
  shows "furnace_inv (furnace_cook FURNACE_COOK_TOTAL st)"
proof -
  have slots: "slots_ok (oc_local_slots st)" using inv by (simp add: furnace_inv_def)
  have "length (furnace_finish_item out (oc_local_slots st)) = 3" for out
    using inv by (simp add: furnace_inv_def furnace_finish_item_def Let_def split: option.split)
  then show ?thesis
    using inv slots_ok_finish [OF slots]
    by (auto simp: furnace_cook_def furnace_inv_def Let_def FURNACE_COOK_TOTAL_def split: option.split)
qed

lemma tick_furnace_eq:
  "bt_ok (oc_properties st) \<Longrightarrow>
   tick_furnace st = furnace_cook FURNACE_COOK_TOTAL (furnace_light_fuel (furnace_burn_down (normalize_furnace st)))"
  by (auto simp: tick_furnace_def Let_def normalize_furnace_def map_of_set_property)

lemma furnace_inv_bt: "furnace_inv st \<Longrightarrow> bt_ok (oc_properties st)"
  by (simp add: furnace_inv_def)

lemma furnace_inv_tick: "furnace_inv st \<Longrightarrow> furnace_inv (tick_furnace st)"
  by (simp add: tick_furnace_eq furnace_inv_bt furnace_inv_cook furnace_inv_light_fuel furnace_inv_burn_down
      furnace_inv_normalize)

section \<open>Smelting conserves items\<close>

definition smelted :: "slots \<Rightarrow> nat" where
  "smelted slots = count_of (slot_at slots 0) + count_of (slot_at slots 2)"

lemma smelted_finish:
  assumes "length slots = 3" and out: "furnace_available_output slots = Some out"
  shows "smelted (furnace_finish_item out slots) = smelted slots"
proof -
  note one = furnace_available_output_props(1) [OF out] and merge = furnace_available_output_props(3) [OF out]
  obtain input where input: "slot_at slots 0 = Some input" "0 < is_count input"
    using furnace_available_output_props(2) [OF out] by blast
  have pos: "0 < unat (is_count input)" using input(2) by (simp add: word_less_nat_alt)
  show ?thesis
  proof (cases "slot_at slots 2")
    case (Some e)
    with assms(1) merge [OF Some] pos show ?thesis
      by (simp add: smelted_def furnace_finish_item_def Let_def input(1) one slot_at_update
          count_of_take_from unat_succ_64)
  qed (use assms(1) pos in \<open>simp add: smelted_def furnace_finish_item_def Let_def input(1) one slot_at_update
      count_of_take_from\<close>)
qed

lemma furnace_slots_frame [simp]:
  "oc_local_slots (normalize_furnace st) = oc_local_slots st"
  "oc_local_slots (furnace_burn_down st) = oc_local_slots st"
  by (simp_all add: normalize_furnace_def furnace_burn_down_def Let_def)

lemma light_fuel_slots:
  "slot_at (oc_local_slots (furnace_light_fuel st)) 0 = slot_at (oc_local_slots st) 0"
  "slot_at (oc_local_slots (furnace_light_fuel st)) 2 = slot_at (oc_local_slots st) 2"
  "length (oc_local_slots (furnace_light_fuel st)) = length (oc_local_slots st)"
  by (auto simp: furnace_light_fuel_def Let_def slot_at_update split: option.split)

lemma light_fuel_uses:
  "count_of (slot_at (oc_local_slots st) 1) \<le> Suc (count_of (slot_at (oc_local_slots (furnace_light_fuel st)) 1))"
  by (auto simp: furnace_light_fuel_def Let_def slot_at_update count_of_take_from slot_at_def
      split: option.split if_splits)

lemma smelted_cook:
  assumes "length (oc_local_slots st) = 3"
  shows "smelted (oc_local_slots (furnace_cook n st)) = smelted (oc_local_slots st)"
    and "slot_at (oc_local_slots (furnace_cook n st)) 1 = slot_at (oc_local_slots st) 1"
proof -
  show "smelted (oc_local_slots (furnace_cook n st)) = smelted (oc_local_slots st)"
    using smelted_finish [OF assms] by (simp add: furnace_cook_def Let_def split: option.split)
  show "slot_at (oc_local_slots (furnace_cook n st)) 1 = slot_at (oc_local_slots st) 1"
    by (simp add: furnace_cook_def furnace_finish_item_def Let_def slot_at_update split: option.split)
qed

text \<open>C33: a furnace tick keeps the furnace in order: three slots with stacks of 1 to 64 items, burning time
  left within the time of the fuel lit, cooking progress below the total; it turns input items into
  output items one for one, so their number never changes, and it burns at most one fuel item.\<close>

theorem furnace_tick_safe:
  assumes "furnace_inv st"
  shows "furnace_inv (tick_furnace st) \<and>
    smelted (oc_local_slots (tick_furnace st)) = smelted (oc_local_slots st) \<and>
    count_of (slot_at (oc_local_slots st) 1) \<le> Suc (count_of (slot_at (oc_local_slots (tick_furnace st)) 1))"
proof -
  let ?l = "furnace_light_fuel (furnace_burn_down (normalize_furnace st))"
  have len: "length (oc_local_slots ?l) = 3"
    using assms by (simp add: light_fuel_slots furnace_inv_def)
  have "smelted (oc_local_slots ?l) = smelted (oc_local_slots st)"
    by (simp add: smelted_def light_fuel_slots)
  then show ?thesis
    using furnace_inv_tick [OF assms] smelted_cook [OF len, of FURNACE_COOK_TOTAL]
      light_fuel_uses [of "furnace_burn_down (normalize_furnace st)"]
    by (simp add: tick_furnace_eq furnace_inv_bt [OF assms])
qed

definition sample_furnace :: open_container_state where
  "sample_furnace = \<lparr>oc_kind = FURNACE_ID, oc_binding = Virtual,
     oc_local_slots = [Some (item_stack_new SAND 3 0), Some (item_stack_new STICK 2 0), None],
     oc_properties = furnace_default_properties\<rparr>"

lemma sample_furnace_inv: "furnace_inv sample_furnace"
  by (simp add: furnace_inv_def sample_furnace_def furnace_default_properties_def slots_ok_def stack_ok_def
      item_stack_new_def property_def FURNACE_COOK_TOTAL_def del: bt_insert.simps)

theorem furnace_tick_safe_witness:
  "smelted (oc_local_slots (tick_furnace sample_furnace)) = 3"
  using furnace_tick_safe [OF sample_furnace_inv]
  by (simp add: sample_furnace_def [of] smelted_def slot_at_def item_stack_new_def)

section \<open>Smelting time\<close>

lemma tick_burning:
  assumes inv: "furnace_inv st" and burn: "1 < property FURNACE_BURN_LEFT st"
    and out: "furnace_available_output (oc_local_slots st) = Some out"
  shows "property FURNACE_BURN_LEFT (tick_furnace st) = property FURNACE_BURN_LEFT st - 1"
    and "property FURNACE_COOK_PROGRESS st + 1 < FURNACE_COOK_TOTAL \<Longrightarrow>
      property FURNACE_COOK_PROGRESS (tick_furnace st) = property FURNACE_COOK_PROGRESS st + 1 \<and>
      oc_local_slots (tick_furnace st) = oc_local_slots st"
    and "property FURNACE_COOK_PROGRESS st + 1 = FURNACE_COOK_TOTAL \<Longrightarrow>
      property FURNACE_COOK_PROGRESS (tick_furnace st) = 0 \<and>
      oc_local_slots (tick_furnace st) = furnace_finish_item out (oc_local_slots st)"
proof -
  have bt: "bt_ok (oc_properties st)" using inv by (rule furnace_inv_bt)
  define u where "u = set_property FURNACE_BURN_LEFT (property FURNACE_BURN_LEFT st - 1)
      (set_property FURNACE_COOK_TOTAL_KEY FURNACE_COOK_TOTAL st)"
  have "furnace_light_fuel (furnace_burn_down (normalize_furnace st)) = u"
    using bt burn out by (simp add: normalize_furnace_def furnace_burn_down_def furnace_light_fuel_def Let_def u_def)
  then have tick: "tick_furnace st = furnace_cook FURNACE_COOK_TOTAL u"
    using tick_furnace_eq [OF bt] by simp
  have u: "property FURNACE_BURN_LEFT u = property FURNACE_BURN_LEFT st - 1"
    "property FURNACE_COOK_PROGRESS u = property FURNACE_COOK_PROGRESS st"
    "oc_local_slots u = oc_local_slots st" "bt_ok (oc_properties u)"
    using bt by (simp_all add: u_def)
  show "property FURNACE_BURN_LEFT (tick_furnace st) = property FURNACE_BURN_LEFT st - 1"
    using u burn out by (simp add: tick furnace_cook_def Let_def)
  show "property FURNACE_COOK_PROGRESS (tick_furnace st) = property FURNACE_COOK_PROGRESS st + 1 \<and>
      oc_local_slots (tick_furnace st) = oc_local_slots st"
    if "property FURNACE_COOK_PROGRESS st + 1 < FURNACE_COOK_TOTAL"
    using u burn out that by (simp add: tick furnace_cook_def Let_def FURNACE_COOK_TOTAL_def)
  show "property FURNACE_COOK_PROGRESS (tick_furnace st) = 0 \<and>
      oc_local_slots (tick_furnace st) = furnace_finish_item out (oc_local_slots st)"
    if "property FURNACE_COOK_PROGRESS st + 1 = FURNACE_COOK_TOTAL"
    using u burn out that by (simp add: tick furnace_cook_def Let_def FURNACE_COOK_TOTAL_def)
qed

lemma ticks_burning:
  assumes inv: "furnace_inv st" and burn: "int n < property FURNACE_BURN_LEFT st"
    and out: "furnace_available_output (oc_local_slots st) = Some out"
    and prog: "property FURNACE_COOK_PROGRESS st + int n < FURNACE_COOK_TOTAL"
  shows "furnace_inv ((tick_furnace ^^ n) st) \<and>
    property FURNACE_BURN_LEFT ((tick_furnace ^^ n) st) = property FURNACE_BURN_LEFT st - int n \<and>
    property FURNACE_COOK_PROGRESS ((tick_furnace ^^ n) st) = property FURNACE_COOK_PROGRESS st + int n \<and>
    oc_local_slots ((tick_furnace ^^ n) st) = oc_local_slots st"
  using burn prog
proof (induction n)
  case 0
  then show ?case using inv by simp
next
  case (Suc n)
  let ?s = "(tick_furnace ^^ n) st"
  have IH: "furnace_inv ?s" "property FURNACE_BURN_LEFT ?s = property FURNACE_BURN_LEFT st - int n"
    "property FURNACE_COOK_PROGRESS ?s = property FURNACE_COOK_PROGRESS st + int n"
    "oc_local_slots ?s = oc_local_slots st"
    using Suc by auto
  have burn1: "1 < property FURNACE_BURN_LEFT ?s" using IH(2) Suc.prems(1) by simp
  have avail: "furnace_available_output (oc_local_slots ?s) = Some out" using IH(4) out by simp
  note step = tick_burning(1,2) [OF IH(1) burn1 avail]
  show ?case
    using IH step furnace_inv_tick [OF IH(1)] Suc.prems by simp
qed


definition lit_furnace :: open_container_state where
  "lit_furnace = sample_furnace\<lparr>oc_properties := bt_insert FURNACE_BURN_MAX 300
     (bt_insert FURNACE_BURN_LEFT 300 furnace_default_properties)\<rparr>"


section \<open>Crafting consumes what it names\<close>

lemma set_occupied_inputs:
  "(i, s) \<in> set (occupied_inputs inputs) \<longleftrightarrow> i < length inputs \<and> inputs ! i = Some s"
  by (auto simp: occupied_inputs_def in_set_enumerate_eq image_iff)

lemma distinct_occupied_inputs: "distinct (map fst (occupied_inputs inputs))"
proof -
  have "map fst (occupied_inputs inputs) = map fst (filter (\<lambda>(i, s). s \<noteq> None) (enumerate 0 inputs))"
    by (auto simp: occupied_inputs_def)
  then show ?thesis by (simp add: distinct_map_filter)
qed

lemma max_list_ge: "x \<in> set xs \<Longrightarrow> x \<le> max_list xs"
  by (induction xs) (auto simp: max_list_def)

lemma min_list_le: "x \<in> set xs \<Longrightarrow> min_list xs \<le> (x :: nat)"
  by (cases "xs = []") (auto simp: min_list_Min)

text \<open>Writing each occupied index at a place of its own and reading the places back gives the occupied
  indexes, each once.\<close>

lemma mset_map_filter_update:
  assumes "j < length os" and "os ! j = None"
  shows "mset (List.map_filter id (os[j := Some i])) = add_mset i (mset (List.map_filter id os))"
proof -
  have "os = take j os @ None # drop (Suc j) os"
    using assms by (metis id_take_nth_drop)
  then have "mset (List.map_filter id os) = mset (List.map_filter id (take j os @ None # drop (Suc j) os))"
    by simp
  then show ?thesis
    using assms by (simp add: upd_conv_take_nth_drop map_filter_def)
qed

lemma mset_fold_places:
  assumes "distinct (map P (map fst xs))"
    and "\<And>e. e \<in> set xs \<Longrightarrow> P (fst e) < length os \<and> os ! P (fst e) = None"
  shows "mset (List.map_filter id (fold (\<lambda>(i, s) os. os[P i := Some i]) xs os)) =
    mset (map fst xs) + mset (List.map_filter id os)"
  using assms
proof (induction xs arbitrary: os)
  case (Cons e xs)
  obtain i s where e: "e = (i, s)" by (cases e)
  have "P (fst e') < length (os[P i := Some i]) \<and> os[P i := Some i] ! P (fst e') = None" if "e' \<in> set xs" for e'
  proof -
    have "P (fst e') \<noteq> P i" using Cons.prems(1) that e by (force simp: image_iff)
    then show ?thesis using Cons.prems(2) [of e'] that by simp
  qed
  moreover have "mset (List.map_filter id (os[P i := Some i])) = add_mset i (mset (List.map_filter id os))"
    using Cons.prems(2) [of e] e by (intro mset_map_filter_update) auto
  ultimately show ?case
    using Cons.IH [of "os[P i := Some i]"] Cons.prems(1) e by (simp add: id_def)
qed simp

lemma recipe_consumes:
  assumes recipe: "current_crafting_recipe inputs width = Some (out, consume)" and width: "0 < width"
  shows "mset consume = mset (map fst (occupied_inputs inputs))"
proof -
  let ?occ = "occupied_inputs inputs"
  define min_x where "min_x = min_list (map (\<lambda>(i, _). i mod width) ?occ)"
  define max_x where "max_x = max_list (map (\<lambda>(i, _). i mod width) ?occ)"
  define min_y where "min_y = min_list (map (\<lambda>(i, _). i div width) ?occ)"
  define max_y where "max_y = max_list (map (\<lambda>(i, _). i div width) ?occ)"
  define w where "w = max_x - min_x + 1"
  define h where "h = max_y - min_y + 1"
  define P where "P = (\<lambda>i. (i div width - min_y) * w + (i mod width - min_x))"
  have consume: "consume = List.map_filter id (fold (\<lambda>(i, s) os. os[P i := Some i]) ?occ (replicate (w * h) None))"
    using recipe unfolding current_crafting_recipe_def Let_def
    by (auto simp: P_def w_def h_def min_x_def max_x_def min_y_def max_y_def split: if_splits option.splits)
  have range: "min_x \<le> i mod width \<and> i mod width \<le> max_x \<and> min_y \<le> i div width \<and> i div width \<le> max_y"
    if "i \<in> fst ` set ?occ" for i
    using that unfolding min_x_def max_x_def min_y_def max_y_def
    by (force intro!: min_list_le max_list_ge simp: image_iff)
  have col: "i mod width - min_x < w" and row: "i div width - min_y < h" if "i \<in> fst ` set ?occ" for i
    using range [OF that] by (auto simp: w_def h_def)
  have less: "P i < w * h" if "i \<in> fst ` set ?occ" for i
  proof -
    have "P i < (i div width - min_y) * w + w" using col [OF that] by (simp add: P_def)
    also have "\<dots> = (i div width - min_y + 1) * w" by simp
    also have "\<dots> \<le> h * w" using row [OF that] by (intro mult_right_mono) auto
    finally show ?thesis by (simp add: mult.commute)
  qed
  have inj: "inj_on P (fst ` set ?occ)"
  proof (rule inj_onI)
    fix i j assume i: "i \<in> fst ` set ?occ" and j: "j \<in> fst ` set ?occ" and eq: "P i = P j"
    have "P i div w = i div width - min_y" "P i mod w = i mod width - min_x"
      "P j div w = j div width - min_y" "P j mod w = j mod width - min_x"
      using col [OF i] col [OF j] by (simp_all add: P_def)
    with eq have "i div width = j div width" "i mod width = j mod width"
      using range [OF i] range [OF j] by (metis eq_diff_iff)+
    then show "i = j" by (metis div_mult_mod_eq)
  qed
  have "mset (List.map_filter id (fold (\<lambda>(i, s) os. os[P i := Some i]) ?occ (replicate (w * h) None))) =
      mset (map fst ?occ) + mset (List.map_filter id (replicate (w * h) (None :: nat option)))"
  proof (rule mset_fold_places)
    show "distinct (map P (map fst ?occ))"
      using distinct_occupied_inputs inj by (simp add: distinct_map comp_inj_on_iff del: map_map)
    show "P (fst e) < length (replicate (w * h) None) \<and> replicate (w * h) None ! P (fst e) = None"
      if "e \<in> set ?occ" for e
      using less [of "fst e"] that by simp
  qed
  moreover have "List.map_filter id (replicate n None) = []" for n
    by (induction n) (simp_all add: map_filter_def)
  ultimately show ?thesis by (simp add: consume)
qed

lemma recipe_consumes_set:
  assumes "current_crafting_recipe inputs width = Some (out, consume)" and "0 < width"
  shows "distinct consume" and "i \<in> set consume \<longleftrightarrow> i < length inputs \<and> inputs ! i \<noteq> None"
proof -
  note eq = recipe_consumes [OF assms]
  show "distinct consume"
    using mset_eq_imp_distinct_iff [OF eq] distinct_occupied_inputs by simp
  have "set consume = fst ` set (occupied_inputs inputs)"
    using mset_eq_setD [OF eq] by simp
  then have "i \<in> set consume \<longleftrightarrow> (\<exists>s. (i, s) \<in> set (occupied_inputs inputs))"
    by (metis fst_conv image_iff prod.collapse)
  then show "i \<in> set consume \<longleftrightarrow> i < length inputs \<and> inputs ! i \<noteq> None"
    by (auto simp: set_occupied_inputs)
qed

lemma length_consume_input [simp]: "length (consume_input k i slots) = length slots"
  by (simp add: consume_input_def split: option.split)

lemma slots_ok_consume_input: "slots_ok slots \<Longrightarrow> slots_ok (consume_input k i slots)"
  using slots_ok_at [of slots "k + i"]
  by (auto simp: consume_input_def intro!: slots_ok_update slot_ok_take_from split: option.split)

lemma consume_input_at:
  "count_of (slot_at (consume_input k i slots) j) =
     (if j = k + i then count_of (slot_at slots j) - 1 else count_of (slot_at slots j))"
  by (auto simp: consume_input_def slot_at_update count_of_take_from split: option.split) (simp add: slot_at_def)

lemma consume_inputs_at:
  "distinct is \<Longrightarrow> count_of (slot_at (fold (consume_input k) is slots) j) =
     (if \<exists>i \<in> set is. j = k + i then count_of (slot_at slots j) - 1 else count_of (slot_at slots j))"
  by (induction "is" arbitrary: slots) (auto simp: consume_input_at)

lemma length_consume_inputs [simp]: "length (fold (consume_input k) is slots) = length slots"
  by (induction "is" arbitrary: slots) auto

lemma slots_ok_consume_inputs: "slots_ok slots \<Longrightarrow> slots_ok (fold (consume_input k) is slots)"
  by (induction "is" arbitrary: slots) (auto simp: slots_ok_consume_input)

lemma find_recipe_count:
  "find_recipe cells w h defs = Some (k, n) \<Longrightarrow> \<exists>d \<in> set defs. n = snd (snd (snd (snd d)))"
  by (induction cells w h defs rule: find_recipe.induct) (auto split: if_splits)

lemma recipe_output:
  assumes "current_crafting_recipe inputs width = Some (out, consume)"
  obtains cells w h k n where "find_recipe cells w h crafting_defs = Some (k, n)" and "out = item_stack_new k n 0"
  using assms unfolding current_crafting_recipe_def Let_def by (auto split: if_splits option.splits)

lemma recipe_output_ok:
  assumes "current_crafting_recipe inputs width = Some (out, consume)"
  shows "stack_ok out \<and> is_damage out = 0 \<and> is_components out = [] \<and> is_extra out = []"
proof -
  from recipe_output [OF assms] obtain cells w h k n where
    "find_recipe cells w h crafting_defs = Some (k, n)" "out = item_stack_new k n 0" by blast
  moreover from find_recipe_count [OF this(1)] have "n = 1 \<or> n = 4"
    by (auto simp: crafting_defs_def)
  ultimately show ?thesis by (auto simp: item_stack_new_def stack_ok_def)
qed

lemma slots_ok_recompute: "slots_ok slots \<Longrightarrow> slots_ok (recompute_crafting_result width slots)"
proof -
  have "slot_ok (map_option fst (current_crafting_recipe inputs width))" for inputs
    using recipe_output_ok [of inputs width] by (cases "current_crafting_recipe inputs width") auto
  then show "slots_ok slots \<Longrightarrow> ?thesis"
    by (simp add: recompute_crafting_result_def slots_ok_update)
qed

lemma length_recompute [simp]: "length (recompute_crafting_result width slots) = length slots"
  by (simp add: recompute_crafting_result_def)

lemma recompute_other: "j \<noteq> 0 \<Longrightarrow> slot_at (recompute_crafting_result width slots) j = slot_at slots j"
  by (simp add: recompute_crafting_result_def slot_at_update)

lemma recompute_result:
  "0 < length slots \<Longrightarrow> slot_at (recompute_crafting_result width slots) 0 =
     map_option fst (current_crafting_recipe (crafting_inputs (recompute_crafting_result width slots) width) width)"
  by (cases slots) (simp_all add: recompute_crafting_result_def slot_at_def crafting_inputs_def)

text \<open>The result slot depends only on the inputs: recomputing twice changes nothing more.\<close>

lemma crafting_inputs_result [simp]: "crafting_inputs (slots[0 := r]) width = crafting_inputs slots width"
  by (cases slots) (simp_all add: crafting_inputs_def)

lemma recompute_idem [simp]:
  "recompute_crafting_result width (recompute_crafting_result width slots) = recompute_crafting_result width slots"
  by (simp add: recompute_crafting_result_def)

lemma crafting_inputs_take: "crafting_inputs slots width = take (if width = 2 then 4 else 9) (drop 1 slots)"
  by (simp add: crafting_inputs_def)

lemma click_count_pos: "stack_ok out \<Longrightarrow> 0 < click_count button out \<and> unat (click_count button out) \<le> 64"
  by (cases button) (auto simp: click_count_def stack_ok_def word_less_nat_alt)



end
