(* ===== verification/Canonical_Behavior.thy ===== *)
theory Canonical_Behavior
  imports Core_State Canonical_Content
begin

text \<open>
  The canonical content as a value of the core's content behaviour: the implementation of the trait
  \<open>ContentBehavior\<close> by \<open>CanonicalContent\<close> in \<open>mc-content-canonical/src/gameplay.rs\<close>.
\<close>

definition canonical_content :: content_behavior where
  "canonical_content = \<lparr>
     cb_generate_chunk = (\<lambda>_ pos. default_chunk pos),
     cb_player_container_kind = PLAYER_ID,
     cb_container_spec = canonical_container_spec,
     cb_container_title = container_title,
     cb_container_kind_for_block = container_kind_for_block,
     cb_default_block_entity_for_block = default_block_entity_for_block,
     cb_default_block_entity_for_kind = default_block_entity_for_kind,
     cb_block_entity_kind_for_container = block_entity_kind_for_container,
     cb_container_kind_for_block_entity = container_kind_for_block_entity,
     cb_is_air_block = is_air_block,
     cb_is_unbreakable_block = is_unbreakable_block,
     cb_placeable_block_state_from_item_key = placeable_block_state_from_item_key,
     cb_is_supported_inventory_item = item_supported_for_inventory,
     cb_starter_inventory = creative_starter_inventory,
     cb_tool_spec_for_item = (\<lambda>_. None),
     cb_survival_mining_duration_ms = (\<lambda>block tool. map_option word_of_nat (survival_mining_duration_ms block tool)),
     cb_survival_drop_for_block = survival_drop_for_block,
     cb_normalize_container = canonical_normalize_container,
     cb_normalize_player_inventory = canonical_normalize_player_inventory,
     cb_try_take_output = canonical_try_take_output,
     cb_tick_container = canonical_tick_container\<rparr>"

end
