(* ===== verification/Inventory_Laws.thy ===== *)
theory Inventory_Laws
  imports Core_Inventory Canonical_Behavior "HOL-Library.Multiset"
begin

text \<open>
  What inventory clicks, merges and containers promise: no item is made or lost, stacks stay within
  1 to 64 items, and no click panics. The locale \<open>content_laws\<close> states what the core relies on in the
  content behaviour; it is interpreted on the canonical content, which the crate
  \<open>mc-content-canonical\<close> provides (\<open>canonical_content\<close>).
\<close>

section \<open>Items as a multiset\<close>

definition stack_items :: "item_stack \<Rightarrow> item_stack multiset" where
  "stack_items s = replicate_mset (unat (is_count s)) (s\<lparr>is_count := 0\<rparr>)"

definition slot_items :: "item_stack option \<Rightarrow> item_stack multiset" where
  "slot_items slot = (case slot of None \<Rightarrow> {#} | Some s \<Rightarrow> stack_items s)"

definition slots_items :: "item_stack option list \<Rightarrow> item_stack multiset" where
  "slots_items slots = sum_list (map slot_items slots)"

lemma slot_items_simps [simp]: "slot_items None = {#}" "slot_items (Some s) = stack_items s"
  by (simp_all add: slot_items_def)

lemma slots_items_simps [simp]: "slots_items [] = {#}" "slots_items (x # xs) = slot_items x + slots_items xs"
  by (simp_all add: slots_items_def)

lemma slots_items_update:
  "i < length slots \<Longrightarrow> slots_items (slots[i := v]) + slot_items (slots ! i) = slots_items slots + slot_items v"
  by (induction slots arbitrary: i) (auto simp: nth_Cons ac_simps split: nat.split)

lemma replicate_mset_plus: "replicate_mset (m + n) x = replicate_mset m x + replicate_mset n x"
  by (induction m) simp_all

lemma stack_identity: "stack_keys_match l r \<Longrightarrow> l\<lparr>is_count := n\<rparr> = r\<lparr>is_count := n\<rparr>"
  by (cases l; cases r) (simp add: stack_keys_match_def)

lemma stack_items_same:
  "stack_keys_match l r \<Longrightarrow> stack_items (r\<lparr>is_count := n\<rparr>) = replicate_mset (unat n) (l\<lparr>is_count := 0\<rparr>)"
  using stack_identity [of l r 0] by (simp add: stack_items_def)

lemma stack_items_match:
  "stack_keys_match l r \<Longrightarrow> stack_items r = replicate_mset (unat (is_count r)) (l\<lparr>is_count := 0\<rparr>)"
  using stack_identity [of l r 0] by (simp add: stack_items_def)

lemma stack_keys_match_refl [simp]: "stack_keys_match s s" "stack_keys_match s (s\<lparr>is_count := n\<rparr>)"
  by (simp_all add: stack_keys_match_def)

lemma stack_keys_match_sym: "stack_keys_match l r \<Longrightarrow> stack_keys_match r l"
  by (simp add: stack_keys_match_def)

lemma decrement_cursor_items:
  "stack_ok s \<Longrightarrow> slot_ok (decrement_cursor (Some s)) \<and>
     slot_items (decrement_cursor (Some s)) + {#s\<lparr>is_count := 0\<rparr>#} = stack_items s"
proof -
  assume ok: "stack_ok s"
  have n: "unat (saturating_sub_word (is_count s) 1) = unat (is_count s) - 1"
    by (simp add: unat_saturating_sub_word)
  show ?thesis
  proof (cases "unat (is_count s) = 1")
    case True
    then have "saturating_sub_word (is_count s) 1 = 0" using n by (simp add: unsigned_eq_0_iff)
    with True show ?thesis by (simp add: decrement_cursor_def stack_items_def)
  next
    case False
    then have "saturating_sub_word (is_count s) 1 \<noteq> 0"
      using n ok by (metis One_nat_def Suc_pred diff_is_0_eq le_antisym not_less_eq_eq stack_ok_def unsigned_0)
    moreover have "1 < unat (is_count s)" "Suc (unat (is_count s) - 1) = unat (is_count s)"
      using ok False by (simp_all add: stack_ok_def)
    ultimately show ?thesis
      using ok n by (simp add: decrement_cursor_def stack_items_def stack_ok_def Let_def flip: replicate_mset_Suc)
  qed
qed

section \<open>A click on one slot\<close>

lemma left_click_items:
  assumes "slot_ok cursor" and "slot_ok slot"
  shows "\<exists>cursor' slot'. apply_left_click_slot_value (cursor, slot) = Inr (True, cursor', slot') \<and>
    slot_items cursor' + slot_items slot' = slot_items cursor + slot_items slot \<and> slot_ok cursor' \<and> slot_ok slot'"
proof (cases "\<exists>c s. cursor = Some c \<and> slot = Some s \<and> stack_keys_match c s")
  case True
  then obtain c s where cs: "cursor = Some c" "slot = Some s" and match: "stack_keys_match c s" by blast
  define t where "t = unat (is_count c) + unat (is_count s)"
  have t: "t \<le> 128" "0 < t" using assms by (auto simp: cs stack_ok_def t_def)
  have w: "unat (word_of_nat n :: u8) = n" if "n \<le> 64" for n
    using that by (simp add: unsigned_of_nat take_bit_nat_eq_self)
  have max64: "unat MAX_STACK_SIZE = 64" by (simp add: MAX_STACK_SIZE_def)
  have items: "stack_items c + stack_items s = replicate_mset t (c\<lparr>is_count := 0\<rparr>)"
    using stack_items_match [OF match] by (simp add: t_def stack_items_def [of c] replicate_mset_plus)
  note same = stack_items_same [OF match] stack_items_same [OF stack_keys_match_refl(1) [of c]]
  show ?thesis
  proof (cases "t \<le> 64")
    case True
    then show ?thesis
      using t match items
      by (simp add: cs apply_left_click_slot_value_def Let_def flip: t_def) (simp add: max64 same w stack_ok_def)
  next
    case False
    then have le: "t - 64 \<le> 64" using t by simp
    have "unat (word_of_nat t - MAX_STACK_SIZE :: u8) = t - 64"
      using w [OF le] False by (simp add: MAX_STACK_SIZE_def of_nat_diff)
    then show ?thesis
      using t le False match items
      by (simp add: cs apply_left_click_slot_value_def Let_def flip: t_def)
        (simp add: max64 same w stack_ok_def flip: replicate_mset_plus)
  qed
next
  case False
  then show ?thesis
    using assms by (cases cursor; cases slot) (auto simp: apply_left_click_slot_value_def)
qed

lemma right_click_items:
  assumes "slot_ok cursor" and "slot_ok slot" and "apply_right_click_slot_value (cursor, slot) = (applied, cursor', slot')"
  shows "slot_items cursor' + slot_items slot' = slot_items cursor + slot_items slot \<and> slot_ok cursor' \<and> slot_ok slot' \<and>
    (\<not> applied \<longrightarrow> cursor' = cursor \<and> slot' = slot)"
proof (cases cursor)
  case cursor: None
  show ?thesis
  proof (cases slot)
    case None
    with cursor assms show ?thesis by (simp add: apply_right_click_slot_value_def)
  next
    case (Some s)
    let ?n = "unat (is_count s)"
    have n: "0 < ?n" "?n \<le> 64" using assms(2) Some by (auto simp: stack_ok_def)
    have up: "unat (saturating_add_word (is_count s) 1 div 2) = (?n + 1) div 2"
      using n by (simp add: unat_div unat_saturating_add_word)
    have down: "unat (is_count s div 2) = ?n div 2" by (simp add: unat_div)
    have zero: "is_count s div 2 = 0 \<longleftrightarrow> ?n div 2 = 0" unfolding down [symmetric] by (simp add: unsigned_eq_0_iff)
    have half: "(?n + 1) div 2 + ?n div 2 = ?n" by presburger
    have same: "stack_items (s\<lparr>is_count := k\<rparr>) = replicate_mset (unat k) (s\<lparr>is_count := 0\<rparr>)" for k
      by (simp add: stack_items_def)
    show ?thesis
      using assms(3) n half up down zero unfolding cursor Some apply_right_click_slot_value_def Let_def
      by (auto simp: same stack_ok_def stack_items_def simp flip: replicate_mset_plus)
  qed
next
  case cursor: (Some c)
  have c: "stack_ok c" using assms(1) cursor by simp
  note dec = decrement_cursor_items [OF c]
  show ?thesis
  proof (cases slot)
    case None
    with cursor assms dec show ?thesis
      by (auto simp: apply_right_click_slot_value_def stack_items_def [of "c\<lparr>is_count := 1\<rparr>"] stack_ok_def)
  next
    case (Some s)
    have s: "stack_ok s" using assms(2) Some by simp
    have up: "unat (saturating_add_word (is_count s) 1) = Suc (unat (is_count s))"
      using s by (simp add: unat_saturating_add_word stack_ok_def)
    have same: "stack_keys_match c s \<Longrightarrow> c\<lparr>is_count := 0\<rparr> = s\<lparr>is_count := 0\<rparr>"
      by (rule stack_identity)
    show ?thesis
      using assms(3) cursor Some dec up same s c
      by (auto simp: apply_right_click_slot_value_def stack_items_def [of s] stack_items_def [of "s\<lparr>is_count := _\<rparr>"]
          stack_ok_def MAX_STACK_SIZE_def word_less_nat_alt split: if_splits)
  qed
qed

lemma click_slot_items:
  assumes "slot_ok cursor" and "slot_ok slot"
  shows "\<exists>applied cursor' slot'. apply_click_slot_value button (cursor, slot) = Inr (applied, cursor', slot') \<and>
    slot_items cursor' + slot_items slot' = slot_items cursor + slot_items slot \<and> slot_ok cursor' \<and> slot_ok slot' \<and>
    (\<not> applied \<longrightarrow> cursor' = cursor \<and> slot' = slot)"
proof (cases button)
  case LeftButton
  then show ?thesis using left_click_items [OF assms] by (auto simp: apply_click_slot_value_def)
next
  case RightButton
  obtain applied cursor' slot' where "apply_right_click_slot_value (cursor, slot) = (applied, cursor', slot')"
    by (cases "apply_right_click_slot_value (cursor, slot)") auto
  with right_click_items [OF assms this] RightButton show ?thesis by (simp add: apply_click_slot_value_def)
qed

section \<open>The player's inventory\<close>

definition inventory_items :: "player_inventory \<Rightarrow> item_stack multiset" where
  "inventory_items pinv = slots_items (pi_slots pinv) + slot_items (pi_offhand pinv)"

definition inventory_stacks_ok :: "player_inventory \<Rightarrow> bool" where
  "inventory_stacks_ok pinv \<longleftrightarrow> inventory_ok pinv \<and> slots_ok (pi_slots pinv) \<and> slot_ok (pi_offhand pinv)"

lemma slot_write_set: "inventory_ok pinv \<Longrightarrow> slot_valid slot \<Longrightarrow>
    inventory_slot_write slot v pinv = snd (inventory_set_slot slot v pinv)"
  using legacy_window_index_less [of slot]
  by (cases slot) (auto simp: inventory_slot_write_def inventory_set_slot_def inventory_set_def split: option.split)

lemma slot_mut_get: "inventory_ok pinv \<Longrightarrow>
    inventory_slot_mut pinv slot = (if slot_valid slot then Some (inventory_get_slot pinv slot) else None)"
  using legacy_window_index_less [of slot]
  by (cases slot) (auto simp: inventory_slot_mut_def inventory_get_slot_def inventory_get_def slot_valid_def
      inventory_ok_def split: option.split)

lemma inventory_slot_index:
  assumes "inventory_ok pinv" and "slot_valid slot" and "slot \<noteq> Offhand"
  obtains i where "legacy_window_index slot = Some i" and "unat i < length (pi_slots pinv)"
    and "inventory_get_slot pinv slot = pi_slots pinv ! unat i"
    and "\<And>v. snd (inventory_set_slot slot v pinv) = pinv\<lparr>pi_slots := (pi_slots pinv)[unat i := v]\<rparr>"
proof -
  obtain i where i: "legacy_window_index slot = Some i" using assms by (auto simp: slot_valid_def)
  note less = legacy_window_index_less [OF i]
  show ?thesis
    using that [OF i] less assms i
    by (cases slot) (auto simp: inventory_ok_def inventory_get_slot_def inventory_get_def inventory_set_slot_def inventory_set_def)
qed

lemma set_slot_items:
  assumes "inventory_ok pinv" and "slot_valid slot"
  shows "inventory_items (snd (inventory_set_slot slot v pinv)) + slot_items (inventory_get_slot pinv slot) =
    inventory_items pinv + slot_items v"
proof (cases "slot = Offhand")
  case True
  then show ?thesis by (simp add: inventory_items_def inventory_set_slot_def inventory_get_slot_def)
next
  case False
  obtain i where "legacy_window_index slot = Some i" and "unat i < length (pi_slots pinv)"
    and "inventory_get_slot pinv slot = pi_slots pinv ! unat i"
    and "\<And>v. snd (inventory_set_slot slot v pinv) = pinv\<lparr>pi_slots := (pi_slots pinv)[unat i := v]\<rparr>"
    by (rule inventory_slot_index [OF assms False]) blast
  then show ?thesis
    using slots_items_update [of "unat i" "pi_slots pinv" v] by (simp add: inventory_items_def ac_simps)
qed

lemma set_slot_ok:
  assumes "inventory_stacks_ok pinv" and "slot_valid slot" and "slot_ok v"
  shows "inventory_stacks_ok (snd (inventory_set_slot slot v pinv))"
proof (cases "slot = Offhand")
  case True
  then show ?thesis using assms by (simp add: inventory_stacks_ok_def inventory_ok_def inventory_set_slot_def)
next
  case False
  have ok: "inventory_ok pinv" using assms(1) by (simp add: inventory_stacks_ok_def)
  obtain i where "legacy_window_index slot = Some i" and "unat i < length (pi_slots pinv)"
    and "inventory_get_slot pinv slot = pi_slots pinv ! unat i"
    and "\<And>v. snd (inventory_set_slot slot v pinv) = pinv\<lparr>pi_slots := (pi_slots pinv)[unat i := v]\<rparr>"
    by (rule inventory_slot_index [OF ok assms(2) False]) blast
  then show ?thesis using assms by (simp add: inventory_stacks_ok_def inventory_ok_def slots_ok_update)
qed

lemma get_slot_ok: "inventory_stacks_ok pinv \<Longrightarrow> slot_ok (inventory_get_slot pinv slot)"
  by (cases slot) (auto simp: inventory_stacks_ok_def inventory_get_slot_def inventory_get_def slots_ok_def split: option.split)

lemma persistent_slots_valid: "slot \<in> set persistent_slot_order \<Longrightarrow> slot_valid slot"
  by (auto simp: persistent_slot_order_def slot_valid_def slot_counts word_less_nat_alt unsigned_of_nat
      take_bit_nat_eq_self)

text \<open>Merging: the part that tops up matching stacks, then the part that takes an empty slot.\<close>

definition full_for :: "item_stack \<Rightarrow> item_stack option \<Rightarrow> bool" where
  "full_for stack slot \<longleftrightarrow> (\<forall>s. slot = Some s \<longrightarrow> stack_keys_match s stack \<longrightarrow> 64 \<le> unat (is_count s))"

lemma full_for_mono: "full_for stack slot \<Longrightarrow> full_for (stack\<lparr>is_count := n\<rparr>) slot"
  by (simp add: full_for_def stack_keys_match_def)

lemma full_for_count [simp]: "full_for (stack\<lparr>is_count := n\<rparr>) slot = full_for stack slot"
  by (simp add: full_for_def stack_keys_match_def)

lemma merge_step:
  assumes ok: "inventory_stacks_ok pinv" and valid: "slot_valid slot" and stack: "stack_ok stack"
    and get: "inventory_get_slot pinv slot = Some s" and match: "stack_keys_match s stack" and less: "is_count s < MAX_STACK_SIZE"
  defines "moved \<equiv> min (saturating_sub_word MAX_STACK_SIZE (is_count s)) (is_count stack)"
  defines "pinv' \<equiv> snd (inventory_set_slot slot (Some (s\<lparr>is_count := saturating_add_word (is_count s) moved\<rparr>)) pinv)"
  defines "rest \<equiv> saturating_sub_word (is_count stack) moved"
  shows "inventory_stacks_ok pinv'"
    and "inventory_items pinv' + replicate_mset (unat rest) (stack\<lparr>is_count := 0\<rparr>) = inventory_items pinv + stack_items stack"
    and "unat rest \<le> unat (is_count stack)"
    and "rest \<noteq> 0 \<Longrightarrow> unat (saturating_add_word (is_count s) moved) = 64"
proof -
  have s: "stack_ok s" using get_slot_ok [OF ok, of slot] get by simp
  let ?n = "unat (is_count s)" and ?k = "unat (is_count stack)"
  have n: "?n < 64" using less by (simp add: MAX_STACK_SIZE_def word_less_nat_alt)
  have moved: "unat moved = min (64 - ?n) ?k"
    by (simp add: moved_def MAX_STACK_SIZE_def min_def word_le_nat_alt unat_saturating_sub_word)
  have total_n: "unat (saturating_add_word (is_count s) moved) = ?n + unat moved"
    using n moved by (simp add: unat_saturating_add_word)
  have rest: "unat rest = ?k - unat moved" by (simp add: rest_def unat_saturating_sub_word)
  have inv: "inventory_ok pinv" using ok by (simp add: inventory_stacks_ok_def)
  show "inventory_stacks_ok pinv'"
    unfolding pinv'_def using set_slot_ok [OF ok valid] s n moved total_n by (simp add: stack_ok_def)
  show "unat rest \<le> ?k" using rest by simp
  show "unat (saturating_add_word (is_count s) moved) = 64" if "rest \<noteq> 0"
  proof -
    have "unat rest \<noteq> 0" using that by (simp add: unsigned_eq_0_iff)
    then show ?thesis using rest moved total_n n by (simp add: min_def split: if_splits)
  qed
  let ?id = "stack\<lparr>is_count := 0\<rparr>"
  have id: "stack_items (s\<lparr>is_count := m\<rparr>) = replicate_mset (unat m) ?id" for m
    using stack_items_same [OF stack_keys_match_sym [OF match]] .
  have id_s: "stack_items s = replicate_mset ?n ?id"
    using stack_items_match [OF stack_keys_match_sym [OF match]] .
  have "inventory_items pinv' + replicate_mset ?n ?id = inventory_items pinv + replicate_mset (?n + unat moved) ?id"
    using set_slot_items [OF inv valid, of "Some (s\<lparr>is_count := saturating_add_word (is_count s) moved\<rparr>)"] get
    by (simp add: pinv'_def id id_s total_n)
  then have "inventory_items pinv' = inventory_items pinv + replicate_mset (unat moved) ?id"
    by (simp add: replicate_mset_plus)
  moreover have "replicate_mset (unat moved) ?id + replicate_mset (unat rest) ?id = stack_items stack"
    using rest moved by (simp add: stack_items_def flip: replicate_mset_plus)
  ultimately show "inventory_items pinv' + replicate_mset (unat rest) ?id = inventory_items pinv + stack_items stack"
    by (simp add: ac_simps)
qed

lemma merge_into_existing_ok:
  assumes "inventory_stacks_ok pinv" and "stack_ok stack" and "\<forall>slot \<in> set slots. slot_valid slot" and "distinct slots"
    and "merge_into_existing slots pinv stack = (pinv', rest)"
  shows "inventory_items pinv' + slot_items rest = inventory_items pinv + stack_items stack \<and>
    inventory_stacks_ok pinv' \<and> slot_ok rest \<and>
    (\<forall>r. rest = Some r \<longrightarrow> stack_keys_match r stack \<and> (\<forall>slot \<in> set slots. full_for stack (inventory_get_slot pinv' slot))) \<and>
    (\<forall>slot. slot \<notin> set slots \<longrightarrow> inventory_get_slot pinv' slot = inventory_get_slot pinv slot) \<and>
    (\<forall>slot. inventory_get_slot pinv slot = None \<longrightarrow> inventory_get_slot pinv' slot = None)"
  using assms
proof (induction slots arbitrary: pinv stack)
  case (Cons slot slots)
  have valid: "slot_valid slot" and valids: "\<forall>slot \<in> set slots. slot_valid slot"
    and new: "slot \<notin> set slots" and dist: "distinct slots"
    using Cons.prems(3,4) by auto
  have inv: "inventory_ok pinv" using Cons.prems(1) by (simp add: inventory_stacks_ok_def)
  consider (empty) "inventory_get_slot pinv slot = None"
    | (skip) s where "inventory_get_slot pinv slot = Some s" "\<not> stack_keys_match s stack \<or> is_count s \<ge> MAX_STACK_SIZE"
    | (take) s where "inventory_get_slot pinv slot = Some s" "stack_keys_match s stack" "is_count s < MAX_STACK_SIZE"
    by (cases "inventory_get_slot pinv slot") fastforce+
  then show ?case
  proof cases
    case empty
    with Cons.prems(5) have eq: "merge_into_existing slots pinv stack = (pinv', rest)" by simp
    from Cons.IH [OF Cons.prems(1,2) valids dist eq] new empty show ?thesis
      by (auto simp: full_for_def)
  next
    case (skip s)
    with Cons.prems(5) have eq: "merge_into_existing slots pinv stack = (pinv', rest)" by simp
    have "full_for stack (inventory_get_slot pinv slot)"
      using skip by (auto simp: full_for_def MAX_STACK_SIZE_def word_le_nat_alt)
    with Cons.IH [OF Cons.prems(1,2) valids dist eq] new show ?thesis by auto
  next
    case (take s)
    define moved where "moved = min (saturating_sub_word MAX_STACK_SIZE (is_count s)) (is_count stack)"
    define p1 where "p1 = snd (inventory_set_slot slot (Some (s\<lparr>is_count := saturating_add_word (is_count s) moved\<rparr>)) pinv)"
    define k where "k = saturating_sub_word (is_count stack) moved"
    note step = merge_step [OF Cons.prems(1) valid Cons.prems(2) take, folded moved_def, folded p1_def k_def]
    have get1: "inventory_get_slot p1 sl =
        (if sl = slot then Some (s\<lparr>is_count := saturating_add_word (is_count s) moved\<rparr>) else inventory_get_slot pinv sl)" for sl
      unfolding p1_def by (rule inventory_get_set_slot [OF inv valid])
    have not_skip: "\<not> (\<not> stack_keys_match s stack \<or> MAX_STACK_SIZE \<le> is_count s)" using take by auto
    have run: "merge_into_existing (slot # slots) pinv stack =
        (if k = 0 then (p1, None) else merge_into_existing slots p1 (stack\<lparr>is_count := k\<rparr>))"
      using take not_skip by (simp add: Let_def moved_def p1_def k_def)
    show ?thesis
    proof (cases "k = 0")
      case True
      with run Cons.prems(5) have "pinv' = p1" "rest = None" by auto
      then show ?thesis using step True get1 take(1) by auto
    next
      case False
      with run Cons.prems(5) have eq: "merge_into_existing slots p1 (stack\<lparr>is_count := k\<rparr>) = (pinv', rest)" by simp
      have "0 < unat k" using False by (metis gr0I unsigned_eq_0_iff)
      then have ok: "stack_ok (stack\<lparr>is_count := k\<rparr>)"
        using step(3) Cons.prems(2) by (simp add: stack_ok_def)
      have full: "full_for stack (inventory_get_slot p1 slot)"
        using step(4) [OF False] by (simp add: full_for_def get1)
      have items: "stack_items (stack\<lparr>is_count := k\<rparr>) = replicate_mset (unat k) (stack\<lparr>is_count := 0\<rparr>)"
        by (simp add: stack_items_def)
      have match: "stack_keys_match r (stack\<lparr>is_count := k\<rparr>) = stack_keys_match r stack" for r
        by (simp add: stack_keys_match_def)
      note IH = Cons.IH [OF step(1) ok valids dist eq]
      have "inventory_get_slot pinv' sl = None" if "inventory_get_slot pinv sl = None" for sl
        using IH that take(1) by (metis get1 option.distinct(1))
      with IH show ?thesis
        using step(2) full new get1 take(1) by (auto simp: items match)
    qed
  qed
qed (auto simp: stack_keys_match_def)

lemma place_in_empty_ok:
  assumes "inventory_stacks_ok pinv" and "stack_ok stack" and "\<forall>slot \<in> set slots. slot_valid slot"
    and "place_in_empty slots pinv stack = (pinv', rest)"
  shows "inventory_items pinv' + slot_items rest = inventory_items pinv + stack_items stack \<and>
    inventory_stacks_ok pinv' \<and> slot_ok rest \<and>
    (rest \<noteq> None \<longrightarrow> pinv' = pinv \<and> rest = Some stack \<and> (\<forall>slot \<in> set slots. inventory_get_slot pinv slot \<noteq> None))"
  using assms
proof (induction slots)
  case (Cons slot slots)
  have valid: "slot_valid slot" and inv: "inventory_ok pinv"
    using Cons.prems by (auto simp: inventory_stacks_ok_def)
  show ?case
  proof (cases "inventory_get_slot pinv slot")
    case None
    then have "pinv' = snd (inventory_set_slot slot (Some stack) pinv)" "rest = None"
      using Cons.prems(4) by auto
    then show ?thesis
      using set_slot_items [OF inv valid, of "Some stack"] None set_slot_ok [OF Cons.prems(1) valid, of "Some stack"]
        Cons.prems(2) by simp
  next
    case (Some s)
    then show ?thesis using Cons.IH [OF Cons.prems(1,2)] Cons.prems(3,4) by simp
  qed
qed auto

lemma distinct_persistent_slots: "distinct persistent_slot_order"
  by (auto simp: persistent_slot_order_def distinct_map inj_on_def word_unat_eq_iff unsigned_of_nat take_bit_nat_eq_self)

lemma merge_stack_ok:
  assumes ok: "inventory_stacks_ok pinv" and stack: "stack_ok stack"
    and merge: "merge_stack_into_player_inventory pinv stack = (pinv', rest)"
  shows "inventory_items pinv' + slot_items rest = inventory_items pinv + stack_items stack \<and>
    inventory_stacks_ok pinv' \<and> slot_ok rest \<and>
    (rest \<noteq> None \<longrightarrow> (\<forall>slot \<in> set persistent_slot_order.
       inventory_get_slot pinv' slot \<noteq> None \<and> full_for stack (inventory_get_slot pinv' slot)))"
proof -
  have valid: "\<forall>slot \<in> set persistent_slot_order. slot_valid slot" using persistent_slots_valid by blast
  obtain p1 r1 where first: "merge_into_existing persistent_slot_order pinv stack = (p1, r1)" by fastforce
  note step1 = merge_into_existing_ok [OF ok stack valid distinct_persistent_slots first]
  show ?thesis
  proof (cases r1)
    case None
    then show ?thesis using merge first step1 by (auto simp: merge_stack_into_player_inventory_def)
  next
    case (Some r)
    then have place: "place_in_empty persistent_slot_order p1 r = (pinv', rest)"
      using merge first by (simp add: merge_stack_into_player_inventory_def)
    have "inventory_stacks_ok p1" "stack_ok r" using step1 Some by auto
    from place_in_empty_ok [OF this valid place] show ?thesis using step1 Some by auto
  qed
qed

text \<open>C26: merging a stack into a player's inventory neither makes nor loses an item. The items of the inventory
  and of the stack are those of the new inventory and of what is left over; every stack keeps 1 to
  64 items; and something is left over only when every hotbar, main and offhand slot is taken and no
  matching stack has room.\<close>

theorem merge_conserves_items:
  assumes "inventory_stacks_ok pinv" and "stack_ok stack"
    and "merge_stack_into_player_inventory pinv stack = (pinv', rest)"
  shows "inventory_items pinv' + slot_items rest = inventory_items pinv + stack_items stack \<and>
    inventory_stacks_ok pinv' \<and> slot_ok rest \<and>
    (rest \<noteq> None \<longrightarrow> (\<forall>slot \<in> set persistent_slot_order.
       inventory_get_slot pinv' slot \<noteq> None \<and> full_for stack (inventory_get_slot pinv' slot)))"
  by (rule merge_stack_ok [OF assms])

lemma inventory_new_empty_ok: "inventory_stacks_ok inventory_new_empty"
  by (simp add: inventory_stacks_ok_def inventory_ok_def inventory_new_empty_def slots_ok_def)

theorem merge_conserves_items_witness:
  "inventory_items (fst (merge_stack_into_player_inventory inventory_new_empty (item_stack_new STICK 3 0))) +
     slot_items (snd (merge_stack_into_player_inventory inventory_new_empty (item_stack_new STICK 3 0))) =
   inventory_items inventory_new_empty + stack_items (item_stack_new STICK 3 0)"
proof -
  have ok: "stack_ok (item_stack_new STICK 3 0)" by (simp add: stack_ok_def item_stack_new_def)
  show ?thesis
    using merge_conserves_items [OF inventory_new_empty_ok ok prod.collapse [symmetric]] by blast
qed

section \<open>Clicks on a window\<close>

text \<open>The items a player has in store: everything but the crafting result, slot 0, which is only a preview.\<close>

definition stored_items :: "player_inventory \<Rightarrow> item_stack multiset" where
  "stored_items pinv = slots_items (tl (pi_slots pinv)) + slot_items (pi_offhand pinv)"

lemma inventory_items_stored:
  "inventory_ok pinv \<Longrightarrow> inventory_items pinv = slot_items (pi_slots pinv ! 0) + stored_items pinv"
  by (cases "pi_slots pinv") (simp_all add: inventory_items_def stored_items_def inventory_ok_def slot_counts)

lemma legacy_index_zero: "legacy_window_index slot = Some 0 \<Longrightarrow> slot = WindowLocal 0"
  using unat_legacy_window_index [of slot 0] by (auto simp: unsigned_eq_0_iff split: inventory_slot.splits)

lemma set_slot_stored:
  assumes ok: "inventory_ok pinv" and "slot_valid slot" and "slot \<noteq> WindowLocal 0"
  shows "stored_items (snd (inventory_set_slot slot v pinv)) + slot_items (inventory_get_slot pinv slot) =
    stored_items pinv + slot_items v"
proof -
  let ?p = "snd (inventory_set_slot slot v pinv)"
  have "inventory_ok ?p \<and> pi_slots ?p ! 0 = pi_slots pinv ! 0"
  proof (cases "slot = Offhand")
    case False
    obtain i where "legacy_window_index slot = Some i" and "unat i < length (pi_slots pinv)"
      and "inventory_get_slot pinv slot = pi_slots pinv ! unat i"
      and set: "\<And>v. snd (inventory_set_slot slot v pinv) = pinv\<lparr>pi_slots := (pi_slots pinv)[unat i := v]\<rparr>"
      by (rule inventory_slot_index [OF ok assms(2) False]) blast
    moreover have "unat i \<noteq> 0" using legacy_index_zero [of slot] assms(3) calculation(1) by (auto simp: unsigned_eq_0_iff)
    ultimately show ?thesis using ok by (simp add: inventory_ok_def)
  qed (use ok in \<open>simp add: inventory_set_slot_def inventory_ok_def\<close>)
  then show ?thesis
    using set_slot_items [OF ok assms(2), of v] inventory_items_stored [OF ok] inventory_items_stored [of ?p]
    by (simp add: ac_simps)
qed

lemma inventory_set_same:
  assumes "inventory_ok pinv" and "slot_valid slot"
  shows "snd (inventory_set_slot slot (inventory_get_slot pinv slot) pinv) = pinv"
proof (cases "slot = Offhand")
  case True
  then show ?thesis by (simp add: inventory_set_slot_def inventory_get_slot_def)
next
  case False
  obtain i where "legacy_window_index slot = Some i" and "unat i < length (pi_slots pinv)"
    and "inventory_get_slot pinv slot = pi_slots pinv ! unat i"
    and "\<And>v. snd (inventory_set_slot slot v pinv) = pinv\<lparr>pi_slots := (pi_slots pinv)[unat i := v]\<rparr>"
    by (rule inventory_slot_index [OF assms False]) blast
  then show ?thesis by simp
qed

lemma click_inventory_slot_items:
  assumes ok: "inventory_stacks_ok pinv" and cursor: "slot_ok cursor" and "slot \<noteq> WindowLocal 0"
  shows "\<exists>applied pinv' cursor'. click_inventory_slot button slot (pinv, cursor) = Inr (applied, pinv', cursor') \<and>
    slot_items cursor' + stored_items pinv' = slot_items cursor + stored_items pinv \<and>
    inventory_stacks_ok pinv' \<and> slot_ok cursor' \<and> (\<not> applied \<longrightarrow> pinv' = pinv \<and> cursor' = cursor)"
proof -
  have inv: "inventory_ok pinv" using ok by (simp add: inventory_stacks_ok_def)
  show ?thesis
  proof (cases "slot_valid slot")
    case False
    then have "click_inventory_slot button slot (pinv, cursor) = Inr (False, pinv, cursor)"
      by (simp add: click_inventory_slot_def slot_mut_get [OF inv])
    then show ?thesis using ok cursor by blast
  next
    case True
    let ?old = "inventory_get_slot pinv slot"
    obtain applied cursor' stack where click: "apply_click_slot_value button (cursor, ?old) = Inr (applied, cursor', stack)"
      and items: "slot_items cursor' + slot_items stack = slot_items cursor + slot_items ?old"
      and oks: "slot_ok cursor'" "slot_ok stack" and same: "\<not> applied \<longrightarrow> cursor' = cursor \<and> stack = ?old"
      using click_slot_items [OF cursor get_slot_ok [OF ok, of slot], of button] by blast
    let ?p = "snd (inventory_set_slot slot stack pinv)"
    have "stored_items ?p + slot_items ?old = stored_items pinv + slot_items stack"
      by (rule set_slot_stored [OF inv True assms(3)])
    then have "slot_items cursor' + stored_items ?p + (slot_items ?old + slot_items stack) =
        slot_items cursor + stored_items pinv + (slot_items ?old + slot_items stack)"
      using items by (simp add: ac_simps)
    moreover have "?p = pinv" if "\<not> applied"
      using same that inventory_set_same [OF inv True] by simp
    ultimately show ?thesis
      using click True oks same set_slot_ok [OF ok True oks(2)]
      by (simp add: click_inventory_slot_def slot_mut_get [OF inv] slot_write_set [OF inv True])
  qed
qed

text \<open>What a player's clicks can reach: the cursor, the store and the open container. The output slots of a
  container do not count: what they show may be made anew.\<close>

definition mask_outputs :: "container_spec \<Rightarrow> item_stack option list \<Rightarrow> item_stack option list" where
  "mask_outputs spec slots =
     map (\<lambda>(i, s). if container_slot_role_of spec (word_of_nat i) = OutputOnly then None else s) (enumerate 0 slots)"

definition container_items :: "content_behavior \<Rightarrow> open_container_state \<Rightarrow> item_stack multiset" where
  "container_items cb container =
     (case cb_container_spec cb (oc_kind container) of
        None \<Rightarrow> slots_items (oc_local_slots container)
      | Some spec \<Rightarrow> slots_items (mask_outputs spec (oc_local_slots container)))"

definition window_items :: "content_behavior \<Rightarrow> open_inventory_window option \<Rightarrow> item_stack multiset" where
  "window_items cb window = (case window of None \<Rightarrow> {#} | Some w \<Rightarrow> container_items cb (ow_container w))"

definition held_items :: "content_behavior \<Rightarrow> player_session_state \<times> player_inventory \<Rightarrow> item_stack multiset" where
  "held_items cb = (\<lambda>(session, pinv).
     slot_items (se_cursor session) + stored_items pinv + window_items cb (se_active_container session))"

definition window_ok :: "open_inventory_window option \<Rightarrow> bool" where
  "window_ok window \<longleftrightarrow> (\<forall>w. window = Some w \<longrightarrow>
     slots_ok (oc_local_slots (ow_container w)) \<and> length (oc_local_slots (ow_container w)) < 2 ^ 16)"

definition click_ok :: "player_session_state \<times> player_inventory \<Rightarrow> bool" where
  "click_ok = (\<lambda>(session, pinv).
     inventory_stacks_ok pinv \<and> slot_ok (se_cursor session) \<and> window_ok (se_active_container session))"

text \<open>A click on an output slot of the window it names, the one kind of click that makes items.\<close>

definition clicks_output :: "content_behavior \<Rightarrow> u8 \<Rightarrow> inventory_slot \<Rightarrow> player_session_state \<Rightarrow> bool" where
  "clicks_output cb window_id slot session =
     (case slot of
        WindowLocal index \<Rightarrow>
          (case (if window_id = 0 then Some (cb_player_container_kind cb)
                 else map_option (\<lambda>w. oc_kind (ow_container w)) (active_window session window_id)) of
             None \<Rightarrow> False
           | Some kind \<Rightarrow>
               (case cb_container_spec cb kind of
                  None \<Rightarrow> False
                | Some spec \<Rightarrow> container_slot_role_of spec index = OutputOnly))
      | _ \<Rightarrow> False)"

lemma mask_update:
  assumes "i < length slots" and "container_slot_role_of spec (word_of_nat i) \<noteq> OutputOnly"
  shows "mask_outputs spec (slots[i := v]) = (mask_outputs spec slots)[i := v]"
  using assms by (intro nth_equalityI) (auto simp: mask_outputs_def nth_enumerate_eq nth_list_update)

lemma mask_nth:
  "i < length slots \<Longrightarrow> container_slot_role_of spec (word_of_nat i) \<noteq> OutputOnly \<Longrightarrow> mask_outputs spec slots ! i = slots ! i"
  by (simp add: mask_outputs_def nth_enumerate_eq)

lemma length_mask [simp]: "length (mask_outputs spec slots) = length slots"
  by (simp add: mask_outputs_def)

text \<open>
  What the core relies on in the content behaviour when a window is clicked: bringing a container or a
  player's inventory in order touches output slots only and keeps stacks in bounds, and the player's
  own result slot is not an ordinary slot.
\<close>

locale content_laws =
  fixes cb :: content_behavior
  assumes normalize_kind: "\<And>st. oc_kind (cb_normalize_container cb st) = oc_kind st"
    and normalize_slots: "\<And>st spec. cb_container_spec cb (oc_kind st) = Some spec \<Longrightarrow>
      mask_outputs spec (oc_local_slots (cb_normalize_container cb st)) = mask_outputs spec (oc_local_slots st)"
    and normalize_ok: "\<And>st. slots_ok (oc_local_slots st) \<Longrightarrow> slots_ok (oc_local_slots (cb_normalize_container cb st))"
    and normalize_player: "\<And>pinv. inventory_stacks_ok pinv \<Longrightarrow>
      inventory_stacks_ok (cb_normalize_player_inventory cb pinv) \<and>
      stored_items (cb_normalize_player_inventory cb pinv) = stored_items pinv"
    and player_result: "\<And>spec. cb_container_spec cb (cb_player_container_kind cb) = Some spec \<Longrightarrow>
      container_slot_role_of spec 0 \<noteq> Generic"
begin

lemma normalize_length:
  "cb_container_spec cb (oc_kind st) = Some spec \<Longrightarrow>
    length (oc_local_slots (cb_normalize_container cb st)) = length (oc_local_slots st)"
  using normalize_slots [of st spec] by (metis length_mask)

lemma click_container_slot_items:
  assumes ok: "window_ok (Some w)" and cursor: "slot_ok cursor" and spec: "cb_container_spec cb (oc_kind (ow_container w)) = Some spec"
    and role: "container_slot_role_of spec index \<noteq> OutputOnly"
  shows "\<exists>applied container cursor'. click_container_slot cb index button (ow_container w, cursor) = Inr (applied, container, cursor') \<and>
    slot_items cursor' + container_items cb container = slot_items cursor + container_items cb (ow_container w) \<and>
    window_ok (Some (w\<lparr>ow_container := container\<rparr>)) \<and> slot_ok cursor' \<and>
    (\<not> applied \<longrightarrow> container = ow_container w \<and> cursor' = cursor)"
proof (cases "unat index < length (oc_local_slots (ow_container w))")
  case False
  then show ?thesis using ok cursor by (auto simp: click_container_slot_def)
next
  case True
  let ?c = "ow_container w" and ?i = "unat index"
  let ?slots = "oc_local_slots ?c"
  have slots: "slots_ok ?slots" and len: "length ?slots < 2 ^ 16" using ok by (simp_all add: window_ok_def)
  then have old: "slot_ok (?slots ! ?i)" using True by (simp add: slots_ok_def)
  obtain applied cursor' stack where click: "apply_click_slot_value button (cursor, ?slots ! ?i) = Inr (applied, cursor', stack)"
    and items: "slot_items cursor' + slot_items stack = slot_items cursor + slot_items (?slots ! ?i)"
    and oks: "slot_ok cursor'" "slot_ok stack" and same: "\<not> applied \<longrightarrow> cursor' = cursor \<and> stack = ?slots ! ?i"
    using click_slot_items [OF cursor old, of button] by blast
  define st where "st = ?c\<lparr>oc_local_slots := ?slots[?i := stack]\<rparr>"
  have st: "oc_kind st = oc_kind ?c" "cb_container_spec cb (oc_kind st) = Some spec" "slots_ok (oc_local_slots st)"
    "length (oc_local_slots st) = length ?slots"
    using spec slots oks(2) by (simp_all add: st_def slots_ok_update)
  have role': "container_slot_role_of spec (word_of_nat ?i) \<noteq> OutputOnly" using role by simp
  have "slots_items (mask_outputs spec (?slots[?i := stack])) + slot_items (?slots ! ?i) =
      slots_items (mask_outputs spec ?slots) + slot_items stack"
    using slots_items_update [of ?i "mask_outputs spec ?slots" stack] True
    by (simp add: mask_update [OF True role'] mask_nth [OF True role'])
  then have "slot_items cursor' + container_items cb st + (slot_items stack + slot_items (?slots ! ?i)) =
      slot_items cursor + container_items cb ?c + (slot_items stack + slot_items (?slots ! ?i))"
    using items spec st by (simp add: container_items_def st_def ac_simps)
  then have total: "slot_items cursor' + container_items cb st = slot_items cursor + container_items cb ?c" by simp
  have norm: "container_items cb (cb_normalize_container cb st) = container_items cb st"
    using normalize_slots [OF st(2)] by (simp add: container_items_def normalize_kind st(2))
  have run: "click_container_slot cb index button (?c, cursor) =
      Inr (applied, if applied then cb_normalize_container cb st else st, cursor')"
    using True click by (simp add: click_container_slot_def st_def Let_def)
  show ?thesis
  proof (cases applied)
    case True
    then show ?thesis
      using run total norm oks(1) normalize_ok [OF st(3)] normalize_length [OF st(2)] st(4) len
      by (auto simp: window_ok_def)
  next
    case False
    then have "st = ?c" using same by (simp add: st_def)
    then show ?thesis using run False same ok oks(1) total by (cases w) auto
  qed
qed

lemma player_window_items:
  assumes ok: "inventory_stacks_ok pinv" and cursor: "slot_ok cursor" and out: "\<not> clicks_output cb 0 slot session"
  shows "\<exists>applied pinv' cursor'. apply_player_window_click cb (Some slot) button (pinv, cursor) = Inr (applied, pinv', cursor') \<and>
    slot_items cursor' + stored_items pinv' = slot_items cursor + stored_items pinv \<and>
    inventory_stacks_ok pinv' \<and> slot_ok cursor' \<and> (\<not> applied \<longrightarrow> pinv' = pinv \<and> cursor' = cursor)"
proof (cases "cb_container_spec cb (cb_player_container_kind cb)")
  case None
  then show ?thesis using ok cursor by (simp add: apply_player_window_click_def) blast
next
  case (Some spec)
  note spec = Some and click = click_inventory_slot_items [OF ok cursor, of slot button]
  show ?thesis
  proof (cases "\<exists>index. slot = WindowLocal index")
    case False
    then have "apply_player_window_click cb (Some slot) button (pinv, cursor) = click_inventory_slot button slot (pinv, cursor)"
      using spec by (cases slot) (simp_all add: apply_player_window_click_def)
    then show ?thesis using click False by auto
  next
    case True
    then obtain index where slot: "slot = WindowLocal index" by blast
    show ?thesis
    proof (cases "index < sp_local_slot_count spec \<and> container_slot_role_of spec index = Generic")
      case False
      then have "apply_player_window_click cb (Some slot) button (pinv, cursor) = Inr (False, pinv, cursor)"
        using spec slot out
        by (auto simp: apply_player_window_click_def clicks_output_def split: container_slot_role.splits)
      then show ?thesis using ok cursor by blast
    next
      case True
      then have "slot \<noteq> WindowLocal 0" using player_result [OF spec] slot by auto
      then obtain applied pinv' cursor' where run: "click_inventory_slot button slot (pinv, cursor) = Inr (applied, pinv', cursor')"
        and rest: "slot_items cursor' + stored_items pinv' = slot_items cursor + stored_items pinv"
          "inventory_stacks_ok pinv'" "slot_ok cursor'" "\<not> applied \<longrightarrow> pinv' = pinv \<and> cursor' = cursor"
        using click by blast
      have "apply_player_window_click cb (Some slot) button (pinv, cursor) =
          Inr (applied, if applied then cb_normalize_player_inventory cb pinv' else pinv', cursor')"
        using spec slot True run by (simp add: apply_player_window_click_def)
      then show ?thesis using rest normalize_player [OF rest(2)] by auto
    qed
  qed
qed

lemma container_local_items:
  assumes ok: "click_ok (session, pinv)" and w: "active_window session window_id = Some w"
    and spec: "cb_container_spec cb (oc_kind (ow_container w)) = Some spec"
    and index: "index < sp_local_slot_count spec" "container_slot_role_of spec index = Generic"
  shows "\<exists>applied session'. apply_active_container_click cb window_id (Some (WindowLocal index)) (SlotTarget (WindowLocal index))
      button (session, pinv) = Inr (applied, session', pinv) \<and>
    held_items cb (session', pinv) = held_items cb (session, pinv) \<and> click_ok (session', pinv) \<and>
    (\<not> applied \<longrightarrow> session' = session)"
proof -
  have active: "se_active_container session = Some w"
    using w by (auto simp: active_window_def split: option.splits if_splits)
  have oks: "inventory_stacks_ok pinv" "slot_ok (se_cursor session)" "window_ok (Some w)"
    using ok by (simp_all add: click_ok_def active)
  have "container_slot_role_of spec index \<noteq> OutputOnly" using index by simp
  from click_container_slot_items [OF oks(3,2) spec this, of button]
  obtain applied container cursor' where
    run: "click_container_slot cb index button (ow_container w, se_cursor session) = Inr (applied, container, cursor')"
    and rest: "slot_items cursor' + container_items cb container = slot_items (se_cursor session) + container_items cb (ow_container w)"
      "window_ok (Some (w\<lparr>ow_container := container\<rparr>))" "slot_ok cursor'"
      "\<not> applied \<longrightarrow> container = ow_container w \<and> cursor' = se_cursor session"
    by blast
  let ?session = "session\<lparr>se_cursor := cursor', se_active_container := Some (w\<lparr>ow_container := container\<rparr>)\<rparr>"
  have "apply_active_container_click cb window_id (Some (WindowLocal index)) (SlotTarget (WindowLocal index)) button (session, pinv) =
      Inr (applied, ?session, pinv)"
    using w spec run index by (simp add: apply_active_container_click_def Let_def)
  moreover have "held_items cb (?session, pinv) = held_items cb (session, pinv)"
    using rest(1) active by (simp add: held_items_def window_items_def)
  moreover have "\<not> applied \<longrightarrow> ?session = session"
    using rest(4) active by (cases session; cases w) auto
  ultimately show ?thesis using rest oks(1) by (auto simp: click_ok_def)
qed

lemma container_storage_items:
  assumes ok: "click_ok (session, pinv)" and w: "active_window session window_id = Some w"
    and spec: "cb_container_spec cb (oc_kind (ow_container w)) = Some spec" and slot: "\<nexists>index. slot = WindowLocal index"
  shows "\<exists>applied session' pinv'.
    apply_active_container_click cb window_id (Some slot) (SlotTarget slot) button (session, pinv) = Inr (applied, session', pinv') \<and>
    held_items cb (session', pinv') = held_items cb (session, pinv) \<and> click_ok (session', pinv') \<and>
    (\<not> applied \<longrightarrow> session' = session \<and> pinv' = pinv)"
proof -
  have oks: "inventory_stacks_ok pinv" "slot_ok (se_cursor session)" "window_ok (se_active_container session)" "slot \<noteq> WindowLocal 0"
    using ok slot by (auto simp: click_ok_def)
  from click_inventory_slot_items [OF oks(1,2,4), of button]
  obtain applied pinv' cursor' where run: "click_inventory_slot button slot (pinv, se_cursor session) = Inr (applied, pinv', cursor')"
    and rest: "slot_items cursor' + stored_items pinv' = slot_items (se_cursor session) + stored_items pinv"
      "inventory_stacks_ok pinv'" "slot_ok cursor'" "\<not> applied \<longrightarrow> pinv' = pinv \<and> cursor' = se_cursor session"
    by blast
  have "apply_active_container_click cb window_id (Some slot) (SlotTarget slot) button (session, pinv) =
      Inr (applied, session\<lparr>se_cursor := cursor'\<rparr>, pinv')"
    using w spec run slot by (cases slot) (simp_all add: apply_active_container_click_def)
  then show ?thesis using rest oks(3) by (auto simp: held_items_def click_ok_def)
qed

lemma container_window_items:
  assumes ok: "click_ok (session, pinv)" and window: "window_id \<noteq> 0" and out: "\<not> clicks_output cb window_id slot session"
  shows "\<exists>applied session' pinv'.
    apply_active_container_click cb window_id (Some slot) (SlotTarget slot) button (session, pinv) = Inr (applied, session', pinv') \<and>
    held_items cb (session', pinv') = held_items cb (session, pinv) \<and> click_ok (session', pinv') \<and>
    (\<not> applied \<longrightarrow> session' = session \<and> pinv' = pinv)"
proof -
  let ?run = "apply_active_container_click cb window_id (Some slot) (SlotTarget slot) button (session, pinv)"
  have idle: ?thesis if "?run = Inr (False, session, pinv)" using that ok by blast
  consider (no_window) "active_window session window_id = None"
    | (no_spec) w where "active_window session window_id = Some w" "cb_container_spec cb (oc_kind (ow_container w)) = None"
    | (storage) w spec where "active_window session window_id = Some w"
        "cb_container_spec cb (oc_kind (ow_container w)) = Some spec" "\<nexists>index. slot = WindowLocal index"
    | (other) w spec index where "active_window session window_id = Some w"
        "cb_container_spec cb (oc_kind (ow_container w)) = Some spec" "slot = WindowLocal index"
        "\<not> (index < sp_local_slot_count spec \<and> container_slot_role_of spec index = Generic)"
    | (local_slot) w spec index where "active_window session window_id = Some w"
        "cb_container_spec cb (oc_kind (ow_container w)) = Some spec" "slot = WindowLocal index"
        "index < sp_local_slot_count spec" "container_slot_role_of spec index = Generic"
    by fast
  then show ?thesis
  proof cases
    case storage
    then show ?thesis by (rule container_storage_items [OF ok])
  next
    case local_slot
    with container_local_items [OF ok local_slot(1,2,4,5), of button] show ?thesis by blast
  next
    case other
    then show ?thesis
      using out window
      by (intro idle) (auto simp: apply_active_container_click_def clicks_output_def Let_def split: container_slot_role.splits)
  qed (intro idle; simp add: apply_active_container_click_def)+
qed

lemma click_items:
  assumes ok: "click_ok (session, pinv)" and out: "\<not> clicks_output cb window_id slot session"
  shows "\<exists>applied session' pinv'. apply_click cb window_id (SlotTarget slot) button (session, pinv) = Inr (applied, session', pinv') \<and>
    held_items cb (session', pinv') = held_items cb (session, pinv) \<and> click_ok (session', pinv') \<and>
    (\<not> applied \<longrightarrow> session' = session \<and> pinv' = pinv)"
proof (cases "window_id = 0")
  case True
  have oks: "inventory_stacks_ok pinv" "slot_ok (se_cursor session)" "window_ok (se_active_container session)"
    using ok by (simp_all add: click_ok_def)
  obtain applied pinv' cursor' where "apply_player_window_click cb (Some slot) button (pinv, se_cursor session) = Inr (applied, pinv', cursor')"
    and rest: "slot_items cursor' + stored_items pinv' = slot_items (se_cursor session) + stored_items pinv"
      "inventory_stacks_ok pinv'" "slot_ok cursor'" "\<not> applied \<longrightarrow> pinv' = pinv \<and> cursor' = se_cursor session"
    using player_window_items [OF oks(1,2), of slot session button] out True by blast
  then have "apply_click cb window_id (SlotTarget slot) button (session, pinv) = Inr (applied, session\<lparr>se_cursor := cursor'\<rparr>, pinv')"
    using True by (simp add: apply_click_def)
  then show ?thesis using rest oks(3) by (auto simp: held_items_def click_ok_def)
next
  case False
  with container_window_items [OF ok False out, of button] show ?thesis by (simp add: apply_click_def)
qed

end

section \<open>The canonical content\<close>

lemma store_slots:
  "inventory_ok pinv \<Longrightarrow> length xs \<le> 9 \<Longrightarrow>
    store_player_local_slots xs pinv = pinv\<lparr>pi_slots := xs @ drop (length xs) (pi_slots pinv)\<rparr>"
proof (induction xs rule: rev_induct)
  case (snoc x xs)
  let ?n = "length xs"
  have n: "?n < 9" and w: "unat (word_of_nat ?n :: u16) = ?n" "unat (ucast (word_of_nat ?n :: u16) :: u8) = ?n"
    using snoc.prems by (simp_all add: unsigned_of_nat unsigned_ucast_eq take_bit_nat_eq_self)
  have less: "(word_of_nat ?n :: u16) < 9" "(ucast (word_of_nat ?n :: u16) :: u8) < 45"
    using n w by (simp_all add: word_less_nat_alt)
  have "inventory_set_slot (WindowLocal (word_of_nat ?n)) x (pinv\<lparr>pi_slots := xs @ drop ?n (pi_slots pinv)\<rparr>) =
      (True, pinv\<lparr>pi_slots := (xs @ drop ?n (pi_slots pinv))[?n := x]\<rparr>)"
    using less w by (simp add: inventory_set_slot_def inventory_set_def slot_counts word_less_nat_alt)
  moreover have "(xs @ drop ?n (pi_slots pinv))[?n := x] = xs @ x # drop (Suc ?n) (pi_slots pinv)"
    using n snoc.prems(1) by (simp add: list_update_append inventory_ok_def slot_counts Cons_nth_drop_Suc [symmetric])
  ultimately show ?case
    using snoc by (simp add: store_player_local_slots_def enumerate_append_eq)
qed (simp add: store_player_local_slots_def)

lemma local_slots_take:
  assumes "inventory_ok pinv"
  shows "map (\<lambda>i. inventory_get_slot pinv (WindowLocal (word_of_nat i))) [0..<9] = take 9 (pi_slots pinv)"
proof (rule nth_equalityI)
  fix i assume "i < length (map (\<lambda>i. inventory_get_slot pinv (WindowLocal (word_of_nat i))) [0..<9])"
  then have i: "i < 9" by simp
  then have w: "unat (word_of_nat i :: u16) = i" "unat (ucast (word_of_nat i :: u16) :: u8) = i"
    by (simp_all add: unsigned_of_nat unsigned_ucast_eq take_bit_nat_eq_self)
  then show "map (\<lambda>i. inventory_get_slot pinv (WindowLocal (word_of_nat i))) [0..<9] ! i = take 9 (pi_slots pinv) ! i"
    using assms i by (simp add: inventory_get_slot_def inventory_get_def inventory_ok_def slot_counts word_less_nat_alt)
qed (use assms in \<open>simp add: inventory_ok_def slot_counts\<close>)

text \<open>Recomputing the crafting result writes slot 0 only.\<close>

lemma recompute_player:
  assumes "inventory_ok pinv"
  shows "recompute_crafting_result_for_player pinv = pinv\<lparr>pi_slots := (pi_slots pinv)[0 :=
    map_option fst (current_crafting_recipe (crafting_inputs (take 9 (pi_slots pinv)) 2) 2)]\<rparr>"
proof -
  let ?slots = "recompute_crafting_result 2 (take 9 (pi_slots pinv))"
  have len: "length (pi_slots pinv) = 45" using assms by (simp add: inventory_ok_def slot_counts)
  have "recompute_crafting_result_for_player pinv = store_player_local_slots ?slots pinv"
    using local_slots_take [OF assms]
    by (simp add: recompute_crafting_result_for_player_def store_player_local_slots_def PLAYER_LOCAL_SLOT_COUNT_def Let_def)
  also have "\<dots> = pinv\<lparr>pi_slots := ?slots @ drop 9 (pi_slots pinv)\<rparr>"
    using store_slots [OF assms, of ?slots] len by simp
  also have "?slots @ drop 9 (pi_slots pinv) = (pi_slots pinv)[0 :=
      map_option fst (current_crafting_recipe (crafting_inputs (take 9 (pi_slots pinv)) 2) 2)]"
    using len by (cases "pi_slots pinv") (simp_all add: recompute_crafting_result_def)
  finally show ?thesis .
qed

lemma recompute_player_ok:
  assumes "inventory_stacks_ok pinv"
  shows "inventory_stacks_ok (recompute_crafting_result_for_player pinv) \<and>
    stored_items (recompute_crafting_result_for_player pinv) = stored_items pinv"
proof -
  have inv: "inventory_ok pinv" and slots: "slots_ok (pi_slots pinv)" using assms by (simp_all add: inventory_stacks_ok_def)
  have "slots_ok (take 9 (pi_slots pinv))" using slots by (auto simp: slots_ok_def dest: in_set_takeD)
  from slots_ok_recompute [OF this, of 2]
  have "slot_ok (recompute_crafting_result 2 (take 9 (pi_slots pinv)) ! 0)"
    using inv by (auto simp: slots_ok_def inventory_ok_def slot_counts)
  then have result: "slot_ok (map_option fst (current_crafting_recipe (crafting_inputs (take 9 (pi_slots pinv)) 2) 2))"
    using inv by (simp add: recompute_crafting_result_def inventory_ok_def slot_counts)
  have "tl ((pi_slots pinv)[0 := v]) = tl (pi_slots pinv)" for v by (cases "pi_slots pinv") simp_all
  then show ?thesis
    using assms slots_ok_update [OF slots result, of 0]
    by (simp add: recompute_player [OF inv] inventory_stacks_ok_def inventory_ok_def stored_items_def)
qed

lemma mask_result:
  assumes "container_slot_role_of spec 0 = OutputOnly"
  shows "mask_outputs spec (slots[0 := v]) = mask_outputs spec slots"
proof (rule nth_equalityI)
  fix i assume "i < length (mask_outputs spec (slots[0 := v]))"
  then show "mask_outputs spec (slots[0 := v]) ! i = mask_outputs spec slots ! i"
    using assms by (cases "i = 0") (simp_all add: mask_outputs_def nth_enumerate_eq)
qed simp

lemma normalize_furnace_slots: "oc_local_slots (normalize_furnace st) = oc_local_slots st" "oc_kind (normalize_furnace st) = oc_kind st"
  by (simp_all add: normalize_furnace_def Let_def)

interpretation canonical: content_laws canonical_content
proof
  fix st :: open_container_state and spec pinv
  show "oc_kind (cb_normalize_container canonical_content st) = oc_kind st"
    by (simp add: canonical_content_def canonical_normalize_container_def normalize_furnace_slots)
  show "slots_ok (oc_local_slots st) \<Longrightarrow> slots_ok (oc_local_slots (cb_normalize_container canonical_content st))"
    by (simp add: canonical_content_def canonical_normalize_container_def normalize_furnace_slots slots_ok_recompute)
  show "mask_outputs spec (oc_local_slots (cb_normalize_container canonical_content st)) = mask_outputs spec (oc_local_slots st)"
    if "cb_container_spec canonical_content (oc_kind st) = Some spec"
  proof (cases "oc_kind st = CRAFTING_TABLE_ID")
    case True
    then have "container_slot_role_of spec 0 = OutputOnly"
      using that by (auto simp: canonical_content_def canonical_container_spec_def container_slot_role_of_def id_keys)
    with True show ?thesis
      by (simp add: canonical_content_def canonical_normalize_container_def recompute_crafting_result_def mask_result)
  qed (simp add: canonical_content_def canonical_normalize_container_def normalize_furnace_slots)
  show "container_slot_role_of spec 0 \<noteq> Generic"
    if "cb_container_spec canonical_content (cb_player_container_kind canonical_content) = Some spec"
    using that by (auto simp: canonical_content_def canonical_container_spec_def container_slot_role_of_def)
  show "inventory_stacks_ok pinv \<Longrightarrow> inventory_stacks_ok (cb_normalize_player_inventory canonical_content pinv) \<and>
      stored_items (cb_normalize_player_inventory canonical_content pinv) = stored_items pinv"
    using recompute_player_ok by (simp add: canonical_content_def canonical_normalize_player_inventory_def)
qed

text \<open>C6: a click on a window never makes or loses an item. A click on any slot of the player's window or of an open
  container, other than the slot that hands out a result, does not panic; the items on the cursor,
  in the player's store and in the container are the same before and after; every stack keeps 1 to
  64 items; and a click reported as not applied has changed nothing.\<close>

theorem click_conserves_items:
  assumes "click_ok (session, pinv)" and "\<not> clicks_output canonical_content window_id slot session"
  shows "\<exists>applied session' pinv'.
    apply_click canonical_content window_id (SlotTarget slot) button (session, pinv) = Inr (applied, session', pinv') \<and>
    held_items canonical_content (session', pinv') = held_items canonical_content (session, pinv) \<and>
    click_ok (session', pinv') \<and> (\<not> applied \<longrightarrow> session' = session \<and> pinv' = pinv)"
  by (rule canonical.click_items [OF assms])

definition sample_session :: "item_stack option \<Rightarrow> player_session_state" where
  "sample_session cursor = (new_session 1 (client_view_new \<lparr>cp_x = 0, cp_z = 0\<rparr> 2) 0 10000)\<lparr>se_cursor := cursor\<rparr>"

theorem click_conserves_items_witness:
  "\<exists>applied session' pinv'.
    apply_click canonical_content 0 (SlotTarget (Hotbar 3)) RightButton
      (sample_session (Some (item_stack_new STICK 40 0)), inventory_new_empty) = Inr (applied, session', pinv') \<and>
    held_items canonical_content (session', pinv') =
      held_items canonical_content (sample_session (Some (item_stack_new STICK 40 0)), inventory_new_empty)"
proof -
  have "click_ok (sample_session (Some (item_stack_new STICK 40 0)), inventory_new_empty)"
    by (simp add: click_ok_def sample_session_def new_session_def window_ok_def inventory_new_empty_ok stack_ok_def
        item_stack_new_def)
  from click_conserves_items [OF this, of 0 "Hotbar 3" RightButton] show ?thesis
    by (auto simp: clicks_output_def)
qed

section \<open>Saving a player\<close>

text \<open>A player with one log in the crafting grid, which shows four planks as the result.\<close>

definition grid_inventory :: player_inventory where
  "grid_inventory = canonical_normalize_player_inventory
     (snd (inventory_set_slot (WindowLocal 1) (Some (item_stack_new OAK_LOG 1 0)) inventory_new_empty))"

lemma grid_inventory_slots: "pi_slots grid_inventory =
    [Some (item_stack_new OAK_PLANKS 4 0), Some (item_stack_new OAK_LOG 1 0)] @ replicate 43 None \<and> pi_offhand grid_inventory = None"
  by code_simp

lemma clear_grid: "clear_local_slots 9 grid_inventory =
    ([item_stack_new OAK_PLANKS 4 0, item_stack_new OAK_LOG 1 0], inventory_new_empty)"
  by code_simp

lemma merge_no_match:
  "\<forall>slot \<in> set slots. \<forall>s. inventory_get_slot pinv slot = Some s \<longrightarrow> \<not> stack_keys_match s stack \<Longrightarrow>
    merge_into_existing slots pinv stack = (pinv, Some stack)"
  by (induction slots) (auto split: option.split)

lemma persistent_slots_first: "\<exists>rest. persistent_slot_order = Hotbar 0 # Hotbar 1 # rest"
  by (simp add: persistent_slot_order_def upt_conv_Cons)

text \<open>Two stacks of different items go to the first two hotbar slots of an empty inventory.\<close>

lemma merge_two:
  assumes "\<not> stack_keys_match a b"
  shows "merge_all [a, b] inventory_new_empty =
    snd (inventory_set_slot (Hotbar 1) (Some b) (snd (inventory_set_slot (Hotbar 0) (Some a) inventory_new_empty)))"
proof -
  obtain rest where order: "persistent_slot_order = Hotbar 0 # Hotbar 1 # rest" using persistent_slots_first by blast
  have ok: "inventory_ok inventory_new_empty" using inventory_new_empty_ok by (simp add: inventory_stacks_ok_def)
  have valid: "slot_valid (Hotbar 0)" by (simp add: slot_valid_def slot_counts)
  have empty: "inventory_get_slot inventory_new_empty slot = None" for slot
    by (cases slot) (auto simp: inventory_get_slot_def inventory_get_def inventory_new_empty_def split: option.split)
  let ?p = "snd (inventory_set_slot (Hotbar 0) (Some a) inventory_new_empty)"
  have get: "inventory_get_slot ?p slot = (if slot = Hotbar 0 then Some a else None)" for slot
    by (simp add: inventory_get_set_slot [OF ok valid] empty)
  have "merge_stack_into_player_inventory inventory_new_empty a = (?p, None)"
    unfolding merge_stack_into_player_inventory_def by (simp add: merge_no_match empty order)
  moreover have "merge_stack_into_player_inventory ?p b = (snd (inventory_set_slot (Hotbar 1) (Some b) ?p), None)"
    unfolding merge_stack_into_player_inventory_def using assms
    by (simp add: merge_no_match get order)
  ultimately show ?thesis by (simp add: merge_all_def)
qed

definition saved_grid :: player_inventory where
  "saved_grid = canonical_normalize_player_inventory
     (snd (inventory_set_slot (Hotbar 1) (Some (item_stack_new OAK_LOG 1 0))
       (snd (inventory_set_slot (Hotbar 0) (Some (item_stack_new OAK_PLANKS 4 0)) inventory_new_empty))))"

lemma saved_grid_slots: "pi_slots saved_grid =
    replicate 36 None @ [Some (item_stack_new OAK_PLANKS 4 0), Some (item_stack_new OAK_LOG 1 0)] @ replicate 7 None \<and>
    pi_offhand saved_grid = None"
  by code_simp

lemma slots_items_append [simp]: "slots_items (xs @ ys) = slots_items xs + slots_items ys"
  by (simp add: slots_items_def)

lemma slots_items_replicate [simp]: "slots_items (replicate n None) = {#}"
  by (induction n) simp_all


end
