(* ===== verification/Core_Ops.thy ===== *)
theory Core_Ops
  imports Core_Inventory
begin

text \<open>
  The operations of the core, crate \<open>revy-voxel-core\<close>: \<open>core/mutation.rs\<close>, \<open>core/mining.rs\<close>,
  \<open>core/login.rs\<close>, \<open>core/tick.rs\<close> and \<open>core/canonical.rs\<close>.

  \<open>reduce_core_op\<close> runs one operation over a backend and reports what changed; the event builder turns
  a report into events for the clients and withholds what concerns players whose login is not
  finished; \<open>apply_core_ops\<close> runs a list of operations on the core. The debug assertions on entity ids
  have no counterpart.
\<close>

section \<open>Reports\<close>

record view_update_delta =
  vu_player_id :: player_id
  vu_chunks :: "chunk_column list"

record player_pose_delta =
  pp_player_id :: player_id
  pp_entity_id :: entity_id
  pp_player :: player_snapshot
  pp_chunks :: "chunk_column list"
  pp_moved_for_viewers :: "player_id list"
  pp_spawned_for_viewers :: "player_id list"
  pp_despawned_for_viewers :: "player_id list"
  pp_observed_players_entered :: "(entity_id \<times> player_snapshot) list"
  pp_observed_items_entered :: "(entity_id \<times> dropped_item_snapshot) list"
  pp_observed_entities_left :: "entity_id list"

record selected_hotbar_delta =
  sh_player_id :: player_id
  sh_slot :: u8

record inventory_slot_delta =
  sl_player_id :: player_id
  sl_slot :: inventory_slot
  sl_stack :: "item_stack option"
  sl_crafting_result :: "item_stack option option"

record mining_progress_delta =
  mp_breaker_entity_id :: entity_id
  mp_position :: block_pos
  mp_stage :: "u8 option"
  mp_duration_ms :: u64

type_synonym clear_mining_delta = mining_progress_delta

record begin_mining_delta =
  bm_cleared :: "clear_mining_delta option"
  bm_progress :: mining_progress_delta

record block_delta =
  bd_position :: block_pos
  bd_cleared_mining :: "clear_mining_delta list"
  bd_closed_containers :: "close_container_delta list"

record dropped_item_spawn_delta =
  dp_entity_id :: entity_id
  dp_item :: dropped_item_snapshot

record login_finalize_delta =
  lf_connection_id :: connection_id
  lf_player_id :: player_id
  lf_entity_id :: entity_id
  lf_player :: player_snapshot
  lf_visible_chunks :: "chunk_column list"
  lf_existing_players :: "(entity_id \<times> player_snapshot) list"
  lf_dropped_items :: "(entity_id \<times> dropped_item_snapshot) list"
  lf_new_player_viewers :: "player_id list"

datatype complete_mining_delta =
    MiningCleared clear_mining_delta
  | MiningCompleted block_delta "dropped_item_spawn_delta option"

record keep_alive_delta =
  ka_player_id :: player_id
  ka_keep_alive_id :: int

record disconnect_delta =
  dc_player_id :: player_id
  dc_entity_id :: entity_id
  dc_cleared_mining :: "clear_mining_delta option"

section \<open>Moving, slots and blocks: \<open>mutation.rs\<close>\<close>

definition DROPPED_ITEM_PICKUP_DELAY_MS :: u64 where "DROPPED_ITEM_PICKUP_DELAY_MS = 500"
definition DROPPED_ITEM_DESPAWN_MS :: u64 where "DROPPED_ITEM_DESPAWN_MS = 5 * 60 * 1000"

text \<open>What a move changes between the player and one other player: whether the other saw and sees the player,
  and whether the player saw and sees the other.\<close>

record pose_observation =
  po_other_id :: player_id
  po_viewer_saw :: bool
  po_viewer_sees :: bool
  po_player_saw :: bool
  po_player_sees :: bool
  po_other_entity :: entity_id
  po_other_player :: player_snapshot

definition observe_player :: "'s core_backend \<Rightarrow> player_snapshot \<Rightarrow> player_snapshot \<Rightarrow> client_view \<Rightarrow> client_view \<Rightarrow>
    player_id \<Rightarrow> ('s, pose_observation option) core_prog" where
  "observe_player B previous_player snapshot previous_view current_view other_id =
     bind_some (b_player_session B other_id) (\<lambda>other_session.
     bind_some (compose_player_snapshot B other_id) (\<lambda>other_player.
     sbind (chunk_of (ps_position previous_player)) (\<lambda>previous_chunk.
     sbind (chunk_of (ps_position snapshot)) (\<lambda>new_chunk.
     sbind (chunk_of (ps_position other_player)) (\<lambda>other_chunk.
     sret (Some \<lparr>po_other_id = other_id,
       po_viewer_saw = previous_chunk \<in> cv_loaded_chunks (se_view other_session),
       po_viewer_sees = new_chunk \<in> cv_loaded_chunks (se_view other_session),
       po_player_saw = other_chunk \<in> cv_loaded_chunks previous_view,
       po_player_sees = other_chunk \<in> cv_loaded_chunks current_view,
       po_other_entity = se_entity_id other_session, po_other_player = other_player\<rparr>))))))"

definition catsome :: "'a option list \<Rightarrow> 'a list" where
  "catsome xs = concat (map (\<lambda>x. case x of None \<Rightarrow> [] | Some y \<Rightarrow> [y]) xs)"

text \<open>The dropped items that come into view, and the entities of those that leave it.\<close>

definition observe_item :: "'s core_backend \<Rightarrow> client_view \<Rightarrow> client_view \<Rightarrow> entity_id \<Rightarrow>
    ('s, (dropped_item_snapshot \<times> bool \<times> bool) option) core_prog" where
  "observe_item B previous_view current_view e =
     bind_some (b_dropped_item_by_entity B e) (\<lambda>item.
     sbind (chunk_of (di_position (ds_snapshot item))) (\<lambda>item_chunk.
     sret (Some (ds_snapshot item, item_chunk \<in> cv_loaded_chunks previous_view, item_chunk \<in> cv_loaded_chunks current_view))))"

definition moved_transform :: "vec3 option \<Rightarrow> f32 option \<Rightarrow> f32 option \<Rightarrow> bool \<Rightarrow> player_transform \<Rightarrow> player_transform" where
  "moved_transform position yaw pitch on_ground t =
     t\<lparr>pt_position := (case position of Some v \<Rightarrow> v | None \<Rightarrow> pt_position t),
       pt_yaw := (case yaw of Some v \<Rightarrow> v | None \<Rightarrow> pt_yaw t),
       pt_pitch := (case pitch of Some v \<Rightarrow> v | None \<Rightarrow> pt_pitch t),
       pt_on_ground := on_ground\<rparr>"

definition state_player_pose :: "'s core_backend \<Rightarrow> player_id \<Rightarrow> vec3 option \<Rightarrow> f32 option \<Rightarrow> f32 option \<Rightarrow> bool \<Rightarrow>
    ('s, player_pose_delta option) core_prog" where
  "state_player_pose B p position yaw pitch on_ground =
     bind_some (b_player_entity_id B p) (\<lambda>e.
     bind_some (compose_player_snapshot B p) (\<lambda>previous_player.
     bind_some (b_player_session B p) (\<lambda>previous_session.
     bind_some (b_player_transform_mut B e) (\<lambda>transform.
     let transform' = moved_transform position yaw pitch on_ground transform in
     sbind (b_write_player_transform B e transform') (\<lambda>_.
     sbind (chunk_of (pt_position transform')) (\<lambda>current_chunk.
     bind_some (b_player_session_mut B p) (\<lambda>session.
     case client_view_retarget current_chunk (cv_view_distance (se_view session)) (se_view session) of
       (delta, current_view) \<Rightarrow>
     sbind (b_write_player_session B p (session\<lparr>se_view := current_view\<rparr>)) (\<lambda>_.
     bind_some (compose_player_snapshot B p) (\<lambda>snapshot.
     sbind (b_player_ids B) (\<lambda>ids.
     sbind (smap (filter (\<lambda>other. other \<noteq> p) ids)
         (observe_player B previous_player snapshot (se_view previous_session) current_view)) (\<lambda>seen.
     sbind (b_dropped_item_ids B) (\<lambda>item_ids.
     sbind (smap item_ids (observe_item B (se_view previous_session) current_view)) (\<lambda>items.
     sbind (smap (cd_added delta) (b_ensure_chunk B)) (\<lambda>chunks.
     let players = catsome seen;
         dropped = catsome (map2 (\<lambda>i item. map_option (Pair i) item) item_ids items) in
     sret (Some \<lparr>pp_player_id = p, pp_entity_id = e, pp_player = snapshot, pp_chunks = chunks,
       pp_moved_for_viewers = map po_other_id (filter (\<lambda>q. po_viewer_saw q \<and> po_viewer_sees q) players),
       pp_spawned_for_viewers = map po_other_id (filter (\<lambda>q. \<not> po_viewer_saw q \<and> po_viewer_sees q) players),
       pp_despawned_for_viewers = map po_other_id (filter (\<lambda>q. po_viewer_saw q \<and> \<not> po_viewer_sees q) players),
       pp_observed_players_entered = map (\<lambda>q. (po_other_entity q, po_other_player q))
         (filter (\<lambda>q. \<not> po_player_saw q \<and> po_player_sees q) players),
       pp_observed_items_entered = map (\<lambda>(i, item, _). (i, item))
         (filter (\<lambda>(i, item, saw, sees). \<not> saw \<and> sees) dropped),
       pp_observed_entities_left =
         map po_other_entity (filter (\<lambda>q. po_player_saw q \<and> \<not> po_player_sees q) players) @
         map fst (filter (\<lambda>(i, item, saw, sees). saw \<and> \<not> sees) dropped)\<rparr>)))))))))))))))"

definition state_selected_hotbar_slot :: "'s core_backend \<Rightarrow> player_id \<Rightarrow> u8 \<Rightarrow> ('s, selected_hotbar_delta option) core_prog" where
  "state_selected_hotbar_slot B p slot =
     bind_some (b_player_entity_id B p) (\<lambda>e.
     bind_some (b_player_selected_hotbar_mut B e) (\<lambda>_.
     if slot \<ge> HOTBAR_SLOT_COUNT then sret None
     else sbind (b_write_player_selected_hotbar B e slot) (\<lambda>_. sret (Some \<lparr>sh_player_id = p, sh_slot = slot\<rparr>))))"

definition state_inventory_slot :: "'s core_backend \<Rightarrow> player_id \<Rightarrow> inventory_slot \<Rightarrow> item_stack option \<Rightarrow>
    ('s, inventory_slot_delta option) core_prog" where
  "state_inventory_slot B p slot stack =
     bind_some (b_player_entity_id B p) (\<lambda>e.
     sbind (b_content_behavior B) (\<lambda>cb.
     bind_some (b_player_inventory_mut B e) (\<lambda>pinv.
     let before_result = inventory_crafting_result pinv;
         pinv' = cb_normalize_player_inventory cb (snd (inventory_set_slot slot stack pinv));
         after_result = inventory_crafting_result pinv' in
     sbind (b_write_player_inventory B e pinv') (\<lambda>_.
     sret (Some \<lparr>sl_player_id = p, sl_slot = slot, sl_stack = stack,
       sl_crafting_result =
         (if before_result \<noteq> after_result \<and> \<not> is_crafting_result slot then Some after_result else None)\<rparr>)))))"

definition state_spawn_dropped_item :: "'s core_backend \<Rightarrow> vec3 \<Rightarrow> item_stack \<Rightarrow> u64 \<Rightarrow>
    ('s, dropped_item_spawn_delta option) core_prog" where
  "state_spawn_dropped_item B position item now_ms =
     sbind (b_allocate_entity_id B) (\<lambda>e.
     let snapshot = \<lparr>di_item = item, di_position = position, di_velocity = \<lparr>v_x = 0, v_y = 0, v_z = 0\<rparr>\<rparr> in
     sbind (b_set_entity_kind B e (Some DroppedItemEntity)) (\<lambda>_.
     sbind (b_set_dropped_item B e (Some \<lparr>ds_snapshot = snapshot, ds_last_updated_at_ms = now_ms,
       ds_pickup_allowed_at_ms = saturating_add_word now_ms DROPPED_ITEM_PICKUP_DELAY_MS,
       ds_despawn_at_ms = saturating_add_word now_ms DROPPED_ITEM_DESPAWN_MS\<rparr>)) (\<lambda>_.
     sret (Some \<lparr>dp_entity_id = e, dp_item = snapshot\<rparr>))))"

definition place_inventory_correction :: "player_id \<Rightarrow> interaction_hand \<Rightarrow> player_snapshot \<Rightarrow> container_kind_id \<Rightarrow>
    targeted_event list" where
  "place_inventory_correction p hand player player_container =
     (let selected_slot = (case hand of MainHand \<Rightarrow> Hotbar (ps_selected_hotbar_slot player) | OffhandHand \<Rightarrow> Offhand) in
      [(ToPlayer p, InventorySlotChanged 0 player_container selected_slot (inventory_get_slot (ps_inventory player) selected_slot)),
       (ToPlayer p, SelectedHotbarSlotChanged (ps_selected_hotbar_slot player))])"

section \<open>Mining: \<open>mining.rs\<close>\<close>

definition state_clear_active_mining :: "'s core_backend \<Rightarrow> player_id \<Rightarrow> ('s, clear_mining_delta option) core_prog" where
  "state_clear_active_mining B p =
     bind_some (b_player_entity_id B p) (\<lambda>e.
     bind_some (b_remove_player_active_mining B e) (\<lambda>mining.
     sret (Some \<lparr>mp_breaker_entity_id = e, mp_position = am_position mining, mp_stage = None,
       mp_duration_ms = am_duration_ms mining\<rparr>)))"

definition state_begin_mining :: "'s core_backend \<Rightarrow> player_id \<Rightarrow> block_pos \<Rightarrow> u64 \<Rightarrow> u64 \<Rightarrow>
    ('s, begin_mining_delta option) core_prog" where
  "state_begin_mining B p position duration_ms now_ms =
     bind_some (b_player_entity_id B p) (\<lambda>e.
     sbind (b_player_active_mining_by_entity B e) (\<lambda>active.
     if (case active of Some mining \<Rightarrow> am_position mining = position | None \<Rightarrow> False) then sret None
     else
       sbind (state_clear_active_mining B p) (\<lambda>cleared.
       let only_cleared = map_option (\<lambda>c. \<lparr>bm_cleared = Some c, bm_progress = c\<rparr>) cleared in
       sbind (state_player_inventory B p) (\<lambda>inventory.
       case inventory of
         None \<Rightarrow> sret only_cleared
       | Some inventory \<Rightarrow>
           sbind (state_player_selected_hotbar B p) (\<lambda>selected.
           case selected of
             None \<Rightarrow> sret only_cleared
           | Some selected \<Rightarrow>
               sbind (b_content_behavior B) (\<lambda>cb.
               sbind (b_set_player_active_mining B e (Some \<lparr>am_position = position, am_started_at_ms = now_ms,
                 am_duration_ms = duration_ms, am_last_stage = Some 0,
                 am_tool_context = cb_tool_spec_for_item cb (selected_hotbar_stack inventory selected)\<rparr>)) (\<lambda>_.
               sret (Some \<lparr>bm_cleared = cleared, bm_progress = \<lparr>mp_breaker_entity_id = e, mp_position = position,
                 mp_stage = Some 0, mp_duration_ms = duration_ms\<rparr>\<rparr>))))))))"

definition mines_at :: "'s core_backend \<Rightarrow> block_pos \<Rightarrow> player_id \<Rightarrow> ('s, bool) core_prog" where
  "mines_at B position p =
     sbind (state_player_active_mining B p) (\<lambda>mining.
     sret (case mining of Some mining \<Rightarrow> am_position mining = position | None \<Rightarrow> False))"

definition state_clear_active_mining_at :: "'s core_backend \<Rightarrow> block_pos \<Rightarrow> ('s, clear_mining_delta list) core_prog" where
  "state_clear_active_mining_at B position =
     sbind (b_player_ids B) (\<lambda>ids.
     sbind (smap ids (mines_at B position)) (\<lambda>mining.
     sbind (smap (map fst (filter snd (zip ids mining))) (state_clear_active_mining B)) (\<lambda>cleared.
     sret (catsome cleared))))"

definition state_advance_mining_stage :: "'s core_backend \<Rightarrow> player_id \<Rightarrow> entity_id \<Rightarrow> block_pos \<Rightarrow> u8 \<Rightarrow> u64 \<Rightarrow>
    ('s, mining_progress_delta option) core_prog" where
  "state_advance_mining_stage B p e position stage duration_ms =
     sbind (b_player_entity_id B p) (\<lambda>current_entity_id.
     bind_some (b_player_active_mining_mut B e) (\<lambda>mining.
     if current_entity_id \<noteq> Some e \<or> am_position mining \<noteq> position \<or> Some stage = am_last_stage mining then sret None
     else
       sbind (b_write_player_active_mining B e (mining\<lparr>am_last_stage := Some stage\<rparr>)) (\<lambda>_.
       sret (Some \<lparr>mp_breaker_entity_id = e, mp_position = position, mp_stage = Some stage, mp_duration_ms = duration_ms\<rparr>))))"

definition state_set_block :: "'s core_backend \<Rightarrow> block_pos \<Rightarrow> block_state option \<Rightarrow> ('s, block_delta) core_prog" where
  "state_set_block B position block =
     sbind (state_clear_active_mining_at B position) (\<lambda>cleared_mining.
     sbind (b_set_block_state B position block) (\<lambda>_.
     sbind (close_world_container_if_invalid_state B position block) (\<lambda>closed_containers.
     sbind (case block of
              None \<Rightarrow> b_set_block_entity B position None
            | Some block \<Rightarrow>
                sbind (b_content_behavior B) (\<lambda>cb.
                case cb_default_block_entity_for_block cb block of
                  None \<Rightarrow> sret ()
                | Some block_entity \<Rightarrow> b_set_block_entity B position (Some (ContainerEntity block_entity)))) (\<lambda>_.
     sret \<lparr>bd_position = position, bd_cleared_mining = cleared_mining, bd_closed_containers = closed_containers\<rparr>))))"

definition block_center :: "block_pos \<Rightarrow> vec3" where
  "block_center position = \<lparr>v_x = f64_add (f64_of_int (bp_x position)) F64_HALF,
     v_y = f64_add (f64_of_int (bp_y position)) F64_HALF, v_z = f64_add (f64_of_int (bp_z position)) F64_HALF\<rparr>"

definition state_complete_survival_mining :: "'s core_backend \<Rightarrow> player_id \<Rightarrow> block_pos \<Rightarrow> u64 \<Rightarrow>
    ('s, complete_mining_delta option) core_prog" where
  "state_complete_survival_mining B p position now_ms =
     bind_some (compose_player_snapshot B p) (\<lambda>player.
     bind_some (state_player_active_mining B p) (\<lambda>mining.
     if am_position mining \<noteq> position then sret None
     else
       sbind (b_block_state B position) (\<lambda>current.
       sbind (can_edit_block_for_snapshot B player position) (\<lambda>allowed.
       sbind (b_content_behavior B) (\<lambda>cb.
       sbind (b_block_entity B position) (\<lambda>block_entity.
       let give_up = sbind (state_clear_active_mining B p) (\<lambda>c. sret (map_option MiningCleared c)) in
       case current of
         None \<Rightarrow> give_up
       | Some current \<Rightarrow>
           if \<not> allowed \<or> cb_is_air_block cb current \<or> cb_is_unbreakable_block cb current \<or>
              (case block_entity of Some entity \<Rightarrow> has_inventory_contents entity | None \<Rightarrow> False)
           then give_up
           else
             sbind (state_set_block B position None) (\<lambda>block.
             sbind (case cb_survival_drop_for_block cb current of
                      None \<Rightarrow> sret None
                    | Some item \<Rightarrow> state_spawn_dropped_item B (block_center position) item now_ms) (\<lambda>spawned.
             sret (Some (MiningCompleted block spawned))))))))))"

section \<open>Logins and client settings: \<open>login.rs\<close>\<close>

definition reject_connection :: "connection_id \<Rightarrow> string \<Rightarrow> targeted_event list" where
  "reject_connection connection_id reason = [(ToConnection connection_id, Disconnect reason)]"

definition state_update_client_settings :: "'s core_backend \<Rightarrow> player_id \<Rightarrow> u8 \<Rightarrow> ('s, view_update_delta option) core_prog" where
  "state_update_client_settings B p view_distance =
     sbind (b_config B) (\<lambda>config.
     let capped_view_distance = max (min view_distance (cfg_view_distance config)) 1 in
     bind_some (compose_player_snapshot B p) (\<lambda>player.
     bind_some (b_player_session_mut B p) (\<lambda>session.
     sbind (chunk_of (ps_position player)) (\<lambda>center.
     case client_view_retarget center capped_view_distance (se_view session) of
       (delta, view) \<Rightarrow>
         sbind (b_write_player_session B p (session\<lparr>se_view := view\<rparr>)) (\<lambda>_.
         sbind (smap (cd_added delta) (b_ensure_chunk B)) (\<lambda>chunks.
         sret (Some \<lparr>vu_player_id = p, vu_chunks = chunks\<rparr>)))))))"

text \<open>For one other player: its entity and snapshot when the new player sees it, and whether it sees the new player.\<close>

definition login_observation :: "'s core_backend \<Rightarrow> client_view \<Rightarrow> player_snapshot \<Rightarrow> player_id \<Rightarrow>
    ('s, (player_id \<times> entity_id \<times> player_snapshot \<times> bool \<times> bool) option) core_prog" where
  "login_observation B session_view player other_id =
     bind_some (b_player_session B other_id) (\<lambda>session.
     bind_some (compose_player_snapshot B other_id) (\<lambda>snapshot.
     sbind (chunk_of (ps_position snapshot)) (\<lambda>other_chunk.
     sbind (chunk_of (ps_position player)) (\<lambda>player_chunk.
     sret (Some (other_id, se_entity_id session, snapshot, other_chunk \<in> cv_loaded_chunks session_view,
       player_chunk \<in> cv_loaded_chunks (se_view session)))))))"

definition visible_dropped_item :: "'s core_backend \<Rightarrow> client_view \<Rightarrow> entity_id \<Rightarrow>
    ('s, (entity_id \<times> dropped_item_snapshot) option) core_prog" where
  "visible_dropped_item B view e =
     bind_some (b_dropped_item_by_entity B e) (\<lambda>item.
     sbind (chunk_of (di_position (ds_snapshot item))) (\<lambda>item_chunk.
     sret (if item_chunk \<in> cv_loaded_chunks view then Some (e, ds_snapshot item) else None)))"

definition finalize_login_delta :: "'s core_backend \<Rightarrow> connection_id \<Rightarrow> player_id \<Rightarrow> ('s, login_finalize_delta option) core_prog" where
  "finalize_login_delta B connection_id p =
     bind_some (compose_player_snapshot B p) (\<lambda>player.
     bind_some (b_player_session B p) (\<lambda>session.
     sbind (chunk_of (ps_position player)) (\<lambda>center.
     sbind (initial_visible_chunks B center (cv_view_distance (se_view session))) (\<lambda>visible_chunks.
     sbind (b_player_ids B) (\<lambda>ids.
     sbind (smap (filter (\<lambda>other. other \<noteq> p) ids) (login_observation B (se_view session) player)) (\<lambda>seen.
     sbind (b_dropped_item_ids B) (\<lambda>item_ids.
     sbind (smap item_ids (visible_dropped_item B (se_view session))) (\<lambda>items.
     let others = catsome seen in
     sret (Some \<lparr>lf_connection_id = connection_id, lf_player_id = p, lf_entity_id = se_entity_id session,
       lf_player = player, lf_visible_chunks = visible_chunks,
       lf_existing_players = map (\<lambda>(_, e, snapshot, _). (e, snapshot)) (filter (\<lambda>(_, _, _, sees, _). sees) others),
       lf_dropped_items = catsome items,
       lf_new_player_viewers = map fst (filter (\<lambda>(_, _, _, _, seen). seen) others)\<rparr>)))))))))"

text \<open>The values \<open>20.0\<close> and \<open>5.0\<close> of \<open>f32\<close> as bit patterns.\<close>

definition default_player :: "player_id \<Rightarrow> string \<Rightarrow> block_pos \<Rightarrow> player_inventory \<Rightarrow> player_snapshot" where
  "default_player p username spawn inventory =
     \<lparr>ps_id = p, ps_username = username,
      ps_position = \<lparr>v_x = f64_add (f64_of_int (bp_x spawn)) F64_HALF, v_y = f64_of_int (bp_y spawn),
        v_z = f64_add (f64_of_int (bp_z spawn)) F64_HALF\<rparr>,
      ps_yaw = 0, ps_pitch = 0, ps_on_ground = True, ps_dimension = Overworld, ps_health = 0x41A00000, ps_food = 20,
      ps_food_saturation = 0x40A00000, ps_inventory = inventory, ps_selected_hotbar_slot = 0\<rparr>"

section \<open>Keep-alives and disconnects: \<open>tick.rs\<close>\<close>

definition accept_keep_alive_state :: "'s core_backend \<Rightarrow> player_id \<Rightarrow> int \<Rightarrow> ('s, bool) core_prog" where
  "accept_keep_alive_state B p keep_alive_id =
     sbind (b_player_session B p) (\<lambda>session.
     let accepted = (case session of Some s \<Rightarrow> se_pending_keep_alive_id s = Some keep_alive_id | None \<Rightarrow> False) in
     sbind (if accepted
            then sbind (b_player_session_mut B p) (\<lambda>session.
              case session of
                None \<Rightarrow> sret ()
              | Some s \<Rightarrow> b_write_player_session B p (s\<lparr>se_pending_keep_alive_id := None, se_last_keep_alive_sent_at := None\<rparr>))
            else sret ()) (\<lambda>_.
     sret accepted))"

definition schedule_keep_alive_state :: "'s core_backend \<Rightarrow> player_id \<Rightarrow> u64 \<Rightarrow> ('s, keep_alive_delta option) core_prog" where
  "schedule_keep_alive_state B p now_ms =
     bind_some (b_player_session B p) (\<lambda>_.
     sbind (b_allocate_keep_alive_id B) (\<lambda>keep_alive_id.
     sbind (b_keepalive_interval_ms B) (\<lambda>interval_ms.
     bind_some (b_player_session_mut B p) (\<lambda>session.
     sbind (b_write_player_session B p (session\<lparr>se_pending_keep_alive_id := Some keep_alive_id,
       se_last_keep_alive_sent_at := Some now_ms, se_next_keep_alive_at := saturating_add_word now_ms interval_ms\<rparr>)) (\<lambda>_.
     sret (Some \<lparr>ka_player_id = p, ka_keep_alive_id = keep_alive_id\<rparr>))))))"

definition disconnect_player_state :: "'s core_backend \<Rightarrow> player_id \<Rightarrow> ('s, disconnect_delta option) core_prog" where
  "disconnect_player_state B p =
     sbind (state_clear_active_mining B p) (\<lambda>cleared_mining.
     bind_some (persisted_online_player_snapshot_state B p) (\<lambda>persisted_snapshot.
     bind_some (b_remove_online_player B p) (\<lambda>session.
     sbind (case se_active_container session of
              None \<Rightarrow> sret ()
            | Some window \<Rightarrow>
                sbind (writeback_world_container_state B window) (\<lambda>_.
                unregister_world_container_viewer_state B window p)) (\<lambda>_.
     sbind (b_set_saved_player B p (Some persisted_snapshot)) (\<lambda>_.
     sret (Some \<lparr>dc_player_id = p, dc_entity_id = se_entity_id session, dc_cleared_mining = cleared_mining\<rparr>))))))"

section \<open>Operations: \<open>canonical.rs\<close>\<close>

datatype core_op =
    PrepareLogin player_id player_snapshot entity_id
  | FinalizeLogin connection_id player_id
  | SetPlayerPose player_id "vec3 option" "f32 option" "f32 option" bool
  | SetSelectedHotbarSlot player_id u8
  | SetInventorySlot player_id inventory_slot "item_stack option"
  | SetViewDistance player_id u8
  | InventoryClick player_id inventory_transaction_context inventory_click_target inventory_click_button
      inventory_click_validation
  | OpenContainerAt player_id block_pos
  | OpenVirtualContainer player_id container_kind_id
  | CloseContainer player_id u8 bool
  | ClearMining player_id
  | BeginMining player_id block_pos u64
  | AdvanceMiningStage player_id entity_id block_pos u8 u64
  | CompleteMining player_id block_pos
  | TickActiveContainer player_id
  | TickDroppedItem entity_id
  | RequestKeepAlive player_id
  | AcknowledgeKeepAlive player_id int
  | SetBlock block_pos "block_state option"
  | SpawnDroppedItem "entity_id option" vec3 item_stack
  | DisconnectPlayer player_id
  | EmitEvent event_target core_event

datatype applied_core_op =
    AppliedPrepareLogin player_id entity_id
  | AppliedFinalizeLogin player_id "login_finalize_delta option"
  | AppliedSetPlayerPose "player_pose_delta option"
  | AppliedSetSelectedHotbarSlot "selected_hotbar_delta option"
  | AppliedSetInventorySlot "inventory_slot_delta option"
  | AppliedSetViewDistance "view_update_delta option"
  | AppliedInventoryClick "inventory_click_delta option"
  | AppliedOpenContainer "open_container_delta option"
  | AppliedCloseContainer "close_container_delta option"
  | AppliedClearMining "clear_mining_delta option"
  | AppliedBeginMining "begin_mining_delta option"
  | AppliedAdvanceMiningStage "mining_progress_delta option"
  | AppliedCompleteMining "complete_mining_delta option"
  | AppliedWindowDiff "window_diff_delta option"
  | AppliedDroppedItemTick dropped_item_tick_delta
  | AppliedSetBlock block_delta
  | AppliedSpawnDroppedItem "dropped_item_spawn_delta option"
  | AppliedKeepAliveRequested "keep_alive_delta option"
  | AppliedAcknowledgeKeepAlive bool
  | AppliedDisconnectPlayer "disconnect_delta option"
  | AppliedEmitEvent targeted_event

definition smap_result :: "('a \<Rightarrow> 'b) \<Rightarrow> ('s, 'e, 'a) sr \<Rightarrow> ('s, 'e, 'b) sr" where
  "smap_result f m = sbind m (\<lambda>x. sret (f x))"

definition state_close_container :: "'s core_backend \<Rightarrow> player_id \<Rightarrow> u8 \<Rightarrow> bool \<Rightarrow> ('s, close_container_delta option) core_prog" where
  "state_close_container B p window_id include_player_contents =
     (if window_id = 0 then close_player_active_container_state B p include_player_contents
      else if include_player_contents then close_inventory_window_state B p window_id
      else
        sbind (active_window_id B p) (\<lambda>active.
        if active = Some window_id then close_player_active_container_state B p False else sret None))"

fun reduce_core_op :: "'s core_backend \<Rightarrow> core_op \<Rightarrow> u64 \<Rightarrow> player_id set \<Rightarrow> ('s, applied_core_op) core_prog" where
  "reduce_core_op B (PrepareLogin p player e) now_ms materialized =
     sbind (if p \<in> materialized
            then sbind (b_spawn_online_player B player now_ms (Some e)) (\<lambda>_. sret ()) else sret ()) (\<lambda>_.
     sret (AppliedPrepareLogin p e))"
| "reduce_core_op B (FinalizeLogin connection_id p) now_ms materialized =
     smap_result (AppliedFinalizeLogin p) (finalize_login_delta B connection_id p)"
| "reduce_core_op B (SetPlayerPose p position yaw pitch on_ground) now_ms materialized =
     smap_result AppliedSetPlayerPose (state_player_pose B p position yaw pitch on_ground)"
| "reduce_core_op B (SetSelectedHotbarSlot p slot) now_ms materialized =
     smap_result AppliedSetSelectedHotbarSlot (state_selected_hotbar_slot B p slot)"
| "reduce_core_op B (SetInventorySlot p slot stack) now_ms materialized =
     smap_result AppliedSetInventorySlot (state_inventory_slot B p slot stack)"
| "reduce_core_op B (SetViewDistance p view_distance) now_ms materialized =
     smap_result AppliedSetViewDistance (state_update_client_settings B p view_distance)"
| "reduce_core_op B (InventoryClick p transaction target button validation) now_ms materialized =
     smap_result AppliedInventoryClick (apply_inventory_click_state B p transaction target button validation)"
| "reduce_core_op B (OpenContainerAt p position) now_ms materialized =
     smap_result AppliedOpenContainer (open_world_container_state B p position)"
| "reduce_core_op B (OpenVirtualContainer p kind) now_ms materialized =
     smap_result AppliedOpenContainer (open_virtual_container_state B p kind)"
| "reduce_core_op B (CloseContainer p window_id include_player_contents) now_ms materialized =
     smap_result AppliedCloseContainer (state_close_container B p window_id include_player_contents)"
| "reduce_core_op B (ClearMining p) now_ms materialized =
     smap_result AppliedClearMining (state_clear_active_mining B p)"
| "reduce_core_op B (BeginMining p position duration_ms) now_ms materialized =
     smap_result AppliedBeginMining (state_begin_mining B p position duration_ms now_ms)"
| "reduce_core_op B (AdvanceMiningStage p e position stage duration_ms) now_ms materialized =
     smap_result AppliedAdvanceMiningStage (state_advance_mining_stage B p e position stage duration_ms)"
| "reduce_core_op B (CompleteMining p position) now_ms materialized =
     smap_result AppliedCompleteMining (state_complete_survival_mining B p position now_ms)"
| "reduce_core_op B (TickActiveContainer p) now_ms materialized =
     smap_result AppliedWindowDiff (tick_active_container_state B p)"
| "reduce_core_op B (TickDroppedItem e) now_ms materialized =
     smap_result AppliedDroppedItemTick (tick_dropped_item_state B e now_ms)"
| "reduce_core_op B (SetBlock position block) now_ms materialized =
     smap_result AppliedSetBlock (state_set_block B position block)"
| "reduce_core_op B (SpawnDroppedItem expected_entity_id position item) now_ms materialized =
     smap_result AppliedSpawnDroppedItem (state_spawn_dropped_item B position item now_ms)"
| "reduce_core_op B (RequestKeepAlive p) now_ms materialized =
     smap_result AppliedKeepAliveRequested (schedule_keep_alive_state B p now_ms)"
| "reduce_core_op B (AcknowledgeKeepAlive p keep_alive_id) now_ms materialized =
     smap_result AppliedAcknowledgeKeepAlive (accept_keep_alive_state B p keep_alive_id)"
| "reduce_core_op B (DisconnectPlayer p) now_ms materialized =
     smap_result AppliedDisconnectPlayer (disconnect_player_state B p)"
| "reduce_core_op B (EmitEvent target event) now_ms materialized = sret (AppliedEmitEvent (target, event))"

section \<open>Events for the clients\<close>

record core_event_builder =
  eb_hidden_players :: "player_id set"
  eb_hidden_player_entities :: "(player_id, entity_id) btree_map"

definition core_event_builder_new :: "player_id set \<Rightarrow> core_event_builder" where
  "core_event_builder_new hidden = \<lparr>eb_hidden_players = hidden, eb_hidden_player_entities = []\<rparr>"

definition core_player_ids :: "server_core \<Rightarrow> player_id list" where
  "core_player_ids c = map fst (ss_player_sessions (sc_sessions c))"

definition chunk_viewers :: "server_core \<Rightarrow> block_pos \<Rightarrow> player_id list" where
  "chunk_viewers c position =
     map fst (filter (\<lambda>(_, session). block_chunk_pos position \<in> cv_loaded_chunks (se_view session))
       (ss_player_sessions (sc_sessions c)))"

definition login_initial_events :: "server_core \<Rightarrow> connection_id \<Rightarrow> player_id \<Rightarrow> entity_id \<Rightarrow> player_snapshot \<Rightarrow>
    chunk_column list \<Rightarrow> targeted_event list" where
  "login_initial_events c connection_id p e player visible_chunks =
     [(ToConnection connection_id, LoginAccepted p e player),
      (ToConnection connection_id,
        PlayBootstrap player e (ws_world_meta (sc_world c)) (cfg_view_distance (ws_config (sc_world c)))),
      (ToConnection connection_id, ChunkBatch visible_chunks),
      (ToConnection connection_id,
        InventoryContents 0 (cb_player_container_kind (sc_content_behavior c)) (window_contents_player (ps_inventory player))),
      (ToConnection connection_id, SelectedHotbarSlotChanged (ps_selected_hotbar_slot player))]"

definition existing_player_spawn_events :: "connection_id \<Rightarrow> (entity_id \<times> player_snapshot) list \<Rightarrow> targeted_event list" where
  "existing_player_spawn_events connection_id existing =
     map (\<lambda>(e, player). (ToConnection connection_id, EntitySpawned e player)) existing"

definition block_change_events :: "server_core \<Rightarrow> block_pos \<Rightarrow> targeted_event list" where
  "block_change_events c position =
     map (\<lambda>p. (ToPlayer p, BlockChanged position (block_at c position))) (chunk_viewers c position)"

definition dropped_item_spawn_events :: "server_core \<Rightarrow> entity_id \<Rightarrow> dropped_item_snapshot \<Rightarrow> targeted_event list" where
  "dropped_item_spawn_events c e item = map (\<lambda>p. (ToPlayer p, DroppedItemSpawned e item)) (core_player_ids c)"

definition block_break_progress_events :: "server_core \<Rightarrow> mining_progress_delta \<Rightarrow> targeted_event list" where
  "block_break_progress_events c d =
     map (\<lambda>p. (ToPlayer p, BlockBreakingProgress (mp_breaker_entity_id d) (mp_position d) (mp_stage d) (mp_duration_ms d)))
       (chunk_viewers c (mp_position d))"

definition build_finalize_login :: "server_core \<Rightarrow> login_finalize_delta \<Rightarrow> targeted_event list" where
  "build_finalize_login c d =
     login_initial_events c (lf_connection_id d) (lf_player_id d) (lf_entity_id d) (lf_player d) (lf_visible_chunks d) @
     existing_player_spawn_events (lf_connection_id d) (lf_existing_players d) @
     map (\<lambda>(e, item). (ToConnection (lf_connection_id d), DroppedItemSpawned e item)) (lf_dropped_items d) @
     map (\<lambda>viewer. (ToPlayer viewer, EntitySpawned (lf_entity_id d) (lf_player d))) (lf_new_player_viewers d)"

definition build_player_pose :: "player_pose_delta \<Rightarrow> targeted_event list" where
  "build_player_pose d =
     map (\<lambda>chunk. (ToPlayer (pp_player_id d), ChunkBatch [chunk])) (pp_chunks d) @
     map (\<lambda>viewer. (ToPlayer viewer, EntityMoved (pp_entity_id d) (pp_player d))) (pp_moved_for_viewers d) @
     map (\<lambda>viewer. (ToPlayer viewer, EntitySpawned (pp_entity_id d) (pp_player d))) (pp_spawned_for_viewers d) @
     map (\<lambda>viewer. (ToPlayer viewer, EntityDespawned [pp_entity_id d])) (pp_despawned_for_viewers d) @
     map (\<lambda>(e, player). (ToPlayer (pp_player_id d), EntitySpawned e player)) (pp_observed_players_entered d) @
     map (\<lambda>(e, item). (ToPlayer (pp_player_id d), DroppedItemSpawned e item)) (pp_observed_items_entered d) @
     (if pp_observed_entities_left d = [] then []
      else [(ToPlayer (pp_player_id d), EntityDespawned (pp_observed_entities_left d))])"

definition build_inventory_slot :: "server_core \<Rightarrow> inventory_slot_delta \<Rightarrow> targeted_event list" where
  "build_inventory_slot c d =
     (let player_container = cb_player_container_kind (sc_content_behavior c) in
      (ToPlayer (sl_player_id d), InventorySlotChanged 0 player_container (sl_slot d) (sl_stack d)) #
      (case sl_crafting_result d of
         None \<Rightarrow> []
       | Some crafting_result \<Rightarrow>
           [(ToPlayer (sl_player_id d), InventorySlotChanged 0 player_container slot_crafting_result crafting_result)]))"

definition build_view_update :: "view_update_delta \<Rightarrow> targeted_event list" where
  "build_view_update d = map (\<lambda>chunk. (ToPlayer (vu_player_id d), ChunkBatch [chunk])) (vu_chunks d)"

definition build_window_diff :: "server_core \<Rightarrow> window_diff_delta \<Rightarrow> targeted_event list" where
  "build_window_diff c d =
     inventory_diff_events (sc_content_behavior c) (wd_window_id d) (wd_container d) (wd_player_id d)
       (wd_before_contents d) (wd_after_contents d) @
     property_diff_events (wd_window_id d) (wd_player_id d) (wd_before_properties d) (wd_after_properties d)"

definition build_inventory_click :: "server_core \<Rightarrow> inventory_click_delta \<Rightarrow> targeted_event list" where
  "build_inventory_click c d =
     (let cb = sc_content_behavior c;
          processed = (ToPlayer (ic_player_id d), InventoryTransactionProcessed (ic_transaction d) (ic_accepted d));
          properties = property_diff_events (ic_window_id d) (ic_player_id d) (ic_before_properties d) (ic_after_properties d) in
      if \<not> ic_accepted d then
        if \<not> ic_should_resync_on_reject d then [processed]
        else processed # window_resync_events cb (ic_player_id d) (ic_window_id d) (ic_container d) (ic_after_contents d)
          (ic_selected_hotbar_after d) (ic_after_cursor d) (ic_resolved_slot d) @ properties
      else
        processed # inventory_diff_events cb (ic_window_id d) (ic_container d) (ic_player_id d)
          (ic_before_contents d) (ic_after_contents d) @ properties @
        (if ic_before_cursor d \<noteq> ic_after_cursor d then [(ToPlayer (ic_player_id d), CursorChanged (ic_after_cursor d))] else []) @
        (if ic_container d = cb_player_container_kind cb \<and> ic_selected_hotbar_before d \<noteq> ic_selected_hotbar_after d
         then [(ToPlayer (ic_player_id d), SelectedHotbarSlotChanged (ic_selected_hotbar_after d))] else []) @
        concat (map (build_window_diff c) (ic_world_sync d)))"

definition build_close_container :: "server_core \<Rightarrow> close_container_delta \<Rightarrow> targeted_event list" where
  "build_close_container c d =
     (ToPlayer (cl_player_id d), ContainerClosed (cl_window_id d)) #
     (case cl_contents d of
        None \<Rightarrow> []
      | Some contents \<Rightarrow>
          [(ToPlayer (cl_player_id d), InventoryContents 0 (cb_player_container_kind (sc_content_behavior c)) contents)])"

definition build_open_container :: "server_core \<Rightarrow> open_container_delta \<Rightarrow> targeted_event list" where
  "build_open_container c d =
     concat (map (build_close_container c) (op_closed d)) @
     [(ToPlayer (op_player_id d), ContainerOpened (op_window_id d) (op_container d) (op_title d)),
      (ToPlayer (op_player_id d), InventoryContents (op_window_id d) (op_container d) (op_contents d))] @
     property_events (op_window_id d) (op_player_id d) (op_properties d)"

definition build_begin_mining :: "server_core \<Rightarrow> begin_mining_delta \<Rightarrow> targeted_event list" where
  "build_begin_mining c d =
     (case bm_cleared d of None \<Rightarrow> [] | Some cleared \<Rightarrow> block_break_progress_events c cleared) @
     block_break_progress_events c (bm_progress d)"

definition build_set_block :: "server_core \<Rightarrow> block_delta \<Rightarrow> targeted_event list" where
  "build_set_block c d =
     concat (map (block_break_progress_events c) (bd_cleared_mining d)) @
     concat (map (build_close_container c) (bd_closed_containers d)) @
     block_change_events c (bd_position d)"

definition build_dropped_item_spawn :: "server_core \<Rightarrow> dropped_item_spawn_delta \<Rightarrow> targeted_event list" where
  "build_dropped_item_spawn c d = dropped_item_spawn_events c (dp_entity_id d) (dp_item d)"

definition build_complete_mining :: "server_core \<Rightarrow> complete_mining_delta \<Rightarrow> targeted_event list" where
  "build_complete_mining c d =
     (case d of
        MiningCleared cleared \<Rightarrow> block_break_progress_events c cleared
      | MiningCompleted block spawned \<Rightarrow>
          build_set_block c block @ (case spawned of None \<Rightarrow> [] | Some spawned \<Rightarrow> build_dropped_item_spawn c spawned))"

definition build_entity_despawn :: "server_core \<Rightarrow> entity_id list \<Rightarrow> targeted_event list" where
  "build_entity_despawn c entity_ids = map (\<lambda>p. (ToPlayer p, EntityDespawned entity_ids)) (core_player_ids c)"

definition build_dropped_item_tick :: "server_core \<Rightarrow> dropped_item_tick_delta \<Rightarrow> targeted_event list" where
  "build_dropped_item_tick c d =
     (case dt_inventory_delta d of None \<Rightarrow> [] | Some w \<Rightarrow> build_window_diff c w) @
     (case dt_despawn d of None \<Rightarrow> [] | Some entity_ids \<Rightarrow> build_entity_despawn c entity_ids)"

definition build_disconnect :: "server_core \<Rightarrow> disconnect_delta \<Rightarrow> targeted_event list" where
  "build_disconnect c d =
     (case dc_cleared_mining d of None \<Rightarrow> [] | Some cleared \<Rightarrow> block_break_progress_events c cleared) @
     [(EveryoneExcept (dc_player_id d), EntityDespawned [dc_entity_id d])]"

definition opt_events :: "('d \<Rightarrow> targeted_event list) \<Rightarrow> 'd option \<Rightarrow> targeted_event list" where
  "opt_events f d = (case d of None \<Rightarrow> [] | Some d \<Rightarrow> f d)"

fun build_events :: "server_core \<Rightarrow> applied_core_op \<Rightarrow> targeted_event list" where
  "build_events c (AppliedPrepareLogin p e) = []"
| "build_events c (AppliedFinalizeLogin p d) = opt_events (build_finalize_login c) d"
| "build_events c (AppliedSetPlayerPose d) = opt_events build_player_pose d"
| "build_events c (AppliedSetSelectedHotbarSlot d) =
     opt_events (\<lambda>d. [(ToPlayer (sh_player_id d), SelectedHotbarSlotChanged (sh_slot d))]) d"
| "build_events c (AppliedSetInventorySlot d) = opt_events (build_inventory_slot c) d"
| "build_events c (AppliedSetViewDistance d) = opt_events build_view_update d"
| "build_events c (AppliedInventoryClick d) = opt_events (build_inventory_click c) d"
| "build_events c (AppliedOpenContainer d) = opt_events (build_open_container c) d"
| "build_events c (AppliedCloseContainer d) = opt_events (build_close_container c) d"
| "build_events c (AppliedClearMining d) = opt_events (block_break_progress_events c) d"
| "build_events c (AppliedBeginMining d) = opt_events (build_begin_mining c) d"
| "build_events c (AppliedAdvanceMiningStage d) = opt_events (block_break_progress_events c) d"
| "build_events c (AppliedCompleteMining d) = opt_events (build_complete_mining c) d"
| "build_events c (AppliedWindowDiff d) = opt_events (build_window_diff c) d"
| "build_events c (AppliedDroppedItemTick d) = build_dropped_item_tick c d"
| "build_events c (AppliedSetBlock d) = build_set_block c d"
| "build_events c (AppliedSpawnDroppedItem d) = opt_events (build_dropped_item_spawn c) d"
| "build_events c (AppliedKeepAliveRequested d) =
     opt_events (\<lambda>d. [(ToPlayer (ka_player_id d), KeepAliveRequested (ka_keep_alive_id d))]) d"
| "build_events c (AppliedAcknowledgeKeepAlive accepted) = []"
| "build_events c (AppliedDisconnectPlayer d) = opt_events (build_disconnect c) d"
| "build_events c (AppliedEmitEvent event) = [event]"

definition hidden_entities :: "core_event_builder \<Rightarrow> server_core \<Rightarrow> entity_id set" where
  "hidden_entities b c =
     snd ` set (eb_hidden_player_entities b) \<union>
     {e. \<exists>p \<in> eb_hidden_players b. map_of (es_players_by_player_id (sc_entities c)) p = Some e}"

definition sanitize_hidden_event :: "player_id set \<Rightarrow> entity_id set \<Rightarrow> targeted_event \<Rightarrow> targeted_event option" where
  "sanitize_hidden_event hidden entities = (\<lambda>(target, event).
     if (case target of ToPlayer p \<Rightarrow> p \<in> hidden | EveryoneExcept p \<Rightarrow> p \<in> hidden | ToConnection _ \<Rightarrow> False) then None
     else case event of
       EntityMoved e _ \<Rightarrow> if e \<in> entities then None else Some (target, event)
     | EntitySpawned e _ \<Rightarrow> if e \<in> entities then None else Some (target, event)
     | BlockBreakingProgress e _ _ _ \<Rightarrow> if e \<in> entities then None else Some (target, event)
     | EntityDespawned ids \<Rightarrow>
         let ids' = filter (\<lambda>e. e \<notin> entities) ids in
         if ids' = [] then None else Some (target, EntityDespawned ids')
     | _ \<Rightarrow> Some (target, event))"

definition filter_hidden_events :: "core_event_builder \<Rightarrow> server_core \<Rightarrow> targeted_event list \<Rightarrow> targeted_event list" where
  "filter_hidden_events b c events =
     catsome (map (sanitize_hidden_event (eb_hidden_players b) (hidden_entities b c)) events)"

definition builder_update :: "applied_core_op \<Rightarrow> core_event_builder \<Rightarrow> core_event_builder" where
  "builder_update applied b =
     (case applied of
        AppliedPrepareLogin p e \<Rightarrow>
          b\<lparr>eb_hidden_players := insert p (eb_hidden_players b),
            eb_hidden_player_entities := bt_insert p e (eb_hidden_player_entities b)\<rparr>
      | AppliedFinalizeLogin p d \<Rightarrow>
          b\<lparr>eb_hidden_players := eb_hidden_players b - {p},
            eb_hidden_player_entities := bt_remove p (eb_hidden_player_entities b)\<rparr>
      | _ \<Rightarrow> b)"

definition builder_build :: "server_core \<Rightarrow> applied_core_op \<Rightarrow> core_event_builder \<Rightarrow> targeted_event list \<times> core_event_builder" where
  "builder_build c applied b =
     (let b' = builder_update applied b in (filter_hidden_events b' c (build_events c applied), b'))"

fun run_core_ops :: "u64 \<Rightarrow> player_id set \<Rightarrow> core_op list \<Rightarrow> core_event_builder \<Rightarrow> (server_core, targeted_event list) core_prog" where
  "run_core_ops now_ms finalized [] b = sret []"
| "run_core_ops now_ms finalized (op # ops) b =
     sbind (reduce_core_op base_backend op now_ms finalized) (\<lambda>applied.
     sbind (sget (\<lambda>c. builder_build c applied b)) (\<lambda>(events, b').
     sbind (run_core_ops now_ms finalized ops b') (\<lambda>more. sret (events @ more))))"

fun finalized_players :: "core_op list \<Rightarrow> player_id set" where
  "finalized_players [] = {}"
| "finalized_players (FinalizeLogin _ p # ops) = insert p (finalized_players ops)"
| "finalized_players (_ # ops) = finalized_players ops"

definition apply_core_ops :: "core_op list \<Rightarrow> u64 \<Rightarrow> player_id set \<Rightarrow> (server_core, targeted_event list) core_prog" where
  "apply_core_ops ops now_ms hidden =
     run_core_ops now_ms (finalized_players ops) ops (core_event_builder_new hidden)"

section \<open>The tick: \<open>mining.rs\<close> and \<open>tick.rs\<close>\<close>

definition mining_op :: "'s core_backend \<Rightarrow> u64 \<Rightarrow> entity_id \<Rightarrow> ('s, core_op option) core_prog" where
  "mining_op B now_ms e =
     bind_some (b_player_active_mining_by_entity B e) (\<lambda>mining.
     bind_some (b_player_identity_by_entity B e) (\<lambda>identity.
     let p = pid_player_id identity;
         elapsed_ms = saturating_sub_word now_ms (am_started_at_ms mining) in
     if elapsed_ms \<ge> am_duration_ms mining then sret (Some (CompleteMining p (am_position mining)))
     else
       let next_stage = (ucast (saturating_mul_word elapsed_ms 10 div am_duration_ms mining) :: u8) in
       if Some next_stage \<noteq> am_last_stage mining
       then sret (Some (AdvanceMiningStage p e (am_position mining) (min next_stage 9) (am_duration_ms mining)))
       else sret None))"

definition collect_active_mining_ops :: "'s core_backend \<Rightarrow> u64 \<Rightarrow> ('s, core_op list) core_prog" where
  "collect_active_mining_ops B now_ms =
     sbind (b_player_entity_ids B) (\<lambda>ids. smap_result catsome (smap ids (mining_op B now_ms)))"

definition keepalive_op :: "'s core_backend \<Rightarrow> u64 \<Rightarrow> u64 \<Rightarrow> player_id \<Rightarrow> ('s, core_op option) core_prog" where
  "keepalive_op B now_ms timeout_ms p =
     bind_some (b_player_session B p) (\<lambda>session.
     sret (if (case se_last_keep_alive_sent_at session of
                 Some sent_at \<Rightarrow> saturating_sub_word now_ms sent_at > timeout_ms | None \<Rightarrow> False)
           then Some (DisconnectPlayer p)
           else if se_pending_keep_alive_id session = None \<and> now_ms \<ge> se_next_keep_alive_at session
           then Some (RequestKeepAlive p) else None))"

definition collect_keepalive_ops :: "'s core_backend \<Rightarrow> u64 \<Rightarrow> u64 \<Rightarrow> ('s, core_op list) core_prog" where
  "collect_keepalive_ops B now_ms timeout_ms =
     sbind (b_player_ids B) (\<lambda>ids. smap_result catsome (smap ids (keepalive_op B now_ms timeout_ms)))"

definition container_tick_op :: "'s core_backend \<Rightarrow> player_id \<Rightarrow> ('s, core_op option) core_prog" where
  "container_tick_op B p =
     sbind (b_player_session B p) (\<lambda>session.
     sret (case session of
             None \<Rightarrow> None
           | Some session \<Rightarrow> if se_active_container session \<noteq> None then Some (TickActiveContainer p) else None))"

definition scheduler_tick :: "'s core_backend \<Rightarrow> u64 \<Rightarrow> u64 \<Rightarrow> ('s, core_op list) core_prog" where
  "scheduler_tick B now_ms timeout_ms =
     sbind (b_player_ids B) (\<lambda>ids.
     sbind (smap ids (container_tick_op B)) (\<lambda>containers.
     sbind (b_dropped_item_ids B) (\<lambda>items.
     sbind (collect_active_mining_ops B now_ms) (\<lambda>mining.
     sbind (collect_keepalive_ops B now_ms timeout_ms) (\<lambda>keepalive.
     sret (catsome containers @ map TickDroppedItem items @ mining @ keepalive))))))"

definition core_tick :: "u64 \<Rightarrow> (server_core, targeted_event list) core_prog" where
  "core_tick now_ms =
     sbind (sget (\<lambda>c. ss_keepalive_timeout_ms (sc_sessions c))) (\<lambda>timeout_ms.
     sbind (scheduler_tick base_backend now_ms timeout_ms) (\<lambda>ops.
     apply_core_ops ops now_ms {}))"

section \<open>The operations on two backends\<close>

definition login_spawns_ok :: "('t \<Rightarrow> player_snapshot \<Rightarrow> entity_id \<Rightarrow> bool) \<Rightarrow> 't \<Rightarrow> player_id set \<Rightarrow> core_op \<Rightarrow> bool" where
  "login_spawns_ok spawnable t materialized op =
     (case op of PrepareLogin p player e \<Rightarrow> p \<in> materialized \<longrightarrow> spawnable t player e | _ \<Rightarrow> True)"

context backend_simulation
begin

lemma sim_mutation [sim_intros]:
  "sim R (state_selected_hotbar_slot B p n) (state_selected_hotbar_slot C p n)"
  "sim R (state_inventory_slot B p slot stack) (state_inventory_slot C p slot stack)"
  "sim R (state_spawn_dropped_item B position item now_ms) (state_spawn_dropped_item C position item now_ms)"
  unfolding state_selected_hotbar_slot_def state_inventory_slot_def state_spawn_dropped_item_def Let_def
  by (intro sim_intros)+

lemma sim_observe [sim_intros]:
  "sim R (observe_player B a b c d p) (observe_player C a b c d p)"
  "sim R (observe_item B c d e) (observe_item C c d e)"
  "sim R (login_observation B c a p) (login_observation C c a p)"
  "sim R (visible_dropped_item B c e) (visible_dropped_item C c e)"
  unfolding observe_player_def observe_item_def login_observation_def visible_dropped_item_def by (intro sim_intros)+

lemma sim_pose [sim_intros]:
  "sim R (state_player_pose B p position yaw pitch on_ground) (state_player_pose C p position yaw pitch on_ground)"
  unfolding state_player_pose_def Let_def by (intro sim_intros)

lemma sim_mining [sim_intros]:
  "sim R (state_clear_active_mining B p) (state_clear_active_mining C p)"
  "sim R (state_begin_mining B p position duration_ms now_ms) (state_begin_mining C p position duration_ms now_ms)"
  "sim R (state_clear_active_mining_at B position) (state_clear_active_mining_at C position)"
  "sim R (state_advance_mining_stage B p e position stage duration_ms) (state_advance_mining_stage C p e position stage duration_ms)"
  unfolding state_clear_active_mining_def state_begin_mining_def state_clear_active_mining_at_def mines_at_def
    state_advance_mining_stage_def Let_def by (intro sim_intros)+

lemma sim_set_block [sim_intros]:
  "sim R (state_set_block B position block) (state_set_block C position block)"
  unfolding state_set_block_def by (intro sim_intros)

lemma sim_complete_mining [sim_intros]:
  "sim R (state_complete_survival_mining B p position now_ms) (state_complete_survival_mining C p position now_ms)"
  unfolding state_complete_survival_mining_def Let_def by (intro sim_intros)

lemma sim_login [sim_intros]:
  "sim R (state_update_client_settings B p view_distance) (state_update_client_settings C p view_distance)"
  "sim R (finalize_login_delta B connection_id p) (finalize_login_delta C connection_id p)"
  unfolding state_update_client_settings_def finalize_login_delta_def Let_def by (intro sim_intros)+

lemma sim_keep_alive [sim_intros]:
  "sim R (accept_keep_alive_state B p keep_alive_id) (accept_keep_alive_state C p keep_alive_id)"
  "sim R (schedule_keep_alive_state B p now_ms) (schedule_keep_alive_state C p now_ms)"
  "sim R (disconnect_player_state B p) (disconnect_player_state C p)"
  unfolding accept_keep_alive_state_def schedule_keep_alive_state_def disconnect_player_state_def Let_def
  by (intro sim_intros)+

lemma sim_state_close_container [sim_intros]:
  "sim R (state_close_container B p w b) (state_close_container C p w b)"
  unfolding state_close_container_def by (intro sim_intros)

lemma sim_smap_result [sim_intros]: "sim R m n \<Longrightarrow> sim R (smap_result f m) (smap_result f n)"
  unfolding smap_result_def by (intro sim_intros)

lemma sim_reduce_core_op:
  "(\<And>p player e. op \<noteq> PrepareLogin p player e) \<Longrightarrow>
    sim R (reduce_core_op B op now_ms materialized) (reduce_core_op C op now_ms materialized)"
  by (cases op; simp only: reduce_core_op.simps; intro sim_intros; blast)

lemma reduce_core_op_simulates:
  assumes rel: "R t s" and ok: "login_spawns_ok spawnable t materialized op"
  shows "fst (reduce_core_op B op now_ms materialized t) = fst (reduce_core_op C op now_ms materialized s) \<and>
    R (snd (reduce_core_op B op now_ms materialized t)) (snd (reduce_core_op C op now_ms materialized s))"
proof (cases "\<exists>p player e. op = PrepareLogin p player e")
  case True
  then obtain p player e where op: "op = PrepareLogin p player e" by blast
  show ?thesis
  proof (cases "p \<in> materialized")
    case True
    with ok have "spawnable t player e" by (simp add: login_spawns_ok_def op)
    from sim_spawn_online_player [OF rel this, of now_ms] show ?thesis
      using True by (cases "b_spawn_online_player B player now_ms (Some e) t"; cases "b_spawn_online_player C player now_ms (Some e) s";
        cases "fst (b_spawn_online_player B player now_ms (Some e) t)") (auto simp: op sr_defs)
  qed (simp add: op sr_defs rel)
next
  case False
  then show ?thesis using simD [OF sim_reduce_core_op rel] by blast
qed

end

end
