(* ===== verification/Core_Transaction.thy ===== *)
theory Core_Transaction
  imports Core_Ops "HOL-Library.Product_Lexorder"
begin

text \<open>
  Gameplay transactions, crate \<open>revy-voxel-core\<close>: \<open>core/transaction.rs\<close> and \<open>core/command.rs\<close>, and the
  commands and effects of \<open>revy-voxel-semantic\<close>.

  A transaction previews operations on an overlay of a snapshot, keeps a journal of them and a
  record of what it read. A commit checks that the core still gives the values read and applies the
  journal to it. Floating-point fields are compared as the code compares them, so a
  NaN differs from itself.
\<close>

section \<open>Read sets\<close>

text \<open>\<open>PartialEq\<close> of a player snapshot.\<close>

definition vec3_eq :: "vec3 \<Rightarrow> vec3 \<Rightarrow> bool" where
  "vec3_eq a b \<longleftrightarrow> f64_eq (v_x a) (v_x b) \<and> f64_eq (v_y a) (v_y b) \<and> f64_eq (v_z a) (v_z b)"

definition snapshot_eq :: "player_snapshot \<Rightarrow> player_snapshot \<Rightarrow> bool" where
  "snapshot_eq a b \<longleftrightarrow>
     ps_id a = ps_id b \<and> ps_username a = ps_username b \<and> vec3_eq (ps_position a) (ps_position b) \<and>
     f32_eq (ps_yaw a) (ps_yaw b) \<and> f32_eq (ps_pitch a) (ps_pitch b) \<and> ps_on_ground a = ps_on_ground b \<and>
     ps_dimension a = ps_dimension b \<and> f32_eq (ps_health a) (ps_health b) \<and> ps_food a = ps_food b \<and>
     f32_eq (ps_food_saturation a) (ps_food_saturation b) \<and> ps_inventory a = ps_inventory b \<and>
     ps_selected_hotbar_slot a = ps_selected_hotbar_slot b"

fun opt_eq :: "('a \<Rightarrow> 'a \<Rightarrow> bool) \<Rightarrow> 'a option \<Rightarrow> 'a option \<Rightarrow> bool" where
  "opt_eq eq (Some a) (Some b) = eq a b"
| "opt_eq eq None None = True"
| "opt_eq eq _ _ = False"

record gameplay_read_set =
  rs_world_meta :: "world_meta option"
  rs_player_snapshots :: "(player_id, player_snapshot option) btree_map"
  rs_block_states :: "(block_pos, block_state option) btree_map"
  rs_block_entities :: "(block_pos, block_entity_state option) btree_map"
  rs_can_edit_block :: "(player_id \<times> block_pos, bool) btree_map"
  rs_online_player_count :: "nat option"
  rs_saved_players :: "(player_id, player_snapshot option) btree_map"
  rs_player_entity_ids :: "(player_id, entity_id option) btree_map"
  rs_next_entity_id :: "int option"

definition read_set_default :: gameplay_read_set where
  "read_set_default = \<lparr>rs_world_meta = None, rs_player_snapshots = [], rs_block_states = [], rs_block_entities = [],
     rs_can_edit_block = [], rs_online_player_count = None, rs_saved_players = [], rs_player_entity_ids = [],
     rs_next_entity_id = None\<rparr>"

text \<open>Checks in sequence, up to the first that fails.\<close>

definition sand :: "('s, bool) core_prog \<Rightarrow> ('s, bool) core_prog \<Rightarrow> ('s, bool) core_prog" where
  "sand m n = sbind m (\<lambda>b. if b then n else sret False)"

primrec sall :: "'x list \<Rightarrow> ('x \<Rightarrow> ('s, bool) core_prog) \<Rightarrow> ('s, bool) core_prog" where
  "sall [] f = sret True"
| "sall (x # xs) f = sand (f x) (sall xs f)"

definition smatches :: "('s, 'a) core_prog \<Rightarrow> ('a \<Rightarrow> bool) \<Rightarrow> ('s, bool) core_prog" where
  "smatches m P = sbind m (\<lambda>v. sret (P v))"

definition read_set_matches :: "gameplay_read_set \<Rightarrow> (server_core, bool) core_prog" where
  "read_set_matches rs =
     (let B = base_backend in
      sand (case rs_world_meta rs of None \<Rightarrow> sret True | Some w \<Rightarrow> smatches (b_world_meta B) (\<lambda>v. v = w))
     (sand (sall (rs_player_snapshots rs) (\<lambda>(p, snapshot). smatches (compose_player_snapshot B p) (\<lambda>v. opt_eq snapshot_eq v snapshot)))
     (sand (sall (rs_block_states rs) (\<lambda>(position, st). smatches (b_block_state B position) (\<lambda>v. v = st)))
     (sand (sall (rs_block_entities rs) (\<lambda>(position, entity). smatches (b_block_entity B position) (\<lambda>v. v = entity)))
     (sand (sall (rs_can_edit_block rs) (\<lambda>((p, position), allowed). smatches (can_edit_block B p position) (\<lambda>v. v = allowed)))
     (sand (case rs_online_player_count rs of None \<Rightarrow> sret True | Some n \<Rightarrow> smatches (online_player_count B) (\<lambda>v. v = n))
     (sand (sall (rs_saved_players rs) (\<lambda>(p, saved). smatches (b_saved_player B p) (\<lambda>v. opt_eq snapshot_eq v saved)))
     (sand (sall (rs_player_entity_ids rs) (\<lambda>(p, e). smatches (b_player_entity_id B p) (\<lambda>v. v = e)))
       (case rs_next_entity_id rs of None \<Rightarrow> sret True
        | Some n \<Rightarrow> smatches (sget (\<lambda>c. es_next_entity_id (sc_entities c))) (\<lambda>v. v = n))))))))))"

section \<open>Transactions\<close>

record gameplay_transaction =
  tx_state :: overlay_state
  tx_now_ms :: u64
  tx_prepared_players :: "(player_id, entity_id) btree_map"
  tx_finalized_players :: "player_id set"
  tx_journal :: "core_op list"
  tx_read_set :: gameplay_read_set

definition transaction_new :: "server_core \<Rightarrow> u64 \<Rightarrow> gameplay_transaction" where
  "transaction_new c now_ms = \<lparr>tx_state = \<lparr>os_base = c, os_overlay = tx_overlay_default\<rparr>, tx_now_ms = now_ms,
     tx_prepared_players = [], tx_finalized_players = {}, tx_journal = [], tx_read_set = read_set_default\<rparr>"

text \<open>A program on the transaction's overlay.\<close>

definition on_overlay :: "(overlay_state, 'a) core_prog \<Rightarrow> (gameplay_transaction, 'a) core_prog" where
  "on_overlay m tx = (case m (tx_state tx) of (r, t) \<Rightarrow> (r, tx\<lparr>tx_state := t\<rparr>))"

abbreviation (input) upd_reads :: "(gameplay_read_set \<Rightarrow> gameplay_read_set) \<Rightarrow> gameplay_transaction \<Rightarrow> gameplay_transaction" where
  "upd_reads f tx \<equiv> tx\<lparr>tx_read_set := f (tx_read_set tx)\<rparr>"

definition or_insert :: "'k::linorder \<Rightarrow> 'v \<Rightarrow> ('k, 'v) btree_map \<Rightarrow> ('k, 'v) btree_map" where
  "or_insert key v m = (case map_of m key of Some _ \<Rightarrow> m | None \<Rightarrow> bt_insert key v m)"

definition get_or_insert :: "'v \<Rightarrow> 'v option \<Rightarrow> 'v option" where
  "get_or_insert v m = (case m of Some w \<Rightarrow> Some w | None \<Rightarrow> Some v)"

definition has_key :: "('k, 'v) btree_map \<Rightarrow> 'k \<Rightarrow> bool" where
  "has_key m key \<longleftrightarrow> map_of m key \<noteq> None"

definition overlay_touches_block :: "overlay_state \<Rightarrow> block_pos \<Rightarrow> bool" where
  "overlay_touches_block t position \<longleftrightarrow> has_key (ov_chunks (os_overlay t)) (block_chunk_pos position)"

definition overlay_touches_block_entity :: "overlay_state \<Rightarrow> block_pos \<Rightarrow> bool" where
  "overlay_touches_block_entity t position \<longleftrightarrow>
     has_key (ov_block_entities (os_overlay t)) position \<or> overlay_touches_block t position"

definition overlay_touches_player :: "overlay_state \<Rightarrow> player_id \<Rightarrow> bool" where
  "overlay_touches_player t p =
     (let ov = os_overlay t in
      if has_key (ov_saved_players ov) p \<or> has_key (ov_players_by_player_id ov) p \<or> has_key (ov_player_sessions ov) p
      then True
      else
        (case (case Option.bind (map_of (ov_players_by_player_id ov) p) (\<lambda>e. e) of
                 Some e \<Rightarrow> Some e | None \<Rightarrow> map_of (es_players_by_player_id (sc_entities (os_base t))) p) of
           None \<Rightarrow> False
         | Some e \<Rightarrow>
             has_key (ov_player_identity ov) e \<or> has_key (ov_player_transform ov) e \<or> has_key (ov_player_vitals ov) e \<or>
             has_key (ov_player_inventory ov) e \<or> has_key (ov_player_selected_hotbar ov) e \<or>
             has_key (ov_player_active_mining ov) e))"

definition overlay_may_affect_can_edit_block :: "overlay_state \<Rightarrow> player_id \<Rightarrow> block_pos \<Rightarrow> bool" where
  "overlay_may_affect_can_edit_block t p position \<longleftrightarrow>
     overlay_touches_player t p \<or> overlay_touches_block t position \<or> ov_player_transform (os_overlay t) \<noteq> [] \<or>
     ov_players_by_player_id (os_overlay t) \<noteq> [] \<or> ov_entity_kinds (os_overlay t) \<noteq> []"

definition tx_world_meta :: "(gameplay_transaction, world_meta) core_prog" where
  "tx_world_meta =
     sbind (on_overlay (b_world_meta overlay_backend)) (\<lambda>w.
     sbind (smod (upd_reads (rs_world_meta_update (get_or_insert w)))) (\<lambda>_. sret w))"

definition tx_player_snapshot :: "player_id \<Rightarrow> (gameplay_transaction, player_snapshot option) core_prog" where
  "tx_player_snapshot p =
     sbind (on_overlay (compose_player_snapshot overlay_backend p)) (\<lambda>snapshot.
     sbind (smod (\<lambda>tx. if overlay_touches_player (tx_state tx) p then tx
                       else upd_reads (rs_player_snapshots_update (or_insert p snapshot)) tx)) (\<lambda>_. sret snapshot))"

definition tx_block_state :: "block_pos \<Rightarrow> (gameplay_transaction, block_state option) core_prog" where
  "tx_block_state position =
     sbind (on_overlay (b_block_state overlay_backend position)) (\<lambda>st.
     sbind (smod (\<lambda>tx. if overlay_touches_block (tx_state tx) position then tx
                       else upd_reads (rs_block_states_update (or_insert position st)) tx)) (\<lambda>_. sret st))"

definition tx_block_entity :: "block_pos \<Rightarrow> (gameplay_transaction, block_entity_state option) core_prog" where
  "tx_block_entity position =
     sbind (on_overlay (b_block_entity overlay_backend position)) (\<lambda>entity.
     sbind (smod (\<lambda>tx. if overlay_touches_block_entity (tx_state tx) position then tx
                       else upd_reads (rs_block_entities_update (or_insert position entity)) tx)) (\<lambda>_. sret entity))"

definition tx_can_edit_block :: "player_id \<Rightarrow> block_pos \<Rightarrow> (gameplay_transaction, bool) core_prog" where
  "tx_can_edit_block p position =
     sbind (on_overlay (can_edit_block overlay_backend p position)) (\<lambda>allowed.
     sbind (smod (\<lambda>tx. if overlay_may_affect_can_edit_block (tx_state tx) p position then tx
                       else upd_reads (rs_can_edit_block_update (or_insert (p, position) allowed)) tx)) (\<lambda>_. sret allowed))"

definition materialized_preview_players :: "gameplay_transaction \<Rightarrow> player_id set" where
  "materialized_preview_players tx = fst ` set (tx_prepared_players tx)"

definition push_previewed_op :: "core_op \<Rightarrow> (gameplay_transaction, unit) core_prog" where
  "push_previewed_op op =
     sbind (sget materialized_preview_players) (\<lambda>materialized.
     sbind (sget tx_now_ms) (\<lambda>now_ms.
     sbind (on_overlay (reduce_core_op overlay_backend op now_ms materialized)) (\<lambda>_.
     smod (tx_journal_update (\<lambda>ops. ops @ [op])))))"

definition current_next_entity_id :: "gameplay_transaction \<Rightarrow> int" where
  "current_next_entity_id tx = overlay_next_entity_id (tx_state tx)"

definition login_player :: "content_behavior \<Rightarrow> core_config \<Rightarrow> player_id \<Rightarrow> string \<Rightarrow> player_snapshot option \<Rightarrow> player_snapshot" where
  "login_player cb config p username saved =
     (let player = (case saved of
        Some player \<Rightarrow> player
      | None \<Rightarrow> default_player p username (cfg_spawn config) (cb_starter_inventory cb)) in
      player\<lparr>ps_username := username, ps_inventory := cb_normalize_player_inventory cb (ps_inventory player)\<rparr>)"

definition prepare_login :: "player_id \<Rightarrow> player_snapshot \<Rightarrow> (gameplay_transaction, unit) core_prog" where
  "prepare_login p player =
     sbind (smod (\<lambda>tx. upd_reads (rs_next_entity_id_update (get_or_insert (current_next_entity_id tx))) tx)) (\<lambda>_.
     sbind (on_overlay (b_allocate_entity_id overlay_backend)) (\<lambda>e.
     sbind (sget materialized_preview_players) (\<lambda>materialized.
     sbind (sget tx_now_ms) (\<lambda>now_ms.
     sbind (on_overlay (reduce_core_op overlay_backend (PrepareLogin p player e) now_ms (insert p materialized))) (\<lambda>_.
     smod (\<lambda>tx. tx\<lparr>tx_prepared_players := bt_insert p e (tx_prepared_players tx),
       tx_journal := tx_journal tx @ [PrepareLogin p player e]\<rparr>))))))"

definition begin_login :: "connection_id \<Rightarrow> string \<Rightarrow> player_id \<Rightarrow> (gameplay_transaction, targeted_event list option) core_prog" where
  "begin_login connection_id username p =
     (if username = [] \<or> length username > 16
      then sret (Some (reject_connection connection_id ''Invalid username''))
      else
        sbind (on_overlay (online_player_count overlay_backend)) (\<lambda>count.
        sbind (smod (upd_reads (rs_online_player_count_update (get_or_insert count)))) (\<lambda>_.
        sbind (sget (\<lambda>tx. os_base (tx_state tx))) (\<lambda>base.
        if count \<ge> unat (cfg_max_players (ws_config (sc_world base)))
        then sret (Some (reject_connection connection_id ''Server is full''))
        else
          sbind (on_overlay (b_player_entity_id overlay_backend p)) (\<lambda>existing.
          sbind (smod (upd_reads (rs_player_entity_ids_update (or_insert p existing)))) (\<lambda>_.
          if existing \<noteq> None
          then sret (Some (reject_connection connection_id ''Player is already online''))
          else
            sbind (on_overlay (b_saved_player overlay_backend p)) (\<lambda>saved.
            sbind (smod (upd_reads (rs_saved_players_update (or_insert p saved)))) (\<lambda>_.
            sbind (prepare_login p (login_player (sc_content_behavior base) (ws_config (sc_world base)) p username saved)) (\<lambda>_.
            sret None)))))))))"

definition finalize_login :: "connection_id \<Rightarrow> player_id \<Rightarrow> (gameplay_transaction, string + unit) core_prog" where
  "finalize_login connection_id p =
     sbind (on_overlay (compose_player_snapshot overlay_backend p)) (\<lambda>snapshot.
     if snapshot = None then sret (Inl ''cannot finalize login for missing player'')
     else
       sbind (on_overlay (b_player_session overlay_backend p)) (\<lambda>session.
       if session = None then sret (Inl ''cannot finalize login for missing player session'')
       else
         sbind (smod (tx_finalized_players_update (insert p))) (\<lambda>_.
         sbind (push_previewed_op (FinalizeLogin connection_id p)) (\<lambda>_.
         sret (Inr ())))))"

record gameplay_journal =
  gj_now_ms :: u64
  gj_ops :: "core_op list"
  gj_read_set :: gameplay_read_set

definition into_journal :: "gameplay_transaction \<Rightarrow> gameplay_journal" where
  "into_journal tx = \<lparr>gj_now_ms = tx_now_ms tx, gj_ops = tx_journal tx, gj_read_set = tx_read_set tx\<rparr>"

datatype journal_apply_result = Applied "targeted_event list" | Conflict

definition validate_and_apply_gameplay_journal :: "gameplay_journal \<Rightarrow> (server_core, journal_apply_result) core_prog" where
  "validate_and_apply_gameplay_journal journal =
     sbind (read_set_matches (gj_read_set journal)) (\<lambda>matches.
     if \<not> matches then sret Conflict
     else smap_result Applied (apply_core_ops (gj_ops journal) (gj_now_ms journal) {}))"

definition commit :: "gameplay_transaction \<Rightarrow> (server_core, targeted_event list) core_prog" where
  "commit tx =
     sbind (validate_and_apply_gameplay_journal (into_journal tx)) (\<lambda>result.
     case result of Applied events \<Rightarrow> sret events | Conflict \<Rightarrow> sfail CommitConflictPanic)"

text \<open>A transaction over the live core, run and then used on the core.\<close>

definition with_transaction :: "u64 \<Rightarrow> (gameplay_transaction, 'a) core_prog \<Rightarrow>
    ('a \<Rightarrow> gameplay_transaction \<Rightarrow> (server_core, 'b) core_prog) \<Rightarrow> (server_core, 'b) core_prog" where
  "with_transaction now_ms m k =
     (\<lambda>c. case m (transaction_new c now_ms) of
        (Inl e, _) \<Rightarrow> (Inl e, c)
      | (Inr x, tx) \<Rightarrow> k x tx c)"

section \<open>Built-in gameplay commands\<close>

datatype gameplay_command =
    MoveIntent player_id "vec3 option" "f32 option" "f32 option" bool
  | SetHeldSlot player_id i16
  | CreativeInventorySet player_id inventory_slot "item_stack option"
  | DigBlock player_id block_pos u8 "block_face option"
  | PlaceBlock player_id interaction_hand block_pos "block_face option" "item_stack option"
  | UseBlock player_id interaction_hand block_pos "block_face option" "item_stack option"

abbreviation (input) emit_event :: "event_target \<Rightarrow> core_event \<Rightarrow> (gameplay_transaction, unit) core_prog" where
  "emit_event target event \<equiv> push_previewed_op (EmitEvent target event)"

definition tx_content :: "(gameplay_transaction, content_behavior) core_prog" where
  "tx_content = sget (\<lambda>tx. sc_content_behavior (os_base (tx_state tx)))"

definition unless_none :: "(gameplay_transaction, 'a option) core_prog \<Rightarrow> ('a \<Rightarrow> (gameplay_transaction, unit) core_prog) \<Rightarrow>
    (gameplay_transaction, unit) core_prog" where
  "unless_none m f = sbind m (\<lambda>v. case v of None \<Rightarrow> sret () | Some x \<Rightarrow> f x)"

definition set_held_slot :: "player_id \<Rightarrow> i16 \<Rightarrow> (gameplay_transaction, unit) core_prog" where
  "set_held_slot p slot =
     unless_none (tx_player_snapshot p) (\<lambda>player.
     if \<not> (0 \<le> sint slot \<and> sint slot < 256) \<or> (word_of_int (sint slot) :: u8) \<ge> HOTBAR_SLOT_COUNT
     then emit_event (ToPlayer p) (SelectedHotbarSlotChanged (ps_selected_hotbar_slot player))
     else
       sbind (push_previewed_op (ClearMining p)) (\<lambda>_.
       push_previewed_op (SetSelectedHotbarSlot p (word_of_int (sint slot)))))"

definition reject_inventory_slot_events :: "player_id \<Rightarrow> inventory_slot \<Rightarrow> player_snapshot \<Rightarrow> (gameplay_transaction, unit) core_prog" where
  "reject_inventory_slot_events p slot player =
     sbind tx_content (\<lambda>cb.
     sbind (emit_event (ToPlayer p) (InventorySlotChanged 0 (cb_player_container_kind cb) slot
       (inventory_get_slot (ps_inventory player) slot))) (\<lambda>_.
     emit_event (ToPlayer p) (SelectedHotbarSlotChanged (ps_selected_hotbar_slot player))))"

definition creative_inventory_set :: "player_id \<Rightarrow> inventory_slot \<Rightarrow> item_stack option \<Rightarrow> (gameplay_transaction, unit) core_prog" where
  "creative_inventory_set p slot stack =
     unless_none (tx_player_snapshot p) (\<lambda>player.
     sbind tx_content (\<lambda>cb.
     sbind tx_world_meta (\<lambda>meta.
     if wm_game_mode meta \<noteq> 1 \<or> \<not> is_storage_slot slot \<or>
        (case stack of None \<Rightarrow> False
         | Some s \<Rightarrow> \<not> cb_is_supported_inventory_item cb (is_key s) \<or> is_count s = 0 \<or> is_count s > 64)
     then reject_inventory_slot_events p slot player
     else push_previewed_op (SetInventorySlot p slot stack))))"

definition dig_block :: "player_id \<Rightarrow> block_pos \<Rightarrow> u8 \<Rightarrow> (gameplay_transaction, unit) core_prog" where
  "dig_block p position status =
     (if status > 2 then sret ()
      else
        unless_none (tx_player_snapshot p) (\<lambda>player.
        if status = 1 then push_previewed_op (ClearMining p)
        else
          sbind (tx_block_state position) (\<lambda>current.
          sbind tx_content (\<lambda>cb.
          sbind (if Option.bind current (cb_container_kind_for_block cb) \<noteq> None
                 then sbind (tx_block_entity position) (\<lambda>entity.
                   sret (case entity of Some entity \<Rightarrow> has_inventory_contents entity | None \<Rightarrow> False))
                 else sret False) (\<lambda>protected_container.
          sbind (tx_can_edit_block p position) (\<lambda>allowed.
          let reject = sbind (push_previewed_op (ClearMining p)) (\<lambda>_.
                emit_event (ToPlayer p) (BlockChanged position current)) in
          case current of
            None \<Rightarrow> reject
          | Some block \<Rightarrow>
              if \<not> allowed \<or> cb_is_air_block cb block \<or> cb_is_unbreakable_block cb block \<or> protected_container
              then reject
              else
                sbind tx_world_meta (\<lambda>meta.
                if wm_game_mode meta = 1
                then sbind (push_previewed_op (ClearMining p)) (\<lambda>_. push_previewed_op (SetBlock position None))
                else
                  push_previewed_op (BeginMining p position
                    (case cb_survival_mining_duration_ms cb block (cb_tool_spec_for_item cb
                            (selected_hotbar_stack (ps_inventory player) (ps_selected_hotbar_slot player))) of
                       Some d \<Rightarrow> d | None \<Rightarrow> 50))))))))) "

definition place_rejection :: "player_id \<Rightarrow> interaction_hand \<Rightarrow> block_pos \<Rightarrow> player_snapshot \<Rightarrow> (gameplay_transaction, unit) core_prog" where
  "place_rejection p hand place_pos player =
     sbind (tx_block_state place_pos) (\<lambda>block.
     sbind (emit_event (ToPlayer p) (BlockChanged place_pos block)) (\<lambda>_.
     sbind tx_content (\<lambda>cb.
     sfor (place_inventory_correction p hand player (cb_player_container_kind cb)) (\<lambda>(target, event).
       emit_event target event))))"

definition held_inventory_slot :: "u8 \<Rightarrow> interaction_hand \<Rightarrow> inventory_slot" where
  "held_inventory_slot selected hand = (case hand of MainHand \<Rightarrow> Hotbar selected | OffhandHand \<Rightarrow> Offhand)"

definition consumed_stack :: "item_stack \<Rightarrow> item_stack option" where
  "consumed_stack stack =
     (let n = saturating_sub_word (is_count stack) 1 in if n > 0 then Some (stack\<lparr>is_count := n\<rparr>) else None)"

definition place_block :: "player_id \<Rightarrow> interaction_hand \<Rightarrow> block_pos \<Rightarrow> block_face option \<Rightarrow> item_stack option \<Rightarrow>
    (gameplay_transaction, unit) core_prog" where
  "place_block p hand position face held_item =
     (case face of
        None \<Rightarrow> sret ()
      | Some face \<Rightarrow>
          unless_none (tx_player_snapshot p) (\<lambda>player.
          let place_pos = block_pos_offset position face in
          case selected_stack (ps_inventory player) (ps_selected_hotbar_slot player) hand of
            None \<Rightarrow> place_rejection p hand place_pos player
          | Some selected \<Rightarrow>
              if (case held_item of Some held \<Rightarrow> held \<noteq> selected | None \<Rightarrow> False)
              then place_rejection p hand place_pos player
              else
                sbind tx_content (\<lambda>cb.
                case cb_placeable_block_state_from_item_key cb (is_key selected) of
                  None \<Rightarrow> place_rejection p hand place_pos player
                | Some block \<Rightarrow>
                    sbind (tx_block_state position) (\<lambda>target_block.
                    sbind (tx_block_state place_pos) (\<lambda>place_block.
                    sbind (tx_can_edit_block p place_pos) (\<lambda>allowed.
                    let is_empty = (\<lambda>b. case b of None \<Rightarrow> True | Some b \<Rightarrow> cb_is_air_block cb b) in
                    if \<not> allowed \<or> is_empty target_block \<or> \<not> is_empty place_block
                    then place_rejection p hand place_pos player
                    else
                      sbind (push_previewed_op (ClearMining p)) (\<lambda>_.
                      sbind (push_previewed_op (SetBlock place_pos (Some block))) (\<lambda>_.
                      sbind tx_world_meta (\<lambda>meta.
                      if wm_game_mode meta \<noteq> 1
                      then push_previewed_op (SetInventorySlot p
                        (held_inventory_slot (ps_selected_hotbar_slot player) hand) (consumed_stack selected))
                      else sret ())))))))))"

definition use_block :: "player_id \<Rightarrow> interaction_hand \<Rightarrow> block_pos \<Rightarrow> block_face option \<Rightarrow> item_stack option \<Rightarrow>
    (gameplay_transaction, unit) core_prog" where
  "use_block p hand position face held_item =
     sbind (tx_block_state position) (\<lambda>target_block.
     sbind tx_content (\<lambda>cb.
     if Option.bind target_block (cb_container_kind_for_block cb) \<noteq> None then
       sbind (tx_can_edit_block p position) (\<lambda>allowed.
       if \<not> allowed then emit_event (ToPlayer p) (BlockChanged position target_block)
       else
         sbind (push_previewed_op (ClearMining p)) (\<lambda>_.
         push_previewed_op (OpenContainerAt p position)))
     else place_block p hand position face held_item))"

fun builtin_gameplay_command :: "gameplay_command \<Rightarrow> (gameplay_transaction, unit) core_prog" where
  "builtin_gameplay_command (MoveIntent p position yaw pitch on_ground) =
     push_previewed_op (SetPlayerPose p position yaw pitch on_ground)"
| "builtin_gameplay_command (SetHeldSlot p slot) = set_held_slot p slot"
| "builtin_gameplay_command (CreativeInventorySet p slot stack) = creative_inventory_set p slot stack"
| "builtin_gameplay_command (DigBlock p position status face) = dig_block p position status"
| "builtin_gameplay_command (PlaceBlock p hand position face held_item) = place_block p hand position face held_item"
| "builtin_gameplay_command (UseBlock p hand position face held_item) = use_block p hand position face held_item"

definition apply_builtin_gameplay_command :: "gameplay_command \<Rightarrow> u64 \<Rightarrow> (server_core, targeted_event list) core_prog" where
  "apply_builtin_gameplay_command command now_ms =
     with_transaction now_ms (builtin_gameplay_command command) (\<lambda>_ tx. commit tx)"

section \<open>Effects computed by gameplay plugins\<close>

record semantic_read_set =
  sr_world_meta :: "world_meta option"
  sr_player_snapshots :: "(player_id, player_snapshot option) btree_map"
  sr_block_states :: "(block_pos, block_state option) btree_map"
  sr_block_entities :: "(block_pos, block_entity_state option) btree_map"
  sr_can_edit_block :: "(player_id \<times> block_pos, bool) btree_map"

datatype gameplay_effect =
    EffectSetPlayerPose player_id "vec3 option" "f32 option" "f32 option" bool
  | EffectSetSelectedHotbarSlot player_id u8
  | EffectSetInventorySlot player_id inventory_slot "item_stack option"
  | EffectClearMining player_id
  | EffectBeginMining player_id block_pos u64
  | EffectOpenContainerAt player_id block_pos
  | EffectOpenVirtualContainer player_id container_kind_id
  | EffectSetBlock block_pos "block_state option"
  | EffectSpawnDroppedItem vec3 item_stack
  | EffectEmitEvent targeted_event

record gameplay_effect_batch =
  eb_now_ms :: u64
  eb_reads :: semantic_read_set
  eb_effects :: "gameplay_effect list"

definition semantic_reads_match :: "'s core_backend \<Rightarrow> semantic_read_set \<Rightarrow> ('s, bool) core_prog" where
  "semantic_reads_match B rs =
      sand (case sr_world_meta rs of None \<Rightarrow> sret True | Some w \<Rightarrow> smatches (b_world_meta B) (\<lambda>v. v = w))
     (sand (sall (sr_player_snapshots rs) (\<lambda>(p, snapshot). smatches (compose_player_snapshot B p) (\<lambda>v. opt_eq snapshot_eq v snapshot)))
     (sand (sall (sr_block_states rs) (\<lambda>(position, st). smatches (b_block_state B position) (\<lambda>v. v = st)))
     (sand (sall (sr_block_entities rs) (\<lambda>(position, entity). smatches (b_block_entity B position) (\<lambda>v. v = entity)))
       (sall (sr_can_edit_block rs) (\<lambda>((p, position), allowed). smatches (can_edit_block B p position) (\<lambda>v. v = allowed))))))"

fun core_op_from_effect :: "gameplay_effect \<Rightarrow> core_op" where
  "core_op_from_effect (EffectSetPlayerPose p position yaw pitch on_ground) = SetPlayerPose p position yaw pitch on_ground"
| "core_op_from_effect (EffectSetSelectedHotbarSlot p slot) = SetSelectedHotbarSlot p slot"
| "core_op_from_effect (EffectSetInventorySlot p slot stack) = SetInventorySlot p slot stack"
| "core_op_from_effect (EffectClearMining p) = ClearMining p"
| "core_op_from_effect (EffectBeginMining p position duration_ms) = BeginMining p position duration_ms"
| "core_op_from_effect (EffectOpenContainerAt p position) = OpenContainerAt p position"
| "core_op_from_effect (EffectOpenVirtualContainer p kind) = OpenVirtualContainer p kind"
| "core_op_from_effect (EffectSetBlock position block) = SetBlock position block"
| "core_op_from_effect (EffectSpawnDroppedItem position item) = SpawnDroppedItem None position item"
| "core_op_from_effect (EffectEmitEvent event) = EmitEvent (fst event) (snd event)"

fun apply_effect_to_transaction :: "gameplay_effect \<Rightarrow> (gameplay_transaction, unit) core_prog" where
  "apply_effect_to_transaction (EffectSetPlayerPose p position yaw pitch on_ground) =
     push_previewed_op (SetPlayerPose p position yaw pitch on_ground)"
| "apply_effect_to_transaction (EffectSetSelectedHotbarSlot p slot) = push_previewed_op (SetSelectedHotbarSlot p slot)"
| "apply_effect_to_transaction (EffectSetInventorySlot p slot stack) = push_previewed_op (SetInventorySlot p slot stack)"
| "apply_effect_to_transaction (EffectClearMining p) = push_previewed_op (ClearMining p)"
| "apply_effect_to_transaction (EffectBeginMining p position duration_ms) = push_previewed_op (BeginMining p position duration_ms)"
| "apply_effect_to_transaction (EffectOpenContainerAt p position) = push_previewed_op (OpenContainerAt p position)"
| "apply_effect_to_transaction (EffectOpenVirtualContainer p kind) = push_previewed_op (OpenVirtualContainer p kind)"
| "apply_effect_to_transaction (EffectSetBlock position block) = push_previewed_op (SetBlock position block)"
| "apply_effect_to_transaction (EffectSpawnDroppedItem position item) = push_previewed_op (SpawnDroppedItem None position item)"
| "apply_effect_to_transaction (EffectEmitEvent event) = emit_event (fst event) (snd event)"

datatype effect_apply_result = EffectApplied "targeted_event list" | EffectConflict

fun gameplay_effect_apply_result :: "journal_apply_result \<Rightarrow> effect_apply_result" where
  "gameplay_effect_apply_result (Applied events) = EffectApplied events"
| "gameplay_effect_apply_result Conflict = EffectConflict"

definition apply_committed_gameplay_effects :: "u64 \<Rightarrow> gameplay_effect list \<Rightarrow> (server_core, targeted_event list) core_prog" where
  "apply_committed_gameplay_effects now_ms effects = apply_core_ops (map core_op_from_effect effects) now_ms {}"

definition validate_and_apply_gameplay_effects :: "gameplay_effect_batch \<Rightarrow> (server_core, effect_apply_result) core_prog" where
  "validate_and_apply_gameplay_effects batch =
     sbind (semantic_reads_match base_backend (eb_reads batch)) (\<lambda>matches.
     if \<not> matches then sret EffectConflict
     else smap_result EffectApplied (apply_committed_gameplay_effects (eb_now_ms batch) (eb_effects batch)))"

text \<open>A login: the preview on a fork of the core, the effects and the end of the login on it, and the journal
  applied to the core.\<close>

definition finish_login_effects :: "connection_id \<Rightarrow> player_id \<Rightarrow> gameplay_effect list \<Rightarrow>
    (gameplay_transaction, string + unit) core_prog" where
  "finish_login_effects connection_id p effects =
     sbind (sfor effects apply_effect_to_transaction) (\<lambda>_. finalize_login connection_id p)"

definition validate_and_apply_login_effects :: "connection_id \<Rightarrow> string \<Rightarrow> player_id \<Rightarrow> gameplay_effect_batch \<Rightarrow>
    (server_core, effect_apply_result) core_prog" where
  "validate_and_apply_login_effects connection_id username p batch =
     with_transaction (eb_now_ms batch)
       (sbind (begin_login connection_id username p) (\<lambda>rejection.
        if rejection \<noteq> None then sret False
        else
          sbind (on_overlay (semantic_reads_match overlay_backend (eb_reads batch))) (\<lambda>matches.
          if \<not> matches then sret False
          else smap_result (\<lambda>r. case r of Inl _ \<Rightarrow> False | Inr _ \<Rightarrow> True)
            (finish_login_effects connection_id p (eb_effects batch)))))
       (\<lambda>ready tx. if ready then smap_result gameplay_effect_apply_result (validate_and_apply_gameplay_journal (into_journal tx))
                   else sret EffectConflict)"

definition apply_committed_login_effects :: "connection_id \<Rightarrow> string \<Rightarrow> player_id \<Rightarrow> u64 \<Rightarrow> gameplay_effect list \<Rightarrow>
    (server_core, effect_apply_result) core_prog" where
  "apply_committed_login_effects connection_id username p now_ms effects =
     with_transaction now_ms
       (sbind (begin_login connection_id username p) (\<lambda>rejection.
        if rejection \<noteq> None then sret False
        else smap_result (\<lambda>r. case r of Inl _ \<Rightarrow> False | Inr _ \<Rightarrow> True) (finish_login_effects connection_id p effects)))
       (\<lambda>ready tx. if ready then smap_result gameplay_effect_apply_result (validate_and_apply_gameplay_journal (into_journal tx))
                   else sret EffectConflict)"

section \<open>Commands: \<open>command.rs\<close>\<close>

datatype core_command =
    LoginStart connection_id string player_id
  | UpdateClientView player_id u8
  | Gameplay gameplay_command
  | KeepAliveResponse player_id int
  | InventoryClickCommand player_id inventory_transaction_context inventory_click_target inventory_click_button
      inventory_click_validation
  | CloseContainerCommand player_id u8
  | DisconnectCommand player_id

definition login_start :: "connection_id \<Rightarrow> string \<Rightarrow> player_id \<Rightarrow> u64 \<Rightarrow> (server_core, targeted_event list) core_prog" where
  "login_start connection_id username p now_ms =
     with_transaction now_ms
       (sbind (begin_login connection_id username p) (\<lambda>rejection.
        case rejection of
          Some events \<Rightarrow> sret (Some events)
        | None \<Rightarrow>
            sbind (finalize_login connection_id p) (\<lambda>r.
            case r of Inl _ \<Rightarrow> sfail LoginPanic | Inr _ \<Rightarrow> sret None)))
       (\<lambda>rejection tx. case rejection of Some events \<Rightarrow> sret events | None \<Rightarrow> commit tx)"

fun apply_command :: "core_command \<Rightarrow> u64 \<Rightarrow> (server_core, targeted_event list) core_prog" where
  "apply_command (LoginStart connection_id username p) now_ms = login_start connection_id username p now_ms"
| "apply_command (UpdateClientView p view_distance) now_ms = apply_core_ops [SetViewDistance p view_distance] now_ms {}"
| "apply_command (InventoryClickCommand p transaction target button validation) now_ms =
     apply_core_ops [InventoryClick p transaction target button validation] now_ms {}"
| "apply_command (CloseContainerCommand p window_id) now_ms = apply_core_ops [CloseContainer p window_id True] now_ms {}"
| "apply_command (Gameplay command) now_ms = apply_builtin_gameplay_command command now_ms"
| "apply_command (KeepAliveResponse p keep_alive_id) now_ms = apply_core_ops [AcknowledgeKeepAlive p keep_alive_id] now_ms {}"
| "apply_command (DisconnectCommand p) now_ms = apply_core_ops [DisconnectPlayer p] now_ms {}"

end
