(* ===== verification/Core_Version.thy ===== *)
theory Core_Version
  imports Core_Transaction
begin

text \<open>
  Versions of the core and their transfer to another process, crate \<open>revy-voxel-core\<close>: \<open>core/version.rs\<close> and
  the snapshots, settings and resynchronisation of \<open>core/mod.rs\<close>.

  A version is an immutable core with a revision. A mutation works on a fork of it and logs what was
  done; the commit it is sealed into advances the revision. A process hands its core over by a full
  snapshot and then by deltas: framed sequences of logged commits that the receiver replays.

  The CBOR serializer (\<open>ciborium\<close>, with the derived \<open>Serialize\<close> and \<open>Deserialize\<close>) is a parameter: a serializer
  gives the byte chunks it writes for a value, a deserializer what it reads from a byte string, and \<open>reserve\<close> whether an
  allocation succeeds. The texts of error messages are constructors that carry what the text interpolates. A mutable
  borrow of the state is state passing, as in the other theories; \<open>Arc\<close> has no counterpart.
\<close>

section \<open>Snapshots and settings: \<open>mod.rs\<close>\<close>

record world_snapshot =
  wn_meta :: world_meta
  wn_chunks :: "(chunk_pos, chunk_column) btree_map"
  wn_block_entities :: "(block_pos, block_entity_state) btree_map"
  wn_players :: "(player_id, player_snapshot) btree_map"

definition from_snapshot :: "core_config \<Rightarrow> world_snapshot \<Rightarrow> content_behavior \<Rightarrow> server_core" where
  "from_snapshot config snapshot content =
     upd_world (\<lambda>w. w\<lparr>ws_world_meta := wn_meta snapshot, ws_chunks := wn_chunks snapshot,
       ws_block_entities := wn_block_entities snapshot, ws_saved_players := wn_players snapshot\<rparr>)
     (server_core_new config content)"

text \<open>The saved players, with every player online as it would be saved now.\<close>

definition snapshot_players :: "(server_core, (player_id, player_snapshot) btree_map) core_prog" where
  "snapshot_players =
     sbind (sget (\<lambda>c. map fst (ss_player_sessions (sc_sessions c)))) (\<lambda>ids.
     sbind (smap ids (\<lambda>p. smap_result (map_option (Pair p)) (persisted_online_player_snapshot_state base_backend p))) (\<lambda>online.
     sget (\<lambda>c. fold (\<lambda>(p, snapshot) players. bt_insert p snapshot players) (catsome online) (ws_saved_players (sc_world c)))))"

definition core_snapshot :: "(server_core, world_snapshot) core_prog" where
  "core_snapshot =
     sbind snapshot_players (\<lambda>players.
     sget (\<lambda>c. \<lparr>wn_meta = ws_world_meta (sc_world c), wn_chunks = ws_chunks (sc_world c),
       wn_block_entities = ws_block_entities (sc_world c), wn_players = players\<rparr>))"

record player_summary =
  sm_online_players :: nat
  sm_max_players :: u32

definition core_player_summary :: "server_core \<Rightarrow> player_summary" where
  "core_player_summary c = \<lparr>sm_online_players = length (ss_player_sessions (sc_sessions c)),
     sm_max_players = cfg_max_players (ws_config (sc_world c))\<rparr>"

definition set_max_players :: "u32 \<Rightarrow> server_core \<Rightarrow> server_core" where
  "set_max_players max_players =
     upd_world (\<lambda>w. w\<lparr>ws_config := (ws_config w)\<lparr>cfg_max_players := max_players\<rparr>,
       ws_world_meta := (ws_world_meta w)\<lparr>wm_max_players := max_players\<rparr>\<rparr>)"

definition reconfigure :: "core_config \<Rightarrow> server_core \<Rightarrow> server_core" where
  "reconfigure config =
     upd_world (\<lambda>w. w\<lparr>ws_world_meta := (ws_world_meta w)\<lparr>wm_level_name := cfg_level_name config,
         wm_game_mode := cfg_game_mode config, wm_difficulty := cfg_difficulty config,
         wm_max_players := cfg_max_players config\<rparr>,
       ws_config := config\<rparr>)"

text \<open>What a client gets that is attached to the core again.\<close>

definition in_view :: "player_session_state \<Rightarrow> vec3 \<Rightarrow> (server_core, bool) core_prog" where
  "in_view session position =
     sbind (chunk_of position) (\<lambda>chunk. sret (chunk \<in> cv_loaded_chunks (se_view session)))"

definition resync_player :: "player_id \<Rightarrow> player_session_state \<Rightarrow> player_id \<times> entity_id \<Rightarrow>
    (server_core, targeted_event option) core_prog" where
  "resync_player p session = (\<lambda>(other, e).
     if other = p \<or> e = se_entity_id session then sret None
     else
       bind_some (compose_player_snapshot_by_entity base_backend e) (\<lambda>player.
       sbind (in_view session (ps_position player)) (\<lambda>visible.
       sret (if visible then Some (ToPlayer p, EntitySpawned e player) else None))))"

definition resync_item :: "player_id \<Rightarrow> player_session_state \<Rightarrow> entity_id \<times> dropped_item_state \<Rightarrow>
    (server_core, targeted_event option) core_prog" where
  "resync_item p session = (\<lambda>(e, item).
     sbind (in_view session (di_position (ds_snapshot item))) (\<lambda>visible.
     sret (if visible then Some (ToPlayer p, DroppedItemSpawned e (ds_snapshot item)) else None)))"

definition resync_mining :: "player_id \<Rightarrow> player_session_state \<Rightarrow> entity_id \<times> active_mining_state \<Rightarrow> targeted_event option" where
  "resync_mining p session = (\<lambda>(e, mining).
     if block_chunk_pos (am_position mining) \<in> cv_loaded_chunks (se_view session)
     then Some (ToPlayer p, BlockBreakingProgress e (am_position mining) (am_last_stage mining) (am_duration_ms mining))
     else None)"

definition resync_inventory :: "server_core \<Rightarrow> player_id \<Rightarrow> player_session_state \<Rightarrow> player_inventory \<Rightarrow> targeted_event list" where
  "resync_inventory c p session pinv =
     (case se_active_container session of
        Some window \<Rightarrow>
          (ToPlayer p, InventoryContents (ow_window_id window) (oc_kind (ow_container window)) (window_contents_of window pinv)) #
          map (\<lambda>(property, v). (ToPlayer p, ContainerPropertyChanged (ow_window_id window) property v))
            (window_property_entries window)
      | None \<Rightarrow>
          [(ToPlayer p, InventoryContents 0 (cb_player_container_kind (sc_content_behavior c)) (window_contents_player pinv))])"

definition session_resync_events :: "player_id \<Rightarrow> (server_core, targeted_event list) core_prog" where
  "session_resync_events p =
     sbind (sget id) (\<lambda>c.
     case map_of (ss_player_sessions (sc_sessions c)) p of
       None \<Rightarrow> sret []
     | Some session \<Rightarrow>
         sbind (compose_player_snapshot_by_entity base_backend (se_entity_id session)) (\<lambda>player.
         case (player, map_of (es_player_inventory (sc_entities c)) (se_entity_id session),
               map_of (es_player_selected_hotbar (sc_entities c)) (se_entity_id session)) of
           (Some player, Some pinv, Some selected) \<Rightarrow>
             sbind (smap (es_players_by_player_id (sc_entities c)) (resync_player p session)) (\<lambda>players.
             sbind (smap (es_dropped_items (sc_entities c)) (resync_item p session)) (\<lambda>items.
             sret ([(ToPlayer p, PlayBootstrap player (se_entity_id session) (ws_world_meta (sc_world c))
                      (cfg_view_distance (ws_config (sc_world c)))),
                    (ToPlayer p, ChunkBatch (catsome (map (map_of (ws_chunks (sc_world c)))
                      (sorted_list_of_set (cv_loaded_chunks (se_view session))))))] @
               catsome players @ catsome items @
               catsome (map (resync_mining p session) (es_player_active_mining (sc_entities c))) @
               resync_inventory c p session pinv @
               [(ToPlayer p, SelectedHotbarSlotChanged selected), (ToPlayer p, CursorChanged (se_cursor session))])))
         | _ \<Rightarrow> sret []))"

section \<open>Versions and mutations: \<open>version.rs\<close>\<close>

type_synonym core_revision = u64

definition revision_next :: "core_revision \<Rightarrow> core_revision" where
  "revision_next r = saturating_add_word r 1"

record core_version =
  vr_revision :: core_revision
  vr_state :: server_core

definition version_initial :: "server_core \<Rightarrow> core_version" where
  "version_initial c = \<lparr>vr_revision = 0, vr_state = c\<rparr>"

datatype core_transfer_mutation =
    CommandMutation core_command u64
  | BuiltinGameplayCommand gameplay_command u64
  | BuiltinTick u64
  | GameplayEffects u64 "gameplay_effect list"
  | LoginEffects connection_id string player_id u64 "gameplay_effect list"
  | SetMaxPlayers u32
  | Reconfigure core_config

record core_mutation =
  cm_base_revision :: core_revision
  cm_state :: server_core
  cm_transfer_mutations :: "core_transfer_mutation list"

definition mutation_from_version :: "core_version \<Rightarrow> core_mutation" where
  "mutation_from_version base = \<lparr>cm_base_revision = vr_revision base, cm_state = vr_state base, cm_transfer_mutations = []\<rparr>"

text \<open>A program on the forked state, and the entry in the log.\<close>

definition on_state :: "(server_core, 'a) core_prog \<Rightarrow> (core_mutation, 'a) core_prog" where
  "on_state m cm = (case m (cm_state cm) of (r, c) \<Rightarrow> (r, cm\<lparr>cm_state := c\<rparr>))"

definition log_mutation :: "core_transfer_mutation \<Rightarrow> (core_mutation, unit) core_prog" where
  "log_mutation m = smod (cm_transfer_mutations_update (\<lambda>ms. ms @ [m]))"

definition mutation_apply_command :: "core_command \<Rightarrow> u64 \<Rightarrow> (core_mutation, targeted_event list) core_prog" where
  "mutation_apply_command command now_ms =
     sbind (on_state (apply_command command now_ms)) (\<lambda>events.
     sbind (log_mutation (CommandMutation command now_ms)) (\<lambda>_. sret events))"

definition mutation_apply_builtin_gameplay_command :: "gameplay_command \<Rightarrow> u64 \<Rightarrow> (core_mutation, targeted_event list) core_prog" where
  "mutation_apply_builtin_gameplay_command command now_ms =
     sbind (on_state (apply_builtin_gameplay_command command now_ms)) (\<lambda>events.
     sbind (log_mutation (BuiltinGameplayCommand command now_ms)) (\<lambda>_. sret events))"

definition mutation_tick :: "u64 \<Rightarrow> (core_mutation, targeted_event list) core_prog" where
  "mutation_tick now_ms =
     sbind (on_state (core_tick now_ms)) (\<lambda>events.
     sbind (log_mutation (BuiltinTick now_ms)) (\<lambda>_. sret events))"

definition mutation_apply_gameplay_effects :: "gameplay_effect_batch \<Rightarrow> (core_mutation, effect_apply_result) core_prog" where
  "mutation_apply_gameplay_effects batch =
     sbind (on_state (validate_and_apply_gameplay_effects batch)) (\<lambda>result.
     sbind (if eb_effects batch \<noteq> [] \<and> result \<noteq> EffectConflict
            then log_mutation (GameplayEffects (eb_now_ms batch) (eb_effects batch)) else sret ()) (\<lambda>_.
     sret result))"

definition mutation_apply_login_effects :: "connection_id \<Rightarrow> string \<Rightarrow> player_id \<Rightarrow> gameplay_effect_batch \<Rightarrow>
    (core_mutation, effect_apply_result) core_prog" where
  "mutation_apply_login_effects connection_id username p batch =
     sbind (on_state (validate_and_apply_login_effects connection_id username p batch)) (\<lambda>result.
     sbind (if result \<noteq> EffectConflict
            then log_mutation (LoginEffects connection_id username p (eb_now_ms batch) (eb_effects batch)) else sret ()) (\<lambda>_.
     sret result))"

definition mutation_set_max_players :: "u32 \<Rightarrow> (core_mutation, unit) core_prog" where
  "mutation_set_max_players max_players =
     sbind (on_state (smod (set_max_players max_players))) (\<lambda>_. log_mutation (SetMaxPlayers max_players))"

definition mutation_reconfigure :: "core_config \<Rightarrow> (core_mutation, unit) core_prog" where
  "mutation_reconfigure config =
     sbind (on_state (smod (reconfigure config))) (\<lambda>_. log_mutation (Reconfigure config))"

record prepared_core_commit =
  pc_base_revision :: core_revision
  pc_next_version :: core_version
  pc_events :: "targeted_event list"
  pc_requires_persistence :: bool
  pc_transfer_mutations :: "core_transfer_mutation list"

definition mutation_prepare :: "targeted_event list \<Rightarrow> bool \<Rightarrow> core_mutation \<Rightarrow> prepared_core_commit" where
  "mutation_prepare events requires_persistence cm =
     \<lparr>pc_base_revision = cm_base_revision cm,
      pc_next_version = \<lparr>vr_revision = (if cm_transfer_mutations cm = [] then cm_base_revision cm
          else revision_next (cm_base_revision cm)), vr_state = cm_state cm\<rparr>,
      pc_events = events, pc_requires_persistence = requires_persistence,
      pc_transfer_mutations = cm_transfer_mutations cm\<rparr>"

record core_transfer_commit =
  ct_base_revision :: core_revision
  ct_next_revision :: core_revision
  ct_requires_persistence :: bool
  ct_mutations :: "core_transfer_mutation list"

definition into_parts :: "prepared_core_commit \<Rightarrow> core_version \<times> targeted_event list \<times> bool \<times> core_transfer_commit" where
  "into_parts pc = (pc_next_version pc, pc_events pc, pc_requires_persistence pc,
     \<lparr>ct_base_revision = pc_base_revision pc, ct_next_revision = vr_revision (pc_next_version pc),
      ct_requires_persistence = pc_requires_persistence pc, ct_mutations = pc_transfer_mutations pc\<rparr>)"

section \<open>The transfer of a version\<close>

datatype invalid_state =
    DeltaMagicInvalid
  | DeltaBaseMismatch core_revision core_revision
  | DeltaNotAdjacent core_revision core_revision core_revision
  | DeltaEndMismatch core_revision core_revision
  | CommitNotAdjacent core_revision core_revision core_revision
  | DeltaHeaderTruncated
  | DeltaFrameTruncated
  | LoginReplayConflict
  | PlayerWithoutEntity player_id entity_id
  | PlayerWithoutIdentity player_id entity_id
  | MissingComponent entity_id
  | PlayerWithoutSession player_id
  | IdentityNotIndexed entity_id
  | SessionNotIndexed player_id
  | ItemWithoutKind entity_id
  | NextEntityIdOccupied
  | ProcessRetentionInactive
  | DeltaBaseAhead core_revision core_revision

datatype core_transfer_error =
    Codec string
  | TransferBudgetExceeded nat nat
  | Allocation nat
  | Output string
  | TrailingBytes nat
  | UnsupportedFormat u16
  | InvalidState invalid_state

definition CORE_TRANSFER_FORMAT_MAJOR :: u16 where "CORE_TRANSFER_FORMAT_MAJOR = 2"
definition MAX_CORE_TRANSFER_BYTES :: nat where "MAX_CORE_TRANSFER_BYTES = 512 * 1024 * 1024"
definition MAX_COMMITS :: nat where "MAX_COMMITS = 131072"

text \<open>The letters \<open>RVCDCORE\<close>.\<close>

definition CORE_DELTA_MAGIC :: bytes where
  "CORE_DELTA_MAGIC = [0x52, 0x56, 0x43, 0x44, 0x43, 0x4F, 0x52, 0x45]"

definition CORE_DELTA_HEADER_BYTES :: nat where
  "CORE_DELTA_HEADER_BYTES = length CORE_DELTA_MAGIC + 2 + 8 * 2 + 4"

text \<open>What a serializer writes for a value: chunks of bytes, and an error of its own after them.\<close>

type_synonym 'a serializer = "'a \<Rightarrow> bytes list \<times> string option"

text \<open>What a deserializer reads from a byte string: a value and the bytes that remain.\<close>

type_synonym 'a deserializer = "bytes \<Rightarrow> string + 'a \<times> bytes"

datatype transfer_write_failure = WriteBudgetExceeded nat | WriteAllocation nat

record bounded_transfer_writer =
  tw_bytes :: bytes
  tw_limit :: nat
  tw_failure :: "transfer_write_failure option"

definition bounded_writer_new :: "nat \<Rightarrow> bounded_transfer_writer" where
  "bounded_writer_new limit = \<lparr>tw_bytes = [], tw_limit = limit, tw_failure = None\<rparr>"

definition bounded_write :: "(nat \<Rightarrow> bool) \<Rightarrow> bytes \<Rightarrow> bounded_transfer_writer \<Rightarrow> bool \<times> bounded_transfer_writer" where
  "bounded_write reserve data w =
     (case usize_checked_add (length (tw_bytes w)) (length data) of
        None \<Rightarrow> (False, w\<lparr>tw_failure := Some (WriteBudgetExceeded usize_max)\<rparr>)
      | Some actual \<Rightarrow>
          if actual > tw_limit w then (False, w\<lparr>tw_failure := Some (WriteBudgetExceeded actual)\<rparr>)
          else if \<not> reserve actual then (False, w\<lparr>tw_failure := Some (WriteAllocation actual)\<rparr>)
          else (True, w\<lparr>tw_bytes := tw_bytes w @ data\<rparr>))"

text \<open>\<open>write_all\<close> for each chunk; it makes no call for an empty one.\<close>

fun bounded_write_all :: "(nat \<Rightarrow> bool) \<Rightarrow> bytes list \<Rightarrow> bounded_transfer_writer \<Rightarrow> bool \<times> bounded_transfer_writer" where
  "bounded_write_all reserve [] w = (True, w)"
| "bounded_write_all reserve (chunk # chunks) w =
     (if chunk = [] then bounded_write_all reserve chunks w
      else case bounded_write reserve chunk w of
        (True, w') \<Rightarrow> bounded_write_all reserve chunks w'
      | (False, w') \<Rightarrow> (False, w'))"

definition encode_transfer :: "(nat \<Rightarrow> bool) \<Rightarrow> 'a serializer \<Rightarrow> 'a \<Rightarrow> nat \<Rightarrow> core_transfer_error + bytes" where
  "encode_transfer reserve ser v byte_limit =
     (case ser v of (chunks, failed) \<Rightarrow>
        (case bounded_write_all reserve chunks (bounded_writer_new byte_limit) of
           (True, w) \<Rightarrow> (case failed of None \<Rightarrow> Inr (tw_bytes w) | Some msg \<Rightarrow> Inl (Codec msg))
         | (False, w) \<Rightarrow>
             Inl (case tw_failure w of
                    Some (WriteBudgetExceeded actual) \<Rightarrow> TransferBudgetExceeded actual byte_limit
                  | Some (WriteAllocation requested) \<Rightarrow> Allocation requested
                  | None \<Rightarrow> Codec [])))"

definition decode_transfer :: "'a deserializer \<Rightarrow> bytes \<Rightarrow> core_transfer_error + 'a" where
  "decode_transfer de bs =
     (if length bs > MAX_CORE_TRANSFER_BYTES then Inl (TransferBudgetExceeded (length bs) MAX_CORE_TRANSFER_BYTES)
      else case de bs of
        Inl msg \<Rightarrow> Inl (Codec msg)
      | Inr (v, remaining) \<Rightarrow> if remaining \<noteq> [] then Inl (TrailingBytes (length remaining)) else Inr v)"

section \<open>Deltas\<close>

record encoded_core_transfer_commit =
  en_base_revision :: core_revision
  en_next_revision :: core_revision
  en_requires_persistence :: bool
  en_bytes :: bytes

definition commit_encode :: "(nat \<Rightarrow> bool) \<Rightarrow> core_transfer_commit serializer \<Rightarrow> core_transfer_commit \<Rightarrow> nat \<Rightarrow>
    core_transfer_error + encoded_core_transfer_commit" where
  "commit_encode reserve ser entry byte_limit =
     bind_res (encode_transfer reserve ser entry (min byte_limit MAX_CORE_TRANSFER_BYTES)) (\<lambda>bs.
     Inr \<lparr>en_base_revision = ct_base_revision entry, en_next_revision = ct_next_revision entry,
       en_requires_persistence = ct_requires_persistence entry, en_bytes = bs\<rparr>)"

record core_transfer_delta_descriptor =
  dd_base_revision :: core_revision
  dd_final_revision :: core_revision
  dd_encoded_len :: nat

fun check_adjacent :: "encoded_core_transfer_commit list \<Rightarrow> core_revision \<Rightarrow> nat \<Rightarrow> nat \<Rightarrow>
    core_transfer_error + core_revision \<times> nat" where
  "check_adjacent [] expected encoded_len commit_count = Inr (expected, encoded_len)"
| "check_adjacent (entry # commits) expected encoded_len commit_count =
     (case usize_checked_add commit_count 1 of
        None \<Rightarrow> Inl (TransferBudgetExceeded usize_max MAX_COMMITS)
      | Some commit_count \<Rightarrow>
          if commit_count > MAX_COMMITS then Inl (TransferBudgetExceeded commit_count MAX_COMMITS)
          else if en_base_revision entry \<noteq> expected \<or> en_next_revision entry \<noteq> revision_next expected
          then Inl (InvalidState (CommitNotAdjacent (en_base_revision entry) (en_next_revision entry) expected))
          else
            (case Option.bind (usize_checked_add encoded_len 4) (\<lambda>len. usize_checked_add len (length (en_bytes entry))) of
               None \<Rightarrow> Inl (TransferBudgetExceeded usize_max MAX_CORE_TRANSFER_BYTES)
             | Some encoded_len \<Rightarrow> check_adjacent commits (en_next_revision entry) encoded_len commit_count))"

definition validate_preencoded :: "core_revision \<Rightarrow> encoded_core_transfer_commit list \<Rightarrow>
    core_transfer_error + core_transfer_delta_descriptor" where
  "validate_preencoded base_revision commits =
     bind_res (check_adjacent commits base_revision CORE_DELTA_HEADER_BYTES 0) (\<lambda>(final_revision, encoded_len).
     if encoded_len > MAX_CORE_TRANSFER_BYTES then Inl (TransferBudgetExceeded encoded_len MAX_CORE_TRANSFER_BYTES)
     else Inr \<lparr>dd_base_revision = base_revision, dd_final_revision = final_revision, dd_encoded_len = encoded_len\<rparr>)"

text \<open>A writer is a state with \<open>write_all\<close>.\<close>

type_synonym 'w writer = "bytes \<Rightarrow> ('w, string, unit) sr"

definition to_output :: "('w, string, 'a) sr \<Rightarrow> ('w, core_transfer_error, 'a) sr" where
  "to_output m w = (case m w of (Inl msg, w') \<Rightarrow> (Inl (Output msg), w') | (Inr x, w') \<Rightarrow> (Inr x, w'))"

definition write_frame :: "'w writer \<Rightarrow> encoded_core_transfer_commit \<Rightarrow> ('w, core_transfer_error, unit) sr" where
  "write_frame wr entry =
     (if length (en_bytes entry) > 2 ^ 32 - 1 then sfail (TransferBudgetExceeded (length (en_bytes entry)) (2 ^ 32 - 1))
      else to_output (sbind (wr (le_bytes 4 (word_of_nat (length (en_bytes entry)) :: u32))) (\<lambda>_. wr (en_bytes entry))))"

definition write_preencoded :: "'w writer \<Rightarrow> core_transfer_delta_descriptor \<Rightarrow> encoded_core_transfer_commit list \<Rightarrow>
    ('w, core_transfer_error, unit) sr" where
  "write_preencoded wr descriptor commits =
     (if length commits > 2 ^ 32 - 1 then sfail (TransferBudgetExceeded (length commits) MAX_COMMITS)
      else
        sbind (to_output (sfor [CORE_DELTA_MAGIC, le_bytes 2 CORE_TRANSFER_FORMAT_MAJOR, le_bytes 8 (dd_base_revision descriptor),
          le_bytes 8 (dd_final_revision descriptor), le_bytes 4 (word_of_nat (length commits) :: u32)] wr)) (\<lambda>_.
        sfor commits (write_frame wr)))"

definition vec_writer :: "bytes writer" where
  "vec_writer bs = smod (\<lambda>v. v @ bs)"

record core_transfer_delta =
  td_base_revision :: core_revision
  td_final_revision :: core_revision
  td_bytes :: bytes

definition seal_preencoded :: "(nat \<Rightarrow> bool) \<Rightarrow> core_revision \<Rightarrow> encoded_core_transfer_commit list \<Rightarrow>
    core_transfer_error + core_transfer_delta" where
  "seal_preencoded reserve base_revision commits =
     bind_res (validate_preencoded base_revision commits) (\<lambda>descriptor.
     if \<not> reserve (dd_encoded_len descriptor) then Inl (Allocation (dd_encoded_len descriptor))
     else case write_preencoded vec_writer descriptor commits [] of
       (Inl e, _) \<Rightarrow> Inl e
     | (Inr _, bs) \<Rightarrow> Inr \<lparr>td_base_revision = base_revision, td_final_revision = dd_final_revision descriptor, td_bytes = bs\<rparr>)"

definition seal_preencoded_into :: "core_revision \<Rightarrow> encoded_core_transfer_commit list \<Rightarrow> 'w writer \<Rightarrow>
    ('w, core_transfer_error, core_transfer_delta_descriptor) sr" where
  "seal_preencoded_into base_revision commits wr =
     sbind (slift (validate_preencoded base_revision commits)) (\<lambda>descriptor.
     sbind (write_preencoded wr descriptor commits) (\<lambda>_. sret descriptor))"

fun encode_commits :: "(nat \<Rightarrow> bool) \<Rightarrow> core_transfer_commit serializer \<Rightarrow> core_transfer_commit list \<Rightarrow>
    core_transfer_error + encoded_core_transfer_commit list" where
  "encode_commits reserve ser [] = Inr []"
| "encode_commits reserve ser (entry # commits) =
     bind_res (commit_encode reserve ser entry MAX_CORE_TRANSFER_BYTES) (\<lambda>encoded.
     bind_res (encode_commits reserve ser commits) (\<lambda>rest. Inr (encoded # rest)))"

definition delta_prepare :: "(nat \<Rightarrow> bool) \<Rightarrow> core_transfer_commit serializer \<Rightarrow> core_revision \<Rightarrow> core_transfer_commit list \<Rightarrow>
    core_transfer_error + core_transfer_delta" where
  "delta_prepare reserve ser base_revision commits =
     bind_res (encode_commits reserve ser commits) (seal_preencoded reserve base_revision)"

text \<open>The reader of a delta; the state is what remains.\<close>

definition delta_reader_new :: "bytes \<Rightarrow> core_transfer_error + bytes" where
  "delta_reader_new bs =
     (if length bs > MAX_CORE_TRANSFER_BYTES then Inl (TransferBudgetExceeded (length bs) MAX_CORE_TRANSFER_BYTES)
      else if length bs < CORE_DELTA_HEADER_BYTES then Inl (InvalidState DeltaHeaderTruncated)
      else Inr bs)"

definition delta_read_bytes :: "nat \<Rightarrow> (bytes, core_transfer_error, bytes) sr" where
  "delta_read_bytes n remaining =
     (if n > length remaining then (Inl (InvalidState DeltaFrameTruncated), remaining)
      else (Inr (take n remaining), drop n remaining))"

definition delta_read_u16 :: "(bytes, core_transfer_error, u16) sr" where
  "delta_read_u16 = sbind (delta_read_bytes 2) (\<lambda>bs. sret (of_le_bytes bs))"

definition delta_read_u32 :: "(bytes, core_transfer_error, u32) sr" where
  "delta_read_u32 = sbind (delta_read_bytes 4) (\<lambda>bs. sret (of_le_bytes bs))"

definition delta_read_u64 :: "(bytes, core_transfer_error, u64) sr" where
  "delta_read_u64 = sbind (delta_read_bytes 8) (\<lambda>bs. sret (of_le_bytes bs))"

definition delta_finish :: "(bytes, core_transfer_error, unit) sr" where
  "delta_finish remaining =
     (if remaining = [] then (Inr (), remaining) else (Inl (TrailingBytes (length remaining)), remaining))"

text \<open>A replay fails with a transfer error, or the operations of the core panic.\<close>

datatype replay_failure = ReplayError core_transfer_error | ReplayPanic core_panic

definition panics :: "('s, 'a) core_prog \<Rightarrow> ('s, replay_failure, unit) sr" where
  "panics m s = (case m s of (Inl e, s') \<Rightarrow> (Inl (ReplayPanic e), s') | (Inr _, s') \<Rightarrow> (Inr (), s'))"

fun mutation_replay :: "core_transfer_mutation \<Rightarrow> (server_core, replay_failure, unit) sr" where
  "mutation_replay (CommandMutation command now_ms) = panics (apply_command command now_ms)"
| "mutation_replay (BuiltinGameplayCommand command now_ms) = panics (apply_builtin_gameplay_command command now_ms)"
| "mutation_replay (BuiltinTick now_ms) = panics (core_tick now_ms)"
| "mutation_replay (GameplayEffects now_ms effects) = panics (apply_committed_gameplay_effects now_ms effects)"
| "mutation_replay (LoginEffects connection_id username p now_ms effects) =
     (\<lambda>c. case apply_committed_login_effects connection_id username p now_ms effects c of
        (Inl e, c') \<Rightarrow> (Inl (ReplayPanic e), c')
      | (Inr result, c') \<Rightarrow>
          if result = EffectConflict then (Inl (ReplayError (InvalidState LoginReplayConflict)), c') else (Inr (), c'))"
| "mutation_replay (SetMaxPlayers max_players) = smod (set_max_players max_players)"
| "mutation_replay (Reconfigure config) = smod (reconfigure config)"

definition on_reader :: "(bytes, core_transfer_error, 'a) sr \<Rightarrow> (bytes \<times> server_core, replay_failure, 'a) sr" where
  "on_reader m = (\<lambda>(remaining, c).
     case m remaining of (Inl e, r) \<Rightarrow> (Inl (ReplayError e), (r, c)) | (Inr x, r) \<Rightarrow> (Inr x, (r, c)))"

definition on_core :: "(server_core, replay_failure, 'a) sr \<Rightarrow> (bytes \<times> server_core, replay_failure, 'a) sr" where
  "on_core m = (\<lambda>(remaining, c). case m c of (x, c') \<Rightarrow> (x, (remaining, c')))"

fun replay_commits :: "core_transfer_commit deserializer \<Rightarrow> nat \<Rightarrow> core_revision \<Rightarrow>
    (bytes \<times> server_core, replay_failure, core_revision) sr" where
  "replay_commits de 0 revision = sret revision"
| "replay_commits de (Suc n) revision =
     sbind (on_reader delta_read_u32) (\<lambda>frame_len.
     sbind (on_reader (delta_read_bytes (unat frame_len))) (\<lambda>frame.
     sbind (on_reader (slift (decode_transfer de frame))) (\<lambda>entry.
     if ct_base_revision entry \<noteq> revision \<or> ct_next_revision entry \<noteq> revision_next revision
     then sfail (ReplayError (InvalidState (DeltaNotAdjacent (ct_base_revision entry) (ct_next_revision entry) revision)))
     else
       sbind (on_core (sfor (ct_mutations entry) mutation_replay)) (\<lambda>_.
       replay_commits de n (ct_next_revision entry)))))"

definition replay_delta :: "core_transfer_commit deserializer \<Rightarrow> core_revision \<Rightarrow>
    (bytes \<times> server_core, replay_failure, core_revision) sr" where
  "replay_delta de own_revision =
     sbind (on_reader (delta_read_bytes 8)) (\<lambda>magic.
     if magic \<noteq> CORE_DELTA_MAGIC then sfail (ReplayError (InvalidState DeltaMagicInvalid))
     else
       sbind (on_reader delta_read_u16) (\<lambda>format_major.
       if format_major \<noteq> CORE_TRANSFER_FORMAT_MAJOR then sfail (ReplayError (UnsupportedFormat format_major))
       else
         sbind (on_reader delta_read_u64) (\<lambda>base_revision.
         sbind (on_reader delta_read_u64) (\<lambda>final_revision.
         sbind (on_reader delta_read_u32) (\<lambda>commit_count.
         if unat commit_count > MAX_COMMITS
         then sfail (ReplayError (TransferBudgetExceeded (unat commit_count) MAX_COMMITS))
         else if base_revision \<noteq> own_revision
         then sfail (ReplayError (InvalidState (DeltaBaseMismatch base_revision own_revision)))
         else
           sbind (replay_commits de (unat commit_count) own_revision) (\<lambda>revision.
           sbind (on_reader delta_finish) (\<lambda>_.
           if revision \<noteq> final_revision then sfail (ReplayError (InvalidState (DeltaEndMismatch revision final_revision)))
           else sret revision)))))))"

definition apply_process_transfer_delta :: "core_transfer_commit deserializer \<Rightarrow> core_version \<Rightarrow> bytes \<Rightarrow>
    replay_failure + core_version" where
  "apply_process_transfer_delta de version bs =
     (case delta_reader_new bs of
        Inl e \<Rightarrow> Inl (ReplayError e)
      | Inr remaining \<Rightarrow>
          (case replay_delta de (vr_revision version) (remaining, vr_state version) of
             (Inl e, _) \<Rightarrow> Inl e
           | (Inr revision, (_, state)) \<Rightarrow> Inr \<lparr>vr_revision = revision, vr_state = state\<rparr>))"

section \<open>Full snapshots\<close>

record core_transfer_world =
  xw_config :: core_config
  xw_world_meta :: world_meta
  xw_chunks :: "(chunk_pos, chunk_column) btree_map"
  xw_block_entities :: "(block_pos, block_entity_state) btree_map"
  xw_container_viewers :: "(block_pos, world_container_viewers) btree_map"
  xw_saved_players :: "(player_id, player_snapshot) btree_map"

record core_transfer_entities =
  xe_entity_kinds :: "(entity_id, entity_kind) btree_map"
  xe_players_by_player_id :: "(player_id, entity_id) btree_map"
  xe_player_identity :: "(entity_id, player_identity) btree_map"
  xe_player_transform :: "(entity_id, player_transform) btree_map"
  xe_player_vitals :: "(entity_id, player_vitals) btree_map"
  xe_player_inventory :: "(entity_id, player_inventory) btree_map"
  xe_player_selected_hotbar :: "(entity_id, u8) btree_map"
  xe_player_active_mining :: "(entity_id, active_mining_state) btree_map"
  xe_dropped_items :: "(entity_id, dropped_item_state) btree_map"
  xe_next_entity_id :: int

record core_transfer_sessions =
  xs_player_sessions :: "(player_id, player_session_state) btree_map"
  xs_next_keep_alive_id :: int
  xs_keepalive_interval_ms :: u64
  xs_keepalive_timeout_ms :: u64

record core_transfer_snapshot_v1 =
  tv_format_major :: u16
  tv_revision :: core_revision
  tv_world :: core_transfer_world
  tv_entities :: core_transfer_entities
  tv_sessions :: core_transfer_sessions

definition snapshot_from_version :: "core_version \<Rightarrow> core_transfer_snapshot_v1" where
  "snapshot_from_version v =
     (let w = sc_world (vr_state v); es = sc_entities (vr_state v); ss = sc_sessions (vr_state v) in
      \<lparr>tv_format_major = CORE_TRANSFER_FORMAT_MAJOR, tv_revision = vr_revision v,
       tv_world = \<lparr>xw_config = ws_config w, xw_world_meta = ws_world_meta w, xw_chunks = ws_chunks w,
         xw_block_entities = ws_block_entities w, xw_container_viewers = ws_container_viewers w,
         xw_saved_players = ws_saved_players w\<rparr>,
       tv_entities = \<lparr>xe_entity_kinds = es_entity_kinds es, xe_players_by_player_id = es_players_by_player_id es,
         xe_player_identity = es_player_identity es, xe_player_transform = es_player_transform es,
         xe_player_vitals = es_player_vitals es, xe_player_inventory = es_player_inventory es,
         xe_player_selected_hotbar = es_player_selected_hotbar es, xe_player_active_mining = es_player_active_mining es,
         xe_dropped_items = es_dropped_items es, xe_next_entity_id = es_next_entity_id es\<rparr>,
       tv_sessions = \<lparr>xs_player_sessions = ss_player_sessions ss, xs_next_keep_alive_id = ss_next_keep_alive_id ss,
         xs_keepalive_interval_ms = ss_keepalive_interval_ms ss, xs_keepalive_timeout_ms = ss_keepalive_timeout_ms ss\<rparr>\<rparr>)"

fun check_each :: "('a \<Rightarrow> invalid_state option) \<Rightarrow> 'a list \<Rightarrow> core_transfer_error + unit" where
  "check_each f [] = Inr ()"
| "check_each f (x # xs) = (case f x of Some e \<Rightarrow> Inl (InvalidState e) | None \<Rightarrow> check_each f xs)"

definition check_player :: "core_transfer_snapshot_v1 \<Rightarrow> player_id \<times> entity_id \<Rightarrow> invalid_state option" where
  "check_player s = (\<lambda>(p, e).
     if map_of (xe_entity_kinds (tv_entities s)) e \<noteq> Some PlayerEntity then Some (PlayerWithoutEntity p e)
     else if map_option pid_player_id (map_of (xe_player_identity (tv_entities s)) e) \<noteq> Some p
     then Some (PlayerWithoutIdentity p e)
     else if map_of (xe_player_transform (tv_entities s)) e = None \<or> map_of (xe_player_vitals (tv_entities s)) e = None \<or>
       map_of (xe_player_inventory (tv_entities s)) e = None \<or> map_of (xe_player_selected_hotbar (tv_entities s)) e = None
     then Some (MissingComponent e)
     else if map_option se_entity_id (map_of (xs_player_sessions (tv_sessions s)) p) \<noteq> Some e
     then Some (PlayerWithoutSession p)
     else None)"

definition snapshot_validate :: "core_transfer_snapshot_v1 \<Rightarrow> core_transfer_error + unit" where
  "snapshot_validate s =
     bind_res (check_each (check_player s) (xe_players_by_player_id (tv_entities s))) (\<lambda>_.
     bind_res (check_each (\<lambda>(e, identity).
         if map_of (xe_players_by_player_id (tv_entities s)) (pid_player_id identity) \<noteq> Some e
         then Some (IdentityNotIndexed e) else None) (xe_player_identity (tv_entities s))) (\<lambda>_.
     bind_res (check_each (\<lambda>(p, session).
         if map_of (xe_players_by_player_id (tv_entities s)) p \<noteq> Some (se_entity_id session)
         then Some (SessionNotIndexed p) else None) (xs_player_sessions (tv_sessions s))) (\<lambda>_.
     bind_res (check_each (\<lambda>(e, _).
         if map_of (xe_entity_kinds (tv_entities s)) e \<noteq> Some DroppedItemEntity then Some (ItemWithoutKind e) else None)
       (xe_dropped_items (tv_entities s))) (\<lambda>_.
     if map_of (xe_entity_kinds (tv_entities s)) (xe_next_entity_id (tv_entities s)) \<noteq> None
     then Inl (InvalidState NextEntityIdOccupied) else Inr ()))))"

definition snapshot_into_version :: "content_behavior \<Rightarrow> core_transfer_snapshot_v1 \<Rightarrow> core_transfer_error + core_version" where
  "snapshot_into_version content s =
     (if tv_format_major s \<noteq> CORE_TRANSFER_FORMAT_MAJOR then Inl (UnsupportedFormat (tv_format_major s))
      else
        bind_res (snapshot_validate s) (\<lambda>_.
        let w = tv_world s; es = tv_entities s; ss = tv_sessions s in
        Inr \<lparr>vr_revision = tv_revision s, vr_state = \<lparr>sc_content_behavior = content,
          sc_world = \<lparr>ws_config = xw_config w, ws_world_meta = xw_world_meta w, ws_chunks = xw_chunks w,
            ws_block_entities = xw_block_entities w, ws_container_viewers = xw_container_viewers w,
            ws_saved_players = xw_saved_players w\<rparr>,
          sc_entities = \<lparr>es_entity_kinds = xe_entity_kinds es, es_players_by_player_id = xe_players_by_player_id es,
            es_player_identity = xe_player_identity es, es_player_transform = xe_player_transform es,
            es_player_vitals = xe_player_vitals es, es_player_inventory = xe_player_inventory es,
            es_player_selected_hotbar = xe_player_selected_hotbar es, es_player_active_mining = xe_player_active_mining es,
            es_dropped_items = xe_dropped_items es, es_next_entity_id = xe_next_entity_id es\<rparr>,
          sc_sessions = \<lparr>ss_player_sessions = xs_player_sessions ss, ss_next_keep_alive_id = xs_next_keep_alive_id ss,
            ss_keepalive_interval_ms = xs_keepalive_interval_ms ss,
            ss_keepalive_timeout_ms = xs_keepalive_timeout_ms ss\<rparr>\<rparr>\<rparr>))"

record core_transfer_snapshot =
  tn_revision :: core_revision
  tn_bytes :: bytes

definition prepare_process_transfer :: "(nat \<Rightarrow> bool) \<Rightarrow> core_transfer_snapshot_v1 serializer \<Rightarrow> core_version \<Rightarrow>
    core_transfer_error + core_transfer_snapshot" where
  "prepare_process_transfer reserve ser v =
     bind_res (encode_transfer reserve ser (snapshot_from_version v) MAX_CORE_TRANSFER_BYTES) (\<lambda>bs.
     Inr \<lparr>tn_revision = vr_revision v, tn_bytes = bs\<rparr>)"

definition import_process_transfer :: "core_transfer_snapshot_v1 deserializer \<Rightarrow> bytes \<Rightarrow> content_behavior \<Rightarrow>
    core_transfer_error + core_version" where
  "import_process_transfer de bs content = bind_res (decode_transfer de bs) (snapshot_into_version content)"

end
