(* ===== verification/Core_Store.thy ===== *)
theory Core_Store
  imports Core_Version
begin

text \<open>
  The owner of the published core in the server runtime, crate \<open>revy-server-runtime\<close>: \<open>runtime/core_store.rs\<close>
  and the cutover journal \<open>runtime/core_store/journal.rs\<close>.

  The store publishes one version at a time. A command is prepared against a version without the
  lock (a gameplay plugin runs then) and committed under it, on the version that is active by then. While a
  cutover is prepared the journal retains what was committed: the events, for a reload in the same process, or
  the encoded commits, for another process.

  Each operation that takes the lock is one program on the store; what runs before it is a definition of its own
  on the version it read, so that commits of other tasks may come between. An operation that panics leaves the store as it was.
  Parameters: the plugins (\<open>gameplay_profile_handle\<close>), the storage, the two serializers, the allocator and
  the sizes of two types (\<open>journal_env\<close>). The texts of errors are constructors that carry what the text interpolates.
\<close>

section \<open>Errors\<close>

datatype storage_error = StorageIo string | StorageInvalidData string | StoragePlugin string

datatype config_message =
    ResyncInactive
  | ResyncBaseMismatch core_revision core_revision
  | StaleCoreCommit core_revision core_revision
  | ConfigText string

text \<open>The cases of \<open>RuntimeError\<close> that the store returns.\<close>

datatype runtime_error =
    PluginFatal string string
  | StorageFailed storage_error
  | CutoverEventEncoding string
  | AllocationFailed string nat
  | Config config_message
  | CutoverOutpaced string core_revision core_revision
  | Join core_panic

section \<open>The journal: \<open>journal.rs\<close>\<close>

definition RESYNC_EVENT_LIMIT :: nat where "RESYNC_EVENT_LIMIT = 65536"
definition RESYNC_BYTE_LIMIT :: nat where "RESYNC_BYTE_LIMIT = 32 * 1024 * 1024"
definition PROCESS_ENTRY_BYTE_LIMIT :: nat where "PROCESS_ENTRY_BYTE_LIMIT = 2 * 1024 * 1024"
definition PROCESS_BYTE_LIMIT :: nat where "PROCESS_BYTE_LIMIT = 64 * 1024 * 1024"

record resync_journal =
  rj_base_revision :: core_revision
  rj_events :: "targeted_event list"
  rj_event_bytes :: nat
  rj_outcome :: "runtime_error + unit"

record process_journal =
  pj_floor :: core_revision
  pj_commits :: "encoded_core_transfer_commit list"
  pj_bytes :: nat
  pj_failure :: "core_transfer_error option"

datatype core_journal =
    Inactive
  | Resync resync_journal
  | Process process_journal
  | StoppedResync "targeted_event list"
  | StoppedProcess "encoded_core_transfer_commit list"

datatype process_delta_seal = SealReady core_transfer_delta_descriptor | SealOutpaced core_revision

text \<open>What the journal uses of its environment: the JSON serializer of events and the CBOR serializer of commits,
  whether an allocation of so many bytes or elements succeeds, and the sizes of the elements.\<close>

record journal_env =
  je_event_serializer :: "core_event serializer"
  je_commit_serializer :: "core_transfer_commit serializer"
  je_reserve_bytes :: "nat \<Rightarrow> bool"
  je_reserve_events :: "nat \<Rightarrow> bool"
  je_reserve_commits :: "nat \<Rightarrow> bool"
  je_event_size :: nat
  je_commit_size :: nat

definition journal_resync :: "core_revision \<Rightarrow> core_journal" where
  "journal_resync base_revision =
     Resync \<lparr>rj_base_revision = base_revision, rj_events = [], rj_event_bytes = 0, rj_outcome = Inr ()\<rparr>"

definition journal_process :: "core_revision \<Rightarrow> core_journal" where
  "journal_process base_revision =
     Process \<lparr>pj_floor = base_revision, pj_commits = [], pj_bytes = 0, pj_failure = None\<rparr>"

text \<open>The size of the encoded events, with the writer that only counts.\<close>

definition encoded_event_size :: "bytes list \<Rightarrow> nat \<Rightarrow> nat" where
  "encoded_event_size chunks counted = fold (\<lambda>chunk counted. usize_saturating_add counted (length chunk)) chunks counted"

fun count_event_bytes :: "core_event serializer \<Rightarrow> runtime_error \<Rightarrow> targeted_event list \<Rightarrow> nat \<Rightarrow> runtime_error + nat" where
  "count_event_bytes ser outpaced [] counted = Inr counted"
| "count_event_bytes ser outpaced (event # events) counted =
     (case ser (snd event) of
        (_, Some msg) \<Rightarrow> Inl (CutoverEventEncoding msg)
      | (chunks, None) \<Rightarrow>
          (let counted = encoded_event_size chunks counted in
           if counted > RESYNC_BYTE_LIMIT then Inl outpaced
           else count_event_bytes ser outpaced events counted))"

definition resync_retain :: "journal_env \<Rightarrow> core_revision \<Rightarrow> targeted_event list \<Rightarrow> (resync_journal, runtime_error, unit) sr" where
  "resync_retain env revision events j =
     (if events = [] then (Inr (), j)
      else
        let outpaced = CutoverOutpaced ''core resync events'' (rj_base_revision j) revision in
        if length events > RESYNC_EVENT_LIMIT - length (rj_events j) then (Inl outpaced, j)
        else
          case count_event_bytes (je_event_serializer env) outpaced events (rj_event_bytes j) of
            Inl e \<Rightarrow> (Inl e, j)
          | Inr counted \<Rightarrow>
              if \<not> je_reserve_events env (length events)
              then (Inl (AllocationFailed ''core resync events'' ((length (rj_events j) + length events) * je_event_size env)), j)
              else (Inr (), j\<lparr>rj_events := rj_events j @ events, rj_event_bytes := counted\<rparr>))"

text \<open>The loop that makes room for a commit of so many bytes. It spins when there is nothing left to drop.\<close>

partial_function (option) expire_commits :: "nat \<Rightarrow> process_journal \<Rightarrow> process_journal option" where
  [code]: "expire_commits bytes j =
     (if length (pj_commits j) = MAX_COMMITS \<or> bytes > PROCESS_BYTE_LIMIT - pj_bytes j
      then
        (case pj_commits j of
           [] \<Rightarrow> expire_commits bytes j
         | expired # rest \<Rightarrow>
             expire_commits bytes (j\<lparr>pj_commits := rest, pj_bytes := pj_bytes j - length (en_bytes expired),
               pj_floor := en_next_revision expired\<rparr>))
      else Some j)"

definition process_retain :: "journal_env \<Rightarrow> core_transfer_commit \<Rightarrow> process_journal \<Rightarrow>
    ((core_transfer_error + unit) \<times> process_journal) option" where
  "process_retain env transfer j =
     (case commit_encode (je_reserve_bytes env) (je_commit_serializer env) transfer PROCESS_ENTRY_BYTE_LIMIT of
        Inl (TransferBudgetExceeded _ _) \<Rightarrow>
          Some (Inr (), j\<lparr>pj_commits := [], pj_bytes := 0, pj_floor := ct_next_revision transfer\<rparr>)
      | Inl e \<Rightarrow> Some (Inl e, j)
      | Inr encoded \<Rightarrow>
          map_option (\<lambda>j.
            if \<not> je_reserve_commits env 1
            then (Inl (Allocation ((length (pj_commits j) + 1) * je_commit_size env)), j)
            else (Inr (), j\<lparr>pj_bytes := pj_bytes j + length (en_bytes encoded), pj_commits := pj_commits j @ [encoded]\<rparr>))
          (expire_commits (length (en_bytes encoded)) j))"

fun journal_record :: "journal_env \<Rightarrow> core_revision \<Rightarrow> targeted_event list \<Rightarrow> core_transfer_commit \<Rightarrow> core_journal \<Rightarrow>
    core_journal option" where
  "journal_record env revision events transfer (Resync j) =
     Some (Resync (case rj_outcome j of
        Inl _ \<Rightarrow> j
      | Inr _ \<Rightarrow> (case resync_retain env revision events j of (outcome, j') \<Rightarrow> j'\<lparr>rj_outcome := outcome\<rparr>)))"
| "journal_record env revision events transfer (Process j) =
     (if pj_failure j \<noteq> None then Some (Process j)
      else map_option (\<lambda>(r, j'). Process (case r of Inl e \<Rightarrow> j'\<lparr>pj_failure := Some e\<rparr> | Inr _ \<Rightarrow> j'))
        (process_retain env transfer j))"
| "journal_record env revision events transfer Inactive = Some Inactive"
| "journal_record env revision events transfer (StoppedResync _) = Some Inactive"
| "journal_record env revision events transfer (StoppedProcess _) = Some Inactive"

fun seal_resync :: "core_revision \<Rightarrow> core_journal \<Rightarrow> (runtime_error + targeted_event list) \<times> core_journal" where
  "seal_resync revision (Resync j) =
     (if revision \<noteq> rj_base_revision j
      then (Inl (Config (ResyncBaseMismatch revision (rj_base_revision j))), StoppedResync (rj_events j))
      else case rj_outcome j of
        Inr _ \<Rightarrow> (Inr (rj_events j), Inactive)
      | Inl e \<Rightarrow> (Inl e, StoppedResync (rj_events j)))"
| "seal_resync revision j = (Inl (Config ResyncInactive), j)"

fun write_process_delta :: "core_journal \<Rightarrow> core_revision \<Rightarrow> 'w writer \<Rightarrow> ('w, core_transfer_error, process_delta_seal) sr" where
  "write_process_delta (Process j) revision wr =
     (case pj_failure j of
        Some e \<Rightarrow> sfail e
      | None \<Rightarrow>
          if revision < pj_floor j then sret (SealOutpaced (pj_floor j))
          else smap_result SealReady
            (seal_preencoded_into revision (filter (\<lambda>entry. en_next_revision entry > revision) (pj_commits j)) wr))"
| "write_process_delta _ revision wr = sfail (InvalidState ProcessRetentionInactive)"

fun journal_stop :: "core_journal \<Rightarrow> core_journal" where
  "journal_stop (Resync j) = StoppedResync (rj_events j)"
| "journal_stop (Process j) = StoppedProcess (pj_commits j)"
| "journal_stop stopped = stopped"

section \<open>The store: \<open>core_store.rs\<close>\<close>

definition CORE_PROCESS_DELTA_FRAMING_BYTES :: nat where
  "CORE_PROCESS_DELTA_FRAMING_BYTES = MAX_COMMITS * 4 + 8 + 2 + 8 * 2 + 4"

definition CORE_PROCESS_PRESTAGE_BYTES :: nat where
  "CORE_PROCESS_PRESTAGE_BYTES = PROCESS_BYTE_LIMIT + CORE_PROCESS_DELTA_FRAMING_BYTES"

definition CORE_PROCESS_DELTA_SLOT_BYTES :: nat where
  "CORE_PROCESS_DELTA_SLOT_BYTES = 8 * 1024 * 1024 + CORE_PROCESS_DELTA_FRAMING_BYTES"

record core_store_state =
  st_persisted_revision :: core_revision
  st_latest_dirty_revision :: "core_revision option"
  st_journal :: core_journal

record core_store =
  cs_world_dir :: string
  cs_active :: core_version
  cs_state :: core_store_state

text \<open>An operation returns, fails with an error, panics, or does not return because the journal's loop spins.\<close>

datatype store_failure = StoreError runtime_error | StorePanic core_panic | StoreSpins

type_synonym 'a store_prog = "(core_store, store_failure, 'a) sr"

abbreviation upd_state :: "(core_store_state \<Rightarrow> core_store_state) \<Rightarrow> core_store \<Rightarrow> core_store" where
  "upd_state \<equiv> cs_state_update"

record core_precopy =
  py_version :: core_version
  py_persisted_revision :: core_revision
  py_latest_dirty_revision :: "core_revision option"

record core_candidate_plan =
  cp_base_revision :: core_revision
  cp_config :: "core_config option"
  cp_world_dir :: string

record core_delta_seal =
  dl_precopy :: core_precopy
  dl_events :: "targeted_event list"

datatype core_process_delta_seal =
    DeltaReady core_transfer_delta_descriptor core_revision "core_revision option"
  | DeltaOutpaced core_revision core_revision

definition store_from_handoff :: "core_version \<Rightarrow> string \<Rightarrow> core_revision \<Rightarrow> core_revision option \<Rightarrow> core_store" where
  "store_from_handoff version world_dir persisted_revision latest_dirty_revision =
     \<lparr>cs_world_dir = world_dir, cs_active = version,
      cs_state = \<lparr>st_persisted_revision = persisted_revision, st_latest_dirty_revision = latest_dirty_revision,
        st_journal = Inactive\<rparr>\<rparr>"

definition store_new :: "server_core \<Rightarrow> string \<Rightarrow> core_store" where
  "store_new core world_dir =
     (let active = version_initial core in
      \<lparr>cs_world_dir = world_dir, cs_active = active,
       cs_state = \<lparr>st_persisted_revision = vr_revision active, st_latest_dirty_revision = None, st_journal = Inactive\<rparr>\<rparr>)"

definition store_precopy :: "core_store \<Rightarrow> core_precopy" where
  "store_precopy s = \<lparr>py_version = cs_active s, py_persisted_revision = st_persisted_revision (cs_state s),
     py_latest_dirty_revision = st_latest_dirty_revision (cs_state s)\<rparr>"

definition process_precopy :: "core_store \<Rightarrow> core_precopy \<times> core_store" where
  "process_precopy s =
     (store_precopy s, upd_state (st_journal_update (\<lambda>_. journal_process (vr_revision (cs_active s)))) s)"

text \<open>The candidate of a reload: the version, reconfigured where the configuration changed.\<close>

definition materialize :: "core_candidate_plan \<Rightarrow> core_precopy \<Rightarrow> core_store" where
  "materialize plan precopy =
     (let active = (case cp_config plan of
          Some config \<Rightarrow>
            fst (into_parts (mutation_prepare [] True (snd (mutation_reconfigure config (mutation_from_version (py_version precopy))))))
        | None \<Rightarrow> py_version precopy);
        latest_dirty_revision = (if cp_config plan \<noteq> None then Some (vr_revision active) else py_latest_dirty_revision precopy)
      in store_from_handoff active (cp_world_dir plan) (py_persisted_revision precopy) latest_dirty_revision)"

definition plan_candidate :: "core_config option \<Rightarrow> core_store \<Rightarrow> (core_candidate_plan \<times> core_store) \<times> core_store" where
  "plan_candidate config s =
     (let precopy = store_precopy s;
        plan = \<lparr>cp_base_revision = vr_revision (py_version precopy), cp_config = config, cp_world_dir = cs_world_dir s\<rparr>
      in ((plan, materialize plan precopy), upd_state (st_journal_update (\<lambda>_. journal_resync (vr_revision (cs_active s)))) s))"

definition seal_delta_since :: "core_revision \<Rightarrow> (core_store, runtime_error, core_delta_seal) sr" where
  "seal_delta_since revision s =
     (case seal_resync revision (st_journal (cs_state s)) of
        (Inl e, j) \<Rightarrow> (Inl e, upd_state (st_journal_update (\<lambda>_. j)) s)
      | (Inr events, j) \<Rightarrow>
          (let s = upd_state (st_journal_update (\<lambda>_. j)) s in (Inr \<lparr>dl_precopy = store_precopy s, dl_events = events\<rparr>, s)))"

text \<open>The store is read only; the writer is the state.\<close>

definition write_process_delta_since :: "core_store \<Rightarrow> core_revision \<Rightarrow> 'w writer \<Rightarrow>
    ('w, core_transfer_error, core_process_delta_seal) sr" where
  "write_process_delta_since s revision wr =
     (if revision > vr_revision (cs_active s)
      then sfail (InvalidState (DeltaBaseAhead revision (vr_revision (cs_active s))))
      else smap_result (\<lambda>seal. case seal of
          SealReady descriptor \<Rightarrow> DeltaReady descriptor (st_persisted_revision (cs_state s)) (st_latest_dirty_revision (cs_state s))
        | SealOutpaced earliest \<Rightarrow> DeltaOutpaced revision earliest)
        (write_process_delta (st_journal (cs_state s)) revision wr))"

definition end_precopy :: "core_store \<Rightarrow> core_store" where
  "end_precopy = upd_state (st_journal_update journal_stop)"

text \<open>Publication. The check of the base is the code's; under the lock it never fails.\<close>

definition commit_locked :: "journal_env \<Rightarrow> prepared_core_commit \<Rightarrow> targeted_event list store_prog" where
  "commit_locked env prepared s =
     (let active_revision = vr_revision (cs_active s) in
      if active_revision \<noteq> pc_base_revision prepared
      then (Inl (StoreError (Config (StaleCoreCommit (pc_base_revision prepared) active_revision))), s)
      else
        case into_parts prepared of (next_version, events, requires_persistence, transfer) \<Rightarrow>
          (let st = cs_state s;
             st = (if requires_persistence then st\<lparr>st_latest_dirty_revision := Some (vr_revision next_version)\<rparr> else st)
           in case (if vr_revision next_version > active_revision
                    then journal_record env (vr_revision next_version) events transfer (st_journal st)
                    else Some (st_journal st)) of
             None \<Rightarrow> (Inl StoreSpins, s)
           | Some j \<Rightarrow> (Inr events, s\<lparr>cs_state := st\<lparr>st_journal := j\<rparr>, cs_active := next_version\<rparr>)))"

section \<open>Commands\<close>

text \<open>What a gameplay plugin may read while it prepares: a published version, or a login that has begun.\<close>

datatype read_view = VersionReadView core_version | LoginPreviewReadView gameplay_transaction

definition on_view :: "(server_core, 'a) core_prog \<Rightarrow> (gameplay_transaction, 'a) core_prog \<Rightarrow> (read_view, 'a) core_prog" where
  "on_view m n view = (case view of
       VersionReadView v \<Rightarrow> (fst (m (vr_state v)), view)
     | LoginPreviewReadView tx \<Rightarrow> (case n tx of (r, tx') \<Rightarrow> (r, LoginPreviewReadView tx')))"

definition view_world_meta :: "(read_view, world_meta) core_prog" where
  "view_world_meta = on_view (b_world_meta base_backend) tx_world_meta"

definition view_player_snapshot :: "player_id \<Rightarrow> (read_view, player_snapshot option) core_prog" where
  "view_player_snapshot p = on_view (compose_player_snapshot base_backend p) (tx_player_snapshot p)"

definition view_block_state :: "block_pos \<Rightarrow> (read_view, block_state option) core_prog" where
  "view_block_state position = on_view (b_block_state base_backend position) (tx_block_state position)"

definition view_block_entity :: "block_pos \<Rightarrow> (read_view, block_entity_state option) core_prog" where
  "view_block_entity position = on_view (b_block_entity base_backend position) (tx_block_entity position)"

definition view_can_edit_block :: "player_id \<Rightarrow> block_pos \<Rightarrow> (read_view, bool) core_prog" where
  "view_can_edit_block p position = on_view (can_edit_block base_backend p position) (tx_can_edit_block p position)"

text \<open>A gameplay plugin, with the capabilities of a session passed through.\<close>

record 'cap gameplay_profile_handle =
  gh_prepare_player_join :: "read_view \<Rightarrow> 'cap \<Rightarrow> player_id \<Rightarrow> u64 \<Rightarrow> string + gameplay_effect_batch"
  gh_prepare_command :: "read_view \<Rightarrow> 'cap \<Rightarrow> gameplay_command \<Rightarrow> u64 \<Rightarrow> string + gameplay_effect_batch"
  gh_prepare_tick :: "read_view \<Rightarrow> 'cap \<Rightarrow> player_id \<Rightarrow> u64 \<Rightarrow> string + gameplay_effect_batch"

datatype 'cap core_invocation =
    Internal
  | Login 'cap "'cap gameplay_profile_handle"
  | Play player_id 'cap "'cap gameplay_profile_handle"

datatype core_command_outcome =
    Events "targeted_event list"
  | StaleGameplayCommand player_id
  | StaleLogin connection_id

fun gameplay_player_id :: "gameplay_command \<Rightarrow> player_id" where
  "gameplay_player_id (MoveIntent p _ _ _ _) = p"
| "gameplay_player_id (SetHeldSlot p _) = p"
| "gameplay_player_id (CreativeInventorySet p _ _) = p"
| "gameplay_player_id (DigBlock p _ _ _) = p"
| "gameplay_player_id (PlaceBlock p _ _ _ _) = p"
| "gameplay_player_id (UseBlock p _ _ _ _) = p"

fun command_requires_persistence :: "core_command \<Rightarrow> bool" where
  "command_requires_persistence (LoginStart _ _ _) = True"
| "command_requires_persistence (Gameplay _) = True"
| "command_requires_persistence (InventoryClickCommand _ _ _ _ _) = True"
| "command_requires_persistence (CloseContainerCommand _ _) = True"
| "command_requires_persistence (DisconnectCommand _) = True"
| "command_requires_persistence _ = False"

text \<open>\<open>GameplayLoginPreview::new\<close>: a rejection, or the transaction in which the login has begun. The code's third
  case, an invalid login, is never produced.\<close>

definition login_preview :: "core_version \<Rightarrow> connection_id \<Rightarrow> string \<Rightarrow> player_id \<Rightarrow> u64 \<Rightarrow>
    core_panic + (targeted_event list + gameplay_transaction)" where
  "login_preview version connection_id username p now_ms =
     (case begin_login connection_id username p (transaction_new (vr_state version) now_ms) of
        (Inl e, _) \<Rightarrow> Inl e
      | (Inr (Some events), _) \<Rightarrow> Inr (Inl events)
      | (Inr None, tx) \<Rightarrow> Inr (Inr tx))"

text \<open>The part of \<open>apply_command\<close> before the lock: what it is to do under the lock, or its outcome already.\<close>

datatype prepared_command =
    PreparedOutcome core_command_outcome
  | PreparedLogin connection_id string player_id gameplay_effect_batch
  | PreparedGameplay player_id gameplay_effect_batch
  | PreparedDirect core_command

fun prepare_command :: "core_version \<Rightarrow> core_command \<Rightarrow> 'cap core_invocation \<Rightarrow> u64 \<Rightarrow> store_failure + prepared_command" where
  "prepare_command version (LoginStart connection_id username p) (Login capabilities gameplay) now_ms =
     (case login_preview version connection_id username p now_ms of
        Inl e \<Rightarrow> Inl (StorePanic e)
      | Inr (Inl events) \<Rightarrow> Inr (PreparedOutcome (Events events))
      | Inr (Inr tx) \<Rightarrow>
          (case gh_prepare_player_join gameplay (LoginPreviewReadView tx) capabilities p now_ms of
             Inl msg \<Rightarrow> Inl (StoreError (Config (ConfigText msg)))
           | Inr batch \<Rightarrow> Inr (PreparedLogin connection_id username p batch)))"
| "prepare_command version (Gameplay gameplay_command) (Play p capabilities gameplay) now_ms =
     (if gameplay_player_id gameplay_command \<noteq> p then Inr (PreparedOutcome (StaleGameplayCommand p))
      else case gh_prepare_command gameplay (VersionReadView version) capabilities gameplay_command now_ms of
        Inl msg \<Rightarrow> Inl (StoreError (Config (ConfigText msg)))
      | Inr batch \<Rightarrow> Inr (PreparedGameplay p batch))"
| "prepare_command version command invocation now_ms = Inr (PreparedDirect command)"

text \<open>A mutation of the active version.\<close>

definition mutate :: "(core_mutation, 'a) core_prog \<Rightarrow> ('a \<times> core_mutation) store_prog" where
  "mutate m s = (case m (mutation_from_version (cs_active s)) of
       (Inl e, _) \<Rightarrow> (Inl (StorePanic e), s)
     | (Inr x, cm) \<Rightarrow> (Inr (x, cm), s))"

text \<open>The part under the lock.\<close>

fun commit_command :: "journal_env \<Rightarrow> bool \<Rightarrow> u64 \<Rightarrow> prepared_command \<Rightarrow> core_command_outcome store_prog" where
  "commit_command env requires_persistence now_ms (PreparedOutcome outcome) = sret outcome"
| "commit_command env requires_persistence now_ms (PreparedLogin connection_id username p batch) =
     sbind (mutate (mutation_apply_login_effects connection_id username p batch)) (\<lambda>(result, cm).
     case result of
       EffectApplied events \<Rightarrow> smap_result Events (commit_locked env (mutation_prepare events requires_persistence cm))
     | EffectConflict \<Rightarrow> sret (StaleLogin connection_id))"
| "commit_command env requires_persistence now_ms (PreparedGameplay p batch) =
     sbind (mutate (mutation_apply_gameplay_effects batch)) (\<lambda>(result, cm).
     case result of
       EffectApplied events \<Rightarrow> smap_result Events (commit_locked env (mutation_prepare events requires_persistence cm))
     | EffectConflict \<Rightarrow> sret (StaleGameplayCommand p))"
| "commit_command env requires_persistence now_ms (PreparedDirect command) =
     sbind (mutate (mutation_apply_command command now_ms)) (\<lambda>(events, cm).
     smap_result Events (commit_locked env (mutation_prepare events requires_persistence cm)))"

text \<open>The whole operation, when nothing is committed in between.\<close>

definition store_apply_command :: "journal_env \<Rightarrow> core_command \<Rightarrow> 'cap core_invocation \<Rightarrow> u64 \<Rightarrow> core_command_outcome store_prog" where
  "store_apply_command env command invocation now_ms =
     sbind (sget cs_active) (\<lambda>version.
     sbind (slift (prepare_command version command invocation now_ms)) (\<lambda>prepared.
     commit_command env (command_requires_persistence command) now_ms prepared))"

definition apply_builtin_tick :: "journal_env \<Rightarrow> u64 \<Rightarrow> targeted_event list store_prog" where
  "apply_builtin_tick env now_ms =
     sbind (mutate (mutation_tick now_ms)) (\<lambda>(events, cm).
     commit_locked env (mutation_prepare events False cm))"

record prepared_gameplay_tick =
  pt_player_id :: player_id
  pt_source_revision :: core_revision
  pt_batch :: gameplay_effect_batch

record stale_gameplay_tick =
  sg_player_id :: player_id
  sg_source_revision :: core_revision
  sg_active_revision :: core_revision

definition prepare_gameplay_tick :: "core_version \<Rightarrow> player_id \<Rightarrow> 'cap \<Rightarrow> 'cap gameplay_profile_handle \<Rightarrow> u64 \<Rightarrow>
    runtime_error + prepared_gameplay_tick" where
  "prepare_gameplay_tick snapshot p capabilities gameplay now_ms =
     (case gh_prepare_tick gameplay (VersionReadView snapshot) capabilities p now_ms of
        Inl msg \<Rightarrow> Inl (Config (ConfigText msg))
      | Inr batch \<Rightarrow> Inr \<lparr>pt_player_id = p, pt_source_revision = vr_revision snapshot, pt_batch = batch\<rparr>)"

text \<open>The batches of one tick, one after the other on the same mutation.\<close>

fun apply_ticks :: "core_revision \<Rightarrow> prepared_gameplay_tick list \<Rightarrow>
    (core_mutation, targeted_event list \<times> stale_gameplay_tick list) core_prog" where
  "apply_ticks active_revision [] = sret ([], [])"
| "apply_ticks active_revision (prepared # ticks) =
     sbind (mutation_apply_gameplay_effects (pt_batch prepared)) (\<lambda>result.
     sbind (apply_ticks active_revision ticks) (\<lambda>(events, stale).
     sret (case result of
         EffectApplied batch_events \<Rightarrow> (batch_events @ events, stale)
       | EffectConflict \<Rightarrow> (events, \<lparr>sg_player_id = pt_player_id prepared, sg_source_revision = pt_source_revision prepared,
           sg_active_revision = active_revision\<rparr> # stale))))"

definition commit_gameplay_ticks :: "journal_env \<Rightarrow> prepared_gameplay_tick list \<Rightarrow>
    (targeted_event list \<times> stale_gameplay_tick list) store_prog" where
  "commit_gameplay_ticks env prepared_ticks =
     (if prepared_ticks = [] then sret ([], [])
      else
        sbind (sget (\<lambda>s. vr_revision (cs_active s))) (\<lambda>active_revision.
        sbind (mutate (apply_ticks active_revision prepared_ticks)) (\<lambda>((events, stale), cm).
        sbind (commit_locked env (mutation_prepare events False cm)) (\<lambda>events.
        sret (events, stale)))))"

section \<open>Persistence\<close>

definition store_dirty :: "core_store \<Rightarrow> bool" where
  "store_dirty s = (case st_latest_dirty_revision (cs_state s) of
       None \<Rightarrow> False
     | Some revision \<Rightarrow> revision > st_persisted_revision (cs_state s))"

text \<open>\<open>maybe_save\<close> takes the lock twice: to see whether there is anything to save and which version, and to record
  that it was saved. In between the storage writes the snapshot, on another thread.\<close>

definition save_begin :: "core_store \<Rightarrow> core_version option" where
  "save_begin s = (if store_dirty s then Some (cs_active s) else None)"

definition save_task :: "(string \<Rightarrow> world_snapshot \<Rightarrow> storage_error + unit) \<Rightarrow> string \<Rightarrow> core_version \<Rightarrow>
    core_panic + (storage_error + unit)" where
  "save_task save_snapshot world_dir version =
     (case core_snapshot (vr_state version) of
        (Inl e, _) \<Rightarrow> Inl e
      | (Inr snapshot, _) \<Rightarrow> Inr (save_snapshot world_dir snapshot))"

datatype plugin_failure_action = Quarantine | Skip | FailFast

definition save_finish :: "(string \<Rightarrow> plugin_failure_action) option \<Rightarrow> string \<Rightarrow> core_revision \<Rightarrow>
    core_panic + (storage_error + unit) \<Rightarrow> (core_store, runtime_error, unit) sr" where
  "save_finish reload_host plugin_id saved_revision outcome s =
     (case outcome of
        Inl e \<Rightarrow> (Inl (Join e), s)
      | Inr (Inr _) \<Rightarrow>
          (Inr (), if saved_revision > st_persisted_revision (cs_state s)
                   then upd_state (st_persisted_revision_update (\<lambda>_. saved_revision)) s else s)
      | Inr (Inl (StoragePlugin msg)) \<Rightarrow>
          (case (case reload_host of None \<Rightarrow> FailFast | Some handle_runtime_failure \<Rightarrow> handle_runtime_failure msg) of
             Skip \<Rightarrow> (Inr (), s)
           | FailFast \<Rightarrow> (Inl (PluginFatal plugin_id msg), s)
           | Quarantine \<Rightarrow> (Inl (StorageFailed (StoragePlugin msg)), s))
      | Inr (Inl e) \<Rightarrow> (Inl (StorageFailed e), s))"

end
