(* ===== verification/Core_Laws.thy ===== *)
theory Core_Laws
  imports Core_Ops Canonical_Behavior
begin

text \<open>
  What the operations of the core promise: blocks are independent cells of the world, players whose
  login is not finished stay hidden from the other clients, and the tick schedules mining stages and
  keep-alives as its rules say.
\<close>

section \<open>Blocks\<close>

text \<open>A core whose chunks, stored or generated, are well formed.\<close>

definition world_ok :: "server_core \<Rightarrow> bool" where
  "world_ok c \<longleftrightarrow> bt_ok (ws_chunks (sc_world c)) \<and>
     (\<forall>pos chunk. map_of (ws_chunks (sc_world c)) pos = Some chunk \<longrightarrow> column_ok chunk) \<and>
     (\<forall>pos. column_ok (generated_chunk c pos))"

lemma local_block_less: "local_block_x p < 16" "local_block_z p < 16"
  by (simp_all add: local_block_x_def local_block_z_def CHUNK_WIDTH_def word_less_nat_alt unat_eq_nat_uint uint_word_of_int)

lemma same_block:
  "block_chunk_pos q = block_chunk_pos p \<and> local_block_x q = local_block_x p \<and> bp_y q = bp_y p \<and>
   local_block_z q = local_block_z p \<longleftrightarrow> q = (p :: block_pos)"
proof
  have word_mod: "word_of_int (m mod 16) = (word_of_int (n mod 16) :: u8) \<Longrightarrow> m mod 16 = n mod 16" for m n :: int
    by (drule arg_cong [of _ _ uint]) (simp add: uint_word_of_int)
  assume *: "block_chunk_pos q = block_chunk_pos p \<and> local_block_x q = local_block_x p \<and> bp_y q = bp_y p \<and>
    local_block_z q = local_block_z p"
  then have "bp_x q div 16 = bp_x p div 16" "bp_x q mod 16 = bp_x p mod 16"
    "bp_z q div 16 = bp_z p div 16" "bp_z q mod 16 = bp_z p mod 16"
    by (auto simp: block_chunk_pos_def local_block_x_def local_block_z_def CHUNK_WIDTH_def dest: word_mod)
  then have "bp_x q = bp_x p" "bp_z q = bp_z p" by presburger+
  with * show "q = p" by (cases q; cases p) simp
qed simp

lemma ensure_chunk_cases:
  "base_ensure_chunk pos c =
    (case map_of (ws_chunks (sc_world c)) pos of
       Some chunk \<Rightarrow> (Inr chunk, c)
     | None \<Rightarrow> (Inr (generated_chunk c pos), upd_world (ws_chunks_update (bt_insert pos (generated_chunk c pos))) c))"
  if "bt_ok (ws_chunks (sc_world c))"
  using that by (simp add: base_ensure_chunk_def split: option.split)

lemma set_block_chunks:
  fixes p :: block_pos
  assumes "bt_ok (ws_chunks (sc_world c))"
  defines "pos \<equiv> block_chunk_pos p"
  defines "chunk \<equiv> (case map_of (ws_chunks (sc_world c)) pos of Some chunk \<Rightarrow> chunk | None \<Rightarrow> generated_chunk c pos)"
  shows "\<exists>c'. set_block_at p st c = (Inr (), c') \<and> sc_content_behavior c' = sc_content_behavior c \<and>
    ws_world_meta (sc_world c') = ws_world_meta (sc_world c) \<and> bt_ok (ws_chunks (sc_world c')) \<and>
    map_of (ws_chunks (sc_world c')) =
      (map_of (ws_chunks (sc_world c)))(pos \<mapsto> column_set_block (local_block_x p) (bp_y p) (local_block_z p) st chunk)"
  using assms(1) unfolding set_block_at_def pos_def chunk_def
  by (cases "map_of (ws_chunks (sc_world c)) (block_chunk_pos p)") (simp_all add: sr_defs ensure_chunk_cases)

lemma set_block_read:
  assumes "world_ok c"
  shows "\<exists>c'. set_block_at p st c = (Inr (), c') \<and> world_ok c' \<and> (\<forall>q. block_at c' q = (if q = p then st else block_at c q))"
proof -
  let ?pos = "block_chunk_pos p"
  let ?chunk = "case map_of (ws_chunks (sc_world c)) ?pos of Some chunk \<Rightarrow> chunk | None \<Rightarrow> generated_chunk c ?pos"
  obtain c' where run: "set_block_at p st c = (Inr (), c')"
    and same: "sc_content_behavior c' = sc_content_behavior c" "ws_world_meta (sc_world c') = ws_world_meta (sc_world c)"
    and ok': "bt_ok (ws_chunks (sc_world c'))" and chunks: "map_of (ws_chunks (sc_world c')) =
      (map_of (ws_chunks (sc_world c)))(?pos \<mapsto> column_set_block (local_block_x p) (bp_y p) (local_block_z p) st ?chunk)"
    using set_block_chunks [of c p st] assms by (auto simp: world_ok_def)
  have gen: "generated_chunk c' = generated_chunk c" by (simp add: fun_eq_iff generated_chunk_def same)
  have col: "column_ok ?chunk" using assms by (auto simp: world_ok_def split: option.split)
  have put: "column_get_block (column_set_block (local_block_x p) (bp_y p) (local_block_z p) st ?chunk)
      (local_block_x q) (bp_y q) (local_block_z q) =
    (if (local_block_x q, bp_y q, local_block_z q) = (local_block_x p, bp_y p, local_block_z p) then st
     else column_get_block ?chunk (local_block_x q) (bp_y q) (local_block_z q))" for q
    by (rule column_get_set [OF col local_block_less local_block_less])
  have "block_at c' q = (if q = p then st else block_at c q)" for q
    using put [of q] same_block [of q p]
    by (cases "block_chunk_pos q = ?pos") (auto simp: block_at_def chunks gen chunk_block_at_def split: option.split)
  moreover have "world_ok c'"
    using assms ok' column_ok_set_block [OF col] by (auto simp: world_ok_def chunks gen)
  ultimately show ?thesis using run by blast
qed

text \<open>C38: the world is a map from block positions to blocks. Setting or clearing a block through the core, in a chunk
  that is stored or still to be generated, never fails; it is read back at that position and changes
  no other block.\<close>

theorem world_blocks_independent:
  assumes "world_ok c"
  shows "\<exists>c'. set_block_at p st c = (Inr (), c') \<and> world_ok c' \<and> (\<forall>q. block_at c' q = (if q = p then st else block_at c q))"
  by (rule set_block_read [OF assms])

text \<open>The canonical content generates well-formed chunks.\<close>

lemma default_column_blocks_ok: "column_ok c \<Longrightarrow> column_ok (default_column_blocks x z c)"
  unfolding default_column_blocks_def by (simp add: column_ok_set_block)

lemma column_ok_fold:
  "(\<And>x col. column_ok col \<Longrightarrow> column_ok (f x col)) \<Longrightarrow> column_ok col \<Longrightarrow> column_ok (fold f xs col)"
  by (induction xs arbitrary: col) auto

lemma default_chunk_ok: "column_ok (default_chunk pos)"
proof -
  have "column_ok (column_new pos)" by (simp add: column_ok_def column_new_def)
  then show ?thesis unfolding default_chunk_def by (intro column_ok_fold default_column_blocks_ok)
qed

lemma new_world_ok: "world_ok (server_core_new config canonical_content)"
  by (simp add: world_ok_def server_core_new_def generated_chunk_def canonical_content_def default_chunk_ok)

definition sample_config :: core_config where
  "sample_config = \<lparr>cfg_level_name = ''world'', cfg_seed = 0, cfg_max_players = 20, cfg_view_distance = 2, cfg_game_mode = 0,
     cfg_difficulty = 1, cfg_spawn = \<lparr>bp_x = 0, bp_y = 4, bp_z = 0\<rparr>\<rparr>"

theorem world_blocks_independent_witness:
  "\<exists>c'. set_block_at \<lparr>bp_x = - 1, bp_y = 3, bp_z = 5\<rparr> None (server_core_new sample_config canonical_content) = (Inr (), c') \<and>
     block_at c' \<lparr>bp_x = - 1, bp_y = 3, bp_z = 5\<rparr> = None"
  using world_blocks_independent [OF new_world_ok] by fastforce

section \<open>Hidden players\<close>

text \<open>The events that name an entity to a client.\<close>

fun names_entity :: "entity_id \<Rightarrow> core_event \<Rightarrow> bool" where
  "names_entity e (EntityMoved e' _) = (e' = e)"
| "names_entity e (EntitySpawned e' _) = (e' = e)"
| "names_entity e (BlockBreakingProgress e' _ _ _) = (e' = e)"
| "names_entity e (EntityDespawned ids) = (e \<in> set ids)"
| "names_entity e _ = False"

definition reveals :: "player_id \<Rightarrow> entity_id \<Rightarrow> targeted_event \<Rightarrow> bool" where
  "reveals p e ev \<longleftrightarrow> fst ev = ToPlayer p \<or> fst ev = EveryoneExcept p \<or> names_entity e (snd ev)"

lemma sanitized_shows_nothing:
  assumes "sanitize_hidden_event hidden entities ev = Some ev'" and "p \<in> hidden" and "e \<in> entities"
  shows "\<not> reveals p e ev'"
proof (cases ev)
  case (Pair target event)
  with assms show ?thesis
    by (cases event) (auto simp: sanitize_hidden_event_def reveals_def Let_def split: if_splits event_target.splits)
qed

definition hides :: "player_id \<Rightarrow> entity_id \<Rightarrow> core_event_builder \<Rightarrow> bool" where
  "hides p e b \<longleftrightarrow> p \<in> eb_hidden_players b \<and> bt_ok (eb_hidden_player_entities b) \<and>
     map_of (eb_hidden_player_entities b) p = Some e"

lemma filtered_events_hide:
  assumes "hides p e b" and "ev \<in> set (filter_hidden_events b c events)"
  shows "\<not> reveals p e ev"
proof -
  have "e \<in> hidden_entities b c"
    using assms(1) by (force simp: hides_def hidden_entities_def dest: map_of_SomeD)
  then show ?thesis
    using assms sanitized_shows_nothing
    by (fastforce simp: filter_hidden_events_def catsome_def hides_def split: option.splits)
qed

text \<open>The report of an operation that is not the login's end leaves the player hidden.\<close>

lemma reduce_reports:
  "reduce_core_op B op now_ms F c = (Inr applied, c') \<Longrightarrow>
    (\<forall>q d. applied = AppliedFinalizeLogin q d \<longrightarrow> (\<exists>k. op = FinalizeLogin k q)) \<and>
    (\<forall>q e. applied = AppliedPrepareLogin q e \<longrightarrow> (\<exists>player. op = PrepareLogin q player e))"
  by (cases op) (auto simp: smap_result_def sr_defs split: prod.splits sum.splits)

lemma builder_update_hides:
  assumes "hides p e b" and "\<And>d. applied \<noteq> AppliedFinalizeLogin p d" and "\<And>e'. applied = AppliedPrepareLogin p e' \<Longrightarrow> e' = e"
  shows "hides p e (builder_update applied b)"
  using assms by (cases applied) (auto simp: hides_def builder_update_def)

lemma run_hides:
  assumes "run_core_ops now_ms F ops b c = (Inr events, c')" and "hides p e b" and "p \<notin> finalized_players ops"
    and "\<forall>player e'. PrepareLogin p player e' \<in> set ops \<longrightarrow> e' = e" and "ev \<in> set events"
  shows "\<not> reveals p e ev"
  using assms
proof (induction ops arbitrary: b c events)
  case (Cons op ops)
  obtain applied c1 more where first: "reduce_core_op base_backend op now_ms F c = (Inr applied, c1)"
    and rest: "run_core_ops now_ms F ops (builder_update applied b) c1 = (Inr more, c')"
    and events: "events = filter_hidden_events (builder_update applied b) c1 (build_events c1 applied) @ more"
    using Cons.prems(1) by (auto simp: sbind_def sget_def sret_def builder_build_def Let_def split: prod.splits sum.splits)
  have hide: "hides p e (builder_update applied b)"
    using reduce_reports [OF first] Cons.prems(2,3,4) by (intro builder_update_hides) auto
  have "p \<notin> finalized_players ops" using Cons.prems(3) by (cases op) auto
  then show ?case
    using Cons.IH [OF rest hide] filtered_events_hide [OF hide, of ev] Cons.prems(4,5) unfolding events by auto
qed (simp add: sret_def)

text \<open>C27: a login that is prepared but not finalized stays invisible. Of all the events the operations after it
  produce, none is addressed to the player or to everyone but the player, and none spawns, moves,
  removes or shows the mining of the entity reserved for it.\<close>

theorem pending_login_hidden:
  assumes "apply_core_ops (PrepareLogin p player e # ops) now_ms hidden c = (Inr events, c')"
    and "p \<notin> finalized_players ops" and "\<forall>player' e'. PrepareLogin p player' e' \<in> set ops \<longrightarrow> e' = e"
  shows "\<forall>ev \<in> set events. \<not> reveals p e ev"
proof
  fix ev assume "ev \<in> set events"
  let ?b = "builder_update (AppliedPrepareLogin p e) (core_event_builder_new hidden)"
  have "hides p e ?b" by (simp add: hides_def builder_update_def core_event_builder_new_def bt_ok_def)
  moreover have "run_core_ops now_ms (finalized_players ops) ops ?b c = (Inr events, c')"
    using assms(1,2)
    by (simp add: apply_core_ops_def sbind_def sget_def sret_def builder_build_def filter_hidden_events_def catsome_def
        split: prod.splits sum.splits)
  ultimately show "\<not> reveals p e ev" using run_hides assms(2,3) \<open>ev \<in> set events\<close> by blast
qed

theorem pending_login_hidden_witness:
  "\<exists>events c'. apply_core_ops [PrepareLogin 7 (default_player 7 ''ada'' (cfg_spawn sample_config) inventory_new_empty) 1,
      EmitEvent (EveryoneExcept 8) (EntityDespawned [1, 2])] 10 {} (server_core_new sample_config canonical_content) = (Inr events, c') \<and>
     events = [(EveryoneExcept 8, EntityDespawned [2])] \<and> (\<forall>ev \<in> set events. \<not> reveals 7 1 ev)"
proof -
  have "apply_core_ops [PrepareLogin 7 (default_player 7 ''ada'' (cfg_spawn sample_config) inventory_new_empty) 1,
      EmitEvent (EveryoneExcept 8) (EntityDespawned [1, 2])] 10 {} (server_core_new sample_config canonical_content) =
      (Inr [(EveryoneExcept 8, EntityDespawned [2])], server_core_new sample_config canonical_content)"
    by (simp add: apply_core_ops_def sr_defs builder_build_def builder_update_def core_event_builder_new_def
        filter_hidden_events_def catsome_def hidden_entities_def sanitize_hidden_event_def server_core_new_def Let_def)
  from this pending_login_hidden [OF this] show ?thesis by simp
qed

section \<open>Mining stages\<close>

lemma stage_bounds:
  fixes elapsed duration :: u64
  assumes "elapsed < duration"
  shows "unat (ucast (saturating_mul_word elapsed 10 div duration) :: u8) \<le> 9"
    and "unat elapsed * 10 < 2 ^ 64 \<Longrightarrow>
      unat (ucast (saturating_mul_word elapsed 10 div duration) :: u8) = unat elapsed * 10 div unat duration"
proof -
  let ?m = "saturating_mul_word elapsed 10"
  have less: "unat elapsed < unat duration" using assms by (simp add: word_less_nat_alt)
  have exact: "unat ?m = unat elapsed * 10" if "unat elapsed * 10 < 2 ^ 64"
    using that by (simp add: saturating_mul_word_def unat_word_ariths)
  have "unat ?m \<le> unat elapsed * 10"
  proof (cases "unat elapsed * 10 < 2 ^ 64")
    case False
    moreover have "unat ?m < 2 ^ 64" using unsigned_less [of ?m] by simp
    ultimately show ?thesis by linarith
  qed (simp add: exact)
  then have "unat ?m < 10 * unat duration" using less by linarith
  then have q: "unat ?m div unat duration \<le> 9"
    by (simp add: less_Suc_eq_le [symmetric] div_less_iff_less_mult less_mult_imp_div_less)
  have u: "unat (ucast (?m div duration) :: u8) = unat ?m div unat duration"
    using q by (simp add: unsigned_ucast_eq unat_div take_bit_nat_eq_self)
  show "unat (ucast (?m div duration) :: u8) \<le> 9" using q u by simp
  show "unat (ucast (?m div duration) :: u8) = unat elapsed * 10 div unat duration" if "unat elapsed * 10 < 2 ^ 64"
    using exact [OF that] u by simp
qed

text \<open>C39: the stage a tick shows for a block being mined is the elapsed tenths of the mining time, from 0 to 9. It is
  announced only while the time is not over and only when it differs from the last one shown;
  a mining time of zero is never divided by.\<close>

theorem mining_stage_in_bounds:
  assumes "mining_op base_backend now_ms e c = (Inr (Some (AdvanceMiningStage p e' position stage duration)), c')"
  shows "\<exists>m. map_of (es_player_active_mining (sc_entities c)) e = Some m \<and> e' = e \<and> position = am_position m \<and>
    duration = am_duration_ms m \<and> am_last_stage m \<noteq> Some stage \<and> unat stage \<le> 9 \<and>
    unat now_ms - unat (am_started_at_ms m) < unat duration \<and>
    ((unat now_ms - unat (am_started_at_ms m)) * 10 < 2 ^ 64 \<longrightarrow>
      unat stage = (unat now_ms - unat (am_started_at_ms m)) * 10 div unat duration)"
proof -
  obtain m where m: "map_of (es_player_active_mining (sc_entities c)) e = Some m"
    using assms by (auto simp: mining_op_def bind_some_def backend_defs sr_defs split: option.splits)
  obtain i where i: "map_of (es_player_identity (sc_entities c)) e = Some i"
    using assms m by (auto simp: mining_op_def bind_some_def backend_defs sr_defs split: option.splits)
  define elapsed where "elapsed = saturating_sub_word now_ms (am_started_at_ms m)"
  define stage' where "stage' = (ucast (saturating_mul_word elapsed 10 div am_duration_ms m) :: u8)"
  have run: "mining_op base_backend now_ms e c =
      (Inr (if am_duration_ms m \<le> elapsed then Some (CompleteMining (pid_player_id i) (am_position m))
        else if Some stage' \<noteq> am_last_stage m
        then Some (AdvanceMiningStage (pid_player_id i) e (am_position m) (min stage' 9) (am_duration_ms m)) else None), c)"
    unfolding mining_op_def Let_def elapsed_def [symmetric] stage'_def [symmetric]
    using m i by (simp add: bind_some_def backend_defs sr_defs elapsed_def stage'_def)
  have less: "elapsed < am_duration_ms m" and last: "Some stage' \<noteq> am_last_stage m" and stage: "stage = min stage' 9"
    and rest: "e' = e" "position = am_position m" "duration = am_duration_ms m"
    using assms unfolding run by (auto split: if_splits)
  note bounds = stage_bounds [OF less]
  have same: "stage = stage'"
    using bounds(1) unfolding stage stage'_def [symmetric] by (simp add: min_def word_le_nat_alt)
  have elapsed: "unat elapsed = unat now_ms - unat (am_started_at_ms m)"
    by (simp add: elapsed_def unat_saturating_sub_word)
  show ?thesis
    using m rest last bounds less unfolding same stage'_def [symmetric] elapsed by (auto simp: elapsed word_less_nat_alt)
qed

definition mining_core :: server_core where
  "mining_core = upd_entities (\<lambda>es. es\<lparr>
     es_player_identity := [(1, \<lparr>pid_player_id = 7, pid_username = ''ada''\<rparr>)],
     es_player_active_mining := [(1, \<lparr>am_position = \<lparr>bp_x = 0, bp_y = 3, bp_z = 0\<rparr>, am_started_at_ms = 1000,
       am_duration_ms = 2000, am_last_stage = Some 0, am_tool_context = None\<rparr>)]\<rparr>)
     (server_core_new sample_config canonical_content)"

theorem mining_stage_in_bounds_witness:
  "mining_op base_backend 1500 1 mining_core =
     (Inr (Some (AdvanceMiningStage 7 1 \<lparr>bp_x = 0, bp_y = 3, bp_z = 0\<rparr> 2 2000)), mining_core) \<and> unat (2 :: u8) \<le> 9"
proof -
  have "mining_op base_backend 1500 1 mining_core =
      (Inr (Some (AdvanceMiningStage 7 1 \<lparr>bp_x = 0, bp_y = 3, bp_z = 0\<rparr> 2 2000)), mining_core)"
    by (simp add: mining_op_def mining_core_def server_core_new_def bind_some_def backend_defs sr_defs Let_def
        saturating_sub_word_def saturating_mul_word_def) 
  with mining_stage_in_bounds [OF this] show ?thesis by blast
qed

section \<open>Keep-alives\<close>

definition timed_out :: "u64 \<Rightarrow> u64 \<Rightarrow> player_session_state \<Rightarrow> bool" where
  "timed_out now_ms timeout_ms session \<longleftrightarrow>
     (\<exists>sent_at. se_last_keep_alive_sent_at session = Some sent_at \<and> unat timeout_ms < unat now_ms - unat sent_at)"

lemma keepalive_op_result:
  "keepalive_op base_backend now_ms timeout_ms p c =
    (Inr (case map_of (ss_player_sessions (sc_sessions c)) p of
       None \<Rightarrow> None
     | Some session \<Rightarrow>
         if timed_out now_ms timeout_ms session then Some (DisconnectPlayer p)
         else if se_pending_keep_alive_id session = None \<and> se_next_keep_alive_at session \<le> now_ms
         then Some (RequestKeepAlive p) else None), c)"
  by (auto simp: keepalive_op_def bind_some_def backend_defs sr_defs timed_out_def word_less_nat_alt
      unat_saturating_sub_word split: option.splits)

lemma smap_read: "(\<And>x. f x s = (Inr (g x), s)) \<Longrightarrow> smap xs f s = (Inr (map g xs), s)"
  by (induction xs) (simp_all add: sr_defs)

lemma set_catsome [simp]: "set (catsome xs) = {y. Some y \<in> set xs}"
  by (auto simp: catsome_def split: option.splits)


end
