(* ===== verification/Transaction_Laws.thy ===== *)
theory Transaction_Laws
  imports Core_Transaction Core_Laws
begin

text \<open>
  What a gameplay transaction promises: the operations it previews on its overlay do on the core
  exactly what the preview showed, and a commit to a core nobody else has changed never conflicts.
\<close>

section \<open>Operations leave the snapshot alone\<close>

lemma sim_diag: "sim (\<lambda>t s. t = s \<and> P t) m m \<longleftrightarrow> preserves P m"
  by (auto simp: sim_def preserves_def)

lemma preserves_borrow [preserves_intros]:
  "(\<And>f t. os_base t = c \<Longrightarrow> os_base (upd_overlay f t) = c) \<Longrightarrow>
    preserves (\<lambda>t. os_base t = c) (overlay_borrow get upd base key)"
  by (simp add: preserves_def overlay_borrow_def split: option.split)

lemma preserves_overlay_ops [preserves_intros]:
  "preserves (\<lambda>t. os_base t = c) (overlay_ensure_chunk pos)"
  "preserves (\<lambda>t. os_base t = c) overlay_allocate_entity_id"
  "preserves (\<lambda>t. os_base t = c) overlay_allocate_keep_alive_id"
  "preserves (\<lambda>t. os_base t = c) (overlay_remove_online_player p)"
  by (simp_all add: preserves_def overlay_ensure_chunk_def overlay_allocate_entity_id_def Let_def
      overlay_allocate_keep_alive_id_def overlay_remove_online_player_def split: option.split)

lemma preserves_overlay_programs [preserves_intros]:
  "preserves (\<lambda>t. os_base t = c) (overlay_set_block_state p st)"
  "preserves (\<lambda>t. os_base t = c) (overlay_player_session_inventory_mut q)"
  unfolding overlay_set_block_state_def overlay_player_session_inventory_mut_def
  by (intro preserves_intros; simp)+

lemma preserves_overlay_spawn: "preserves (\<lambda>t. os_base t = c) (overlay_spawn_online_player player now_ms e)"
  unfolding overlay_spawn_online_player_def chunk_of_def
  by (intro preserves_intros)
    (simp_all add: overlay_insert_player_def overlay_claim_entity_id_def split: option.split)

interpretation snapshot_frame: backend_simulation "\<lambda>t s. t = s \<and> os_base t = c" overlay_backend overlay_backend
  "\<lambda>_ _ _. True" for c
proof unfold_locales
  fix player now_ms e and t s :: overlay_state
  assume "t = s \<and> os_base t = c"
  then show "fst (b_spawn_online_player overlay_backend player now_ms (Some e) t) =
      fst (b_spawn_online_player overlay_backend player now_ms (Some e) s) \<and>
    snd (b_spawn_online_player overlay_backend player now_ms (Some e) t) =
      snd (b_spawn_online_player overlay_backend player now_ms (Some e) s) \<and>
    os_base (snd (b_spawn_online_player overlay_backend player now_ms (Some e) t)) = c"
    using preservesD [OF preserves_overlay_spawn] by (auto simp: backend_spawn)
qed (unfold sim_diag backend_defs core_backend.simps; intro preserves_intros; simp)+

lemma reduce_core_op_base:
  "os_base (snd (reduce_core_op overlay_backend op now_ms materialized t)) = os_base t"
  using snapshot_frame.reduce_core_op_simulates [of t t "os_base t" materialized op now_ms]
  by (simp add: login_spawns_ok_def split: core_op.split)

section \<open>Reads\<close>

text \<open>A program that only reads: it never fails and leaves the state as it is.\<close>

definition pure_read :: "('s, 'a) core_prog \<Rightarrow> bool" where
  "pure_read m \<longleftrightarrow> (\<exists>f. m = sget f)"

definition result_of :: "('s, 'a) core_prog \<Rightarrow> 's \<Rightarrow> 'a" where
  "result_of m s = projr (fst (m s))"

named_theorems pure_intros \<open>composition of reads\<close>

lemma pure_result: "pure_read m \<Longrightarrow> m s = (Inr (result_of m s), s)"
  by (auto simp: pure_read_def result_of_def sget_def)

lemma pure_sget [pure_intros]: "pure_read (sget f)"
  by (auto simp: pure_read_def)

lemma pure_sret [pure_intros]: "pure_read (sret x)"
  unfolding pure_read_def by (rule exI [of _ "\<lambda>_. x"]) (simp add: sret_def sget_def)

lemma pure_sbind [pure_intros]:
  assumes "pure_read m" and "\<And>x. pure_read (f x)"
  shows "pure_read (sbind m f)"
  unfolding pure_read_def
  by (rule exI [of _ "\<lambda>s. result_of (f (result_of m s)) s"])
    (simp add: fun_eq_iff sbind_def sget_def pure_result [OF assms(1)] pure_result [OF assms(2)])

lemma result_sbind: "pure_read m \<Longrightarrow> result_of (sbind m f) s = result_of (f (result_of m s)) s"
  by (auto simp: pure_read_def result_of_def sbind_def sget_def)

lemma pure_if [pure_intros]: "pure_read m \<Longrightarrow> pure_read n \<Longrightarrow> pure_read (if b then m else n)"
  by simp

lemma pure_case_option [pure_intros]:
  "pure_read m \<Longrightarrow> (\<And>x. pure_read (f x)) \<Longrightarrow> pure_read (case v of None \<Rightarrow> m | Some x \<Rightarrow> f x)"
  by (simp split: option.split)

lemma pure_bind_some [pure_intros]: "pure_read m \<Longrightarrow> (\<And>x. pure_read (f x)) \<Longrightarrow> pure_read (bind_some m f)"
  unfolding bind_some_def by (intro pure_sbind pure_case_option pure_sret)

lemma pure_smap [pure_intros]: "(\<And>x. pure_read (f x)) \<Longrightarrow> pure_read (smap xs f)"
  by (induction xs) (simp_all add: pure_sret pure_sbind)

lemma pure_backend_reads [pure_intros]:
  "pure_read (b_world_meta base_backend)" "pure_read (b_world_meta overlay_backend)"
  "pure_read (b_block_state base_backend position)" "pure_read (b_block_state overlay_backend position)"
  "pure_read (b_block_entity base_backend position)" "pure_read (b_block_entity overlay_backend position)"
  "pure_read (b_saved_player base_backend p)" "pure_read (b_saved_player overlay_backend p)"
  "pure_read (b_player_entity_id base_backend p)" "pure_read (b_player_entity_id overlay_backend p)"
  "pure_read (b_player_ids base_backend)" "pure_read (b_player_ids overlay_backend)"
  "pure_read (b_player_entity_ids base_backend)" "pure_read (b_player_entity_ids overlay_backend)"
  "pure_read (b_player_transform_by_entity base_backend e)" "pure_read (b_player_transform_by_entity overlay_backend e)"
  "pure_read (b_player_session base_backend p)" "pure_read (b_player_session overlay_backend p)"
  by (simp_all add: backend_defs pure_sget)

lemma pure_compose [pure_intros]:
  "pure_read (compose_player_snapshot base_backend p)" "pure_read (compose_player_snapshot overlay_backend p)"
  unfolding compose_player_snapshot_def compose_player_snapshot_by_entity_def backend_defs core_backend.simps
  by (intro pure_intros)+

lemma pure_can_edit [pure_intros]:
  "pure_read (can_edit_block base_backend p position)" "pure_read (can_edit_block overlay_backend p position)"
  unfolding can_edit_block_def can_edit_block_for_snapshot_def by (intro pure_intros)+

lemma pure_online_player_count [pure_intros]:
  "pure_read (online_player_count base_backend)" "pure_read (online_player_count overlay_backend)"
  unfolding online_player_count_def by (intro pure_intros)+

text \<open>What the overlay has not touched it reads from its snapshot.\<close>

lemma overlay_entry_untouched: "\<not> has_key ov key \<Longrightarrow> overlay_entry ov base key = map_of base key"
  by (simp add: has_key_def overlay_entry_def)

lemma untouched_player:
  assumes "\<not> overlay_touches_player t p"
  shows "result_of (compose_player_snapshot overlay_backend p) t = result_of (compose_player_snapshot base_backend p) (os_base t)"
proof -
  let ?ov = "os_overlay t" and ?e = "map_of (es_players_by_player_id (sc_entities (os_base t))) p"
  have free: "\<not> has_key (ov_players_by_player_id ?ov) p"
    using assms by (auto simp: overlay_touches_player_def Let_def split: if_splits)
  then have "map_of (ov_players_by_player_id ?ov) p = None" by (simp add: has_key_def)
  with assms have parts: "\<not> has_key (ov_player_identity ?ov) e \<and> \<not> has_key (ov_player_transform ?ov) e \<and>
      \<not> has_key (ov_player_vitals ?ov) e \<and> \<not> has_key (ov_player_inventory ?ov) e \<and> \<not> has_key (ov_player_selected_hotbar ?ov) e"
    if "?e = Some e" for e
    using that by (simp add: overlay_touches_player_def Let_def split: if_splits)
  show ?thesis
    unfolding compose_player_snapshot_def compose_player_snapshot_by_entity_def backend_defs core_backend.simps
    using free parts
    by (cases ?e) (simp_all add: result_of_def bind_some_def sr_defs overlay_entry_untouched split: option.split)
qed

lemma untouched_block:
  "\<not> overlay_touches_block t position \<Longrightarrow>
    result_of (b_block_state overlay_backend position) t = result_of (b_block_state base_backend position) (os_base t)"
  by (simp add: overlay_touches_block_def has_key_def backend_defs result_of_def sget_def overlay_block_state_def)

lemma untouched_block_entity:
  "\<not> overlay_touches_block_entity t position \<Longrightarrow>
    result_of (b_block_entity overlay_backend position) t = result_of (b_block_entity base_backend position) (os_base t)"
  by (simp add: overlay_touches_block_entity_def backend_defs result_of_def sget_def overlay_entry_untouched
      block_entity_at_def)

lemma result_smap:
  assumes "\<And>x. pure_read (f x)"
  shows "result_of (smap xs f) s = map (\<lambda>x. result_of (f x) s) xs"
proof (induction xs)
  case (Cons x xs)
  then show ?case
    by (simp add: result_sbind [OF assms] result_sbind [OF pure_smap [OF assms]]) (simp add: result_of_def sret_def)
qed (simp add: result_of_def sret_def)

lemma untouched_can_edit:
  assumes "\<not> overlay_may_affect_can_edit_block t p position"
  shows "result_of (can_edit_block overlay_backend p position) t = result_of (can_edit_block base_backend p position) (os_base t)"
proof -
  note parts = assms [unfolded overlay_may_affect_can_edit_block_def, simplified]
  have snapshot: "result_of (compose_player_snapshot overlay_backend p) t =
      result_of (compose_player_snapshot base_backend p) (os_base t)"
    using parts by (intro untouched_player) simp
  have ids: "result_of (b_player_entity_ids overlay_backend) t = result_of (b_player_entity_ids base_backend) (os_base t)"
    using parts by (simp add: backend_defs result_of_def sget_def overlay_player_entity_ids_def)
  have transform: "result_of (b_player_transform_by_entity overlay_backend e) t =
      result_of (b_player_transform_by_entity base_backend e) (os_base t)" for e
    using parts by (simp add: backend_defs result_of_def sget_def overlay_entry_def)
  have sret: "result_of (sret x) s = x" for x :: 'x and s :: 's
    by (simp add: result_of_def sret_def)
  show ?thesis
    unfolding can_edit_block_def can_edit_block_for_snapshot_def
    by (simp add: result_sbind pure_compose snapshot pure_backend_reads pure_smap result_smap ids transform sret
        split: option.split)
qed

section \<open>Read sets and equality\<close>

definition snapshot_has_nan :: "player_snapshot \<Rightarrow> bool" where
  "snapshot_has_nan s \<longleftrightarrow>
     f64_is_nan (v_x (ps_position s)) \<or> f64_is_nan (v_y (ps_position s)) \<or> f64_is_nan (v_z (ps_position s)) \<or>
     f32_is_nan (ps_yaw s) \<or> f32_is_nan (ps_pitch s) \<or> f32_is_nan (ps_health s) \<or> f32_is_nan (ps_food_saturation s)"

lemma snapshot_eq_refl: "snapshot_eq s s \<longleftrightarrow> \<not> snapshot_has_nan s"
  by (auto simp: snapshot_eq_def vec3_eq_def snapshot_has_nan_def f64_eq_refl f32_eq_refl)

lemma opt_eq_refl: "opt_eq snapshot_eq v v \<longleftrightarrow> (\<forall>s. v = Some s \<longrightarrow> \<not> snapshot_has_nan s)"
  by (cases v) (simp_all add: snapshot_eq_refl)

text \<open>No player of the core, online or saved, has a NaN in its position, its angles or its vitals.\<close>

definition no_nan :: "server_core \<Rightarrow> bool" where
  "no_nan c \<longleftrightarrow>
     (\<forall>p s. result_of (compose_player_snapshot base_backend p) c = Some s \<longrightarrow> \<not> snapshot_has_nan s) \<and>
     (\<forall>p s. map_of (ws_saved_players (sc_world c)) p = Some s \<longrightarrow> \<not> snapshot_has_nan s)"

definition reads_ok :: "server_core \<Rightarrow> gameplay_read_set \<Rightarrow> bool" where
  "reads_ok c rs \<longleftrightarrow>
     (\<forall>w. rs_world_meta rs = Some w \<longrightarrow> w = ws_world_meta (sc_world c)) \<and>
     (\<forall>(p, v) \<in> set (rs_player_snapshots rs). v = result_of (compose_player_snapshot base_backend p) c) \<and>
     (\<forall>(q, v) \<in> set (rs_block_states rs). v = block_at c q) \<and>
     (\<forall>(q, v) \<in> set (rs_block_entities rs). v = block_entity_at c q) \<and>
     (\<forall>((p, q), v) \<in> set (rs_can_edit_block rs). v = result_of (can_edit_block base_backend p q) c) \<and>
     (\<forall>n. rs_online_player_count rs = Some n \<longrightarrow> n = length (ss_player_sessions (sc_sessions c))) \<and>
     (\<forall>(p, v) \<in> set (rs_saved_players rs). v = map_of (ws_saved_players (sc_world c)) p) \<and>
     (\<forall>(p, v) \<in> set (rs_player_entity_ids rs). v = map_of (es_players_by_player_id (sc_entities c)) p) \<and>
     (\<forall>n. rs_next_entity_id rs = Some n \<longrightarrow> n = es_next_entity_id (sc_entities c))"

lemma reads_ok_default: "reads_ok c read_set_default"
  by (simp add: reads_ok_def read_set_default_def)

lemma sand_true: "m s = (Inr True, s) \<Longrightarrow> n s = (Inr True, s) \<Longrightarrow> sand m n s = (Inr True, s)"
  by (simp add: sand_def sbind_def)

lemma sall_true: "(\<And>x. x \<in> set xs \<Longrightarrow> f x s = (Inr True, s)) \<Longrightarrow> sall xs f s = (Inr True, s)"
  by (induction xs) (simp_all add: sret_def sand_true)

lemma smatches_true: "pure_read m \<Longrightarrow> P (result_of m s) \<Longrightarrow> smatches m P s = (Inr True, s)"
  by (simp add: smatches_def sbind_def pure_result sret_def)

lemma reads_ok_match:
  assumes ok: "reads_ok c rs" and fine: "no_nan c"
  shows "read_set_matches rs c = (Inr True, c)"
proof -
  have base: "result_of (b_world_meta base_backend) c = ws_world_meta (sc_world c)"
    "result_of (b_block_state base_backend q) c = block_at c q"
    "result_of (b_block_entity base_backend q) c = block_entity_at c q"
    "result_of (online_player_count base_backend) c = length (ss_player_sessions (sc_sessions c))"
    "result_of (b_saved_player base_backend p) c = map_of (ws_saved_players (sc_world c)) p"
    "result_of (b_player_entity_id base_backend p) c = map_of (es_players_by_player_id (sc_entities c)) p" for q p
    by (simp_all add: online_player_count_def backend_defs result_of_def sr_defs)
  have get: "result_of (sget f) c = f c" for f :: "server_core \<Rightarrow> 'x"
    by (simp add: result_of_def sget_def)
  have nan: "opt_eq snapshot_eq v v" if "v = result_of (compose_player_snapshot base_backend p) c \<or>
      v = map_of (ws_saved_players (sc_world c)) p" for v p
    using that fine by (auto simp: opt_eq_refl no_nan_def)
  note parts = ok [unfolded reads_ok_def]
  have check: "smatches (compose_player_snapshot base_backend p) (\<lambda>w. opt_eq snapshot_eq w v) c = (Inr True, c)"
    if "(p, v) \<in> set (rs_player_snapshots rs)" for p v
    using that parts nan [of v p] by (intro smatches_true pure_compose) auto
  have block: "smatches (b_block_state base_backend q) (\<lambda>w. w = v) c = (Inr True, c)"
    if "(q, v) \<in> set (rs_block_states rs)" for q v
    using that parts by (intro smatches_true pure_backend_reads) (auto simp: base)
  have entity: "smatches (b_block_entity base_backend q) (\<lambda>w. w = v) c = (Inr True, c)"
    if "(q, v) \<in> set (rs_block_entities rs)" for q v
    using that parts by (intro smatches_true pure_backend_reads) (auto simp: base)
  have edit: "smatches (can_edit_block base_backend p q) (\<lambda>w. w = v) c = (Inr True, c)"
    if "((p, q), v) \<in> set (rs_can_edit_block rs)" for p q v
    using that parts by (intro smatches_true pure_can_edit) auto
  have saved: "smatches (b_saved_player base_backend p) (\<lambda>w. opt_eq snapshot_eq w v) c = (Inr True, c)"
    if "(p, v) \<in> set (rs_saved_players rs)" for p v
    using that parts nan [of v p] by (intro smatches_true pure_backend_reads) (auto simp: base)
  have ids: "smatches (b_player_entity_id base_backend p) (\<lambda>w. w = v) c = (Inr True, c)"
    if "(p, v) \<in> set (rs_player_entity_ids rs)" for p v
    using that parts by (intro smatches_true pure_backend_reads) (auto simp: base)
  have some: "(case v of None \<Rightarrow> sret True | Some w \<Rightarrow> smatches m (\<lambda>x. x = w)) c = (Inr True, c)"
    if "pure_read m" "\<And>w. v = Some w \<Longrightarrow> w = result_of m c" for v :: "'x option" and m
    using that by (cases v) (auto simp: sret_def intro: smatches_true)
  show ?thesis
    unfolding read_set_matches_def Let_def using parts
    by (intro sand_true sall_true some pure_backend_reads pure_online_player_count pure_sget)
      (auto simp: check block entity edit saved ids base get)
qed

section \<open>The invariant of a transaction\<close>

text \<open>
  Over the snapshot \<open>c\<close>: what was read is what \<open>c\<close> has, and the journal, replayed on \<open>c\<close>, leads to a core that
  the overlay stands for, as soon as every login prepared (\<open>M\<close>) is among those finalized (\<open>F\<close>).
\<close>

definition tx_inv :: "server_core \<Rightarrow> player_id set \<Rightarrow> gameplay_transaction \<Rightarrow> bool" where
  "tx_inv c M tx \<longleftrightarrow>
     os_base (tx_state tx) = c \<and> reads_ok c (tx_read_set tx) \<and> materialized_preview_players tx = M \<and>
     (\<forall>F. M \<subseteq> F \<longrightarrow> (\<exists>reports c'.
        smap (tx_journal tx) (\<lambda>op. reduce_core_op base_backend op (tx_now_ms tx) F) c = (Inr reports, c') \<and>
        overlay_rel (tx_state tx) c'))"

lemma tx_inv_new: "core_ok c \<Longrightarrow> tx_inv c {} (transaction_new c now_ms)"
  by (simp add: tx_inv_def transaction_new_def reads_ok_default materialized_preview_players_def core_ok_def sret_def)

lemma tx_inv_reads:
  "tx_inv c M tx \<Longrightarrow> reads_ok c (f (tx_read_set tx)) \<Longrightarrow> tx_inv c M (tx\<lparr>tx_read_set := f (tx_read_set tx)\<rparr>)"
  by (simp add: tx_inv_def materialized_preview_players_def)

text \<open>A program keeps the invariant whenever it returns.\<close>

definition keeps :: "server_core \<Rightarrow> player_id set \<Rightarrow> (gameplay_transaction, 'a) core_prog \<Rightarrow> bool" where
  "keeps c M m \<longleftrightarrow> (\<forall>tx x tx'. tx_inv c M tx \<longrightarrow> m tx = (Inr x, tx') \<longrightarrow> tx_inv c M tx')"

named_theorems keeps_intros \<open>composition of programs that keep a transaction's invariant\<close>

lemma keeps_sret [keeps_intros]: "keeps c M (sret x)"
  by (simp add: keeps_def sret_def)

lemma keeps_sget [keeps_intros]: "keeps c M (sget f)"
  by (simp add: keeps_def sget_def)

lemma keeps_sbind [keeps_intros]:
  assumes "keeps c M m" and "\<And>x. keeps c M (f x)"
  shows "keeps c M (sbind m f)"
  unfolding keeps_def
proof (intro allI impI)
  fix tx y tx'
  assume inv: "tx_inv c M tx" and run: "sbind m f tx = (Inr y, tx')"
  then obtain x tx1 where "m tx = (Inr x, tx1)" "f x tx1 = (Inr y, tx')"
    by (auto simp: sbind_def split: prod.splits sum.splits)
  then show "tx_inv c M tx'" using assms inv unfolding keeps_def by blast
qed

lemma keeps_if [keeps_intros]: "keeps c M m \<Longrightarrow> keeps c M n \<Longrightarrow> keeps c M (if b then m else n)"
  by simp

lemma keeps_case_option [keeps_intros]:
  "keeps c M m \<Longrightarrow> (\<And>x. keeps c M (f x)) \<Longrightarrow> keeps c M (case v of None \<Rightarrow> m | Some x \<Rightarrow> f x)"
  by (simp split: option.split)

lemma keeps_case_prod [keeps_intros]: "(\<And>a b. keeps c M (f a b)) \<Longrightarrow> keeps c M (case x of (a, b) \<Rightarrow> f a b)"
  by (simp split: prod.split)

lemma keeps_sfor [keeps_intros]: "(\<And>x. keeps c M (f x)) \<Longrightarrow> keeps c M (sfor xs f)"
  by (induction xs) (simp_all add: keeps_sret keeps_sbind)

lemma keeps_unless_none [keeps_intros]: "keeps c M m \<Longrightarrow> (\<And>x. keeps c M (f x)) \<Longrightarrow> keeps c M (unless_none m f)"
  unfolding unless_none_def by (intro keeps_intros)

text \<open>A read followed by its record.\<close>

lemma on_overlay_pure: "pure_read m \<Longrightarrow> on_overlay m tx = (Inr (result_of m (tx_state tx)), tx)"
  using pure_result [of m "tx_state tx"] by (simp add: on_overlay_def)

lemma keeps_recorded_read:
  assumes "pure_read m"
    and "\<And>tx. tx_inv c M tx \<Longrightarrow> tx_inv c M (record (result_of m (tx_state tx)) tx)"
  shows "keeps c M (sbind (on_overlay m) (\<lambda>v. sbind (smod (record v)) (\<lambda>_. sret v)))"
  using assms(2) by (auto simp: keeps_def sbind_def on_overlay_pure [OF assms(1)] smod_def sret_def)

lemma ball_or_insert: "\<forall>x \<in> set m. P x \<Longrightarrow> P (key, v) \<Longrightarrow> \<forall>x \<in> set (or_insert key v m). P x"
  using set_bt_insert [of key v m] by (auto simp: or_insert_def split: option.split)

lemma reads_ok_record:
  assumes "reads_ok c rs"
  shows "v = ws_world_meta (sc_world c) \<Longrightarrow> reads_ok c (rs_world_meta_update (get_or_insert v) rs)"
    and "s = result_of (compose_player_snapshot base_backend p) c \<Longrightarrow> reads_ok c (rs_player_snapshots_update (or_insert p s) rs)"
    and "b = block_at c q \<Longrightarrow> reads_ok c (rs_block_states_update (or_insert q b) rs)"
    and "e = block_entity_at c q \<Longrightarrow> reads_ok c (rs_block_entities_update (or_insert q e) rs)"
    and "a = result_of (can_edit_block base_backend p q) c \<Longrightarrow> reads_ok c (rs_can_edit_block_update (or_insert (p, q) a) rs)"
    and "n = length (ss_player_sessions (sc_sessions c)) \<Longrightarrow> reads_ok c (rs_online_player_count_update (get_or_insert n) rs)"
    and "s' = map_of (ws_saved_players (sc_world c)) p \<Longrightarrow> reads_ok c (rs_saved_players_update (or_insert p s') rs)"
    and "i = map_of (es_players_by_player_id (sc_entities c)) p \<Longrightarrow> reads_ok c (rs_player_entity_ids_update (or_insert p i) rs)"
    and "k = es_next_entity_id (sc_entities c) \<Longrightarrow> reads_ok c (rs_next_entity_id_update (get_or_insert k) rs)"
proof -
  note ok = assms [unfolded reads_ok_def]
  note goal = reads_ok_def gameplay_read_set.simps
  show "v = ws_world_meta (sc_world c) \<Longrightarrow> reads_ok c (rs_world_meta_update (get_or_insert v) rs)"
    "n = length (ss_player_sessions (sc_sessions c)) \<Longrightarrow> reads_ok c (rs_online_player_count_update (get_or_insert n) rs)"
    "k = es_next_entity_id (sc_entities c) \<Longrightarrow> reads_ok c (rs_next_entity_id_update (get_or_insert k) rs)"
    using ok by (simp_all add: goal get_or_insert_def split: option.split)
  show "s = result_of (compose_player_snapshot base_backend p) c \<Longrightarrow> reads_ok c (rs_player_snapshots_update (or_insert p s) rs)"
    "b = block_at c q \<Longrightarrow> reads_ok c (rs_block_states_update (or_insert q b) rs)"
    "e = block_entity_at c q \<Longrightarrow> reads_ok c (rs_block_entities_update (or_insert q e) rs)"
    "a = result_of (can_edit_block base_backend p q) c \<Longrightarrow> reads_ok c (rs_can_edit_block_update (or_insert (p, q) a) rs)"
    "s' = map_of (ws_saved_players (sc_world c)) p \<Longrightarrow> reads_ok c (rs_saved_players_update (or_insert p s') rs)"
    "i = map_of (es_players_by_player_id (sc_entities c)) p \<Longrightarrow> reads_ok c (rs_player_entity_ids_update (or_insert p i) rs)"
    unfolding goal by (intro conjI ball_or_insert; simp add: ok)+
qed

lemma overlay_world_meta: "result_of (b_world_meta overlay_backend) t = ws_world_meta (sc_world (os_base t))"
  by (simp add: backend_defs result_of_def sget_def)

lemma base_results:
  "result_of (b_block_state base_backend q) c = block_at c q"
  "result_of (b_block_entity base_backend q) c = block_entity_at c q"
  by (simp_all add: backend_defs result_of_def sget_def)

lemma tx_inv_base: "tx_inv c M tx \<Longrightarrow> os_base (tx_state tx) = c"
  and tx_inv_reads_ok: "tx_inv c M tx \<Longrightarrow> reads_ok c (tx_read_set tx)"
  by (simp_all add: tx_inv_def)

lemma keeps_reads [keeps_intros]:
  "keeps c M tx_world_meta"
  "keeps c M (tx_player_snapshot p)"
  "keeps c M (tx_block_state position)"
  "keeps c M (tx_block_entity position)"
  "keeps c M (tx_can_edit_block p position)"
  unfolding tx_world_meta_def tx_player_snapshot_def tx_block_state_def tx_block_entity_def tx_can_edit_block_def
  by (rule keeps_recorded_read; (intro pure_intros)?;
      simp add: tx_inv_reads reads_ok_record [OF tx_inv_reads_ok] overlay_world_meta untouched_player untouched_block
        untouched_block_entity untouched_can_edit base_results tx_inv_base)+

lemma keeps_content [keeps_intros]: "keeps c M tx_content"
  unfolding tx_content_def by (rule keeps_sget)

definition is_prepare_login :: "core_op \<Rightarrow> bool" where
  "is_prepare_login op \<longleftrightarrow> (\<exists>p player e. op = PrepareLogin p player e)"

lemma is_prepare_login_simps [simp]:
  "\<not> is_prepare_login (FinalizeLogin k p)" "\<not> is_prepare_login (SetPlayerPose p a b d g)"
  "\<not> is_prepare_login (SetSelectedHotbarSlot p n)" "\<not> is_prepare_login (SetInventorySlot p sl st)"
  "\<not> is_prepare_login (ClearMining p)" "\<not> is_prepare_login (BeginMining p q d')"
  "\<not> is_prepare_login (OpenContainerAt p q)" "\<not> is_prepare_login (OpenVirtualContainer p kd)"
  "\<not> is_prepare_login (SetBlock q bl)" "\<not> is_prepare_login (SpawnDroppedItem ex v it)"
  "\<not> is_prepare_login (EmitEvent tg ev)"
  by (simp_all add: is_prepare_login_def)

lemma spawns_ok_other: "\<not> is_prepare_login op \<Longrightarrow> login_spawns_ok spawnable t M op"
  by (auto simp: is_prepare_login_def login_spawns_ok_def split: core_op.split)

lemma reduce_core_op_other:
  "\<not> is_prepare_login op \<Longrightarrow> reduce_core_op B op now_ms M = reduce_core_op B op now_ms F"
  by (cases op) (simp_all add: is_prepare_login_def)

lemma keeps_push [keeps_intros]:
  assumes "\<not> is_prepare_login op"
  shows "keeps c M (push_previewed_op op)"
  unfolding keeps_def
proof (intro allI impI)
  fix tx x tx'
  assume inv: "tx_inv c M tx" and run: "push_previewed_op op tx = (Inr x, tx')"
  then have M: "materialized_preview_players tx = M" by (simp add: tx_inv_def)
  obtain r t where step: "reduce_core_op overlay_backend op (tx_now_ms tx) M (tx_state tx) = (r, t)" by fastforce
  with run M obtain report where r: "r = Inr report"
    and tx': "tx' = tx\<lparr>tx_state := t, tx_journal := tx_journal tx @ [op]\<rparr>"
    by (auto simp: push_previewed_op_def sr_defs on_overlay_def split: sum.splits)
  have base: "os_base t = c"
    using reduce_core_op_base [of op "tx_now_ms tx" M "tx_state tx"] step inv by (simp add: tx_inv_def)
  have "\<exists>reports c'. smap (tx_journal tx') (\<lambda>op. reduce_core_op base_backend op (tx_now_ms tx) F) c = (Inr reports, c') \<and>
      overlay_rel t c'" if F: "M \<subseteq> F" for F
  proof -
    obtain reports c1 where
      replay: "smap (tx_journal tx) (\<lambda>op. reduce_core_op base_backend op (tx_now_ms tx) F) c = (Inr reports, c1)"
      and rel: "overlay_rel (tx_state tx) c1"
      using inv F unfolding tx_inv_def by blast
    let ?c = "snd (reduce_core_op base_backend op (tx_now_ms tx) F c1)"
    have "reduce_core_op base_backend op (tx_now_ms tx) F c1 = (Inr report, ?c)" and "overlay_rel t ?c"
      using overlay.reduce_core_op_simulates [of "tx_state tx" c1 F op "tx_now_ms tx", OF rel spawns_ok_other [OF assms]]
        step r reduce_core_op_other [OF assms, of overlay_backend "tx_now_ms tx" M F] by (simp_all add: prod_eq_iff)
    with smap_snoc [OF replay] show ?thesis unfolding tx' by fastforce
  qed
  then show "tx_inv c M tx'" using inv base by (simp add: tx' tx_inv_def materialized_preview_players_def)
qed

lemma keeps_place_block [keeps_intros]: "keeps c M (place_block p hand position face held_item)"
  unfolding place_block_def place_rejection_def Let_def by (intro keeps_intros is_prepare_login_simps)

lemma keeps_builtin: "keeps c M (builtin_gameplay_command command)"
  unfolding set_held_slot_def creative_inventory_set_def reject_inventory_slot_events_def
  by (cases command; simp only: builtin_gameplay_command.simps set_held_slot_def creative_inventory_set_def
      reject_inventory_slot_events_def dig_block_def use_block_def Let_def; intro keeps_intros is_prepare_login_simps)

section \<open>Commits\<close>

lemma run_core_ops_replay:
  "smap ops (\<lambda>op. reduce_core_op base_backend op now_ms F) c = (Inr reports, c') \<Longrightarrow>
    \<exists>events. run_core_ops now_ms F ops b c = (Inr events, c')"
proof (induction ops arbitrary: c reports b)
  case (Cons op ops)
  then obtain r c1 rest where first: "reduce_core_op base_backend op now_ms F c = (Inr r, c1)"
    and "smap ops (\<lambda>op. reduce_core_op base_backend op now_ms F) c1 = (Inr rest, c')"
    by (auto simp: sr_defs split: prod.splits sum.splits)
  from Cons.IH [OF this(2), of "snd (builder_build c1 r b)"]
  obtain events where "run_core_ops now_ms F ops (snd (builder_build c1 r b)) c1 = (Inr events, c')" by blast
  with first show ?case by (cases "builder_build c1 r b") (simp add: sr_defs)
qed (simp add: sret_def)

lemma commit_applies:
  assumes inv: "tx_inv c M tx" and "no_nan c" and "M \<subseteq> finalized_players (tx_journal tx)"
  shows "\<exists>events c'. commit tx c = (Inr events, c') \<and> overlay_rel (tx_state tx) c'"
proof -
  obtain reports c' where "smap (tx_journal tx) (\<lambda>op. reduce_core_op base_backend op (tx_now_ms tx)
      (finalized_players (tx_journal tx))) c = (Inr reports, c')" and rel: "overlay_rel (tx_state tx) c'"
    using inv assms(3) unfolding tx_inv_def by blast
  from run_core_ops_replay [OF this(1)] obtain events where
    "apply_core_ops (tx_journal tx) (tx_now_ms tx) {} c = (Inr events, c')"
    unfolding apply_core_ops_def by blast
  moreover have "read_set_matches (tx_read_set tx) c = (Inr True, c)"
    using reads_ok_match [OF tx_inv_reads_ok [OF inv] assms(2)] .
  ultimately show ?thesis
    using rel by (simp add: commit_def validate_and_apply_gameplay_journal_def into_journal_def smap_result_def sr_defs)
qed


lemma push_reads: "push_previewed_op op tx = (Inr x, tx') \<Longrightarrow> tx_read_set tx' = tx_read_set tx"
  by (auto simp: push_previewed_op_def sr_defs on_overlay_def split: prod.splits sum.splits)

lemma new_touches_nothing: "\<not> overlay_touches_player \<lparr>os_base = c, os_overlay = tx_overlay_default\<rparr> p"
  by (simp add: overlay_touches_player_def tx_overlay_default_def has_key_def split: option.split) auto

lemma first_snapshot_read:
  "tx_player_snapshot p (transaction_new c now_ms) =
    (let v = result_of (compose_player_snapshot base_backend p) c in
     (Inr v, (transaction_new c now_ms)\<lparr>tx_read_set := read_set_default\<lparr>rs_player_snapshots := [(p, v)]\<rparr>\<rparr>))"
  using untouched_player [OF new_touches_nothing [of c p]]
  by (simp add: tx_player_snapshot_def sbind_def on_overlay_pure [OF pure_compose(2)] smod_def sret_def Let_def
      transaction_new_def new_touches_nothing read_set_default_def or_insert_def)

lemma push_journal:
  "push_previewed_op op tx = (Inr x, tx') \<Longrightarrow>
    tx_journal tx' = tx_journal tx @ [op] \<and> tx_read_set tx' = tx_read_set tx \<and> tx_now_ms tx' = tx_now_ms tx"
  by (auto simp: push_previewed_op_def sr_defs on_overlay_def split: prod.splits sum.splits)

lemma effect_op: "apply_effect_to_transaction effect = push_previewed_op (core_op_from_effect effect)"
  by (cases effect) simp_all

lemma effects_journal:
  "sfor effects apply_effect_to_transaction tx = (Inr (), tx') \<Longrightarrow>
    tx_journal tx' = tx_journal tx @ map core_op_from_effect effects \<and> tx_read_set tx' = tx_read_set tx \<and>
    tx_now_ms tx' = tx_now_ms tx"
proof (induction effects arbitrary: tx)
  case (Cons effect effects)
  then obtain x tx1 where "push_previewed_op (core_op_from_effect effect) tx = (Inr x, tx1)"
    and "sfor effects apply_effect_to_transaction tx1 = (Inr (), tx')"
    by (auto simp: sbind_def effect_op [of effect] split: prod.splits sum.splits)
  with Cons.IH push_journal show ?case by fastforce
qed (simp add: sret_def)

text \<open>A core with one player online.\<close>

definition sample_player :: player_snapshot where
  "sample_player = \<lparr>ps_id = 7, ps_username = ''ada'',
     ps_position = \<lparr>v_x = F64_HALF, v_y = 0x4010000000000000, v_z = F64_HALF\<rparr>,
     ps_yaw = 0, ps_pitch = 0, ps_on_ground = True, ps_dimension = Overworld, ps_health = 0x41A00000, ps_food = 20,
     ps_food_saturation = 0x40A00000, ps_inventory = inventory_new_empty, ps_selected_hotbar_slot = 0\<rparr>"

definition sample_core_with :: "player_snapshot \<Rightarrow> server_core" where
  "sample_core_with player = base_insert_player player 0 1 (client_view_new \<lparr>cp_x = 0, cp_z = 0\<rparr> 2)
     (server_core_new sample_config canonical_content)"

lemma sample_core_ok: "core_ok (sample_core_with player)"
  by (simp add: core_ok_def overlay_rel_def sample_core_with_def base_insert_player_def server_core_new_def
      tx_overlay_default_def overlay_next_entity_id_def overlay_next_keep_alive_id_def chunks_rel_def players_rel_def
      bt_remove_def ov_rel_empty bt_ok_def)

lemma sample_core_snapshot:
  "result_of (compose_player_snapshot base_backend p) (sample_core_with player) = (if p = ps_id player then Some player else None)"
  by (simp add: compose_player_snapshot_def compose_player_snapshot_by_entity_def backend_defs result_of_def bind_some_def
      sr_defs sample_core_with_def base_insert_player_def server_core_new_def snapshot_identity_def snapshot_transform_def
      snapshot_vitals_def)

lemma sample_player_id: "ps_id sample_player = 7"
  by (simp add: sample_player_def)

lemma sample_player_fine: "\<not> snapshot_has_nan sample_player"
  by code_simp

lemma sample_core_no_nan: "\<not> snapshot_has_nan player \<Longrightarrow> no_nan (sample_core_with player)"
  by (simp add: no_nan_def sample_core_snapshot)
    (simp add: sample_core_with_def base_insert_player_def server_core_new_def)

lemma sample_held_slot:
  "ps_id player = 7 \<Longrightarrow>
    fst (builtin_gameplay_command (SetHeldSlot 7 3) (transaction_new (sample_core_with player) 10)) = Inr ()"
  by (simp add: set_held_slot_def unless_none_def sbind_def [of "tx_player_snapshot 7"] first_snapshot_read Let_def
      sample_core_snapshot slot_counts)
    (simp add: push_previewed_op_def on_overlay_def sr_defs smap_result_def state_clear_active_mining_def
      state_selected_hotbar_slot_def bind_some_def backend_defs transaction_new_def tx_overlay_default_def overlay_entry_def
      sample_core_with_def base_insert_player_def server_core_new_def bt_remove_def overlay_borrow_def slot_counts)


text \<open>C17: the two ways to apply the effects a gameplay plugin computed agree. Effects replayed through a transaction and
  committed do on the core exactly what their direct application does: the same events or panic,
  and the same core.\<close>

theorem effects_direct_or_by_transaction:
  assumes "sfor effects apply_effect_to_transaction (transaction_new c now_ms) = (Inr (), tx)"
  shows "commit tx c = apply_committed_gameplay_effects now_ms effects c"
proof -
  have "tx_journal tx = map core_op_from_effect effects" "tx_read_set tx = read_set_default" "tx_now_ms tx = now_ms"
    using effects_journal [OF assms] by (simp_all add: transaction_new_def)
  moreover have "read_set_matches read_set_default c = (Inr True, c)"
    by (simp add: read_set_matches_def read_set_default_def sand_def sr_defs)
  ultimately show ?thesis
    by (simp add: commit_def validate_and_apply_gameplay_journal_def into_journal_def sbind_def smap_result_def sret_def
        apply_committed_gameplay_effects_def split: prod.split sum.split)
qed

theorem effects_direct_or_by_transaction_witness:
  "\<exists>tx. sfor [EffectSpawnDroppedItem (ps_position sample_player) (item_stack_new STICK 3 0)] apply_effect_to_transaction
       (transaction_new (sample_core_with sample_player) 10) = (Inr (), tx) \<and>
     commit tx (sample_core_with sample_player) =
       apply_committed_gameplay_effects 10 [EffectSpawnDroppedItem (ps_position sample_player) (item_stack_new STICK 3 0)]
         (sample_core_with sample_player)"
proof -
  have "fst (sfor [EffectSpawnDroppedItem (ps_position sample_player) (item_stack_new STICK 3 0)] apply_effect_to_transaction
       (transaction_new (sample_core_with sample_player) 10)) = Inr ()"
    by (simp add: sbind_def push_previewed_op_def sr_defs on_overlay_def smap_result_def state_spawn_dropped_item_def
        Let_def backend_defs overlay_allocate_entity_id_def)
  then obtain tx where "sfor [EffectSpawnDroppedItem (ps_position sample_player) (item_stack_new STICK 3 0)]
      apply_effect_to_transaction (transaction_new (sample_core_with sample_player) 10) = (Inr (), tx)"
    by (metis prod.collapse)
  with effects_direct_or_by_transaction [OF this] show ?thesis by blast
qed

text \<open>C16: one operation previewed on an overlay tells what it does on the core. From an overlay and a core
  that it stands for, both backends report the same changes, or the same panic, and leave an
  overlay and a core that it stands for. Only a login is restricted: the player must be
  new to the snapshot, under an entity id the snapshot does not use.\<close>

theorem preview_step_refines:
  assumes "overlay_rel t c" and "login_spawns_ok overlay_spawnable t materialized op"
  shows "fst (reduce_core_op overlay_backend op now_ms materialized t) = fst (reduce_core_op base_backend op now_ms materialized c) \<and>
    overlay_rel (snd (reduce_core_op overlay_backend op now_ms materialized t))
      (snd (reduce_core_op base_backend op now_ms materialized c))"
  by (rule overlay.reduce_core_op_simulates [OF assms])

theorem preview_step_refines_witness:
  "fst (reduce_core_op overlay_backend (SetPlayerPose 7 None (Some 0) None False) 10 {}
       \<lparr>os_base = sample_core_with sample_player, os_overlay = tx_overlay_default\<rparr>) =
     fst (reduce_core_op base_backend (SetPlayerPose 7 None (Some 0) None False) 10 {} (sample_core_with sample_player))"
proof -
  have "overlay_rel \<lparr>os_base = sample_core_with sample_player, os_overlay = tx_overlay_default\<rparr> (sample_core_with sample_player)"
    using sample_core_ok by (simp add: core_ok_def)
  from preview_step_refines [OF this, of "{}" "SetPlayerPose 7 None (Some 0) None False" 10] show ?thesis
    by (simp add: login_spawns_ok_def)
qed

section \<open>Logins\<close>

text \<open>What a login needs of the core: a saved snapshot carries the id it is saved under, and the next entity id is
  a valid one that no player has.\<close>

definition login_ok :: "server_core \<Rightarrow> player_id \<Rightarrow> bool" where
  "login_ok c p \<longleftrightarrow>
     (\<forall>s. map_of (ws_saved_players (sc_world c)) p = Some s \<longrightarrow> ps_id s = p) \<and>
     es_next_entity_id (sc_entities c) \<notin> ran (map_of (es_players_by_player_id (sc_entities c))) \<and>
     i32_ok (es_next_entity_id (sc_entities c))"

lemma result_sim: "overlay_rel t c \<Longrightarrow> sim overlay_rel m n \<Longrightarrow> result_of m t = result_of n c"
  using simD by (fastforce simp: result_of_def)

lemma base_spawn_allocated:
  assumes "e = es_next_entity_id (sc_entities c)"
  shows "base_spawn_online_player player now_ms (Some e) (upd_entities (es_next_entity_id_update i32_saturating_succ) c) =
    base_spawn_online_player player now_ms (Some e) c"
  by (cases c; cases "sc_entities c") (use assms in \<open>simp add: base_spawn_online_player_def sbind_def smod_def sret_def\<close>)

lemma prepare_login_reduces:
  assumes ok: "core_ok c" and login: "login_ok c p" and free: "map_of (es_players_by_player_id (sc_entities c)) p = None"
    and id: "ps_id player = p" and e: "e = es_next_entity_id (sc_entities c)"
    and t: "t = snd (overlay_allocate_entity_id \<lparr>os_base = c, os_overlay = tx_overlay_default\<rparr>)"
    and run: "reduce_core_op overlay_backend (PrepareLogin p player e) now_ms {p} t = (Inr r, t')" and "p \<in> F"
  shows "\<exists>c'. reduce_core_op base_backend (PrepareLogin p player e) now_ms F c = (Inr r, c') \<and> overlay_rel t' c'"
proof -
  let ?c1 = "snd (base_allocate_entity_id c)"
  have "overlay_rel \<lparr>os_base = c, os_overlay = tx_overlay_default\<rparr> c" using ok by (simp add: core_ok_def)
  then have rel: "overlay_rel t ?c1"
    unfolding t using simD [OF overlay.sim_allocate_entity_id] by (simp add: backend_defs)
  have base: "os_base t = c" by (simp add: t overlay_allocate_entity_id_def Let_def)
  have "overlay_spawnable t player e"
    using login free id e by (simp add: overlay_spawnable_def base login_ok_def)
  then have "login_spawns_ok overlay_spawnable t {p} (PrepareLogin p player e)"
    by (simp add: login_spawns_ok_def)
  note sims = overlay.reduce_core_op_simulates [OF rel this, of now_ms]
  have "reduce_core_op base_backend (PrepareLogin p player e) now_ms F c =
      reduce_core_op base_backend (PrepareLogin p player e) now_ms {p} ?c1"
    using base_spawn_allocated [OF e] \<open>p \<in> F\<close>
    by (simp add: sbind_def backend_spawn base_allocate_entity_id_def)
  then show ?thesis using sims run by (metis prod.collapse fst_conv snd_conv)
qed

lemma new_transaction_reads:
  "result_of (online_player_count overlay_backend) \<lparr>os_base = c, os_overlay = tx_overlay_default\<rparr> =
     length (overlay_keys [] (ss_player_sessions (sc_sessions c)))"
  "result_of (b_player_entity_id overlay_backend p) \<lparr>os_base = c, os_overlay = tx_overlay_default\<rparr> =
     map_of (es_players_by_player_id (sc_entities c)) p"
  "result_of (b_saved_player overlay_backend p) \<lparr>os_base = c, os_overlay = tx_overlay_default\<rparr> =
     map_of (ws_saved_players (sc_world c)) p"
  by (simp_all add: online_player_count_def backend_defs result_of_def sr_defs tx_overlay_default_def overlay_entry_def)

definition login_reads :: "server_core \<Rightarrow> player_id \<Rightarrow> gameplay_read_set" where
  "login_reads c p = rs_next_entity_id_update (get_or_insert (es_next_entity_id (sc_entities c)))
    (rs_saved_players_update (or_insert p (map_of (ws_saved_players (sc_world c)) p))
    (rs_player_entity_ids_update (or_insert p None)
    (rs_online_player_count_update (get_or_insert (length (overlay_keys [] (ss_player_sessions (sc_sessions c))))) read_set_default)))"

text \<open>The transaction after a login has been prepared on a core.\<close>

lemma begin_login_run:
  assumes "begin_login connection_id username p (transaction_new c now_ms) = (Inr None, tx)"
  shows "map_of (es_players_by_player_id (sc_entities c)) p = None \<and> (\<exists>r t player.
    player = login_player (sc_content_behavior c) (ws_config (sc_world c)) p username (map_of (ws_saved_players (sc_world c)) p) \<and>
    reduce_core_op overlay_backend (PrepareLogin p player (es_next_entity_id (sc_entities c))) now_ms {p}
      (snd (overlay_allocate_entity_id \<lparr>os_base = c, os_overlay = tx_overlay_default\<rparr>)) = (Inr r, t) \<and>
    tx = \<lparr>tx_state = t, tx_now_ms = now_ms, tx_prepared_players = [(p, es_next_entity_id (sc_entities c))],
      tx_finalized_players = {}, tx_journal = [PrepareLogin p player (es_next_entity_id (sc_entities c))],
      tx_read_set = login_reads c p\<rparr>)"
proof -
  let ?t = "\<lparr>os_base = c, os_overlay = tx_overlay_default\<rparr>" and ?e = "es_next_entity_id (sc_entities c)"
  let ?t1 = "snd (overlay_allocate_entity_id ?t)"
  have nxt: "overlay_next_entity_id ?t = ?e" by (simp add: overlay_next_entity_id_def tx_overlay_default_def)
  then have alloc: "b_allocate_entity_id overlay_backend ?t = (Inr ?e, ?t1)"
    by (simp add: backend_defs overlay_allocate_entity_id_def Let_def)
  define player where "player = login_player (sc_content_behavior c) (ws_config (sc_world c)) p username
    (map_of (ws_saved_players (sc_world c)) p)"
  define rs1 where "rs1 = rs_saved_players_update (or_insert p (map_of (ws_saved_players (sc_world c)) p))
    (rs_player_entity_ids_update (or_insert p None)
    (rs_online_player_count_update (get_or_insert (length (overlay_keys [] (ss_player_sessions (sc_sessions c))))) read_set_default))"
  have free: "map_of (es_players_by_player_id (sc_entities c)) p = None"
    and prepare: "prepare_login p player ((transaction_new c now_ms)\<lparr>tx_read_set := rs1\<rparr>) = (Inr (), tx)"
    using assms unfolding begin_login_def transaction_new_def
    by (auto simp: sbind_def on_overlay_pure pure_intros new_transaction_reads smod_def sget_def sret_def player_def rs1_def
        split: if_splits prod.splits sum.splits)
  obtain r t where "reduce_core_op overlay_backend (PrepareLogin p player ?e) now_ms {p} ?t1 = (Inr r, t)"
    and "tx = \<lparr>tx_state = t, tx_now_ms = now_ms, tx_prepared_players = [(p, ?e)], tx_finalized_players = {},
      tx_journal = [PrepareLogin p player ?e], tx_read_set = login_reads c p\<rparr>"
    using prepare unfolding prepare_login_def transaction_new_def
    by (auto simp: sbind_def smod_def sget_def current_next_entity_id_def nxt on_overlay_def alloc login_reads_def rs1_def
        materialized_preview_players_def simp del: reduce_core_op.simps split: prod.splits sum.splits)
  then show ?thesis using free by (auto simp: player_def simp del: reduce_core_op.simps)
qed

lemma login_player_id:
  "(\<And>s. saved = Some s \<Longrightarrow> ps_id s = p) \<Longrightarrow> ps_id (login_player cb config p username saved) = p"
  by (auto simp: login_player_def Let_def default_player_def split: option.split)

lemma begin_login_prepares:
  assumes ok: "core_ok c" and login: "login_ok c p"
    and run: "begin_login connection_id username p (transaction_new c now_ms) = (Inr None, tx)"
  shows "tx_inv c {p} tx \<and> finalized_players (tx_journal tx) = {}"
proof -
  let ?e = "es_next_entity_id (sc_entities c)"
  let ?t1 = "snd (overlay_allocate_entity_id \<lparr>os_base = c, os_overlay = tx_overlay_default\<rparr>)"
  from begin_login_run [OF run] obtain r t player where free: "map_of (es_players_by_player_id (sc_entities c)) p = None"
    and player: "player = login_player (sc_content_behavior c) (ws_config (sc_world c)) p username
      (map_of (ws_saved_players (sc_world c)) p)"
    and op: "reduce_core_op overlay_backend (PrepareLogin p player ?e) now_ms {p} ?t1 = (Inr r, t)"
    and tx: "tx = \<lparr>tx_state = t, tx_now_ms = now_ms, tx_prepared_players = [(p, ?e)], tx_finalized_players = {},
      tx_journal = [PrepareLogin p player ?e], tx_read_set = login_reads c p\<rparr>"
    by blast
  have id: "ps_id player = p"
    unfolding player using login by (intro login_player_id) (simp add: login_ok_def)
  have "ov_rel [] (ss_player_sessions (sc_sessions c)) (ss_player_sessions (sc_sessions c))"
    using ok by (simp add: core_ok_def overlay_rel_def tx_overlay_default_def)
  then have count: "length (overlay_keys [] (ss_player_sessions (sc_sessions c))) = length (ss_player_sessions (sc_sessions c))"
    by (simp add: ov_rel_keys)
  have "reads_ok c (login_reads c p)"
    unfolding login_reads_def by (intro reads_ok_record reads_ok_default) (simp_all add: free count)
  moreover have "os_base t = c"
    using reduce_core_op_base [of "PrepareLogin p player ?e" now_ms "{p}" ?t1] op
    by (simp add: overlay_allocate_entity_id_def Let_def)
  ultimately show ?thesis
    using prepare_login_reduces [OF ok login free id refl refl op]
    by (fastforce simp: tx tx_inv_def materialized_preview_players_def sr_defs)
qed

lemma finalize_login_keeps:
  assumes inv: "tx_inv c M tx" and run: "finalize_login connection_id p tx = (Inr (Inr ()), tx')"
  shows "tx_inv c M tx' \<and> tx_journal tx' = tx_journal tx @ [FinalizeLogin connection_id p]"
proof -
  have "push_previewed_op (FinalizeLogin connection_id p) (tx_finalized_players_update (insert p) tx) = (Inr (), tx')"
    using run unfolding finalize_login_def
    by (auto simp: sbind_def on_overlay_pure pure_intros smod_def sret_def split: if_splits prod.splits sum.splits)
  moreover have "tx_inv c M (tx_finalized_players_update (insert p) tx)"
    using inv by (simp add: tx_inv_def materialized_preview_players_def)
  ultimately show ?thesis
    using keeps_push [of "FinalizeLogin connection_id p" c M] unfolding keeps_def
    by (auto simp: push_previewed_op_def sr_defs on_overlay_def split: prod.splits sum.splits)
qed

lemma finalized_players_append: "finalized_players (ops @ ops') = finalized_players ops \<union> finalized_players ops'"
  by (induction ops rule: finalized_players.induct) auto


definition lobby_core :: server_core where
  "lobby_core = upd_world (ws_saved_players_update (\<lambda>_. [(7, sample_player)]))
     (server_core_new (sample_config\<lparr>cfg_view_distance := 0\<rparr>) canonical_content)"

lemma lobby_core_fine: "core_ok lobby_core" "no_nan lobby_core" "login_ok lobby_core 7"
proof -
  show "core_ok lobby_core"
    by (simp add: core_ok_def overlay_rel_def lobby_core_def server_core_new_def tx_overlay_default_def
      overlay_next_entity_id_def overlay_next_keep_alive_id_def chunks_rel_def players_rel_def ov_rel_empty bt_ok_def)
  show "no_nan lobby_core"
    using sample_player_fine
    by (simp add: no_nan_def lobby_core_def server_core_new_def result_of_def compose_player_snapshot_def bind_some_def
        backend_defs sr_defs)
  show "login_ok lobby_core 7"
    by (simp add: login_ok_def lobby_core_def server_core_new_def sample_player_def i32_ok_def)
qed

lemma sample_chunk: "vec3_chunk_pos \<lparr>v_x = F64_HALF, v_y = 0x4010000000000000, v_z = F64_HALF\<rparr> = Some \<lparr>cp_x = 0, cp_z = 0\<rparr>"
  by code_simp

lemma lobby_login:
  "\<exists>tx1. begin_login 1 ''ada'' 7 (transaction_new lobby_core 10) = (Inr None, tx1) \<and> fst (finalize_login 1 7 tx1) = Inr (Inr ())"
proof -
  define player where "player = login_player canonical_content (sample_config\<lparr>cfg_view_distance := 0\<rparr>) 7 ''ada'' (Some sample_player)"
  have id: "ps_id player = 7" and pos: "vec3_chunk_pos (ps_position player) = Some \<lparr>cp_x = 0, cp_z = 0\<rparr>"
    using sample_chunk by (simp_all add: player_def login_player_def sample_player_def)
  have square: "required_chunks \<lparr>cp_x = 0, cp_z = 0\<rparr> 0 = {\<lparr>cp_x = 0, cp_z = 0\<rparr>}"
    by code_simp
  note stores = transaction_new_def lobby_core_def server_core_new_def tx_overlay_default_def
    and reads = backend_defs overlay_entry_def overlay_keys_def online_player_count_def
    and spawn = overlay_spawn_online_player_def overlay_claim_entity_id_def overlay_insert_player_def
      overlay_allocate_entity_id_def overlay_next_entity_id_def chunk_of_def
  have config: "unat (cfg_max_players sample_config) = 20" "cfg_view_distance (sample_config\<lparr>cfg_view_distance := 0\<rparr>) = 0"
    by (simp_all add: sample_config_def)
  have begin_run: "begin_login 1 ''ada'' 7 (transaction_new lobby_core 10) =
      sbind (prepare_login 7 player) (\<lambda>_. sret None) ((transaction_new lobby_core 10)\<lparr>tx_read_set :=
        rs_saved_players_update (or_insert 7 (Some sample_player)) (rs_player_entity_ids_update (or_insert 7 None)
        (rs_online_player_count_update (get_or_insert 0) read_set_default))\<rparr>)"
    by (simp add: begin_login_def stores reads sr_defs on_overlay_def player_def config)
  show ?thesis
    unfolding begin_run
    by (simp add: prepare_login_def stores reads spawn sr_defs on_overlay_def id pos config)
      (simp add: finalize_login_def push_previewed_op_def smap_result_def finalize_login_delta_def
        initial_visible_chunks_def compose_player_snapshot_def compose_player_snapshot_by_entity_def bind_some_def
        overlay_ensure_chunk_def new_session_def client_view_new_def square reads sr_defs on_overlay_def chunk_of_def
        snapshot_identity_def snapshot_transform_def snapshot_vitals_def pos Let_def)
qed


section \<open>NaN\<close>

text \<open>C36: a player whose snapshot holds a NaN cannot select a slot: the command is previewed, but the
  commit compares the snapshot read with itself, finds it different and panics, although nobody
  else has touched the core.\<close>

theorem nan_snapshot_panics:
  assumes "result_of (compose_player_snapshot base_backend p) c = Some player" and "snapshot_has_nan player"
    and "builtin_gameplay_command (SetHeldSlot p slot) (transaction_new c now_ms) = (Inr (), tx)"
  shows "commit tx c = (Inl CommitConflictPanic, c)"
proof -
  let ?rs = "read_set_default\<lparr>rs_player_snapshots := [(p, Some player)]\<rparr>"
  have "tx_read_set tx = ?rs"
    using assms(1,3)
    by (auto simp: set_held_slot_def unless_none_def sbind_def first_snapshot_read Let_def
        split: if_splits prod.splits sum.splits dest!: push_reads)
  moreover have "read_set_matches ?rs c = (Inr False, c)"
    using assms(1,2)
    by (simp add: read_set_matches_def Let_def read_set_default_def sand_def smatches_def sr_defs
        pure_result [OF pure_compose(1)] snapshot_eq_refl)
  ultimately show ?thesis
    by (simp add: commit_def validate_and_apply_gameplay_journal_def into_journal_def sbind_def sr_defs)
qed

definition nan_player :: player_snapshot where
  "nan_player = sample_player\<lparr>ps_yaw := 0x7FC00000\<rparr>"

theorem nan_snapshot_panics_witness:
  "\<exists>tx. builtin_gameplay_command (SetHeldSlot 7 3) (transaction_new (sample_core_with nan_player) 10) = (Inr (), tx) \<and>
     commit tx (sample_core_with nan_player) = (Inl CommitConflictPanic, sample_core_with nan_player)"
proof -
  have id: "ps_id nan_player = 7" by (simp add: nan_player_def sample_player_id)
  from sample_held_slot [OF this] obtain tx where
    run: "builtin_gameplay_command (SetHeldSlot 7 3) (transaction_new (sample_core_with nan_player) 10) = (Inr (), tx)"
    by (metis prod.collapse)
  have "result_of (compose_player_snapshot base_backend 7) (sample_core_with nan_player) = Some nan_player"
    by (simp add: sample_core_snapshot id)
  moreover have "snapshot_has_nan nan_player" by code_simp
  ultimately show ?thesis using nan_snapshot_panics [OF _ _ run] run by blast
qed

end
