(* ===== verification/Core_Invariant.thy ===== *)
theory Core_Invariant
  imports Transaction_Laws
begin

text \<open>
  The invariant of the game core: its indexes agree with each other. A session, the player index and the
  components of the player's entity belong together, dropped items have their entity kind, a saved
  player is saved under its own id, and entity ids are fresh. Most programs neither log players in or
  out nor create entities; the locale \<open>entity_frame\<close> proves for all of them, from the laws of the
  backend's methods, that they keep such an invariant. The other operations are treated one by one.
\<close>

section \<open>Programs with results that are known\<close>

text \<open>\<open>yields I m P\<close>: the program keeps \<open>I\<close>, and what it returns satisfies \<open>P\<close>.\<close>

definition yields :: "('s \<Rightarrow> bool) \<Rightarrow> ('s, 'e, 'a) sr \<Rightarrow> ('a \<Rightarrow> bool) \<Rightarrow> bool" where
  "yields I m P \<longleftrightarrow> (\<forall>s. I s \<longrightarrow> wp m (\<lambda>x s'. I s' \<and> P x) (\<lambda>_. I) s)"

lemma yields_sbind: "yields I m P \<Longrightarrow> (\<And>x. P x \<Longrightarrow> preserves I (f x)) \<Longrightarrow> preserves I (sbind m f)"
  unfolding yields_def preserves_wp wp_sbind by (auto intro: wp_mono)

lemma yields_preserves: "yields I m P \<Longrightarrow> preserves I m"
  unfolding yields_def preserves_wp by (auto intro: wp_mono)

lemma yields_bind_some:
  "yields I m (\<lambda>v. \<forall>x. v = Some x \<longrightarrow> P x) \<Longrightarrow> (\<And>x. P x \<Longrightarrow> preserves I (f x)) \<Longrightarrow> preserves I (bind_some m f)"
  unfolding bind_some_def by (erule yields_sbind) (auto simp: preserves_sret split: option.split)

lemma yields_sget: "(\<And>s. I s \<Longrightarrow> P (f s)) \<Longrightarrow> yields I (sget f) P"
  by (simp add: yields_def wp_simps)

lemma preserves_smap [preserves_intros]: "(\<And>x. preserves I (f x)) \<Longrightarrow> preserves I (smap xs f)"
  by (induction xs) (auto intro!: preserves_intros)

lemma preserves_bind_some [preserves_intros]:
  "preserves I m \<Longrightarrow> (\<And>x. preserves I (f x)) \<Longrightarrow> preserves I (bind_some m f)"
  unfolding bind_some_def by (intro preserves_intros)

lemma preserves_smap_result [preserves_intros]: "preserves I m \<Longrightarrow> preserves I (smap_result f m)"
  unfolding smap_result_def by (intro preserves_intros)

lemma preserves_case_block_entity [preserves_intros]:
  "(\<And>c. preserves I (f c)) \<Longrightarrow> preserves I (case v of ContainerEntity c \<Rightarrow> f c)"
  by (cases v) simp

lemma preserves_chunk_of [preserves_intros]: "preserves I (chunk_of v)"
  unfolding chunk_of_def by (intro preserves_intros)

text \<open>Case distinctions that remember the case.\<close>

lemma preserves_cases:
  "(v = None \<Longrightarrow> preserves I m) \<Longrightarrow> (\<And>x. v = Some x \<Longrightarrow> preserves I (f x)) \<Longrightarrow>
    preserves I (case v of None \<Rightarrow> m | Some x \<Rightarrow> f x)"
  "(\<And>a b. y = (a, b) \<Longrightarrow> preserves I (g a b)) \<Longrightarrow> preserves I (case y of (a, b) \<Rightarrow> g a b)"
  by (simp_all split: option.split prod.split)

text \<open>A click leaves the session with its entity.\<close>

lemma active_container_click_entity:
  "apply_active_container_click cb w slot target button (session, pinv) = Inr (applied, session', pinv') \<Longrightarrow>
    se_entity_id session' = se_entity_id session"
  by (auto simp: apply_active_container_click_def Let_def bind_res_eq_Inr
      split: if_splits option.splits inventory_slot.splits container_slot_role.splits prod.splits)

lemma click_entity:
  "apply_click cb w target button (session, pinv) = Inr (applied, session', pinv') \<Longrightarrow>
    se_entity_id session' = se_entity_id session"
  by (auto simp: apply_click_def Let_def bind_res_eq_Inr dest: active_container_click_entity
      split: if_splits inventory_click_target.splits prod.splits)

lemma preserves_slift_bind: "(\<And>x. r = Inr x \<Longrightarrow> preserves I (f x)) \<Longrightarrow> preserves I (sbind (slift r) f)"
  by (cases r) (simp_all add: preserves_def sr_defs)

text \<open>The operations that neither log players in or out nor create or remove entities.\<close>

definition frame_op :: "core_op \<Rightarrow> bool" where
  "frame_op op = (case op of PrepareLogin _ _ _ \<Rightarrow> False | CompleteMining _ _ \<Rightarrow> False | TickDroppedItem _ \<Rightarrow> False |
     SpawnDroppedItem _ _ _ \<Rightarrow> False | DisconnectPlayer _ \<Rightarrow> False | _ \<Rightarrow> True)"

section \<open>Programs that leave the entities as they are\<close>

text \<open>
  An invariant \<open>I\<close> under which the session of a player is bound to the entity \<open>ent\<close> names. Every
  method keeps it, a session only when it is written back with the entity it had.
\<close>

locale entity_frame =
  fixes I :: "'s \<Rightarrow> bool"
    and B :: "'s core_backend"
    and ent :: "player_id \<Rightarrow> entity_id option"
  assumes keep_content_behavior [preserves_intros]: "preserves I (b_content_behavior B)"
    and keep_config [preserves_intros]: "preserves I (b_config B)"
    and keep_block_state [preserves_intros]: "preserves I (b_block_state B q)"
    and keep_block_entity [preserves_intros]: "preserves I (b_block_entity B q)"
    and keep_player_entity_id [preserves_intros]: "preserves I (b_player_entity_id B p)"
    and keep_player_identity [preserves_intros]: "preserves I (b_player_identity_by_entity B e)"
    and keep_player_transform [preserves_intros]: "preserves I (b_player_transform_by_entity B e)"
    and keep_player_vitals [preserves_intros]: "preserves I (b_player_vitals_by_entity B e)"
    and keep_player_inventory [preserves_intros]: "preserves I (b_player_inventory_by_entity B e)"
    and keep_player_selected_hotbar [preserves_intros]: "preserves I (b_player_selected_hotbar_by_entity B e)"
    and keep_player_active_mining [preserves_intros]: "preserves I (b_player_active_mining_by_entity B e)"
    and keep_dropped_item [preserves_intros]: "preserves I (b_dropped_item_by_entity B e)"
    and keep_player_ids [preserves_intros]: "preserves I (b_player_ids B)"
    and keep_player_entity_ids [preserves_intros]: "preserves I (b_player_entity_ids B)"
    and keep_dropped_item_ids [preserves_intros]: "preserves I (b_dropped_item_ids B)"
    and keep_container_viewers [preserves_intros]: "preserves I (b_container_viewers B q)"
    and keep_keepalive_interval [preserves_intros]: "preserves I (b_keepalive_interval_ms B)"
    and keep_ensure_chunk [preserves_intros]: "preserves I (b_ensure_chunk B cp)"
    and keep_set_block_state [preserves_intros]: "preserves I (b_set_block_state B q st)"
    and keep_set_block_entity [preserves_intros]: "preserves I (b_set_block_entity B q be)"
    and keep_set_container_viewers [preserves_intros]: "preserves I (b_set_container_viewers B q vw)"
    and keep_transform_mut [preserves_intros]: "preserves I (b_player_transform_mut B e)"
    and keep_write_transform [preserves_intros]: "preserves I (b_write_player_transform B e tr)"
    and keep_inventory_mut [preserves_intros]: "preserves I (b_player_inventory_mut B e)"
    and keep_write_inventory [preserves_intros]: "preserves I (b_write_player_inventory B e pinv)"
    and keep_hotbar_mut [preserves_intros]: "preserves I (b_player_selected_hotbar_mut B e)"
    and keep_write_hotbar [preserves_intros]: "preserves I (b_write_player_selected_hotbar B e n)"
    and keep_mining_mut [preserves_intros]: "preserves I (b_player_active_mining_mut B e)"
    and keep_write_mining [preserves_intros]: "preserves I (b_write_player_active_mining B e am)"
    and keep_remove_mining [preserves_intros]: "preserves I (b_remove_player_active_mining B e)"
    and keep_set_mining [preserves_intros]: "preserves I (b_set_player_active_mining B e amo)"
    and keep_allocate_keep_alive [preserves_intros]: "preserves I (b_allocate_keep_alive_id B)"
    and yields_session: "yields I (b_player_session B p) (\<lambda>v. \<forall>s. v = Some s \<longrightarrow> ent p = Some (se_entity_id s))"
    and yields_session_mut: "yields I (b_player_session_mut B p) (\<lambda>v. \<forall>s. v = Some s \<longrightarrow> ent p = Some (se_entity_id s))"
    and yields_session_inventory: "yields I (b_player_session_inventory_mut B p)
      (\<lambda>v. \<forall>x. v = Some x \<longrightarrow> ent p = Some (se_entity_id (fst x)))"
    and keep_write_session: "ent p = Some (se_entity_id s) \<Longrightarrow> preserves I (b_write_player_session B p s)"
begin

text \<open>A read of a session, and the knowledge it gives for the write.\<close>

lemmas frame_session = yields_bind_some [OF yields_session] yields_bind_some [OF yields_session_mut]
  yields_bind_some [OF yields_session_inventory] yields_sbind [OF yields_session_mut]

lemma keep_reads [preserves_intros]:
  "preserves I (b_player_session B p)"
  "preserves I (b_player_session_mut B p)"
  "preserves I (compose_player_snapshot_by_entity B e)"
  "preserves I (compose_player_snapshot B p)"
  "preserves I (state_player_inventory B p)"
  "preserves I (state_player_selected_hotbar B p)"
  "preserves I (state_player_transform B p)"
  "preserves I (state_player_active_mining B p)"
  unfolding compose_player_snapshot_by_entity_def compose_player_snapshot_def state_player_inventory_def
    state_player_selected_hotbar_def state_player_transform_def state_player_active_mining_def
  by (intro preserves_intros yields_preserves [OF yields_session] yields_preserves [OF yields_session_mut])+

lemma keep_can_edit [preserves_intros]:
  "preserves I (can_edit_block_for_snapshot B player q)"
  unfolding can_edit_block_for_snapshot_def by (intro preserves_intros)

lemma keep_window_programs [preserves_intros]:
  "preserves I (writeback_world_container_state B window)"
  "preserves I (register_world_container_viewer_state B q p w kind)"
  "preserves I (unregister_world_container_viewer_at_state B q p)"
  "preserves I (build_world_container_state B q kind)"
  "preserves I (active_window_id B p)"
  unfolding writeback_world_container_state_def register_world_container_viewer_state_def
    unregister_world_container_viewer_at_state_def build_world_container_state_def active_window_id_def Let_def
  by (intro preserves_intros)+

lemma keep_allocate_window [preserves_intros]: "preserves I (allocate_non_player_window_id B p)"
  unfolding allocate_non_player_window_id_def Let_def
  by (rule frame_session preserves_intros keep_write_session | simp)+

lemma keep_close [preserves_intros]:
  "preserves I (unregister_world_container_viewer_state B window p)"
  "preserves I (close_player_active_container_state B p b)"
  "preserves I (close_inventory_window_state B p w)"
  "preserves I (close_world_container_viewers_state B q)"
  "preserves I (close_world_container_if_invalid_state B q block)"
proof -
  show unreg [preserves_intros]: "preserves I (unregister_world_container_viewer_state B window p)" for window p
    unfolding unregister_world_container_viewer_state_def by (intro preserves_intros)
  show closes [preserves_intros]: "preserves I (close_player_active_container_state B p b)" for p b
    unfolding close_player_active_container_state_def
    by (rule frame_session preserves_cases preserves_intros keep_write_session |
        force simp: close_active_container_window_def split: option.split_asm)+
  show "preserves I (close_inventory_window_state B p w)"
    unfolding close_inventory_window_state_def by (intro preserves_intros)
  show closes' [preserves_intros]: "preserves I (close_world_container_viewers_state B q)" for q
    unfolding close_world_container_viewers_state_def by (intro preserves_intros)
  show "preserves I (close_world_container_if_invalid_state B q block)"
    unfolding close_world_container_if_invalid_state_def Let_def by (intro preserves_intros)
qed

lemma keep_open [preserves_intros]:
  "preserves I (open_non_player_window_state B p window title)"
  "preserves I (open_built_window B p window_id container)"
  "preserves I (open_virtual_container_state B p kind)"
  "preserves I (open_world_container_state B p q)"
proof -
  show opens [preserves_intros]: "preserves I (open_non_player_window_state B p window title)" for p window title
    unfolding open_non_player_window_state_def Let_def
    by (rule frame_session preserves_intros keep_write_session | simp)+
  show built [preserves_intros]: "preserves I (open_built_window B p window_id container)" for p window_id container
    unfolding open_built_window_def Let_def by (intro preserves_intros)
  show "preserves I (open_virtual_container_state B p kind)" "preserves I (open_world_container_state B p q)"
    unfolding open_virtual_container_state_def open_world_container_state_def by (intro preserves_intros)+
qed

lemma keep_sync [preserves_intros]:
  "preserves I (sync_viewer B q source actor viewer)"
  "preserves I (sync_world_container_viewers_state B q actor)"
  "preserves I (tick_active_container_state B p)"
proof -
  show viewer [preserves_intros]: "preserves I (sync_viewer B q source actor viewer)" for q source actor viewer
    unfolding sync_viewer_def Let_def
    by (rule frame_session preserves_cases preserves_intros keep_write_session | simp)+
  show sync [preserves_intros]: "preserves I (sync_world_container_viewers_state B q actor)" for q actor
    unfolding sync_world_container_viewers_state_def by (intro preserves_intros)
  show "preserves I (tick_active_container_state B p)"
    unfolding tick_active_container_state_def Let_def
    by (rule frame_session preserves_cases preserves_intros keep_write_session | force)+
qed

lemma keep_merge [preserves_intros]:
  "preserves I (persisted_online_player_snapshot_state B p)"
  "preserves I (merge_stack_into_online_player_inventory_state B p stack)"
  unfolding persisted_online_player_snapshot_state_def merge_stack_into_online_player_inventory_state_def Let_def
  by (intro preserves_intros)+

lemma keep_find_rest_block [preserves_intros]: "preserves I (find_rest_block B x z ys)"
proof (induction ys)
  case (Cons y ys)
  show ?case by simp (intro preserves_intros Cons)
qed (simp add: preserves_intros)

lemma keep_advance_steps [preserves_intros]: "preserves I (advance_dropped_item_steps B n item)"
proof (induction n arbitrary: item)
  case (Suc n)
  have "preserves I (advance_dropped_item_step B item)"
    unfolding advance_dropped_item_step_def dropped_item_rest_y_def Let_def by (intro preserves_intros)
  then show ?case by (simp add: preserves_sbind Suc)
qed (simp add: preserves_intros)

lemma keep_advance [preserves_intros]: "preserves I (advance_dropped_item_entity B item now_ms)"
  unfolding advance_dropped_item_entity_def Let_def by (intro preserves_intros)

lemma keep_nearest_player [preserves_intros]: "preserves I (nearest_player B position ps best)"
proof (induction ps arbitrary: best)
  case (Cons p ps)
  show ?case unfolding nearest_player.simps Let_def by (intro preserves_intros Cons)
qed (simp add: preserves_intros)

lemma keep_nearest_pickup [preserves_intros]: "preserves I (nearest_pickup_player_in B position)"
  unfolding nearest_pickup_player_in_def by (intro preserves_intros)

lemma keep_click [preserves_intros]:
  "preserves I (apply_inventory_click_state B p transaction target button validation)"
  unfolding apply_inventory_click_state_def Let_def
  by (rule frame_session preserves_slift_bind preserves_cases preserves_intros keep_write_session | force dest: click_entity)+

lemma keep_slots [preserves_intros]:
  "preserves I (state_selected_hotbar_slot B p n)"
  "preserves I (state_inventory_slot B p slot stack)"
  unfolding state_selected_hotbar_slot_def state_inventory_slot_def Let_def by (intro preserves_intros)+

lemma keep_observe [preserves_intros]:
  "preserves I (observe_player B a b c d p)"
  "preserves I (observe_item B c d e)"
  "preserves I (login_observation B c a p)"
  "preserves I (visible_dropped_item B c e)"
  unfolding observe_player_def observe_item_def login_observation_def visible_dropped_item_def
  by (intro preserves_intros)+

lemma keep_pose [preserves_intros]: "preserves I (state_player_pose B p position yaw pitch on_ground)"
  unfolding state_player_pose_def Let_def
  by (rule frame_session preserves_intros keep_write_session | simp)+

lemma keep_mining [preserves_intros]:
  "preserves I (state_clear_active_mining B p)"
  "preserves I (state_begin_mining B p position duration_ms now_ms)"
  "preserves I (state_clear_active_mining_at B position)"
  "preserves I (state_advance_mining_stage B p e position stage duration_ms)"
proof -
  show clear [preserves_intros]: "preserves I (state_clear_active_mining B p)" for p
    unfolding state_clear_active_mining_def by (intro preserves_intros)
  show "preserves I (state_begin_mining B p position duration_ms now_ms)"
    "preserves I (state_clear_active_mining_at B position)"
    "preserves I (state_advance_mining_stage B p e position stage duration_ms)"
    unfolding state_begin_mining_def state_clear_active_mining_at_def mines_at_def state_advance_mining_stage_def Let_def
    by (intro preserves_intros)+
qed

lemma keep_set_block [preserves_intros]: "preserves I (state_set_block B position block)"
  unfolding state_set_block_def by (intro preserves_intros)

lemma keep_login [preserves_intros]:
  "preserves I (state_update_client_settings B p view_distance)"
  "preserves I (finalize_login_delta B connection_id p)"
  unfolding state_update_client_settings_def finalize_login_delta_def initial_visible_chunks_def Let_def
  by (rule frame_session preserves_intros keep_write_session | simp)+

lemma keep_keep_alive [preserves_intros]:
  "preserves I (accept_keep_alive_state B p keep_alive_id)"
  "preserves I (schedule_keep_alive_state B p now_ms)"
  unfolding accept_keep_alive_state_def schedule_keep_alive_state_def Let_def
  by (rule frame_session preserves_cases preserves_intros keep_write_session | simp)+

lemma keep_close_container [preserves_intros]: "preserves I (state_close_container B p w b)"
  unfolding state_close_container_def by (intro preserves_intros)

lemma keep_reduce:
  "frame_op op \<Longrightarrow> preserves I (reduce_core_op B op now_ms materialized)"
  by (cases op; simp only: reduce_core_op.simps frame_op_def core_op.simps; intro preserves_intros; simp)

end

section \<open>The invariant\<close>

definition session_entity :: "server_core \<Rightarrow> player_id \<Rightarrow> entity_id option" where
  "session_entity c p = map_option se_entity_id (map_of (ss_player_sessions (sc_sessions c)) p)"

definition stores_ok :: "server_core \<Rightarrow> bool" where
  "stores_ok c \<longleftrightarrow>
     bt_ok (ws_chunks (sc_world c)) \<and> bt_ok (ws_block_entities (sc_world c)) \<and> bt_ok (ws_container_viewers (sc_world c)) \<and>
     bt_ok (ws_saved_players (sc_world c)) \<and> bt_ok (es_entity_kinds (sc_entities c)) \<and>
     bt_ok (es_players_by_player_id (sc_entities c)) \<and> bt_ok (es_player_identity (sc_entities c)) \<and>
     bt_ok (es_player_transform (sc_entities c)) \<and> bt_ok (es_player_vitals (sc_entities c)) \<and>
     bt_ok (es_player_inventory (sc_entities c)) \<and> bt_ok (es_player_selected_hotbar (sc_entities c)) \<and>
     bt_ok (es_player_active_mining (sc_entities c)) \<and> bt_ok (es_dropped_items (sc_entities c)) \<and>
     bt_ok (ss_player_sessions (sc_sessions c))"

definition has_components :: "entity_store \<Rightarrow> entity_id \<Rightarrow> bool" where
  "has_components es e \<longleftrightarrow> map_of (es_player_transform es) e \<noteq> None \<and> map_of (es_player_vitals es) e \<noteq> None \<and>
     map_of (es_player_inventory es) e \<noteq> None \<and> map_of (es_player_selected_hotbar es) e \<noteq> None"

definition players_ok :: "server_core \<Rightarrow> bool" where
  "players_ok c \<longleftrightarrow>
     session_entity c = map_of (es_players_by_player_id (sc_entities c)) \<and>
     (\<forall>p e. map_of (es_players_by_player_id (sc_entities c)) p = Some e \<longrightarrow>
        map_of (es_entity_kinds (sc_entities c)) e = Some PlayerEntity \<and>
        map_option pid_player_id (map_of (es_player_identity (sc_entities c)) e) = Some p \<and>
        has_components (sc_entities c) e) \<and>
     (\<forall>e i. map_of (es_player_identity (sc_entities c)) e = Some i \<longrightarrow>
        map_of (es_players_by_player_id (sc_entities c)) (pid_player_id i) = Some e)"

definition items_ok :: "server_core \<Rightarrow> bool" where
  "items_ok c \<longleftrightarrow> (\<forall>e. map_of (es_dropped_items (sc_entities c)) e \<noteq> None \<longrightarrow>
     map_of (es_entity_kinds (sc_entities c)) e = Some DroppedItemEntity)"

definition ids_fresh :: "server_core \<Rightarrow> bool" where
  "ids_fresh c \<longleftrightarrow> (\<forall>e. map_of (es_entity_kinds (sc_entities c)) e \<noteq> None \<longrightarrow> e < es_next_entity_id (sc_entities c))"

definition saved_ok :: "server_core \<Rightarrow> bool" where
  "saved_ok c \<longleftrightarrow> (\<forall>p s. map_of (ws_saved_players (sc_world c)) p = Some s \<longrightarrow> ps_id s = p)"

text \<open>The counter saturates: once it has reached the last \<open>i32\<close>, ids repeat and the indexes are no longer bound to
  agree.\<close>

definition ids_left :: "server_core \<Rightarrow> bool" where
  "ids_left c \<longleftrightarrow> es_next_entity_id (sc_entities c) < 2 ^ 31 - 1"

definition core_wf :: "server_core \<Rightarrow> bool" where
  "core_wf c \<longleftrightarrow> stores_ok c \<and> 1 \<le> es_next_entity_id (sc_entities c) \<and> es_next_entity_id (sc_entities c) < 2 ^ 31 \<and>
     (ids_left c \<longrightarrow> players_ok c \<and> items_ok c \<and> ids_fresh c \<and> saved_ok c)"

lemmas wf_defs = core_wf_def stores_ok_def players_ok_def items_ok_def ids_fresh_def saved_ok_def ids_left_def
  has_components_def session_entity_def

text \<open>The invariant, with what the frame programs keep: the entity of every session, the kinds of the entities, the
  dropped items and the next id.\<close>

definition core_frame :: "(player_id \<Rightarrow> entity_id option) \<Rightarrow> (entity_id \<Rightarrow> entity_kind option) \<Rightarrow>
    (entity_id \<Rightarrow> dropped_item_state option) \<Rightarrow> int \<Rightarrow> server_core \<Rightarrow> bool" where
  "core_frame ent kinds items n c \<longleftrightarrow> core_wf c \<and> session_entity c = ent \<and> es_next_entity_id (sc_entities c) = n \<and>
     map_of (es_entity_kinds (sc_entities c)) = kinds \<and> map_of (es_dropped_items (sc_entities c)) = items"

lemma apply_optional_entry_simps [simp]:
  "apply_optional_entry key (Some v) = bt_insert key v" "apply_optional_entry key None = bt_remove key"
  by (simp_all add: fun_eq_iff apply_optional_entry_def)

lemma apply_optional_entry_ok [simp]: "bt_ok m \<Longrightarrow> bt_ok (apply_optional_entry key v m)"
  by (simp add: apply_optional_entry_def split: option.split)

lemma core_frame_cong:
  assumes "core_frame ent kinds items n c" and "stores_ok c'"
    and "es_next_entity_id (sc_entities c') = es_next_entity_id (sc_entities c)"
    and "es_players_by_player_id (sc_entities c') = es_players_by_player_id (sc_entities c)"
    and "es_entity_kinds (sc_entities c') = es_entity_kinds (sc_entities c)"
    and "es_player_identity (sc_entities c') = es_player_identity (sc_entities c)"
    and "es_dropped_items (sc_entities c') = es_dropped_items (sc_entities c)"
    and "ws_saved_players (sc_world c') = ws_saved_players (sc_world c)"
    and "session_entity c' = session_entity c"
    and "\<And>e. has_components (sc_entities c) e \<Longrightarrow> has_components (sc_entities c') e"
  shows "core_frame ent kinds items n c'"
proof -
  have "players_ok c'" if "players_ok c"
    using that assms(10) unfolding players_ok_def assms(4,5,6,9) by blast
  then show ?thesis
    using assms(1,2) unfolding core_frame_def core_wf_def items_ok_def ids_fresh_def saved_ok_def ids_left_def assms(3,5,7,8,9)
    by blast
qed

lemma core_frame_stores: "core_frame ent kinds items n c \<Longrightarrow> stores_ok c"
  by (simp add: core_frame_def core_wf_def)

lemma frame_world:
  assumes "core_frame ent kinds items n c"
  shows "core_frame ent kinds items n (upd_world (ws_chunks_update (bt_insert cp chunk)) c)"
    "core_frame ent kinds items n (upd_world (ws_block_entities_update (apply_optional_entry q be)) c)"
    "core_frame ent kinds items n (upd_world (ws_container_viewers_update (apply_optional_entry q vw)) c)"
    "core_frame ent kinds items n (upd_sessions (ss_next_keep_alive_id_update f) c)"
  using core_frame_stores [OF assms]
  by (intro core_frame_cong [OF assms]; simp add: stores_ok_def session_entity_def fun_eq_iff)+

lemma frame_ensure_chunk: "preserves (core_frame ent kinds items n) (base_ensure_chunk cp)"
  using frame_world(1) by (auto simp: preserves_def base_ensure_chunk_def Let_def split: option.split)

lemma frame_set_block: "preserves (core_frame ent kinds items n) (set_block_at q st)"
  unfolding set_block_at_def by (intro preserves_intros frame_ensure_chunk frame_world)

lemma frame_components:
  assumes "core_frame ent kinds items n c"
  shows "core_frame ent kinds items n (upd_entities (es_player_transform_update (bt_insert e tr)) c)"
    "core_frame ent kinds items n (upd_entities (es_player_inventory_update (bt_insert e pinv)) c)"
    "core_frame ent kinds items n (upd_entities (es_player_selected_hotbar_update (bt_insert e slot)) c)"
    "core_frame ent kinds items n (upd_entities (es_player_active_mining_update (bt_insert e am)) c)"
    "core_frame ent kinds items n (upd_entities (es_player_active_mining_update (bt_remove e)) c)"
    "core_frame ent kinds items n (upd_entities (es_player_active_mining_update (apply_optional_entry e amo)) c)"
  using core_frame_stores [OF assms]
  by (intro core_frame_cong [OF assms]; simp add: stores_ok_def session_entity_def has_components_def fun_eq_iff)+

lemma frame_session_write:
  assumes "core_frame ent kinds items n c" and "ent p = Some (se_entity_id s)"
  shows "core_frame ent kinds items n (upd_sessions (ss_player_sessions_update (bt_insert p s)) c)"
proof (rule core_frame_cong [OF assms(1)])
  have "bt_ok (ss_player_sessions (sc_sessions c))" and "session_entity c p = Some (se_entity_id s)"
    using assms by (auto simp: core_frame_def core_wf_def stores_ok_def)
  then show "session_entity (upd_sessions (ss_player_sessions_update (bt_insert p s)) c) = session_entity c"
    by (auto simp: session_entity_def fun_eq_iff)
qed (use core_frame_stores [OF assms(1)] in \<open>simp_all add: stores_ok_def\<close>)

interpretation base_frame: entity_frame "core_frame ent kinds items n" base_backend ent for ent kinds items n
proof unfold_locales
  show "yields (core_frame ent kinds items n) (b_player_session base_backend p)
      (\<lambda>v. \<forall>s. v = Some s \<longrightarrow> ent p = Some (se_entity_id s))"
    "yields (core_frame ent kinds items n) (b_player_session_mut base_backend p)
      (\<lambda>v. \<forall>s. v = Some s \<longrightarrow> ent p = Some (se_entity_id s))"
    "yields (core_frame ent kinds items n) (b_player_session_inventory_mut base_backend p)
      (\<lambda>v. \<forall>x. v = Some x \<longrightarrow> ent p = Some (se_entity_id (fst x)))" for p
    by (auto simp: backend_defs base_player_session_inventory_mut_def core_frame_def session_entity_def
        intro!: yields_sget split: option.splits)
  show "preserves (core_frame ent kinds items n) (b_write_player_session base_backend p s)"
    if "ent p = Some (se_entity_id s)" for p s
    using that by (simp add: backend_defs preserves_smod frame_session_write)
qed (unfold backend_defs core_backend.simps base_allocate_keep_alive_id_def,
    (intro preserves_intros frame_ensure_chunk frame_set_block frame_world frame_components |
      simp add: preserves_def frame_world)+)

section \<open>Operations on entities\<close>

definition leads :: "('s \<Rightarrow> bool) \<Rightarrow> ('s, 'e, 'a) sr \<Rightarrow> ('s \<Rightarrow> bool) \<Rightarrow> bool" where
  "leads P m Q \<longleftrightarrow> (\<forall>s. P s \<longrightarrow> Q (snd (m s)))"

lemma leads_sbind:
  assumes "preserves P m" and "\<And>x. leads P (f x) Q" and "\<And>s. P s \<Longrightarrow> Q s"
  shows "leads P (sbind m f) Q"
  using assms by (fastforce simp: leads_def preserves_def sbind_def split: prod.splits sum.splits)

lemma leads_preserves: "preserves P m \<Longrightarrow> (\<And>s. P s \<Longrightarrow> Q s) \<Longrightarrow> leads P m Q"
  by (simp add: leads_def preserves_def)

lemma leads_sret: "(\<And>s. P s \<Longrightarrow> Q s) \<Longrightarrow> leads P (sret x) Q"
  by (simp add: leads_def sr_defs)

lemma leads_branch:
  "leads P m Q \<Longrightarrow> leads P m' Q \<Longrightarrow> leads P (if b then m else m') Q"
  "leads P m Q \<Longrightarrow> (\<And>x. leads P (f x) Q) \<Longrightarrow> leads P (case v of None \<Rightarrow> m | Some x \<Rightarrow> f x) Q"
  "(\<And>a b. leads P (g a b) Q) \<Longrightarrow> leads P (case y of (a, b) \<Rightarrow> g a b) Q"
  by (simp_all split: option.split prod.split)

lemma leads_smod: "(\<And>s. P s \<Longrightarrow> Q (f s)) \<Longrightarrow> leads P (sbind (smod f) (\<lambda>_. sret x)) Q"
  by (simp add: leads_def sr_defs)

lemma core_frame_wf: "core_frame ent kinds items n c \<Longrightarrow> core_wf c"
  by (simp add: core_frame_def)

lemma core_frame_self: "core_wf c \<Longrightarrow> core_frame (session_entity c) (map_of (es_entity_kinds (sc_entities c)))
    (map_of (es_dropped_items (sc_entities c))) (es_next_entity_id (sc_entities c)) c"
  by (simp add: core_frame_def)

lemma frame_preserves: "(\<And>ent kinds items n. preserves (core_frame ent kinds items n) m) \<Longrightarrow> preserves core_wf m"
  unfolding preserves_def using core_frame_self core_frame_wf by blast

lemma wf_spawn_item:
  assumes "core_wf c" and "e = es_next_entity_id (sc_entities c)"
  shows "core_wf (upd_entities (\<lambda>es. es_dropped_items_update (bt_insert e item)
    (es_entity_kinds_update (bt_insert e DroppedItemEntity) (es_next_entity_id_update i32_saturating_succ es))) c)" (is "core_wf ?c")
proof -
  have stores: "stores_ok ?c" and range: "1 \<le> e" "e < 2 ^ 31"
    using assms by (auto simp: core_wf_def stores_ok_def)
  have "players_ok ?c \<and> items_ok ?c \<and> ids_fresh ?c \<and> saved_ok ?c" if "ids_left ?c"
  proof -
    have e: "e < 2 ^ 31 - 1" using that assms(2) by (simp add: ids_left_def i32_saturating_succ_def)
    then have ok: "players_ok c" "items_ok c" "ids_fresh c" "saved_ok c" and bt: "stores_ok c"
      using assms by (simp_all add: core_wf_def ids_left_def)
    have new: "map_of (es_entity_kinds (sc_entities c)) e = None"
      using ok(3) assms(2) by (fastforce simp: ids_fresh_def)
    then have "map_of (es_players_by_player_id (sc_entities c)) p \<noteq> Some e" for p
      using ok(1) by (auto simp: players_ok_def)
    then have "players_ok ?c"
      using ok(1) bt by (auto simp: players_ok_def session_entity_def has_components_def stores_ok_def fun_eq_iff)
    moreover have "items_ok ?c" "saved_ok ?c"
      using ok bt by (auto simp: items_ok_def saved_ok_def stores_ok_def)
    moreover have "ids_fresh ?c"
      using ok(3) bt e assms(2) unfolding ids_fresh_def i32_saturating_succ_def by (auto simp: stores_ok_def less_le_trans)
    ultimately show ?thesis by blast
  qed
  with stores range assms(2) show ?thesis by (auto simp: core_wf_def i32_saturating_succ_def)
qed

lemma wf_spawn_dropped_item [preserves_intros]: "preserves core_wf (state_spawn_dropped_item base_backend position item now_ms)"
  using wf_spawn_item
  by (simp add: preserves_def state_spawn_dropped_item_def backend_defs base_allocate_entity_id_def sr_defs Let_def)

text \<open>An item taken out for its tick is put back, or its entity goes.\<close>

lemma wf_put_item:
  assumes "core_frame ent kinds items n c" and "n < 2 ^ 31 - 1 \<longrightarrow> kinds e = Some DroppedItemEntity"
  shows "core_wf (upd_entities (es_dropped_items_update (bt_insert e item)) c)"
  using assms by (auto simp: core_frame_def wf_defs fun_eq_iff)

lemma wf_drop_entity:
  assumes "core_frame ent kinds items n c" and "n < 2 ^ 31 - 1 \<longrightarrow> kinds e = Some DroppedItemEntity" and "items e = None"
  shows "core_wf (upd_entities (es_entity_kinds_update (bt_remove e)) c)"
  using assms by (auto simp: core_frame_def wf_defs fun_eq_iff)

lemma wf_take_item:
  assumes "\<And>ent kinds items n. leads (core_frame ent kinds items n) (f None) core_wf"
    and "\<And>ent kinds items n item. n < 2 ^ 31 - 1 \<longrightarrow> kinds e = Some DroppedItemEntity \<Longrightarrow> items e = None \<Longrightarrow>
      leads (core_frame ent kinds items n) (f (Some item)) core_wf"
  shows "preserves core_wf (sbind (b_take_dropped_item base_backend e) f)"
  unfolding preserves_def
proof (intro allI impI)
  fix c assume wf: "core_wf c"
  let ?items = "map_of (es_dropped_items (sc_entities c))" and ?kinds = "map_of (es_entity_kinds (sc_entities c))"
    and ?n = "es_next_entity_id (sc_entities c)" and ?c = "upd_entities (es_dropped_items_update (bt_remove e)) c"
  have taken: "core_frame (session_entity c) ?kinds (?items(e := None)) ?n ?c"
    using wf by (auto simp: core_frame_def wf_defs fun_eq_iff)
  have "?n < 2 ^ 31 - 1 \<longrightarrow> ?kinds e = Some DroppedItemEntity" if "?items e = Some item" for item
    using wf that by (auto simp: wf_defs)
  then have "core_wf (snd (f (?items e) ?c))"
    using assms(1) assms(2) [of ?n ?kinds "?items(e := None)"] taken unfolding leads_def
    by (cases "?items e") (auto simp del: fun_upd_apply simp: fun_upd_same)
  then show "core_wf (snd (sbind (b_take_dropped_item base_backend e) f c))"
    by (simp add: backend_defs sr_defs)
qed

lemma wf_tick_dropped_item [preserves_intros]: "preserves core_wf (tick_dropped_item_state base_backend e now_ms)"
proof -
  have put: "leads (core_frame ent kinds items n) (sbind (b_set_dropped_item base_backend e (Some item)) (\<lambda>_. sret x)) core_wf"
    if "n < 2 ^ 31 - 1 \<longrightarrow> kinds e = Some DroppedItemEntity" for ent kinds items n item and x :: dropped_item_tick_delta
    using that wf_put_item by (auto simp: backend_defs intro!: leads_smod)
  have drop: "leads (core_frame ent kinds items n) (sbind (b_set_entity_kind base_backend e None) (\<lambda>_. sret x)) core_wf"
    if "n < 2 ^ 31 - 1 \<longrightarrow> kinds e = Some DroppedItemEntity" "items e = None" for ent kinds items n and x :: dropped_item_tick_delta
    using that wf_drop_entity by (auto simp: backend_defs intro!: leads_smod)
  show ?thesis
    unfolding tick_dropped_item_state_def
    by (rule wf_take_item; simp only: option.case)
      (rule put drop leads_sret leads_branch leads_sbind base_frame.keep_advance base_frame.keep_nearest_pickup
        base_frame.keep_merge core_frame_wf | assumption | blast)+
qed

lemma wf_complete_mining [preserves_intros]:
  "preserves core_wf (state_complete_survival_mining base_backend p position now_ms)"
proof -
  have reads: "preserves core_wf (compose_player_snapshot base_backend p)"
    "preserves core_wf (state_player_active_mining base_backend p)"
    "preserves core_wf (b_block_state base_backend position)"
    "preserves core_wf (b_content_behavior base_backend)"
    "preserves core_wf (b_block_entity base_backend position)"
    "preserves core_wf (state_clear_active_mining base_backend p)"
    "preserves core_wf (state_set_block base_backend position None)"
    by (rule frame_preserves, intro base_frame.keep_reads base_frame.keep_block_state base_frame.keep_content_behavior
        base_frame.keep_block_entity base_frame.keep_mining base_frame.keep_set_block)+
  have edit: "preserves core_wf (can_edit_block_for_snapshot base_backend player position)" for player
    by (rule frame_preserves, rule base_frame.keep_can_edit)
  show ?thesis
    unfolding state_complete_survival_mining_def Let_def by (intro preserves_intros reads edit)
qed

text \<open>A player leaves: everything of the player goes at once.\<close>

lemma player_entities_distinct:
  assumes "players_ok c" and "map_of (es_players_by_player_id (sc_entities c)) p = Some e"
    and "map_of (es_players_by_player_id (sc_entities c)) q = Some e"
  shows "p = q"
proof -
  have "map_option pid_player_id (map_of (es_player_identity (sc_entities c)) e) = Some q'"
    if "map_of (es_players_by_player_id (sc_entities c)) q' = Some e" for q'
    using assms(1) that unfolding players_ok_def by blast
  from this [OF assms(2)] this [OF assms(3)] show ?thesis by simp
qed

lemma wf_remove_player:
  assumes wf: "core_wf c"
  shows "core_wf (snd (core_remove_online_player p c)) \<and>
    es_next_entity_id (sc_entities (snd (core_remove_online_player p c))) = es_next_entity_id (sc_entities c)"
proof (cases "map_of (ss_player_sessions (sc_sessions c)) p")
  case (Some session)
  let ?c = "snd (core_remove_online_player p c)"
  have counter: "es_next_entity_id (sc_entities ?c) = es_next_entity_id (sc_entities c)" and stores: "stores_ok ?c"
    using wf Some by (auto simp: core_remove_online_player_def Let_def core_wf_def stores_ok_def)
  have "players_ok ?c \<and> items_ok ?c \<and> ids_fresh ?c \<and> saved_ok ?c" if "ids_left c"
  proof -
    from that wf have ok: "players_ok c" "items_ok c" "ids_fresh c" "saved_ok c" by (simp_all add: core_wf_def)
    let ?e = "se_entity_id session"
    have e: "map_of (es_players_by_player_id (sc_entities c)) p = Some ?e"
      using ok(1) Some by (auto simp: players_ok_def session_entity_def fun_eq_iff dest!: spec [of _ p])
    have other: "map_of (es_players_by_player_id (sc_entities c)) q \<noteq> Some ?e" if "q \<noteq> p" for q
      using player_entities_distinct [OF ok(1) e] that by blast
    have kind: "map_of (es_entity_kinds (sc_entities c)) ?e = Some PlayerEntity"
      using ok(1) e by (auto simp: players_ok_def)
    have "players_ok ?c"
      using ok(1) other Some e unfolding players_ok_def
      by (auto simp: core_remove_online_player_def Let_def session_entity_def has_components_def fun_eq_iff)
    moreover have "items_ok ?c" "ids_fresh ?c" "saved_ok ?c"
      using ok(2,3,4) kind Some
      by (auto simp: core_remove_online_player_def Let_def items_ok_def ids_fresh_def saved_ok_def)
    ultimately show ?thesis by blast
  qed
  with counter stores wf show ?thesis by (auto simp: core_wf_def ids_left_def)
qed (use wf in \<open>simp add: core_remove_online_player_def\<close>)

lemma composed_snapshot_id:
  assumes "core_wf c" and "ids_left c" and "fst (compose_player_snapshot base_backend p c) = Inr (Some s)"
  shows "ps_id s = p"
proof -
  from assms(3) obtain e i where "map_of (es_players_by_player_id (sc_entities c)) p = Some e"
    and i: "map_of (es_player_identity (sc_entities c)) e = Some i" and "ps_id s = pid_player_id i"
    by (auto simp: compose_player_snapshot_def compose_player_snapshot_by_entity_def bind_some_def backend_defs sr_defs
        split: option.splits)
  moreover from assms(1,2) have "players_ok c" by (simp add: core_wf_def)
  ultimately show ?thesis by (fastforce simp: players_ok_def)
qed

lemma persisted_snapshot_id:
  assumes "core_wf c" and "ids_left c" and "persisted_online_player_snapshot_state base_backend p c = (Inr (Some s), c')"
  shows "ps_id s = p"
proof -
  from assms(3) obtain snap where "fst (compose_player_snapshot base_backend p c) = Inr (Some snap)" and "ps_id s = ps_id snap"
    by (auto simp: persisted_online_player_snapshot_state_def bind_some_def sbind_def backend_defs sget_def sret_def
        persist_live_player_state_def Let_def split: prod.splits sum.splits option.splits)
  with composed_snapshot_id [OF assms(1,2)] show ?thesis by simp
qed

lemma wf_save_player:
  assumes "core_frame ent kinds items n c" and "n < 2 ^ 31 - 1 \<longrightarrow> ps_id s = p"
  shows "core_wf (upd_world (ws_saved_players_update (bt_insert p s)) c)"
  using assms by (auto simp: core_frame_def wf_defs fun_eq_iff)

lemma pure_persisted: "pure_read (persisted_online_player_snapshot_state base_backend p)"
  unfolding persisted_online_player_snapshot_state_def by (intro pure_intros; simp add: backend_defs pure_sget)

lemma wf_persisted_bind:
  assumes "\<And>n s. n < 2 ^ 31 - 1 \<longrightarrow> ps_id s = p \<Longrightarrow> leads (\<lambda>c. core_wf c \<and> es_next_entity_id (sc_entities c) = n) (f s) core_wf"
  shows "preserves core_wf (bind_some (persisted_online_player_snapshot_state base_backend p) f)"
  unfolding preserves_def
proof (intro allI impI)
  fix c assume wf: "core_wf c"
  note run = pure_result [OF pure_persisted, of p c]
  show "core_wf (snd (bind_some (persisted_online_player_snapshot_state base_backend p) f c))"
  proof (cases "result_of (persisted_online_player_snapshot_state base_backend p) c")
    case (Some s)
    with run have run': "persisted_online_player_snapshot_state base_backend p c = (Inr (Some s), c)" by simp
    then have "es_next_entity_id (sc_entities c) < 2 ^ 31 - 1 \<longrightarrow> ps_id s = p"
      using persisted_snapshot_id [OF wf] by (simp add: ids_left_def)
    from assms [OF this] have "core_wf (snd (f s c))" using wf by (simp add: leads_def)
    then show ?thesis by (simp add: bind_some_def sbind_def run')
  qed (use run wf in \<open>simp add: bind_some_def sbind_def sret_def\<close>)
qed

lemma wf_remove_bind:
  assumes "\<And>ent kinds items s. leads (core_frame ent kinds items n) (f s) core_wf"
  shows "leads (\<lambda>c. core_wf c \<and> es_next_entity_id (sc_entities c) = n) (bind_some (b_remove_online_player base_backend p) f) core_wf"
  unfolding leads_def
proof (intro allI impI)
  fix c assume pre: "core_wf c \<and> es_next_entity_id (sc_entities c) = n"
  let ?s = "map_of (ss_player_sessions (sc_sessions c)) p"
  obtain c' where run: "core_remove_online_player p c = (Inr ?s, c')"
    by (cases ?s) (simp_all add: core_remove_online_player_def Let_def)
  then have c': "core_wf c'" "es_next_entity_id (sc_entities c') = n"
    using wf_remove_player [of c p] pre by simp_all
  with core_frame_self [OF c'(1)] have "core_wf (snd (f s c'))" for s using assms by (simp add: leads_def)
  then show "core_wf (snd (bind_some (b_remove_online_player base_backend p) f c))"
    using c' run by (cases ?s) (simp_all add: bind_some_def sbind_def backend_defs sret_def)
qed

lemma wf_disconnect [preserves_intros]: "preserves core_wf (disconnect_player_state base_backend p)"
proof -
  have save: "leads (core_frame ent kinds items n) (sbind (b_set_saved_player base_backend p (Some s)) (\<lambda>_. sret x)) core_wf"
    if "n < 2 ^ 31 - 1 \<longrightarrow> ps_id s = p" for ent kinds items n s and x :: "disconnect_delta option"
    using that wf_save_player by (auto simp: backend_defs intro!: leads_smod)
  show ?thesis
    unfolding disconnect_player_state_def
    by (rule preserves_sbind, rule frame_preserves, rule base_frame.keep_mining, rule wf_persisted_bind, rule wf_remove_bind,
        rule leads_sbind, intro preserves_intros base_frame.keep_window_programs base_frame.keep_close)
      (rule save, assumption, rule core_frame_wf)
qed

text \<open>A player arrives, with a new entity id.\<close>

lemma wf_insert_player:
  assumes wf: "core_wf c" and n: "es_next_entity_id (sc_entities c) \<le> e" "e < 2 ^ 31"
    and fresh: "ids_left c \<longrightarrow> map_of (es_players_by_player_id (sc_entities c)) (ps_id player) = None"
  shows "core_wf (base_insert_player player now_ms e view
    (upd_entities (es_next_entity_id_update (\<lambda>_. i32_saturating_succ e)) c))" (is "core_wf ?c")
proof -
  have stores: "stores_ok ?c" and bt: "stores_ok c" and range: "1 \<le> e"
    using wf n by (auto simp: base_insert_player_def core_wf_def stores_ok_def)
  have counter: "es_next_entity_id (sc_entities ?c) = i32_saturating_succ e"
    by (simp add: base_insert_player_def)
  have "players_ok ?c \<and> items_ok ?c \<and> ids_fresh ?c \<and> saved_ok ?c" if left: "ids_left ?c"
  proof -
    have e: "e + 1 < 2 ^ 31" using left counter by (simp add: ids_left_def i32_saturating_succ_def)
    then have ok: "players_ok c" "items_ok c" "ids_fresh c" "saved_ok c"
      and free: "map_of (es_players_by_player_id (sc_entities c)) (ps_id player) = None"
      using wf n fresh by (simp_all add: core_wf_def ids_left_def)
    have new: "map_of (es_entity_kinds (sc_entities c)) e = None"
      using ok(3) n by (fastforce simp: ids_fresh_def)
    then have no_player: "map_of (es_players_by_player_id (sc_entities c)) p \<noteq> Some e" for p
      using ok(1) by (auto simp: players_ok_def)
    then have no_identity: "map_of (es_player_identity (sc_entities c)) e = None"
      using ok(1) by (cases "map_of (es_player_identity (sc_entities c)) e") (fastforce simp: players_ok_def)+
    have "pid_player_id i \<noteq> ps_id player" if "map_of (es_player_identity (sc_entities c)) e' = Some i" for e' i
      using ok(1) free that unfolding players_ok_def by (metis option.discI)
    then have "players_ok ?c"
      using ok(1) bt no_player no_identity free unfolding players_ok_def stores_ok_def
      by (auto simp: base_insert_player_def session_entity_def has_components_def fun_eq_iff new_session_def snapshot_identity_def)
    moreover have "items_ok ?c" "saved_ok ?c"
      using ok bt new by (auto simp: base_insert_player_def items_ok_def saved_ok_def stores_ok_def)
    moreover have "ids_fresh ?c"
      using ok(3) bt e n unfolding ids_fresh_def counter i32_saturating_succ_def
      by (auto simp: base_insert_player_def stores_ok_def)
    ultimately show ?thesis by blast
  qed
  with stores range show ?thesis unfolding core_wf_def counter by (auto simp: i32_saturating_succ_def)
qed

lemma wf_counter:
  assumes "core_wf c" and "es_next_entity_id (sc_entities c) \<le> e" and "e < 2 ^ 31"
  shows "core_wf (upd_entities (es_next_entity_id_update (\<lambda>_. i32_saturating_succ e)) c)" (is "core_wf ?c")
proof -
  have "players_ok ?c = players_ok c" "items_ok ?c = items_ok c" "saved_ok ?c = saved_ok c" "stores_ok ?c = stores_ok c"
    by (simp_all add: players_ok_def items_ok_def saved_ok_def stores_ok_def session_entity_def has_components_def fun_eq_iff)
  moreover have "ids_fresh ?c" "ids_left c" if "ids_fresh c \<or> \<not> ids_left c" "ids_left ?c"
    using that assms(2,3) by (auto simp: ids_fresh_def ids_left_def i32_saturating_succ_def)
  ultimately show ?thesis
    using assms by (auto simp: core_wf_def i32_saturating_succ_def)
qed

text \<open>A login may be prepared for a player who is not online, under an id not yet given out.\<close>

definition fresh_login :: "player_id set \<Rightarrow> core_op \<Rightarrow> server_core \<Rightarrow> bool" where
  "fresh_login materialized op c =
     (case op of
        PrepareLogin p player e \<Rightarrow> p \<in> materialized \<longrightarrow>
          (ids_left c \<longrightarrow> map_of (es_players_by_player_id (sc_entities c)) (ps_id player) = None) \<and>
          es_next_entity_id (sc_entities c) \<le> e \<and> e < 2 ^ 31
      | _ \<Rightarrow> True)"

lemma wf_spawn_player:
  assumes "core_wf c" and "es_next_entity_id (sc_entities c) \<le> e" and "e < 2 ^ 31"
    and "ids_left c \<longrightarrow> map_of (es_players_by_player_id (sc_entities c)) (ps_id player) = None"
  shows "core_wf (snd (base_spawn_online_player player now_ms (Some e) c))"
  using wf_insert_player [OF assms] wf_counter [OF assms(1-3)] assms(2)
  by (cases "vec3_chunk_pos (ps_position player)") (simp_all add: base_spawn_online_player_def chunk_of_def sr_defs)

lemma wf_reduce_core_op:
  assumes wf: "core_wf c" and fresh: "fresh_login materialized op c"
  shows "core_wf (snd (reduce_core_op base_backend op now_ms materialized c))"
proof (cases "frame_op op")
  case True
  then show ?thesis using preservesD [OF frame_preserves [OF base_frame.keep_reduce] wf] by blast
next
  case False
  then show ?thesis
  proof (cases op)
    case (PrepareLogin p player e)
    then show ?thesis
      using wf_spawn_player [OF wf, of e player now_ms] wf fresh
      by (auto simp: fresh_login_def backend_spawn sr_defs split: prod.splits sum.splits)
  next
    case (CompleteMining p q)
    with preservesD [OF preserves_smap_result [OF wf_complete_mining] wf] show ?thesis by simp
  next
    case (TickDroppedItem e)
    with preservesD [OF preserves_smap_result [OF wf_tick_dropped_item] wf] show ?thesis by simp
  next
    case (SpawnDroppedItem ex v item)
    with preservesD [OF preserves_smap_result [OF wf_spawn_dropped_item] wf] show ?thesis by simp
  next
    case (DisconnectPlayer p)
    with preservesD [OF preserves_smap_result [OF wf_disconnect] wf] show ?thesis by simp
  qed (simp_all add: frame_op_def)
qed

lemma wf_run_core_ops:
  "\<forall>op \<in> set ops. \<not> is_prepare_login op \<Longrightarrow> preserves core_wf (run_core_ops now_ms F ops b)"
proof (induction ops arbitrary: b)
  case (Cons op ops)
  then have "fresh_login F op c" for c by (auto simp: fresh_login_def is_prepare_login_def split: core_op.split)
  then have "preserves core_wf (reduce_core_op base_backend op now_ms F)"
    using wf_reduce_core_op by (simp add: preserves_def)
  with Cons show ?case by (auto simp del: reduce_core_op.simps intro!: preserves_intros)
qed (simp add: preserves_sret)

section \<open>Commands, effects and ticks\<close>

lemma wf_apply_core_ops:
  "\<forall>op \<in> set ops. \<not> is_prepare_login op \<Longrightarrow> preserves core_wf (apply_core_ops ops now_ms hidden)"
  unfolding apply_core_ops_def by (rule wf_run_core_ops)

lemma yields_bind: "yields I m P \<Longrightarrow> (\<And>x. P x \<Longrightarrow> yields I (f x) Q) \<Longrightarrow> yields I (sbind m f) Q"
  unfolding yields_def wp_sbind by (auto intro: wp_mono)

lemma yields_sret: "P x \<Longrightarrow> yields I (sret x) P"
  by (simp add: yields_def wp_simps)

lemma yields_smap:
  assumes "\<And>x. yields I (f x) P"
  shows "yields I (smap xs f) (\<lambda>ys. \<forall>y \<in> set ys. P y)"
proof (induction xs)
  case (Cons x xs)
  show ?case unfolding smap.simps by (intro yields_bind [OF assms] yields_bind [OF Cons] yields_sret) simp
qed (simp add: yields_sret)

lemma pure_yields: "pure_read m \<Longrightarrow> (\<And>s. P (result_of m s)) \<Longrightarrow> yields I m P"
  using pure_result [of m] by (simp add: yields_def wp_def)

text \<open>The scheduler only plans operations that are not logins.\<close>

abbreviation (input) no_login :: "core_op list \<Rightarrow> bool" where
  "no_login ops \<equiv> \<forall>op \<in> set ops. \<not> is_prepare_login op"

lemma wf_tick: "preserves core_wf (core_tick now_ms)"
proof -
  let ?B = base_backend
  have other: "\<not> is_prepare_login (TickActiveContainer p)" "\<not> is_prepare_login (TickDroppedItem e)"
    "\<not> is_prepare_login (CompleteMining p q)" "\<not> is_prepare_login (AdvanceMiningStage p e q st d)"
    "\<not> is_prepare_login (DisconnectPlayer p)" "\<not> is_prepare_login (RequestKeepAlive p)" for p e q st d
    by (simp_all add: is_prepare_login_def)
  let ?plan = "\<lambda>v. \<forall>op. v = Some op \<longrightarrow> \<not> is_prepare_login op"
  have read: "yields core_wf (b_player_session ?B p) (\<lambda>_. True)" "yields core_wf (b_player_ids ?B) (\<lambda>_. True)"
    "yields core_wf (b_dropped_item_ids ?B) (\<lambda>_. True)" "yields core_wf (b_player_entity_ids ?B) (\<lambda>_. True)"
    "yields core_wf (b_player_active_mining_by_entity ?B e) (\<lambda>_. True)"
    "yields core_wf (b_player_identity_by_entity ?B e) (\<lambda>_. True)" for p e
    by (simp_all add: backend_defs yields_sget)
  have some: "yields core_wf (bind_some m f) ?plan"
    if "yields core_wf m (\<lambda>_. True)" "\<And>x. yields core_wf (f x) ?plan" for m :: "(server_core, 'x option) core_prog" and f
    unfolding bind_some_def by (rule yields_bind [OF that(1)]) (auto simp: that(2) yields_sret split: option.split)
  have container: "yields core_wf (container_tick_op ?B p) ?plan" for p
    unfolding container_tick_op_def by (rule yields_bind [OF read(1)]) (auto simp: other split: option.split intro!: yields_sret)
  have mining: "yields core_wf (mining_op ?B now_ms e) ?plan" for e
    unfolding mining_op_def Let_def by (intro some read) (auto simp: other intro!: yields_sret)
  have keepalive: "yields core_wf (keepalive_op ?B now_ms timeout_ms p) ?plan" for timeout_ms p
    unfolding keepalive_op_def by (intro some read yields_sret) (auto simp: other)
  have plans: "yields core_wf (smap_result catsome (smap xs f)) no_login"
    if "\<And>x. yields core_wf (f x) ?plan" for f :: "'x \<Rightarrow> (server_core, core_op option) core_prog" and xs
    unfolding smap_result_def
    by (rule yields_bind [OF yields_smap [OF that]]) (auto simp: set_catsome intro!: yields_sret)
  have "yields core_wf (scheduler_tick ?B now_ms timeout_ms) no_login" for timeout_ms
    unfolding scheduler_tick_def collect_active_mining_ops_def collect_keepalive_ops_def
    by (rule yields_bind [OF read(2)] yields_bind [OF read(3)] yields_bind [OF read(4)] yields_bind [OF yields_smap [OF container]]
        yields_bind [where P = no_login] plans mining keepalive yields_sret)+ (auto simp: set_catsome other)
  then show ?thesis
    unfolding core_tick_def by (intro preserves_sbind preserves_sget yields_sbind [where P = no_login] wf_apply_core_ops) auto
qed

text \<open>What a transaction writes to its journal.\<close>

definition journal_inv :: "core_op list \<Rightarrow> gameplay_transaction \<Rightarrow> bool" where
  "journal_inv start tx \<longleftrightarrow> (\<exists>ops. tx_journal tx = start @ ops \<and> no_login ops)"

lemma journal_on_overlay [preserves_intros]: "preserves (journal_inv start) (on_overlay m)"
  by (auto simp: preserves_def on_overlay_def journal_inv_def split: prod.splits)

lemma journal_push: "\<not> is_prepare_login op \<Longrightarrow> preserves (journal_inv start) (push_previewed_op op)"
  unfolding push_previewed_op_def
  by (intro preserves_intros) (auto simp: journal_inv_def)

lemma journal_reads [preserves_intros]:
  "preserves (journal_inv start) tx_world_meta" "preserves (journal_inv start) (tx_player_snapshot p)"
  "preserves (journal_inv start) (tx_block_state q)" "preserves (journal_inv start) (tx_block_entity q)"
  "preserves (journal_inv start) (tx_can_edit_block p q)" "preserves (journal_inv start) tx_content"
  unfolding tx_world_meta_def tx_player_snapshot_def tx_block_state_def tx_block_entity_def tx_can_edit_block_def tx_content_def
  by (intro preserves_intros; simp add: journal_inv_def)+

lemma preserves_unless_none [preserves_intros]:
  "preserves I m \<Longrightarrow> (\<And>x. preserves I (f x)) \<Longrightarrow> preserves I (unless_none m f)"
  unfolding unless_none_def by (intro preserves_intros)

lemma journal_place_block [preserves_intros]: "preserves (journal_inv start) (place_block p hand position face held_item)"
  unfolding place_block_def place_rejection_def Let_def by (intro preserves_intros journal_push is_prepare_login_simps)

lemma journal_builtin: "preserves (journal_inv start) (builtin_gameplay_command command)"
  by (cases command; simp only: builtin_gameplay_command.simps set_held_slot_def creative_inventory_set_def
      reject_inventory_slot_events_def dig_block_def use_block_def Let_def; intro preserves_intros journal_push is_prepare_login_simps)

lemma journal_effects: "preserves (journal_inv start) (sfor effects apply_effect_to_transaction)"
proof -
  have "\<not> is_prepare_login (core_op_from_effect effect)" for effect by (cases effect) simp_all
  then show ?thesis unfolding effect_op by (intro preserves_intros journal_push) auto
qed

lemma journal_finalize: "preserves (journal_inv start) (finalize_login connection_id p)"
  unfolding finalize_login_def by (intro preserves_intros journal_push) (simp_all add: journal_inv_def)

lemma pure_sand [pure_intros]: "pure_read m \<Longrightarrow> pure_read n \<Longrightarrow> pure_read (sand m n)"
  unfolding sand_def by (intro pure_intros)

lemma pure_sall [pure_intros]: "(\<And>x. pure_read (f x)) \<Longrightarrow> pure_read (sall xs f)"
  by (induction xs) (simp_all add: pure_sret pure_sand)

lemma pure_smatches [pure_intros]: "pure_read m \<Longrightarrow> pure_read (smatches m P)"
  unfolding smatches_def by (intro pure_intros)

lemma pure_case_prod [pure_intros]: "(\<And>a b. pure_read (f a b)) \<Longrightarrow> pure_read (case y of (a, b) \<Rightarrow> f a b)"
  and pure_case_triple [pure_intros]: "(\<And>a b. pure_read (g a b z)) \<Longrightarrow> pure_read ((case y of (a, b) \<Rightarrow> g a b) z)"
  by (simp_all split: prod.split)

lemma pure_read_set [pure_intros]: "pure_read (read_set_matches rs)" "pure_read (semantic_reads_match base_backend srs)"
  unfolding read_set_matches_def semantic_reads_match_def Let_def by (intro pure_intros)+

lemma pure_preserves: "pure_read m \<Longrightarrow> preserves I m"
  using pure_result [of m] by (simp add: preserves_def)

lemma snd_sbind_sret: "snd (sbind m (\<lambda>x. sret (f x)) s) = snd (m s)"
  by (simp add: sr_defs split: prod.split sum.split)

lemma sbind_sget: "sbind (sget g) f s = f (g s) s"
  by (simp add: sr_defs)

lemma wf_journal:
  assumes wf: "core_wf c" and journal: "no_login (gj_ops j) \<or> (\<exists>op ops. gj_ops j = op # ops \<and> no_login ops \<and> fresh_login UNIV op c)"
  shows "core_wf (snd (validate_and_apply_gameplay_journal j c))"
proof -
  have "core_wf (snd (apply_core_ops (gj_ops j) (gj_now_ms j) {} c))"
  proof (cases "no_login (gj_ops j)")
    case True
    then show ?thesis using preservesD [OF wf_apply_core_ops wf] by blast
  next
    case False
    with journal obtain op ops where ops: "gj_ops j = op # ops" "no_login ops" and fresh: "fresh_login UNIV op c" by blast
    let ?F = "finalized_players (op # ops)"
    have "fresh_login ?F op c" using fresh by (simp add: fresh_login_def split: core_op.splits)
    from wf_reduce_core_op [OF wf this] have "core_wf (snd (reduce_core_op base_backend op (gj_now_ms j) ?F c))" .
    moreover obtain r c1 where step: "reduce_core_op base_backend op (gj_now_ms j) ?F c = (r, c1)" by fastforce
    ultimately have c1: "core_wf c1" by simp
    show ?thesis
    proof (cases r)
      case (Inr applied)
      show ?thesis
        unfolding apply_core_ops_def ops run_core_ops.simps
        using step Inr preservesD [OF wf_run_core_ops [OF ops(2)] c1]
        by (simp add: sbind_def [of "reduce_core_op _ _ _ _"] sbind_sget snd_sbind_sret case_prod_beta)
    qed (use step c1 in \<open>simp add: apply_core_ops_def ops sbind_def del: reduce_core_op.simps\<close>)
  qed
  then show ?thesis
    using wf pure_result [OF pure_read_set(1), of "gj_read_set j" c]
    by (simp add: validate_and_apply_gameplay_journal_def smap_result_def sbind_def [of "read_set_matches _"] sret_def [of Conflict]
        snd_sbind_sret)
qed

lemma fresh_login_new:
  assumes wf: "core_wf c" and run: "begin_login connection_id username p (transaction_new c now_ms) = (Inr None, tx)"
  shows "\<exists>op. tx_journal tx = [op] \<and> fresh_login UNIV op c"
proof -
  from begin_login_run [OF run] obtain player where free: "map_of (es_players_by_player_id (sc_entities c)) p = None"
    and player: "player = login_player (sc_content_behavior c) (ws_config (sc_world c)) p username
      (map_of (ws_saved_players (sc_world c)) p)"
    and journal: "tx_journal tx = [PrepareLogin p player (es_next_entity_id (sc_entities c))]"
    by fastforce
  have "ps_id player = p" if "ids_left c"
    unfolding player using wf that by (intro login_player_id) (simp add: core_wf_def saved_ok_def)
  then have "fresh_login UNIV (PrepareLogin p player (es_next_entity_id (sc_entities c))) c"
    using wf free by (simp add: fresh_login_def core_wf_def)
  with journal show ?thesis by blast
qed

text \<open>A program that has begun a login and then writes operations that are no logins.\<close>

lemma login_journal:
  assumes wf: "core_wf c"
    and cont: "\<And>start. preserves (journal_inv start) k"
    and run: "begin_login connection_id username p (transaction_new c now_ms) = (Inr None, tx1)" and "snd (k tx1) = tx"
  shows "core_wf (snd (validate_and_apply_gameplay_journal (into_journal tx) c))"
proof -
  obtain op where op: "tx_journal tx1 = [op]" "fresh_login UNIV op c"
    using fresh_login_new [OF wf run] by blast
  have "journal_inv [op] tx1" by (simp add: journal_inv_def op)
  from preservesD [OF cont this] assms(4) obtain ops where "tx_journal tx = op # ops" "no_login ops"
    by (auto simp: journal_inv_def)
  with op(2) show ?thesis by (intro wf_journal [OF wf]) (auto simp: into_journal_def)
qed

lemma wf_commit: "core_wf (snd (validate_and_apply_gameplay_journal (into_journal tx) c)) \<Longrightarrow> core_wf (snd (commit tx c))"
  by (auto simp: commit_def sbind_def sret_def sfail_def split: prod.splits sum.splits journal_apply_result.split)

lemma wf_with_transaction:
  assumes "\<And>c x tx. core_wf c \<Longrightarrow> m (transaction_new c now_ms) = (Inr x, tx) \<Longrightarrow> core_wf (snd (k x tx c))"
  shows "preserves core_wf (with_transaction now_ms m k)"
  using assms by (auto simp: preserves_def with_transaction_def split: prod.splits sum.splits)

lemma wf_builtin: "preserves core_wf (apply_builtin_gameplay_command command now_ms)"
  unfolding apply_builtin_gameplay_command_def
proof (rule wf_with_transaction)
  fix c x tx assume wf: "core_wf c" and run: "builtin_gameplay_command command (transaction_new c now_ms) = (Inr x, tx)"
  have "journal_inv [] (transaction_new c now_ms)" by (simp add: journal_inv_def transaction_new_def)
  from preservesD [OF journal_builtin [of _ command] this] run have "no_login (tx_journal tx)" by (auto simp: journal_inv_def)
  then show "core_wf (snd (commit tx c))" by (intro wf_commit wf_journal [OF wf]) (simp add: into_journal_def)
qed

lemma wf_login_start: "preserves core_wf (login_start connection_id username p now_ms)"
  unfolding login_start_def
proof (rule wf_with_transaction)
  fix c x tx assume wf: "core_wf c"
    and run: "sbind (begin_login connection_id username p) (\<lambda>rejection.
        case rejection of
          Some events \<Rightarrow> sret (Some events)
        | None \<Rightarrow> sbind (finalize_login connection_id p) (\<lambda>r. case r of Inl _ \<Rightarrow> sfail LoginPanic | Inr _ \<Rightarrow> sret None))
      (transaction_new c now_ms) = (Inr x, tx)"
  show "core_wf (snd ((case x of None \<Rightarrow> commit tx | Some events \<Rightarrow> sret events) c))"
  proof (cases x)
    case None
    with run obtain tx1 r where "begin_login connection_id username p (transaction_new c now_ms) = (Inr None, tx1)"
      and "finalize_login connection_id p tx1 = (r, tx)"
      by (auto simp: sbind_def sret_def sfail_def split: prod.splits sum.splits option.splits)
    with login_journal [OF wf journal_finalize this(1), of connection_id p tx] show ?thesis unfolding None by (simp add: wf_commit)
  qed (simp add: sret_def wf)
qed

lemma wf_committed_effects: "preserves core_wf (apply_committed_gameplay_effects now_ms effects)"
proof -
  have "\<not> is_prepare_login (core_op_from_effect effect)" for effect by (cases effect) simp_all
  then show ?thesis unfolding apply_committed_gameplay_effects_def by (intro wf_apply_core_ops) auto
qed

lemma wf_effects: "preserves core_wf (validate_and_apply_gameplay_effects batch)"
  unfolding validate_and_apply_gameplay_effects_def
  by (intro preserves_intros wf_committed_effects pure_preserves pure_read_set)

lemma journal_finish: "preserves (journal_inv start) (finish_login_effects connection_id p effects)"
  unfolding finish_login_effects_def by (intro preserves_intros journal_effects journal_finalize)

lemma wf_login_program:
  assumes "\<And>start. preserves (journal_inv start) k"
  shows "preserves core_wf (with_transaction now_ms
       (sbind (begin_login connection_id username p) (\<lambda>rejection. if rejection \<noteq> None then sret False else k))
       (\<lambda>ready tx. if ready then smap_result gameplay_effect_apply_result (validate_and_apply_gameplay_journal (into_journal tx))
                   else sret EffectConflict))"
proof (rule wf_with_transaction)
  fix c ready tx assume wf: "core_wf c"
    and run: "sbind (begin_login connection_id username p) (\<lambda>rejection. if rejection \<noteq> None then sret False else k)
      (transaction_new c now_ms) = (Inr ready, tx)"
  show "core_wf (snd ((if ready then smap_result gameplay_effect_apply_result (validate_and_apply_gameplay_journal (into_journal tx))
      else sret EffectConflict) c))"
  proof (cases ready)
    case True
    with run obtain tx1 where "begin_login connection_id username p (transaction_new c now_ms) = (Inr None, tx1)"
      and "snd (k tx1) = tx"
      by (auto simp: sbind_def sret_def split: prod.splits sum.splits if_splits)
    with login_journal [OF wf assms] True show ?thesis by (simp add: smap_result_def snd_sbind_sret)
  qed (simp add: sret_def wf)
qed

lemma wf_login_effects:
  "preserves core_wf (validate_and_apply_login_effects connection_id username p batch)"
  "preserves core_wf (apply_committed_login_effects connection_id username p now_ms effects)"
  unfolding validate_and_apply_login_effects_def apply_committed_login_effects_def
  by (intro wf_login_program preserves_intros journal_finish)+

lemma wf_apply_command: "preserves core_wf (apply_command command now_ms)"
  by (cases command) (simp_all add: wf_login_start wf_builtin wf_apply_core_ops is_prepare_login_def)

lemma wf_server_core_new: "core_wf (server_core_new config content)"
  by (simp add: server_core_new_def wf_defs fun_eq_iff)

text \<open>What the invariant gives: the conditions under which transactions and logins are known to work.\<close>

lemma wf_core_ok: "core_wf c \<Longrightarrow> ids_left c \<Longrightarrow> core_ok c"
  using player_entities_distinct [of c]
  by (auto simp: core_ok_def overlay_rel_def core_wf_def stores_ok_def tx_overlay_default_def overlay_next_entity_id_def
      overlay_next_keep_alive_id_def chunks_rel_def players_rel_def ov_rel_empty inj_on_def dom_def)

lemma wf_login_ok:
  assumes "core_wf c" and "ids_left c"
  shows "login_ok c p"
proof -
  from assms have ok: "players_ok c" "ids_fresh c" "saved_ok c" by (simp_all add: core_wf_def)
  have "es_next_entity_id (sc_entities c) \<notin> ran (map_of (es_players_by_player_id (sc_entities c)))"
    using ok(1,2) unfolding players_ok_def ids_fresh_def ran_def by fastforce
  with ok(3) assms(1) show ?thesis
    by (auto simp: login_ok_def saved_ok_def core_wf_def i32_ok_def)
qed

end
