(* ===== verification/Version_Laws.thy ===== *)
theory Version_Laws
  imports Core_Version Core_Invariant
begin

text \<open>
  What the transfer of a core promises: the log of a mutation, replayed on the version it started from, gives
  the version it led to; a delta carries a history of commits from one process to the other; a
  snapshot of a core that satisfies the invariant is accepted and gives the core back.
\<close>

section \<open>Replaying what was logged\<close>

text \<open>One operation of \<open>CoreMutation\<close> that returns.\<close>

inductive mutates :: "core_mutation \<Rightarrow> core_mutation \<Rightarrow> bool" where
  command: "mutation_apply_command command now_ms cm = (Inr events, cm') \<Longrightarrow> mutates cm cm'"
| builtin: "mutation_apply_builtin_gameplay_command gameplay now_ms cm = (Inr events, cm') \<Longrightarrow> mutates cm cm'"
| tick: "mutation_tick now_ms cm = (Inr events, cm') \<Longrightarrow> mutates cm cm'"
| effects: "mutation_apply_gameplay_effects batch cm = (Inr result, cm') \<Longrightarrow> mutates cm cm'"
| login: "mutation_apply_login_effects connection_id username p batch cm = (Inr result, cm') \<Longrightarrow> mutates cm cm'"
| max_players: "mutation_set_max_players max_players cm = (Inr (), cm') \<Longrightarrow> mutates cm cm'"
| config: "mutation_reconfigure cfg cm = (Inr (), cm') \<Longrightarrow> mutates cm cm'"

inductive_cases mutatesE: "mutates cm cm'"

text \<open>What an operation adds to the log leads, replayed, to the state it left.\<close>

definition logs :: "core_mutation \<Rightarrow> core_transfer_mutation list \<Rightarrow> core_mutation \<Rightarrow> bool" where
  "logs cm ms cm' \<longleftrightarrow> cm_transfer_mutations cm' = cm_transfer_mutations cm @ ms \<and>
     cm_base_revision cm' = cm_base_revision cm \<and> sfor ms mutation_replay (cm_state cm) = (Inr (), cm_state cm')"

lemma logged_program:
  assumes "sbind (on_state m) (\<lambda>x. sbind (if logged x then log_mutation entry else sret ()) (\<lambda>_. sret x)) cm = (Inr y, cm')"
    and "\<And>x c'. m (cm_state cm) = (Inr x, c') \<Longrightarrow> logged x \<Longrightarrow> mutation_replay entry (cm_state cm) = (Inr (), c')"
    and "\<And>x c'. m (cm_state cm) = (Inr x, c') \<Longrightarrow> \<not> logged x \<Longrightarrow> c' = cm_state cm"
  shows "\<exists>ms. logs cm ms cm'"
proof -
  from assms(1) obtain x c' where run: "m (cm_state cm) = (Inr x, c')"
    and cm': "cm' = (if logged x then cm_transfer_mutations_update (\<lambda>ms. ms @ [entry]) else (\<lambda>cm. cm)) (cm\<lparr>cm_state := c'\<rparr>)"
    by (auto simp: on_state_def log_mutation_def sr_defs split: prod.splits sum.splits if_splits)
  have "logs cm (if logged x then [entry] else []) cm'"
    using assms(2,3) [OF run] by (auto simp: logs_def cm' sbind_def sret_def)
  then show ?thesis by blast
qed

lemmas always_logged = logged_program [where logged = "\<lambda>_. True", simplified]

lemma pure_semantic_reads [pure_intros]: "pure_read (semantic_reads_match overlay_backend rs)"
  unfolding semantic_reads_match_def by (intro pure_intros)

lemma effects_run:
  assumes "validate_and_apply_gameplay_effects batch c = (Inr result, c')"
  shows "result = EffectConflict \<and> c' = c \<or>
    (\<exists>events. result = EffectApplied events \<and>
       apply_committed_gameplay_effects (eb_now_ms batch) (eb_effects batch) c = (Inr events, c'))"
  using assms pure_result [OF pure_read_set(2), of "eb_reads batch" c]
  by (auto simp: validate_and_apply_gameplay_effects_def smap_result_def sbind_def sret_def split: if_splits prod.splits sum.splits)

lemma journal_conflict: "validate_and_apply_gameplay_journal j c = (Inr Conflict, c') \<Longrightarrow> c' = c"
  using pure_result [OF pure_read_set(1), of "gj_read_set j" c]
  by (auto simp: validate_and_apply_gameplay_journal_def smap_result_def sbind_def sret_def split: if_splits prod.splits sum.splits)

lemma effect_result_conflict: "gameplay_effect_apply_result r = EffectConflict \<longleftrightarrow> r = Conflict"
  by (cases r) simp_all

lemma login_conflict:
  assumes "validate_and_apply_login_effects connection_id username p batch c = (Inr EffectConflict, c')"
  shows "c' = c"
  using assms journal_conflict
  by (auto simp: validate_and_apply_login_effects_def with_transaction_def smap_result_def sbind_def [of "validate_and_apply_gameplay_journal _"]
      sret_def effect_result_conflict split: if_splits prod.splits sum.splits)

text \<open>A login that was applied is applied again without its read set.\<close>

lemma login_replay:
  assumes "validate_and_apply_login_effects connection_id username p batch c = (Inr result, c')" and "result \<noteq> EffectConflict"
  shows "apply_committed_login_effects connection_id username p (eb_now_ms batch) (eb_effects batch) c = (Inr result, c')"
proof -
  define k where "k = smap_result (\<lambda>r. case r of Inl _ \<Rightarrow> False | Inr _ \<Rightarrow> True)
    (finish_login_effects connection_id p (eb_effects batch))"
  have "sbind (begin_login connection_id username p) (\<lambda>rejection. if rejection \<noteq> None then sret False else k) tx = (Inr True, tx')"
    if "sbind (begin_login connection_id username p) (\<lambda>rejection. if rejection \<noteq> None then sret False
        else sbind (on_overlay (semantic_reads_match overlay_backend (eb_reads batch))) (\<lambda>matches.
          if \<not> matches then sret False else k)) tx = (Inr True, tx')" for tx tx'
    using that by (auto simp: sbind_def on_overlay_pure pure_semantic_reads sret_def split: if_splits prod.splits sum.splits)
  with assms show ?thesis
    unfolding validate_and_apply_login_effects_def apply_committed_login_effects_def with_transaction_def k_def [symmetric]
    by (auto simp: sret_def split: if_splits prod.splits sum.splits)
qed

lemma no_effects: "apply_committed_gameplay_effects now_ms [] c = (Inr events, c') \<Longrightarrow> c' = c"
  by (simp add: apply_committed_gameplay_effects_def apply_core_ops_def sret_def)

lemma mutates_logs: "mutates cm cm' \<Longrightarrow> \<exists>ms. logs cm ms cm'"
proof (induction rule: mutates.induct)
  case (effects batch cm result cm')
  then show ?case
    unfolding mutation_apply_gameplay_effects_def
    by (rule logged_program) (auto dest!: effects_run simp: panics_def dest: no_effects)
next
  case (login connection_id username p batch cm result cm')
  then show ?case
    unfolding mutation_apply_login_effects_def
    by (rule logged_program) (auto dest: login_replay login_conflict)
next
  case (max_players n cm cm')
  then have "logs cm [SetMaxPlayers n] cm'"
    by (auto simp: mutation_set_max_players_def on_state_def log_mutation_def logs_def sr_defs)
  then show ?case by blast
next
  case (config cfg cm cm')
  then have "logs cm [Reconfigure cfg] cm'"
    by (auto simp: mutation_reconfigure_def on_state_def log_mutation_def logs_def sr_defs)
  then show ?case by blast
qed (auto simp: mutation_apply_command_def mutation_apply_builtin_gameplay_command_def mutation_tick_def panics_def
    dest!: always_logged)

lemma sfor_append: "sfor (xs @ ys) f = sbind (sfor xs f) (\<lambda>_. sfor ys f)"
  by (induction xs) (auto simp: fun_eq_iff sr_defs split: prod.split sum.split)

lemma logs_trans: "logs cm ms cm' \<Longrightarrow> logs cm' ms' cm'' \<Longrightarrow> logs cm (ms @ ms') cm''"
  by (simp add: logs_def sfor_append sbind_def)

lemma mutates_many_logs: "mutates\<^sup>*\<^sup>* cm cm' \<Longrightarrow> \<exists>ms. logs cm ms cm'"
proof (induction rule: rtranclp_induct)
  case base
  have "logs cm [] cm" by (simp add: logs_def sret_def)
  then show ?case by blast
next
  case (step cm' cm'')
  then show ?case using mutates_logs logs_trans by blast
qed

section \<open>Histories\<close>

text \<open>The versions a process goes through: every commit is a mutation of the latest version, and those that logged
  something are handed on. A mutation that logged nothing leaves the version as it is.\<close>

inductive evolves :: "core_version \<Rightarrow> core_transfer_commit list \<Rightarrow> core_version \<Rightarrow> bool" where
  start: "evolves v [] v"
| step: "evolves v entries v1 \<Longrightarrow> mutates\<^sup>*\<^sup>* (mutation_from_version v1) cm \<Longrightarrow>
    into_parts (mutation_prepare events requires_persistence cm) = (v2, events', persist, entry) \<Longrightarrow>
    cm_transfer_mutations cm \<noteq> [] \<Longrightarrow> evolves v (entries @ [entry]) v2"
| idle: "evolves v entries v1 \<Longrightarrow> mutates\<^sup>*\<^sup>* (mutation_from_version v1) cm \<Longrightarrow>
    into_parts (mutation_prepare events requires_persistence cm) = (v2, events', persist, entry) \<Longrightarrow>
    cm_transfer_mutations cm = [] \<Longrightarrow> evolves v entries v2"

text \<open>A commit leads from one version to the next.\<close>

definition commit_step :: "core_version \<Rightarrow> core_transfer_commit \<Rightarrow> core_version \<Rightarrow> bool" where
  "commit_step v entry v' \<longleftrightarrow> ct_base_revision entry = vr_revision v \<and> ct_next_revision entry = revision_next (vr_revision v) \<and>
     vr_revision v' = revision_next (vr_revision v) \<and>
     sfor (ct_mutations entry) mutation_replay (vr_state v) = (Inr (), vr_state v')"

inductive commit_path :: "core_version \<Rightarrow> core_transfer_commit list \<Rightarrow> core_version \<Rightarrow> bool" where
  nil: "commit_path v [] v"
| cons: "commit_step v entry v1 \<Longrightarrow> commit_path v1 entries v2 \<Longrightarrow> commit_path v (entry # entries) v2"

inductive_simps commit_path_simps: "commit_path v [] v'" "commit_path v (entry # entries) v'"

lemma commit_path_append: "commit_path v entries v1 \<Longrightarrow> commit_path v1 entries' v2 \<Longrightarrow> commit_path v (entries @ entries') v2"
  by (induction rule: commit_path.induct) (auto intro: commit_path.intros)

lemma commit_path_split: "commit_path v (entries @ entries') v2 \<Longrightarrow> \<exists>v1. commit_path v entries v1 \<and> commit_path v1 entries' v2"
  by (induction entries arbitrary: v) (auto simp: commit_path_simps, blast)

lemma sealed_commit:
  assumes "mutates\<^sup>*\<^sup>* (mutation_from_version v1) cm"
    and "into_parts (mutation_prepare events requires_persistence cm) = (v2, events', persist, entry)"
  shows "if cm_transfer_mutations cm = [] then v2 = v1 else commit_step v1 entry v2"
proof -
  from mutates_many_logs [OF assms(1)] obtain ms where "logs (mutation_from_version v1) ms cm" by blast
  then have cm: "cm_transfer_mutations cm = ms" "cm_base_revision cm = vr_revision v1"
    and replay: "sfor ms mutation_replay (vr_state v1) = (Inr (), cm_state cm)"
    by (simp_all add: logs_def mutation_from_version_def)
  from assms(2) have "v2 = \<lparr>vr_revision = (if ms = [] then vr_revision v1 else revision_next (vr_revision v1)), vr_state = cm_state cm\<rparr>"
    and "entry = \<lparr>ct_base_revision = vr_revision v1, ct_next_revision = vr_revision v2, ct_requires_persistence = persist,
      ct_mutations = ms\<rparr>"
    by (auto simp: into_parts_def mutation_prepare_def cm)
  then show ?thesis using cm replay by (auto simp: commit_step_def sret_def)
qed

lemma evolves_path: "evolves v entries v' \<Longrightarrow> commit_path v entries v'"
proof (induction rule: evolves.induct)
  case (step v entries v1 cm events requires_persistence v2 events' persist entry)
  then have "commit_step v1 entry v2" using sealed_commit [OF step.hyps(2,3)] by simp
  with step.IH show ?case by (auto intro: commit_path_append commit_path.intros)
next
  case (idle v entries v1 cm events requires_persistence v2 events' persist entry)
  then show ?case using sealed_commit [OF idle.hyps(2,3)] by simp
qed (rule commit_path.nil)

section \<open>The bytes of a delta\<close>

text \<open>What the serializer is relied on for, at one value: what it has written without an error is read back, to the end.\<close>

definition round_trips :: "'a serializer \<Rightarrow> 'a deserializer \<Rightarrow> 'a \<Rightarrow> bool" where
  "round_trips ser de v \<longleftrightarrow> (\<forall>chunks. ser v = (chunks, None) \<longrightarrow> de (concat chunks) = Inr (v, []))"

lemma bounded_write_all_ok:
  "bounded_write_all reserve chunks w = (True, w') \<Longrightarrow> length (tw_bytes w) \<le> tw_limit w \<Longrightarrow>
    tw_bytes w' = tw_bytes w @ concat chunks \<and> length (tw_bytes w') \<le> tw_limit w"
proof (induction chunks arbitrary: w)
  case (Cons chunk chunks)
  show ?case
  proof (cases "chunk = []")
    case False
    with Cons.prems(1) obtain w1 where first: "bounded_write reserve chunk w = (True, w1)"
      and rest: "bounded_write_all reserve chunks w1 = (True, w')"
      by (auto split: prod.splits bool.splits)
    then have w1: "tw_bytes w1 = tw_bytes w @ chunk" "tw_limit w1 = tw_limit w" "length (tw_bytes w1) \<le> tw_limit w1"
      by (auto simp: bounded_write_def usize_checked_add_def split: option.splits if_splits)
    from Cons.IH [OF rest w1(3)] have "tw_bytes w' = tw_bytes w1 @ concat chunks" and "length (tw_bytes w') \<le> tw_limit w1"
      by blast+
    with w1(1,2) show ?thesis by (metis append_assoc concat.simps(2))
  next
    case True
    with Cons.prems have "bounded_write_all reserve chunks w = (True, w')" by simp
    from Cons.IH [OF this Cons.prems(2)] True show ?thesis by auto
  qed
qed simp

lemma encode_transfer_ok:
  assumes "encode_transfer reserve ser v limit = Inr bs"
  shows "\<exists>chunks. ser v = (chunks, None) \<and> bs = concat chunks \<and> length bs \<le> limit"
proof -
  from assms obtain chunks w where ser: "ser v = (chunks, None)" and bs: "bs = tw_bytes w"
    and run: "bounded_write_all reserve chunks (bounded_writer_new limit) = (True, w)"
    by (auto simp: encode_transfer_def split: prod.splits bool.splits option.splits)
  from bounded_write_all_ok [OF run] have "tw_bytes w = concat chunks" and "length (tw_bytes w) \<le> limit"
    by (auto simp: bounded_writer_new_def)
  with ser bs show ?thesis by metis
qed

lemma decode_encoded:
  assumes "encode_transfer reserve ser v limit = Inr bs" and "limit \<le> MAX_CORE_TRANSFER_BYTES" and "round_trips ser de v"
  shows "decode_transfer de bs = Inr v"
  using encode_transfer_ok [OF assms(1)] assms(2,3) by (auto simp: decode_transfer_def round_trips_def)

definition frame_bytes :: "encoded_core_transfer_commit \<Rightarrow> bytes" where
  "frame_bytes e = le_bytes 4 (word_of_nat (length (en_bytes e)) :: u32) @ en_bytes e"

definition delta_header :: "core_revision \<Rightarrow> core_revision \<Rightarrow> nat \<Rightarrow> bytes" where
  "delta_header base final number = CORE_DELTA_MAGIC @ le_bytes 2 CORE_TRANSFER_FORMAT_MAJOR @ le_bytes 8 base @
     le_bytes 8 final @ le_bytes 4 (word_of_nat number :: u32)"

text \<open>A writer that never fails, and what it has received; a vector is one.\<close>

lemma write_frames_vec:
  "\<forall>e \<in> set entries. length (en_bytes e) < 2 ^ 32 \<Longrightarrow>
    sfor entries (write_frame vec_writer) v = (Inr (), v @ concat (map frame_bytes entries))"
  by (induction entries arbitrary: v) (auto simp: write_frame_def vec_writer_def to_output_def frame_bytes_def sr_defs)

lemma write_preencoded_vec:
  assumes "\<forall>e \<in> set entries. length (en_bytes e) < 2 ^ 32" and "length entries < 2 ^ 32"
  shows "write_preencoded vec_writer d entries v =
    (Inr (), v @ delta_header (dd_base_revision d) (dd_final_revision d) (length entries) @ concat (map frame_bytes entries))"
  using assms
  by (simp add: write_preencoded_def delta_header_def write_frames_vec) (simp add: to_output_def vec_writer_def sr_defs write_frames_vec)

lemma check_adjacent_ok:
  assumes "check_adjacent entries expected len number = Inr (final, len')"
  shows "len' = len + length (concat (map frame_bytes entries)) \<and> (entries \<noteq> [] \<longrightarrow> number + length entries \<le> MAX_COMMITS) \<and>
    (\<forall>e \<in> set entries. length (en_bytes e) \<le> len')"
  using assms
proof (induction entries arbitrary: expected len number)
  case (Cons e entries)
  from Cons.prems have number: "number + 1 \<le> MAX_COMMITS"
    and rest: "check_adjacent entries (en_next_revision e) (len + 4 + length (en_bytes e)) (number + 1) = Inr (final, len')"
    by (auto simp: usize_checked_add_def split: if_splits option.splits bind_splits)
  from Cons.IH [OF rest] number show ?case by (auto simp: frame_bytes_def)
qed simp

lemma delta_read_append: "delta_read_bytes (length bs) (bs @ rest) = (Inr bs, rest)"
  by (simp add: delta_read_bytes_def)

lemma on_reader_read: "length bs = n \<Longrightarrow> on_reader (delta_read_bytes n) (bs @ rest, c) = (Inr bs, (rest, c))"
  using delta_read_append [of bs rest] by (auto simp: on_reader_def)

lemma on_reader_words:
  "on_reader delta_read_u16 (le_bytes 2 h @ rest, c) = (Inr h, (rest, c))"
  "on_reader delta_read_u32 (le_bytes 4 w @ rest, c) = (Inr w, (rest, c))"
  "on_reader delta_read_u64 (le_bytes 8 d @ rest, c) = (Inr d, (rest, c))"
  by (simp_all add: on_reader_def delta_read_u16_def delta_read_u32_def delta_read_u64_def sbind_def delta_read_bytes_def sret_def)

text \<open>An entry of a delta stands for a commit when its frame decodes to it.\<close>

definition encodes :: "core_transfer_commit deserializer \<Rightarrow> encoded_core_transfer_commit \<Rightarrow> core_transfer_commit \<Rightarrow> bool" where
  "encodes de e entry \<longleftrightarrow> en_base_revision e = ct_base_revision entry \<and> en_next_revision e = ct_next_revision entry \<and>
     decode_transfer de (en_bytes e) = Inr entry \<and> length (en_bytes e) < 2 ^ 32"

lemma replay_frames:
  assumes "commit_path v entries v'" and "list_all2 (encodes de) es entries"
  shows "replay_commits de (length entries) (vr_revision v) (concat (map frame_bytes es) @ rest, vr_state v) =
    (Inr (vr_revision v'), (rest, vr_state v'))"
  using assms
proof (induction arbitrary: es rule: commit_path.induct)
  case (cons v entry v1 entries v2)
  from cons.prems obtain e es' where es: "es = e # es'" and e: "encodes de e entry" and es': "list_all2 (encodes de) es' entries"
    by (auto simp: list_all2_Cons2)
  have len: "unat (word_of_nat (length (en_bytes e)) :: u32) = length (en_bytes e)"
    using e by (simp add: encodes_def unat_of_nat take_bit_nat_eq_self)
  have on: "on_reader (slift (Inr x)) s = (Inr x, s)" "on_core m (r, c) = (fst (m c), (r, snd (m c)))" for x s m r c
    by (cases s; simp add: on_reader_def slift_def) (simp add: on_core_def split: prod.split)
  from cons.hyps(1) cons.IH [OF es'] e show ?case
    by (simp add: es frame_bytes_def sbind_def on_reader_words len on_reader_read encodes_def on commit_step_def)
qed (simp add: sret_def)

lemma length_header: "length (delta_header base final number) = CORE_DELTA_HEADER_BYTES"
  by (simp add: delta_header_def CORE_DELTA_HEADER_BYTES_def)

lemma delta_applies:
  assumes path: "commit_path v entries v'" and enc: "list_all2 (encodes de) es entries"
    and number: "length es \<le> MAX_COMMITS"
    and bytes: "CORE_DELTA_HEADER_BYTES + length (concat (map frame_bytes es)) \<le> MAX_CORE_TRANSFER_BYTES"
  shows "apply_process_transfer_delta de v
    (delta_header (vr_revision v) (vr_revision v') (length es) @ concat (map frame_bytes es)) = Inr v'"
proof -
  have len: "length entries = length es" using enc by (simp add: list_all2_lengthD)
  have "unat (word_of_nat (length es) :: u32) = length es"
    using number by (simp add: MAX_COMMITS_def unat_of_nat take_bit_nat_eq_self)
  moreover have "length CORE_DELTA_MAGIC = 8" by (simp add: CORE_DELTA_MAGIC_def)
  moreover have "on_reader delta_finish ([], c) = (Inr (), ([], c))" for c
    by (simp add: on_reader_def delta_finish_def)
  moreover note replay_frames [OF path enc, of "[]"]
  ultimately have "replay_delta de (vr_revision v)
      (delta_header (vr_revision v) (vr_revision v') (length es) @ concat (map frame_bytes es), vr_state v) =
      (Inr (vr_revision v'), ([], vr_state v'))"
    using number by (simp add: replay_delta_def delta_header_def sbind_def on_reader_read on_reader_words sret_def len)
  then show ?thesis
    using bytes by (simp add: apply_process_transfer_delta_def delta_reader_new_def length_header)
qed

lemma check_adjacent_path:
  assumes "commit_path v entries v'" and "list_all2 (encodes de) es entries"
    and "check_adjacent es (vr_revision v) len number = Inr (final, len')"
  shows "final = vr_revision v'"
  using assms
proof (induction arbitrary: es len number rule: commit_path.induct)
  case (cons v entry v1 entries v2)
  from cons.prems(1) obtain e es' where es: "es = e # es'" "list_all2 (encodes de) es' entries" and e: "encodes de e entry"
    by (auto simp: list_all2_Cons2)
  have "en_next_revision e = vr_revision v1"
    using e cons.hyps(1) by (simp add: encodes_def commit_step_def)
  with cons.prems(2) es(1) obtain len number where "check_adjacent es' (vr_revision v1) len number = Inr (final, len')"
    by (auto split: option.splits if_splits)
  with cons.IH [OF es(2)] show ?case by blast
qed simp

lemma encode_commits_ok:
  assumes "encode_commits reserve ser entries = Inr es" and "\<forall>entry \<in> set entries. round_trips ser de entry"
  shows "list_all2 (encodes de) es entries"
  using assms
proof (induction entries arbitrary: es)
  case (Cons entry entries)
  from Cons.prems(1) obtain bs es' where bs: "encode_transfer reserve ser entry MAX_CORE_TRANSFER_BYTES = Inr bs"
    and rest: "encode_commits reserve ser entries = Inr es'"
    and es: "es = \<lparr>en_base_revision = ct_base_revision entry, en_next_revision = ct_next_revision entry,
       en_requires_persistence = ct_requires_persistence entry, en_bytes = bs\<rparr> # es'"
    by (auto simp: bind_res_eq_Inr commit_encode_def)
  have "length bs < 2 ^ 32" using encode_transfer_ok [OF bs] by (auto simp: MAX_CORE_TRANSFER_BYTES_def)
  with decode_encoded [OF bs order_refl] Cons rest show ?case by (simp add: es encodes_def)
qed simp

lemma sealed_bytes:
  assumes "seal_preencoded reserve base es = Inr delta"
  shows "\<exists>final len. check_adjacent es base CORE_DELTA_HEADER_BYTES 0 = Inr (final, len) \<and> len \<le> MAX_CORE_TRANSFER_BYTES \<and>
    td_bytes delta = delta_header base final (length es) @ concat (map frame_bytes es)"
proof -
  from assms obtain final len where check: "check_adjacent es base CORE_DELTA_HEADER_BYTES 0 = Inr (final, len)"
    and len: "len \<le> MAX_CORE_TRANSFER_BYTES"
    and run: "write_preencoded vec_writer \<lparr>dd_base_revision = base, dd_final_revision = final, dd_encoded_len = len\<rparr> es [] =
       (Inr (), td_bytes delta)"
    by (auto simp: seal_preencoded_def validate_preencoded_def bind_res_eq_Inr split: if_splits prod.splits sum.splits)
  note sizes = check_adjacent_ok [OF check]
  have "\<forall>e \<in> set es. length (en_bytes e) < 2 ^ 32" "length es < 2 ^ 32"
    using sizes len by (auto simp: MAX_CORE_TRANSFER_BYTES_def MAX_COMMITS_def)
  from run [unfolded write_preencoded_vec [OF this]] check len show ?thesis by auto
qed

text \<open>C5: replay reproduces the core. The commits of a history of mutations, encoded, sealed into a delta, sent and
  applied to the version the history started from, give exactly the version it ended in, revision
  and state, without a panic or a transfer error.\<close>

theorem delta_reproduces_core:
  assumes "evolves v entries v'" and "delta_prepare reserve ser (vr_revision v) entries = Inr delta"
    and "\<forall>entry \<in> set entries. round_trips ser de entry"
  shows "apply_process_transfer_delta de v (td_bytes delta) = Inr v'"
proof -
  note path = evolves_path [OF assms(1)]
  from assms(2) obtain es where es: "encode_commits reserve ser entries = Inr es"
    and sealed: "seal_preencoded reserve (vr_revision v) es = Inr delta"
    by (auto simp: delta_prepare_def bind_res_eq_Inr)
  note enc = encode_commits_ok [OF es assms(3)]
  from sealed_bytes [OF sealed] obtain final len where
    check: "check_adjacent es (vr_revision v) CORE_DELTA_HEADER_BYTES 0 = Inr (final, len)"
    and len: "len \<le> MAX_CORE_TRANSFER_BYTES"
    and bytes: "td_bytes delta = delta_header (vr_revision v) final (length es) @ concat (map frame_bytes es)" by blast
  have "length es \<le> MAX_COMMITS" using check_adjacent_ok [OF check] by (cases es) (simp_all add: MAX_COMMITS_def)
  with delta_applies [OF path enc] check_adjacent_path [OF path enc check] check_adjacent_ok [OF check] len bytes
  show ?thesis by simp
qed

text \<open>A history of one commit, and a serializer that knows one value.\<close>

definition sample_version :: core_version where
  "sample_version = version_initial (server_core_new sample_config canonical_content)"

definition sample_entry :: core_transfer_commit where
  "sample_entry = \<lparr>ct_base_revision = 0, ct_next_revision = 1, ct_requires_persistence = False, ct_mutations = [SetMaxPlayers 5]\<rparr>"

definition sample_next :: core_version where
  "sample_next = \<lparr>vr_revision = 1, vr_state = set_max_players 5 (vr_state sample_version)\<rparr>"

definition knows :: "'a \<Rightarrow> 'a serializer" where
  "knows v = (\<lambda>x. if x = v then ([[7]], None) else ([], Some ''unknown''))"

definition recalls :: "'a \<Rightarrow> 'a deserializer" where
  "recalls v = (\<lambda>bs. if bs = [7] then Inr (v, []) else Inl ''unknown'')"

lemma knows_round_trips: "round_trips (knows v) (recalls v) x"
  by (simp add: round_trips_def knows_def recalls_def)

lemma knows_encodes: "limit \<ge> 1 \<Longrightarrow> encode_transfer (\<lambda>_. True) (knows v) v limit = Inr [7]"
  by (simp add: encode_transfer_def knows_def bounded_writer_new_def bounded_write_def usize_checked_add_def usize_max_def)

lemma sample_evolves: "evolves sample_version [sample_entry] sample_next"
proof -
  let ?cm = "\<lparr>cm_base_revision = 0, cm_state = vr_state sample_next, cm_transfer_mutations = [SetMaxPlayers 5]\<rparr>"
  have "mutates (mutation_from_version sample_version) ?cm"
    by (rule mutates.max_players)
      (simp add: mutation_set_max_players_def on_state_def log_mutation_def sr_defs mutation_from_version_def sample_version_def
        sample_next_def version_initial_def)
  then have "mutates\<^sup>*\<^sup>* (mutation_from_version sample_version) ?cm" by simp
  moreover have "into_parts (mutation_prepare [] False ?cm) = (sample_next, [], False, sample_entry)"
    by (simp add: into_parts_def mutation_prepare_def sample_next_def sample_entry_def revision_next_def saturating_add_word_def)
  ultimately have "evolves sample_version ([] @ [sample_entry]) sample_next"
    by (rule evolves.step [OF evolves.start]) simp
  then show ?thesis by simp
qed

theorem delta_reproduces_core_witness:
  "\<exists>delta. delta_prepare (\<lambda>_. True) (knows sample_entry) 0 [sample_entry] = Inr delta \<and>
     apply_process_transfer_delta (recalls sample_entry) sample_version (td_bytes delta) = Inr sample_next"
proof -
  have "\<exists>delta. delta_prepare (\<lambda>_. True) (knows sample_entry) (vr_revision sample_version) [sample_entry] = Inr delta"
    by (simp add: delta_prepare_def commit_encode_def knows_encodes MAX_CORE_TRANSFER_BYTES_def seal_preencoded_def
        validate_preencoded_def usize_checked_add_def usize_max_def CORE_DELTA_HEADER_BYTES_def CORE_DELTA_MAGIC_def
        sample_version_def version_initial_def revision_next_def saturating_add_word_def MAX_COMMITS_def
        write_preencoded_vec bind_res_def) (simp add: sample_entry_def)
  then obtain delta where "delta_prepare (\<lambda>_. True) (knows sample_entry) (vr_revision sample_version) [sample_entry] = Inr delta"
    by blast
  with delta_reproduces_core [OF sample_evolves this, of "recalls sample_entry"] show ?thesis
    by (auto simp: knows_round_trips sample_version_def version_initial_def)
qed

section \<open>Reachable cores\<close>

lemma wf_settings: "core_wf c \<Longrightarrow> core_wf (set_max_players n c)" "core_wf c \<Longrightarrow> core_wf (reconfigure cfg c)"
  by (auto simp: set_max_players_def reconfigure_def wf_defs fun_eq_iff)

lemma on_state_wf: "preserves core_wf m \<Longrightarrow> preserves (\<lambda>cm. core_wf (cm_state cm)) (on_state m)"
  by (auto simp: preserves_def on_state_def split: prod.split)

lemma log_wf: "preserves (\<lambda>cm. core_wf (cm_state cm)) (log_mutation entry)"
  unfolding log_mutation_def by (intro preserves_intros) simp

lemma mutates_wf:
  assumes "mutates cm cm'" and "core_wf (cm_state cm)"
  shows "core_wf (cm_state cm')"
proof -
  let ?I = "\<lambda>cm. core_wf (cm_state cm)"
  have ops: "preserves ?I (mutation_apply_command command now_ms)"
    "preserves ?I (mutation_apply_builtin_gameplay_command gameplay now_ms)"
    "preserves ?I (mutation_tick now_ms)" "preserves ?I (mutation_apply_gameplay_effects batch)"
    "preserves ?I (mutation_apply_login_effects connection_id username p batch)"
    "preserves ?I (mutation_set_max_players n)" "preserves ?I (mutation_reconfigure cfg)"
    for command now_ms gameplay batch connection_id username p n cfg
    unfolding mutation_apply_command_def mutation_apply_builtin_gameplay_command_def mutation_tick_def
      mutation_apply_gameplay_effects_def mutation_apply_login_effects_def mutation_set_max_players_def mutation_reconfigure_def
    by (intro preserves_intros on_state_wf log_wf wf_apply_command wf_builtin wf_tick wf_effects wf_login_effects wf_settings;
        assumption)+
  from assms show ?thesis
    by (cases rule: mutates.cases) (metis ops preservesD snd_conv)+
qed

lemma mutates_many_wf: "mutates\<^sup>*\<^sup>* cm cm' \<Longrightarrow> core_wf (cm_state cm) \<Longrightarrow> core_wf (cm_state cm')"
  by (induction rule: rtranclp_induct) (auto intro: mutates_wf)

lemma evolves_wf: "evolves v entries v' \<Longrightarrow> core_wf (vr_state v) \<Longrightarrow> core_wf (vr_state v')"
proof (induction rule: evolves.induct)
  case (step v entries v1 cm events requires_persistence v2 events' persist entry)
  from mutates_many_wf [OF step.hyps(2)] step show ?case
    by (auto simp: mutation_from_version_def into_parts_def mutation_prepare_def)
next
  case (idle v entries v1 cm events requires_persistence v2 events' persist entry)
  from mutates_many_wf [OF idle.hyps(2)] idle show ?case
    by (auto simp: mutation_from_version_def into_parts_def mutation_prepare_def)
qed

text \<open>What storage has to hand over: maps in key order, and players under their own ids.\<close>

definition world_snapshot_ok :: "world_snapshot \<Rightarrow> bool" where
  "world_snapshot_ok s \<longleftrightarrow> bt_ok (wn_chunks s) \<and> bt_ok (wn_block_entities s) \<and> bt_ok (wn_players s) \<and>
     (\<forall>p player. map_of (wn_players s) p = Some player \<longrightarrow> ps_id player = p)"

lemma wf_from_snapshot: "world_snapshot_ok s \<Longrightarrow> core_wf (from_snapshot config s content)"
  by (auto simp: from_snapshot_def server_core_new_def world_snapshot_ok_def wf_defs fun_eq_iff)

lemma check_each_ok: "(\<And>x. x \<in> set xs \<Longrightarrow> f x = None) \<Longrightarrow> check_each f xs = Inr ()"
  by (induction xs) simp_all

lemma wf_snapshot_validates:
  assumes wf: "core_wf (vr_state v)" and "ids_left (vr_state v)"
  shows "snapshot_validate (snapshot_from_version v) = Inr ()"
proof -
  let ?c = "vr_state v"
  from assms have ok: "players_ok ?c" "items_ok ?c" "ids_fresh ?c" and stores: "stores_ok ?c"
    by (simp_all add: core_wf_def)
  have entry: "(k, x) \<in> set m \<longleftrightarrow> map_of m k = Some x" if "bt_ok m" for m :: "('k::linorder, 'x) btree_map" and k x
    using bt_ok_distinct [OF that] by simp
  note maps = stores [unfolded stores_ok_def]
  have sessions: "map_option se_entity_id (map_of (ss_player_sessions (sc_sessions ?c)) p) =
      map_of (es_players_by_player_id (sc_entities ?c)) p" for p
    using ok(1) unfolding players_ok_def session_entity_def by metis
  have "check_each (check_player (snapshot_from_version v)) (es_players_by_player_id (sc_entities ?c)) = Inr ()"
    using ok(1) maps sessions
    by (intro check_each_ok) (auto simp: check_player_def snapshot_from_version_def Let_def entry players_ok_def has_components_def)
  moreover have "check_each (\<lambda>(e, identity).
      if map_of (es_players_by_player_id (sc_entities ?c)) (pid_player_id identity) \<noteq> Some e
      then Some (IdentityNotIndexed e) else None) (es_player_identity (sc_entities ?c)) = Inr ()"
    using ok(1) maps by (intro check_each_ok) (auto simp: entry players_ok_def)
  moreover have "check_each (\<lambda>(p, session).
      if map_of (es_players_by_player_id (sc_entities ?c)) p \<noteq> Some (se_entity_id session)
      then Some (SessionNotIndexed p) else None) (ss_player_sessions (sc_sessions ?c)) = Inr ()"
    using maps by (intro check_each_ok) (auto simp: entry sessions [symmetric])
  moreover have "check_each (\<lambda>(e, _).
      if map_of (es_entity_kinds (sc_entities ?c)) e \<noteq> Some DroppedItemEntity then Some (ItemWithoutKind e) else None)
      (es_dropped_items (sc_entities ?c)) = Inr ()"
    using ok(2) maps by (intro check_each_ok) (auto simp: entry items_ok_def)
  moreover have "map_of (es_entity_kinds (sc_entities ?c)) (es_next_entity_id (sc_entities ?c)) = None"
    using ok(3) unfolding ids_fresh_def by (meson less_irrefl)
  ultimately show ?thesis
    by (simp add: snapshot_validate_def bind_res_def) (simp add: snapshot_from_version_def Let_def bind_res_def)
qed

lemma snapshot_version:
  "snapshot_validate (snapshot_from_version v) = Inr () \<Longrightarrow>
    snapshot_into_version (sc_content_behavior (vr_state v)) (snapshot_from_version v) = Inr v"
  by (simp add: snapshot_into_version_def bind_res_def) (simp add: snapshot_from_version_def Let_def)

text \<open>C3: the invariant of the core. A core loaded from a snapshot with its maps in order and its players
  under their own ids, and taken through any history of mutations, keeps its stores in order; and while entity ids
  are left, every player online has exactly one entity with all its components and one session that names it, every
  dropped item is an entity, the next id is free, and every read of a transaction is in range.\<close>

theorem reachable_core_invariant:
  assumes "world_snapshot_ok s" and "evolves (version_initial (from_snapshot config s content)) entries v"
  shows "core_wf (vr_state v) \<and> (ids_left (vr_state v) \<longrightarrow> core_ok (vr_state v) \<and> (\<forall>p. login_ok (vr_state v) p))"
  using evolves_wf [OF assms(2)] wf_from_snapshot [OF assms(1)] wf_core_ok wf_login_ok by (simp add: version_initial_def)

definition sample_snapshot :: world_snapshot where
  "sample_snapshot = \<lparr>wn_meta = ws_world_meta (sc_world (vr_state sample_version)), wn_chunks = [], wn_block_entities = [], wn_players = []\<rparr>"

lemma sample_snapshot_ok: "world_snapshot_ok sample_snapshot"
  by (simp add: sample_snapshot_def world_snapshot_ok_def)

lemma sample_from_snapshot:
  "version_initial (from_snapshot sample_config sample_snapshot canonical_content) = sample_version"
  by (simp add: version_initial_def sample_version_def from_snapshot_def sample_snapshot_def server_core_new_def)

theorem reachable_core_invariant_witness:
  "world_snapshot_ok sample_snapshot \<and> core_wf (vr_state sample_next) \<and> core_ok (vr_state sample_next)"
proof -
  have "ids_left (vr_state sample_next)"
    by (simp add: ids_left_def sample_next_def sample_version_def version_initial_def set_max_players_def server_core_new_def)
  with reachable_core_invariant [OF sample_snapshot_ok, of sample_config canonical_content "[sample_entry]" sample_next]
    sample_evolves sample_snapshot_ok show ?thesis by (simp add: sample_from_snapshot)
qed

text \<open>C9: a process imports what another exported. The full snapshot that a reachable core with entity ids left
  is transferred by passes the validation of the importing process, which ends with the same version.\<close>

theorem process_transfer_roundtrip:
  assumes "world_snapshot_ok s" and "evolves (version_initial (from_snapshot config s content)) entries v"
    and "ids_left (vr_state v)" and "prepare_process_transfer reserve ser v = Inr t"
    and "round_trips ser de (snapshot_from_version v)"
  shows "import_process_transfer de (tn_bytes t) (sc_content_behavior (vr_state v)) = Inr v"
proof -
  have "core_wf (vr_state v)"
    using evolves_wf [OF assms(2)] wf_from_snapshot [OF assms(1)] by (simp add: version_initial_def)
  then have "snapshot_into_version (sc_content_behavior (vr_state v)) (snapshot_from_version v) = Inr v"
    using wf_snapshot_validates assms(3) by (blast intro: snapshot_version)
  with assms(4) decode_encoded [OF _ order_refl assms(5)] show ?thesis
    by (auto simp: prepare_process_transfer_def import_process_transfer_def bind_res_eq_Inr bind_res_def split: sum.splits)
qed

theorem process_transfer_roundtrip_witness:
  "import_process_transfer (recalls (snapshot_from_version sample_next)) [7] canonical_content = Inr sample_next"
proof -
  have "ids_left (vr_state sample_next)"
    by (simp add: ids_left_def sample_next_def sample_version_def version_initial_def set_max_players_def server_core_new_def)
  moreover have "prepare_process_transfer (\<lambda>_. True) (knows (snapshot_from_version sample_next)) sample_next =
      Inr \<lparr>tn_revision = 1, tn_bytes = [7]\<rparr>"
    by (simp add: prepare_process_transfer_def knows_encodes MAX_CORE_TRANSFER_BYTES_def bind_res_def) (simp add: sample_next_def)
  ultimately have "import_process_transfer (recalls (snapshot_from_version sample_next)) (tn_bytes \<lparr>tn_revision = 1, tn_bytes = [7]\<rparr>)
      (sc_content_behavior (vr_state sample_next)) = Inr sample_next"
    using sample_evolves
    by (intro process_transfer_roundtrip [OF sample_snapshot_ok, of sample_config canonical_content "[sample_entry]" _ "\<lambda>_. True"
          "knows (snapshot_from_version sample_next)"])
      (simp_all add: sample_from_snapshot knows_round_trips)
  then show ?thesis
    by (simp add: sample_next_def sample_version_def version_initial_def set_max_players_def server_core_new_def)
qed

end
