(* ===== verification/Store_Laws.thy ===== *)
theory Store_Laws
  imports Core_Store Version_Laws
begin

text \<open>
  What the store and its journal guarantee: every retained delta replays to the published version, the retained
  events are all the events, the journal stays within its limits and its loop ends, and what is not dirty is saved.
\<close>

section \<open>Operations of the store\<close>

fun outcome_events :: "core_command_outcome \<Rightarrow> targeted_event list" where
  "outcome_events (Events events) = events"
| "outcome_events _ = []"

text \<open>The operations that take the lock to change the core, with the events they hand out.\<close>

inductive store_step :: "journal_env \<Rightarrow> core_store \<Rightarrow> targeted_event list \<Rightarrow> core_store \<Rightarrow> bool" for env where
  command: "commit_command env requires_persistence now_ms prepared s = (Inr outcome, s') \<Longrightarrow>
    \<forall>early. prepared \<noteq> PreparedOutcome early \<Longrightarrow> store_step env s (outcome_events outcome) s'"
| tick: "apply_builtin_tick env now_ms s = (Inr events, s') \<Longrightarrow> store_step env s events s'"
| ticks: "commit_gameplay_ticks env prepared_ticks s = (Inr (events, stale), s') \<Longrightarrow> store_step env s events s'"

text \<open>An operation publishes a mutation of the active version, or changes nothing.\<close>

definition publishes :: "journal_env \<Rightarrow> core_store \<Rightarrow> targeted_event list \<Rightarrow> core_store \<Rightarrow> bool" where
  "publishes env s events s' \<longleftrightarrow> (\<exists>cm requires_persistence. mutates\<^sup>*\<^sup>* (mutation_from_version (cs_active s)) cm \<and>
     (cm_transfer_mutations cm = [] \<longrightarrow> events = []) \<and>
     commit_locked env (mutation_prepare events requires_persistence cm) s = (Inr events, s'))"

lemma commit_locked_events: "commit_locked env (mutation_prepare events persist cm) s = (Inr events', s') \<Longrightarrow> events' = events"
  by (auto simp: commit_locked_def into_parts_def mutation_prepare_def Let_def split: if_splits option.splits)

lemma effects_quiet:
  assumes "mutation_apply_gameplay_effects batch cm = (Inr (EffectApplied events), cm')"
    and "cm_transfer_mutations cm' = []"
  shows "events = []"
proof -
  from assms obtain c' where run: "validate_and_apply_gameplay_effects batch (cm_state cm) = (Inr (EffectApplied events), c')"
    and "eb_effects batch = []"
    by (auto simp: mutation_apply_gameplay_effects_def on_state_def log_mutation_def sr_defs split: prod.splits sum.splits if_splits)
  with effects_run [OF run] show ?thesis
    by (auto simp: apply_committed_gameplay_effects_def apply_core_ops_def sret_def)
qed

lemma apply_ticks_mutates:
  assumes "apply_ticks r ticks cm = (Inr (events, stale), cm')"
  shows "mutates\<^sup>*\<^sup>* cm cm' \<and> (cm_transfer_mutations cm' = [] \<longrightarrow> events = [])"
  using assms
proof (induction ticks arbitrary: cm events stale)
  case (Cons tick ticks)
  from Cons.prems obtain result cm1 events1 stale1
    where first: "mutation_apply_gameplay_effects (pt_batch tick) cm = (Inr result, cm1)"
      and rest: "apply_ticks r ticks cm1 = (Inr (events1, stale1), cm')"
      and events: "events = (case result of EffectApplied batch_events \<Rightarrow> batch_events @ events1 | EffectConflict \<Rightarrow> events1)"
    by (auto simp: sbind_def sret_def split: prod.splits sum.splits effect_apply_result.splits)
  note IH = Cons.IH [OF rest]
  have step: "mutates cm cm1" using first by (rule mutates.effects)
  have "\<exists>ms. logs cm1 ms cm'" using mutates_many_logs IH by blast
  then have "cm_transfer_mutations cm' = [] \<Longrightarrow> cm_transfer_mutations cm1 = []" by (auto simp: logs_def)
  with IH effects_quiet first events step show ?case
    by (cases result) (auto intro: converse_rtranclp_into_rtranclp)
qed (simp add: sret_def)

lemma mutate_Inr: "mutate m s = (Inr (x, cm), s') \<longleftrightarrow> m (mutation_from_version (cs_active s)) = (Inr x, cm) \<and> s' = s"
  by (auto simp: mutate_def split: prod.splits sum.splits)

lemma sbind_mutate: "sbind (mutate m) f s = (Inr y, s') \<longleftrightarrow>
    (\<exists>x cm. m (mutation_from_version (cs_active s)) = (Inr x, cm) \<and> f (x, cm) s = (Inr y, s'))"
  by (auto simp: sbind_def mutate_def split: prod.splits sum.splits)

lemma smap_result_Inr: "smap_result f m s = (Inr y, s') \<longleftrightarrow> (\<exists>x. m s = (Inr x, s') \<and> y = f x)"
  by (auto simp: smap_result_def sbind_def sret_def split: prod.splits sum.splits)

lemma login_logs:
  assumes "mutation_apply_login_effects connection_id username p batch cm = (Inr (EffectApplied events), cm')"
  shows "cm_transfer_mutations cm' \<noteq> []"
  using assms
  by (auto simp: mutation_apply_login_effects_def on_state_def log_mutation_def sr_defs split: prod.splits sum.splits if_splits)

lemma command_logs:
  "mutation_apply_command command now_ms cm = (Inr events, cm') \<Longrightarrow> cm_transfer_mutations cm' \<noteq> []"
  "mutation_tick now_ms cm = (Inr events, cm') \<Longrightarrow> cm_transfer_mutations cm' \<noteq> []"
  by (auto simp: mutation_apply_command_def mutation_tick_def on_state_def log_mutation_def sr_defs split: prod.splits sum.splits)

lemma publishesI:
  assumes "commit_locked env (mutation_prepare events persist cm) s = (Inr events', s')"
    and "mutates\<^sup>*\<^sup>* (mutation_from_version (cs_active s)) cm" and "cm_transfer_mutations cm = [] \<Longrightarrow> events = []"
  shows "publishes env s events' s'"
  using assms commit_locked_events [OF assms(1)] unfolding publishes_def by blast

lemma publishes_step:
  assumes "commit_locked env (mutation_prepare events persist cm) s = (Inr events', s')"
    and "mutates (mutation_from_version (cs_active s)) cm" and "cm_transfer_mutations cm = [] \<Longrightarrow> events = []"
  shows "publishes env s events' s'"
  using assms(1) _ assms(3) by (rule publishesI) (use assms(2) in simp)

lemma publishes_ops:
  "mutation_apply_login_effects connection_id username p batch (mutation_from_version (cs_active s)) = (Inr (EffectApplied events), cm) \<Longrightarrow>
    commit_locked env (mutation_prepare events persist cm) s = (Inr events', s') \<Longrightarrow> publishes env s events' s'"
  "mutation_apply_gameplay_effects batch (mutation_from_version (cs_active s)) = (Inr (EffectApplied events), cm) \<Longrightarrow>
    commit_locked env (mutation_prepare events persist cm) s = (Inr events', s') \<Longrightarrow> publishes env s events' s'"
  "mutation_apply_command command now_ms (mutation_from_version (cs_active s)) = (Inr events, cm) \<Longrightarrow>
    commit_locked env (mutation_prepare events persist cm) s = (Inr events', s') \<Longrightarrow> publishes env s events' s'"
  "mutation_tick now_ms (mutation_from_version (cs_active s)) = (Inr events, cm) \<Longrightarrow>
    commit_locked env (mutation_prepare events persist cm) s = (Inr events', s') \<Longrightarrow> publishes env s events' s'"
  "apply_ticks r ticks (mutation_from_version (cs_active s)) = (Inr (events, stale), cm) \<Longrightarrow>
    commit_locked env (mutation_prepare events persist cm) s = (Inr events', s') \<Longrightarrow> publishes env s events' s'"
  by (blast intro: publishesI publishes_step mutates.intros dest: login_logs effects_quiet command_logs apply_ticks_mutates)+

lemma store_step_publishes:
  assumes "store_step env s events s'"
  shows "publishes env s events s' \<or> s' = s \<and> events = []"
  using assms
proof cases
  case (command persist now_ms prepared outcome)
  then show ?thesis
  proof (cases prepared)
    case (PreparedLogin connection_id username p batch)
    with command obtain result cm
      where run: "mutation_apply_login_effects connection_id username p batch (mutation_from_version (cs_active s)) = (Inr result, cm)"
        and "(case result of
            EffectApplied events \<Rightarrow> smap_result Events (commit_locked env (mutation_prepare events persist cm))
          | EffectConflict \<Rightarrow> sret (StaleLogin connection_id)) s = (Inr outcome, s')"
      by (auto simp: sbind_mutate)
    with command(1) show ?thesis
      by (cases result) (auto simp: smap_result_Inr sret_def dest: publishes_ops)
  next
    case (PreparedGameplay p batch)
    with command obtain result cm
      where run: "mutation_apply_gameplay_effects batch (mutation_from_version (cs_active s)) = (Inr result, cm)"
        and "(case result of
            EffectApplied events \<Rightarrow> smap_result Events (commit_locked env (mutation_prepare events persist cm))
          | EffectConflict \<Rightarrow> sret (StaleGameplayCommand p)) s = (Inr outcome, s')"
      by (auto simp: sbind_mutate)
    with command(1) show ?thesis
      by (cases result) (auto simp: smap_result_Inr sret_def dest: publishes_ops)
  next
    case (PreparedDirect c)
    with command show ?thesis
      by (auto simp: sbind_mutate smap_result_Inr dest: publishes_ops)
  qed simp
next
  case (tick now_ms)
  then show ?thesis
    by (auto simp: apply_builtin_tick_def sbind_mutate dest: publishes_ops)
next
  case (ticks prepared_ticks stale)
  then show ?thesis
    by (auto simp: commit_gameplay_ticks_def sbind_sget sbind_mutate sret_def split: if_splits)
      (auto simp: sbind_def [of "commit_locked _ _"] sret_def split: prod.splits sum.splits
        dest: publishes_ops)
qed

text \<open>What publication does: it advances the version by one commit, which the journal is given when the revision grew.\<close>

lemma unat_revision_next: "unat (revision_next r) = min (unat r + 1) (2 ^ 64 - 1)"
  by (simp add: revision_next_def unat_saturating_add_word)

lemma revision_next_ge: "r \<le> revision_next r"
  using unsigned_less [of r, where 'a = nat] by (simp add: word_le_nat_alt unat_revision_next)

lemma publishes_effect:
  assumes "publishes env s events s'"
  shows "cs_active s' = cs_active s \<and> st_journal (cs_state s') = st_journal (cs_state s) \<and> events = [] \<or>
    (\<exists>entry. commit_step (cs_active s) entry (cs_active s') \<and>
       (if vr_revision (cs_active s') > vr_revision (cs_active s)
        then journal_record env (vr_revision (cs_active s')) events entry (st_journal (cs_state s)) = Some (st_journal (cs_state s'))
        else st_journal (cs_state s') = st_journal (cs_state s)))"
proof -
  from assms obtain cm persist where cm: "mutates\<^sup>*\<^sup>* (mutation_from_version (cs_active s)) cm"
    and quiet: "cm_transfer_mutations cm = [] \<Longrightarrow> events = []"
    and run: "commit_locked env (mutation_prepare events persist cm) s = (Inr events, s')"
    unfolding publishes_def by blast
  obtain v2 entry where parts: "into_parts (mutation_prepare events persist cm) = (v2, events, persist, entry)"
    by (simp add: into_parts_def mutation_prepare_def)
  note sealed = sealed_commit [OF cm parts]
  from run parts have "cs_active s' = v2"
    and "if vr_revision v2 > vr_revision (cs_active s)
      then journal_record env (vr_revision v2) events entry (st_journal (cs_state s)) = Some (st_journal (cs_state s'))
      else st_journal (cs_state s') = st_journal (cs_state s)"
    by (auto simp: commit_locked_def Let_def split: if_splits option.splits)
  with sealed quiet show ?thesis by (auto split: if_splits)
qed

section \<open>Histories of a store\<close>

text \<open>The versions a store has published and the events it has handed out since some moment, with saves in between.\<close>

inductive runs :: "journal_env \<Rightarrow> core_store \<Rightarrow> core_version list \<Rightarrow> targeted_event list \<Rightarrow> core_store \<Rightarrow> bool" for env s0 where
  start: "runs env s0 [cs_active s0] [] s0"
| step: "runs env s0 vs events s \<Longrightarrow> store_step env s events' s' \<Longrightarrow> runs env s0 (vs @ [cs_active s']) (events @ events') s'"
| saved: "runs env s0 vs events s \<Longrightarrow> save_finish host plugin_id revision outcome s = (r, s') \<Longrightarrow> runs env s0 vs events s'"

text \<open>A property of histories that holds along every run: it is kept by a commit, and depends on nothing but
  the active version and the journal otherwise.\<close>

locale store_history =
  fixes env :: journal_env
    and holds :: "core_version list \<Rightarrow> targeted_event list \<Rightarrow> core_version \<Rightarrow> core_journal \<Rightarrow> bool"
  assumes stutter: "holds vs events v j \<Longrightarrow> holds (vs @ [v]) events v j"
    and recorded: "holds vs events v j \<Longrightarrow> commit_step v entry v' \<Longrightarrow> vr_revision v' > vr_revision v \<Longrightarrow>
      journal_record env (vr_revision v') events' entry j = Some j' \<Longrightarrow> holds (vs @ [v']) (events @ events') v' j'"
    and saturated: "holds vs events v j \<Longrightarrow> commit_step v entry v' \<Longrightarrow> \<not> vr_revision v' > vr_revision v \<Longrightarrow>
      holds (vs @ [v']) (events @ events') v' j"
begin

lemma kept_by_step:
  assumes "holds vs events (cs_active s) (st_journal (cs_state s))" and "store_step env s events' s'"
  shows "holds (vs @ [cs_active s']) (events @ events') (cs_active s') (st_journal (cs_state s'))"
  using store_step_publishes [OF assms(2)] assms(1)
  by (auto dest!: publishes_effect split: if_splits intro: recorded saturated stutter)

lemma kept_by_run:
  assumes "runs env s0 vs events s" and "holds [cs_active s0] [] (cs_active s0) (st_journal (cs_state s0))"
  shows "holds vs events (cs_active s) (st_journal (cs_state s))"
  using assms
proof (induction rule: runs.induct)
  case (saved vs events s host plugin_id revision outcome r s')
  then show ?case
    by (auto simp: save_finish_def split: sum.splits storage_error.splits plugin_failure_action.splits option.splits if_splits)
qed (auto intro: kept_by_step)

end

section \<open>The journal of a process transfer\<close>

definition retained_bytes :: "encoded_core_transfer_commit list \<Rightarrow> nat" where
  "retained_bytes commits = (\<Sum>e\<leftarrow>commits. length (en_bytes e))"

definition budgeted :: "process_journal \<Rightarrow> bool" where
  "budgeted j \<longleftrightarrow> pj_bytes j = retained_bytes (pj_commits j) \<and> pj_bytes j \<le> PROCESS_BYTE_LIMIT \<and>
     length (pj_commits j) \<le> MAX_COMMITS"

lemma retained_bytes_simps [simp]: "retained_bytes [] = 0" "retained_bytes (e # es) = length (en_bytes e) + retained_bytes es"
  "retained_bytes (es @ es') = retained_bytes es + retained_bytes es'"
  by (simp_all add: retained_bytes_def)

text \<open>The loop ends, because an empty journal has room for every entry; what it keeps of any property is what each
  turn keeps of it.\<close>

lemma expire_commits_returns:
  assumes "budgeted j" and "bytes \<le> PROCESS_BYTE_LIMIT" and "P j"
    and turn: "\<And>j e rest. P j \<Longrightarrow> pj_commits j = e # rest \<Longrightarrow>
      P (j\<lparr>pj_commits := rest, pj_bytes := pj_bytes j - length (en_bytes e), pj_floor := en_next_revision e\<rparr>)"
  shows "\<exists>j'. expire_commits bytes j = Some j' \<and> P j' \<and> budgeted j' \<and> length (pj_commits j') < MAX_COMMITS \<and>
    bytes + pj_bytes j' \<le> PROCESS_BYTE_LIMIT"
  using assms(1,3)
proof (induction "pj_commits j" arbitrary: j)
  case Nil
  then show ?case using assms(2) by (subst expire_commits.simps) (auto simp: budgeted_def MAX_COMMITS_def)
next
  case (Cons e rest)
  show ?case
  proof (cases "length (pj_commits j) = MAX_COMMITS \<or> bytes > PROCESS_BYTE_LIMIT - pj_bytes j")
    case True
    let ?j = "j\<lparr>pj_commits := rest, pj_bytes := pj_bytes j - length (en_bytes e), pj_floor := en_next_revision e\<rparr>"
    have "P ?j" using turn Cons by metis
    moreover have "budgeted ?j" using Cons.prems(1) by (simp add: budgeted_def Cons.hyps(2) [symmetric])
    moreover have "expire_commits bytes j = expire_commits bytes ?j"
      using True by (subst expire_commits.simps) (simp add: Cons.hyps(2) [symmetric])
    ultimately show ?thesis using Cons.hyps(1) [of ?j] by simp
  next
    case False
    then have "expire_commits bytes j = Some j" by (subst expire_commits.simps) simp
    with False Cons.prems show ?thesis by (auto simp: budgeted_def)
  qed
qed

lemma retained_size:
  assumes "commit_encode reserve ser entry PROCESS_ENTRY_BYTE_LIMIT = Inr e"
  shows "length (en_bytes e) \<le> PROCESS_ENTRY_BYTE_LIMIT" "PROCESS_ENTRY_BYTE_LIMIT \<le> PROCESS_BYTE_LIMIT"
proof -
  from assms obtain bs where "encode_transfer reserve ser entry (min PROCESS_ENTRY_BYTE_LIMIT MAX_CORE_TRANSFER_BYTES) = Inr bs"
    and "en_bytes e = bs"
    by (auto simp: commit_encode_def bind_res_eq_Inr)
  with encode_transfer_ok [OF this(1)] show "length (en_bytes e) \<le> PROCESS_ENTRY_BYTE_LIMIT" by auto
qed (simp add: PROCESS_ENTRY_BYTE_LIMIT_def PROCESS_BYTE_LIMIT_def)

text \<open>Retaining a commit: it returns, and either the journal failed, or was emptied, or has the commit at its end.\<close>

lemma process_retain_cases:
  assumes "budgeted j" and "P j"
    and turn: "\<And>j e rest. P j \<Longrightarrow> pj_commits j = e # rest \<Longrightarrow>
      P (j\<lparr>pj_commits := rest, pj_bytes := pj_bytes j - length (en_bytes e), pj_floor := en_next_revision e\<rparr>)"
  shows "\<exists>r j'. process_retain env entry j = Some (r, j') \<and> budgeted j' \<and>
    ((\<exists>e. r = Inl e) \<or>
     r = Inr () \<and> j' = j\<lparr>pj_commits := [], pj_bytes := 0, pj_floor := ct_next_revision entry\<rparr> \<or>
     r = Inr () \<and> (\<exists>j1 e. P j1 \<and> commit_encode (je_reserve_bytes env) (je_commit_serializer env) entry PROCESS_ENTRY_BYTE_LIMIT = Inr e \<and>
       j' = j1\<lparr>pj_bytes := pj_bytes j1 + length (en_bytes e), pj_commits := pj_commits j1 @ [e]\<rparr>))"
proof (cases "commit_encode (je_reserve_bytes env) (je_commit_serializer env) entry PROCESS_ENTRY_BYTE_LIMIT")
  case (Inl e)
  have "budgeted (j\<lparr>pj_commits := [], pj_bytes := 0, pj_floor := ct_next_revision entry\<rparr>)" by (simp add: budgeted_def)
  with Inl assms(1) show ?thesis by (cases e) (simp_all add: process_retain_def)
next
  case (Inr e)
  note size = retained_size [OF Inr]
  have "length (en_bytes e) \<le> PROCESS_BYTE_LIMIT" using size by (rule order_trans)
  from expire_commits_returns [OF assms(1) this assms(2) turn] obtain j1
    where j1: "expire_commits (length (en_bytes e)) j = Some j1" "P j1" "budgeted j1" "length (pj_commits j1) < MAX_COMMITS"
      "length (en_bytes e) + pj_bytes j1 \<le> PROCESS_BYTE_LIMIT" by blast
  show ?thesis
  proof (cases "je_reserve_commits env 1")
    case True
    have "budgeted (j1\<lparr>pj_bytes := pj_bytes j1 + length (en_bytes e), pj_commits := pj_commits j1 @ [e]\<rparr>)"
      using j1(3-5) by (simp add: budgeted_def)
    moreover from True j1(1) Inr have "process_retain env entry j =
        Some (Inr (), j1\<lparr>pj_bytes := pj_bytes j1 + length (en_bytes e), pj_commits := pj_commits j1 @ [e]\<rparr>)"
      by (simp add: process_retain_def)
    ultimately show ?thesis using j1(2) Inr by blast
  next
    case False
    with j1(1,3) Inr show ?thesis by (simp add: process_retain_def)
  qed
qed

lemma commit_encode_encodes:
  assumes "commit_encode reserve ser entry PROCESS_ENTRY_BYTE_LIMIT = Inr e" and "round_trips ser de entry"
  shows "encodes de e entry"
proof -
  from assms(1) obtain bs where bs: "encode_transfer reserve ser entry (min PROCESS_ENTRY_BYTE_LIMIT MAX_CORE_TRANSFER_BYTES) = Inr bs"
    and e: "e = \<lparr>en_base_revision = ct_base_revision entry, en_next_revision = ct_next_revision entry,
       en_requires_persistence = ct_requires_persistence entry, en_bytes = bs\<rparr>"
    by (auto simp: commit_encode_def bind_res_eq_Inr)
  have "decode_transfer de bs = Inr entry" using bs by (rule decode_encoded) (simp_all add: assms(2))
  moreover have "length bs < 2 ^ 32"
    using retained_size(1) [OF assms(1)] by (simp add: e PROCESS_ENTRY_BYTE_LIMIT_def)
  ultimately show ?thesis by (simp add: e encodes_def)
qed

text \<open>The retained commits lead from the version at the floor to the active one, through every version that
  was published at the floor or after.\<close>

definition covers :: "core_transfer_commit deserializer \<Rightarrow> core_version list \<Rightarrow> core_version \<Rightarrow> process_journal \<Rightarrow> bool" where
  "covers de vs v j \<longleftrightarrow> (\<exists>v0 entries. vr_revision v0 = pj_floor j \<and> commit_path v0 entries v \<and>
     list_all2 (encodes de) (pj_commits j) entries \<and>
     (\<forall>w \<in> set vs. pj_floor j \<le> vr_revision w \<longrightarrow>
        (\<exists>before after. entries = before @ after \<and> commit_path v0 before w \<and> commit_path w after v)))"

lemma coversI:
  assumes "vr_revision v0 = pj_floor j" and "commit_path v0 entries v" and "list_all2 (encodes de) (pj_commits j) entries"
    and "\<And>w. w \<in> set vs \<Longrightarrow> pj_floor j \<le> vr_revision w \<Longrightarrow>
      \<exists>before after. entries = before @ after \<and> commit_path v0 before w \<and> commit_path w after v"
  shows "covers de vs v j"
  using assms unfolding covers_def by metis

lemma commit_step_unique: "commit_step v entry v1 \<Longrightarrow> commit_step v entry v2 \<Longrightarrow> v1 = v2"
  by (simp add: commit_step_def)

lemma commit_step_revision: "commit_step v entry v' \<Longrightarrow> vr_revision v' = revision_next (vr_revision v) \<and> ct_next_revision entry = vr_revision v'"
  by (simp add: commit_step_def)

lemma unat_u64_le: "unat (r :: u64) \<le> 2 ^ 64 - 1"
  using unsigned_less [of r, where 'a = nat] by simp

lemma path_revision: "commit_path v entries v' \<Longrightarrow> unat (vr_revision v') = min (unat (vr_revision v) + length entries) (2 ^ 64 - 1)"
proof (induction rule: commit_path.induct)
  case (nil v)
  then show ?case using unat_u64_le [of "vr_revision v"] by simp
qed (auto simp: commit_step_def unat_revision_next)

lemma max_revision: "unat r = 2 ^ 64 - 1 \<longleftrightarrow> r = (- 1 :: u64)"
  by (simp add: word_unat_eq_iff unsigned_minus_1_eq_mask mask_eq_exp_minus_1)

lemma path_unsaturated:
  "commit_path v entries v' \<Longrightarrow> vr_revision v' \<noteq> - 1 \<Longrightarrow> unat (vr_revision v') = unat (vr_revision v) + length entries"
  using path_revision [of v entries v'] max_revision [of "vr_revision v'"] by (auto simp: min_def split: if_splits)

lemma covers_turn:
  assumes "covers de vs v j" and "vr_revision v \<noteq> - 1" and "pj_commits j = e # rest"
  shows "covers de vs v (j\<lparr>pj_commits := rest, pj_bytes := bytes, pj_floor := en_next_revision e\<rparr>)"
proof -
  from assms(1,3) obtain v0 entry entries where floor: "vr_revision v0 = pj_floor j" and path: "commit_path v0 (entry # entries) v"
    and enc: "encodes de e entry" "list_all2 (encodes de) rest entries"
    and split: "\<And>w. w \<in> set vs \<Longrightarrow> pj_floor j \<le> vr_revision w \<Longrightarrow>
      \<exists>before after. entry # entries = before @ after \<and> commit_path v0 before w \<and> commit_path w after v"
    unfolding covers_def by (auto simp: list_all2_Cons1)
  from path obtain v1 where v1: "commit_step v0 entry v1" "commit_path v1 entries v" by (auto simp: commit_path_simps)
  have next1: "vr_revision v1 = en_next_revision e" using v1(1) enc(1) by (simp add: commit_step_def encodes_def)
  have grown: "pj_floor j < vr_revision v1"
    using path_unsaturated [OF path assms(2)] path_unsaturated [OF v1(2) assms(2)] by (simp add: floor [symmetric] word_less_nat_alt)
  have "\<exists>before after. entries = before @ after \<and> commit_path v1 before w \<and> commit_path w after v"
    if w: "w \<in> set vs" "en_next_revision e \<le> vr_revision w" for w
  proof -
    have "pj_floor j < vr_revision w" using grown w(2) by (simp add: next1)
    with split [OF w(1)] obtain before after where ba: "entry # entries = before @ after"
      and paths: "commit_path v0 before w" "commit_path w after v" by force
    with \<open>pj_floor j < vr_revision w\<close> floor obtain before' where "before = entry # before'" "entries = before' @ after"
      by (cases before) (auto simp: commit_path_simps)
    with paths v1(1) show ?thesis by (auto simp: commit_path_simps dest: commit_step_unique)
  qed
  with v1(2) enc(2) next1 show ?thesis by (intro coversI [of v1 _ entries]) simp_all
qed

lemma covers_append:
  assumes "covers de vs v j" and "commit_step v entry v'" and "encodes de e entry"
  shows "covers de (vs @ [v']) v' (j\<lparr>pj_bytes := bytes, pj_commits := pj_commits j @ [e]\<rparr>)"
proof -
  from assms(1) obtain v0 entries where j: "vr_revision v0 = pj_floor j" "commit_path v0 entries v"
    "list_all2 (encodes de) (pj_commits j) entries"
    and split: "\<And>w. w \<in> set vs \<Longrightarrow> pj_floor j \<le> vr_revision w \<Longrightarrow>
      \<exists>before after. entries = before @ after \<and> commit_path v0 before w \<and> commit_path w after v"
    unfolding covers_def by auto
  have last: "commit_path v [entry] v'" using assms(2) by (simp add: commit_path_simps)
  have "\<exists>before after. entries @ [entry] = before @ after \<and> commit_path v0 before w \<and> commit_path w after v'"
    if "w \<in> set vs" "pj_floor j \<le> vr_revision w" for w
    using split [OF that] commit_path_append [OF _ last] by (metis append.assoc)
  moreover have "commit_path v0 (entries @ [entry]) v'" "commit_path v' [] v'"
    using commit_path_append [OF j(2) last] by (simp_all add: commit_path_simps)
  moreover have "list_all2 (encodes de) (pj_commits j @ [e]) (entries @ [entry])"
    using j(3) assms(3) by (simp add: list_all2_appendI)
  moreover have "\<exists>before after. entries @ [entry] = before @ after \<and> commit_path v0 before v' \<and> commit_path v' after v'"
    using calculation(2,3) by (metis append.right_neutral)
  ultimately show ?thesis
    using j(1) by (intro coversI [of v0 _ "entries @ [entry]"]) auto
qed

lemma covers_restart:
  assumes "\<forall>w \<in> set vs. vr_revision w < vr_revision v'" and "pj_commits j = []" and "pj_floor j = vr_revision v'"
  shows "covers de (vs @ [v']) v' j"
  using assms unfolding covers_def by (auto intro!: exI [of _ v'] exI [of _ "[]"] simp: commit_path_simps)

definition process_history :: "journal_env \<Rightarrow> core_transfer_commit deserializer \<Rightarrow> core_version list \<Rightarrow> targeted_event list \<Rightarrow>
    core_version \<Rightarrow> core_journal \<Rightarrow> bool" where
  "process_history env de vs events v jr \<longleftrightarrow> (\<exists>j. jr = Process j \<and> budgeted j \<and>
     (\<forall>w \<in> set vs. vr_revision w \<le> vr_revision v) \<and>
     ((\<forall>entry. round_trips (je_commit_serializer env) de entry) \<and> pj_failure j = None \<and> vr_revision v \<noteq> - 1 \<longrightarrow> covers de vs v j))"

lemma process_history_recorded:
  assumes "process_history env de vs events v jr" and step: "commit_step v entry v'" and grows: "vr_revision v' > vr_revision v"
    and "journal_record env (vr_revision v') events' entry jr = Some jr'"
  shows "process_history env de (vs @ [v']) (events @ events') v' jr'"
proof -
  from assms(1) obtain j where j: "jr = Process j" "budgeted j" and le: "\<forall>w \<in> set vs. vr_revision w \<le> vr_revision v"
    and cov: "\<forall>entry. round_trips (je_commit_serializer env) de entry \<Longrightarrow> pj_failure j = None \<Longrightarrow> covers de vs v j"
    using grows unfolding process_history_def by auto
  let ?P = "\<lambda>j. pj_failure j = None \<and> ((\<forall>entry. round_trips (je_commit_serializer env) de entry) \<longrightarrow> covers de vs v j)"
  have lt: "\<forall>w \<in> set vs. vr_revision w < vr_revision v'" using le grows by force
  show ?thesis
  proof (cases "pj_failure j")
    case None
    have "\<exists>r j'. process_retain env entry j = Some (r, j') \<and> budgeted j' \<and>
      ((\<exists>e. r = Inl e) \<or> r = Inr () \<and> j' = j\<lparr>pj_commits := [], pj_bytes := 0, pj_floor := ct_next_revision entry\<rparr> \<or>
       r = Inr () \<and> (\<exists>j1 e. ?P j1 \<and> commit_encode (je_reserve_bytes env) (je_commit_serializer env) entry PROCESS_ENTRY_BYTE_LIMIT = Inr e \<and>
         j' = j1\<lparr>pj_bytes := pj_bytes j1 + length (en_bytes e), pj_commits := pj_commits j1 @ [e]\<rparr>))"
      using j(2) by (rule process_retain_cases) (use None cov grows in \<open>auto intro: covers_turn\<close>)
    then obtain r j' where run: "process_retain env entry j = Some (r, j')" and j': "budgeted j'"
      and "(\<exists>e. r = Inl e) \<or> r = Inr () \<and> j' = j\<lparr>pj_commits := [], pj_bytes := 0, pj_floor := ct_next_revision entry\<rparr> \<or>
       r = Inr () \<and> (\<exists>j1 e. ?P j1 \<and> commit_encode (je_reserve_bytes env) (je_commit_serializer env) entry PROCESS_ENTRY_BYTE_LIMIT = Inr e \<and>
         j' = j1\<lparr>pj_bytes := pj_bytes j1 + length (en_bytes e), pj_commits := pj_commits j1 @ [e]\<rparr>)"
      by blast
    then consider (failed) e where "r = Inl e"
      | (restarted) "r = Inr ()" "j' = j\<lparr>pj_commits := [], pj_bytes := 0, pj_floor := ct_next_revision entry\<rparr>"
      | (appended) j1 e where "r = Inr ()" "?P j1" "j' = j1\<lparr>pj_bytes := pj_bytes j1 + length (en_bytes e), pj_commits := pj_commits j1 @ [e]\<rparr>"
          "commit_encode (je_reserve_bytes env) (je_commit_serializer env) entry PROCESS_ENTRY_BYTE_LIMIT = Inr e"
      by blast
    then show ?thesis
    proof cases
      case failed
      with assms(4) run j None have "jr' = Process (j'\<lparr>pj_failure := Some e\<rparr>)" by simp
      with j' lt show ?thesis by (auto simp: process_history_def budgeted_def)
    next
      case restarted
      with assms(4) run j None have "jr' = Process j'" by simp
      moreover have "covers de (vs @ [v']) v' j'"
        using lt restarted(2) commit_step_revision [OF step] by (intro covers_restart) simp_all
      ultimately show ?thesis using j' lt by (auto simp: process_history_def)
    next
      case appended
      with assms(4) run j None have "jr' = Process j'" by simp
      moreover have "covers de (vs @ [v']) v' j'" if "\<forall>entry. round_trips (je_commit_serializer env) de entry"
        using appended that step covers_append commit_encode_encodes by metis
      ultimately show ?thesis using j' lt by (auto simp: process_history_def)
    qed
  next
    case (Some e)
    with assms(4) j lt show ?thesis by (auto simp: process_history_def less_imp_le)
  qed
qed

lemma saturated_step:
  assumes "commit_step v entry v'" and "\<not> vr_revision v' > vr_revision v"
  shows "vr_revision v' = vr_revision v \<and> vr_revision v = - 1"
  using assms revision_next_ge [of "vr_revision v"] max_revision [of "vr_revision v"] unat_u64_le [of "vr_revision v"]
  by (auto simp: commit_step_def not_less unat_revision_next word_unat_eq_iff [of "revision_next _"] simp flip: max_revision
      dest: arg_cong [of _ _ unat])

interpretation process_retention: store_history env "process_history env de" for env de
proof
  fix vs events v entry v' jr events'
  assume "process_history env de vs events v jr" "commit_step v entry v'" "\<not> vr_revision v' > vr_revision v"
  moreover from this have "vr_revision v' = vr_revision v" "vr_revision v = - 1"
    by (auto dest: saturated_step)
  ultimately show "process_history env de (vs @ [v']) (events @ events') v' jr"
    by (auto simp: process_history_def)
next
  fix vs events v jr
  assume "process_history env de vs events v jr"
  then show "process_history env de (vs @ [v]) events v jr"
    by (auto simp: process_history_def covers_def intro: commit_path.nil) (metis append.right_neutral commit_path.nil)
qed (rule process_history_recorded)

lemma length_frame: "length (frame_bytes e) = 4 + length (en_bytes e)"
  by (simp add: frame_bytes_def)

lemma frames_length: "length (concat (map frame_bytes es)) = 4 * length es + retained_bytes es"
  by (induction es) (simp_all add: length_frame)

lemma check_adjacent_total:
  assumes "commit_path v entries v'" and "list_all2 (encodes de) es entries"
    and "number + length es \<le> MAX_COMMITS" and "len + length (concat (map frame_bytes es)) \<le> usize_max"
  shows "check_adjacent es (vr_revision v) len number = Inr (vr_revision v', len + length (concat (map frame_bytes es)))"
  using assms
proof (induction arbitrary: es len number rule: commit_path.induct)
  case (cons v entry v1 entries v2)
  from cons.prems(1) obtain e es' where es: "es = e # es'" "list_all2 (encodes de) es' entries" and e: "encodes de e entry"
    by (auto simp: list_all2_Cons2)
  have "en_base_revision e = vr_revision v" "en_next_revision e = vr_revision v1" "revision_next (vr_revision v) = vr_revision v1"
    using e cons.hyps(1) by (simp_all add: encodes_def commit_step_def)
  moreover have "check_adjacent es' (vr_revision v1) (len + 4 + length (en_bytes e)) (number + 1) =
      Inr (vr_revision v2, len + 4 + length (en_bytes e) + length (concat (map frame_bytes es')))"
    using cons.prems(2,3) es(1) by (intro cons.IH [OF es(2)]) (simp_all add: frames_length length_frame)
  moreover have "number + 1 \<le> MAX_COMMITS" "len + 4 + length (en_bytes e) \<le> usize_max" "MAX_COMMITS \<le> usize_max"
    using cons.prems(2,3) es(1) by (simp_all add: frames_length length_frame MAX_COMMITS_def usize_max_def)
  ultimately show ?case
    using es(1) by (simp add: usize_checked_add_def frames_length length_frame)
qed simp

lemma encoded_entry: "list_all2 (encodes de) es entries \<Longrightarrow> e \<in> set es \<Longrightarrow> \<exists>entry \<in> set entries. encodes de e entry"
  by (induction rule: list_all2_induct) auto

lemma sealed_into_vec:
  assumes path: "commit_path v entries v'" and enc: "list_all2 (encodes de) es entries"
    and number: "length es \<le> MAX_COMMITS" and bytes: "retained_bytes es \<le> PROCESS_BYTE_LIMIT"
  shows "seal_preencoded_into (vr_revision v) es vec_writer [] =
    (Inr \<lparr>dd_base_revision = vr_revision v, dd_final_revision = vr_revision v',
       dd_encoded_len = CORE_DELTA_HEADER_BYTES + length (concat (map frame_bytes es))\<rparr>,
     delta_header (vr_revision v) (vr_revision v') (length es) @ concat (map frame_bytes es))"
proof -
  have len: "CORE_DELTA_HEADER_BYTES + length (concat (map frame_bytes es)) \<le> MAX_CORE_TRANSFER_BYTES"
    using number bytes
    by (simp add: frames_length MAX_COMMITS_def PROCESS_BYTE_LIMIT_def CORE_DELTA_HEADER_BYTES_def CORE_DELTA_MAGIC_def
        MAX_CORE_TRANSFER_BYTES_def)
  then have "CORE_DELTA_HEADER_BYTES + length (concat (map frame_bytes es)) \<le> usize_max"
    by (simp add: MAX_CORE_TRANSFER_BYTES_def usize_max_def)
  with check_adjacent_total [OF path enc, of 0 CORE_DELTA_HEADER_BYTES] number len
  have valid: "validate_preencoded (vr_revision v) es =
      Inr \<lparr>dd_base_revision = vr_revision v, dd_final_revision = vr_revision v',
        dd_encoded_len = CORE_DELTA_HEADER_BYTES + length (concat (map frame_bytes es))\<rparr>"
    by (simp add: validate_preencoded_def bind_res_def)
  have "\<forall>e \<in> set es. length (en_bytes e) < 2 ^ 32"
    using encoded_entry [OF enc] by (auto simp: encodes_def)
  moreover have "length es < 2 ^ 32" using number by (simp add: MAX_COMMITS_def)
  ultimately show ?thesis
    by (simp add: seal_preencoded_into_def valid sbind_def slift_def write_preencoded_vec sret_def)
qed

text \<open>The commits after a version on the path are those that the journal selects by revision.\<close>

lemma path_bounds:
  "commit_path v entries v' \<Longrightarrow> entry \<in> set entries \<Longrightarrow> ct_next_revision entry \<le> vr_revision v'"
  "commit_path v entries v' \<Longrightarrow> vr_revision v' \<noteq> - 1 \<Longrightarrow> entry \<in> set entries \<Longrightarrow> vr_revision v < ct_next_revision entry"
proof -
  assume path: "commit_path v entries v'" and "entry \<in> set entries"
  then obtain before after v1 v2 where split: "entries = before @ entry # after"
    and paths: "commit_path v before v1" "commit_step v1 entry v2" "commit_path v2 after v'"
    by (metis commit_path_simps(2) commit_path_split in_set_conv_decomp)
  note revs = path_revision [OF paths(1)] path_revision [OF paths(3)] commit_step_revision [OF paths(2)]
  then show "ct_next_revision entry \<le> vr_revision v'"
    using unat_u64_le [of "vr_revision v2"] by (simp add: word_le_nat_alt)
  assume "vr_revision v' \<noteq> - 1"
  with path_unsaturated [OF path] path_unsaturated [OF paths(3)] revs split show "vr_revision v < ct_next_revision entry"
    by (simp add: word_less_nat_alt)
qed

lemma retained_after:
  assumes "commit_path v0 before w" and "commit_path w after v" and "vr_revision v \<noteq> - 1"
    and enc: "list_all2 (encodes de) es (before @ after)"
  shows "list_all2 (encodes de) (filter (\<lambda>e. en_next_revision e > vr_revision w) es) after"
proof -
  from enc obtain es1 es2 where es: "es = es1 @ es2" and enc1: "list_all2 (encodes de) es1 before"
    and enc2: "list_all2 (encodes de) es2 after"
    by (auto simp: list_all2_append2)
  have "en_next_revision e \<le> vr_revision w" if "e \<in> set es1" for e
    using encoded_entry [OF enc1 that] path_bounds(1) [OF assms(1)] by (auto simp: encodes_def)
  moreover have "en_next_revision e > vr_revision w" if "e \<in> set es2" for e
    using encoded_entry [OF enc2 that] path_bounds(2) [OF assms(2,3)] by (auto simp: encodes_def)
  ultimately have "filter (\<lambda>e. en_next_revision e > vr_revision w) es = es2"
    by (simp add: es filter_empty_conv not_less)
  with enc2 show ?thesis by simp
qed

lemma retained_bytes_filter: "retained_bytes (filter p es) \<le> retained_bytes es"
  by (induction es) simp_all

lemma covered_delta:
  assumes "covers de vs v j" and "budgeted j" and "vr_revision v \<noteq> - 1" and "w \<in> set vs" and "pj_floor j \<le> vr_revision w"
  shows "\<exists>d bytes. seal_preencoded_into (vr_revision w) (filter (\<lambda>e. en_next_revision e > vr_revision w) (pj_commits j)) vec_writer [] =
      (Inr d, bytes) \<and> length bytes = dd_encoded_len d \<and> dd_encoded_len d \<le> CORE_PROCESS_PRESTAGE_BYTES \<and>
    apply_process_transfer_delta de w bytes = Inr v"
proof -
  let ?es = "filter (\<lambda>e. en_next_revision e > vr_revision w) (pj_commits j)"
  from assms(1,4,5) obtain v0 before after where paths: "commit_path v0 before w" "commit_path w after v"
    and enc: "list_all2 (encodes de) (pj_commits j) (before @ after)"
    unfolding covers_def by blast
  note enc' = retained_after [OF paths assms(3) enc]
  have number: "length ?es \<le> MAX_COMMITS" and bytes: "retained_bytes ?es \<le> PROCESS_BYTE_LIMIT"
    using assms(2) length_filter_le [of "\<lambda>e. en_next_revision e > vr_revision w" "pj_commits j"]
      retained_bytes_filter [of "\<lambda>e. en_next_revision e > vr_revision w" "pj_commits j"]
    unfolding budgeted_def by linarith+
  then have limit: "CORE_DELTA_HEADER_BYTES + length (concat (map frame_bytes ?es)) \<le> CORE_PROCESS_PRESTAGE_BYTES"
    by (simp add: frames_length CORE_PROCESS_PRESTAGE_BYTES_def CORE_PROCESS_DELTA_FRAMING_BYTES_def CORE_DELTA_HEADER_BYTES_def
        CORE_DELTA_MAGIC_def)
  moreover have "CORE_PROCESS_PRESTAGE_BYTES \<le> MAX_CORE_TRANSFER_BYTES"
    by (simp add: CORE_PROCESS_PRESTAGE_BYTES_def PROCESS_BYTE_LIMIT_def CORE_PROCESS_DELTA_FRAMING_BYTES_def MAX_COMMITS_def
        MAX_CORE_TRANSFER_BYTES_def)
  ultimately show ?thesis
    using delta_applies [OF paths(2) enc' number] by (simp add: sealed_into_vec [OF paths(2) enc' number bytes] length_header)
qed


definition sample_env :: "core_transfer_commit \<Rightarrow> journal_env" where
  "sample_env entry = \<lparr>je_event_serializer = (\<lambda>_. ([[1]], None)), je_commit_serializer = knows entry, je_reserve_bytes = (\<lambda>_. True),
     je_reserve_events = (\<lambda>_. True), je_reserve_commits = (\<lambda>_. True), je_event_size = 1, je_commit_size = 1\<rparr>"

definition ping_entry :: core_transfer_commit where
  "ping_entry = \<lparr>ct_base_revision = 0, ct_next_revision = 1, ct_requires_persistence = False,
     ct_mutations = [CommandMutation (KeepAliveResponse 7 1) 0]\<rparr>"

definition sample_store :: core_store where
  "sample_store = store_new (server_core_new sample_config canonical_content) ''world''"

lemma ping_run: "apply_command (KeepAliveResponse 7 1) 0 (server_core_new sample_config canonical_content) =
    (Inr [], server_core_new sample_config canonical_content)"
  by (simp add: apply_core_ops_def core_event_builder_new_def smap_result_def accept_keep_alive_state_def builder_build_def
      builder_update_def filter_hidden_events_def catsome_def backend_defs bind_some_def sr_defs server_core_new_def)

lemma ping_commits:
  "commit_command env False 0 (PreparedDirect (KeepAliveResponse 7 1)) (sample_store\<lparr>cs_state := st\<rparr>) =
    (case journal_record env 1 [] ping_entry (st_journal st) of
       None \<Rightarrow> (Inl StoreSpins, sample_store\<lparr>cs_state := st\<rparr>)
     | Some j \<Rightarrow> (Inr (Events []), sample_store\<lparr>cs_state := st\<lparr>st_journal := j\<rparr>,
         cs_active := \<lparr>vr_revision = 1, vr_state = server_core_new sample_config canonical_content\<rparr>\<rparr>))"
  by (simp add: sbind_def mutate_def mutation_apply_command_def on_state_def ping_run log_mutation_def smod_def sret_def
      mutation_from_version_def sample_store_def store_new_def version_initial_def smap_result_def commit_locked_def
      mutation_prepare_def into_parts_def revision_next_def saturating_add_word_def ping_entry_def del: apply_command.simps split: option.split)


section \<open>The journal of a reload\<close>

lemma counted_bytes: "count_event_bytes ser outpaced events n = Inr m \<Longrightarrow> n \<le> RESYNC_BYTE_LIMIT \<Longrightarrow> m \<le> RESYNC_BYTE_LIMIT"
  by (induction events arbitrary: n) (auto simp: Let_def split: prod.splits option.splits if_splits)

definition resync_bounded :: "resync_journal \<Rightarrow> bool" where
  "resync_bounded j \<longleftrightarrow> length (rj_events j) \<le> RESYNC_EVENT_LIMIT \<and> rj_event_bytes j \<le> RESYNC_BYTE_LIMIT"

lemma resync_retain_cases:
  assumes "resync_retain env revision events j = (r, j')" and "resync_bounded j"
  shows "resync_bounded j' \<and> rj_base_revision j' = rj_base_revision j \<and>
    (if r = Inr () then rj_events j' = rj_events j @ events else j' = j)"
  using assms
  by (auto simp: resync_retain_def resync_bounded_def Let_def split: if_splits sum.splits dest: counted_bytes)

definition resync_history :: "core_revision \<Rightarrow> core_version list \<Rightarrow> targeted_event list \<Rightarrow> core_version \<Rightarrow> core_journal \<Rightarrow> bool" where
  "resync_history base vs events v jr \<longleftrightarrow> (\<exists>j. jr = Resync j \<and> resync_bounded j \<and> rj_base_revision j = base \<and>
     (rj_outcome j = Inr () \<and> vr_revision v \<noteq> - 1 \<longrightarrow> rj_events j = events))"

interpretation resync_retention: store_history env "resync_history base" for env base
proof
  fix vs events v entry v' jr events' jr'
  assume hist: "resync_history base vs events v jr" and step: "commit_step v entry v'" "vr_revision v' > vr_revision v"
    and "journal_record env (vr_revision v') events' entry jr = Some jr'"
  then show "resync_history base (vs @ [v']) (events @ events') v' jr'"
    by (auto simp: resync_history_def resync_bounded_def split: sum.splits prod.splits if_splits
        dest!: resync_retain_cases [unfolded resync_bounded_def])
qed (auto simp: resync_history_def dest: saturated_step)

text \<open>C20: a reload in the same process hands on every event. The events sealed for a candidate are exactly those
  that the commits since its plan handed out, in their order, and they come with the version that is active then.\<close>

theorem resync_events_complete:
  assumes "runs env (snd (plan_candidate config s0)) vs events s"
    and "seal_delta_since (cp_base_revision (fst (fst (plan_candidate config s0)))) s = (Inr seal, s')"
    and "vr_revision (cs_active s) \<noteq> - 1"
  shows "dl_events seal = events \<and> py_version (dl_precopy seal) = cs_active s \<and> st_journal (cs_state s') = Inactive"
proof -
  have "resync_history (vr_revision (cs_active s0)) [cs_active s0] [] (cs_active s0) (journal_resync (vr_revision (cs_active s0)))"
    by (simp add: resync_history_def journal_resync_def resync_bounded_def)
  with resync_retention.kept_by_run [OF assms(1), of "vr_revision (cs_active s0)"]
  have "resync_history (vr_revision (cs_active s0)) vs events (cs_active s) (st_journal (cs_state s))"
    by (simp add: plan_candidate_def Let_def)
  with assms(2,3) show ?thesis
    by (auto simp: resync_history_def seal_delta_since_def store_precopy_def Let_def split: sum.splits if_splits)
qed

theorem resync_events_complete_witness:
  "\<exists>s seal s'. seal_delta_since 0 s = (Inr seal, s') \<and> dl_events seal = [] \<and> vr_revision (py_version (dl_precopy seal)) = 1"
proof -
  let ?env = "sample_env ping_entry" and ?s = "snd (plan_candidate None sample_store)"
  let ?s' = "?s\<lparr>cs_active := \<lparr>vr_revision = 1, vr_state = server_core_new sample_config canonical_content\<rparr>\<rparr>"
  have s: "?s = sample_store\<lparr>cs_state := (cs_state ?s)\<rparr>" "cs_active ?s = cs_active sample_store"
    "st_journal (cs_state ?s) = Resync \<lparr>rj_base_revision = 0, rj_events = [], rj_event_bytes = 0, rj_outcome = Inr ()\<rparr>"
    by (simp_all add: plan_candidate_def sample_store_def store_new_def version_initial_def journal_resync_def Let_def)
  have same: "(cs_state ?s)\<lparr>st_journal := Resync \<lparr>rj_base_revision = 0, rj_events = [], rj_event_bytes = 0, rj_outcome = Inr ()\<rparr>\<rparr> = cs_state ?s"
    using s(3) by (metis (full_types) core_store_state.surjective core_store_state.update_convs(3))
  have "commit_command ?env False 0 (PreparedDirect (KeepAliveResponse 7 1)) ?s = (Inr (Events []), ?s')"
    using ping_commits [of ?env "cs_state ?s"] unfolding s(1) [symmetric]
    by (simp add: s(3) same resync_retain_def del: commit_command.simps) (simp add: plan_candidate_def Let_def)
  then have "store_step ?env ?s [] ?s'" using store_step.command by fastforce
  from runs.step [OF runs.start this] have run: "runs ?env ?s [cs_active ?s, cs_active ?s'] [] ?s'" by simp
  have base: "cp_base_revision (fst (fst (plan_candidate None sample_store))) = 0"
    by (simp add: plan_candidate_def store_precopy_def sample_store_def store_new_def version_initial_def Let_def)
  obtain seal s'' where "seal_delta_since 0 ?s' = (Inr seal, s'')"
    by (simp add: seal_delta_since_def s(3) Let_def)
  with resync_events_complete [OF run, of seal s''] base show ?thesis by fastforce
qed

section \<open>Limits\<close>

fun journal_bounded :: "core_journal \<Rightarrow> bool" where
  "journal_bounded Inactive = True"
| "journal_bounded (Resync j) = resync_bounded j"
| "journal_bounded (Process j) = budgeted j"
| "journal_bounded (StoppedResync events) = (length events \<le> RESYNC_EVENT_LIMIT)"
| "journal_bounded (StoppedProcess commits) = (length commits \<le> MAX_COMMITS \<and> retained_bytes commits \<le> PROCESS_BYTE_LIMIT)"

lemma journal_record_returns:
  assumes "journal_bounded j"
  shows "\<exists>j'. journal_record env revision events entry j = Some j' \<and> journal_bounded j'"
proof (cases j)
  case (Resync r)
  obtain o1 r' where "resync_retain env revision events r = (o1, r')" by fastforce
  with resync_retain_cases [OF this] assms Resync show ?thesis by (auto simp: resync_bounded_def split: sum.split)
next
  case (Process p)
  with assms process_retain_cases [of p "\<lambda>_. True" env entry] obtain r p'
    where "process_retain env entry p = Some (r, p')" "budgeted p'" by auto
  then show ?thesis using assms Process by (auto simp: budgeted_def split: sum.split)
qed simp_all

text \<open>The stores of a process: a new one or one handed over, under every operation of the store.\<close>

inductive store_reachable :: "journal_env \<Rightarrow> core_store \<Rightarrow> bool" for env where
  new: "store_reachable env (store_new core world_dir)"
| handoff: "store_reachable env (store_from_handoff version world_dir persisted_revision latest_dirty_revision)"
| step: "store_reachable env s \<Longrightarrow> store_step env s events s' \<Longrightarrow> store_reachable env s'"
| saved: "store_reachable env s \<Longrightarrow> save_finish host plugin_id revision outcome s = (r, s') \<Longrightarrow> store_reachable env s'"
| precopy: "store_reachable env s \<Longrightarrow> process_precopy s = (precopy, s') \<Longrightarrow> store_reachable env s'"
| plan: "store_reachable env s \<Longrightarrow> plan_candidate config s = (r, s') \<Longrightarrow> store_reachable env s'"
| seal: "store_reachable env s \<Longrightarrow> seal_delta_since revision s = (r, s') \<Longrightarrow> store_reachable env s'"
| ended: "store_reachable env s \<Longrightarrow> store_reachable env (end_precopy s)"

lemma publishes_bounded:
  assumes "publishes env s events s'" and "journal_bounded (st_journal (cs_state s))"
  shows "journal_bounded (st_journal (cs_state s'))"
  using publishes_effect [OF assms(1)] journal_record_returns [OF assms(2), of env "vr_revision (cs_active s')" events] assms(2)
  by (auto split: if_splits) (metis option.inject)

lemma stop_bounded: "journal_bounded j \<Longrightarrow> journal_bounded (journal_stop j)"
  by (cases j) (auto simp: resync_bounded_def budgeted_def)

lemma seal_bounded: "journal_bounded j \<Longrightarrow> journal_bounded (snd (seal_resync revision j))"
  by (cases j) (auto simp: resync_bounded_def split: sum.split)

lemma reachable_bounded:
  assumes "store_reachable env s"
  shows "journal_bounded (st_journal (cs_state s))"
  using assms
proof induction
  case (step s events s')
  then show ?case using store_step_publishes publishes_bounded by blast
next
  case (saved s host plugin_id revision outcome r s')
  then show ?case
    by (auto simp: save_finish_def split: sum.splits storage_error.splits plugin_failure_action.splits option.splits if_splits)
next
  case (seal s revision r s')
  then show ?case
    using seal_bounded [OF seal.IH, of revision] by (auto simp: seal_delta_since_def Let_def split: prod.splits sum.splits)
qed (auto simp: store_new_def store_from_handoff_def process_precopy_def journal_process_def budgeted_def plan_candidate_def
    journal_resync_def resync_bounded_def end_precopy_def stop_bounded Let_def)


lemma sample_precopy_reachable: "store_reachable env (snd (process_precopy sample_store))"
  by (rule store_reachable.precopy [of _ sample_store "fst (process_precopy sample_store)"])
    (simp_all add: sample_store_def store_reachable.new)


text \<open>C24: no operation of the store hangs. In every store a process can have, the loop that makes room in the journal
  ends, so that every commit of a command, of a tick and of the plugins' tick batches returns.\<close>

theorem store_never_spins:
  assumes "store_reachable env s"
  shows "fst (commit_command env requires_persistence now_ms prepared s) \<noteq> Inl StoreSpins \<and>
    fst (apply_builtin_tick env now_ms s) \<noteq> Inl StoreSpins \<and> fst (commit_gameplay_ticks env prepared_ticks s) \<noteq> Inl StoreSpins"
proof -
  have commits: "fst (commit_locked env pc s) \<noteq> Inl StoreSpins" for pc
    using journal_record_returns [OF reachable_bounded [OF assms]]
    by (auto simp: commit_locked_def into_parts_def Let_def split: option.split prod.split) (metis option.distinct(1))+
  have mutating: "fst (sbind (mutate m) f s) \<noteq> Inl StoreSpins" if "\<And>x. fst (f x s) \<noteq> Inl StoreSpins" for m f
    using that by (auto simp: sbind_def mutate_def split: prod.split sum.split)
  have mapped: "fst (sbind m (\<lambda>x. sret (g x)) s) \<noteq> Inl StoreSpins" if "fst (m s) \<noteq> Inl StoreSpins" for m g
    using that by (auto simp: sbind_def sret_def split: prod.splits sum.splits)
  have returned: "fst (sret x s) \<noteq> Inl StoreSpins" for x by (simp add: sret_def)
  have either: "fst ((case r of EffectApplied events \<Rightarrow> f events | EffectConflict \<Rightarrow> g) s) \<noteq> Inl StoreSpins"
    if "\<And>events. fst (f events s) \<noteq> Inl StoreSpins" "fst (g s) \<noteq> Inl StoreSpins" for r f g
    using that by (cases r) simp_all
  note parts = mutating mapped commits returned either
  have "fst (commit_command env requires_persistence now_ms prepared s) \<noteq> Inl StoreSpins"
    by (cases prepared) (simp_all only: commit_command.simps smap_result_def split_def, (intro parts)+)
  moreover have "fst (apply_builtin_tick env now_ms s) \<noteq> Inl StoreSpins"
    unfolding apply_builtin_tick_def split_def by (intro parts)
  moreover have "fst (commit_gameplay_ticks env prepared_ticks s) \<noteq> Inl StoreSpins"
  proof (cases "prepared_ticks = []")
    case False
    then show ?thesis
      by (simp only: commit_gameplay_ticks_def split_def sbind_sget if_False) (intro parts)
  qed (simp add: commit_gameplay_ticks_def sret_def)
  ultimately show ?thesis by blast
qed

theorem store_never_spins_witness:
  "fst (commit_command (sample_env ping_entry) False 0 (PreparedDirect (KeepAliveResponse 7 1)) (snd (process_precopy sample_store))) \<noteq> Inl StoreSpins"
  using store_never_spins [OF sample_precopy_reachable] by blast

section \<open>Persistence\<close>

text \<open>A store with its storage: the version whose snapshot would be loaded, unknown after a failed save, and the one
  save that the main loop has under way. The storage answers a save in any way; a save that succeeds has replaced what
  was stored.\<close>

datatype save_phase = NotSaving | Writing core_version | Written core_version "core_panic + (storage_error + unit)"

record saving_store =
  sv_store :: core_store
  sv_disk :: "core_version option"
  sv_phase :: save_phase

inductive saves :: "journal_env \<Rightarrow> saving_store \<Rightarrow> bool" for env where
  start: "saves env \<lparr>sv_store = store_new core world_dir, sv_disk = Some (version_initial core), sv_phase = NotSaving\<rparr>"
| work: "saves env y \<Longrightarrow> store_step env (sv_store y) events s' \<Longrightarrow> saves env (y\<lparr>sv_store := s'\<rparr>)"
| begun: "saves env y \<Longrightarrow> sv_phase y = NotSaving \<Longrightarrow> save_begin (sv_store y) = Some v \<Longrightarrow> saves env (y\<lparr>sv_phase := Writing v\<rparr>)"
| written: "saves env y \<Longrightarrow> sv_phase y = Writing v \<Longrightarrow> save_task save_snapshot (cs_world_dir (sv_store y)) v = outcome \<Longrightarrow>
    saves env (y\<lparr>sv_disk := if outcome = Inr (Inr ()) then Some v else None, sv_phase := Written v outcome\<rparr>)"
| finished: "saves env y \<Longrightarrow> sv_phase y = Written v outcome \<Longrightarrow>
    save_finish host plugin_id (vr_revision v) outcome (sv_store y) = (r, s') \<Longrightarrow>
    saves env (y\<lparr>sv_store := s', sv_phase := NotSaving\<rparr>)"

text \<open>A commit never makes a dirty store clean: the latest dirty revision only grows.\<close>

definition dirty_in_past :: "core_store \<Rightarrow> bool" where
  "dirty_in_past s \<longleftrightarrow> (\<forall>r. st_latest_dirty_revision (cs_state s) = Some r \<longrightarrow> r \<le> vr_revision (cs_active s))"

lemma publishes_persistence:
  assumes "publishes env s events s'" and "dirty_in_past s"
  shows "st_persisted_revision (cs_state s') = st_persisted_revision (cs_state s) \<and> dirty_in_past s' \<and>
    (store_dirty s \<longrightarrow> store_dirty s')"
proof -
  from publishes_effect [OF assms(1)] have le: "vr_revision (cs_active s) \<le> vr_revision (cs_active s')"
    using revision_next_ge by (auto simp: commit_step_def)
  from assms(1) obtain cm persist where "commit_locked env (mutation_prepare events persist cm) s = (Inr events, s')"
    unfolding publishes_def by blast
  then have "st_persisted_revision (cs_state s') = st_persisted_revision (cs_state s)"
    and "st_latest_dirty_revision (cs_state s') =
      (if persist then Some (vr_revision (cs_active s')) else st_latest_dirty_revision (cs_state s))"
    by (auto simp: commit_locked_def into_parts_def mutation_prepare_def Let_def split: if_splits option.splits)
  with le assms(2) show ?thesis
    by (auto simp: dirty_in_past_def store_dirty_def split: option.splits if_splits dest: order_trans)
qed

definition save_invariant :: "saving_store \<Rightarrow> bool" where
  "save_invariant y \<longleftrightarrow> dirty_in_past (sv_store y) \<and>
     (case sv_phase y of
        NotSaving \<Rightarrow> store_dirty (sv_store y) \<or>
          (\<exists>v. sv_disk y = Some v \<and> st_persisted_revision (cs_state (sv_store y)) \<le> vr_revision v)
      | Writing v \<Rightarrow> store_dirty (sv_store y)
      | Written v outcome \<Rightarrow> store_dirty (sv_store y) \<and> (outcome = Inr (Inr ()) \<longrightarrow> sv_disk y = Some v))"

lemma save_finish_cases:
  assumes "save_finish host plugin_id revision outcome s = (r, s')"
  shows "cs_active s' = cs_active s \<and> st_latest_dirty_revision (cs_state s') = st_latest_dirty_revision (cs_state s) \<and>
    (if outcome = Inr (Inr ()) \<and> revision > st_persisted_revision (cs_state s)
     then st_persisted_revision (cs_state s') = revision else s' = s)"
  using assms
  by (auto simp: save_finish_def split: sum.splits storage_error.splits plugin_failure_action.splits option.splits if_splits)

lemma saves_invariant: "saves env y \<Longrightarrow> save_invariant y"
proof (induction rule: saves.induct)
  case (work y events s')
  from store_step_publishes [OF work.hyps(2)] work.IH show ?case
    by (auto simp: save_invariant_def split: save_phase.splits dest!: publishes_persistence)
next
  case (finished y v outcome host plugin_id r s')
  from save_finish_cases [OF finished.hyps(3)] finished.hyps(2) finished.IH show ?case
    by (auto simp: save_invariant_def dirty_in_past_def split: if_splits)
qed (auto simp: save_invariant_def dirty_in_past_def store_new_def version_initial_def save_begin_def Let_def
    split: if_splits)



section \<open>Stale commands\<close>

text \<open>A batch read what a version answers to its plugin.\<close>

definition read_from :: "core_version \<Rightarrow> semantic_read_set \<Rightarrow> bool" where
  "read_from v rs \<longleftrightarrow>
     (\<forall>w. sr_world_meta rs = Some w \<longrightarrow> fst (view_world_meta (VersionReadView v)) = Inr w) \<and>
     (\<forall>(p, x) \<in> set (sr_player_snapshots rs). fst (view_player_snapshot p (VersionReadView v)) = Inr x \<and> opt_eq snapshot_eq x x) \<and>
     (\<forall>(q, x) \<in> set (sr_block_states rs). fst (view_block_state q (VersionReadView v)) = Inr x) \<and>
     (\<forall>(q, x) \<in> set (sr_block_entities rs). fst (view_block_entity q (VersionReadView v)) = Inr x) \<and>
     (\<forall>((p, q), x) \<in> set (sr_can_edit_block rs). fst (view_can_edit_block p q (VersionReadView v)) = Inr x)"

lemma view_version: "fst (on_view m n (VersionReadView v)) = fst (m (vr_state v))"
  by (simp add: on_view_def)

lemmas view_defs = view_world_meta_def view_player_snapshot_def view_block_state_def view_block_entity_def view_can_edit_block_def

lemma smatches_read: "pure_read m \<Longrightarrow> fst (m c) = Inr x \<Longrightarrow> P x \<Longrightarrow> smatches m P c = (Inr True, c)"
  using pure_result [of m c] by (simp add: smatches_def sbind_def sret_def)

lemma reads_match:
  assumes "read_from v rs"
  shows "semantic_reads_match base_backend rs (vr_state v) = (Inr True, vr_state v)"
  using assms unfolding semantic_reads_match_def read_from_def view_defs view_version
  by (intro sand_true sall_true)
    (auto simp: sret_def split: option.split intro!: smatches_read pure_intros)



end
