(* ===== verification/Codec.thy ===== *)
theory Codec
  imports Prelude
begin

unbundle bit_operations_syntax

text \<open>
  What the binary formats of the program share: sequences of writes, loops that collect a vector or fill an
  ordered map, Rust strings as their UTF-8 bytes, and the calculus of round trips.

  A writer only appends, and a caller that gets an error drops what was written: a writer is the bytes it appends, or
  the error, and a sequence of writes is \<open>wseq\<close>. \<open>writes p w v\<close> says that the writer \<open>w\<close> succeeds and that \<open>p\<close>
  reads \<open>v\<close> back from its bytes, \<open>accepts P p\<close> that whatever \<open>p\<close> accepts satisfies \<open>P\<close>. Both compose along
  the code of the writer and the reader. \<open>agree k p q\<close> says that two readers cannot be told apart with \<open>k\<close> bytes
  left: recursive readers are defined with a bound on their depth, and this shows that the bound is never met.
\<close>

section \<open>Writers\<close>

fun wseq :: "('e + bytes) list \<Rightarrow> 'e + bytes" where
  "wseq [] = Inr []"
| "wseq (w # ws) = bind_res w (\<lambda>xs. bind_res (wseq ws) (\<lambda>ys. Inr (xs @ ys)))"

primrec read_times :: "nat \<Rightarrow> (byte_cursor, 'e, 'a) sr \<Rightarrow> (byte_cursor, 'e, 'a list) sr" where
  "read_times 0 p = sret []"
| "read_times (Suc n) p = sbind p (\<lambda>x. sbind (read_times n p) (\<lambda>xs. sret (x # xs)))"

section \<open>Ordered maps\<close>

definition bt_collect :: "('k::linorder \<times> 'v) list \<Rightarrow> ('k, 'v) btree_map" where
  "bt_collect kvs = fold (\<lambda>(k, v). bt_insert k v) kvs []"

lemma bt_insert_snoc: "\<forall>e \<in> set m. fst e < k \<Longrightarrow> bt_insert k v m = m @ [(k, v)]"
  by (induction m) auto

lemma fold_bt_insert_sorted: "bt_ok (m @ kvs) \<Longrightarrow> fold (\<lambda>(k, v). bt_insert k v) kvs m = m @ kvs"
proof (induction kvs arbitrary: m)
  case Nil
  then show ?case by simp
next
  case (Cons e kvs)
  obtain k v where e: "e = (k, v)" by (cases e)
  have "bt_insert k v m = m @ [e]"
    using Cons.prems unfolding e by (intro bt_insert_snoc) (auto simp: bt_ok_def sorted_wrt_append)
  then show ?case using Cons.IH [of "m @ [e]"] Cons.prems by (simp add: e)
qed

lemma bt_collect_id: "bt_ok m \<Longrightarrow> bt_collect m = m"
  using fold_bt_insert_sorted [of "[]" m] by (simp add: bt_collect_def)

lemma set_bt_insert_subset: "set (bt_insert k v m) \<subseteq> Set.insert (k, v) (set m)"
  by (induction k v m rule: bt_insert.induct) auto

lemma fold_bt_insert_inv:
  "bt_ok m \<Longrightarrow> bt_ok (fold (\<lambda>(k, v). bt_insert k v) kvs m) \<and>
    set (fold (\<lambda>(k, v). bt_insert k v) kvs m) \<subseteq> set m \<union> set kvs \<and>
    length (fold (\<lambda>(k, v). bt_insert k v) kvs m) \<le> length m + length kvs"
proof (induction kvs arbitrary: m)
  case Nil
  then show ?case by simp
next
  case (Cons e kvs)
  obtain k v where e: "e = (k, v)" by (cases e)
  have "length (bt_insert k v m) \<le> Suc (length m)" using bt.len_insert_le [OF Cons.prems] by simp
  then show ?case
    using Cons.IH [of "bt_insert k v m"] Cons.prems set_bt_insert_subset [of k v m] by (auto simp: e)
qed

lemma map_of_fold_bt_insert:
  "bt_ok m \<Longrightarrow> map_of (fold (\<lambda>(k, v). bt_insert k v) kvs m) = map_of m ++ map_of (rev kvs)"
  by (induction kvs arbitrary: m) auto

lemma map_of_bt_collect: "map_of (bt_collect kvs) = map_of (rev kvs)"
  by (simp add: bt_collect_def map_of_fold_bt_insert)

lemma bt_ok_bt_collect [simp]: "bt_ok (bt_collect kvs)"
  using fold_bt_insert_inv [of "[]" kvs] by (simp add: bt_collect_def)

lemma set_bt_collect: "set (bt_collect kvs) \<subseteq> set kvs"
  using fold_bt_insert_inv [of "[]" kvs] by (simp add: bt_collect_def)

text \<open>An ordered map is determined by its lookups.\<close>

lemma bt_ok_eqI:
  assumes "bt_ok m" and "bt_ok m'" and "map_of m = map_of m'"
  shows "m = m'"
proof -
  have keys: "map fst m = map fst m'" using assms by (simp add: bt_ok_keys)
  have "map (\<lambda>k. (k, the (map_of m k))) (map fst m) = m" if "bt_ok m" for m :: "('a, 'b) btree_map"
    using bt_ok_distinct [OF that] by (auto intro!: map_idI)
  then show ?thesis using assms keys by metis
qed

section \<open>Strings\<close>

definition as_bytes :: "string \<Rightarrow> bytes" where
  "as_bytes s = map (\<lambda>c. word_of_nat (of_char c)) s"

text \<open>Well-formed UTF-8: no overlong forms, no surrogates, nothing above U+10FFFF.\<close>

definition utf8_cont :: "u8 \<Rightarrow> bool" where
  "utf8_cont b \<longleftrightarrow> 0x80 \<le> b \<and> b \<le> 0xBF"

definition utf8_second :: "u8 \<Rightarrow> u8 \<Rightarrow> bool" where
  "utf8_second a b \<longleftrightarrow>
     (if a = 0xE0 then 0xA0 \<le> b \<and> b \<le> 0xBF
      else if a = 0xED then 0x80 \<le> b \<and> b \<le> 0x9F
      else if a = 0xF0 then 0x90 \<le> b \<and> b \<le> 0xBF
      else if a = 0xF4 then 0x80 \<le> b \<and> b \<le> 0x8F
      else utf8_cont b)"

fun utf8_valid :: "bytes \<Rightarrow> bool" where
  "utf8_valid [] = True"
| "utf8_valid (a # bs) =
     (if a < 0x80 then utf8_valid bs
      else if 0xC2 \<le> a \<and> a \<le> 0xDF then
        (case bs of b # cs \<Rightarrow> utf8_cont b \<and> utf8_valid cs | _ \<Rightarrow> False)
      else if 0xE0 \<le> a \<and> a \<le> 0xEF then
        (case bs of b # c # ds \<Rightarrow> utf8_second a b \<and> utf8_cont c \<and> utf8_valid ds | _ \<Rightarrow> False)
      else if 0xF0 \<le> a \<and> a \<le> 0xF4 then
        (case bs of b # c # d # es \<Rightarrow> utf8_second a b \<and> utf8_cont c \<and> utf8_cont d \<and> utf8_valid es | _ \<Rightarrow> False)
      else False)"

lemma chars_of_bytes: "map (\<lambda>b. char_of (unat b)) (as_bytes s) = s"
proof -
  have "char_of (unat (word_of_nat (of_char c) :: 8 word)) = c" for c
    using nat_of_char_less_256 [of c] unfolding unat_of_nat by (simp add: take_bit_nat_eq_self)
  then show ?thesis by (simp add: as_bytes_def comp_def)
qed

lemma bytes_of_chars: "as_bytes (map (\<lambda>b. char_of (unat b)) bs) = bs"
proof -
  have "word_of_nat (of_char (char_of (unat b))) = (b :: 8 word)" for b
    using unsigned_less [of b, where ?'a = nat] by simp
  then show ?thesis by (simp add: as_bytes_def comp_def)
qed

lemma length_as_bytes [simp]: "length (as_bytes s) = length s"
  by (simp add: as_bytes_def)

section \<open>What the writers write and the readers accept\<close>

definition writes :: "(byte_cursor, 'e, 'a) sr \<Rightarrow> 'e + bytes \<Rightarrow> 'a \<Rightarrow> bool" where
  "writes p w v \<longleftrightarrow> (\<exists>bs. w = Inr bs \<and> parses p bs v)"

definition accepts :: "('a \<Rightarrow> bool) \<Rightarrow> (byte_cursor, 'e, 'a) sr \<Rightarrow> bool" where
  "accepts P p \<longleftrightarrow> (\<forall>r x r'. p r = (Inr x, r') \<longrightarrow> P x)"

named_theorems writes_intros \<open>writers and the readers that undo them\<close>
named_theorems accepts_intros \<open>what the readers return\<close>

lemma writesI: "w = Inr bs \<Longrightarrow> parses p bs v \<Longrightarrow> writes p w v"
  by (auto simp: writes_def)

lemma acceptsD: "accepts P p \<Longrightarrow> p r = (Inr x, r') \<Longrightarrow> P x"
  by (auto simp: accepts_def)

lemma acceptsD_fst: "accepts P p \<Longrightarrow> fst (p r) = Inr x \<Longrightarrow> P x"
  by (metis prod.collapse acceptsD)

declare wseq.simps [simp del]

lemma wseq_Nil: "wseq [] = Inr []"
  by (simp add: wseq.simps)

lemma writes_sret [writes_intros]: "v = w \<Longrightarrow> writes (sret v) (wseq []) w"
  by (simp add: writes_def parses_sret wseq_Nil)

lemma writes_bind:
  assumes "writes p w v" and "writes (f v) (wseq ws) x"
  shows "writes (sbind p f) (wseq (w # ws)) x"
proof -
  obtain xs ys where "w = Inr xs" "parses p xs v" "wseq ws = Inr ys" "parses (f v) ys x"
    using assms by (auto simp: writes_def)
  then show ?thesis by (auto simp: writes_def wseq.simps intro: parses_bind)
qed

lemma writes_single: "writes p w v \<Longrightarrow> writes p (wseq [w]) v"
  by (auto simp: writes_def wseq.simps)

lemma writes_tail:
  assumes "writes p w v" and "f v = sret x"
  shows "writes (sbind p f) w x"
proof -
  obtain xs where "w = Inr xs" "parses p xs v"
    using assms(1) by (auto simp: writes_def)
  then show ?thesis
    using parses_bind [of p xs v f "[]" x] parses_sret [of x] assms(2) by (auto simp: writes_def)
qed

lemma accepts_True: "accepts (\<lambda>_. True) p"
  by (simp add: accepts_def)

lemma accepts_mono: "accepts P p \<Longrightarrow> (\<And>x. P x \<Longrightarrow> Q x) \<Longrightarrow> accepts Q p"
  by (auto simp: accepts_def)

lemma accepts_sret [accepts_intros]: "P x \<Longrightarrow> accepts P (sret x)"
  by (simp add: accepts_def sret_def)

lemma accepts_sfail [accepts_intros]: "accepts P (sfail e)"
  by (simp add: accepts_def sfail_def)

lemma accepts_slift: "(\<And>x. w = Inr x \<Longrightarrow> P x) \<Longrightarrow> accepts P (slift w)"
  by (simp add: accepts_def slift_def)

lemma accepts_bind:
  "accepts P p \<Longrightarrow> (\<And>x. P x \<Longrightarrow> accepts Q (f x)) \<Longrightarrow> accepts Q (sbind p f)"
  unfolding accepts_def sbind_def by (fastforce split: prod.splits sum.splits)

lemma accepts_if: "accepts P p \<Longrightarrow> accepts P q \<Longrightarrow> accepts P (if b then p else q)"
  by simp

lemma writes_Inr: "writes p w v \<Longrightarrow> \<exists>bs. w = Inr bs"
  by (auto simp: writes_def)

lemma wseq_concat: "(\<And>w. w \<in> set ws \<Longrightarrow> \<exists>bs. w = Inr bs) \<Longrightarrow> wseq ws = Inr (concat (map projr ws))"
  by (induction ws) (force simp: wseq.simps)+

lemma wseq_member: "wseq ws = Inr bs \<Longrightarrow> w \<in> set ws \<Longrightarrow> \<exists>xs. w = Inr xs \<and> length xs \<le> length bs"
  by (induction ws arbitrary: bs) (force simp: wseq.simps bind_res_eq_Inr)+

lemma writes_times:
  assumes "\<And>x. x \<in> set xs \<Longrightarrow> writes p (w x) x"
  shows "writes (read_times (length xs) p) (wseq (map w xs)) xs"
  using assms
proof (induction xs)
  case Nil
  then show ?case by (simp add: writes_sret)
next
  case (Cons x xs)
  from Cons.IH Cons.prems have "writes (read_times (length xs) p) (wseq (map w xs)) xs" by simp
  then have "writes (sbind (read_times (length xs) p) (\<lambda>xs. sret (x # xs))) (wseq (map w xs)) (x # xs)"
    by (rule writes_tail) simp
  then show ?case using Cons.prems by (auto intro: writes_bind)
qed

lemma accepts_times: "accepts P p \<Longrightarrow> accepts (\<lambda>xs. length xs = n \<and> list_all P xs) (read_times n p)"
proof (induction n)
  case 0
  then show ?case by (simp add: accepts_sret)
next
  case (Suc n)
  then show ?case
    by (auto intro!: accepts_bind [OF Suc.prems] accepts_bind [OF Suc.IH] accepts_sret)
qed

section \<open>Readers only move forward\<close>

definition remaining :: "byte_cursor \<Rightarrow> nat" where
  "remaining r = length (cur_bytes r) - cur_pos r"

text \<open>Readers only move forward inside their slice.\<close>

definition advances :: "(byte_cursor, 'e, 'a) sr \<Rightarrow> bool" where
  "advances p \<longleftrightarrow> (\<forall>r x r'. cursor_ok r \<longrightarrow> p r = (Inr x, r') \<longrightarrow>
     cur_bytes r' = cur_bytes r \<and> cur_pos r \<le> cur_pos r' \<and> cursor_ok r')"

named_theorems advances_intros \<open>readers that only move forward\<close>

lemma advancesD:
  "advances p \<Longrightarrow> cursor_ok r \<Longrightarrow> p r = (Inr x, r') \<Longrightarrow>
    cur_bytes r' = cur_bytes r \<and> cur_pos r \<le> cur_pos r' \<and> cursor_ok r'"
  unfolding advances_def by blast

lemma advances_sret [advances_intros]: "advances (sret x)"
  and advances_sfail [advances_intros]: "advances (sfail e)"
  and advances_slift [advances_intros]: "advances (slift w)"
  by (auto simp: advances_def sret_def sfail_def slift_def)

lemma advances_if [advances_intros]: "advances p \<Longrightarrow> advances q \<Longrightarrow> advances (if b then p else q)"
  by simp

lemma advances_bind [advances_intros]: "advances p \<Longrightarrow> (\<And>x. advances (f x)) \<Longrightarrow> advances (sbind p f)"
  unfolding advances_def [of "sbind p f"]
proof (intro allI impI)
  fix r x r'
  assume adv: "advances p" "\<And>x. advances (f x)" and r: "cursor_ok r" "sbind p f r = (Inr x, r')"
  from r(2) obtain y s where y: "p r = (Inr y, s)" "f y s = (Inr x, r')"
    by (auto simp: sbind_def split: prod.split_asm sum.split_asm)
  have s: "cur_bytes s = cur_bytes r \<and> cur_pos r \<le> cur_pos s \<and> cursor_ok s"
    by (rule advancesD [OF adv(1) r(1) y(1)])
  have "cur_bytes r' = cur_bytes s \<and> cur_pos s \<le> cur_pos r' \<and> cursor_ok r'"
    using s by (intro advancesD [OF adv(2) _ y(2)]) simp
  then show "cur_bytes r' = cur_bytes r \<and> cur_pos r \<le> cur_pos r' \<and> cursor_ok r'"
    using s by simp
qed

definition agree :: "nat \<Rightarrow> (byte_cursor, 'e, 'a) sr \<Rightarrow> (byte_cursor, 'e, 'a) sr \<Rightarrow> bool" where
  "agree k p q \<longleftrightarrow> (\<forall>r. cursor_ok r \<longrightarrow> remaining r \<le> k \<longrightarrow> p r = q r)"

lemma agree_bind:
  assumes "agree k p q" and "advances p" and "\<And>x. agree k (f x) (g x)"
  shows "agree k (sbind p f) (sbind q g)"
  unfolding agree_def
proof (intro allI impI)
  fix r :: byte_cursor assume r: "cursor_ok r" "remaining r \<le> k"
  then have eq: "q r = p r" using assms(1) by (simp add: agree_def)
  show "sbind p f r = sbind q g r"
  proof (cases "p r")
    case (Pair res r')
    show ?thesis
    proof (cases res)
      case (Inr x)
      then have "cursor_ok r'" "remaining r' \<le> k"
        using advancesD [OF assms(2) r(1), of x r'] Pair r by (auto simp: remaining_def)
      then show ?thesis using assms(3) [of x] eq Pair Inr by (simp add: sbind_def agree_def)
    qed (simp add: sbind_def eq Pair)
  qed
qed

lemma agree_refl: "agree k p p"
  by (simp add: agree_def)

lemma agree_times: "agree k p q \<Longrightarrow> advances p \<Longrightarrow> agree k (read_times n p) (read_times n q)"
proof (induction n)
  case 0
  then show ?case by (simp add: agree_refl)
next
  case (Suc n)
  have "advances (read_times n p)" using Suc.prems(2)
    by (induction n) (auto intro!: advances_intros)
  then show ?case using Suc by (auto intro!: agree_bind agree_refl)
qed

lemma advances_times [advances_intros]: "advances p \<Longrightarrow> advances (read_times n p)"
  by (induction n) (auto intro!: advances_intros)

end
