(* ===== verification/Contract_Binary.thy ===== *)
theory Contract_Binary
  imports Codec Voxel_Model
begin

unbundle bit_operations_syntax

text \<open>
  The binary layer of the plugin contract, crate \<open>mc-plugin-contract\<close>: \<open>plugin.rs\<close> (ABI version, plugin
  kinds) and \<open>codec/__internal/binary.rs\<close> (errors, \<open>Encoder\<close>, \<open>Decoder\<close>, envelopes).

  A method on \<open>&mut Encoder\<close> is the bytes it appends, or the error (\<open>Codec\<close>). The decoder is a byte cursor. A \<open>String\<close> is
  the list of its UTF-8 bytes, and \<open>from_utf8\<close> checks them with \<open>utf8_valid\<close>. A failed \<open>expect\<close> is the
  error value \<open>CodecPanic\<close>. Vectors are collected without the capacity hint, so the model does not see an
  allocation of the announced length fail.
\<close>

section \<open>Plugin kinds and versions: \<open>plugin.rs\<close>\<close>

record plugin_abi_version =
  abi_major :: u16
  abi_minor :: u16

definition CURRENT_PLUGIN_ABI :: plugin_abi_version where
  "CURRENT_PLUGIN_ABI = \<lparr>abi_major = 9, abi_minor = 1\<rparr>"

datatype plugin_kind = ProtocolPlugin | StoragePlugin | AuthPlugin | GameplayPlugin | AdminSurfacePlugin

definition plugin_kind_try_from :: "u8 \<Rightarrow> plugin_kind option" where
  "plugin_kind_try_from value =
     (if value = 1 then Some ProtocolPlugin
      else if value = 2 then Some StoragePlugin
      else if value = 3 then Some AuthPlugin
      else if value = 4 then Some GameplayPlugin
      else if value = 7 then Some AdminSurfacePlugin
      else None)"

section \<open>Errors\<close>

datatype protocol_codec_error =
    UnexpectedEof
  | InvalidUtf8
  | LengthOverflow
  | InvalidEnvelope string
  | InvalidPluginKind u8
  | InvalidProtocolOpCode u8
  | InvalidValue string
  | TrailingPayload
  | CodecPanic

type_synonym enc = "protocol_codec_error + bytes"
type_synonym 'a dec = "(byte_cursor, protocol_codec_error, 'a) sr"

section \<open>Encoder\<close>

definition write_raw :: "bytes \<Rightarrow> enc" where
  "write_raw bs = Inr bs"

definition write_u8 :: "u8 \<Rightarrow> enc" where
  "write_u8 v = Inr [v]"

definition write_i8 :: "i8 \<Rightarrow> enc" where
  "write_i8 v = Inr [v]"

definition write_bool :: "bool \<Rightarrow> enc" where
  "write_bool b = write_u8 (if b then 1 else 0)"

definition write_u16 :: "u16 \<Rightarrow> enc" where
  "write_u16 v = Inr (le_bytes 2 v)"

definition write_u32 :: "u32 \<Rightarrow> enc" where
  "write_u32 v = Inr (le_bytes 4 v)"

definition write_u64 :: "u64 \<Rightarrow> enc" where
  "write_u64 v = Inr (le_bytes 8 v)"

text \<open>The signed integers that the model keeps as \<open>int\<close>.\<close>

definition write_i16 :: "int \<Rightarrow> enc" where
  "write_i16 v = write_u16 (word_of_int v)"

definition write_i32 :: "int \<Rightarrow> enc" where
  "write_i32 v = write_u32 (word_of_int v)"

definition write_len :: "nat \<Rightarrow> enc" where
  "write_len n = (if n < 2 ^ 32 then write_u32 (word_of_nat n) else Inl LengthOverflow)"

definition write_bytes :: "bytes \<Rightarrow> enc" where
  "write_bytes bs = wseq [write_len (length bs), write_raw bs]"

definition write_string :: "string \<Rightarrow> enc" where
  "write_string s = write_bytes (as_bytes s)"

section \<open>Decoder\<close>

definition read_raw :: "nat \<Rightarrow> bytes dec" where
  "read_raw len r =
     (let e = usize_saturating_add (cur_pos r) len in
      if cur_pos r \<le> e \<and> e \<le> length (cur_bytes r)
      then (Inr (take (e - cur_pos r) (drop (cur_pos r) (cur_bytes r))), r\<lparr>cur_pos := e\<rparr>)
      else (Inl UnexpectedEof, r))"

definition read_u8 :: "u8 dec" where
  "read_u8 r =
     (if cur_pos r < length (cur_bytes r)
      then (Inr (cur_bytes r ! cur_pos r), r\<lparr>cur_pos := usize_saturating_add (cur_pos r) 1\<rparr>)
      else (Inl UnexpectedEof, r))"

definition finish :: "unit dec" where
  "finish r = (if cur_pos r = length (cur_bytes r) then (Inr (), r) else (Inl TrailingPayload, r))"

definition read_i8 :: "i8 dec" where
  "read_i8 = read_u8"

definition read_bool :: "bool dec" where
  "read_bool = sbind read_u8 (\<lambda>b.
     if b = 0 then sret False else if b = 1 then sret True
     else sfail (InvalidValue ''invalid bool tag''))"

definition read_u16 :: "u16 dec" where
  "read_u16 = sbind (read_raw 2) (\<lambda>bs. sret (of_le_bytes bs))"

definition read_u32 :: "u32 dec" where
  "read_u32 = sbind (read_raw 4) (\<lambda>bs. sret (of_le_bytes bs))"

definition read_u64 :: "u64 dec" where
  "read_u64 = sbind (read_raw 8) (\<lambda>bs. sret (of_le_bytes bs))"

definition read_i16 :: "int dec" where
  "read_i16 = sbind read_u16 (\<lambda>v. sret (sint v))"

definition read_i32 :: "int dec" where
  "read_i32 = sbind read_u32 (\<lambda>v. sret (sint v))"

definition read_len :: "nat dec" where
  "read_len = sbind read_u32 (\<lambda>v. sret (unat v))"

definition read_bytes :: "bytes dec" where
  "read_bytes = sbind read_len read_raw"

definition from_utf8 :: "bytes \<Rightarrow> protocol_codec_error + string" where
  "from_utf8 bs = (if utf8_valid bs then Inr (map (\<lambda>b. char_of (unat b)) bs) else Inl InvalidUtf8)"

definition read_string :: "string dec" where
  "read_string = sbind read_bytes (\<lambda>bs. slift (from_utf8 bs))"

text \<open>\<open>match decoder.read_u8()? { tag => ..., _ => Err(InvalidValue(..)) }\<close>.\<close>

definition match_u8 :: "(u8 \<times> 'a dec) list \<Rightarrow> string \<Rightarrow> 'a dec" where
  "match_u8 arms message = sbind read_u8 (\<lambda>tag.
     case map_of arms tag of Some arm \<Rightarrow> arm | None \<Rightarrow> sfail (InvalidValue message))"

section \<open>Envelopes\<close>

definition PROTOCOL_FLAG_RESPONSE :: u16 where "PROTOCOL_FLAG_RESPONSE = 1"

definition PLUGIN_ENVELOPE_HEADER_LEN :: nat where "PLUGIN_ENVELOPE_HEADER_LEN = 12"

record envelope_header =
  eh_abi :: plugin_abi_version
  eh_plugin_kind :: plugin_kind
  eh_op_code :: u8
  eh_flags :: u16
  eh_payload_len :: u32

fun plugin_kind_tag :: "plugin_kind \<Rightarrow> u8" where
  "plugin_kind_tag ProtocolPlugin = 1"
| "plugin_kind_tag StoragePlugin = 2"
| "plugin_kind_tag AuthPlugin = 3"
| "plugin_kind_tag GameplayPlugin = 4"
| "plugin_kind_tag AdminSurfacePlugin = 7"

definition with_header :: "envelope_header \<Rightarrow> enc" where
  "with_header h = wseq
     [write_u16 (abi_major (eh_abi h)), write_u16 (abi_minor (eh_abi h)),
      write_u8 (plugin_kind_tag (eh_plugin_kind h)), write_u8 (eh_op_code h),
      write_u16 (eh_flags h), write_u32 (eh_payload_len h)]"

definition encode_envelope :: "envelope_header \<Rightarrow> bytes \<Rightarrow> enc" where
  "encode_envelope h payload =
     (if unat (eh_payload_len h) \<noteq> length payload
      then Inl (InvalidEnvelope ''payload length did not match header'')
      else wseq [with_header h, write_raw payload])"

definition read_header :: "envelope_header dec" where
  "read_header =
     sbind read_u16 (\<lambda>major. sbind read_u16 (\<lambda>minor. sbind read_u8 (\<lambda>kind_tag.
     sbind (slift (case plugin_kind_try_from kind_tag of
              None \<Rightarrow> Inl (InvalidPluginKind kind_tag) | Some kind \<Rightarrow> Inr kind)) (\<lambda>kind.
     sbind read_u8 (\<lambda>op_code. sbind read_u16 (\<lambda>flags. sbind read_u32 (\<lambda>payload_len.
       sret \<lparr>eh_abi = \<lparr>abi_major = major, abi_minor = minor\<rparr>, eh_plugin_kind = kind,
             eh_op_code = op_code, eh_flags = flags, eh_payload_len = payload_len\<rparr>)))))))"

definition decode_envelope :: "bytes \<Rightarrow> protocol_codec_error + (envelope_header \<times> bytes)" where
  "decode_envelope bs =
     (if length bs < PLUGIN_ENVELOPE_HEADER_LEN
      then Inl (InvalidEnvelope ''message shorter than header'')
      else bind_res (fst (read_header (cursor_new bs))) (\<lambda>h.
        if eh_abi h \<noteq> CURRENT_PLUGIN_ABI
        then Inl (InvalidEnvelope ''plugin ABI version mismatch'')
        else if length bs \<noteq> usize_saturating_add PLUGIN_ENVELOPE_HEADER_LEN (unat (eh_payload_len h))
        then Inl (InvalidEnvelope ''payload length did not match message size'')
        else Inr (h, drop PLUGIN_ENVELOPE_HEADER_LEN bs)))"

section \<open>The decoder's primitives\<close>

lemma read_raw_enough:
  assumes "cursor_ok r" and "n \<le> length (cursor_rest r)"
  shows "read_raw n r = (Inr (take n (cursor_rest r)), cursor_adv n r)"
proof -
  have "cur_pos r + n \<le> isize_max"
    using assms by (auto simp: cursor_ok_def cursor_rest_def)
  then have "usize_saturating_add (cur_pos r) n = cur_pos r + n"
    by (simp add: usize_saturating_add_def usize_max_def isize_max_def)
  then show ?thesis
    using assms by (auto simp: read_raw_def Let_def cursor_rest_def cursor_adv_def cursor_ok_def)
qed

lemma read_raw_short:
  assumes "cursor_ok r" and "length (cursor_rest r) < n"
  shows "read_raw n r = (Inl UnexpectedEof, r)"
  using assms
  by (auto simp: read_raw_def Let_def cursor_rest_def cursor_ok_def usize_saturating_add_def usize_max_def
      isize_max_def min_def)

interpretation dc: byte_reader read_raw
  by unfold_locales (auto simp: read_raw_enough read_raw_short)

lemma read_u8_raw: "cursor_ok r \<Longrightarrow> read_u8 r = sbind (read_raw 1) (\<lambda>bs. sret (hd bs)) r"
  by (cases "cur_pos r < length (cur_bytes r)")
    (auto simp: read_u8_def sbind_def sret_def read_raw_def Let_def usize_saturating_add_def cursor_ok_def
      hd_drop_conv_nth usize_max_def isize_max_def min_def)

lemma parses_read_u8: "parses read_u8 [b] b"
  using dc.parses_hd [of b] by (simp add: parses_def read_u8_raw)

lemma writes_raw: "length bs = n \<Longrightarrow> writes (read_raw n) (write_raw bs) bs"
  by (rule writesI [OF write_raw_def]) (rule dc.parses_read)

lemma writes_u8: "writes read_u8 (write_u8 v) v"
  by (rule writesI [OF write_u8_def parses_read_u8])

lemma writes_i8: "writes read_i8 (write_i8 v) v"
  unfolding read_i8_def by (rule writesI [OF write_i8_def parses_read_u8])

lemma writes_u16: "writes read_u16 (write_u16 v) v"
  unfolding read_u16_def by (rule writesI [OF write_u16_def dc.parses_le]) simp

lemma writes_u32: "writes read_u32 (write_u32 v) v"
  unfolding read_u32_def by (rule writesI [OF write_u32_def dc.parses_le]) simp

lemma writes_u64: "writes read_u64 (write_u64 v) v"
  unfolding read_u64_def by (rule writesI [OF write_u64_def dc.parses_le]) simp

lemma writes_bool: "writes read_bool (write_bool b) b"
  unfolding read_bool_def write_bool_def by (rule writes_tail [OF writes_u8]) simp

lemma sint_i16: "- (2 ^ 15) \<le> v \<Longrightarrow> v < 2 ^ 15 \<Longrightarrow> sint (word_of_int v :: u16) = v"
  by (simp add: signed_of_int signed_take_bit_int_eq_self)

lemma sint_i32: "- (2 ^ 31) \<le> v \<Longrightarrow> v < 2 ^ 31 \<Longrightarrow> sint (word_of_int v :: u32) = v"
  by (simp add: signed_of_int signed_take_bit_int_eq_self)

definition i16_range :: "int \<Rightarrow> bool" where
  "i16_range v \<longleftrightarrow> - (2 ^ 15) \<le> v \<and> v < 2 ^ 15"

definition len_ok :: "nat \<Rightarrow> bool" where
  "len_ok n \<longleftrightarrow> n < 2 ^ 32"

lemma writes_i16: "i16_range v \<Longrightarrow> writes read_i16 (write_i16 v) v"
  unfolding read_i16_def write_i16_def i16_range_def
  by (rule writes_tail [OF writes_u16]) (simp add: sint_i16)

lemma writes_i32: "i32_ok v \<Longrightarrow> writes read_i32 (write_i32 v) v"
  unfolding read_i32_def write_i32_def i32_ok_def
  by (rule writes_tail [OF writes_u32]) (simp add: sint_i32)

lemma writes_len: "len_ok n \<Longrightarrow> writes read_len (write_len n) n"
  unfolding read_len_def write_len_def len_ok_def
  by (simp, rule writes_tail [OF writes_u32]) (simp add: unat_of_nat take_bit_nat_eq_self)

lemma writes_bytes: "len_ok (length bs) \<Longrightarrow> writes read_bytes (write_bytes bs) bs"
  unfolding read_bytes_def write_bytes_def
  by (rule writes_bind [OF writes_len], assumption, rule writes_single, rule writes_raw) simp

text \<open>A Rust string: valid UTF-8. The contract's length prefix bounds its length.\<close>

definition string_ok :: "string \<Rightarrow> bool" where
  "string_ok s \<longleftrightarrow> utf8_valid (as_bytes s) \<and> len_ok (length s)"

lemma writes_string: "string_ok s \<Longrightarrow> writes read_string (write_string s) s"
proof -
  assume ok: "string_ok s"
  then have "writes read_bytes (write_string s) (as_bytes s)"
    unfolding write_string_def string_ok_def by (intro writes_bytes) simp
  moreover have "slift (from_utf8 (as_bytes s)) = sret s"
    using ok by (simp add: string_ok_def from_utf8_def chars_of_bytes slift_def sret_def)
  ultimately show ?thesis unfolding read_string_def by (rule writes_tail)
qed

lemma accepts_u8: "accepts (\<lambda>_. True) read_u8"
  and accepts_i8: "accepts (\<lambda>_. True) read_i8"
  and accepts_bool: "accepts (\<lambda>_. True) read_bool"
  and accepts_u16: "accepts (\<lambda>_. True) read_u16"
  and accepts_u32: "accepts (\<lambda>_. True) read_u32"
  and accepts_u64: "accepts (\<lambda>_. True) read_u64"
  by (simp_all add: accepts_True)

lemma accepts_i16: "accepts i16_range read_i16"
  unfolding read_i16_def
proof (rule accepts_bind [OF accepts_u16], rule accepts_sret)
  fix x :: u16
  show "i16_range (sint x)"
    using sint_ge [of x] sint_lt [of x] by (simp add: i16_range_def)
qed

lemma accepts_i32: "accepts i32_ok read_i32"
  unfolding read_i32_def
proof (rule accepts_bind [OF accepts_u32], rule accepts_sret)
  fix x :: u32
  show "i32_ok (sint x)"
    using sint_ge [of x] sint_lt [of x] by (simp add: i32_ok_def)
qed

lemma accepts_len: "accepts len_ok read_len"
  unfolding read_len_def
proof (rule accepts_bind [OF accepts_u32], rule accepts_sret)
  fix x :: u32
  show "len_ok (unat x)" using unsigned_less [of x, where ?'a = nat] by (simp add: len_ok_def)
qed

lemma accepts_raw: "accepts (\<lambda>bs. length bs \<le> n) (read_raw n)"
  by (auto simp: accepts_def read_raw_def Let_def usize_saturating_add_def split: if_splits)

lemma accepts_bytes: "accepts (\<lambda>bs. len_ok (length bs)) read_bytes"
  unfolding read_bytes_def
  by (rule accepts_bind [OF accepts_len], rule accepts_mono [OF accepts_raw]) (auto simp: len_ok_def)

lemma accepts_string: "accepts string_ok read_string"
  unfolding read_string_def
  by (rule accepts_bind [OF accepts_bytes], rule accepts_slift)
    (auto simp: from_utf8_def string_ok_def bytes_of_chars split: if_splits)

lemmas writes_bind_u8 [writes_intros] = writes_bind [OF writes_u8]
lemmas writes_bind_i8 [writes_intros] = writes_bind [OF writes_i8]
lemmas writes_bind_u16 [writes_intros] = writes_bind [OF writes_u16]
lemmas writes_bind_u32 [writes_intros] = writes_bind [OF writes_u32]
lemmas writes_bind_u64 [writes_intros] = writes_bind [OF writes_u64]
lemmas writes_bind_bool [writes_intros] = writes_bind [OF writes_bool]
lemmas writes_bind_i16 [writes_intros] = writes_bind [OF writes_i16]
lemmas writes_bind_i32 [writes_intros] = writes_bind [OF writes_i32]
lemmas writes_bind_len [writes_intros] = writes_bind [OF writes_len]
lemmas writes_bind_bytes [writes_intros] = writes_bind [OF writes_bytes]
lemmas writes_bind_string [writes_intros] = writes_bind [OF writes_string]

lemmas accepts_bind_u8 [accepts_intros] = accepts_bind [OF accepts_u8]
lemmas accepts_bind_i8 [accepts_intros] = accepts_bind [OF accepts_i8]
lemmas accepts_bind_u16 [accepts_intros] = accepts_bind [OF accepts_u16]
lemmas accepts_bind_u32 [accepts_intros] = accepts_bind [OF accepts_u32]
lemmas accepts_bind_u64 [accepts_intros] = accepts_bind [OF accepts_u64]
lemmas accepts_bind_bool [accepts_intros] = accepts_bind [OF accepts_bool]
lemmas accepts_bind_i16 [accepts_intros] = accepts_bind [OF accepts_i16]
lemmas accepts_bind_i32 [accepts_intros] = accepts_bind [OF accepts_i32]
lemmas accepts_bind_len [accepts_intros] = accepts_bind [OF accepts_len]
lemmas accepts_bind_bytes [accepts_intros] = accepts_bind [OF accepts_bytes]
lemmas accepts_bind_string [accepts_intros] = accepts_bind [OF accepts_string]

section \<open>Tags and sequences\<close>

lemma writes_match [writes_intros]:
  assumes "map_of arms tag \<noteq> None" and "writes (the (map_of arms tag)) (wseq ws) v"
  shows "writes (match_u8 arms message) (wseq (write_u8 tag # ws)) v"
  unfolding match_u8_def using assms by (intro writes_bind [OF writes_u8]) auto

lemma writes_match_u8: "map_of arms tag = Some (sret v) \<Longrightarrow> writes (match_u8 arms message) (write_u8 tag) v"
  unfolding match_u8_def by (rule writes_tail [OF writes_u8]) simp

lemma accepts_match [accepts_intros]:
  assumes "list_all (\<lambda>arm. accepts P (snd arm)) arms"
  shows "accepts P (match_u8 arms message)"
  unfolding match_u8_def
proof (rule accepts_bind [OF accepts_True])
  fix tag
  show "accepts P (case map_of arms tag of Some arm \<Rightarrow> arm | None \<Rightarrow> sfail (InvalidValue message))"
    using assms by (auto simp: list_all_iff intro: accepts_sfail split: option.split dest!: map_of_SomeD)
qed

section \<open>Envelopes\<close>

lemma length_wseq_header: "with_header h = Inr hs \<Longrightarrow> length hs = PLUGIN_ENVELOPE_HEADER_LEN"
  by (auto simp: with_header_def write_u16_def write_u8_def write_u32_def PLUGIN_ENVELOPE_HEADER_LEN_def
      wseq.simps)

lemma plugin_kind_try_from_tag [simp]: "plugin_kind_try_from (plugin_kind_tag kind) = Some kind"
  by (cases kind) (simp_all add: plugin_kind_try_from_def)

lemma writes_header: "writes read_header (with_header h) h"
proof -
  have lift: "sbind (slift (Inr kind)) f = f kind" for kind :: plugin_kind and f :: "plugin_kind \<Rightarrow> envelope_header dec"
    by (simp add: sbind_def slift_def)
  show ?thesis unfolding read_header_def with_header_def
    by (auto simp: lift intro!: writes_intros)
qed

lemma decode_encode_envelope:
  assumes abi: "eh_abi h = CURRENT_PLUGIN_ABI" and len: "unat (eh_payload_len h) = length payload"
  obtains bs where "encode_envelope h payload = Inr bs" and "decode_envelope bs = Inr (h, payload)"
    and "length bs = PLUGIN_ENVELOPE_HEADER_LEN + length payload"
proof -
  obtain hs where hs: "with_header h = Inr hs" "parses read_header hs h"
    using writes_header [of h] by (auto simp: writes_def)
  have n: "length hs = PLUGIN_ENVELOPE_HEADER_LEN" using length_wseq_header hs(1) by blast
  have small: "length payload < 2 ^ 32" using unsigned_less [of "eh_payload_len h", where ?'a = nat] len by simp
  have "cursor_ok (cursor_new (hs @ payload))"
    using n small by (intro cursor_ok_new) (simp add: isize_max_def PLUGIN_ENVELOPE_HEADER_LEN_def)
  then have "fst (read_header (cursor_new (hs @ payload))) = Inr h"
    using parsesD [OF hs(2), of "cursor_new (hs @ payload)" payload] by simp
  moreover have "usize_saturating_add PLUGIN_ENVELOPE_HEADER_LEN (length payload) = PLUGIN_ENVELOPE_HEADER_LEN + length payload"
    using small by (simp add: usize_saturating_add_def usize_max_def PLUGIN_ENVELOPE_HEADER_LEN_def)
  ultimately have "decode_envelope (hs @ payload) = Inr (h, payload)"
    using n abi len by (simp add: decode_envelope_def)
  moreover have "encode_envelope h payload = Inr (hs @ payload)"
    using len hs(1) by (simp add: encode_envelope_def write_raw_def wseq.simps)
  ultimately show ?thesis using that n by simp
qed

end
