(* ===== verification/Contract_Items.thy ===== *)
theory Contract_Items
  imports Contract_Binary Core_Version
begin

unbundle bit_operations_syntax

text \<open>
  The building blocks of the plugin contract's values, crate \<open>mc-plugin-contract\<close>: the options, vectors and
  ordered maps of \<open>codec/__internal/shared.rs\<close> and the item data of \<open>codec/__internal/inventory.rs\<close>.

  The loops \<open>write_len(n); for x in xs { .. }\<close> and the decoding loops that collect a vector or fill an ordered
  map are \<open>encode_list\<close>, \<open>decode_list\<close>, \<open>encode_map\<close> and \<open>decode_map\<close>; \<open>collect_by\<close> fills a map whose values
  hold their keys. \<open>decode_item_data_value\<close> is recursive in the data: it recurses with the number of remaining
  bytes as its fuel, and every level reads at least its tag, so the fuel is never the reason to stop
  (\<open>item_data_fuel\<close>). Signed integers that the model keeps as words are written by the unsigned writer of
  their width.

  The predicates ending in \<open>_ok\<close> say which values the contract can carry: strings are valid UTF-8, maps are sorted,
  lengths fit their prefix. For each codec two facts are proved: a well-formed value is written and read back
  (\<open>writes\<close>), and what is read is well formed (\<open>accepts\<close>).
\<close>

section \<open>Options, vectors and ordered maps\<close>

definition encode_option :: "('a \<Rightarrow> enc) \<Rightarrow> 'a option \<Rightarrow> enc" where
  "encode_option encode v =
     (case v of Some x \<Rightarrow> wseq [write_bool True, encode x] | None \<Rightarrow> write_bool False)"

definition decode_option :: "'a dec \<Rightarrow> 'a option dec" where
  "decode_option decode = sbind read_bool (\<lambda>present.
     if present then sbind decode (\<lambda>x. sret (Some x)) else sret None)"

definition encode_list :: "('a \<Rightarrow> enc) \<Rightarrow> 'a list \<Rightarrow> enc" where
  "encode_list encode xs = wseq [write_len (length xs), wseq (map encode xs)]"

definition decode_list :: "'a dec \<Rightarrow> 'a list dec" where
  "decode_list decode = sbind read_len (\<lambda>len. read_times len decode)"

definition encode_pair :: "('k \<Rightarrow> enc) \<Rightarrow> ('v \<Rightarrow> enc) \<Rightarrow> 'k \<times> 'v \<Rightarrow> enc" where
  "encode_pair encode_key encode_value e = wseq [encode_key (fst e), encode_value (snd e)]"

definition decode_pair :: "'k dec \<Rightarrow> 'v dec \<Rightarrow> ('k \<times> 'v) dec" where
  "decode_pair decode_key decode_value = sbind decode_key (\<lambda>k. sbind decode_value (\<lambda>v. sret (k, v)))"

definition encode_map :: "('k \<Rightarrow> enc) \<Rightarrow> ('v \<Rightarrow> enc) \<Rightarrow> ('k::linorder, 'v) btree_map \<Rightarrow> enc" where
  "encode_map encode_key encode_value m = encode_list (encode_pair encode_key encode_value) m"

definition decode_map :: "'k::linorder dec \<Rightarrow> 'v dec \<Rightarrow> ('k, 'v) btree_map dec" where
  "decode_map decode_key decode_value =
     sbind (decode_list (decode_pair decode_key decode_value)) (\<lambda>kvs. sret (bt_collect kvs))"

definition list_ok :: "('a \<Rightarrow> bool) \<Rightarrow> 'a list \<Rightarrow> bool" where
  "list_ok P xs \<longleftrightarrow> len_ok (length xs) \<and> list_all P xs"

definition map_ok :: "('k::linorder \<Rightarrow> 'v \<Rightarrow> bool) \<Rightarrow> ('k, 'v) btree_map \<Rightarrow> bool" where
  "map_ok P m \<longleftrightarrow> bt_ok m \<and> list_ok (\<lambda>(k, v). P k v) m"

lemma writes_option:
  assumes "\<And>x. v = Some x \<Longrightarrow> writes d (e x) x"
  shows "writes (decode_option d) (encode_option e v) v"
proof (cases v)
  case None
  have "writes read_bool (write_bool False) False" by (rule writes_bool)
  then show ?thesis unfolding decode_option_def encode_option_def None
    by (simp, intro writes_tail) auto
next
  case (Some x)
  then show ?thesis
    using assms unfolding decode_option_def encode_option_def
    by (auto intro!: writes_bind [OF writes_bool] writes_bind [OF assms] writes_sret)
qed

lemma accepts_option: "accepts P d \<Longrightarrow> accepts (pred_option P) (decode_option d)"
  unfolding decode_option_def
  by (intro accepts_bind [OF accepts_bool]) (auto intro!: accepts_sret elim!: accepts_bind)

lemma writes_list:
  assumes "list_ok P xs" and "\<And>x. P x \<Longrightarrow> x \<in> set xs \<Longrightarrow> writes d (e x) x"
  shows "writes (decode_list d) (encode_list e xs) xs"
  unfolding decode_list_def encode_list_def using assms
  by (intro writes_bind [OF writes_len] writes_single writes_times) (auto simp: list_ok_def list_all_iff)

lemma accepts_list: "accepts P d \<Longrightarrow> accepts (list_ok P) (decode_list d)"
  unfolding decode_list_def
  by (rule accepts_bind [OF accepts_len], rule accepts_mono [OF accepts_times]) (auto simp: list_ok_def)

lemma writes_pair: "writes dk (ek k) k \<Longrightarrow> writes dv (ev v) v \<Longrightarrow> writes (decode_pair dk dv) (encode_pair ek ev (k, v)) (k, v)"
  unfolding decode_pair_def encode_pair_def
  by (auto intro!: writes_bind [of dk] writes_bind [of dv] writes_sret)

lemma accepts_pair: "accepts P dk \<Longrightarrow> accepts Q dv \<Longrightarrow> accepts (\<lambda>(k, v). P k \<and> Q v) (decode_pair dk dv)"
  unfolding decode_pair_def by (auto intro!: accepts_sret elim!: accepts_bind)

subsection \<open>Filling an ordered map\<close>

lemma bt_collect_ok: "list_ok (\<lambda>(k, v). P k v) kvs \<Longrightarrow> map_ok P (bt_collect kvs)"
  using fold_bt_insert_inv [of "[]" kvs]
  by (auto simp: map_ok_def list_ok_def bt_collect_def len_ok_def list_all_iff)

lemma writes_map:
  assumes "map_ok P m" and "\<And>k v. P k v \<Longrightarrow> (k, v) \<in> set m \<Longrightarrow> writes dk (ek k) k \<and> writes dv (ev v) v"
  shows "writes (decode_map dk dv) (encode_map ek ev m) m"
proof -
  have "writes (decode_list (decode_pair dk dv)) (encode_list (encode_pair ek ev) m) m"
    using assms by (intro writes_list [of "\<lambda>(k, v). P k v"]) (auto simp: map_ok_def intro!: writes_pair)
  then show ?thesis unfolding decode_map_def encode_map_def
    by (rule writes_tail) (use assms in \<open>simp add: map_ok_def bt_collect_id\<close>)
qed

lemma accepts_map: "accepts P dk \<Longrightarrow> accepts Q dv \<Longrightarrow> accepts (map_ok (\<lambda>k v. P k \<and> Q v)) (decode_map dk dv)"
  unfolding decode_map_def
  by (rule accepts_bind [OF accepts_list [OF accepts_pair]]) (auto intro!: accepts_sret bt_collect_ok)

text \<open>A map written as its values alone, each of which holds its key.\<close>

definition collect_by :: "('v \<Rightarrow> 'k::linorder) \<Rightarrow> 'v list \<Rightarrow> ('k, 'v) btree_map" where
  "collect_by key xs = bt_collect (map (\<lambda>x. (key x, x)) xs)"

definition keyed_ok :: "('v \<Rightarrow> 'k::linorder) \<Rightarrow> ('v \<Rightarrow> bool) \<Rightarrow> ('k, 'v) btree_map \<Rightarrow> bool" where
  "keyed_ok key P m \<longleftrightarrow> map_ok (\<lambda>k v. k = key v \<and> P v) m"

lemma writes_values:
  assumes "keyed_ok key P m" and "\<And>v. P v \<Longrightarrow> writes d (e v) v"
  shows "writes (sbind (decode_list d) (\<lambda>xs. sret (collect_by key xs))) (encode_list e (map snd m)) m"
proof -
  have "writes (decode_list d) (encode_list e (map snd m)) (map snd m)"
    using assms by (intro writes_list [of P]) (auto simp: keyed_ok_def map_ok_def list_ok_def list_all_iff)
  moreover have "map (\<lambda>x. (key x, x)) (map snd m) = m"
    using assms(1) by (auto simp: keyed_ok_def map_ok_def list_ok_def list_all_iff comp_def intro!: map_idI)
  then have "collect_by key (map snd m) = m"
    using assms(1) by (simp add: collect_by_def keyed_ok_def map_ok_def bt_collect_id)
  ultimately show ?thesis by (auto intro: writes_tail)
qed

lemma collect_by_ok: "list_ok P xs \<Longrightarrow> keyed_ok key P (collect_by key xs)"
  unfolding keyed_ok_def collect_by_def by (rule bt_collect_ok) (auto simp: list_ok_def list_all_iff)

section \<open>Item data: \<open>inventory.rs\<close>\<close>

lemma encode_list_cong [fundef_cong]:
  "xs = ys \<Longrightarrow> (\<And>x. x \<in> set ys \<Longrightarrow> f x = g x) \<Longrightarrow> encode_list f xs = encode_list g ys"
  by (auto simp: encode_list_def cong: map_cong)

lemma encode_map_cong [fundef_cong]:
  "m = m' \<Longrightarrow> ek = ek' \<Longrightarrow> (\<And>e. e \<in> set m' \<Longrightarrow> f (snd e) = g (snd e)) \<Longrightarrow> encode_map ek f m = encode_map ek' g m'"
  by (auto simp: encode_map_def encode_pair_def intro!: encode_list_cong)

lemma size_compound: "e \<in> set xs \<Longrightarrow> size (snd e) < size (CompoundV xs)"
  by (induction xs) (auto simp: less_Suc_eq_le)

lemma size_elem: "v \<in> set xs \<Longrightarrow> size v < size (ListV xs)"
  by (induction xs) (auto simp: less_Suc_eq_le)

function encode_item_data_value :: "item_data_value \<Rightarrow> enc" where
  "encode_item_data_value (ByteV v) = wseq [write_u8 1, write_i8 v]"
| "encode_item_data_value (ShortV v) = wseq [write_u8 2, write_u16 v]"
| "encode_item_data_value (IntV v) = wseq [write_u8 3, write_u32 v]"
| "encode_item_data_value (LongV v) = wseq [write_u8 4, write_u64 v]"
| "encode_item_data_value (FloatV v) = wseq [write_u8 5, write_u32 v]"
| "encode_item_data_value (DoubleV v) = wseq [write_u8 6, write_u64 v]"
| "encode_item_data_value (ByteArrayV values) = wseq [write_u8 7, write_bytes values]"
| "encode_item_data_value (StringV value) = wseq [write_u8 8, write_string value]"
| "encode_item_data_value (ListV values) = wseq [write_u8 9, encode_list encode_item_data_value values]"
| "encode_item_data_value (CompoundV values) =
     wseq [write_u8 10, encode_map write_string encode_item_data_value values]"
| "encode_item_data_value (IntArrayV values) = wseq [write_u8 11, encode_list write_u32 values]"
| "encode_item_data_value (LongArrayV values) = wseq [write_u8 12, encode_list write_u64 values]"
  by pat_completeness auto

termination
  by (relation "measure size") (auto simp del: item_data_value.size simp: size_compound size_elem)

definition encode_item_data_map :: "item_data_map \<Rightarrow> enc" where
  "encode_item_data_map data = encode_map write_string encode_item_data_value data"

text \<open>The decoder with an explicit bound on its nesting: without bytes left it fails as reading the tag
  does.\<close>

primrec decode_item_data :: "nat \<Rightarrow> item_data_value dec" where
  "decode_item_data 0 = sfail UnexpectedEof"
| "decode_item_data (Suc n) = match_u8
     [(1, sbind read_i8 (\<lambda>v. sret (ByteV v))),
      (2, sbind read_u16 (\<lambda>v. sret (ShortV v))),
      (3, sbind read_u32 (\<lambda>v. sret (IntV v))),
      (4, sbind read_u64 (\<lambda>v. sret (LongV v))),
      (5, sbind read_u32 (\<lambda>v. sret (FloatV v))),
      (6, sbind read_u64 (\<lambda>v. sret (DoubleV v))),
      (7, sbind read_bytes (\<lambda>values. sret (ByteArrayV values))),
      (8, sbind read_string (\<lambda>value. sret (StringV value))),
      (9, sbind (decode_list (decode_item_data n)) (\<lambda>values. sret (ListV values))),
      (10, sbind (decode_map read_string (decode_item_data n)) (\<lambda>values. sret (CompoundV values))),
      (11, sbind (decode_list read_u32) (\<lambda>values. sret (IntArrayV values))),
      (12, sbind (decode_list read_u64) (\<lambda>values. sret (LongArrayV values)))]
     ''invalid item data tag''"

definition decode_item_data_value :: "item_data_value dec" where
  "decode_item_data_value = sbind (sget remaining) decode_item_data"

definition decode_item_data_map :: "item_data_map dec" where
  "decode_item_data_map = decode_map read_string decode_item_data_value"

function item_data_ok :: "item_data_value \<Rightarrow> bool" where
  "item_data_ok (ByteV _) = True"
| "item_data_ok (ShortV _) = True"
| "item_data_ok (IntV _) = True"
| "item_data_ok (LongV _) = True"
| "item_data_ok (FloatV _) = True"
| "item_data_ok (DoubleV _) = True"
| "item_data_ok (ByteArrayV values) = len_ok (length values)"
| "item_data_ok (StringV value) = string_ok value"
| "item_data_ok (ListV values) = (len_ok (length values) \<and> list_all item_data_ok values)"
| "item_data_ok (CompoundV values) =
     (bt_ok values \<and> len_ok (length values) \<and> list_all (\<lambda>e. string_ok (fst e) \<and> item_data_ok (snd e)) values)"
| "item_data_ok (IntArrayV values) = len_ok (length values)"
| "item_data_ok (LongArrayV values) = len_ok (length values)"
  by pat_completeness auto

termination
  by (relation "measure size") (auto simp del: item_data_value.size simp: size_compound size_elem)

subsection \<open>The bound on the nesting is never reached\<close>

lemma advances_raw [advances_intros]: "advances (read_raw n)"
  by (auto simp: advances_def read_raw_def Let_def cursor_ok_def split: if_splits)

lemma advances_u8 [advances_intros]: "advances read_u8"
  by (auto simp: advances_def read_u8_def cursor_ok_def usize_saturating_add_def usize_max_def isize_max_def min_def split: if_splits)

lemma advances_readers [advances_intros]:
  "advances read_i8" "advances read_bool" "advances read_u16" "advances read_u32" "advances read_u64" "advances read_len"
  "advances read_bytes" "advances read_string"
  by (auto simp: read_i8_def read_bool_def read_u16_def read_u32_def read_u64_def read_len_def read_bytes_def
      read_string_def intro!: advances_intros)

lemma advances_list [advances_intros]: "advances p \<Longrightarrow> advances (decode_list p)"
  by (auto simp: decode_list_def intro!: advances_intros)

lemma advances_map [advances_intros]: "advances p \<Longrightarrow> advances q \<Longrightarrow> advances (decode_map p q)"
  by (auto simp: decode_map_def decode_pair_def intro!: advances_intros)

lemma advances_match [advances_intros]: "list_all (\<lambda>arm. advances (snd arm)) arms \<Longrightarrow> advances (match_u8 arms message)"
  by (fastforce simp: match_u8_def list_all_iff intro!: advances_intros split: option.split dest!: map_of_SomeD)

lemma advances_item_data [advances_intros]: "advances (decode_item_data n)"
  by (induction n) (auto intro!: advances_intros)

lemma agree_list: "agree k p q \<Longrightarrow> advances p \<Longrightarrow> agree k (decode_list p) (decode_list q)"
  unfolding decode_list_def by (intro agree_bind agree_refl agree_times advances_readers)

lemma agree_map: "agree k p q \<Longrightarrow> advances p \<Longrightarrow> agree k (decode_map read_string p) (decode_map read_string q)"
  unfolding decode_map_def decode_pair_def
  by (intro agree_bind agree_refl agree_list advances_intros)

lemma match_eof: "cursor_ok r \<Longrightarrow> remaining r = 0 \<Longrightarrow> match_u8 arms message r = (Inl UnexpectedEof, r)"
  by (simp add: match_u8_def sbind_def read_u8_def remaining_def cursor_ok_def)

lemma agree_match:
  assumes "list_all2 (\<lambda>a b. fst a = fst b \<and> agree k (snd a) (snd b)) arms arms'"
  shows "agree (Suc k) (match_u8 arms message) (match_u8 arms' message)"
proof -
  have arms: "agree k (case map_of arms t of Some arm \<Rightarrow> arm | None \<Rightarrow> sfail e)
      (case map_of arms' t of Some arm \<Rightarrow> arm | None \<Rightarrow> sfail e)" for t e
    using assms by (induction rule: list_all2_induct) (auto simp: agree_refl)
  show ?thesis unfolding agree_def
  proof (intro allI impI)
    fix r assume r: "cursor_ok r" "remaining r \<le> Suc k"
    show "match_u8 arms message r = match_u8 arms' message r"
    proof (cases "cur_pos r < length (cur_bytes r)")
      case True
      let ?r = "r\<lparr>cur_pos := usize_saturating_add (cur_pos r) 1\<rparr>"
      have "cursor_ok ?r \<and> remaining ?r \<le> k"
        using r True by (auto simp: remaining_def cursor_ok_def usize_saturating_add_def usize_max_def isize_max_def min_def)
      then show ?thesis
        using arms [where t = "cur_bytes r ! cur_pos r" and e = "InvalidValue message"] True
        by (simp add: match_u8_def sbind_def read_u8_def agree_def)
    qed (simp add: match_u8_def sbind_def read_u8_def)
  qed
qed

lemma item_data_fuel: "k \<le> n \<Longrightarrow> k \<le> m \<Longrightarrow> agree k (decode_item_data n) (decode_item_data m)"
proof (induction k arbitrary: n m)
  case 0
  then show ?case
    by (cases n; cases m) (auto simp: agree_def match_eof sfail_def)
next
  case (Suc k)
  then obtain n' m' where nm: "n = Suc n'" "m = Suc m'" "k \<le> n'" "k \<le> m'"
    by (metis Suc_le_D Suc_le_mono)
  have "agree k (decode_item_data n') (decode_item_data m')" using Suc.IH nm by blast
  then show ?case unfolding nm(1,2) decode_item_data.simps
    by (intro agree_match) (auto intro!: agree_bind agree_refl agree_list agree_map advances_intros)
qed

subsection \<open>Round trip of item data\<close>

text \<open>\<open>v\<close> is written, and read back with any bound that covers its bytes.\<close>

definition item_written :: "item_data_value \<Rightarrow> bool" where
  "item_written v \<longleftrightarrow> (\<exists>bs. encode_item_data_value v = Inr bs \<and>
     (\<forall>n \<ge> length bs. writes (decode_item_data n) (encode_item_data_value v) v))"

lemma item_writtenI:
  assumes enc: "encode_item_data_value v = wseq (write_u8 tag # ws)" and ok: "wseq ws = Inr bs"
    and dec: "\<And>m. length bs \<le> m \<Longrightarrow> writes (decode_item_data (Suc m)) (wseq (write_u8 tag # ws)) v"
  shows "item_written v"
proof -
  have "encode_item_data_value v = Inr (tag # bs)"
    using enc ok by (simp add: wseq.simps write_u8_def)
  moreover have "writes (decode_item_data n) (encode_item_data_value v) v" if "length (tag # bs) \<le> n" for n
    using that dec [of "n - 1"] by (cases n) (auto simp: enc)
  ultimately show ?thesis by (auto simp: item_written_def)
qed

lemma item_written_child:
  assumes "item_written v" and "encode_item_data_value v = Inr xs" and "length xs \<le> n"
  shows "writes (decode_item_data n) (encode_item_data_value v) v"
  using assms by (auto simp: item_written_def)

lemma item_written_leaf:
  assumes enc: "encode_item_data_value v = wseq [write_u8 tag, w]"
    and w: "writes p w x" and arm: "\<And>m. decode_item_data (Suc m) = match_u8 (arms m) msg"
    and tag: "\<And>m. map_of (arms m) tag = Some (sbind p (\<lambda>x. sret (f x)))" and v: "f x = v"
  shows "item_written v"
proof -
  obtain bs where "wseq [w] = Inr bs" using writes_Inr [OF writes_single [OF w]] by blast
  moreover have "writes (match_u8 (arms m) msg) (wseq [write_u8 tag, w]) v" for m
    using tag v by (intro writes_match) (auto intro!: writes_bind [OF w] writes_sret)
  ultimately show ?thesis using enc arm by (intro item_writtenI [of v tag "[w]" bs]) simp_all
qed

lemma item_written_list:
  assumes "len_ok (length vs)" and "\<And>v. v \<in> set vs \<Longrightarrow> item_written v"
  shows "item_written (ListV vs)"
proof -
  let ?e = encode_item_data_value
  have written: "\<exists>bs. ?e v = Inr bs" if "v \<in> set vs" for v
    using assms(2) [OF that] unfolding item_written_def by blast
  obtain ys where ys: "wseq (map ?e vs) = Inr ys"
    using written wseq_concat [of "map ?e vs"] by force
  obtain bs where bs: "wseq [encode_list ?e vs] = Inr bs" and le: "length ys \<le> length bs"
    using assms(1) ys by (auto simp: wseq.simps encode_list_def write_len_def len_ok_def write_u32_def)
  have "writes (match_u8 arms msg) (wseq [write_u8 9, encode_list ?e vs]) (ListV vs)"
    if m: "length bs \<le> m" and arm: "map_of arms 9 = Some (sbind (decode_list (decode_item_data m)) (\<lambda>vs. sret (ListV vs)))"
    for arms msg m
  proof -
    have "writes (decode_item_data m) (?e v) v" if v: "v \<in> set vs" for v
    proof -
      obtain xs where "?e v = Inr xs" "length xs \<le> length ys" using wseq_member [OF ys, of "?e v"] v by auto
      then show ?thesis using item_written_child [OF assms(2) [OF v]] le m by auto
    qed
    then have w: "writes (decode_list (decode_item_data m)) (encode_list ?e vs) vs"
      using assms(1) by (intro writes_list [of "\<lambda>_. True"]) (auto simp: list_ok_def list_all_iff)
    show ?thesis using arm by (intro writes_match) (auto intro!: writes_bind [OF w] writes_sret)
  qed
  then show ?thesis using bs by (intro item_writtenI [of _ 9 "[encode_list ?e vs]" bs]) auto
qed

lemma item_written_compound:
  assumes ok: "bt_ok kvs" "len_ok (length kvs)"
    and kvs: "\<And>e. e \<in> set kvs \<Longrightarrow> string_ok (fst e) \<and> item_written (snd e)"
  shows "item_written (CompoundV kvs)"
proof -
  let ?e = encode_item_data_value and ?p = "encode_pair write_string encode_item_data_value"
  have written: "\<exists>bs. ?p e = Inr bs" if e: "e \<in> set kvs" for e
  proof -
    obtain ks where "write_string (fst e) = Inr ks" using kvs [OF e] writes_Inr [OF writes_string] by blast
    moreover obtain vs where "?e (snd e) = Inr vs" using kvs [OF e] by (auto simp: item_written_def)
    ultimately show ?thesis by (simp add: encode_pair_def wseq.simps)
  qed
  obtain ys where ys: "wseq (map ?p kvs) = Inr ys"
    using written wseq_concat [of "map ?p kvs"] by force
  obtain bs where bs: "wseq [encode_map write_string ?e kvs] = Inr bs" and le: "length ys \<le> length bs"
    using ok(2) ys by (auto simp: wseq.simps encode_map_def encode_list_def write_len_def len_ok_def write_u32_def)
  have "writes (match_u8 arms msg) (wseq [write_u8 10, encode_map write_string ?e kvs]) (CompoundV kvs)"
    if m: "length bs \<le> m"
      and arm: "map_of arms 10 = Some (sbind (decode_map read_string (decode_item_data m)) (\<lambda>kvs. sret (CompoundV kvs)))"
    for arms msg m
  proof -
    have "writes (decode_item_data m) (?e v) v" if v: "(k, v) \<in> set kvs" for k v
    proof -
      obtain zs where "?p (k, v) = Inr zs" "length zs \<le> length ys" using wseq_member [OF ys, of "?p (k, v)"] v by auto
      then obtain xs where "?e v = Inr xs" "length xs \<le> length ys"
        by (auto simp: encode_pair_def wseq.simps bind_res_eq_Inr)
      then show ?thesis using item_written_child [of v xs m] kvs [OF v] le m by auto
    qed
    then have w: "writes (decode_map read_string (decode_item_data m)) (encode_map write_string ?e kvs) kvs"
      using ok kvs by (intro writes_map [of "\<lambda>_ _. True"]) (auto simp: map_ok_def list_ok_def list_all_iff intro: writes_string)
    show ?thesis using arm by (intro writes_match) (auto intro!: writes_bind [OF w] writes_sret)
  qed
  then show ?thesis using bs by (intro item_writtenI [of _ 10 "[encode_map write_string ?e kvs]" bs]) auto
qed

lemma item_data_written: "item_data_ok v \<Longrightarrow> item_written v"
proof (induction v rule: encode_item_data_value.induct)
  case (9 vs)
  then show ?case by (intro item_written_list) (auto simp: list_all_iff)
next
  case (10 kvs)
  then show ?case by (intro item_written_compound) (auto simp: list_all_iff)
qed (auto intro!: item_written_leaf [OF _ _ decode_item_data.simps(2)] writes_i8 writes_u16 writes_u32 writes_u64 writes_bytes
    writes_string writes_list [of "\<lambda>_. True"] simp: list_ok_def list_all_iff)

lemma writes_item_data:
  assumes "item_data_ok v"
  shows "writes decode_item_data_value (encode_item_data_value v) v"
proof -
  obtain bs where bs: "encode_item_data_value v = Inr bs"
    and w: "\<And>n. length bs \<le> n \<Longrightarrow> writes (decode_item_data n) (encode_item_data_value v) v"
    using item_data_written [OF assms] by (auto simp: item_written_def)
  have "parses (decode_item_data n) bs v" if "length bs \<le> n" for n
    using w [OF that] bs by (auto simp: writes_def)
  moreover have "length bs \<le> remaining r" if "cursor_rest r = bs @ ys" for r ys
    using arg_cong [OF that, of length] by (simp add: cursor_rest_def remaining_def)
  ultimately have "parses decode_item_data_value bs v"
    by (auto simp: parses_def decode_item_data_value_def sbind_def sget_def)
  then show ?thesis using bs by (auto simp: writes_def)
qed

lemma accepts_item_data_n: "accepts item_data_ok (decode_item_data n)"
proof (induction n)
  case 0
  then show ?case by (simp add: accepts_sfail)
next
  case (Suc n)
  have compound: "accepts (map_ok (\<lambda>k v. string_ok k \<and> item_data_ok v)) (decode_map read_string (decode_item_data n))"
    by (rule accepts_map [OF accepts_string Suc])
  show ?case unfolding decode_item_data.simps
    by (rule accepts_match)
      (auto intro!: accepts_intros accepts_bind [OF accepts_list [OF Suc]] accepts_bind [OF compound]
        accepts_bind [OF accepts_list [OF accepts_u32]] accepts_bind [OF accepts_list [OF accepts_u64]]
        simp: list_ok_def map_ok_def list_all_iff split_beta)
qed

lemma accepts_item_data: "accepts item_data_ok decode_item_data_value"
  unfolding decode_item_data_value_def by (rule accepts_bind [OF accepts_True accepts_item_data_n])

definition item_data_map_ok :: "item_data_map \<Rightarrow> bool" where
  "item_data_map_ok m = map_ok (\<lambda>k v. string_ok k \<and> item_data_ok v) m"

lemma writes_item_data_map: "item_data_map_ok m \<Longrightarrow> writes decode_item_data_map (encode_item_data_map m) m"
  unfolding decode_item_data_map_def encode_item_data_map_def item_data_map_ok_def
  by (erule writes_map) (auto intro: writes_string writes_item_data)

lemma accepts_item_data_map: "accepts item_data_map_ok decode_item_data_map"
  unfolding decode_item_data_map_def item_data_map_ok_def by (rule accepts_map [OF accepts_string accepts_item_data])

lemmas writes_bind_item_data_map [writes_intros] = writes_bind [OF writes_item_data_map]
lemmas accepts_bind_item_data_map [accepts_intros] = accepts_bind [OF accepts_item_data_map]

end
