(* ===== verification/Contract_Values.thy ===== *)
theory Contract_Values
  imports Contract_Items
begin

unbundle bit_operations_syntax

text \<open>
  The values the plugin contract carries, crate \<open>mc-plugin-contract\<close>: the rest of
  \<open>codec/__internal/inventory.rs\<close> and the first half of \<open>codec/__internal/shared.rs\<close>: item stacks, inventory
  slots and windows, blocks, chunk columns, block entities, players and world snapshots. Every encoder is paired
  with its decoder; well-formed values are written and read back, and what is read is well formed.
\<close>

section \<open>Stacks, slots and clicks: \<open>inventory.rs\<close>\<close>

definition encode_item_stack :: "item_stack \<Rightarrow> enc" where
  "encode_item_stack stack = wseq
     [write_string (is_key stack), write_u8 (is_count stack), write_u16 (is_damage stack),
      encode_item_data_map (is_components stack), encode_item_data_map (is_extra stack)]"

definition decode_item_stack :: "item_stack dec" where
  "decode_item_stack =
     sbind read_string (\<lambda>key. sbind read_u8 (\<lambda>count. sbind read_u16 (\<lambda>damage.
     sbind decode_item_data_map (\<lambda>components. sbind decode_item_data_map (\<lambda>extra.
       sret ((item_stack_new key count damage)\<lparr>is_components := components, is_extra := extra\<rparr>))))))"

definition encode_inventory_container :: "container_kind_id \<Rightarrow> enc" where
  "encode_inventory_container container = write_string container"

definition decode_inventory_container :: "container_kind_id dec" where
  "decode_inventory_container = read_string"

definition encode_inventory_slot :: "inventory_slot \<Rightarrow> enc" where
  "encode_inventory_slot slot =
     (case slot of
        WindowLocal index \<Rightarrow> wseq [write_u8 1, if index \<le> 255 then write_u8 (ucast index) else Inl CodecPanic]
      | MainInventory index \<Rightarrow> wseq [write_u8 3, write_u8 index]
      | Hotbar index \<Rightarrow> wseq [write_u8 4, write_u8 index]
      | Offhand \<Rightarrow> wseq [write_u8 5])"

definition decode_inventory_slot :: "inventory_slot dec" where
  "decode_inventory_slot = match_u8
     [(1, sbind read_u8 (\<lambda>index. sret (WindowLocal (ucast index)))),
      (2, sbind read_u8 (\<lambda>index. sret (WindowLocal (ucast index)))),
      (3, sbind read_u8 (\<lambda>index. sret (MainInventory index))),
      (4, sbind read_u8 (\<lambda>index. sret (Hotbar index))),
      (5, sret Offhand)]
     ''invalid inventory slot''"

definition encode_inventory_click_button :: "inventory_click_button \<Rightarrow> enc" where
  "encode_inventory_click_button button = write_u8 (case button of LeftButton \<Rightarrow> 1 | RightButton \<Rightarrow> 2)"

definition decode_inventory_click_button :: "inventory_click_button dec" where
  "decode_inventory_click_button = match_u8
     [(1, sret LeftButton), (2, sret RightButton)] ''invalid inventory click button''"

definition encode_inventory_click_target :: "inventory_click_target \<Rightarrow> enc" where
  "encode_inventory_click_target target =
     (case target of
        SlotTarget slot \<Rightarrow> wseq [write_u8 1, encode_inventory_slot slot]
      | Outside \<Rightarrow> wseq [write_u8 2]
      | Unsupported \<Rightarrow> wseq [write_u8 3])"

definition decode_inventory_click_target :: "inventory_click_target dec" where
  "decode_inventory_click_target = match_u8
     [(1, sbind decode_inventory_slot (\<lambda>slot. sret (SlotTarget slot))), (2, sret Outside), (3, sret Unsupported)]
     ''invalid inventory click target''"

definition encode_inventory_click_validation :: "inventory_click_validation \<Rightarrow> enc" where
  "encode_inventory_click_validation validation =
     (case validation of
        StrictSlotEcho clicked_item \<Rightarrow> wseq [write_u8 1, encode_option encode_item_stack clicked_item]
      | Authoritative \<Rightarrow> wseq [write_u8 2])"

definition decode_inventory_click_validation :: "inventory_click_validation dec" where
  "decode_inventory_click_validation = match_u8
     [(1, sbind (decode_option decode_item_stack) (\<lambda>clicked_item. sret (StrictSlotEcho clicked_item))),
      (2, sret Authoritative)]
     ''invalid inventory click validation''"

definition encode_inventory_transaction_context :: "inventory_transaction_context \<Rightarrow> enc" where
  "encode_inventory_transaction_context transaction =
     wseq [write_u8 (tc_window_id transaction), write_u16 (tc_action_number transaction)]"

definition decode_inventory_transaction_context :: "inventory_transaction_context dec" where
  "decode_inventory_transaction_context =
     sbind read_u8 (\<lambda>window_id. sbind read_u16 (\<lambda>action_number.
       sret \<lparr>tc_window_id = window_id, tc_action_number = action_number\<rparr>))"

definition encode_player_inventory :: "player_inventory \<Rightarrow> enc" where
  "encode_player_inventory inventory = wseq
     [encode_list (encode_option encode_item_stack) (pi_slots inventory),
      encode_option encode_item_stack (pi_offhand inventory)]"

definition decode_player_inventory :: "player_inventory dec" where
  "decode_player_inventory =
     sbind (decode_list (decode_option decode_item_stack)) (\<lambda>slots.
     sbind (decode_option decode_item_stack) (\<lambda>offhand. sret \<lparr>pi_slots = slots, pi_offhand = offhand\<rparr>))"

definition encode_inventory_window_contents :: "inventory_window_contents \<Rightarrow> enc" where
  "encode_inventory_window_contents contents = wseq
     [encode_player_inventory (wc_player_inventory contents),
      encode_list (encode_option encode_item_stack) (wc_local_slots contents)]"

definition decode_inventory_window_contents :: "inventory_window_contents dec" where
  "decode_inventory_window_contents =
     sbind decode_player_inventory (\<lambda>inventory.
     sbind (decode_list (decode_option decode_item_stack)) (\<lambda>local_slots.
       sret \<lparr>wc_player_inventory = inventory, wc_local_slots = local_slots\<rparr>))"

definition item_stack_ok :: "item_stack \<Rightarrow> bool" where
  "item_stack_ok stack \<longleftrightarrow> string_ok (is_key stack) \<and> item_data_map_ok (is_components stack) \<and>
     item_data_map_ok (is_extra stack)"

abbreviation stack_option_ok :: "item_stack option \<Rightarrow> bool" where
  "stack_option_ok \<equiv> pred_option item_stack_ok"

fun slot_ok :: "inventory_slot \<Rightarrow> bool" where
  "slot_ok (WindowLocal index) = (index \<le> 255)"
| "slot_ok _ = True"

fun click_target_ok :: "inventory_click_target \<Rightarrow> bool" where
  "click_target_ok (SlotTarget slot) = slot_ok slot"
| "click_target_ok _ = True"

fun click_validation_ok :: "inventory_click_validation \<Rightarrow> bool" where
  "click_validation_ok (StrictSlotEcho clicked_item) = stack_option_ok clicked_item"
| "click_validation_ok Authoritative = True"

definition player_inventory_ok :: "player_inventory \<Rightarrow> bool" where
  "player_inventory_ok inventory \<longleftrightarrow> list_ok stack_option_ok (pi_slots inventory) \<and> stack_option_ok (pi_offhand inventory)"

definition window_contents_ok :: "inventory_window_contents \<Rightarrow> bool" where
  "window_contents_ok contents \<longleftrightarrow> player_inventory_ok (wc_player_inventory contents) \<and>
     list_ok stack_option_ok (wc_local_slots contents)"

lemma writes_item_stack: "item_stack_ok v \<Longrightarrow> writes decode_item_stack (encode_item_stack v) v"
  unfolding decode_item_stack_def encode_item_stack_def item_stack_ok_def item_stack_new_def
  by (auto intro!: writes_intros)

lemma accepts_item_stack: "accepts item_stack_ok decode_item_stack"
  unfolding decode_item_stack_def item_stack_new_def
  by (auto intro!: accepts_intros simp: item_stack_ok_def)

lemma writes_stack_option: "stack_option_ok v \<Longrightarrow> writes (decode_option decode_item_stack) (encode_option encode_item_stack v) v"
  by (intro writes_option writes_item_stack) auto

lemmas accepts_stack_option = accepts_option [OF accepts_item_stack]

lemma writes_stacks: "list_ok stack_option_ok v \<Longrightarrow>
    writes (decode_list (decode_option decode_item_stack)) (encode_list (encode_option encode_item_stack) v) v"
  by (erule writes_list) (rule writes_stack_option)

lemmas accepts_stacks = accepts_list [OF accepts_stack_option]

lemma writes_container: "string_ok v \<Longrightarrow> writes decode_inventory_container (encode_inventory_container v) v"
  unfolding decode_inventory_container_def encode_inventory_container_def by (rule writes_string)

lemma accepts_container: "accepts string_ok decode_inventory_container"
  unfolding decode_inventory_container_def by (rule accepts_string)

lemma ucast_255: "index \<le> 255 \<Longrightarrow> ucast (ucast index :: u8) = (index :: u16)"
proof -
  assume "index \<le> 255"
  then have "unat index < 256" by (simp add: word_le_nat_alt)
  then show ?thesis by (simp add: word_unat_eq_iff unsigned_ucast_eq take_bit_nat_eq_self unat_take_bit)
qed

lemma ucast_le_255: "ucast (index :: u8) \<le> (255 :: u16)"
  using unsigned_less [of index, where ?'a = nat] by (simp add: word_le_nat_alt unsigned_ucast_eq take_bit_nat_eq_self)

lemma writes_slot: "slot_ok v \<Longrightarrow> writes decode_inventory_slot (encode_inventory_slot v) v"
  unfolding decode_inventory_slot_def encode_inventory_slot_def
  by (cases v) (auto intro!: writes_intros simp: ucast_255)

lemma accepts_slot: "accepts slot_ok decode_inventory_slot"
  unfolding decode_inventory_slot_def
  by (auto intro!: accepts_intros simp: ucast_le_255)

lemma writes_click_button: "writes decode_inventory_click_button (encode_inventory_click_button v) v"
  unfolding decode_inventory_click_button_def encode_inventory_click_button_def
  by (cases v) (auto intro!: writes_match_u8)

lemma accepts_click_button: "accepts (\<lambda>_. True) decode_inventory_click_button"
  by (rule accepts_True)

lemmas writes_bind_slot [writes_intros] = writes_bind [OF writes_slot]
lemmas accepts_bind_slot [accepts_intros] = accepts_bind [OF accepts_slot]
lemmas writes_bind_stack_option [writes_intros] = writes_bind [OF writes_stack_option]
lemmas accepts_bind_stack_option [accepts_intros] = accepts_bind [OF accepts_stack_option]
lemmas writes_bind_stacks [writes_intros] = writes_bind [OF writes_stacks]
lemmas accepts_bind_stacks [accepts_intros] = accepts_bind [OF accepts_stacks]
lemmas writes_bind_item_stack [writes_intros] = writes_bind [OF writes_item_stack]
lemmas accepts_bind_item_stack [accepts_intros] = accepts_bind [OF accepts_item_stack]
lemmas writes_bind_container [writes_intros] = writes_bind [OF writes_container]
lemmas accepts_bind_container [accepts_intros] = accepts_bind [OF accepts_container]
lemmas writes_bind_click_button [writes_intros] = writes_bind [OF writes_click_button]
lemmas accepts_bind_click_button [accepts_intros] = accepts_bind [OF accepts_click_button]

lemma writes_click_target: "click_target_ok v \<Longrightarrow> writes decode_inventory_click_target (encode_inventory_click_target v) v"
  unfolding decode_inventory_click_target_def encode_inventory_click_target_def
  by (cases v) (auto intro!: writes_intros)

lemma accepts_click_target: "accepts click_target_ok decode_inventory_click_target"
  unfolding decode_inventory_click_target_def by (auto intro!: accepts_intros)

lemma writes_click_validation:
  "click_validation_ok v \<Longrightarrow> writes decode_inventory_click_validation (encode_inventory_click_validation v) v"
  unfolding decode_inventory_click_validation_def encode_inventory_click_validation_def
  by (cases v) (auto intro!: writes_intros)

lemma accepts_click_validation: "accepts click_validation_ok decode_inventory_click_validation"
  unfolding decode_inventory_click_validation_def by (auto intro!: accepts_intros)

lemma writes_transaction: "writes decode_inventory_transaction_context (encode_inventory_transaction_context v) v"
  unfolding decode_inventory_transaction_context_def encode_inventory_transaction_context_def
  by (auto intro!: writes_intros)

lemma accepts_transaction: "accepts (\<lambda>_. True) decode_inventory_transaction_context"
  by (rule accepts_True)

lemma writes_player_inventory: "player_inventory_ok v \<Longrightarrow> writes decode_player_inventory (encode_player_inventory v) v"
  unfolding decode_player_inventory_def encode_player_inventory_def player_inventory_ok_def
  by (auto intro!: writes_intros)

lemma accepts_player_inventory: "accepts player_inventory_ok decode_player_inventory"
  unfolding decode_player_inventory_def
  by (auto intro!: accepts_intros simp: player_inventory_ok_def)

lemmas writes_bind_player_inventory [writes_intros] = writes_bind [OF writes_player_inventory]
lemmas accepts_bind_player_inventory [accepts_intros] = accepts_bind [OF accepts_player_inventory]

lemma writes_window_contents:
  "window_contents_ok v \<Longrightarrow> writes decode_inventory_window_contents (encode_inventory_window_contents v) v"
  unfolding decode_inventory_window_contents_def encode_inventory_window_contents_def window_contents_ok_def
  by (auto intro!: writes_intros)

lemma accepts_window_contents: "accepts window_contents_ok decode_inventory_window_contents"
  unfolding decode_inventory_window_contents_def
  by (auto intro!: accepts_intros simp: window_contents_ok_def)

lemmas writes_bind_click_target [writes_intros] = writes_bind [OF writes_click_target]
lemmas accepts_bind_click_target [accepts_intros] = accepts_bind [OF accepts_click_target]
lemmas writes_bind_click_validation [writes_intros] = writes_bind [OF writes_click_validation]
lemmas accepts_bind_click_validation [accepts_intros] = accepts_bind [OF accepts_click_validation]
lemmas writes_bind_transaction [writes_intros] = writes_bind [OF writes_transaction]
lemmas accepts_bind_transaction [accepts_intros] = accepts_bind [OF accepts_transaction]
lemmas writes_bind_window_contents [writes_intros] = writes_bind [OF writes_window_contents]
lemmas accepts_bind_window_contents [accepts_intros] = accepts_bind [OF accepts_window_contents]

section \<open>Identifiers and blocks: \<open>shared.rs\<close>\<close>

datatype connection_phase = Handshaking | StatusPhase | LoginPhase | PlayPhase

definition encode_connection_phase :: "connection_phase \<Rightarrow> enc" where
  "encode_connection_phase phase = write_u8
     (case phase of Handshaking \<Rightarrow> 1 | StatusPhase \<Rightarrow> 2 | LoginPhase \<Rightarrow> 3 | PlayPhase \<Rightarrow> 4)"

definition decode_connection_phase :: "connection_phase dec" where
  "decode_connection_phase = match_u8
     [(1, sret Handshaking), (2, sret StatusPhase), (3, sret LoginPhase), (4, sret PlayPhase)] ''invalid connection phase''"

definition encode_dimension_id :: "dimension_id \<Rightarrow> enc" where
  "encode_dimension_id dimension = write_u8 (case dimension of Overworld \<Rightarrow> 1)"

definition decode_dimension_id :: "dimension_id dec" where
  "decode_dimension_id = match_u8 [(1, sret Overworld)] ''invalid dimension id''"

definition encode_interaction_hand :: "interaction_hand \<Rightarrow> enc" where
  "encode_interaction_hand hand = write_u8 (case hand of MainHand \<Rightarrow> 1 | OffhandHand \<Rightarrow> 2)"

definition decode_interaction_hand :: "interaction_hand dec" where
  "decode_interaction_hand = match_u8 [(1, sret MainHand), (2, sret OffhandHand)] ''invalid interaction hand''"

definition encode_block_face :: "block_face \<Rightarrow> enc" where
  "encode_block_face face = write_u8
     (case face of Bottom \<Rightarrow> 1 | Top \<Rightarrow> 2 | North \<Rightarrow> 3 | South \<Rightarrow> 4 | West \<Rightarrow> 5 | East \<Rightarrow> 6)"

definition decode_block_face :: "block_face dec" where
  "decode_block_face = match_u8
     [(1, sret Bottom), (2, sret Top), (3, sret North), (4, sret South), (5, sret West), (6, sret East)]
     ''invalid block face''"

definition encode_player_id :: "player_id \<Rightarrow> enc" where
  "encode_player_id p = write_raw (be_bytes 16 p)"

definition decode_player_id :: "player_id dec" where
  "decode_player_id = sbind (read_raw 16) (\<lambda>bs. sret (of_be_bytes bs))"

definition encode_entity_id :: "entity_id \<Rightarrow> enc" where
  "encode_entity_id e = write_i32 e"

definition decode_entity_id :: "entity_id dec" where
  "decode_entity_id = read_i32"

definition encode_connection_id :: "connection_id \<Rightarrow> enc" where
  "encode_connection_id c = write_u64 c"

definition decode_connection_id :: "connection_id dec" where
  "decode_connection_id = read_u64"

definition encode_block_pos :: "block_pos \<Rightarrow> enc" where
  "encode_block_pos p = wseq [write_i32 (bp_x p), write_i32 (bp_y p), write_i32 (bp_z p)]"

definition decode_block_pos :: "block_pos dec" where
  "decode_block_pos =
     sbind read_i32 (\<lambda>x. sbind read_i32 (\<lambda>y. sbind read_i32 (\<lambda>z. sret (block_pos_new x y z))))"

definition encode_vec3 :: "vec3 \<Rightarrow> enc" where
  "encode_vec3 v = wseq [write_u64 (v_x v), write_u64 (v_y v), write_u64 (v_z v)]"

definition decode_vec3 :: "vec3 dec" where
  "decode_vec3 =
     sbind read_u64 (\<lambda>x. sbind read_u64 (\<lambda>y. sbind read_u64 (\<lambda>z. sret \<lparr>v_x = x, v_y = y, v_z = z\<rparr>)))"

definition encode_block_state :: "block_state \<Rightarrow> enc" where
  "encode_block_state st = wseq [write_string (bs_key st), encode_map write_string write_string (bs_properties st)]"

definition decode_block_state :: "block_state dec" where
  "decode_block_state =
     sbind read_string (\<lambda>key. sbind (decode_map read_string read_string) (\<lambda>properties.
       sret \<lparr>bs_key = key, bs_properties = properties\<rparr>))"

definition encode_optional_block_state :: "block_state option \<Rightarrow> enc" where
  "encode_optional_block_state st = encode_option encode_block_state st"

definition decode_optional_block_state :: "block_state option dec" where
  "decode_optional_block_state = decode_option decode_block_state"

definition encode_dropped_item_snapshot :: "dropped_item_snapshot \<Rightarrow> enc" where
  "encode_dropped_item_snapshot item =
     wseq [encode_item_stack (di_item item), encode_vec3 (di_position item), encode_vec3 (di_velocity item)]"

definition decode_dropped_item_snapshot :: "dropped_item_snapshot dec" where
  "decode_dropped_item_snapshot =
     sbind decode_item_stack (\<lambda>item. sbind decode_vec3 (\<lambda>position. sbind decode_vec3 (\<lambda>velocity.
       sret \<lparr>di_item = item, di_position = position, di_velocity = velocity\<rparr>)))"

definition encode_block_entity_state :: "block_entity_state \<Rightarrow> enc" where
  "encode_block_entity_state entity =
     (case entity of ContainerEntity c \<Rightarrow> wseq
        [write_u8 3, write_string (be_kind c), encode_list (encode_option encode_item_stack) (be_slots c),
         encode_map write_string write_i16 (be_properties c)])"

text \<open>Tags 1 and 2 are the chest and furnace of an older format.\<close>

definition decode_block_entity_state :: "block_entity_state dec" where
  "decode_block_entity_state = match_u8
     [(1, sbind (decode_list (decode_option decode_item_stack)) (\<lambda>slots.
            sret (ContainerEntity \<lparr>be_kind = ''legacy:chest'', be_slots = slots, be_properties = []\<rparr>))),
      (2, sbind (decode_option decode_item_stack) (\<lambda>input. sbind (decode_option decode_item_stack) (\<lambda>fuel.
          sbind (decode_option decode_item_stack) (\<lambda>result. sbind read_i16 (\<lambda>burn_left. sbind read_i16 (\<lambda>burn_max.
          sbind read_i16 (\<lambda>cook_progress. sbind read_i16 (\<lambda>cook_total.
            sret (ContainerEntity \<lparr>be_kind = ''legacy:furnace'', be_slots = [input, fuel, result],
              be_properties = bt_collect
                [(''legacy:furnace.burn_left'', burn_left), (''legacy:furnace.burn_max'', burn_max),
                 (''legacy:furnace.cook_progress'', cook_progress), (''legacy:furnace.cook_total'', cook_total)]\<rparr>))))))))),
      (3, sbind read_string (\<lambda>kind. sbind (decode_list (decode_option decode_item_stack)) (\<lambda>slots.
          sbind (decode_map read_string read_i16) (\<lambda>properties.
            sret (ContainerEntity \<lparr>be_kind = kind, be_slots = slots, be_properties = properties\<rparr>)))))]
     ''invalid block entity state''"

definition block_pos_ok :: "block_pos \<Rightarrow> bool" where
  "block_pos_ok p \<longleftrightarrow> i32_ok (bp_x p) \<and> i32_ok (bp_y p) \<and> i32_ok (bp_z p)"

definition block_state_ok :: "block_state \<Rightarrow> bool" where
  "block_state_ok st \<longleftrightarrow> string_ok (bs_key st) \<and> map_ok (\<lambda>k v. string_ok k \<and> string_ok v) (bs_properties st)"

definition dropped_item_ok :: "dropped_item_snapshot \<Rightarrow> bool" where
  "dropped_item_ok item \<longleftrightarrow> item_stack_ok (di_item item)"

definition block_entity_ok :: "block_entity_state \<Rightarrow> bool" where
  "block_entity_ok entity \<longleftrightarrow> (case entity of ContainerEntity c \<Rightarrow>
     string_ok (be_kind c) \<and> list_ok stack_option_ok (be_slots c) \<and>
     map_ok (\<lambda>k v. string_ok k \<and> i16_range v) (be_properties c))"

lemma writes_phase: "writes decode_connection_phase (encode_connection_phase v) v"
  unfolding decode_connection_phase_def encode_connection_phase_def by (cases v) (auto intro!: writes_match_u8)

lemma writes_dimension: "writes decode_dimension_id (encode_dimension_id v) v"
  unfolding decode_dimension_id_def encode_dimension_id_def by (cases v) (auto intro!: writes_match_u8)

lemma writes_hand: "writes decode_interaction_hand (encode_interaction_hand v) v"
  unfolding decode_interaction_hand_def encode_interaction_hand_def by (cases v) (auto intro!: writes_match_u8)

lemma writes_face: "writes decode_block_face (encode_block_face v) v"
  unfolding decode_block_face_def encode_block_face_def by (cases v) (auto intro!: writes_match_u8)

lemma writes_player_id: "writes decode_player_id (encode_player_id v) v"
  unfolding decode_player_id_def encode_player_id_def write_raw_def
  by (rule writesI [OF refl dc.parses_be]) simp

lemma writes_entity_id: "i32_ok v \<Longrightarrow> writes decode_entity_id (encode_entity_id v) v"
  unfolding decode_entity_id_def encode_entity_id_def by (rule writes_i32)

lemma writes_connection_id: "writes decode_connection_id (encode_connection_id v) v"
  unfolding decode_connection_id_def encode_connection_id_def by (rule writes_u64)

lemma writes_block_pos: "block_pos_ok v \<Longrightarrow> writes decode_block_pos (encode_block_pos v) v"
  unfolding decode_block_pos_def encode_block_pos_def block_pos_ok_def block_pos_new_def by (auto intro!: writes_intros)

lemma writes_vec3: "writes decode_vec3 (encode_vec3 v) v"
  unfolding decode_vec3_def encode_vec3_def by (auto intro!: writes_intros)

lemma accepts_ids:
  "accepts (\<lambda>_. True) decode_connection_phase" "accepts (\<lambda>_. True) decode_dimension_id"
  "accepts (\<lambda>_. True) decode_interaction_hand" "accepts (\<lambda>_. True) decode_block_face"
  "accepts (\<lambda>_. True) decode_player_id" "accepts (\<lambda>_. True) decode_connection_id" "accepts (\<lambda>_. True) decode_vec3"
  by (simp_all add: accepts_True)

lemma accepts_entity_id: "accepts i32_ok decode_entity_id"
  unfolding decode_entity_id_def by (rule accepts_i32)

lemma accepts_block_pos: "accepts block_pos_ok decode_block_pos"
  unfolding decode_block_pos_def block_pos_new_def by (auto intro!: accepts_intros simp: block_pos_ok_def)

lemmas writes_bind_ids [writes_intros] =
  writes_phase [THEN writes_bind] writes_dimension [THEN writes_bind] writes_hand [THEN writes_bind]
  writes_face [THEN writes_bind] writes_player_id [THEN writes_bind] writes_entity_id [THEN writes_bind]
  writes_connection_id [THEN writes_bind] writes_block_pos [THEN writes_bind] writes_vec3 [THEN writes_bind]

lemmas accepts_bind_ids [accepts_intros] =
  accepts_ids [THEN accepts_bind] accepts_entity_id [THEN accepts_bind] accepts_block_pos [THEN accepts_bind]

lemma writes_strings: "map_ok (\<lambda>k v. string_ok k \<and> string_ok v) m \<Longrightarrow>
    writes (decode_map read_string read_string) (encode_map write_string write_string m) m"
  by (erule writes_map) (auto intro: writes_string)

lemma writes_properties: "map_ok (\<lambda>k v. string_ok k \<and> i16_range v) m \<Longrightarrow>
    writes (decode_map read_string read_i16) (encode_map write_string write_i16 m) m"
  by (erule writes_map) (auto intro: writes_string writes_i16)

lemmas writes_bind_maps [writes_intros] = writes_strings [THEN writes_bind] writes_properties [THEN writes_bind]
lemmas accepts_bind_maps [accepts_intros] = accepts_map [OF accepts_string accepts_string, THEN accepts_bind]
  accepts_map [OF accepts_string accepts_i16, THEN accepts_bind]

lemma writes_block_state: "block_state_ok v \<Longrightarrow> writes decode_block_state (encode_block_state v) v"
  unfolding decode_block_state_def encode_block_state_def block_state_ok_def by (auto intro!: writes_intros)

lemma accepts_block_state: "accepts block_state_ok decode_block_state"
  unfolding decode_block_state_def by (auto intro!: accepts_intros simp: block_state_ok_def)

lemma writes_optional_block:
  "pred_option block_state_ok v \<Longrightarrow> writes decode_optional_block_state (encode_optional_block_state v) v"
  unfolding decode_optional_block_state_def encode_optional_block_state_def
  by (intro writes_option writes_block_state) auto

lemma accepts_optional_block: "accepts (pred_option block_state_ok) decode_optional_block_state"
  unfolding decode_optional_block_state_def by (rule accepts_option [OF accepts_block_state])

lemma writes_dropped_item: "dropped_item_ok v \<Longrightarrow> writes decode_dropped_item_snapshot (encode_dropped_item_snapshot v) v"
  unfolding decode_dropped_item_snapshot_def encode_dropped_item_snapshot_def dropped_item_ok_def
  by (auto intro!: writes_intros)

lemma accepts_dropped_item: "accepts dropped_item_ok decode_dropped_item_snapshot"
  unfolding decode_dropped_item_snapshot_def by (auto intro!: accepts_intros simp: dropped_item_ok_def)

lemma writes_block_entity: "block_entity_ok v \<Longrightarrow> writes decode_block_entity_state (encode_block_entity_state v) v"
  unfolding decode_block_entity_state_def encode_block_entity_state_def block_entity_ok_def
  by (cases v) (auto intro!: writes_intros)

text \<open>The keys and kinds of the older format are strings the contract can carry.\<close>

lemma legacy_strings_ok:
  "string_ok ''legacy:chest''" "string_ok ''legacy:furnace''" "string_ok ''legacy:furnace.burn_left''"
  "string_ok ''legacy:furnace.burn_max''" "string_ok ''legacy:furnace.cook_progress''"
  "string_ok ''legacy:furnace.cook_total''"
  by (simp_all add: string_ok_def as_bytes_def len_ok_def)

lemma accepts_block_entity: "accepts block_entity_ok decode_block_entity_state"
proof -
  have furnace: "map_ok (\<lambda>k v. string_ok k \<and> i16_range v) (bt_collect
      [(''legacy:furnace.burn_left'', a), (''legacy:furnace.burn_max'', b),
       (''legacy:furnace.cook_progress'', c), (''legacy:furnace.cook_total'', d)])"
    if "i16_range a" "i16_range b" "i16_range c" "i16_range d" for a b c d
    using that by (intro bt_collect_ok) (simp add: list_ok_def len_ok_def legacy_strings_ok)
  have empty: "map_ok (\<lambda>k v. string_ok k \<and> i16_range v) []"
    by (simp add: map_ok_def list_ok_def len_ok_def)
  have three: "list_ok stack_option_ok [x, y, z]" if "stack_option_ok x" "stack_option_ok y" "stack_option_ok z" for x y z
    using that by (simp add: list_ok_def len_ok_def)
  show ?thesis unfolding decode_block_entity_state_def
    by (auto intro!: accepts_intros furnace empty three simp: block_entity_ok_def legacy_strings_ok)
qed

lemmas writes_bind_blocks [writes_intros] =
  writes_block_state [THEN writes_bind] writes_optional_block [THEN writes_bind]
  writes_dropped_item [THEN writes_bind] writes_block_entity [THEN writes_bind]

lemmas accepts_bind_blocks [accepts_intros] =
  accepts_block_state [THEN accepts_bind] accepts_optional_block [THEN accepts_bind]
  accepts_dropped_item [THEN accepts_bind] accepts_block_entity [THEN accepts_bind]

end
