(* ===== verification/Contract_World.thy ===== *)
theory Contract_World
  imports Contract_Values
begin

unbundle bit_operations_syntax

text \<open>
  Chunks, players and whole worlds on the wire, crate \<open>mc-plugin-contract\<close>, \<open>codec/__internal/shared.rs\<close>: what a
  storage plugin loads and saves. A section's blocks are placed one by one with \<open>set_block\<close> at the coordinates
  the index expands to; columns, worlds and players are maps keyed by a field of their values.
\<close>

section \<open>Chunks\<close>

definition encode_chunk_section :: "chunk_section \<Rightarrow> enc" where
  "encode_chunk_section s = wseq
     [write_i32 (cs_y s),
      encode_list (encode_pair (\<lambda>index. write_u16 (into_raw index)) encode_block_state) (cs_blocks s)]"

definition insert_section_block :: "u16 \<times> block_state \<Rightarrow> chunk_section \<Rightarrow> chunk_section" where
  "insert_section_block e s = (case expand_block_index (fst e) of (x, y, z) \<Rightarrow> section_set_block x y z (Some (snd e)) s)"

definition decode_chunk_section :: "chunk_section dec" where
  "decode_chunk_section =
     sbind read_i32 (\<lambda>section_y. sbind (decode_list (decode_pair read_u16 decode_block_state)) (\<lambda>blocks.
       sret (fold insert_section_block blocks (section_new section_y))))"

definition encode_chunk_column :: "chunk_column \<Rightarrow> enc" where
  "encode_chunk_column c = wseq
     [write_i32 (cp_x (cc_pos c)), write_i32 (cp_z (cc_pos c)),
      encode_list encode_chunk_section (map snd (cc_sections c)), write_bytes (cc_biomes c)]"

definition decode_chunk_column :: "chunk_column dec" where
  "decode_chunk_column =
     sbind read_i32 (\<lambda>x. sbind read_i32 (\<lambda>z.
     sbind (sbind (decode_list decode_chunk_section) (\<lambda>xs. sret (collect_by cs_y xs))) (\<lambda>sections.
     sbind read_bytes (\<lambda>biomes.
       sret \<lparr>cc_pos = \<lparr>cp_x = x, cp_z = z\<rparr>, cc_sections = sections, cc_biomes = biomes\<rparr>))))"

definition section_wf :: "chunk_section \<Rightarrow> bool" where
  "section_wf s \<longleftrightarrow> i32_ok (cs_y s) \<and> map_ok (\<lambda>index st. into_raw index < 0x1000 \<and> block_state_ok st) (cs_blocks s)"

definition column_wf :: "chunk_column \<Rightarrow> bool" where
  "column_wf c \<longleftrightarrow> i32_ok (cp_x (cc_pos c)) \<and> i32_ok (cp_z (cc_pos c)) \<and>
     keyed_ok cs_y section_wf (cc_sections c) \<and> len_ok (length (cc_biomes c))"

lemma insert_section_block_insert:
  "insert_section_block e s = s\<lparr>cs_blocks := bt_insert (section_index_from_raw (fst e)) (snd e) (cs_blocks s)\<rparr>"
  using flatten_expand [of "fst e"]
  by (auto simp: insert_section_block_def section_set_block_def Let_def split: prod.splits)

lemma place_blocks:
  "fold insert_section_block blocks s =
    s\<lparr>cs_blocks := fold (\<lambda>(k, v). bt_insert k v) (map (\<lambda>e. (section_index_from_raw (fst e), snd e)) blocks) (cs_blocks s)\<rparr>"
  by (induction blocks arbitrary: s) (simp_all add: insert_section_block_insert)

lemma section_decoded:
  "fold insert_section_block blocks (section_new y) =
    \<lparr>cs_y = y, cs_blocks = bt_collect (map (\<lambda>e. (section_index_from_raw (fst e), snd e)) blocks)\<rparr>"
  by (simp add: place_blocks bt_collect_def section_new_def)

lemma writes_section: "section_wf v \<Longrightarrow> writes decode_chunk_section (encode_chunk_section v) v"
proof -
  assume ok: "section_wf v"
  let ?raw = "map (\<lambda>e. (into_raw (fst e), snd e)) (cs_blocks v)"
  have blocks: "writes (decode_list (decode_pair read_u16 decode_block_state))
      (encode_list (encode_pair write_u16 encode_block_state) ?raw) ?raw"
    using ok by (intro writes_list [of "\<lambda>e. block_state_ok (snd e)"])
      (auto simp: section_wf_def map_ok_def list_ok_def list_all_iff intro!: writes_pair writes_u16 writes_block_state)
  have same: "encode_list (encode_pair write_u16 encode_block_state) ?raw =
      encode_list (encode_pair (\<lambda>index. write_u16 (into_raw index)) encode_block_state) (cs_blocks v)"
    by (simp add: encode_list_def encode_pair_def [abs_def] comp_def)
  have "map (\<lambda>e. (section_index_from_raw (fst e), snd e)) ?raw = cs_blocks v"
    using ok by (auto simp: section_wf_def map_ok_def list_ok_def list_all_iff comp_def from_raw_into_raw intro!: map_idI)
  then have "bt_collect (map (\<lambda>e. (section_index_from_raw (fst e), snd e)) ?raw) = cs_blocks v"
    using ok by (simp add: section_wf_def map_ok_def bt_collect_id)
  then show ?thesis
    using ok unfolding decode_chunk_section_def encode_chunk_section_def same [symmetric] section_decoded
    by (auto intro!: writes_intros writes_bind [OF blocks] simp: section_wf_def)
qed

lemma accepts_section: "accepts section_wf decode_chunk_section"
  unfolding decode_chunk_section_def section_decoded
  by (rule accepts_bind [OF accepts_i32], rule accepts_bind [OF accepts_list [OF accepts_pair [OF accepts_u16 accepts_block_state]]])
    (auto intro!: accepts_sret bt_collect_ok simp: section_wf_def list_ok_def list_all_iff into_raw_from_raw split_beta)

lemma accepts_values: "accepts P d \<Longrightarrow> accepts (keyed_ok key P) (sbind (decode_list d) (\<lambda>xs. sret (collect_by key xs)))"
  by (rule accepts_bind [OF accepts_list]) (auto intro!: accepts_sret collect_by_ok)

lemma writes_column: "column_wf v \<Longrightarrow> writes decode_chunk_column (encode_chunk_column v) v"
  unfolding decode_chunk_column_def encode_chunk_column_def column_wf_def
  by (auto intro!: writes_intros writes_bind [OF writes_values [OF _ writes_section]])

lemma accepts_column: "accepts column_wf decode_chunk_column"
  unfolding decode_chunk_column_def
  by (auto intro!: accepts_intros accepts_bind [OF accepts_values [OF accepts_section]] simp: column_wf_def)

lemmas writes_bind_column [writes_intros] = writes_column [THEN writes_bind]
lemmas accepts_bind_column [accepts_intros] = accepts_column [THEN accepts_bind]

section \<open>Worlds and players\<close>

definition encode_world_meta :: "world_meta \<Rightarrow> enc" where
  "encode_world_meta meta = wseq
     [write_string (wm_level_name meta), write_u64 (wm_seed meta), encode_block_pos (wm_spawn meta),
      encode_dimension_id (wm_dimension meta), write_u64 (wm_age meta), write_u64 (wm_time meta),
      write_string (wm_level_type meta), write_u8 (wm_game_mode meta), write_u8 (wm_difficulty meta),
      write_u32 (wm_max_players meta)]"

definition decode_world_meta :: "world_meta dec" where
  "decode_world_meta =
     sbind read_string (\<lambda>level_name. sbind read_u64 (\<lambda>seed. sbind decode_block_pos (\<lambda>spawn.
     sbind decode_dimension_id (\<lambda>dimension. sbind read_u64 (\<lambda>age. sbind read_u64 (\<lambda>time.
     sbind read_string (\<lambda>level_type. sbind read_u8 (\<lambda>game_mode. sbind read_u8 (\<lambda>difficulty.
     sbind read_u32 (\<lambda>max_players.
       sret \<lparr>wm_level_name = level_name, wm_seed = seed, wm_spawn = spawn, wm_dimension = dimension, wm_age = age,
             wm_time = time, wm_level_type = level_type, wm_game_mode = game_mode, wm_difficulty = difficulty,
             wm_max_players = max_players\<rparr>))))))))))"

definition encode_player_snapshot :: "player_snapshot \<Rightarrow> enc" where
  "encode_player_snapshot player = wseq
     [encode_player_id (ps_id player), write_string (ps_username player), encode_vec3 (ps_position player),
      write_u32 (ps_yaw player), write_u32 (ps_pitch player), write_bool (ps_on_ground player),
      encode_dimension_id (ps_dimension player), write_u32 (ps_health player), write_u16 (ps_food player),
      write_u32 (ps_food_saturation player), encode_player_inventory (ps_inventory player),
      write_u8 (ps_selected_hotbar_slot player)]"

definition decode_player_snapshot :: "player_snapshot dec" where
  "decode_player_snapshot =
     sbind decode_player_id (\<lambda>p. sbind read_string (\<lambda>username. sbind decode_vec3 (\<lambda>position.
     sbind read_u32 (\<lambda>yaw. sbind read_u32 (\<lambda>pitch. sbind read_bool (\<lambda>on_ground.
     sbind decode_dimension_id (\<lambda>dimension. sbind read_u32 (\<lambda>health. sbind read_u16 (\<lambda>food.
     sbind read_u32 (\<lambda>food_saturation. sbind decode_player_inventory (\<lambda>inventory.
     sbind read_u8 (\<lambda>selected_hotbar_slot.
       sret \<lparr>ps_id = p, ps_username = username, ps_position = position, ps_yaw = yaw, ps_pitch = pitch,
             ps_on_ground = on_ground, ps_dimension = dimension, ps_health = health, ps_food = food,
             ps_food_saturation = food_saturation, ps_inventory = inventory,
             ps_selected_hotbar_slot = selected_hotbar_slot\<rparr>))))))))))))"

definition encode_world_snapshot :: "world_snapshot \<Rightarrow> enc" where
  "encode_world_snapshot snapshot = wseq
     [encode_world_meta (wn_meta snapshot),
      encode_list encode_chunk_column (map snd (wn_chunks snapshot)),
      encode_map encode_block_pos encode_block_entity_state (wn_block_entities snapshot),
      encode_list encode_player_snapshot (map snd (wn_players snapshot))]"

definition decode_world_snapshot :: "world_snapshot dec" where
  "decode_world_snapshot =
     sbind decode_world_meta (\<lambda>meta.
     sbind (sbind (decode_list decode_chunk_column) (\<lambda>xs. sret (collect_by cc_pos xs))) (\<lambda>chunks.
     sbind (decode_map decode_block_pos decode_block_entity_state) (\<lambda>block_entities.
     sbind (sbind (decode_list decode_player_snapshot) (\<lambda>xs. sret (collect_by ps_id xs))) (\<lambda>players.
       sret \<lparr>wn_meta = meta, wn_chunks = chunks, wn_block_entities = block_entities, wn_players = players\<rparr>))))"

definition world_meta_ok :: "world_meta \<Rightarrow> bool" where
  "world_meta_ok meta \<longleftrightarrow> string_ok (wm_level_name meta) \<and> block_pos_ok (wm_spawn meta) \<and> string_ok (wm_level_type meta)"

definition player_snapshot_ok :: "player_snapshot \<Rightarrow> bool" where
  "player_snapshot_ok player \<longleftrightarrow> string_ok (ps_username player) \<and> player_inventory_ok (ps_inventory player)"

definition world_snapshot_ok :: "world_snapshot \<Rightarrow> bool" where
  "world_snapshot_ok snapshot \<longleftrightarrow> world_meta_ok (wn_meta snapshot) \<and> keyed_ok cc_pos column_wf (wn_chunks snapshot) \<and>
     map_ok (\<lambda>p e. block_pos_ok p \<and> block_entity_ok e) (wn_block_entities snapshot) \<and>
     keyed_ok ps_id player_snapshot_ok (wn_players snapshot)"

lemma writes_world_meta: "world_meta_ok v \<Longrightarrow> writes decode_world_meta (encode_world_meta v) v"
  unfolding decode_world_meta_def encode_world_meta_def world_meta_ok_def by (auto intro!: writes_intros)

lemma accepts_world_meta: "accepts world_meta_ok decode_world_meta"
  unfolding decode_world_meta_def by (auto intro!: accepts_intros simp: world_meta_ok_def)

lemma writes_player: "player_snapshot_ok v \<Longrightarrow> writes decode_player_snapshot (encode_player_snapshot v) v"
  unfolding decode_player_snapshot_def encode_player_snapshot_def player_snapshot_ok_def by (auto intro!: writes_intros)

lemma accepts_player: "accepts player_snapshot_ok decode_player_snapshot"
  unfolding decode_player_snapshot_def by (auto intro!: accepts_intros simp: player_snapshot_ok_def)

lemmas writes_bind_world [writes_intros] = writes_world_meta [THEN writes_bind] writes_player [THEN writes_bind]
lemmas accepts_bind_world [accepts_intros] = accepts_world_meta [THEN accepts_bind] accepts_player [THEN accepts_bind]

lemma writes_block_entities: "map_ok (\<lambda>p e. block_pos_ok p \<and> block_entity_ok e) m \<Longrightarrow>
    writes (decode_map decode_block_pos decode_block_entity_state) (encode_map encode_block_pos encode_block_entity_state m) m"
  by (erule writes_map) (auto intro: writes_block_pos writes_block_entity)

lemma writes_world_snapshot: "world_snapshot_ok v \<Longrightarrow> writes decode_world_snapshot (encode_world_snapshot v) v"
  unfolding decode_world_snapshot_def encode_world_snapshot_def world_snapshot_ok_def
  by (auto intro!: writes_intros writes_bind [OF writes_values [OF _ writes_column]]
      writes_bind [OF writes_values [OF _ writes_player]] writes_bind [OF writes_block_entities])

lemma accepts_world_snapshot: "accepts world_snapshot_ok decode_world_snapshot"
  unfolding decode_world_snapshot_def
  by (auto intro!: accepts_intros accepts_bind [OF accepts_values [OF accepts_column]]
      accepts_bind [OF accepts_values [OF accepts_player]] accepts_bind [OF accepts_map [OF accepts_block_pos accepts_block_entity]]
      simp: world_snapshot_ok_def)

end
