(* ===== verification/Contract_Commands.thy ===== *)
theory Contract_Commands
  imports Contract_World
begin

text \<open>
  Commands, events, targets, read sets and effects on the wire, crate \<open>mc-plugin-contract\<close>: the second half of
  \<open>codec/__internal/shared.rs\<close> and \<open>codec/__internal/gameplay_semantic.rs\<close>.
\<close>

section \<open>Gameplay commands\<close>

definition encode_gameplay_command :: "gameplay_command \<Rightarrow> enc" where
  "encode_gameplay_command command =
     (case command of
        MoveIntent p position yaw pitch on_ground \<Rightarrow> wseq
          [write_u8 1, encode_player_id p, encode_option encode_vec3 position, encode_option write_u32 yaw,
           encode_option write_u32 pitch, write_bool on_ground]
      | SetHeldSlot p slot \<Rightarrow> wseq [write_u8 2, encode_player_id p, write_u16 slot]
      | CreativeInventorySet p slot stack \<Rightarrow> wseq
          [write_u8 3, encode_player_id p, encode_inventory_slot slot, encode_option encode_item_stack stack]
      | DigBlock p position status face \<Rightarrow> wseq
          [write_u8 4, encode_player_id p, encode_block_pos position, write_u8 status, encode_option encode_block_face face]
      | PlaceBlock p hand position face held_item \<Rightarrow> wseq
          [write_u8 5, encode_player_id p, encode_interaction_hand hand, encode_block_pos position,
           encode_option encode_block_face face, encode_option encode_item_stack held_item]
      | UseBlock p hand position face held_item \<Rightarrow> wseq
          [write_u8 6, encode_player_id p, encode_interaction_hand hand, encode_block_pos position,
           encode_option encode_block_face face, encode_option encode_item_stack held_item])"

definition decode_gameplay_command :: "gameplay_command dec" where
  "decode_gameplay_command = match_u8
     [(1, sbind decode_player_id (\<lambda>p. sbind (decode_option decode_vec3) (\<lambda>position.
          sbind (decode_option read_u32) (\<lambda>yaw. sbind (decode_option read_u32) (\<lambda>pitch. sbind read_bool (\<lambda>on_ground.
            sret (MoveIntent p position yaw pitch on_ground))))))),
      (2, sbind decode_player_id (\<lambda>p. sbind read_u16 (\<lambda>slot. sret (SetHeldSlot p slot)))),
      (3, sbind decode_player_id (\<lambda>p. sbind decode_inventory_slot (\<lambda>slot. sbind (decode_option decode_item_stack) (\<lambda>stack.
            sret (CreativeInventorySet p slot stack))))),
      (4, sbind decode_player_id (\<lambda>p. sbind decode_block_pos (\<lambda>position. sbind read_u8 (\<lambda>status.
          sbind (decode_option decode_block_face) (\<lambda>face. sret (DigBlock p position status face)))))),
      (5, sbind decode_player_id (\<lambda>p. sbind decode_interaction_hand (\<lambda>hand. sbind decode_block_pos (\<lambda>position.
          sbind (decode_option decode_block_face) (\<lambda>face. sbind (decode_option decode_item_stack) (\<lambda>held_item.
            sret (PlaceBlock p hand position face held_item))))))),
      (6, sbind decode_player_id (\<lambda>p. sbind decode_interaction_hand (\<lambda>hand. sbind decode_block_pos (\<lambda>position.
          sbind (decode_option decode_block_face) (\<lambda>face. sbind (decode_option decode_item_stack) (\<lambda>held_item.
            sret (UseBlock p hand position face held_item)))))))]
     ''invalid gameplay command tag''"

fun gameplay_command_ok :: "gameplay_command \<Rightarrow> bool" where
  "gameplay_command_ok (CreativeInventorySet p slot stack) = (slot_ok slot \<and> stack_option_ok stack)"
| "gameplay_command_ok (DigBlock p position status face) = block_pos_ok position"
| "gameplay_command_ok (PlaceBlock p hand position face held_item) = (block_pos_ok position \<and> stack_option_ok held_item)"
| "gameplay_command_ok (UseBlock p hand position face held_item) = (block_pos_ok position \<and> stack_option_ok held_item)"
| "gameplay_command_ok _ = True"

lemma writes_option_any: "(\<And>x. writes d (e x) x) \<Longrightarrow> writes (decode_option d) (encode_option e v) v"
  by (rule writes_option)

lemmas writes_bind_options [writes_intros] =
  writes_option_any [OF writes_vec3, THEN writes_bind] writes_option_any [OF writes_u32, THEN writes_bind]
  writes_option_any [OF writes_face, THEN writes_bind] writes_option_any [OF writes_u8, THEN writes_bind]
  writes_option_any [OF writes_u64, THEN writes_bind] writes_option_any [OF writes_player_id, THEN writes_bind]

lemma accepts_options:
  "accepts (\<lambda>_. True) (decode_option decode_vec3)" "accepts (\<lambda>_. True) (decode_option read_u32)"
  "accepts (\<lambda>_. True) (decode_option decode_block_face)" "accepts (\<lambda>_. True) (decode_option read_u8)"
  "accepts (\<lambda>_. True) (decode_option read_u64)" "accepts (\<lambda>_. True) (decode_option decode_player_id)"
  by (simp_all add: accepts_True)

lemmas accepts_bind_options [accepts_intros] = accepts_options [THEN accepts_bind]

lemma writes_gameplay_command: "gameplay_command_ok v \<Longrightarrow> writes decode_gameplay_command (encode_gameplay_command v) v"
  unfolding decode_gameplay_command_def encode_gameplay_command_def
  by (cases v) (auto intro!: writes_intros)

lemma accepts_gameplay_command: "accepts gameplay_command_ok decode_gameplay_command"
  unfolding decode_gameplay_command_def by (auto intro!: accepts_intros)

lemmas writes_bind_gameplay_command [writes_intros] = writes_gameplay_command [THEN writes_bind]
lemmas accepts_bind_gameplay_command [accepts_intros] = accepts_gameplay_command [THEN accepts_bind]

section \<open>Runtime commands\<close>

datatype session_command =
    ClientStatus player_id i8
  | InventoryTransactionAck player_id inventory_transaction_context bool

datatype runtime_command = CoreRuntimeCommand core_command | SessionRuntimeCommand session_command

definition encode_runtime_command :: "runtime_command \<Rightarrow> enc" where
  "encode_runtime_command command =
     (case command of
        CoreRuntimeCommand (LoginStart connection_id username p) \<Rightarrow> wseq
          [write_u8 1, encode_connection_id connection_id, write_string username, encode_player_id p]
      | CoreRuntimeCommand (UpdateClientView p view_distance) \<Rightarrow> wseq [write_u8 2, encode_player_id p, write_u8 view_distance]
      | SessionRuntimeCommand (ClientStatus p action_id) \<Rightarrow> wseq [write_u8 3, encode_player_id p, write_i8 action_id]
      | CoreRuntimeCommand (Gameplay command) \<Rightarrow> wseq [write_u8 4, encode_gameplay_command command]
      | CoreRuntimeCommand (KeepAliveResponse p keep_alive_id) \<Rightarrow> wseq [write_u8 5, encode_player_id p, write_i32 keep_alive_id]
      | CoreRuntimeCommand (InventoryClickCommand p transaction target button validation) \<Rightarrow> wseq
          [write_u8 11, encode_player_id p, encode_inventory_transaction_context transaction,
           encode_inventory_click_target target, encode_inventory_click_button button,
           encode_inventory_click_validation validation]
      | SessionRuntimeCommand (InventoryTransactionAck p transaction accepted) \<Rightarrow> wseq
          [write_u8 12, encode_player_id p, encode_inventory_transaction_context transaction, write_bool accepted]
      | CoreRuntimeCommand (CloseContainerCommand p window_id) \<Rightarrow> wseq [write_u8 13, encode_player_id p, write_u8 window_id]
      | CoreRuntimeCommand (DisconnectCommand p) \<Rightarrow> wseq [write_u8 10, encode_player_id p])"

definition decode_runtime_command :: "runtime_command dec" where
  "decode_runtime_command = match_u8
     [(1, sbind decode_connection_id (\<lambda>connection_id. sbind read_string (\<lambda>username. sbind decode_player_id (\<lambda>p.
            sret (CoreRuntimeCommand (LoginStart connection_id username p)))))),
      (2, sbind decode_player_id (\<lambda>p. sbind read_u8 (\<lambda>view_distance.
            sret (CoreRuntimeCommand (UpdateClientView p view_distance))))),
      (3, sbind decode_player_id (\<lambda>p. sbind read_i8 (\<lambda>action_id. sret (SessionRuntimeCommand (ClientStatus p action_id))))),
      (4, sbind decode_gameplay_command (\<lambda>command. sret (CoreRuntimeCommand (Gameplay command)))),
      (5, sbind decode_player_id (\<lambda>p. sbind read_i32 (\<lambda>keep_alive_id.
            sret (CoreRuntimeCommand (KeepAliveResponse p keep_alive_id))))),
      (11, sbind decode_player_id (\<lambda>p. sbind decode_inventory_transaction_context (\<lambda>transaction.
           sbind decode_inventory_click_target (\<lambda>target. sbind decode_inventory_click_button (\<lambda>button.
           sbind decode_inventory_click_validation (\<lambda>validation.
             sret (CoreRuntimeCommand (InventoryClickCommand p transaction target button validation)))))))),
      (12, sbind decode_player_id (\<lambda>p. sbind decode_inventory_transaction_context (\<lambda>transaction. sbind read_bool (\<lambda>accepted.
             sret (SessionRuntimeCommand (InventoryTransactionAck p transaction accepted)))))),
      (13, sbind decode_player_id (\<lambda>p. sbind read_u8 (\<lambda>window_id. sret (CoreRuntimeCommand (CloseContainerCommand p window_id))))),
      (10, sbind decode_player_id (\<lambda>p. sret (CoreRuntimeCommand (DisconnectCommand p))))]
     ''invalid runtime command tag''"

fun runtime_command_ok :: "runtime_command \<Rightarrow> bool" where
  "runtime_command_ok (CoreRuntimeCommand (LoginStart connection_id username p)) = string_ok username"
| "runtime_command_ok (CoreRuntimeCommand (Gameplay command)) = gameplay_command_ok command"
| "runtime_command_ok (CoreRuntimeCommand (KeepAliveResponse p keep_alive_id)) = i32_ok keep_alive_id"
| "runtime_command_ok (CoreRuntimeCommand (InventoryClickCommand p transaction target button validation)) =
     (click_target_ok target \<and> click_validation_ok validation)"
| "runtime_command_ok _ = True"

lemma writes_runtime_command: "runtime_command_ok v \<Longrightarrow> writes decode_runtime_command (encode_runtime_command v) v"
  unfolding decode_runtime_command_def encode_runtime_command_def
  by (cases v rule: runtime_command_ok.cases) (auto intro!: writes_intros split: session_command.split)

lemma accepts_runtime_command: "accepts runtime_command_ok decode_runtime_command"
  unfolding decode_runtime_command_def by (auto intro!: accepts_intros)

section \<open>Events\<close>

definition encode_core_event :: "core_event \<Rightarrow> enc" where
  "encode_core_event event =
     (case event of
        LoginAccepted p e player \<Rightarrow> wseq [write_u8 1, encode_player_id p, encode_entity_id e, encode_player_snapshot player]
      | PlayBootstrap player e world_meta view_distance \<Rightarrow> wseq
          [write_u8 2, encode_player_snapshot player, encode_entity_id e, encode_world_meta world_meta, write_u8 view_distance]
      | ChunkBatch chunks \<Rightarrow> wseq [write_u8 3, encode_list encode_chunk_column chunks]
      | EntitySpawned e player \<Rightarrow> wseq [write_u8 4, encode_entity_id e, encode_player_snapshot player]
      | EntityMoved e player \<Rightarrow> wseq [write_u8 5, encode_entity_id e, encode_player_snapshot player]
      | DroppedItemSpawned e item \<Rightarrow> wseq [write_u8 18, encode_entity_id e, encode_dropped_item_snapshot item]
      | BlockBreakingProgress e position stage duration_ms \<Rightarrow> wseq
          [write_u8 19, encode_entity_id e, encode_block_pos position, encode_option write_u8 stage, write_u64 duration_ms]
      | EntityDespawned entity_ids \<Rightarrow> wseq [write_u8 6, encode_list encode_entity_id entity_ids]
      | InventoryContents window_id container contents \<Rightarrow> wseq
          [write_u8 7, write_u8 window_id, encode_inventory_container container, encode_inventory_window_contents contents]
      | ContainerOpened window_id container title \<Rightarrow> wseq
          [write_u8 15, write_u8 window_id, encode_inventory_container container, write_string title]
      | ContainerClosed window_id \<Rightarrow> wseq [write_u8 16, write_u8 window_id]
      | ContainerPropertyChanged window_id property value \<Rightarrow> wseq
          [write_u8 17, write_u8 window_id, write_string property, write_i16 value]
      | InventorySlotChanged window_id container slot stack \<Rightarrow> wseq
          [write_u8 8, write_u8 window_id, encode_inventory_container container, encode_inventory_slot slot,
           encode_option encode_item_stack stack]
      | InventoryTransactionProcessed transaction accepted \<Rightarrow> wseq
          [write_u8 14, encode_inventory_transaction_context transaction, write_bool accepted]
      | CursorChanged stack \<Rightarrow> wseq [write_u8 13, encode_option encode_item_stack stack]
      | SelectedHotbarSlotChanged slot \<Rightarrow> wseq [write_u8 9, write_u8 slot]
      | BlockChanged position block \<Rightarrow> wseq [write_u8 10, encode_block_pos position, encode_optional_block_state block]
      | KeepAliveRequested keep_alive_id \<Rightarrow> wseq [write_u8 11, write_i32 keep_alive_id]
      | Disconnect reason \<Rightarrow> wseq [write_u8 12, write_string reason])"

definition decode_core_event :: "core_event dec" where
  "decode_core_event = match_u8
     [(1, sbind decode_player_id (\<lambda>p. sbind decode_entity_id (\<lambda>e. sbind decode_player_snapshot (\<lambda>player.
            sret (LoginAccepted p e player))))),
      (2, sbind decode_player_snapshot (\<lambda>player. sbind decode_entity_id (\<lambda>e. sbind decode_world_meta (\<lambda>world_meta.
          sbind read_u8 (\<lambda>view_distance. sret (PlayBootstrap player e world_meta view_distance)))))),
      (3, sbind (decode_list decode_chunk_column) (\<lambda>chunks. sret (ChunkBatch chunks))),
      (4, sbind decode_entity_id (\<lambda>e. sbind decode_player_snapshot (\<lambda>player. sret (EntitySpawned e player)))),
      (5, sbind decode_entity_id (\<lambda>e. sbind decode_player_snapshot (\<lambda>player. sret (EntityMoved e player)))),
      (18, sbind decode_entity_id (\<lambda>e. sbind decode_dropped_item_snapshot (\<lambda>item. sret (DroppedItemSpawned e item)))),
      (19, sbind decode_entity_id (\<lambda>e. sbind decode_block_pos (\<lambda>position. sbind (decode_option read_u8) (\<lambda>stage.
           sbind read_u64 (\<lambda>duration_ms. sret (BlockBreakingProgress e position stage duration_ms)))))),
      (6, sbind (decode_list decode_entity_id) (\<lambda>entity_ids. sret (EntityDespawned entity_ids))),
      (7, sbind read_u8 (\<lambda>window_id. sbind decode_inventory_container (\<lambda>container.
          sbind decode_inventory_window_contents (\<lambda>contents. sret (InventoryContents window_id container contents))))),
      (15, sbind read_u8 (\<lambda>window_id. sbind decode_inventory_container (\<lambda>container. sbind read_string (\<lambda>title.
             sret (ContainerOpened window_id container title))))),
      (16, sbind read_u8 (\<lambda>window_id. sret (ContainerClosed window_id))),
      (17, sbind read_u8 (\<lambda>window_id. sbind read_string (\<lambda>property. sbind read_i16 (\<lambda>value.
             sret (ContainerPropertyChanged window_id property value))))),
      (8, sbind read_u8 (\<lambda>window_id. sbind decode_inventory_container (\<lambda>container. sbind decode_inventory_slot (\<lambda>slot.
          sbind (decode_option decode_item_stack) (\<lambda>stack. sret (InventorySlotChanged window_id container slot stack)))))),
      (14, sbind decode_inventory_transaction_context (\<lambda>transaction. sbind read_bool (\<lambda>accepted.
             sret (InventoryTransactionProcessed transaction accepted)))),
      (13, sbind (decode_option decode_item_stack) (\<lambda>stack. sret (CursorChanged stack))),
      (9, sbind read_u8 (\<lambda>slot. sret (SelectedHotbarSlotChanged slot))),
      (10, sbind decode_block_pos (\<lambda>position. sbind decode_optional_block_state (\<lambda>block. sret (BlockChanged position block)))),
      (11, sbind read_i32 (\<lambda>keep_alive_id. sret (KeepAliveRequested keep_alive_id))),
      (12, sbind read_string (\<lambda>reason. sret (Disconnect reason)))]
     ''invalid core event tag''"

fun core_event_ok :: "core_event \<Rightarrow> bool" where
  "core_event_ok (LoginAccepted p e player) = (i32_ok e \<and> player_snapshot_ok player)"
| "core_event_ok (PlayBootstrap player e world_meta view_distance) =
     (player_snapshot_ok player \<and> i32_ok e \<and> world_meta_ok world_meta)"
| "core_event_ok (ChunkBatch chunks) = list_ok column_wf chunks"
| "core_event_ok (EntitySpawned e player) = (i32_ok e \<and> player_snapshot_ok player)"
| "core_event_ok (EntityMoved e player) = (i32_ok e \<and> player_snapshot_ok player)"
| "core_event_ok (DroppedItemSpawned e item) = (i32_ok e \<and> dropped_item_ok item)"
| "core_event_ok (BlockBreakingProgress e position stage duration_ms) = (i32_ok e \<and> block_pos_ok position)"
| "core_event_ok (EntityDespawned entity_ids) = list_ok i32_ok entity_ids"
| "core_event_ok (InventoryContents window_id container contents) = (string_ok container \<and> window_contents_ok contents)"
| "core_event_ok (ContainerOpened window_id container title) = (string_ok container \<and> string_ok title)"
| "core_event_ok (ContainerPropertyChanged window_id property value) = (string_ok property \<and> i16_range value)"
| "core_event_ok (InventorySlotChanged window_id container slot stack) =
     (string_ok container \<and> slot_ok slot \<and> stack_option_ok stack)"
| "core_event_ok (CursorChanged stack) = stack_option_ok stack"
| "core_event_ok (BlockChanged position block) = (block_pos_ok position \<and> pred_option block_state_ok block)"
| "core_event_ok (KeepAliveRequested keep_alive_id) = i32_ok keep_alive_id"
| "core_event_ok (Disconnect reason) = string_ok reason"
| "core_event_ok _ = True"

lemmas writes_bind_event_lists [writes_intros] = writes_list [OF _ writes_column, THEN writes_bind]
  writes_list [OF _ writes_entity_id, THEN writes_bind]
lemmas accepts_bind_event_lists [accepts_intros] = accepts_list [OF accepts_column, THEN accepts_bind]
  accepts_list [OF accepts_entity_id, THEN accepts_bind]

lemma writes_core_event: "core_event_ok v \<Longrightarrow> writes decode_core_event (encode_core_event v) v"
  unfolding decode_core_event_def encode_core_event_def
  by (cases v) (auto intro!: writes_intros)

lemma accepts_core_event: "accepts core_event_ok decode_core_event"
  unfolding decode_core_event_def by (auto intro!: accepts_intros)

lemmas writes_bind_core_event [writes_intros] = writes_core_event [THEN writes_bind]
lemmas accepts_bind_core_event [accepts_intros] = accepts_core_event [THEN accepts_bind]

section \<open>Targets, reads and effects: \<open>gameplay_semantic.rs\<close>\<close>

definition encode_targeted_event :: "targeted_event \<Rightarrow> enc" where
  "encode_targeted_event event =
     wseq (case fst event of
         ToConnection connection_id \<Rightarrow> [write_u8 1, write_u64 connection_id, encode_core_event (snd event)]
       | ToPlayer p \<Rightarrow> [write_u8 2, encode_player_id p, encode_core_event (snd event)]
       | EveryoneExcept p \<Rightarrow> [write_u8 3, encode_player_id p, encode_core_event (snd event)])"

definition decode_targeted_event :: "targeted_event dec" where
  "decode_targeted_event = match_u8
     [(1, sbind read_u64 (\<lambda>connection_id. sbind decode_core_event (\<lambda>event. sret (ToConnection connection_id, event)))),
      (2, sbind decode_player_id (\<lambda>p. sbind decode_core_event (\<lambda>event. sret (ToPlayer p, event)))),
      (3, sbind decode_player_id (\<lambda>p. sbind decode_core_event (\<lambda>event. sret (EveryoneExcept p, event))))]
     ''invalid targeted event tag''"

definition encode_targeted_events :: "targeted_event list \<Rightarrow> enc" where
  "encode_targeted_events events = encode_list encode_targeted_event events"

definition decode_targeted_events :: "targeted_event list dec" where
  "decode_targeted_events = decode_list decode_targeted_event"

definition encode_gameplay_read_set :: "semantic_read_set \<Rightarrow> enc" where
  "encode_gameplay_read_set reads = wseq
     [encode_option encode_world_meta (sr_world_meta reads),
      encode_map encode_player_id (encode_option encode_player_snapshot) (sr_player_snapshots reads),
      encode_map encode_block_pos encode_optional_block_state (sr_block_states reads),
      encode_map encode_block_pos (encode_option encode_block_entity_state) (sr_block_entities reads),
      encode_map (encode_pair encode_player_id encode_block_pos) write_bool (sr_can_edit_block reads)]"

definition decode_gameplay_read_set :: "semantic_read_set dec" where
  "decode_gameplay_read_set =
     sbind (decode_option decode_world_meta) (\<lambda>world_meta.
     sbind (decode_map decode_player_id (decode_option decode_player_snapshot)) (\<lambda>player_snapshots.
     sbind (decode_map decode_block_pos decode_optional_block_state) (\<lambda>block_states.
     sbind (decode_map decode_block_pos (decode_option decode_block_entity_state)) (\<lambda>block_entities.
     sbind (decode_map (decode_pair decode_player_id decode_block_pos) read_bool) (\<lambda>can_edit_block.
       sret \<lparr>sr_world_meta = world_meta, sr_player_snapshots = player_snapshots, sr_block_states = block_states,
             sr_block_entities = block_entities, sr_can_edit_block = can_edit_block\<rparr>)))))"

definition encode_gameplay_effect :: "gameplay_effect \<Rightarrow> enc" where
  "encode_gameplay_effect effect =
     (case effect of
        EffectSetPlayerPose p position yaw pitch on_ground \<Rightarrow> wseq
          [write_u8 1, encode_player_id p, encode_option encode_vec3 position, encode_option write_u32 yaw,
           encode_option write_u32 pitch, write_bool on_ground]
      | EffectSetSelectedHotbarSlot p slot \<Rightarrow> wseq [write_u8 2, encode_player_id p, write_u8 slot]
      | EffectSetInventorySlot p slot stack \<Rightarrow> wseq
          [write_u8 3, encode_player_id p, encode_inventory_slot slot, encode_option encode_item_stack stack]
      | EffectClearMining p \<Rightarrow> wseq [write_u8 4, encode_player_id p]
      | EffectBeginMining p position duration_ms \<Rightarrow> wseq
          [write_u8 5, encode_player_id p, encode_block_pos position, write_u64 duration_ms]
      | EffectOpenContainerAt p position \<Rightarrow> wseq [write_u8 6, encode_player_id p, encode_block_pos position]
      | EffectOpenVirtualContainer p kind \<Rightarrow> wseq [write_u8 7, encode_player_id p, write_string kind]
      | EffectSetBlock position block \<Rightarrow> wseq [write_u8 8, encode_block_pos position, encode_optional_block_state block]
      | EffectSpawnDroppedItem position item \<Rightarrow> wseq [write_u8 9, encode_vec3 position, encode_item_stack item]
      | EffectEmitEvent event \<Rightarrow> wseq [write_u8 10, encode_targeted_event event])"

definition decode_gameplay_effect :: "gameplay_effect dec" where
  "decode_gameplay_effect = match_u8
     [(1, sbind decode_player_id (\<lambda>p. sbind (decode_option decode_vec3) (\<lambda>position.
          sbind (decode_option read_u32) (\<lambda>yaw. sbind (decode_option read_u32) (\<lambda>pitch. sbind read_bool (\<lambda>on_ground.
            sret (EffectSetPlayerPose p position yaw pitch on_ground))))))),
      (2, sbind decode_player_id (\<lambda>p. sbind read_u8 (\<lambda>slot. sret (EffectSetSelectedHotbarSlot p slot)))),
      (3, sbind decode_player_id (\<lambda>p. sbind decode_inventory_slot (\<lambda>slot. sbind (decode_option decode_item_stack) (\<lambda>stack.
            sret (EffectSetInventorySlot p slot stack))))),
      (4, sbind decode_player_id (\<lambda>p. sret (EffectClearMining p))),
      (5, sbind decode_player_id (\<lambda>p. sbind decode_block_pos (\<lambda>position. sbind read_u64 (\<lambda>duration_ms.
            sret (EffectBeginMining p position duration_ms))))),
      (6, sbind decode_player_id (\<lambda>p. sbind decode_block_pos (\<lambda>position. sret (EffectOpenContainerAt p position)))),
      (7, sbind decode_player_id (\<lambda>p. sbind read_string (\<lambda>kind. sret (EffectOpenVirtualContainer p kind)))),
      (8, sbind decode_block_pos (\<lambda>position. sbind decode_optional_block_state (\<lambda>block. sret (EffectSetBlock position block)))),
      (9, sbind decode_vec3 (\<lambda>position. sbind decode_item_stack (\<lambda>item. sret (EffectSpawnDroppedItem position item)))),
      (10, sbind decode_targeted_event (\<lambda>event. sret (EffectEmitEvent event)))]
     ''invalid gameplay effect tag''"

definition encode_gameplay_effect_batch :: "gameplay_effect_batch \<Rightarrow> enc" where
  "encode_gameplay_effect_batch batch = wseq
     [write_u64 (eb_now_ms batch), encode_gameplay_read_set (eb_reads batch),
      encode_list encode_gameplay_effect (eb_effects batch)]"

definition decode_gameplay_effect_batch :: "gameplay_effect_batch dec" where
  "decode_gameplay_effect_batch =
     sbind read_u64 (\<lambda>now_ms. sbind decode_gameplay_read_set (\<lambda>reads.
     sbind (decode_list decode_gameplay_effect) (\<lambda>effects.
       sret \<lparr>eb_now_ms = now_ms, eb_reads = reads, eb_effects = effects\<rparr>)))"

definition read_set_ok :: "semantic_read_set \<Rightarrow> bool" where
  "read_set_ok reads \<longleftrightarrow> pred_option world_meta_ok (sr_world_meta reads) \<and>
     map_ok (\<lambda>_ v. pred_option player_snapshot_ok v) (sr_player_snapshots reads) \<and>
     map_ok (\<lambda>k v. block_pos_ok k \<and> pred_option block_state_ok v) (sr_block_states reads) \<and>
     map_ok (\<lambda>k v. block_pos_ok k \<and> pred_option block_entity_ok v) (sr_block_entities reads) \<and>
     map_ok (\<lambda>k _. block_pos_ok (snd k)) (sr_can_edit_block reads)"

fun effect_ok :: "gameplay_effect \<Rightarrow> bool" where
  "effect_ok (EffectSetInventorySlot p slot stack) = (slot_ok slot \<and> stack_option_ok stack)"
| "effect_ok (EffectBeginMining p position duration_ms) = block_pos_ok position"
| "effect_ok (EffectOpenContainerAt p position) = block_pos_ok position"
| "effect_ok (EffectOpenVirtualContainer p kind) = string_ok kind"
| "effect_ok (EffectSetBlock position block) = (block_pos_ok position \<and> pred_option block_state_ok block)"
| "effect_ok (EffectSpawnDroppedItem position item) = item_stack_ok item"
| "effect_ok (EffectEmitEvent event) = core_event_ok (snd event)"
| "effect_ok _ = True"

definition effect_batch_ok :: "gameplay_effect_batch \<Rightarrow> bool" where
  "effect_batch_ok batch \<longleftrightarrow> read_set_ok (eb_reads batch) \<and> list_ok effect_ok (eb_effects batch)"

lemma writes_targeted_event: "core_event_ok (snd v) \<Longrightarrow> writes decode_targeted_event (encode_targeted_event v) v"
  unfolding decode_targeted_event_def encode_targeted_event_def
  by (cases v; cases "fst v") (auto intro!: writes_intros)

lemma accepts_targeted_event: "accepts (\<lambda>v. core_event_ok (snd v)) decode_targeted_event"
  unfolding decode_targeted_event_def by (auto intro!: accepts_intros)

lemmas writes_bind_targeted_event [writes_intros] = writes_targeted_event [THEN writes_bind]
lemmas accepts_bind_targeted_event [accepts_intros] = accepts_targeted_event [THEN accepts_bind]

lemma writes_targeted_events:
  "list_ok (\<lambda>v. core_event_ok (snd v)) v \<Longrightarrow> writes decode_targeted_events (encode_targeted_events v) v"
  unfolding decode_targeted_events_def encode_targeted_events_def by (erule writes_list) (rule writes_targeted_event)

lemma writes_effect: "effect_ok v \<Longrightarrow> writes decode_gameplay_effect (encode_gameplay_effect v) v"
  unfolding decode_gameplay_effect_def encode_gameplay_effect_def
  by (cases v) (auto intro!: writes_intros)

lemma accepts_effect: "accepts effect_ok decode_gameplay_effect"
  unfolding decode_gameplay_effect_def by (auto intro!: accepts_intros)

lemma writes_opt: "pred_option P v \<Longrightarrow> (\<And>x. P x \<Longrightarrow> writes d (e x) x) \<Longrightarrow> writes (decode_option d) (encode_option e v) v"
  by (rule writes_option) auto

lemma writes_read_set: "read_set_ok v \<Longrightarrow> writes decode_gameplay_read_set (encode_gameplay_read_set v) v"
  unfolding decode_gameplay_read_set_def encode_gameplay_read_set_def read_set_ok_def
  by (auto intro!: writes_sret writes_opt [OF _ writes_world_meta, THEN writes_bind] writes_map [THEN writes_bind]
      writes_player_id writes_block_pos writes_optional_block writes_bool writes_pair
      writes_opt [OF _ writes_player] writes_opt [OF _ writes_block_entity])

lemma accepts_read_set: "accepts read_set_ok decode_gameplay_read_set"
proof -
  have players: "accepts (map_ok (\<lambda>_ v. pred_option player_snapshot_ok v))
      (decode_map decode_player_id (decode_option decode_player_snapshot))"
    using accepts_map [OF accepts_True [of decode_player_id] accepts_option [OF accepts_player]] by simp
  have edits: "accepts (map_ok (\<lambda>k _. block_pos_ok (snd k)))
      (decode_map (decode_pair decode_player_id decode_block_pos) read_bool)"
    using accepts_map [OF accepts_pair [OF accepts_True [of decode_player_id] accepts_block_pos] accepts_True [of read_bool]]
    by (simp add: split_beta)
  show ?thesis unfolding decode_gameplay_read_set_def
    by (auto intro!: accepts_sret accepts_option [OF accepts_world_meta, THEN accepts_bind] players [THEN accepts_bind]
        edits [THEN accepts_bind] accepts_map [OF accepts_block_pos accepts_optional_block, THEN accepts_bind]
        accepts_map [OF accepts_block_pos accepts_option [OF accepts_block_entity], THEN accepts_bind] simp: read_set_ok_def)
qed

lemmas writes_bind_read_set [writes_intros] = writes_read_set [THEN writes_bind] writes_effect [THEN writes_bind]
  writes_list [OF _ writes_effect, THEN writes_bind]
lemmas accepts_bind_read_set [accepts_intros] = accepts_read_set [THEN accepts_bind] accepts_effect [THEN accepts_bind]
  accepts_list [OF accepts_effect, THEN accepts_bind]

lemma writes_effect_batch: "effect_batch_ok v \<Longrightarrow> writes decode_gameplay_effect_batch (encode_gameplay_effect_batch v) v"
  unfolding decode_gameplay_effect_batch_def encode_gameplay_effect_batch_def effect_batch_ok_def
  by (auto intro!: writes_intros)

lemma accepts_effect_batch: "accepts effect_batch_ok decode_gameplay_effect_batch"
  unfolding decode_gameplay_effect_batch_def by (auto intro!: accepts_intros simp: effect_batch_ok_def)

end
