(* ===== verification/Contract_Capabilities.thy ===== *)
theory Contract_Capabilities
  imports Contract_Binary
begin

text \<open>
  Capabilities, crate \<open>revy-core\<close>, \<open>capabilities.rs\<close>, and their codec in \<open>mc-plugin-contract\<close>,
  \<open>codec/__internal/shared.rs\<close>. The trait \<open>ClosedCapability\<close> is a record of its operations, with the variants in
  the order of their declaration, which is the order a \<open>BTreeSet\<close> of them is iterated in; the macro
  \<open>closed_capability_enum!\<close> is a table of the variants and their names. The locale \<open>capability_enum\<close> states what
  the macro guarantees of every table; each of the five enumerations is an instance.
\<close>

section \<open>Closed capability enumerations: \<open>capabilities.rs\<close>\<close>

record capability_parse_error =
  pe_capability_kind :: string
  pe_value :: string

record 'c closed_capability =
  cap_variants :: "'c list"
  cap_as_str :: "'c \<Rightarrow> string"
  cap_parse :: "string \<Rightarrow> capability_parse_error + 'c"

definition closed_capability_enum :: "string \<Rightarrow> ('c \<times> string) list \<Rightarrow> 'c closed_capability" where
  "closed_capability_enum kind table =
     \<lparr>cap_variants = map fst table,
      cap_as_str = (\<lambda>c. the (map_of table c)),
      cap_parse = (\<lambda>value. case map_of (map prod.swap table) value of
         Some c \<Rightarrow> Inr c | None \<Rightarrow> Inl \<lparr>pe_capability_kind = kind, pe_value = value\<rparr>)\<rparr>"

datatype protocol_capability =
  ProtocolRuntimeReload | Je | Je5 | Je47 | Je340 | Je404 | Je775 | Bedrock | Bedrock924

definition ProtocolCapability :: "protocol_capability closed_capability" where
  "ProtocolCapability = closed_capability_enum ''protocol''
     [(ProtocolRuntimeReload, ''runtime.reload.protocol''), (Je, ''protocol.je''), (Je5, ''protocol.je.5''),
      (Je47, ''protocol.je.47''), (Je340, ''protocol.je.340''), (Je404, ''protocol.je.404''),
      (Je775, ''protocol.je.775''), (Bedrock, ''protocol.bedrock''), (Bedrock924, ''protocol.bedrock.924'')]"

datatype gameplay_capability = GameplayRuntimeReload | SessionTick

definition GameplayCapability :: "gameplay_capability closed_capability" where
  "GameplayCapability = closed_capability_enum ''gameplay''
     [(GameplayRuntimeReload, ''runtime.reload.gameplay''), (SessionTick, ''gameplay.session-tick'')]"

datatype storage_capability = StorageRuntimeReload

definition StorageCapability :: "storage_capability closed_capability" where
  "StorageCapability = closed_capability_enum ''storage'' [(StorageRuntimeReload, ''runtime.reload.storage'')]"

datatype auth_capability = AuthRuntimeReload

definition AuthCapability :: "auth_capability closed_capability" where
  "AuthCapability = closed_capability_enum ''auth'' [(AuthRuntimeReload, ''runtime.reload.auth'')]"

datatype admin_surface_capability = AdminSurfaceRuntimeReload

definition AdminSurfaceCapability :: "admin_surface_capability closed_capability" where
  "AdminSurfaceCapability = closed_capability_enum ''admin-surface''
     [(AdminSurfaceRuntimeReload, ''runtime.reload.admin-surface'')]"

text \<open>A set of capabilities, and what a plugin announces.\<close>

type_synonym 'c closed_capability_set = "'c set"

definition capability_list :: "'c closed_capability \<Rightarrow> 'c closed_capability_set \<Rightarrow> 'c list" where
  "capability_list C caps = filter (\<lambda>c. c \<in> caps) (cap_variants C)"

record 'c capability_announcement =
  ca_capabilities :: "'c closed_capability_set"
  ca_build_tag :: "string option"

definition announcement_new :: "'c closed_capability_set \<Rightarrow> 'c capability_announcement" where
  "announcement_new caps = \<lparr>ca_capabilities = caps, ca_build_tag = None\<rparr>"

section \<open>Announcements on the wire: \<open>shared.rs\<close>\<close>

definition encode_capability_announcement :: "'c closed_capability \<Rightarrow> 'c capability_announcement \<Rightarrow> enc" where
  "encode_capability_announcement C a =
     (let caps = capability_list C (ca_capabilities a) in wseq
        ([write_len (length caps + (case ca_build_tag a of None \<Rightarrow> 0 | Some _ \<Rightarrow> 1))] @
         map (\<lambda>c. write_string (cap_as_str C c)) caps @
         (case ca_build_tag a of None \<Rightarrow> [] | Some build_tag \<Rightarrow> [write_string (''build-tag:'' @ build_tag)])))"

fun strip_prefix :: "string \<Rightarrow> string \<Rightarrow> string option" where
  "strip_prefix [] s = Some s"
| "strip_prefix (p # ps) [] = None"
| "strip_prefix (p # ps) (c # cs) = (if p = c then strip_prefix ps cs else None)"

primrec decode_tokens ::
  "'c closed_capability \<Rightarrow> nat \<Rightarrow> 'c closed_capability_set \<Rightarrow> string option \<Rightarrow> 'c capability_announcement dec" where
  "decode_tokens C 0 = (\<lambda>caps build_tag. sret \<lparr>ca_capabilities = caps, ca_build_tag = build_tag\<rparr>)"
| "decode_tokens C (Suc n) = (\<lambda>caps build_tag. sbind read_string (\<lambda>token.
     case strip_prefix ''build-tag:'' token of
       Some raw \<Rightarrow>
         if raw = [] then sfail (InvalidValue ''build tag capability must not be empty'')
         else if build_tag \<noteq> None then sfail (InvalidValue ''duplicate build tag capability'')
         else decode_tokens C n caps (Some raw)
     | None \<Rightarrow>
         (case cap_parse C token of
            Inl _ \<Rightarrow> sfail (InvalidValue ''invalid plugin capability'')
          | Inr c \<Rightarrow>
              if c \<in> caps then sfail (InvalidValue ''duplicate plugin capability'')
              else decode_tokens C n (insert c caps) build_tag)))"

definition decode_capability_announcement :: "'c closed_capability \<Rightarrow> 'c capability_announcement dec" where
  "decode_capability_announcement C = sbind read_len (\<lambda>len. decode_tokens C len {} None)"

section \<open>What a capability enumeration guarantees\<close>

definition announcement_ok :: "'c capability_announcement \<Rightarrow> bool" where
  "announcement_ok a \<longleftrightarrow> pred_option (\<lambda>tag. tag \<noteq> [] \<and> string_ok (''build-tag:'' @ tag)) (ca_build_tag a)"

lemma strip_prefix_append [simp]: "strip_prefix p (p @ s) = Some s"
  by (induction p) auto

lemma strip_prefix_Some: "strip_prefix p s = Some r \<Longrightarrow> s = p @ r"
  by (induction p s rule: strip_prefix.induct) (auto split: if_splits)

locale capability_enum =
  fixes C :: "'c closed_capability"
  assumes variants: "set (cap_variants C) = UNIV" "distinct (cap_variants C)"
    and few: "len_ok (Suc (length (cap_variants C)))"
    and parse_as_str: "cap_parse C (cap_as_str C c) = Inr c"
    and name_ok: "string_ok (cap_as_str C c)"
    and not_a_tag: "strip_prefix ''build-tag:'' (cap_as_str C c) = None"
begin

lemma set_capability_list [simp]: "set (capability_list C caps) = caps"
  by (simp add: capability_list_def variants)

lemma distinct_capability_list: "distinct (capability_list C caps)"
  by (simp add: capability_list_def variants)

lemma length_capability_list: "len_ok (length (capability_list C caps) + (case t of None \<Rightarrow> 0 | Some _ \<Rightarrow> 1))"
  using few
  by (auto simp: capability_list_def len_ok_def intro: le_less_trans [OF length_filter_le] split: option.split)

lemma writes_tokens:
  assumes "distinct cs" and "set cs \<inter> caps = {}"
    and "writes (decode_tokens C n (caps \<union> set cs) None) (wseq ws) v"
  shows "writes (decode_tokens C (length cs + n) caps None)
    (wseq (map (\<lambda>c. write_string (cap_as_str C c)) cs @ ws)) v"
  using assms
proof (induction cs arbitrary: caps)
  case Nil
  then show ?case by simp
next
  case (Cons c cs)
  have "writes (decode_tokens C (length cs + n) (insert c caps) None)
      (wseq (map (\<lambda>c. write_string (cap_as_str C c)) cs @ ws)) v"
    using Cons.prems by (intro Cons.IH) auto
  then show ?case
    using Cons.prems by (auto intro!: writes_bind [OF writes_string [OF name_ok]] simp: not_a_tag parse_as_str)
qed

lemma writes_announcement:
  assumes "announcement_ok a"
  shows "writes (decode_capability_announcement C) (encode_capability_announcement C a) a"
proof -
  let ?caps = "capability_list C (ca_capabilities a)"
  have "writes (decode_tokens C (length ?caps + (case ca_build_tag a of None \<Rightarrow> 0 | Some _ \<Rightarrow> 1)) {} None)
    (wseq (map (\<lambda>c. write_string (cap_as_str C c)) ?caps @
      (case ca_build_tag a of None \<Rightarrow> [] | Some t \<Rightarrow> [write_string (''build-tag:'' @ t)]))) a"
  proof (rule writes_tokens)
    show "writes (decode_tokens C (case ca_build_tag a of None \<Rightarrow> 0 | Some _ \<Rightarrow> 1) ({} \<union> set ?caps) None)
        (wseq (case ca_build_tag a of None \<Rightarrow> [] | Some t \<Rightarrow> [write_string (''build-tag:'' @ t)])) a"
      using assms unfolding announcement_ok_def
      by (cases a; cases "ca_build_tag a")
        (auto intro!: writes_sret writes_bind [OF writes_string] split: option.split)
  qed (simp_all add: distinct_capability_list)
  then show ?thesis
    unfolding decode_capability_announcement_def encode_capability_announcement_def Let_def append_Cons append_Nil
    by (intro writes_bind [OF writes_len [OF length_capability_list]])
qed

lemma accepts_tokens:
  "pred_option (\<lambda>tag. tag \<noteq> [] \<and> string_ok (''build-tag:'' @ tag)) t \<Longrightarrow> accepts announcement_ok (decode_tokens C n caps t)"
proof (induction n arbitrary: caps t)
  case 0
  then show ?case by (auto intro!: accepts_sret simp: announcement_ok_def)
next
  case (Suc n)
  show ?case unfolding decode_tokens.simps
  proof (rule accepts_bind [OF accepts_string])
    fix token assume ok: "string_ok token"
    show "accepts announcement_ok (case strip_prefix ''build-tag:'' token of
       Some raw \<Rightarrow>
         if raw = [] then sfail (InvalidValue ''build tag capability must not be empty'')
         else if t \<noteq> None then sfail (InvalidValue ''duplicate build tag capability'')
         else decode_tokens C n caps (Some raw)
     | None \<Rightarrow>
         (case cap_parse C token of
            Inl _ \<Rightarrow> sfail (InvalidValue ''invalid plugin capability'')
          | Inr c \<Rightarrow>
              if c \<in> caps then sfail (InvalidValue ''duplicate plugin capability'')
              else decode_tokens C n (insert c caps) t))"
    proof (cases "strip_prefix ''build-tag:'' token")
      case None
      then show ?thesis using Suc by (auto intro!: accepts_sfail split: sum.split)
    next
      case (Some raw)
      then have "token = ''build-tag:'' @ raw" by (rule strip_prefix_Some)
      then show ?thesis using Suc.IH [of "Some raw"] ok Some by (auto intro!: accepts_sfail)
    qed
  qed
qed

lemma accepts_announcement: "accepts announcement_ok (decode_capability_announcement C)"
  unfolding decode_capability_announcement_def by (rule accepts_bind [OF accepts_len]) (simp add: accepts_tokens)

end

text \<open>A table with distinct variants and distinct names is an enumeration of capabilities.\<close>

lemma capability_enumI:
  assumes "set (map fst table) = UNIV" and "distinct (map fst table)" and "distinct (map snd table)"
    and "len_ok (Suc (length table))"
    and names: "list_all (\<lambda>name. string_ok name \<and> strip_prefix ''build-tag:'' name = None) (map snd table)"
  shows "capability_enum (closed_capability_enum kind table)"
proof
  have entry: "\<exists>name. (c, name) \<in> set table \<and> map_of table c = Some name" for c
  proof -
    have "c \<in> fst ` set table" using assms(1) by auto
    then obtain name where "(c, name) \<in> set table" by auto
    then show ?thesis using assms(2) by (auto intro: map_of_is_SomeI)
  qed
  fix c
  obtain name where name: "(c, name) \<in> set table" "map_of table c = Some name" using entry by blast
  have "map_of (map prod.swap table) name = Some c"
    using name(1) assms(3) by (intro map_of_is_SomeI) (force simp: comp_def)+
  then show "cap_parse (closed_capability_enum kind table) (cap_as_str (closed_capability_enum kind table) c) = Inr c"
    using name(2) by (simp add: closed_capability_enum_def)
  show "string_ok (cap_as_str (closed_capability_enum kind table) c)"
    and "strip_prefix ''build-tag:'' (cap_as_str (closed_capability_enum kind table) c) = None"
    using names name by (force simp: closed_capability_enum_def list_all_iff)+
qed (use assms in \<open>simp_all add: closed_capability_enum_def\<close>)

lemmas capability_table = string_ok_def as_bytes_def len_ok_def

interpretation pc: capability_enum ProtocolCapability
  unfolding ProtocolCapability_def
  by (rule capability_enumI) (auto simp: capability_table intro: protocol_capability.exhaust)

interpretation gc: capability_enum GameplayCapability
  unfolding GameplayCapability_def
  by (rule capability_enumI) (auto simp: capability_table intro: gameplay_capability.exhaust)

interpretation sc: capability_enum StorageCapability
  unfolding StorageCapability_def
  by (rule capability_enumI) (auto simp: capability_table intro: storage_capability.exhaust)

interpretation ac: capability_enum AuthCapability
  unfolding AuthCapability_def
  by (rule capability_enumI) (auto simp: capability_table intro: auth_capability.exhaust)

interpretation asc: capability_enum AdminSurfaceCapability
  unfolding AdminSurfaceCapability_def
  by (rule capability_enumI) (auto simp: capability_table intro: admin_surface_capability.exhaust)

end
