(* ===== verification/Contract_Messages.thy ===== *)
theory Contract_Messages
  imports Contract_Commands Contract_Capabilities
begin

unbundle bit_operations_syntax

text \<open>
  The messages between host and plugins, crate \<open>mc-plugin-contract\<close>: \<open>codec/gameplay.rs\<close>, \<open>codec/storage.rs\<close>,
  \<open>codec/auth.rs\<close>, \<open>codec/protocol.rs\<close> with their payloads in \<open>codec/__internal/*_semantic.rs\<close>. A request or
  response is a payload in an envelope that carries the plugin kind, the operation code and the direction.

  The four channels seal and open their envelopes in the same steps: \<open>seal_message\<close>, \<open>open_request\<close> and
  \<open>open_response\<close> are those steps, with the channel's kind, messages and codecs as arguments. What a channel
  relies on is the locale \<open>plugin_channel\<close>, interpreted for each channel.
\<close>

section \<open>Sealing and opening\<close>

definition seal_message :: "plugin_kind \<Rightarrow> u8 \<Rightarrow> u16 \<Rightarrow> enc \<Rightarrow> enc" where
  "seal_message kind op_code flags payload = bind_res payload (\<lambda>payload.
     if length payload < 2 ^ 32
     then encode_envelope
       \<lparr>eh_abi = CURRENT_PLUGIN_ABI, eh_plugin_kind = kind, eh_op_code = op_code, eh_flags = flags,
        eh_payload_len = word_of_nat (length payload)\<rparr> payload
     else Inl LengthOverflow)"

definition decode_all :: "'a dec \<Rightarrow> bytes \<Rightarrow> protocol_codec_error + 'a" where
  "decode_all decode bs = fst (sbind decode (\<lambda>v. sbind finish (\<lambda>_. sret v)) (cursor_new bs))"

definition open_request ::
  "plugin_kind \<Rightarrow> string \<Rightarrow> (u8 \<Rightarrow> protocol_codec_error + 'op) \<Rightarrow> ('op \<Rightarrow> 'req dec) \<Rightarrow> bytes \<Rightarrow> protocol_codec_error + 'req" where
  "open_request kind name op_code_try_from decode_payload bs =
     bind_res (decode_envelope bs) (\<lambda>(header, payload).
       if eh_plugin_kind header \<noteq> kind
       then Inl (InvalidEnvelope (name @ '' request had wrong plugin kind''))
       else if eh_flags header AND PROTOCOL_FLAG_RESPONSE \<noteq> 0
       then Inl (InvalidEnvelope (name @ '' request unexpectedly set response flag''))
       else bind_res (op_code_try_from (eh_op_code header)) (\<lambda>op_code.
         decode_all (decode_payload op_code) payload))"

definition open_response ::
  "plugin_kind \<Rightarrow> string \<Rightarrow> (u8 \<Rightarrow> protocol_codec_error + 'op) \<Rightarrow> ('op \<Rightarrow> 'resp dec) \<Rightarrow> 'op \<Rightarrow> bytes \<Rightarrow> protocol_codec_error + 'resp" where
  "open_response kind name op_code_try_from decode_payload op_code bs =
     bind_res (decode_envelope bs) (\<lambda>(header, payload).
       if eh_plugin_kind header \<noteq> kind
       then Inl (InvalidEnvelope (name @ '' response had wrong plugin kind''))
       else if eh_flags header AND PROTOCOL_FLAG_RESPONSE = 0
       then Inl (InvalidEnvelope (name @ '' response was missing response flag''))
       else bind_res (op_code_try_from (eh_op_code header)) (\<lambda>op.
         if op \<noteq> op_code then Inl (InvalidEnvelope (name @ '' response opcode did not match request''))
         else decode_all (decode_payload op_code) payload))"

text \<open>
  What a channel promises: operation codes are recognised, payloads of well-formed messages are written and
  read back, and what is read is well formed.
\<close>

lemma parses_decode_all: "parses p bs v \<Longrightarrow> length bs \<le> isize_max \<Longrightarrow> decode_all p bs = Inr v"
proof -
  assume "parses p bs v" "length bs \<le> isize_max"
  then have "p (cursor_new bs) = (Inr v, cursor_adv (length bs) (cursor_new bs))"
    by (intro parsesD [of p bs v _ "[]"]) auto
  moreover have "cur_pos (cursor_new bs) = 0" "cur_bytes (cursor_new bs) = bs" by (simp_all add: cursor_new_def)
  ultimately show ?thesis by (simp add: decode_all_def sbind_def finish_def sret_def)
qed

lemma decode_all_accepts: "accepts P p \<Longrightarrow> decode_all p bs = Inr v \<Longrightarrow> P v"
  by (auto simp: decode_all_def accepts_def sbind_def finish_def sret_def split: prod.split_asm sum.split_asm if_splits)

text \<open>
  \<open>delivered payload message decode v\<close>: the payload was written, and unless it exceeds the 32-bit length field the
  message is its envelope, twelve bytes longer, from which \<open>decode\<close> returns \<open>v\<close>.
\<close>

definition delivered :: "enc \<Rightarrow> enc \<Rightarrow> (bytes \<Rightarrow> protocol_codec_error + 'a) \<Rightarrow> 'a \<Rightarrow> bool" where
  "delivered payload message decode v \<longleftrightarrow>
     (case payload of
        Inl _ \<Rightarrow> False
      | Inr bs \<Rightarrow>
          if length bs < 2 ^ 32
          then (case message of
                  Inl _ \<Rightarrow> False
                | Inr ms \<Rightarrow> length ms = PLUGIN_ENVELOPE_HEADER_LEN + length bs \<and> decode ms = Inr v)
          else message = Inl LengthOverflow)"

lemma seal_then_open:
  assumes "writes p payload v"
    and open_sealed: "\<And>ms h bs. payload = Inr bs \<Longrightarrow> decode_envelope ms = Inr (h, bs) \<Longrightarrow> eh_plugin_kind h = kind \<Longrightarrow> eh_op_code h = op \<Longrightarrow>
      eh_flags h = flags \<Longrightarrow> decode_all p bs = Inr v \<Longrightarrow> decode ms = Inr v"
  shows "delivered payload (seal_message kind op flags payload) decode v"
proof -
  obtain bs where bs: "payload = Inr bs" "parses p bs v" using assms by (auto simp: writes_def)
  show ?thesis
  proof (cases "length bs < 2 ^ 32")
    case True
    let ?h = "\<lparr>eh_abi = CURRENT_PLUGIN_ABI, eh_plugin_kind = kind, eh_op_code = op, eh_flags = flags,
        eh_payload_len = word_of_nat (length bs)\<rparr>"
    have "unat (eh_payload_len ?h) = length bs" using True by (simp add: unat_of_nat take_bit_nat_eq_self)
    then obtain ms where ms: "encode_envelope ?h bs = Inr ms" "decode_envelope ms = Inr (?h, bs)"
      "length ms = PLUGIN_ENVELOPE_HEADER_LEN + length bs"
      using decode_encode_envelope [of ?h bs] by auto
    have "decode_all p bs = Inr v"
      using True by (intro parses_decode_all [OF bs(2)]) (simp add: isize_max_def)
    then have "decode ms = Inr v" using open_sealed [OF bs(1) ms(2)] by simp
    then show ?thesis using True bs(1) ms by (simp add: seal_message_def delivered_def)
  next
    case False
    then show ?thesis using bs(1) by (simp add: seal_message_def delivered_def)
  qed
qed

locale plugin_channel =
  fixes kind :: plugin_kind
    and name :: string
    and code :: "'op \<Rightarrow> u8"
    and try_from :: "u8 \<Rightarrow> protocol_codec_error + 'op"
    and op_of :: "'req \<Rightarrow> 'op"
    and encode_req :: "'req \<Rightarrow> enc"
    and decode_req :: "'op \<Rightarrow> 'req dec"
    and encode_resp :: "'op \<Rightarrow> 'resp \<Rightarrow> enc"
    and decode_resp :: "'op \<Rightarrow> 'resp dec"
    and req_ok :: "'req \<Rightarrow> bool"
    and resp_ok :: "'op \<Rightarrow> 'resp \<Rightarrow> bool"
  assumes try_from_code: "try_from (code op) = Inr op"
    and writes_req: "req_ok req \<Longrightarrow> writes (decode_req (op_of req)) (encode_req req) req"
    and accepts_req: "accepts (\<lambda>req. req_ok req \<and> op_of req = op) (decode_req op)"
    and writes_resp: "resp_ok op resp \<Longrightarrow> writes (decode_resp op) (encode_resp op resp) resp"
    and accepts_resp: "accepts (resp_ok op) (decode_resp op)"
begin

lemma request_roundtrip:
  assumes "req_ok req"
  shows "delivered (encode_req req) (seal_message kind (code (op_of req)) 0 (encode_req req))
    (open_request kind name try_from decode_req) req"
  by (rule seal_then_open [OF writes_req [OF assms]]) (auto simp: open_request_def try_from_code)

lemma request_wellformed: "open_request kind name try_from decode_req bs = Inr req \<Longrightarrow> req_ok req"
  using decode_all_accepts [OF accepts_req]
  by (auto simp: open_request_def bind_res_eq_Inr split: if_splits)

lemma response_roundtrip:
  assumes "resp_ok op resp"
  shows "delivered (encode_resp op resp) (seal_message kind (code op) PROTOCOL_FLAG_RESPONSE (encode_resp op resp))
    (open_response kind name try_from decode_resp op) resp"
  by (rule seal_then_open [OF writes_resp [OF assms]])
    (auto simp: open_response_def try_from_code PROTOCOL_FLAG_RESPONSE_def)

lemma response_wellformed: "open_response kind name try_from decode_resp op bs = Inr resp \<Longrightarrow> resp_ok op resp"
  using decode_all_accepts [OF accepts_resp]
  by (auto simp: open_response_def bind_res_eq_Inr split: if_splits)

text \<open>A request that was read is delivered again as it was read.\<close>

lemma request_reencodes:
  assumes "open_request kind name try_from decode_req bs = Inr req"
  shows "delivered (encode_req req) (seal_message kind (code (op_of req)) 0 (encode_req req))
    (open_request kind name try_from decode_req) req"
  by (rule request_roundtrip [OF request_wellformed [OF assms]])

end

end
