(* ===== verification/Contract_Gameplay.thy ===== *)
theory Contract_Gameplay
  imports Contract_Messages
begin

text \<open>
  The gameplay and storage channels, crate \<open>mc-plugin-contract\<close>: \<open>codec/gameplay.rs\<close> with its module \<open>host_blob\<close>
  and \<open>codec/__internal/gameplay_semantic.rs\<close>, \<open>codec/storage.rs\<close> and \<open>codec/__internal/storage_semantic.rs\<close>.
  Constructors that several channels share carry the channel's name. The blobs of the host callbacks are single
  values without an envelope, read to the end of their bytes.
\<close>

section \<open>Gameplay requests and responses\<close>

datatype gameplay_op_code =
    GameplayOpDescribe
  | GameplayOpCapabilitySet
  | OpHandlePlayerJoin
  | OpHandleCommand
  | OpHandleTick
  | GameplayOpSessionClosed
  | GameplayOpExportSessionState
  | GameplayOpImportSessionState

fun gameplay_op_u8 :: "gameplay_op_code \<Rightarrow> u8" where
  "gameplay_op_u8 GameplayOpDescribe = 1"
| "gameplay_op_u8 GameplayOpCapabilitySet = 2"
| "gameplay_op_u8 OpHandlePlayerJoin = 3"
| "gameplay_op_u8 OpHandleCommand = 4"
| "gameplay_op_u8 OpHandleTick = 5"
| "gameplay_op_u8 GameplayOpSessionClosed = 6"
| "gameplay_op_u8 GameplayOpExportSessionState = 7"
| "gameplay_op_u8 GameplayOpImportSessionState = 8"

definition gameplay_op_try_from :: "u8 \<Rightarrow> protocol_codec_error + gameplay_op_code" where
  "gameplay_op_try_from value =
     (case map_of
        [(1, GameplayOpDescribe), (2, GameplayOpCapabilitySet), (3, OpHandlePlayerJoin), (4, OpHandleCommand),
         (5, OpHandleTick), (6, GameplayOpSessionClosed), (7, GameplayOpExportSessionState),
         (8, GameplayOpImportSessionState)] value of
        Some op \<Rightarrow> Inr op
      | None \<Rightarrow> Inl (InvalidValue ''invalid gameplay op code''))"

record gameplay_session_snapshot =
  gs_phase :: connection_phase
  gs_player_id :: "player_id option"
  gs_entity_id :: "entity_id option"
  gs_protocol :: "protocol_capability closed_capability_set"
  gs_gameplay_profile :: string
  gs_protocol_generation :: "u64 option"
  gs_gameplay_generation :: "u64 option"

datatype gameplay_request =
    GameplayDescribe
  | GameplayCapabilitySet
  | HandlePlayerJoin gameplay_session_snapshot player_id u64
  | HandleCommand gameplay_session_snapshot gameplay_command u64
  | HandleTick gameplay_session_snapshot u64
  | GameplaySessionClosed gameplay_session_snapshot
  | GameplayExportSessionState gameplay_session_snapshot
  | GameplayImportSessionState gameplay_session_snapshot bytes

fun gameplay_request_op :: "gameplay_request \<Rightarrow> gameplay_op_code" where
  "gameplay_request_op GameplayDescribe = GameplayOpDescribe"
| "gameplay_request_op GameplayCapabilitySet = GameplayOpCapabilitySet"
| "gameplay_request_op (HandlePlayerJoin _ _ _) = OpHandlePlayerJoin"
| "gameplay_request_op (HandleCommand _ _ _) = OpHandleCommand"
| "gameplay_request_op (HandleTick _ _) = OpHandleTick"
| "gameplay_request_op (GameplaySessionClosed _) = GameplayOpSessionClosed"
| "gameplay_request_op (GameplayExportSessionState _) = GameplayOpExportSessionState"
| "gameplay_request_op (GameplayImportSessionState _ _) = GameplayOpImportSessionState"

record gameplay_descriptor =
  gd_profile :: string

datatype gameplay_response =
    GameplayDescriptorResponse gameplay_descriptor
  | GameplayCapabilities "gameplay_capability capability_announcement"
  | EffectBatch gameplay_effect_batch
  | GameplaySessionTransferBlob bytes
  | GameplayEmpty

subsection \<open>Payloads\<close>

definition encode_gameplay_session_snapshot :: "gameplay_session_snapshot \<Rightarrow> enc" where
  "encode_gameplay_session_snapshot snapshot = wseq
     [encode_connection_phase (gs_phase snapshot), encode_option encode_player_id (gs_player_id snapshot),
      encode_option encode_entity_id (gs_entity_id snapshot),
      encode_capability_announcement ProtocolCapability (announcement_new (gs_protocol snapshot)),
      write_string (gs_gameplay_profile snapshot), encode_option write_u64 (gs_protocol_generation snapshot),
      encode_option write_u64 (gs_gameplay_generation snapshot)]"

definition decode_gameplay_session_snapshot :: "gameplay_session_snapshot dec" where
  "decode_gameplay_session_snapshot =
     sbind decode_connection_phase (\<lambda>phase. sbind (decode_option decode_player_id) (\<lambda>p.
     sbind (decode_option decode_entity_id) (\<lambda>e.
     sbind (decode_capability_announcement ProtocolCapability) (\<lambda>announcement.
     sbind read_string (\<lambda>gameplay_profile. sbind (decode_option read_u64) (\<lambda>protocol_generation.
     sbind (decode_option read_u64) (\<lambda>gameplay_generation.
       sret \<lparr>gs_phase = phase, gs_player_id = p, gs_entity_id = e, gs_protocol = ca_capabilities announcement,
             gs_gameplay_profile = gameplay_profile, gs_protocol_generation = protocol_generation,
             gs_gameplay_generation = gameplay_generation\<rparr>)))))))"

definition encode_gameplay_request_payload :: "gameplay_request \<Rightarrow> enc" where
  "encode_gameplay_request_payload request =
     (case request of
        GameplayDescribe \<Rightarrow> wseq []
      | GameplayCapabilitySet \<Rightarrow> wseq []
      | HandlePlayerJoin session p now_ms \<Rightarrow>
          wseq [encode_gameplay_session_snapshot session, encode_player_id p, write_u64 now_ms]
      | HandleCommand session command now_ms \<Rightarrow>
          wseq [encode_gameplay_session_snapshot session, encode_gameplay_command command, write_u64 now_ms]
      | HandleTick session now_ms \<Rightarrow> wseq [encode_gameplay_session_snapshot session, write_u64 now_ms]
      | GameplaySessionClosed session \<Rightarrow> wseq [encode_gameplay_session_snapshot session]
      | GameplayExportSessionState session \<Rightarrow> wseq [encode_gameplay_session_snapshot session]
      | GameplayImportSessionState session blob \<Rightarrow> wseq [encode_gameplay_session_snapshot session, write_bytes blob])"

fun decode_gameplay_request_payload :: "gameplay_op_code \<Rightarrow> gameplay_request dec" where
  "decode_gameplay_request_payload GameplayOpDescribe = sret GameplayDescribe"
| "decode_gameplay_request_payload GameplayOpCapabilitySet = sret GameplayCapabilitySet"
| "decode_gameplay_request_payload OpHandlePlayerJoin =
     sbind decode_gameplay_session_snapshot (\<lambda>session. sbind decode_player_id (\<lambda>p. sbind read_u64 (\<lambda>now_ms.
       sret (HandlePlayerJoin session p now_ms))))"
| "decode_gameplay_request_payload OpHandleCommand =
     sbind decode_gameplay_session_snapshot (\<lambda>session. sbind decode_gameplay_command (\<lambda>command. sbind read_u64 (\<lambda>now_ms.
       sret (HandleCommand session command now_ms))))"
| "decode_gameplay_request_payload OpHandleTick =
     sbind decode_gameplay_session_snapshot (\<lambda>session. sbind read_u64 (\<lambda>now_ms. sret (HandleTick session now_ms)))"
| "decode_gameplay_request_payload GameplayOpSessionClosed =
     sbind decode_gameplay_session_snapshot (\<lambda>session. sret (GameplaySessionClosed session))"
| "decode_gameplay_request_payload GameplayOpExportSessionState =
     sbind decode_gameplay_session_snapshot (\<lambda>session. sret (GameplayExportSessionState session))"
| "decode_gameplay_request_payload GameplayOpImportSessionState =
     sbind decode_gameplay_session_snapshot (\<lambda>session. sbind read_bytes (\<lambda>blob.
       sret (GameplayImportSessionState session blob)))"

definition encode_gameplay_descriptor :: "gameplay_descriptor \<Rightarrow> enc" where
  "encode_gameplay_descriptor descriptor = write_string (gd_profile descriptor)"

definition decode_gameplay_descriptor :: "gameplay_descriptor dec" where
  "decode_gameplay_descriptor = sbind read_string (\<lambda>profile. sret \<lparr>gd_profile = profile\<rparr>)"

definition encode_gameplay_response_payload :: "gameplay_op_code \<Rightarrow> gameplay_response \<Rightarrow> enc" where
  "encode_gameplay_response_payload op_code response =
     (let mismatch = Inl (InvalidValue ''unexpected gameplay response payload'') in
      case response of
        GameplayDescriptorResponse descriptor \<Rightarrow>
          if op_code = GameplayOpDescribe then encode_gameplay_descriptor descriptor else mismatch
      | GameplayCapabilities capability_set \<Rightarrow>
          if op_code = GameplayOpCapabilitySet then encode_capability_announcement GameplayCapability capability_set else mismatch
      | EffectBatch batch \<Rightarrow>
          if op_code \<in> {OpHandlePlayerJoin, OpHandleCommand, OpHandleTick} then encode_gameplay_effect_batch batch else mismatch
      | GameplayEmpty \<Rightarrow>
          if op_code \<in> {GameplayOpSessionClosed, GameplayOpImportSessionState} then wseq [] else mismatch
      | GameplaySessionTransferBlob blob \<Rightarrow>
          if op_code = GameplayOpExportSessionState then write_bytes blob else mismatch)"

fun decode_gameplay_response_payload :: "gameplay_op_code \<Rightarrow> gameplay_response dec" where
  "decode_gameplay_response_payload GameplayOpDescribe =
     sbind decode_gameplay_descriptor (\<lambda>descriptor. sret (GameplayDescriptorResponse descriptor))"
| "decode_gameplay_response_payload GameplayOpCapabilitySet =
     sbind (decode_capability_announcement GameplayCapability) (\<lambda>capability_set. sret (GameplayCapabilities capability_set))"
| "decode_gameplay_response_payload GameplayOpSessionClosed = sret GameplayEmpty"
| "decode_gameplay_response_payload GameplayOpImportSessionState = sret GameplayEmpty"
| "decode_gameplay_response_payload GameplayOpExportSessionState =
     sbind read_bytes (\<lambda>blob. sret (GameplaySessionTransferBlob blob))"
| "decode_gameplay_response_payload _ = sbind decode_gameplay_effect_batch (\<lambda>batch. sret (EffectBatch batch))"

subsection \<open>Messages\<close>

definition encode_gameplay_request :: "gameplay_request \<Rightarrow> enc" where
  "encode_gameplay_request request =
     seal_message GameplayPlugin (gameplay_op_u8 (gameplay_request_op request)) 0 (encode_gameplay_request_payload request)"

definition decode_gameplay_request :: "bytes \<Rightarrow> protocol_codec_error + gameplay_request" where
  "decode_gameplay_request bs =
     open_request GameplayPlugin ''gameplay'' gameplay_op_try_from decode_gameplay_request_payload bs"

definition encode_gameplay_response :: "gameplay_request \<Rightarrow> gameplay_response \<Rightarrow> enc" where
  "encode_gameplay_response request response =
     seal_message GameplayPlugin (gameplay_op_u8 (gameplay_request_op request)) PROTOCOL_FLAG_RESPONSE
       (encode_gameplay_response_payload (gameplay_request_op request) response)"

definition decode_gameplay_response :: "gameplay_request \<Rightarrow> bytes \<Rightarrow> protocol_codec_error + gameplay_response" where
  "decode_gameplay_response request bs =
     open_response GameplayPlugin ''gameplay'' gameplay_op_try_from decode_gameplay_response_payload
       (gameplay_request_op request) bs"

definition gameplay_session_ok :: "gameplay_session_snapshot \<Rightarrow> bool" where
  "gameplay_session_ok session \<longleftrightarrow> pred_option i32_ok (gs_entity_id session) \<and> string_ok (gs_gameplay_profile session)"

fun gameplay_request_ok :: "gameplay_request \<Rightarrow> bool" where
  "gameplay_request_ok (HandlePlayerJoin session p now_ms) = gameplay_session_ok session"
| "gameplay_request_ok (HandleCommand session command now_ms) = (gameplay_session_ok session \<and> gameplay_command_ok command)"
| "gameplay_request_ok (HandleTick session now_ms) = gameplay_session_ok session"
| "gameplay_request_ok (GameplaySessionClosed session) = gameplay_session_ok session"
| "gameplay_request_ok (GameplayExportSessionState session) = gameplay_session_ok session"
| "gameplay_request_ok (GameplayImportSessionState session blob) = (gameplay_session_ok session \<and> len_ok (length blob))"
| "gameplay_request_ok _ = True"

text \<open>The response that answers an operation, with well-formed contents.\<close>

fun gameplay_response_ok :: "gameplay_op_code \<Rightarrow> gameplay_response \<Rightarrow> bool" where
  "gameplay_response_ok op (GameplayDescriptorResponse descriptor) = (op = GameplayOpDescribe \<and> string_ok (gd_profile descriptor))"
| "gameplay_response_ok op (GameplayCapabilities capability_set) = (op = GameplayOpCapabilitySet \<and> announcement_ok capability_set)"
| "gameplay_response_ok op (EffectBatch batch) =
     (op \<in> {OpHandlePlayerJoin, OpHandleCommand, OpHandleTick} \<and> effect_batch_ok batch)"
| "gameplay_response_ok op GameplayEmpty = (op \<in> {GameplayOpSessionClosed, GameplayOpImportSessionState})"
| "gameplay_response_ok op (GameplaySessionTransferBlob blob) = (op = GameplayOpExportSessionState \<and> len_ok (length blob))"

lemma announcement_new_ok [simp]: "announcement_ok (announcement_new caps)"
  by (simp add: announcement_ok_def announcement_new_def)

lemma writes_gameplay_session:
  "gameplay_session_ok v \<Longrightarrow> writes decode_gameplay_session_snapshot (encode_gameplay_session_snapshot v) v"
  unfolding decode_gameplay_session_snapshot_def encode_gameplay_session_snapshot_def gameplay_session_ok_def
  by (auto intro!: writes_intros writes_opt [OF _ writes_entity_id, THEN writes_bind] pc.writes_announcement [THEN writes_bind]
      simp: announcement_new_def announcement_ok_def)

lemma accepts_gameplay_session: "accepts gameplay_session_ok decode_gameplay_session_snapshot"
  unfolding decode_gameplay_session_snapshot_def
  by (auto intro!: accepts_intros accepts_option [OF accepts_entity_id, THEN accepts_bind]
      pc.accepts_announcement [THEN accepts_bind] simp: gameplay_session_ok_def)

lemmas writes_bind_gameplay_session [writes_intros] = writes_gameplay_session [THEN writes_bind]
lemmas accepts_bind_gameplay_session [accepts_intros] = accepts_gameplay_session [THEN accepts_bind]

lemma writes_bytes_tail: "len_ok (length blob) \<Longrightarrow> writes (sbind read_bytes (\<lambda>blob. sret (f blob))) (write_bytes blob) (f blob)"
  by (rule writes_tail [OF writes_bytes]) simp_all

lemma writes_gameplay_descriptor:
  "string_ok (gd_profile v) \<Longrightarrow> writes decode_gameplay_descriptor (encode_gameplay_descriptor v) v"
  unfolding encode_gameplay_descriptor_def decode_gameplay_descriptor_def
  by (rule writes_tail [OF writes_string], assumption) (cases v, simp)

lemma accepts_gameplay_descriptor: "accepts (\<lambda>v. string_ok (gd_profile v)) decode_gameplay_descriptor"
  unfolding decode_gameplay_descriptor_def by (auto intro!: accepts_intros)

lemma writes_gameplay_response:
  "gameplay_response_ok op v \<Longrightarrow> writes (decode_gameplay_response_payload op) (encode_gameplay_response_payload op v) v"
  unfolding encode_gameplay_response_payload_def Let_def
  by (cases v; cases op)
    (auto intro!: writes_sret writes_bytes_tail writes_tail [OF writes_gameplay_descriptor]
      writes_tail [OF gc.writes_announcement] writes_tail [OF writes_effect_batch])

lemma accepts_gameplay_response: "accepts (gameplay_response_ok op) (decode_gameplay_response_payload op)"
  by (cases op)
    (auto intro!: accepts_intros gc.accepts_announcement [THEN accepts_bind] accepts_effect_batch [THEN accepts_bind]
      accepts_gameplay_descriptor [THEN accepts_bind])

interpretation gp: plugin_channel GameplayPlugin "''gameplay''" gameplay_op_u8 gameplay_op_try_from gameplay_request_op
  encode_gameplay_request_payload decode_gameplay_request_payload encode_gameplay_response_payload
  decode_gameplay_response_payload gameplay_request_ok gameplay_response_ok
proof
  show "gameplay_op_try_from (gameplay_op_u8 op) = Inr op" for op
    by (cases op) (simp_all add: gameplay_op_try_from_def)
  show "writes (decode_gameplay_request_payload (gameplay_request_op req)) (encode_gameplay_request_payload req) req"
    if "gameplay_request_ok req" for req
    using that unfolding encode_gameplay_request_payload_def by (cases req) (auto intro!: writes_intros)
  show "accepts (\<lambda>req. gameplay_request_ok req \<and> gameplay_request_op req = op) (decode_gameplay_request_payload op)" for op
    by (cases op) (auto intro!: accepts_intros)
qed (auto intro: writes_gameplay_response accepts_gameplay_response)

section \<open>Blobs of the host callbacks: \<open>host_blob\<close>\<close>

definition blob_encode_player_id :: "player_id \<Rightarrow> enc" where
  "blob_encode_player_id p = encode_player_id p"

definition blob_decode_player_id :: "bytes \<Rightarrow> protocol_codec_error + player_id" where
  "blob_decode_player_id bs = decode_all decode_player_id bs"

definition blob_encode_block_pos :: "block_pos \<Rightarrow> enc" where
  "blob_encode_block_pos position = encode_block_pos position"

definition blob_decode_block_pos :: "bytes \<Rightarrow> protocol_codec_error + block_pos" where
  "blob_decode_block_pos bs = decode_all decode_block_pos bs"

definition encode_can_edit_block_key :: "player_id \<Rightarrow> block_pos \<Rightarrow> enc" where
  "encode_can_edit_block_key p position = wseq [encode_player_id p, encode_block_pos position]"

definition decode_can_edit_block_key :: "bytes \<Rightarrow> protocol_codec_error + player_id \<times> block_pos" where
  "decode_can_edit_block_key bs =
     decode_all (sbind decode_player_id (\<lambda>p. sbind decode_block_pos (\<lambda>position. sret (p, position)))) bs"

definition blob_encode_player_snapshot :: "player_snapshot option \<Rightarrow> enc" where
  "blob_encode_player_snapshot snapshot = encode_option encode_player_snapshot snapshot"

definition blob_decode_player_snapshot :: "bytes \<Rightarrow> protocol_codec_error + player_snapshot option" where
  "blob_decode_player_snapshot bs = decode_all (decode_option decode_player_snapshot) bs"

definition blob_encode_world_meta :: "world_meta \<Rightarrow> enc" where
  "blob_encode_world_meta meta = encode_world_meta meta"

definition blob_decode_world_meta :: "bytes \<Rightarrow> protocol_codec_error + world_meta" where
  "blob_decode_world_meta bs = decode_all decode_world_meta bs"

definition blob_encode_block_state :: "block_state option \<Rightarrow> enc" where
  "blob_encode_block_state block = encode_optional_block_state block"

definition blob_decode_block_state :: "bytes \<Rightarrow> protocol_codec_error + block_state option" where
  "blob_decode_block_state bs = decode_all decode_optional_block_state bs"

definition blob_encode_block_entity :: "block_entity_state option \<Rightarrow> enc" where
  "blob_encode_block_entity block_entity = encode_option encode_block_entity_state block_entity"

definition blob_decode_block_entity :: "bytes \<Rightarrow> protocol_codec_error + block_entity_state option" where
  "blob_decode_block_entity bs = decode_all (decode_option decode_block_entity_state) bs"

definition encode_gameplay_effect_blob :: "gameplay_effect \<Rightarrow> enc" where
  "encode_gameplay_effect_blob effect = encode_gameplay_effect effect"

definition decode_gameplay_effect_blob :: "bytes \<Rightarrow> protocol_codec_error + gameplay_effect" where
  "decode_gameplay_effect_blob bs = decode_all decode_gameplay_effect bs"

definition encode_player_pose_update ::
  "player_id \<Rightarrow> vec3 option \<Rightarrow> f32 option \<Rightarrow> f32 option \<Rightarrow> bool \<Rightarrow> enc" where
  "encode_player_pose_update p position yaw pitch on_ground = wseq
     [encode_player_id p, encode_option encode_vec3 position, encode_option write_u32 yaw, encode_option write_u32 pitch,
      write_bool on_ground]"

definition decode_player_pose_update ::
  "bytes \<Rightarrow> protocol_codec_error + player_id \<times> vec3 option \<times> f32 option \<times> f32 option \<times> bool" where
  "decode_player_pose_update bs = decode_all
     (sbind decode_player_id (\<lambda>p. sbind (decode_option decode_vec3) (\<lambda>position. sbind (decode_option read_u32) (\<lambda>yaw.
      sbind (decode_option read_u32) (\<lambda>pitch. sbind read_bool (\<lambda>on_ground. sret (p, position, yaw, pitch, on_ground))))))) bs"

definition encode_selected_hotbar_slot_update :: "player_id \<Rightarrow> u8 \<Rightarrow> enc" where
  "encode_selected_hotbar_slot_update p slot = wseq [encode_player_id p, write_u8 slot]"

definition decode_selected_hotbar_slot_update :: "bytes \<Rightarrow> protocol_codec_error + player_id \<times> u8" where
  "decode_selected_hotbar_slot_update bs =
     decode_all (sbind decode_player_id (\<lambda>p. sbind read_u8 (\<lambda>slot. sret (p, slot)))) bs"

definition encode_inventory_slot_update :: "player_id \<Rightarrow> inventory_slot \<Rightarrow> item_stack option \<Rightarrow> enc" where
  "encode_inventory_slot_update p slot stack =
     wseq [encode_player_id p, encode_inventory_slot slot, encode_option encode_item_stack stack]"

definition decode_inventory_slot_update ::
  "bytes \<Rightarrow> protocol_codec_error + player_id \<times> inventory_slot \<times> item_stack option" where
  "decode_inventory_slot_update bs = decode_all
     (sbind decode_player_id (\<lambda>p. sbind decode_inventory_slot (\<lambda>slot. sbind (decode_option decode_item_stack) (\<lambda>stack.
      sret (p, slot, stack))))) bs"

definition encode_clear_mining :: "player_id \<Rightarrow> enc" where
  "encode_clear_mining p = blob_encode_player_id p"

definition decode_clear_mining :: "bytes \<Rightarrow> protocol_codec_error + player_id" where
  "decode_clear_mining bs = blob_decode_player_id bs"

definition encode_begin_mining :: "player_id \<Rightarrow> block_pos \<Rightarrow> u64 \<Rightarrow> enc" where
  "encode_begin_mining p position duration_ms =
     wseq [encode_player_id p, encode_block_pos position, write_u64 duration_ms]"

definition decode_begin_mining :: "bytes \<Rightarrow> protocol_codec_error + player_id \<times> block_pos \<times> u64" where
  "decode_begin_mining bs = decode_all
     (sbind decode_player_id (\<lambda>p. sbind decode_block_pos (\<lambda>position. sbind read_u64 (\<lambda>duration_ms.
      sret (p, position, duration_ms))))) bs"

definition encode_open_container_at :: "player_id \<Rightarrow> block_pos \<Rightarrow> enc" where
  "encode_open_container_at p position = wseq [encode_player_id p, encode_block_pos position]"

definition decode_open_container_at :: "bytes \<Rightarrow> protocol_codec_error + player_id \<times> block_pos" where
  "decode_open_container_at bs =
     decode_all (sbind decode_player_id (\<lambda>p. sbind decode_block_pos (\<lambda>position. sret (p, position)))) bs"

text \<open>The container kind is written with \<open>expect\<close>.\<close>

definition encode_open_virtual_container :: "player_id \<Rightarrow> container_kind_id \<Rightarrow> enc" where
  "encode_open_virtual_container p kind = wseq
     [encode_player_id p, case encode_inventory_container kind of Inl _ \<Rightarrow> Inl CodecPanic | Inr bs \<Rightarrow> Inr bs]"

definition decode_open_virtual_container :: "bytes \<Rightarrow> protocol_codec_error + player_id \<times> container_kind_id" where
  "decode_open_virtual_container bs =
     decode_all (sbind decode_player_id (\<lambda>p. sbind decode_inventory_container (\<lambda>kind. sret (p, kind)))) bs"

definition encode_set_block :: "block_pos \<Rightarrow> block_state option \<Rightarrow> enc" where
  "encode_set_block position block = wseq [encode_block_pos position, encode_optional_block_state block]"

definition decode_set_block :: "bytes \<Rightarrow> protocol_codec_error + block_pos \<times> block_state option" where
  "decode_set_block bs =
     decode_all (sbind decode_block_pos (\<lambda>position. sbind decode_optional_block_state (\<lambda>block. sret (position, block)))) bs"

definition encode_spawn_dropped_item :: "vec3 \<Rightarrow> item_stack \<Rightarrow> enc" where
  "encode_spawn_dropped_item position item = wseq [encode_vec3 position, encode_item_stack item]"

definition decode_spawn_dropped_item :: "bytes \<Rightarrow> protocol_codec_error + vec3 \<times> item_stack" where
  "decode_spawn_dropped_item bs =
     decode_all (sbind decode_vec3 (\<lambda>position. sbind decode_item_stack (\<lambda>item. sret (position, item)))) bs"

definition encode_targeted_event_blob :: "targeted_event \<Rightarrow> enc" where
  "encode_targeted_event_blob event = encode_targeted_event event"

definition decode_targeted_event_blob :: "bytes \<Rightarrow> protocol_codec_error + targeted_event" where
  "decode_targeted_event_blob bs = decode_all decode_targeted_event bs"

text \<open>Every effect a plugin records through the host callbacks is read back as it was recorded.\<close>

lemma writes_decode_all: "writes p w v \<Longrightarrow> length (projr w) \<le> isize_max \<Longrightarrow> decode_all p (projr w) = Inr v"
  by (auto simp: writes_def intro: parses_decode_all)

lemma blob_values_roundtrip:
  "writes decode_player_id (blob_encode_player_id p) p"
  "block_pos_ok position \<Longrightarrow> writes decode_block_pos (blob_encode_block_pos position) position"
  "pred_option player_snapshot_ok snapshot \<Longrightarrow>
     writes (decode_option decode_player_snapshot) (blob_encode_player_snapshot snapshot) snapshot"
  "world_meta_ok meta \<Longrightarrow> writes decode_world_meta (blob_encode_world_meta meta) meta"
  "pred_option block_state_ok block \<Longrightarrow> writes decode_optional_block_state (blob_encode_block_state block) block"
  "pred_option block_entity_ok block_entity \<Longrightarrow>
     writes (decode_option decode_block_entity_state) (blob_encode_block_entity block_entity) block_entity"
  by (auto simp: blob_encode_player_id_def blob_encode_block_pos_def blob_encode_player_snapshot_def blob_encode_world_meta_def
      blob_encode_block_state_def blob_encode_block_entity_def
      intro: writes_player_id writes_block_pos writes_opt [OF _ writes_player] writes_world_meta writes_optional_block
        writes_opt [OF _ writes_block_entity])

lemma blob_updates_roundtrip:
  "block_pos_ok position \<Longrightarrow> writes (sbind decode_player_id (\<lambda>p. sbind decode_block_pos (\<lambda>position. sret (p, position))))
     (encode_can_edit_block_key p position) (p, position)"
  "writes (sbind decode_player_id (\<lambda>p. sbind (decode_option decode_vec3) (\<lambda>v. sbind (decode_option read_u32) (\<lambda>yaw.
      sbind (decode_option read_u32) (\<lambda>pitch. sbind read_bool (\<lambda>on_ground. sret (p, v, yaw, pitch, on_ground)))))))
     (encode_player_pose_update p v yaw pitch on_ground) (p, v, yaw, pitch, on_ground)"
  "writes (sbind decode_player_id (\<lambda>p. sbind read_u8 (\<lambda>slot. sret (p, slot))))
     (encode_selected_hotbar_slot_update p hotbar) (p, hotbar)"
  "slot_ok slot \<Longrightarrow> stack_option_ok stack \<Longrightarrow>
     writes (sbind decode_player_id (\<lambda>p. sbind decode_inventory_slot (\<lambda>slot. sbind (decode_option decode_item_stack) (\<lambda>stack.
       sret (p, slot, stack))))) (encode_inventory_slot_update p slot stack) (p, slot, stack)"
  "block_pos_ok position \<Longrightarrow>
     writes (sbind decode_player_id (\<lambda>p. sbind decode_block_pos (\<lambda>position. sbind read_u64 (\<lambda>duration_ms.
       sret (p, position, duration_ms))))) (encode_begin_mining p position duration_ms) (p, position, duration_ms)"
  "block_pos_ok position \<Longrightarrow> writes (sbind decode_player_id (\<lambda>p. sbind decode_block_pos (\<lambda>position. sret (p, position))))
     (encode_open_container_at p position) (p, position)"
  "string_ok kind \<Longrightarrow> writes (sbind decode_player_id (\<lambda>p. sbind decode_inventory_container (\<lambda>kind. sret (p, kind))))
     (encode_open_virtual_container p kind) (p, kind)"
  "block_pos_ok position \<Longrightarrow> pred_option block_state_ok block \<Longrightarrow>
     writes (sbind decode_block_pos (\<lambda>position. sbind decode_optional_block_state (\<lambda>block. sret (position, block))))
       (encode_set_block position block) (position, block)"
  "item_stack_ok item \<Longrightarrow> writes (sbind decode_vec3 (\<lambda>position. sbind decode_item_stack (\<lambda>item. sret (position, item))))
     (encode_spawn_dropped_item at item) (at, item)"
proof -
  show "writes (sbind decode_player_id (\<lambda>p. sbind decode_inventory_container (\<lambda>kind. sret (p, kind))))
     (encode_open_virtual_container p kind) (p, kind)" if "string_ok kind"
  proof -
    have "(case encode_inventory_container kind of Inl _ \<Rightarrow> Inl CodecPanic | Inr bs \<Rightarrow> Inr bs) = encode_inventory_container kind"
      using writes_container [OF that] by (auto simp: writes_def)
    then show ?thesis using that unfolding encode_open_virtual_container_def by (auto intro!: writes_intros)
  qed
qed (auto simp: encode_can_edit_block_key_def encode_player_pose_update_def encode_selected_hotbar_slot_update_def
    encode_inventory_slot_update_def encode_begin_mining_def encode_open_container_at_def encode_set_block_def
    encode_spawn_dropped_item_def intro!: writes_intros)

section \<open>Storage requests and responses\<close>

datatype storage_op_code =
    StorageOpDescribe
  | StorageOpCapabilitySet
  | OpLoadSnapshot
  | OpSaveSnapshot
  | OpExportRuntimeState
  | OpImportRuntimeState

fun storage_op_u8 :: "storage_op_code \<Rightarrow> u8" where
  "storage_op_u8 StorageOpDescribe = 1"
| "storage_op_u8 StorageOpCapabilitySet = 2"
| "storage_op_u8 OpLoadSnapshot = 3"
| "storage_op_u8 OpSaveSnapshot = 4"
| "storage_op_u8 OpExportRuntimeState = 5"
| "storage_op_u8 OpImportRuntimeState = 6"

definition storage_op_try_from :: "u8 \<Rightarrow> protocol_codec_error + storage_op_code" where
  "storage_op_try_from value =
     (case map_of
        [(1, StorageOpDescribe), (2, StorageOpCapabilitySet), (3, OpLoadSnapshot), (4, OpSaveSnapshot),
         (5, OpExportRuntimeState), (6, OpImportRuntimeState)] value of
        Some op \<Rightarrow> Inr op
      | None \<Rightarrow> Inl (InvalidValue ''invalid storage op code''))"

record storage_descriptor =
  sd_storage_profile :: string

datatype storage_request =
    StorageDescribe
  | StorageCapabilitySet
  | LoadSnapshot string
  | SaveSnapshot string world_snapshot
  | ExportRuntimeState string
  | ImportRuntimeState string world_snapshot

fun storage_request_op :: "storage_request \<Rightarrow> storage_op_code" where
  "storage_request_op StorageDescribe = StorageOpDescribe"
| "storage_request_op StorageCapabilitySet = StorageOpCapabilitySet"
| "storage_request_op (LoadSnapshot _) = OpLoadSnapshot"
| "storage_request_op (SaveSnapshot _ _) = OpSaveSnapshot"
| "storage_request_op (ExportRuntimeState _) = OpExportRuntimeState"
| "storage_request_op (ImportRuntimeState _ _) = OpImportRuntimeState"

datatype storage_response =
    StorageDescriptorResponse storage_descriptor
  | StorageCapabilities "storage_capability capability_announcement"
  | Snapshot "world_snapshot option"
  | StorageEmpty

definition encode_storage_request_payload :: "storage_request \<Rightarrow> enc" where
  "encode_storage_request_payload request =
     (case request of
        StorageDescribe \<Rightarrow> wseq []
      | StorageCapabilitySet \<Rightarrow> wseq []
      | LoadSnapshot world_dir \<Rightarrow> wseq [write_string world_dir]
      | ExportRuntimeState world_dir \<Rightarrow> wseq [write_string world_dir]
      | SaveSnapshot world_dir snapshot \<Rightarrow> wseq [write_string world_dir, encode_world_snapshot snapshot]
      | ImportRuntimeState world_dir snapshot \<Rightarrow> wseq [write_string world_dir, encode_world_snapshot snapshot])"

fun decode_storage_request_payload :: "storage_op_code \<Rightarrow> storage_request dec" where
  "decode_storage_request_payload StorageOpDescribe = sret StorageDescribe"
| "decode_storage_request_payload StorageOpCapabilitySet = sret StorageCapabilitySet"
| "decode_storage_request_payload OpLoadSnapshot = sbind read_string (\<lambda>world_dir. sret (LoadSnapshot world_dir))"
| "decode_storage_request_payload OpSaveSnapshot =
     sbind read_string (\<lambda>world_dir. sbind decode_world_snapshot (\<lambda>snapshot. sret (SaveSnapshot world_dir snapshot)))"
| "decode_storage_request_payload OpExportRuntimeState = sbind read_string (\<lambda>world_dir. sret (ExportRuntimeState world_dir))"
| "decode_storage_request_payload OpImportRuntimeState =
     sbind read_string (\<lambda>world_dir. sbind decode_world_snapshot (\<lambda>snapshot. sret (ImportRuntimeState world_dir snapshot)))"

definition encode_storage_response_payload :: "storage_op_code \<Rightarrow> storage_response \<Rightarrow> enc" where
  "encode_storage_response_payload op_code response =
     (let mismatch = Inl (InvalidValue ''storage response did not match opcode'') in
      case response of
        StorageDescriptorResponse descriptor \<Rightarrow>
          if op_code = StorageOpDescribe then write_string (sd_storage_profile descriptor) else mismatch
      | StorageCapabilities capabilities \<Rightarrow>
          if op_code = StorageOpCapabilitySet then encode_capability_announcement StorageCapability capabilities else mismatch
      | Snapshot snapshot \<Rightarrow>
          if op_code \<in> {OpLoadSnapshot, OpExportRuntimeState} then encode_option encode_world_snapshot snapshot else mismatch
      | StorageEmpty \<Rightarrow>
          if op_code \<in> {OpSaveSnapshot, OpImportRuntimeState} then wseq [] else mismatch)"

fun decode_storage_response_payload :: "storage_op_code \<Rightarrow> storage_response dec" where
  "decode_storage_response_payload StorageOpDescribe =
     sbind read_string (\<lambda>profile. sret (StorageDescriptorResponse \<lparr>sd_storage_profile = profile\<rparr>))"
| "decode_storage_response_payload StorageOpCapabilitySet =
     sbind (decode_capability_announcement StorageCapability) (\<lambda>capabilities. sret (StorageCapabilities capabilities))"
| "decode_storage_response_payload OpLoadSnapshot =
     sbind (decode_option decode_world_snapshot) (\<lambda>snapshot. sret (Snapshot snapshot))"
| "decode_storage_response_payload OpExportRuntimeState =
     sbind (decode_option decode_world_snapshot) (\<lambda>snapshot. sret (Snapshot snapshot))"
| "decode_storage_response_payload OpSaveSnapshot = sret StorageEmpty"
| "decode_storage_response_payload OpImportRuntimeState = sret StorageEmpty"

definition encode_storage_request :: "storage_request \<Rightarrow> enc" where
  "encode_storage_request request =
     seal_message StoragePlugin (storage_op_u8 (storage_request_op request)) 0 (encode_storage_request_payload request)"

definition decode_storage_request :: "bytes \<Rightarrow> protocol_codec_error + storage_request" where
  "decode_storage_request bs =
     open_request StoragePlugin ''storage'' storage_op_try_from decode_storage_request_payload bs"

definition encode_storage_response :: "storage_request \<Rightarrow> storage_response \<Rightarrow> enc" where
  "encode_storage_response request response =
     seal_message StoragePlugin (storage_op_u8 (storage_request_op request)) PROTOCOL_FLAG_RESPONSE
       (encode_storage_response_payload (storage_request_op request) response)"

definition decode_storage_response :: "storage_request \<Rightarrow> bytes \<Rightarrow> protocol_codec_error + storage_response" where
  "decode_storage_response request bs =
     open_response StoragePlugin ''storage'' storage_op_try_from decode_storage_response_payload
       (storage_request_op request) bs"

fun storage_request_ok :: "storage_request \<Rightarrow> bool" where
  "storage_request_ok (LoadSnapshot world_dir) = string_ok world_dir"
| "storage_request_ok (ExportRuntimeState world_dir) = string_ok world_dir"
| "storage_request_ok (SaveSnapshot world_dir snapshot) = (string_ok world_dir \<and> world_snapshot_ok snapshot)"
| "storage_request_ok (ImportRuntimeState world_dir snapshot) = (string_ok world_dir \<and> world_snapshot_ok snapshot)"
| "storage_request_ok _ = True"

fun storage_response_ok :: "storage_op_code \<Rightarrow> storage_response \<Rightarrow> bool" where
  "storage_response_ok op (StorageDescriptorResponse descriptor) =
     (op = StorageOpDescribe \<and> string_ok (sd_storage_profile descriptor))"
| "storage_response_ok op (StorageCapabilities capabilities) = (op = StorageOpCapabilitySet \<and> announcement_ok capabilities)"
| "storage_response_ok op (Snapshot snapshot) =
     (op \<in> {OpLoadSnapshot, OpExportRuntimeState} \<and> pred_option world_snapshot_ok snapshot)"
| "storage_response_ok op StorageEmpty = (op \<in> {OpSaveSnapshot, OpImportRuntimeState})"

lemmas writes_bind_world_snapshot [writes_intros] = writes_world_snapshot [THEN writes_bind]
lemmas accepts_bind_world_snapshot [accepts_intros] = accepts_world_snapshot [THEN accepts_bind]

lemma writes_storage_response:
  "storage_response_ok op v \<Longrightarrow> writes (decode_storage_response_payload op) (encode_storage_response_payload op v) v"
  unfolding encode_storage_response_payload_def Let_def
  by (cases v; cases op)
    (auto intro!: writes_sret writes_tail [OF writes_string] writes_tail [OF sc.writes_announcement]
      writes_tail [OF writes_opt [OF _ writes_world_snapshot]] arg_cong [where f = sret] storage_descriptor.equality)

interpretation st: plugin_channel StoragePlugin "''storage''" storage_op_u8 storage_op_try_from storage_request_op
  encode_storage_request_payload decode_storage_request_payload encode_storage_response_payload
  decode_storage_response_payload storage_request_ok storage_response_ok
proof
  show "storage_op_try_from (storage_op_u8 op) = Inr op" for op
    by (cases op) (simp_all add: storage_op_try_from_def)
  show "writes (decode_storage_request_payload (storage_request_op req)) (encode_storage_request_payload req) req"
    if "storage_request_ok req" for req
    using that unfolding encode_storage_request_payload_def by (cases req) (auto intro!: writes_intros)
  show "accepts (\<lambda>req. storage_request_ok req \<and> storage_request_op req = op) (decode_storage_request_payload op)" for op
    by (cases op) (auto intro!: accepts_intros)
  show "accepts (storage_response_ok op) (decode_storage_response_payload op)" for op
    by (cases op)
      (auto intro!: accepts_intros sc.accepts_announcement [THEN accepts_bind]
        accepts_option [OF accepts_world_snapshot, THEN accepts_bind])
qed (rule writes_storage_response)

end
