(* ===== verification/Contract_Protocol.thy ===== *)
theory Contract_Protocol
  imports Contract_Messages
begin

unbundle bit_operations_syntax

text \<open>
  The protocol and authentication channels, crate \<open>mc-plugin-contract\<close>: \<open>codec/protocol.rs\<close> with
  \<open>codec/__internal/protocol_semantic.rs\<close>, \<open>codec/auth.rs\<close> with \<open>codec/__internal/auth_semantic.rs\<close>; the types of
  the protocol side are those of \<open>mc-proto-common\<close>, \<open>types.rs\<close>. The two \<open>usize\<close> counts of a server status and
  the consumed length of a wire frame are written with \<open>write_len\<close>.
\<close>

section \<open>Protocol types: \<open>mc-proto-common/src/types.rs\<close>\<close>

datatype handshake_next_state = NextStatus | NextLogin

datatype transport_kind = Tcp | Udp

datatype wire_format_kind = MinecraftFramed | RawPacketStream

datatype edition = EditionJe | EditionBe

record bedrock_listener_descriptor =
  bl_game_version :: string
  bl_raknet_version :: u8

record protocol_descriptor =
  pd_adapter_id :: string
  pd_transport :: transport_kind
  pd_wire_format :: wire_format_kind
  pd_edition :: edition
  pd_version_name :: string
  pd_protocol_number :: int

record handshake_intent =
  hi_edition :: edition
  hi_protocol_number :: int
  hi_server_host :: string
  hi_server_port :: u16
  hi_next_state :: handshake_next_state

datatype status_request = StatusQuery | StatusPing i64

datatype login_request =
    LoginStartRequest string
  | EncryptionResponse bytes bytes
  | BedrockNetworkSettingsRequest int
  | BedrockLogin int string "string list" string

record server_list_status =
  sl_version :: protocol_descriptor
  sl_players_online :: nat
  sl_max_players :: nat
  sl_description :: string

record play_encoding_context =
  pe_player_id :: player_id
  pe_entity_id :: entity_id

record protocol_session_snapshot =
  pn_connection_id :: connection_id
  pn_phase :: connection_phase
  pn_player_id :: "player_id option"
  pn_entity_id :: "entity_id option"

record wire_frame_decode_result =
  wf_frame :: bytes
  wf_bytes_consumed :: nat

section \<open>Their codecs: \<open>protocol_semantic.rs\<close>\<close>

definition encode_transport_kind :: "transport_kind \<Rightarrow> enc" where
  "encode_transport_kind transport = write_u8 (case transport of Tcp \<Rightarrow> 1 | Udp \<Rightarrow> 2)"

definition decode_transport_kind :: "transport_kind dec" where
  "decode_transport_kind = match_u8 [(1, sret Tcp), (2, sret Udp)] ''invalid transport kind''"

definition encode_wire_format_kind :: "wire_format_kind \<Rightarrow> enc" where
  "encode_wire_format_kind wire_format = write_u8 (case wire_format of MinecraftFramed \<Rightarrow> 1 | RawPacketStream \<Rightarrow> 2)"

definition decode_wire_format_kind :: "wire_format_kind dec" where
  "decode_wire_format_kind = match_u8 [(1, sret MinecraftFramed), (2, sret RawPacketStream)] ''invalid wire format kind''"

definition encode_edition :: "edition \<Rightarrow> enc" where
  "encode_edition edition = write_u8 (case edition of EditionJe \<Rightarrow> 1 | EditionBe \<Rightarrow> 2)"

definition decode_edition :: "edition dec" where
  "decode_edition = match_u8 [(1, sret EditionJe), (2, sret EditionBe)] ''invalid edition''"

definition encode_handshake_next_state :: "handshake_next_state \<Rightarrow> enc" where
  "encode_handshake_next_state next_state = write_u8 (case next_state of NextStatus \<Rightarrow> 1 | NextLogin \<Rightarrow> 2)"

definition decode_handshake_next_state :: "handshake_next_state dec" where
  "decode_handshake_next_state = match_u8 [(1, sret NextStatus), (2, sret NextLogin)] ''invalid handshake next state''"

definition encode_protocol_descriptor :: "protocol_descriptor \<Rightarrow> enc" where
  "encode_protocol_descriptor d = wseq
     [write_string (pd_adapter_id d), encode_transport_kind (pd_transport d), encode_wire_format_kind (pd_wire_format d),
      encode_edition (pd_edition d), write_string (pd_version_name d), write_i32 (pd_protocol_number d)]"

definition decode_protocol_descriptor :: "protocol_descriptor dec" where
  "decode_protocol_descriptor =
     sbind read_string (\<lambda>adapter_id. sbind decode_transport_kind (\<lambda>transport. sbind decode_wire_format_kind (\<lambda>wire_format.
     sbind decode_edition (\<lambda>edition. sbind read_string (\<lambda>version_name. sbind read_i32 (\<lambda>protocol_number.
       sret \<lparr>pd_adapter_id = adapter_id, pd_transport = transport, pd_wire_format = wire_format, pd_edition = edition,
             pd_version_name = version_name, pd_protocol_number = protocol_number\<rparr>))))))"

definition encode_bedrock_listener_descriptor :: "bedrock_listener_descriptor \<Rightarrow> enc" where
  "encode_bedrock_listener_descriptor d = wseq [write_string (bl_game_version d), write_u8 (bl_raknet_version d)]"

definition decode_bedrock_listener_descriptor :: "bedrock_listener_descriptor dec" where
  "decode_bedrock_listener_descriptor =
     sbind read_string (\<lambda>game_version. sbind read_u8 (\<lambda>raknet_version.
       sret \<lparr>bl_game_version = game_version, bl_raknet_version = raknet_version\<rparr>))"

definition encode_handshake_intent :: "handshake_intent \<Rightarrow> enc" where
  "encode_handshake_intent intent = wseq
     [encode_edition (hi_edition intent), write_i32 (hi_protocol_number intent), write_string (hi_server_host intent),
      write_u16 (hi_server_port intent), encode_handshake_next_state (hi_next_state intent)]"

definition decode_handshake_intent :: "handshake_intent dec" where
  "decode_handshake_intent =
     sbind decode_edition (\<lambda>edition. sbind read_i32 (\<lambda>protocol_number. sbind read_string (\<lambda>server_host.
     sbind read_u16 (\<lambda>server_port. sbind decode_handshake_next_state (\<lambda>next_state.
       sret \<lparr>hi_edition = edition, hi_protocol_number = protocol_number, hi_server_host = server_host,
             hi_server_port = server_port, hi_next_state = next_state\<rparr>)))))"

definition encode_status_request :: "status_request \<Rightarrow> enc" where
  "encode_status_request request =
     (case request of StatusQuery \<Rightarrow> wseq [write_u8 1] | StatusPing payload \<Rightarrow> wseq [write_u8 2, write_u64 payload])"

definition decode_status_request :: "status_request dec" where
  "decode_status_request = match_u8
     [(1, sret StatusQuery), (2, sbind read_u64 (\<lambda>payload. sret (StatusPing payload)))] ''invalid status request''"

definition encode_login_request :: "login_request \<Rightarrow> enc" where
  "encode_login_request request =
     (case request of
        LoginStartRequest username \<Rightarrow> wseq [write_u8 1, write_string username]
      | EncryptionResponse shared_secret verify_token \<Rightarrow> wseq [write_u8 2, write_bytes shared_secret, write_bytes verify_token]
      | BedrockNetworkSettingsRequest protocol_number \<Rightarrow> wseq [write_u8 3, write_i32 protocol_number]
      | BedrockLogin protocol_number display_name chain_jwts client_data_jwt \<Rightarrow> wseq
          [write_u8 4, write_i32 protocol_number, write_string display_name, encode_list write_string chain_jwts,
           write_string client_data_jwt])"

definition decode_login_request :: "login_request dec" where
  "decode_login_request = match_u8
     [(1, sbind read_string (\<lambda>username. sret (LoginStartRequest username))),
      (2, sbind read_bytes (\<lambda>shared_secret. sbind read_bytes (\<lambda>verify_token.
            sret (EncryptionResponse shared_secret verify_token)))),
      (3, sbind read_i32 (\<lambda>protocol_number. sret (BedrockNetworkSettingsRequest protocol_number))),
      (4, sbind read_i32 (\<lambda>protocol_number. sbind read_string (\<lambda>display_name. sbind (decode_list read_string) (\<lambda>chain_jwts.
          sbind read_string (\<lambda>client_data_jwt.
            sret (BedrockLogin protocol_number display_name chain_jwts client_data_jwt))))))]
     ''invalid login request''"

definition encode_server_list_status :: "server_list_status \<Rightarrow> enc" where
  "encode_server_list_status status = wseq
     [encode_protocol_descriptor (sl_version status), write_len (sl_players_online status), write_len (sl_max_players status),
      write_string (sl_description status)]"

definition decode_server_list_status :: "server_list_status dec" where
  "decode_server_list_status =
     sbind decode_protocol_descriptor (\<lambda>version. sbind read_len (\<lambda>players_online. sbind read_len (\<lambda>max_players.
     sbind read_string (\<lambda>description.
       sret \<lparr>sl_version = version, sl_players_online = players_online, sl_max_players = max_players,
             sl_description = description\<rparr>))))"

definition encode_play_encoding_context :: "play_encoding_context \<Rightarrow> enc" where
  "encode_play_encoding_context context = wseq
     [encode_player_id (pe_player_id context), encode_entity_id (pe_entity_id context)]"

definition decode_play_encoding_context :: "play_encoding_context dec" where
  "decode_play_encoding_context =
     sbind decode_player_id (\<lambda>p. sbind decode_entity_id (\<lambda>e. sret \<lparr>pe_player_id = p, pe_entity_id = e\<rparr>))"

definition encode_protocol_session_snapshot :: "protocol_session_snapshot \<Rightarrow> enc" where
  "encode_protocol_session_snapshot snapshot = wseq
     [encode_connection_id (pn_connection_id snapshot), encode_connection_phase (pn_phase snapshot),
      encode_option encode_player_id (pn_player_id snapshot), encode_option encode_entity_id (pn_entity_id snapshot)]"

definition decode_protocol_session_snapshot :: "protocol_session_snapshot dec" where
  "decode_protocol_session_snapshot =
     sbind decode_connection_id (\<lambda>connection_id. sbind decode_connection_phase (\<lambda>phase.
     sbind (decode_option decode_player_id) (\<lambda>p. sbind (decode_option decode_entity_id) (\<lambda>e.
       sret \<lparr>pn_connection_id = connection_id, pn_phase = phase, pn_player_id = p, pn_entity_id = e\<rparr>))))"

definition encode_wire_frame_decode_result :: "wire_frame_decode_result \<Rightarrow> enc" where
  "encode_wire_frame_decode_result result = wseq [write_len (wf_bytes_consumed result), write_bytes (wf_frame result)]"

definition decode_wire_frame_decode_result :: "wire_frame_decode_result dec" where
  "decode_wire_frame_decode_result =
     sbind read_len (\<lambda>bytes_consumed. sbind read_bytes (\<lambda>frame. sret \<lparr>wf_frame = frame, wf_bytes_consumed = bytes_consumed\<rparr>))"

subsection \<open>Well-formed values and their round trips\<close>

definition protocol_descriptor_ok :: "protocol_descriptor \<Rightarrow> bool" where
  "protocol_descriptor_ok d \<longleftrightarrow> string_ok (pd_adapter_id d) \<and> string_ok (pd_version_name d) \<and> i32_ok (pd_protocol_number d)"

definition handshake_intent_ok :: "handshake_intent \<Rightarrow> bool" where
  "handshake_intent_ok intent \<longleftrightarrow> i32_ok (hi_protocol_number intent) \<and> string_ok (hi_server_host intent)"

fun login_request_ok :: "login_request \<Rightarrow> bool" where
  "login_request_ok (LoginStartRequest username) = string_ok username"
| "login_request_ok (EncryptionResponse shared_secret verify_token) =
     (len_ok (length shared_secret) \<and> len_ok (length verify_token))"
| "login_request_ok (BedrockNetworkSettingsRequest protocol_number) = i32_ok protocol_number"
| "login_request_ok (BedrockLogin protocol_number display_name chain_jwts client_data_jwt) =
     (i32_ok protocol_number \<and> string_ok display_name \<and> list_ok string_ok chain_jwts \<and> string_ok client_data_jwt)"

definition server_list_status_ok :: "server_list_status \<Rightarrow> bool" where
  "server_list_status_ok status \<longleftrightarrow> protocol_descriptor_ok (sl_version status) \<and> len_ok (sl_players_online status) \<and>
     len_ok (sl_max_players status) \<and> string_ok (sl_description status)"

definition protocol_session_ok :: "protocol_session_snapshot \<Rightarrow> bool" where
  "protocol_session_ok session \<longleftrightarrow> pred_option i32_ok (pn_entity_id session)"

definition wire_frame_ok :: "wire_frame_decode_result \<Rightarrow> bool" where
  "wire_frame_ok result \<longleftrightarrow> len_ok (wf_bytes_consumed result) \<and> len_ok (length (wf_frame result))"

lemma writes_protocol_enums:
  "writes decode_transport_kind (encode_transport_kind t) t"
  "writes decode_wire_format_kind (encode_wire_format_kind w) w"
  "writes decode_edition (encode_edition e) e"
  "writes decode_handshake_next_state (encode_handshake_next_state n) n"
  unfolding decode_transport_kind_def encode_transport_kind_def decode_wire_format_kind_def encode_wire_format_kind_def
    decode_edition_def encode_edition_def decode_handshake_next_state_def encode_handshake_next_state_def
  by (cases t; cases w; cases e; cases n; auto intro!: writes_match_u8)+

lemma accepts_protocol_enums:
  "accepts (\<lambda>_. True) decode_transport_kind" "accepts (\<lambda>_. True) decode_wire_format_kind"
  "accepts (\<lambda>_. True) decode_edition" "accepts (\<lambda>_. True) decode_handshake_next_state"
  by (simp_all add: accepts_True)

lemmas writes_bind_protocol_enums [writes_intros] = writes_protocol_enums [THEN writes_bind]
  writes_opt [OF _ writes_entity_id, THEN writes_bind] writes_list [OF _ writes_string, THEN writes_bind]
lemmas accepts_bind_protocol_enums [accepts_intros] = accepts_protocol_enums [THEN accepts_bind]
  accepts_option [OF accepts_entity_id, THEN accepts_bind] accepts_list [OF accepts_string, THEN accepts_bind]

lemma writes_protocol_descriptor:
  "protocol_descriptor_ok v \<Longrightarrow> writes decode_protocol_descriptor (encode_protocol_descriptor v) v"
  unfolding decode_protocol_descriptor_def encode_protocol_descriptor_def protocol_descriptor_ok_def
  by (auto intro!: writes_intros)

lemma accepts_protocol_descriptor: "accepts protocol_descriptor_ok decode_protocol_descriptor"
  unfolding decode_protocol_descriptor_def by (auto intro!: accepts_intros simp: protocol_descriptor_ok_def)

lemma writes_bedrock_listener:
  "string_ok (bl_game_version v) \<Longrightarrow> writes decode_bedrock_listener_descriptor (encode_bedrock_listener_descriptor v) v"
  unfolding decode_bedrock_listener_descriptor_def encode_bedrock_listener_descriptor_def by (auto intro!: writes_intros)

lemma accepts_bedrock_listener: "accepts (\<lambda>v. string_ok (bl_game_version v)) decode_bedrock_listener_descriptor"
  unfolding decode_bedrock_listener_descriptor_def by (auto intro!: accepts_intros)

lemma writes_handshake_intent: "handshake_intent_ok v \<Longrightarrow> writes decode_handshake_intent (encode_handshake_intent v) v"
  unfolding decode_handshake_intent_def encode_handshake_intent_def handshake_intent_ok_def by (auto intro!: writes_intros)

lemma accepts_handshake_intent: "accepts handshake_intent_ok decode_handshake_intent"
  unfolding decode_handshake_intent_def by (auto intro!: accepts_intros simp: handshake_intent_ok_def)

lemma writes_status_request: "writes decode_status_request (encode_status_request v) v"
  unfolding decode_status_request_def encode_status_request_def by (cases v) (auto intro!: writes_intros)

lemma writes_login_request: "login_request_ok v \<Longrightarrow> writes decode_login_request (encode_login_request v) v"
  unfolding decode_login_request_def encode_login_request_def by (cases v) (auto intro!: writes_intros)

lemma accepts_login_request: "accepts login_request_ok decode_login_request"
  unfolding decode_login_request_def by (auto intro!: accepts_intros)

lemmas writes_bind_protocol_descriptor [writes_intros] = writes_protocol_descriptor [THEN writes_bind]
lemmas accepts_bind_protocol_descriptor [accepts_intros] = accepts_protocol_descriptor [THEN accepts_bind]

lemma writes_server_list_status: "server_list_status_ok v \<Longrightarrow> writes decode_server_list_status (encode_server_list_status v) v"
  unfolding decode_server_list_status_def encode_server_list_status_def server_list_status_ok_def
  by (auto intro!: writes_intros)

lemma accepts_server_list_status: "accepts server_list_status_ok decode_server_list_status"
  unfolding decode_server_list_status_def by (auto intro!: accepts_intros simp: server_list_status_ok_def)

lemma writes_play_context: "i32_ok (pe_entity_id v) \<Longrightarrow> writes decode_play_encoding_context (encode_play_encoding_context v) v"
  unfolding decode_play_encoding_context_def encode_play_encoding_context_def by (auto intro!: writes_intros)

lemma accepts_play_context: "accepts (\<lambda>v. i32_ok (pe_entity_id v)) decode_play_encoding_context"
  unfolding decode_play_encoding_context_def by (auto intro!: accepts_intros)

lemma writes_protocol_session:
  "protocol_session_ok v \<Longrightarrow> writes decode_protocol_session_snapshot (encode_protocol_session_snapshot v) v"
  unfolding decode_protocol_session_snapshot_def encode_protocol_session_snapshot_def protocol_session_ok_def
  by (auto intro!: writes_intros)

lemma accepts_protocol_session: "accepts protocol_session_ok decode_protocol_session_snapshot"
  unfolding decode_protocol_session_snapshot_def by (auto intro!: accepts_intros simp: protocol_session_ok_def)

lemma writes_wire_frame: "wire_frame_ok v \<Longrightarrow> writes decode_wire_frame_decode_result (encode_wire_frame_decode_result v) v"
  unfolding decode_wire_frame_decode_result_def encode_wire_frame_decode_result_def wire_frame_ok_def
  by (auto intro!: writes_intros)

lemma accepts_wire_frame: "accepts wire_frame_ok decode_wire_frame_decode_result"
  unfolding decode_wire_frame_decode_result_def by (auto intro!: accepts_intros simp: wire_frame_ok_def)

lemmas writes_bind_protocol [writes_intros] = writes_server_list_status [THEN writes_bind] writes_play_context [THEN writes_bind]
  writes_protocol_session [THEN writes_bind]
lemmas accepts_bind_protocol [accepts_intros] = accepts_server_list_status [THEN accepts_bind] accepts_play_context [THEN accepts_bind]
  accepts_protocol_session [THEN accepts_bind]

section \<open>Protocol requests and responses\<close>

datatype protocol_op_code =
    ProtocolOpDescribe
  | ProtocolOpDescribeBedrockListener
  | ProtocolOpCapabilitySet
  | ProtocolOpTryRoute
  | ProtocolOpDecodeStatus
  | ProtocolOpDecodeLogin
  | ProtocolOpEncodeStatusResponse
  | ProtocolOpEncodeStatusPong
  | ProtocolOpEncodeDisconnect
  | ProtocolOpEncodeEncryptionRequest
  | ProtocolOpEncodeNetworkSettings
  | ProtocolOpEncodeLoginSuccess
  | ProtocolOpDecodePlay
  | ProtocolOpEncodePlayEvent
  | ProtocolOpExportSessionState
  | ProtocolOpImportSessionState
  | ProtocolOpEncodeWireFrame
  | ProtocolOpTryDecodeWireFrame
  | ProtocolOpSessionClosed

fun protocol_op_u8 :: "protocol_op_code \<Rightarrow> u8" where
  "protocol_op_u8 ProtocolOpDescribe = 1"
| "protocol_op_u8 ProtocolOpDescribeBedrockListener = 2"
| "protocol_op_u8 ProtocolOpCapabilitySet = 3"
| "protocol_op_u8 ProtocolOpTryRoute = 4"
| "protocol_op_u8 ProtocolOpDecodeStatus = 5"
| "protocol_op_u8 ProtocolOpDecodeLogin = 6"
| "protocol_op_u8 ProtocolOpEncodeStatusResponse = 7"
| "protocol_op_u8 ProtocolOpEncodeStatusPong = 8"
| "protocol_op_u8 ProtocolOpEncodeDisconnect = 9"
| "protocol_op_u8 ProtocolOpEncodeEncryptionRequest = 10"
| "protocol_op_u8 ProtocolOpEncodeNetworkSettings = 11"
| "protocol_op_u8 ProtocolOpEncodeLoginSuccess = 12"
| "protocol_op_u8 ProtocolOpDecodePlay = 13"
| "protocol_op_u8 ProtocolOpEncodePlayEvent = 14"
| "protocol_op_u8 ProtocolOpExportSessionState = 15"
| "protocol_op_u8 ProtocolOpImportSessionState = 16"
| "protocol_op_u8 ProtocolOpEncodeWireFrame = 17"
| "protocol_op_u8 ProtocolOpTryDecodeWireFrame = 18"
| "protocol_op_u8 ProtocolOpSessionClosed = 19"

definition protocol_op_try_from :: "u8 \<Rightarrow> protocol_codec_error + protocol_op_code" where
  "protocol_op_try_from value =
     (case map_of
        [(1, ProtocolOpDescribe),
         (2, ProtocolOpDescribeBedrockListener),
         (3, ProtocolOpCapabilitySet),
         (4, ProtocolOpTryRoute),
         (5, ProtocolOpDecodeStatus),
         (6, ProtocolOpDecodeLogin),
         (7, ProtocolOpEncodeStatusResponse),
         (8, ProtocolOpEncodeStatusPong),
         (9, ProtocolOpEncodeDisconnect),
         (10, ProtocolOpEncodeEncryptionRequest),
         (11, ProtocolOpEncodeNetworkSettings),
         (12, ProtocolOpEncodeLoginSuccess),
         (13, ProtocolOpDecodePlay),
         (14, ProtocolOpEncodePlayEvent),
         (15, ProtocolOpExportSessionState),
         (16, ProtocolOpImportSessionState),
         (17, ProtocolOpEncodeWireFrame),
         (18, ProtocolOpTryDecodeWireFrame),
         (19, ProtocolOpSessionClosed)] value of
        Some op \<Rightarrow> Inr op
      | None \<Rightarrow> Inl (InvalidProtocolOpCode value))"

datatype protocol_request =
    ProtocolDescribe
  | DescribeBedrockListener
  | ProtocolCapabilitySet
  | TryRoute bytes
  | DecodeStatus bytes
  | DecodeLogin bytes
  | EncodeStatusResponse server_list_status
  | EncodeStatusPong i64
  | EncodeDisconnect connection_phase string
  | EncodeEncryptionRequest string bytes bytes
  | EncodeNetworkSettings u16
  | EncodeLoginSuccess player_snapshot
  | DecodePlay protocol_session_snapshot bytes
  | EncodePlayEvent protocol_session_snapshot core_event play_encoding_context
  | ProtocolSessionClosed protocol_session_snapshot
  | ProtocolExportSessionState protocol_session_snapshot
  | ProtocolImportSessionState protocol_session_snapshot bytes
  | EncodeWireFrame bytes
  | TryDecodeWireFrame bytes

fun protocol_request_op :: "protocol_request \<Rightarrow> protocol_op_code" where
  "protocol_request_op ProtocolDescribe = ProtocolOpDescribe"
| "protocol_request_op DescribeBedrockListener = ProtocolOpDescribeBedrockListener"
| "protocol_request_op ProtocolCapabilitySet = ProtocolOpCapabilitySet"
| "protocol_request_op (TryRoute _) = ProtocolOpTryRoute"
| "protocol_request_op (DecodeStatus _) = ProtocolOpDecodeStatus"
| "protocol_request_op (DecodeLogin _) = ProtocolOpDecodeLogin"
| "protocol_request_op (EncodeStatusResponse _) = ProtocolOpEncodeStatusResponse"
| "protocol_request_op (EncodeStatusPong _) = ProtocolOpEncodeStatusPong"
| "protocol_request_op (EncodeDisconnect _ _) = ProtocolOpEncodeDisconnect"
| "protocol_request_op (EncodeEncryptionRequest _ _ _) = ProtocolOpEncodeEncryptionRequest"
| "protocol_request_op (EncodeNetworkSettings _) = ProtocolOpEncodeNetworkSettings"
| "protocol_request_op (EncodeLoginSuccess _) = ProtocolOpEncodeLoginSuccess"
| "protocol_request_op (DecodePlay _ _) = ProtocolOpDecodePlay"
| "protocol_request_op (EncodePlayEvent _ _ _) = ProtocolOpEncodePlayEvent"
| "protocol_request_op (ProtocolSessionClosed _) = ProtocolOpSessionClosed"
| "protocol_request_op (ProtocolExportSessionState _) = ProtocolOpExportSessionState"
| "protocol_request_op (ProtocolImportSessionState _ _) = ProtocolOpImportSessionState"
| "protocol_request_op (EncodeWireFrame _) = ProtocolOpEncodeWireFrame"
| "protocol_request_op (TryDecodeWireFrame _) = ProtocolOpTryDecodeWireFrame"

datatype protocol_response =
    ProtocolDescriptorResponse protocol_descriptor
  | BedrockListener "bedrock_listener_descriptor option"
  | ProtocolCapabilities "protocol_capability capability_announcement"
  | HandshakeIntentResponse "handshake_intent option"
  | StatusRequestResponse status_request
  | LoginRequestResponse login_request
  | Frame bytes
  | Frames "bytes list"
  | RuntimeCommandResponse "runtime_command option"
  | ProtocolSessionTransferBlob bytes
  | WireFrameDecodeResult "wire_frame_decode_result option"
  | ProtocolEmpty

subsection \<open>Payloads\<close>

definition encode_protocol_request_payload :: "protocol_request \<Rightarrow> enc" where
  "encode_protocol_request_payload request =
     (case request of
        ProtocolDescribe \<Rightarrow> wseq []
      | DescribeBedrockListener \<Rightarrow> wseq []
      | ProtocolCapabilitySet \<Rightarrow> wseq []
      | TryRoute frame \<Rightarrow> wseq [write_bytes frame]
      | DecodeStatus frame \<Rightarrow> wseq [write_bytes frame]
      | DecodeLogin frame \<Rightarrow> wseq [write_bytes frame]
      | EncodeStatusResponse status \<Rightarrow> wseq [encode_server_list_status status]
      | EncodeStatusPong payload \<Rightarrow> wseq [write_u64 payload]
      | EncodeDisconnect phase reason \<Rightarrow> wseq [encode_connection_phase phase, write_string reason]
      | EncodeEncryptionRequest server_id public_key_der verify_token \<Rightarrow> wseq [write_string server_id, write_bytes public_key_der, write_bytes verify_token]
      | EncodeNetworkSettings compression_threshold \<Rightarrow> wseq [write_u16 compression_threshold]
      | EncodeLoginSuccess player \<Rightarrow> wseq [encode_player_snapshot player]
      | DecodePlay session frame \<Rightarrow> wseq [encode_protocol_session_snapshot session, write_bytes frame]
      | EncodePlayEvent session event context \<Rightarrow> wseq [encode_protocol_session_snapshot session, encode_core_event event, encode_play_encoding_context context]
      | ProtocolSessionClosed session \<Rightarrow> wseq [encode_protocol_session_snapshot session]
      | ProtocolExportSessionState session \<Rightarrow> wseq [encode_protocol_session_snapshot session]
      | ProtocolImportSessionState session blob \<Rightarrow> wseq [encode_protocol_session_snapshot session, write_bytes blob]
      | EncodeWireFrame payload \<Rightarrow> wseq [write_bytes payload]
      | TryDecodeWireFrame buffer \<Rightarrow> wseq [write_bytes buffer])"

fun decode_protocol_request_payload :: "protocol_op_code \<Rightarrow> protocol_request dec" where
  "decode_protocol_request_payload ProtocolOpDescribe =
     sret ProtocolDescribe"
| "decode_protocol_request_payload ProtocolOpDescribeBedrockListener =
     sret DescribeBedrockListener"
| "decode_protocol_request_payload ProtocolOpCapabilitySet =
     sret ProtocolCapabilitySet"
| "decode_protocol_request_payload ProtocolOpTryRoute =
     sbind read_bytes (\<lambda>frame. sret (TryRoute frame))"
| "decode_protocol_request_payload ProtocolOpDecodeStatus =
     sbind read_bytes (\<lambda>frame. sret (DecodeStatus frame))"
| "decode_protocol_request_payload ProtocolOpDecodeLogin =
     sbind read_bytes (\<lambda>frame. sret (DecodeLogin frame))"
| "decode_protocol_request_payload ProtocolOpEncodeStatusResponse =
     sbind decode_server_list_status (\<lambda>status. sret (EncodeStatusResponse status))"
| "decode_protocol_request_payload ProtocolOpEncodeStatusPong =
     sbind read_u64 (\<lambda>payload. sret (EncodeStatusPong payload))"
| "decode_protocol_request_payload ProtocolOpEncodeDisconnect =
     sbind decode_connection_phase (\<lambda>phase. sbind read_string (\<lambda>reason. sret (EncodeDisconnect phase reason)))"
| "decode_protocol_request_payload ProtocolOpEncodeEncryptionRequest =
     sbind read_string (\<lambda>server_id. sbind read_bytes (\<lambda>public_key_der. sbind read_bytes (\<lambda>verify_token. sret (EncodeEncryptionRequest server_id public_key_der verify_token))))"
| "decode_protocol_request_payload ProtocolOpEncodeNetworkSettings =
     sbind read_u16 (\<lambda>compression_threshold. sret (EncodeNetworkSettings compression_threshold))"
| "decode_protocol_request_payload ProtocolOpEncodeLoginSuccess =
     sbind decode_player_snapshot (\<lambda>player. sret (EncodeLoginSuccess player))"
| "decode_protocol_request_payload ProtocolOpDecodePlay =
     sbind decode_protocol_session_snapshot (\<lambda>session. sbind read_bytes (\<lambda>frame. sret (DecodePlay session frame)))"
| "decode_protocol_request_payload ProtocolOpEncodePlayEvent =
     sbind decode_protocol_session_snapshot (\<lambda>session. sbind decode_core_event (\<lambda>event. sbind decode_play_encoding_context (\<lambda>context. sret (EncodePlayEvent session event context))))"
| "decode_protocol_request_payload ProtocolOpSessionClosed =
     sbind decode_protocol_session_snapshot (\<lambda>session. sret (ProtocolSessionClosed session))"
| "decode_protocol_request_payload ProtocolOpExportSessionState =
     sbind decode_protocol_session_snapshot (\<lambda>session. sret (ProtocolExportSessionState session))"
| "decode_protocol_request_payload ProtocolOpImportSessionState =
     sbind decode_protocol_session_snapshot (\<lambda>session. sbind read_bytes (\<lambda>blob. sret (ProtocolImportSessionState session blob)))"
| "decode_protocol_request_payload ProtocolOpEncodeWireFrame =
     sbind read_bytes (\<lambda>payload. sret (EncodeWireFrame payload))"
| "decode_protocol_request_payload ProtocolOpTryDecodeWireFrame =
     sbind read_bytes (\<lambda>buffer. sret (TryDecodeWireFrame buffer))"

definition encode_protocol_response_payload :: "protocol_op_code \<Rightarrow> protocol_response \<Rightarrow> enc" where
  "encode_protocol_response_payload op_code response =
     (let mismatch = Inl (InvalidValue ''protocol response did not match opcode'') in
      case response of
        ProtocolDescriptorResponse descriptor \<Rightarrow>
          if op_code = ProtocolOpDescribe then encode_protocol_descriptor descriptor else mismatch
      | BedrockListener descriptor \<Rightarrow>
          if op_code = ProtocolOpDescribeBedrockListener
          then encode_option encode_bedrock_listener_descriptor descriptor else mismatch
      | ProtocolCapabilities capabilities \<Rightarrow>
          if op_code = ProtocolOpCapabilitySet then encode_capability_announcement ProtocolCapability capabilities else mismatch
      | HandshakeIntentResponse intent \<Rightarrow>
          if op_code = ProtocolOpTryRoute then encode_option encode_handshake_intent intent else mismatch
      | StatusRequestResponse request \<Rightarrow>
          if op_code = ProtocolOpDecodeStatus then encode_status_request request else mismatch
      | LoginRequestResponse request \<Rightarrow>
          if op_code = ProtocolOpDecodeLogin then encode_login_request request else mismatch
      | Frame frame \<Rightarrow>
          if op_code \<in> {ProtocolOpEncodeStatusResponse, ProtocolOpEncodeStatusPong, ProtocolOpEncodeDisconnect,
               ProtocolOpEncodeEncryptionRequest, ProtocolOpEncodeNetworkSettings, ProtocolOpEncodeLoginSuccess,
               ProtocolOpEncodeWireFrame}
          then write_bytes frame else mismatch
      | RuntimeCommandResponse command \<Rightarrow>
          if op_code = ProtocolOpDecodePlay then encode_option encode_runtime_command command else mismatch
      | Frames frames \<Rightarrow>
          if op_code = ProtocolOpEncodePlayEvent then encode_list write_bytes frames else mismatch
      | ProtocolSessionTransferBlob blob \<Rightarrow>
          if op_code = ProtocolOpExportSessionState then write_bytes blob else mismatch
      | WireFrameDecodeResult result \<Rightarrow>
          if op_code = ProtocolOpTryDecodeWireFrame then encode_option encode_wire_frame_decode_result result else mismatch
      | ProtocolEmpty \<Rightarrow>
          if op_code \<in> {ProtocolOpImportSessionState, ProtocolOpSessionClosed} then wseq [] else mismatch)"

fun decode_protocol_response_payload :: "protocol_op_code \<Rightarrow> protocol_response dec" where
  "decode_protocol_response_payload ProtocolOpDescribe =
     sbind decode_protocol_descriptor (\<lambda>descriptor. sret (ProtocolDescriptorResponse descriptor))"
| "decode_protocol_response_payload ProtocolOpDescribeBedrockListener =
     sbind (decode_option decode_bedrock_listener_descriptor) (\<lambda>descriptor. sret (BedrockListener descriptor))"
| "decode_protocol_response_payload ProtocolOpCapabilitySet =
     sbind (decode_capability_announcement ProtocolCapability) (\<lambda>capabilities. sret (ProtocolCapabilities capabilities))"
| "decode_protocol_response_payload ProtocolOpTryRoute =
     sbind (decode_option decode_handshake_intent) (\<lambda>intent. sret (HandshakeIntentResponse intent))"
| "decode_protocol_response_payload ProtocolOpDecodeStatus =
     sbind decode_status_request (\<lambda>request. sret (StatusRequestResponse request))"
| "decode_protocol_response_payload ProtocolOpDecodeLogin =
     sbind decode_login_request (\<lambda>request. sret (LoginRequestResponse request))"
| "decode_protocol_response_payload ProtocolOpDecodePlay =
     sbind (decode_option decode_runtime_command) (\<lambda>command. sret (RuntimeCommandResponse command))"
| "decode_protocol_response_payload ProtocolOpEncodePlayEvent =
     sbind (decode_list read_bytes) (\<lambda>frames. sret (Frames frames))"
| "decode_protocol_response_payload ProtocolOpExportSessionState =
     sbind read_bytes (\<lambda>blob. sret (ProtocolSessionTransferBlob blob))"
| "decode_protocol_response_payload ProtocolOpTryDecodeWireFrame =
     sbind (decode_option decode_wire_frame_decode_result) (\<lambda>result. sret (WireFrameDecodeResult result))"
| "decode_protocol_response_payload ProtocolOpImportSessionState = sret ProtocolEmpty"
| "decode_protocol_response_payload ProtocolOpSessionClosed = sret ProtocolEmpty"
| "decode_protocol_response_payload _ = sbind read_bytes (\<lambda>frame. sret (Frame frame))"

subsection \<open>Messages\<close>

definition encode_protocol_request :: "protocol_request \<Rightarrow> enc" where
  "encode_protocol_request request =
     seal_message ProtocolPlugin (protocol_op_u8 (protocol_request_op request)) 0 (encode_protocol_request_payload request)"

definition decode_protocol_request :: "bytes \<Rightarrow> protocol_codec_error + protocol_request" where
  "decode_protocol_request bs =
     open_request ProtocolPlugin ''protocol'' protocol_op_try_from decode_protocol_request_payload bs"

definition encode_protocol_response :: "protocol_request \<Rightarrow> protocol_response \<Rightarrow> enc" where
  "encode_protocol_response request response =
     seal_message ProtocolPlugin (protocol_op_u8 (protocol_request_op request)) PROTOCOL_FLAG_RESPONSE
       (encode_protocol_response_payload (protocol_request_op request) response)"

text \<open>This channel compares the raw operation codes before it interprets them.\<close>

definition decode_protocol_response :: "protocol_request \<Rightarrow> bytes \<Rightarrow> protocol_codec_error + protocol_response" where
  "decode_protocol_response request bs =
     bind_res (decode_envelope bs) (\<lambda>(header, payload).
       if eh_plugin_kind header \<noteq> ProtocolPlugin
       then Inl (InvalidEnvelope ''protocol response had wrong plugin kind'')
       else if eh_flags header AND PROTOCOL_FLAG_RESPONSE = 0
       then Inl (InvalidEnvelope ''protocol response was missing response flag'')
       else if eh_op_code header \<noteq> protocol_op_u8 (protocol_request_op request)
       then Inl (InvalidEnvelope ''protocol response opcode did not match request'')
       else bind_res (protocol_op_try_from (eh_op_code header)) (\<lambda>op_code.
         decode_all (decode_protocol_response_payload op_code) payload))"

fun protocol_request_ok :: "protocol_request \<Rightarrow> bool" where
  "protocol_request_ok (TryRoute frame) = len_ok (length frame)"
| "protocol_request_ok (DecodeStatus frame) = len_ok (length frame)"
| "protocol_request_ok (DecodeLogin frame) = len_ok (length frame)"
| "protocol_request_ok (EncodeStatusResponse status) = server_list_status_ok status"
| "protocol_request_ok (EncodeDisconnect phase reason) = string_ok reason"
| "protocol_request_ok (EncodeEncryptionRequest server_id public_key_der verify_token) = (string_ok server_id \<and> len_ok (length public_key_der) \<and> len_ok (length verify_token))"
| "protocol_request_ok (EncodeLoginSuccess player) = player_snapshot_ok player"
| "protocol_request_ok (DecodePlay session frame) = (protocol_session_ok session \<and> len_ok (length frame))"
| "protocol_request_ok (EncodePlayEvent session event context) = (protocol_session_ok session \<and> core_event_ok event \<and> i32_ok (pe_entity_id context))"
| "protocol_request_ok (ProtocolSessionClosed session) = protocol_session_ok session"
| "protocol_request_ok (ProtocolExportSessionState session) = protocol_session_ok session"
| "protocol_request_ok (ProtocolImportSessionState session blob) = (protocol_session_ok session \<and> len_ok (length blob))"
| "protocol_request_ok (EncodeWireFrame payload) = len_ok (length payload)"
| "protocol_request_ok (TryDecodeWireFrame buffer) = len_ok (length buffer)"
| "protocol_request_ok _ = True"

fun protocol_response_ok :: "protocol_op_code \<Rightarrow> protocol_response \<Rightarrow> bool" where
  "protocol_response_ok op (ProtocolDescriptorResponse descriptor) = (op = ProtocolOpDescribe \<and> protocol_descriptor_ok descriptor)"
| "protocol_response_ok op (BedrockListener descriptor) =
     (op = ProtocolOpDescribeBedrockListener \<and> pred_option (\<lambda>d. string_ok (bl_game_version d)) descriptor)"
| "protocol_response_ok op (ProtocolCapabilities capabilities) = (op = ProtocolOpCapabilitySet \<and> announcement_ok capabilities)"
| "protocol_response_ok op (HandshakeIntentResponse intent) = (op = ProtocolOpTryRoute \<and> pred_option handshake_intent_ok intent)"
| "protocol_response_ok op (StatusRequestResponse request) = (op = ProtocolOpDecodeStatus)"
| "protocol_response_ok op (LoginRequestResponse request) = (op = ProtocolOpDecodeLogin \<and> login_request_ok request)"
| "protocol_response_ok op (Frame frame) =
     (op \<in> {ProtocolOpEncodeStatusResponse, ProtocolOpEncodeStatusPong, ProtocolOpEncodeDisconnect,
        ProtocolOpEncodeEncryptionRequest, ProtocolOpEncodeNetworkSettings, ProtocolOpEncodeLoginSuccess,
        ProtocolOpEncodeWireFrame} \<and> len_ok (length frame))"
| "protocol_response_ok op (Frames frames) =
     (op = ProtocolOpEncodePlayEvent \<and> list_ok (\<lambda>frame. len_ok (length frame)) frames)"
| "protocol_response_ok op (RuntimeCommandResponse command) = (op = ProtocolOpDecodePlay \<and> pred_option runtime_command_ok command)"
| "protocol_response_ok op (ProtocolSessionTransferBlob blob) = (op = ProtocolOpExportSessionState \<and> len_ok (length blob))"
| "protocol_response_ok op (WireFrameDecodeResult result) = (op = ProtocolOpTryDecodeWireFrame \<and> pred_option wire_frame_ok result)"
| "protocol_response_ok op ProtocolEmpty = (op \<in> {ProtocolOpImportSessionState, ProtocolOpSessionClosed})"

lemma writes_protocol_response:
  "protocol_response_ok op v \<Longrightarrow> writes (decode_protocol_response_payload op) (encode_protocol_response_payload op v) v"
  unfolding encode_protocol_response_payload_def Let_def
  by (cases v)
    (auto intro!: writes_sret writes_tail [OF writes_bytes] writes_tail [OF writes_protocol_descriptor]
      writes_tail [OF writes_opt [OF _ writes_bedrock_listener]] writes_tail [OF pc.writes_announcement]
      writes_tail [OF writes_opt [OF _ writes_handshake_intent]] writes_tail [OF writes_status_request]
      writes_tail [OF writes_login_request] writes_tail [OF writes_opt [OF _ writes_runtime_command]]
      writes_tail [OF writes_list [OF _ writes_bytes]] writes_tail [OF writes_opt [OF _ writes_wire_frame]])

lemma accepts_protocol_response: "accepts (protocol_response_ok op) (decode_protocol_response_payload op)"
  by (cases op)
    (auto intro!: accepts_intros accepts_protocol_descriptor [THEN accepts_bind] pc.accepts_announcement [THEN accepts_bind]
      accepts_option [OF accepts_bedrock_listener, THEN accepts_bind] accepts_option [OF accepts_handshake_intent, THEN accepts_bind]
      accepts_bind [OF accepts_True [of decode_status_request]] accepts_login_request [THEN accepts_bind]
      accepts_option [OF accepts_runtime_command, THEN accepts_bind] accepts_list [OF accepts_bytes, THEN accepts_bind]
      accepts_option [OF accepts_wire_frame, THEN accepts_bind])

lemma protocol_op_roundtrip: "protocol_op_try_from (protocol_op_u8 op) = Inr op"
  by (cases op) (simp_all add: protocol_op_try_from_def)

interpretation pr: plugin_channel ProtocolPlugin "''protocol''" protocol_op_u8 protocol_op_try_from protocol_request_op
  encode_protocol_request_payload decode_protocol_request_payload encode_protocol_response_payload
  decode_protocol_response_payload protocol_request_ok protocol_response_ok
proof
  show "writes (decode_protocol_request_payload (protocol_request_op req)) (encode_protocol_request_payload req) req"
    if "protocol_request_ok req" for req
    using that unfolding encode_protocol_request_payload_def by (cases req) (auto intro!: writes_intros)
  show "accepts (\<lambda>req. protocol_request_ok req \<and> protocol_request_op req = op) (decode_protocol_request_payload op)" for op
    by (cases op) (auto intro!: accepts_intros)
qed (auto intro: protocol_op_roundtrip writes_protocol_response accepts_protocol_response)

text \<open>Comparing the raw codes accepts the same responses as comparing the operations.\<close>

lemma protocol_op_code_of: "protocol_op_try_from b = Inr op \<Longrightarrow> protocol_op_u8 op = b"
  by (auto simp: protocol_op_try_from_def split: if_splits option.split_asm)

lemma decode_protocol_response_open:
  "decode_protocol_response request bs = Inr response \<longleftrightarrow>
   open_response ProtocolPlugin ''protocol'' protocol_op_try_from decode_protocol_response_payload
     (protocol_request_op request) bs = Inr response"
  unfolding decode_protocol_response_def open_response_def
  by (cases "decode_envelope bs")
    (auto simp: bind_res_eq_Inr protocol_op_roundtrip dest: protocol_op_code_of [symmetric] split: if_splits)

section \<open>Authentication requests and responses\<close>

datatype auth_op_code =
    AuthOpDescribe
  | AuthOpCapabilitySet
  | OpAuthenticateOffline
  | OpAuthenticateOnline
  | OpAuthenticateBedrockOffline
  | OpAuthenticateBedrockXbl

fun auth_op_u8 :: "auth_op_code \<Rightarrow> u8" where
  "auth_op_u8 AuthOpDescribe = 1"
| "auth_op_u8 AuthOpCapabilitySet = 2"
| "auth_op_u8 OpAuthenticateOffline = 3"
| "auth_op_u8 OpAuthenticateOnline = 4"
| "auth_op_u8 OpAuthenticateBedrockOffline = 5"
| "auth_op_u8 OpAuthenticateBedrockXbl = 6"

definition auth_op_try_from :: "u8 \<Rightarrow> protocol_codec_error + auth_op_code" where
  "auth_op_try_from value =
     (case map_of
        [(1, AuthOpDescribe), (2, AuthOpCapabilitySet), (3, OpAuthenticateOffline), (4, OpAuthenticateOnline),
         (5, OpAuthenticateBedrockOffline), (6, OpAuthenticateBedrockXbl)] value of
        Some op \<Rightarrow> Inr op
      | None \<Rightarrow> Inl (InvalidValue ''invalid auth op code''))"

datatype auth_mode = AuthOffline | AuthOnline | AuthBedrockOffline | AuthBedrockXbl

record auth_descriptor =
  ad_auth_profile :: string
  ad_mode :: auth_mode

record bedrock_auth_result =
  ba_player_id :: player_id
  ba_display_name :: string
  ba_xuid :: "string option"
  ba_identity_uuid :: "string option"
  ba_skin_claims_blob :: bytes

datatype auth_request =
    AuthDescribe
  | AuthCapabilitySet
  | AuthenticateOffline string
  | AuthenticateOnline string string
  | AuthenticateBedrockOffline string
  | AuthenticateBedrockXbl "string list" string

fun auth_request_op :: "auth_request \<Rightarrow> auth_op_code" where
  "auth_request_op AuthDescribe = AuthOpDescribe"
| "auth_request_op AuthCapabilitySet = AuthOpCapabilitySet"
| "auth_request_op (AuthenticateOffline _) = OpAuthenticateOffline"
| "auth_request_op (AuthenticateOnline _ _) = OpAuthenticateOnline"
| "auth_request_op (AuthenticateBedrockOffline _) = OpAuthenticateBedrockOffline"
| "auth_request_op (AuthenticateBedrockXbl _ _) = OpAuthenticateBedrockXbl"

datatype auth_response =
    AuthDescriptorResponse auth_descriptor
  | AuthCapabilities "auth_capability capability_announcement"
  | AuthenticatedPlayer player_id
  | AuthenticatedBedrockPlayer bedrock_auth_result

definition encode_auth_request_payload :: "auth_request \<Rightarrow> enc" where
  "encode_auth_request_payload request =
     (case request of
        AuthDescribe \<Rightarrow> wseq []
      | AuthCapabilitySet \<Rightarrow> wseq []
      | AuthenticateOffline username \<Rightarrow> wseq [write_string username]
      | AuthenticateOnline username server_hash \<Rightarrow> wseq [write_string username, write_string server_hash]
      | AuthenticateBedrockOffline display_name \<Rightarrow> wseq [write_string display_name]
      | AuthenticateBedrockXbl chain_jwts client_data_jwt \<Rightarrow>
          wseq [encode_list write_string chain_jwts, write_string client_data_jwt])"

fun decode_auth_request_payload :: "auth_op_code \<Rightarrow> auth_request dec" where
  "decode_auth_request_payload AuthOpDescribe = sret AuthDescribe"
| "decode_auth_request_payload AuthOpCapabilitySet = sret AuthCapabilitySet"
| "decode_auth_request_payload OpAuthenticateOffline = sbind read_string (\<lambda>username. sret (AuthenticateOffline username))"
| "decode_auth_request_payload OpAuthenticateOnline =
     sbind read_string (\<lambda>username. sbind read_string (\<lambda>server_hash. sret (AuthenticateOnline username server_hash)))"
| "decode_auth_request_payload OpAuthenticateBedrockOffline =
     sbind read_string (\<lambda>display_name. sret (AuthenticateBedrockOffline display_name))"
| "decode_auth_request_payload OpAuthenticateBedrockXbl =
     sbind (decode_list read_string) (\<lambda>chain_jwts. sbind read_string (\<lambda>client_data_jwt.
       sret (AuthenticateBedrockXbl chain_jwts client_data_jwt)))"

definition encode_auth_mode :: "auth_mode \<Rightarrow> enc" where
  "encode_auth_mode mode = write_u8
     (case mode of AuthOffline \<Rightarrow> 1 | AuthOnline \<Rightarrow> 2 | AuthBedrockOffline \<Rightarrow> 3 | AuthBedrockXbl \<Rightarrow> 4)"

definition decode_auth_mode :: "auth_mode dec" where
  "decode_auth_mode = match_u8
     [(1, sret AuthOffline), (2, sret AuthOnline), (3, sret AuthBedrockOffline), (4, sret AuthBedrockXbl)] ''invalid auth mode''"

definition encode_optional_string :: "string option \<Rightarrow> enc" where
  "encode_optional_string value = encode_option write_string value"

definition decode_optional_string :: "string option dec" where
  "decode_optional_string = decode_option read_string"

definition encode_bedrock_auth_result :: "bedrock_auth_result \<Rightarrow> enc" where
  "encode_bedrock_auth_result result = wseq
     [encode_player_id (ba_player_id result), write_string (ba_display_name result), encode_optional_string (ba_xuid result),
      encode_optional_string (ba_identity_uuid result), write_bytes (ba_skin_claims_blob result)]"

definition decode_bedrock_auth_result :: "bedrock_auth_result dec" where
  "decode_bedrock_auth_result =
     sbind decode_player_id (\<lambda>p. sbind read_string (\<lambda>display_name. sbind decode_optional_string (\<lambda>xuid.
     sbind decode_optional_string (\<lambda>identity_uuid. sbind read_bytes (\<lambda>skin_claims_blob.
       sret \<lparr>ba_player_id = p, ba_display_name = display_name, ba_xuid = xuid, ba_identity_uuid = identity_uuid,
             ba_skin_claims_blob = skin_claims_blob\<rparr>)))))"

definition encode_auth_response_payload :: "auth_op_code \<Rightarrow> auth_response \<Rightarrow> enc" where
  "encode_auth_response_payload op_code response =
     (let mismatch = Inl (InvalidValue ''auth response did not match opcode'') in
      case response of
        AuthDescriptorResponse descriptor \<Rightarrow>
          if op_code = AuthOpDescribe
          then wseq [write_string (ad_auth_profile descriptor), encode_auth_mode (ad_mode descriptor)] else mismatch
      | AuthCapabilities capabilities \<Rightarrow>
          if op_code = AuthOpCapabilitySet then encode_capability_announcement AuthCapability capabilities else mismatch
      | AuthenticatedPlayer p \<Rightarrow>
          if op_code \<in> {OpAuthenticateOffline, OpAuthenticateOnline} then encode_player_id p else mismatch
      | AuthenticatedBedrockPlayer result \<Rightarrow>
          if op_code \<in> {OpAuthenticateBedrockOffline, OpAuthenticateBedrockXbl} then encode_bedrock_auth_result result
          else mismatch)"

fun decode_auth_response_payload :: "auth_op_code \<Rightarrow> auth_response dec" where
  "decode_auth_response_payload AuthOpDescribe =
     sbind read_string (\<lambda>auth_profile. sbind decode_auth_mode (\<lambda>mode.
       sret (AuthDescriptorResponse \<lparr>ad_auth_profile = auth_profile, ad_mode = mode\<rparr>)))"
| "decode_auth_response_payload AuthOpCapabilitySet =
     sbind (decode_capability_announcement AuthCapability) (\<lambda>capabilities. sret (AuthCapabilities capabilities))"
| "decode_auth_response_payload OpAuthenticateOffline = sbind decode_player_id (\<lambda>p. sret (AuthenticatedPlayer p))"
| "decode_auth_response_payload OpAuthenticateOnline = sbind decode_player_id (\<lambda>p. sret (AuthenticatedPlayer p))"
| "decode_auth_response_payload OpAuthenticateBedrockOffline =
     sbind decode_bedrock_auth_result (\<lambda>result. sret (AuthenticatedBedrockPlayer result))"
| "decode_auth_response_payload OpAuthenticateBedrockXbl =
     sbind decode_bedrock_auth_result (\<lambda>result. sret (AuthenticatedBedrockPlayer result))"

definition encode_auth_request :: "auth_request \<Rightarrow> enc" where
  "encode_auth_request request =
     seal_message AuthPlugin (auth_op_u8 (auth_request_op request)) 0 (encode_auth_request_payload request)"

definition decode_auth_request :: "bytes \<Rightarrow> protocol_codec_error + auth_request" where
  "decode_auth_request bs = open_request AuthPlugin ''auth'' auth_op_try_from decode_auth_request_payload bs"

definition encode_auth_response :: "auth_request \<Rightarrow> auth_response \<Rightarrow> enc" where
  "encode_auth_response request response =
     seal_message AuthPlugin (auth_op_u8 (auth_request_op request)) PROTOCOL_FLAG_RESPONSE
       (encode_auth_response_payload (auth_request_op request) response)"

definition decode_auth_response :: "auth_request \<Rightarrow> bytes \<Rightarrow> protocol_codec_error + auth_response" where
  "decode_auth_response request bs =
     open_response AuthPlugin ''auth'' auth_op_try_from decode_auth_response_payload (auth_request_op request) bs"

fun auth_request_ok :: "auth_request \<Rightarrow> bool" where
  "auth_request_ok (AuthenticateOffline username) = string_ok username"
| "auth_request_ok (AuthenticateOnline username server_hash) = (string_ok username \<and> string_ok server_hash)"
| "auth_request_ok (AuthenticateBedrockOffline display_name) = string_ok display_name"
| "auth_request_ok (AuthenticateBedrockXbl chain_jwts client_data_jwt) =
     (list_ok string_ok chain_jwts \<and> string_ok client_data_jwt)"
| "auth_request_ok _ = True"

definition bedrock_auth_ok :: "bedrock_auth_result \<Rightarrow> bool" where
  "bedrock_auth_ok result \<longleftrightarrow> string_ok (ba_display_name result) \<and> pred_option string_ok (ba_xuid result) \<and>
     pred_option string_ok (ba_identity_uuid result) \<and> len_ok (length (ba_skin_claims_blob result))"

fun auth_response_ok :: "auth_op_code \<Rightarrow> auth_response \<Rightarrow> bool" where
  "auth_response_ok op (AuthDescriptorResponse descriptor) = (op = AuthOpDescribe \<and> string_ok (ad_auth_profile descriptor))"
| "auth_response_ok op (AuthCapabilities capabilities) = (op = AuthOpCapabilitySet \<and> announcement_ok capabilities)"
| "auth_response_ok op (AuthenticatedPlayer p) = (op \<in> {OpAuthenticateOffline, OpAuthenticateOnline})"
| "auth_response_ok op (AuthenticatedBedrockPlayer result) =
     (op \<in> {OpAuthenticateBedrockOffline, OpAuthenticateBedrockXbl} \<and> bedrock_auth_ok result)"

lemma writes_auth_mode: "writes decode_auth_mode (encode_auth_mode v) v"
  unfolding decode_auth_mode_def encode_auth_mode_def by (cases v) (auto intro!: writes_match_u8)

lemma writes_optional_string: "pred_option string_ok v \<Longrightarrow> writes decode_optional_string (encode_optional_string v) v"
  unfolding decode_optional_string_def encode_optional_string_def by (erule writes_opt) (rule writes_string)

lemma accepts_optional_string: "accepts (pred_option string_ok) decode_optional_string"
  unfolding decode_optional_string_def by (rule accepts_option [OF accepts_string])

lemma writes_bedrock_auth: "bedrock_auth_ok v \<Longrightarrow> writes decode_bedrock_auth_result (encode_bedrock_auth_result v) v"
  unfolding decode_bedrock_auth_result_def encode_bedrock_auth_result_def bedrock_auth_ok_def
  by (auto intro!: writes_intros writes_optional_string [THEN writes_bind])

lemma accepts_bedrock_auth: "accepts bedrock_auth_ok decode_bedrock_auth_result"
  unfolding decode_bedrock_auth_result_def
  by (auto intro!: accepts_intros accepts_optional_string [THEN accepts_bind] simp: bedrock_auth_ok_def)

lemma writes_auth_response:
  "auth_response_ok op v \<Longrightarrow> writes (decode_auth_response_payload op) (encode_auth_response_payload op v) v"
  unfolding encode_auth_response_payload_def Let_def
  by (cases v; cases op)
    (auto intro!: writes_intros writes_auth_mode [THEN writes_bind] writes_tail [OF ac.writes_announcement]
      writes_tail [OF writes_player_id] writes_tail [OF writes_bedrock_auth])

interpretation au: plugin_channel AuthPlugin "''auth''" auth_op_u8 auth_op_try_from auth_request_op
  encode_auth_request_payload decode_auth_request_payload encode_auth_response_payload
  decode_auth_response_payload auth_request_ok auth_response_ok
proof
  show "auth_op_try_from (auth_op_u8 op) = Inr op" for op
    by (cases op) (simp_all add: auth_op_try_from_def)
  show "writes (decode_auth_request_payload (auth_request_op req)) (encode_auth_request_payload req) req"
    if "auth_request_ok req" for req
    using that unfolding encode_auth_request_payload_def by (cases req) (auto intro!: writes_intros)
  show "accepts (\<lambda>req. auth_request_ok req \<and> auth_request_op req = op) (decode_auth_request_payload op)" for op
    by (cases op) (auto intro!: accepts_intros)
  show "accepts (auth_response_ok op) (decode_auth_response_payload op)" for op
    by (cases op)
      (auto intro!: accepts_intros ac.accepts_announcement [THEN accepts_bind] accepts_bedrock_auth [THEN accepts_bind]
        accepts_bind [OF accepts_True [of decode_auth_mode]])
qed (rule writes_auth_response)

end
