(* ===== verification/Contract_Laws.thy ===== *)
theory Contract_Laws
  imports Contract_Gameplay Contract_Protocol
begin

text \<open>
  What the plugin contract guarantees: calls and answers cross the boundary unchanged on every channel, and
  whatever a side accepts from the other is a well-formed value that it can send on.
\<close>

section \<open>Sample calls\<close>

definition sample_session :: gameplay_session_snapshot where
  "sample_session = \<lparr>gs_phase = PlayPhase, gs_player_id = Some 42, gs_entity_id = Some (- 7),
     gs_protocol = {Je, ProtocolRuntimeReload}, gs_gameplay_profile = ''canonical'', gs_protocol_generation = Some 3,
     gs_gameplay_generation = None\<rparr>"

definition sample_stack :: item_stack where
  "sample_stack = (item_stack_new ''minecraft:stone'' 12 0)\<lparr>
     is_extra := [(''depth'', ListV [CompoundV [(''x'', IntV 5)], StringV ''y''])]\<rparr>"

definition sample_call :: gameplay_request where
  "sample_call = HandleCommand sample_session (CreativeInventorySet 42 (Hotbar 1) (Some sample_stack)) 1000"

definition sample_answer :: gameplay_response where
  "sample_answer = EffectBatch \<lparr>eb_now_ms = 1000,
     eb_reads = \<lparr>sr_world_meta = None, sr_player_snapshots = [], sr_block_states = [(block_pos_new 1 (- 2) 3, None)],
       sr_block_entities = [], sr_can_edit_block = []\<rparr>,
     eb_effects = [EffectSetInventorySlot 42 (Hotbar 1) (Some sample_stack)]\<rparr>"

lemmas sample_defs = sample_session_def sample_stack_def sample_call_def sample_answer_def

lemmas ok_defs = gameplay_session_ok_def item_stack_ok_def item_data_map_ok_def effect_batch_ok_def read_set_ok_def
  block_pos_ok_def map_ok_def list_ok_def bt_ok_def string_ok_def as_bytes_def len_ok_def i32_ok_def

lemma sample_call_ok: "gameplay_request_ok sample_call"
  by (simp add: sample_defs ok_defs item_stack_new_def)

lemma sample_answer_ok: "gameplay_response_ok (gameplay_request_op sample_call) sample_answer"
  by (simp add: sample_defs ok_defs item_stack_new_def block_pos_new_def)

lemmas wire_defs = encode_gameplay_request_payload_def encode_gameplay_session_snapshot_def encode_connection_phase_def
  encode_option_def encode_player_id_def encode_entity_id_def encode_capability_announcement_def capability_list_def
  announcement_new_def ProtocolCapability_def closed_capability_enum_def encode_gameplay_command_def
  encode_inventory_slot_def encode_item_stack_def encode_item_data_map_def encode_map_def encode_list_def encode_pair_def
  write_u8_def write_bool_def write_u16_def write_u32_def write_u64_def write_i32_def write_len_def write_bytes_def
  write_raw_def write_string_def wseq.simps

lemma sample_call_short: "\<exists>bs. encode_gameplay_request_payload sample_call = Inr bs \<and> length bs < 2 ^ 32"
  by (simp add: sample_defs wire_defs item_stack_new_def Let_def)

lemma deliveredD:
  "delivered payload message decode v \<Longrightarrow> payload = Inr bs \<Longrightarrow> length bs < 2 ^ 32 \<Longrightarrow> \<exists>ms. message = Inr ms \<and> decode ms = Inr v"
  by (auto simp: delivered_def split: sum.split_asm)

section \<open>Calls cross the boundary unchanged\<close>

text \<open>C12: a well-formed call to a gameplay plugin and its answer cross the plugin boundary unchanged. The payload
  of the request, and of any response that answers its operation, is always written; unless it exceeds the 32-bit
  length field the message is its envelope, twelve bytes longer, from which the other side decodes exactly the
  request or the response.\<close>

theorem gameplay_calls_roundtrip:
  assumes "gameplay_request_ok request" and "gameplay_response_ok (gameplay_request_op request) response"
  shows "delivered (encode_gameplay_request_payload request) (encode_gameplay_request request)
      decode_gameplay_request request \<and>
    delivered (encode_gameplay_response_payload (gameplay_request_op request) response)
      (encode_gameplay_response request response) (decode_gameplay_response request) response"
  using gp.request_roundtrip [OF assms(1)] gp.response_roundtrip [OF assms(2)]
  unfolding encode_gameplay_request_def decode_gameplay_request_def [abs_def] encode_gameplay_response_def
    decode_gameplay_response_def [abs_def]
  by simp

theorem gameplay_calls_roundtrip_witness:
  "\<exists>bs. encode_gameplay_request sample_call = Inr bs \<and> decode_gameplay_request bs = Inr sample_call"
proof -
  obtain bs where "encode_gameplay_request_payload sample_call = Inr bs" "length bs < 2 ^ 32"
    using sample_call_short by blast
  then show ?thesis
    by (rule deliveredD [OF conjunct1 [OF gameplay_calls_roundtrip [OF sample_call_ok sample_answer_ok]]])
qed



section \<open>Worlds in storage\<close>

definition sample_world :: world_snapshot where
  "sample_world = \<lparr>wn_meta = \<lparr>wm_level_name = ''world'', wm_seed = 99, wm_spawn = block_pos_new 0 64 0,
       wm_dimension = Overworld, wm_age = 10, wm_time = 20, wm_level_type = ''FLAT'', wm_game_mode = 1,
       wm_difficulty = 2, wm_max_players = 20\<rparr>,
     wn_chunks = [(\<lparr>cp_x = - 1, cp_z = 2\<rparr>, column_set_block 3 (- 5) 4 (Some (block_state_new ''minecraft:stone''))
       (column_new \<lparr>cp_x = - 1, cp_z = 2\<rparr>))],
     wn_block_entities = [(block_pos_new (- 13) (- 5) 36,
       ContainerEntity \<lparr>be_kind = ''canonical:chest'', be_slots = [None], be_properties = [(''canonical:x'', - 4)]\<rparr>)],
     wn_players = []\<rparr>"

lemma sample_world_ok: "world_snapshot_ok sample_world"
  by (simp add: sample_world_def world_snapshot_ok_def world_meta_ok_def keyed_ok_def column_wf_def section_wf_def
      block_state_ok_def block_entity_ok_def i16_range_def ok_defs block_pos_new_def column_set_block_def column_new_def
      section_new_def section_set_block_def section_is_empty_def Let_def block_state_new_def flatten_block_index_def
      section_index_new_def SECTION_HEIGHT_def section_local_y_def)



section \<open>Protocol and authentication plugins\<close>

definition sample_login :: protocol_response where
  "sample_login = LoginRequestResponse (BedrockLogin 924 ''alex'' [''a'', ''b''] ''c'')"

text \<open>C21: the same for protocol plugins, which turn network frames into commands and events into frames: every
  well-formed request and the response to it cross the boundary unchanged, although this channel compares raw
  operation codes, and whatever response is accepted is a well-formed answer to the request.\<close>

theorem protocol_calls_roundtrip:
  assumes "protocol_request_ok request" and "protocol_response_ok (protocol_request_op request) response"
  shows "delivered (encode_protocol_request_payload request) (encode_protocol_request request)
      decode_protocol_request request \<and>
    delivered (encode_protocol_response_payload (protocol_request_op request) response)
      (encode_protocol_response request response) (decode_protocol_response request) response \<and>
    (decode_protocol_response request bs = Inr other \<longrightarrow> protocol_response_ok (protocol_request_op request) other)"
proof -
  have "delivered (encode_protocol_request_payload request) (encode_protocol_request request) decode_protocol_request request"
    using pr.request_roundtrip [OF assms(1)]
    unfolding encode_protocol_request_def decode_protocol_request_def [abs_def] .
  moreover have "delivered (encode_protocol_response_payload (protocol_request_op request) response)
      (encode_protocol_response request response) (decode_protocol_response request) response"
    using pr.response_roundtrip [OF assms(2)]
    unfolding encode_protocol_response_def delivered_def decode_protocol_response_open .
  ultimately show ?thesis
    using pr.response_wellformed by (auto simp: decode_protocol_response_open)
qed

theorem protocol_calls_roundtrip_witness:
  "delivered (encode_protocol_response_payload ProtocolOpDecodeLogin sample_login)
     (encode_protocol_response (DecodeLogin [1, 2]) sample_login) (decode_protocol_response (DecodeLogin [1, 2])) sample_login"
proof -
  have "protocol_request_ok (DecodeLogin [1, 2])" by (simp add: len_ok_def)
  moreover have "protocol_response_ok (protocol_request_op (DecodeLogin [1, 2])) sample_login"
    by (simp add: sample_login_def ok_defs)
  ultimately show ?thesis using protocol_calls_roundtrip by fastforce
qed

text \<open>Authentication, with the same guarantees.\<close>

lemma auth_calls_roundtrip:
  assumes "auth_request_ok request" and "auth_response_ok (auth_request_op request) response"
  shows "delivered (encode_auth_request_payload request) (encode_auth_request request) decode_auth_request request \<and>
    delivered (encode_auth_response_payload (auth_request_op request) response)
      (encode_auth_response request response) (decode_auth_response request) response"
  using au.request_roundtrip [OF assms(1)] au.response_roundtrip [OF assms(2)]
  unfolding encode_auth_request_def decode_auth_request_def [abs_def] encode_auth_response_def
    decode_auth_response_def [abs_def]
  by simp

end
