(* ===== verification/Anvil_Nbt.thy ===== *)
theory Anvil_Nbt
  imports Codec Core_Store
begin

unbundle bit_operations_syntax

text \<open>
  The tag format of the Anvil storage, crate \<open>mc-storage-je-anvil-1_7_10\<close>: \<open>nbt.rs\<close>.

  A tag is written big-endian into a growing vector, whose \<open>write_all\<close> cannot fail, and read through a cursor over a byte
  slice; a short read is the I/O error of \<open>read_exact\<close>. A failed \<open>expect\<close> is \<open>AnvilPanic\<close>. Integers, and floats as their
  bit patterns, are words. The reader recurses into lists and compounds: it carries a bound on its depth,
  one more than the number of bytes left, and every level and every entry reads at least a byte, so
  the bound is never met (\<open>nbt_fuel\<close>). Compression is a parameter (\<open>compressors\<close>).
\<close>

section \<open>Errors and texts\<close>

datatype anvil_error = AnvilError storage_error | AnvilPanic

type_synonym nbt_enc = "anvil_error + bytes"
type_synonym 'a nbt_dec = "(byte_cursor, anvil_error, 'a) sr"

abbreviation invalid_data :: "string \<Rightarrow> anvil_error" where
  "invalid_data message \<equiv> AnvilError (StorageInvalidData message)"

definition read_exact_eof :: anvil_error where
  "read_exact_eof = AnvilError (StorageIo ''failed to fill whole buffer'')"

text \<open>The decimal texts that \<open>format!\<close> puts into messages and file names.\<close>

fun decimal :: "nat \<Rightarrow> string" where
  "decimal n = (if n < 10 then [char_of (48 + n)] else decimal (n div 10) @ [char_of (48 + n mod 10)])"

definition decimal_int :: "int \<Rightarrow> string" where
  "decimal_int v = (if v < 0 then CHR ''-'' # decimal (nat (- v)) else decimal (nat v))"

section \<open>Tags\<close>

datatype nbt_tag =
    NbtByte i8
  | NbtShort i16
  | NbtInt i32
  | NbtLong i64
  | NbtFloat f32
  | NbtDouble f64
  | NbtByteArray bytes
  | NbtString string
  | NbtList u8 "nbt_tag list"
  | NbtCompound "(string, nbt_tag) btree_map"
  | NbtIntArray "i32 list"

fun tag_type :: "nbt_tag \<Rightarrow> u8" where
  "tag_type (NbtByte _) = 1"
| "tag_type (NbtShort _) = 2"
| "tag_type (NbtInt _) = 3"
| "tag_type (NbtLong _) = 4"
| "tag_type (NbtFloat _) = 5"
| "tag_type (NbtDouble _) = 6"
| "tag_type (NbtByteArray _) = 7"
| "tag_type (NbtString _) = 8"
| "tag_type (NbtList _ _) = 9"
| "tag_type (NbtCompound _) = 10"
| "tag_type (NbtIntArray _) = 11"

section \<open>Writing\<close>

definition nbt_write_u8 :: "u8 \<Rightarrow> nbt_enc" where "nbt_write_u8 v = Inr [v]"
definition nbt_write_i8 :: "i8 \<Rightarrow> nbt_enc" where "nbt_write_i8 v = Inr [v]"
definition nbt_write_i16 :: "i16 \<Rightarrow> nbt_enc" where "nbt_write_i16 v = Inr (be_bytes 2 v)"
definition nbt_write_i32 :: "i32 \<Rightarrow> nbt_enc" where "nbt_write_i32 v = Inr (be_bytes 4 v)"
definition nbt_write_i64 :: "i64 \<Rightarrow> nbt_enc" where "nbt_write_i64 v = Inr (be_bytes 8 v)"
definition nbt_write_f32 :: "f32 \<Rightarrow> nbt_enc" where "nbt_write_f32 v = Inr (be_bytes 4 v)"
definition nbt_write_f64 :: "f64 \<Rightarrow> nbt_enc" where "nbt_write_f64 v = Inr (be_bytes 8 v)"
definition nbt_write_all :: "bytes \<Rightarrow> nbt_enc" where "nbt_write_all bs = Inr bs"

text \<open>\<open>i32::try_from(len).expect(..)\<close>, written.\<close>

definition nbt_write_len :: "nat \<Rightarrow> nbt_enc" where
  "nbt_write_len n = (if n < 2 ^ 31 then nbt_write_i32 (word_of_nat n) else Inl AnvilPanic)"

definition write_string_u16 :: "string \<Rightarrow> nbt_enc" where
  "write_string_u16 s =
     (if length s < 2 ^ 16
      then wseq [nbt_write_i16 (word_of_nat (length s)), nbt_write_all (as_bytes s)]
      else Inl (invalid_data ''nbt string too long''))"

lemma nbt_size_list: "v \<in> set vs \<Longrightarrow> size v < size (NbtList t vs)"
  by (induction vs) (auto simp: less_Suc_eq_le)

lemma nbt_size_compound: "e \<in> set m \<Longrightarrow> size (snd e) < size (NbtCompound m)"
  by (induction m) (auto simp: less_Suc_eq_le)

function write_named_tag :: "u8 \<Rightarrow> string \<Rightarrow> nbt_tag \<Rightarrow> nbt_enc"
  and write_tag_payload :: "nbt_tag \<Rightarrow> nbt_enc" where
  "write_named_tag t name tag = wseq [nbt_write_u8 t, write_string_u16 name, write_tag_payload tag]"
| "write_tag_payload (NbtByte v) = nbt_write_i8 v"
| "write_tag_payload (NbtShort v) = nbt_write_i16 v"
| "write_tag_payload (NbtInt v) = nbt_write_i32 v"
| "write_tag_payload (NbtLong v) = nbt_write_i64 v"
| "write_tag_payload (NbtFloat v) = nbt_write_f32 v"
| "write_tag_payload (NbtDouble v) = nbt_write_f64 v"
| "write_tag_payload (NbtByteArray bs) = wseq [nbt_write_len (length bs), nbt_write_all bs]"
| "write_tag_payload (NbtString s) = write_string_u16 s"
| "write_tag_payload (NbtList t vs) =
     wseq [nbt_write_u8 t, nbt_write_len (length vs), wseq (map write_tag_payload vs)]"
| "write_tag_payload (NbtCompound m) =
     wseq [wseq (map (\<lambda>e. write_named_tag (tag_type (snd e)) (fst e) (snd e)) m), nbt_write_u8 0]"
| "write_tag_payload (NbtIntArray vs) = wseq [nbt_write_len (length vs), wseq (map nbt_write_i32 vs)]"
  by pat_completeness auto
termination
  by (relation "measure (\<lambda>x. case x of Inl (_, _, tag) \<Rightarrow> Suc (2 * size tag) | Inr tag \<Rightarrow> 2 * size tag)")
    (auto simp del: nbt_tag.size dest!: nbt_size_list nbt_size_compound)

section \<open>Reading\<close>

definition read_exact :: "nat \<Rightarrow> bytes nbt_dec" where
  "read_exact n r =
     (if n \<le> length (cursor_rest r) then (Inr (take n (cursor_rest r)), cursor_adv n r) else (Inl read_exact_eof, r))"

definition nbt_read_u8 :: "u8 nbt_dec" where
  "nbt_read_u8 = sbind (read_exact 1) (\<lambda>bs. sret (hd bs))"

definition nbt_read_i8 :: "i8 nbt_dec" where "nbt_read_i8 = nbt_read_u8"

definition nbt_read_i16 :: "i16 nbt_dec" where
  "nbt_read_i16 = sbind (read_exact 2) (\<lambda>bs. sret (of_be_bytes bs))"

definition nbt_read_i32 :: "i32 nbt_dec" where
  "nbt_read_i32 = sbind (read_exact 4) (\<lambda>bs. sret (of_be_bytes bs))"

definition nbt_read_i64 :: "i64 nbt_dec" where
  "nbt_read_i64 = sbind (read_exact 8) (\<lambda>bs. sret (of_be_bytes bs))"

definition nbt_read_f32 :: "f32 nbt_dec" where
  "nbt_read_f32 = sbind (read_exact 4) (\<lambda>bs. sret (of_be_bytes bs))"

definition nbt_read_f64 :: "f64 nbt_dec" where
  "nbt_read_f64 = sbind (read_exact 8) (\<lambda>bs. sret (of_be_bytes bs))"

text \<open>\<open>usize::try_from(read_i32(reader)?)\<close>.\<close>

definition nbt_read_len :: "string \<Rightarrow> nat nbt_dec" where
  "nbt_read_len message = sbind nbt_read_i32 (\<lambda>v.
     if sint v < 0 then sfail (invalid_data message) else sret (unat v))"

definition read_string_u16 :: "string nbt_dec" where
  "read_string_u16 = sbind (read_exact 2) (\<lambda>len_bytes.
     sbind (read_exact (unat (of_be_bytes len_bytes :: u16))) (\<lambda>bs.
       if utf8_valid bs then sret (map (\<lambda>b. char_of (unat b)) bs)
       else sfail (invalid_data ''invalid utf-8 string'')))"

fun read_tag_payload :: "nat \<Rightarrow> u8 \<Rightarrow> nbt_tag nbt_dec"
  and read_compound_entries :: "nat \<Rightarrow> (string \<times> nbt_tag) list nbt_dec" where
  "read_tag_payload 0 t = sfail read_exact_eof"
| "read_tag_payload (Suc n) t =
     (if t = 1 then sbind nbt_read_i8 (\<lambda>v. sret (NbtByte v))
      else if t = 2 then sbind nbt_read_i16 (\<lambda>v. sret (NbtShort v))
      else if t = 3 then sbind nbt_read_i32 (\<lambda>v. sret (NbtInt v))
      else if t = 4 then sbind nbt_read_i64 (\<lambda>v. sret (NbtLong v))
      else if t = 5 then sbind nbt_read_f32 (\<lambda>v. sret (NbtFloat v))
      else if t = 6 then sbind nbt_read_f64 (\<lambda>v. sret (NbtDouble v))
      else if t = 7 then
        sbind (nbt_read_len ''negative byte array length'') (\<lambda>len.
        sbind (read_exact len) (\<lambda>bs. sret (NbtByteArray bs)))
      else if t = 8 then sbind read_string_u16 (\<lambda>s. sret (NbtString s))
      else if t = 9 then
        sbind nbt_read_u8 (\<lambda>child_type. sbind (nbt_read_len ''negative list length'') (\<lambda>len.
        sbind (read_times len (read_tag_payload n child_type)) (\<lambda>vs. sret (NbtList child_type vs))))
      else if t = 10 then sbind (read_compound_entries n) (\<lambda>es. sret (NbtCompound (bt_collect es)))
      else if t = 11 then
        sbind (nbt_read_len ''negative int array length'') (\<lambda>len.
        sbind (read_times len nbt_read_i32) (\<lambda>vs. sret (NbtIntArray vs)))
      else sfail (invalid_data (''unsupported nbt tag type '' @ decimal (unat t))))"
| "read_compound_entries 0 = sfail read_exact_eof"
| "read_compound_entries (Suc n) = sbind nbt_read_u8 (\<lambda>child_type.
     if child_type = 0 then sret []
     else sbind read_string_u16 (\<lambda>name. sbind (read_tag_payload n child_type) (\<lambda>v.
       sbind (read_compound_entries n) (\<lambda>es. sret ((name, v) # es)))))"

definition read_nbt :: "bytes \<Rightarrow> anvil_error + nbt_tag" where
  "read_nbt bs = fst (sbind nbt_read_u8 (\<lambda>t.
     if t \<noteq> 10 then sfail (invalid_data ''root nbt tag must be a compound'')
     else sbind read_string_u16 (\<lambda>_. sbind (sget (\<lambda>r. Suc (remaining r))) (\<lambda>n. read_tag_payload n t)))
     (cursor_new bs))"

section \<open>Fields\<close>

fun as_compound :: "nbt_tag \<Rightarrow> anvil_error + (string, nbt_tag) btree_map" where
  "as_compound (NbtCompound m) = Inr m"
| "as_compound _ = Inl (invalid_data ''expected compound tag'')"

definition compound_field :: "(string, nbt_tag) btree_map \<Rightarrow> string \<Rightarrow> anvil_error + (string, nbt_tag) btree_map" where
  "compound_field c key =
     (case map_of c key of
        Some tag \<Rightarrow> as_compound tag
      | None \<Rightarrow> Inl (invalid_data (''missing compound field '' @ key)))"

definition list_field :: "(string, nbt_tag) btree_map \<Rightarrow> string \<Rightarrow> anvil_error + nbt_tag list" where
  "list_field c key =
     (case map_of c key of Some (NbtList _ vs) \<Rightarrow> Inr vs | _ \<Rightarrow> Inl (invalid_data (''missing list field '' @ key)))"

definition byte_array_field :: "(string, nbt_tag) btree_map \<Rightarrow> string \<Rightarrow> anvil_error + bytes" where
  "byte_array_field c key =
     (case map_of c key of Some (NbtByteArray bs) \<Rightarrow> Inr bs | _ \<Rightarrow> Inl (invalid_data (''missing byte array field '' @ key)))"

definition string_field :: "(string, nbt_tag) btree_map \<Rightarrow> string \<Rightarrow> anvil_error + string" where
  "string_field c key =
     (case map_of c key of Some (NbtString s) \<Rightarrow> Inr s | _ \<Rightarrow> Inl (invalid_data (''missing string field '' @ key)))"

definition int_field :: "(string, nbt_tag) btree_map \<Rightarrow> string \<Rightarrow> anvil_error + i32" where
  "int_field c key =
     (case map_of c key of Some (NbtInt v) \<Rightarrow> Inr v | _ \<Rightarrow> Inl (invalid_data (''missing int field '' @ key)))"

definition short_field :: "(string, nbt_tag) btree_map \<Rightarrow> string \<Rightarrow> anvil_error + i16" where
  "short_field c key =
     (case map_of c key of Some (NbtShort v) \<Rightarrow> Inr v | _ \<Rightarrow> Inl (invalid_data (''missing short field '' @ key)))"

definition long_field :: "(string, nbt_tag) btree_map \<Rightarrow> string \<Rightarrow> anvil_error + i64" where
  "long_field c key =
     (case map_of c key of Some (NbtLong v) \<Rightarrow> Inr v | _ \<Rightarrow> Inl (invalid_data (''missing long field '' @ key)))"

definition byte_field :: "(string, nbt_tag) btree_map \<Rightarrow> string \<Rightarrow> anvil_error + i8" where
  "byte_field c key =
     (case map_of c key of Some (NbtByte v) \<Rightarrow> Inr v | _ \<Rightarrow> Inl (invalid_data (''missing byte field '' @ key)))"

definition float_field :: "(string, nbt_tag) btree_map \<Rightarrow> string \<Rightarrow> anvil_error + f32" where
  "float_field c key =
     (case map_of c key of Some (NbtFloat v) \<Rightarrow> Inr v | _ \<Rightarrow> Inl (invalid_data (''missing float field '' @ key)))"

fun double_from_tag :: "nbt_tag \<Rightarrow> anvil_error + f64" where
  "double_from_tag (NbtDouble v) = Inr v"
| "double_from_tag _ = Inl (invalid_data ''expected double tag'')"

fun float_from_tag :: "nbt_tag \<Rightarrow> anvil_error + f32" where
  "float_from_tag (NbtFloat v) = Inr v"
| "float_from_tag _ = Inl (invalid_data ''expected float tag'')"

text \<open>\<open>result.unwrap_or(default)\<close>.\<close>

definition unwrap_or :: "'e + 'a \<Rightarrow> 'a \<Rightarrow> 'a" where
  "unwrap_or r d = (case r of Inl _ \<Rightarrow> d | Inr x \<Rightarrow> x)"

lemma unwrap_or_Inr [simp]: "unwrap_or (Inr x) d = x"
  by (simp add: unwrap_or_def)

section \<open>Compression\<close>

text \<open>The crate \<open>flate2\<close>: compressing into a vector, and decompressing, which may find the data corrupt.\<close>

record compressors =
  zlib_encode :: "bytes \<Rightarrow> bytes"
  zlib_decode :: "bytes \<Rightarrow> bytes option"
  gzip_encode :: "bytes \<Rightarrow> bytes"
  gzip_decode :: "bytes \<Rightarrow> bytes option"

definition compressors_ok :: "compressors \<Rightarrow> bool" where
  "compressors_ok z \<longleftrightarrow> (\<forall>bs. zlib_decode z (zlib_encode z bs) = Some bs) \<and> (\<forall>bs. gzip_decode z (gzip_encode z bs) = Some bs)"

definition zlib_compress_nbt :: "compressors \<Rightarrow> string \<Rightarrow> nbt_tag \<Rightarrow> nbt_enc" where
  "zlib_compress_nbt z name tag = bind_res (write_named_tag 10 name tag) (\<lambda>raw. Inr (zlib_encode z raw))"

definition gzip_compress_nbt :: "compressors \<Rightarrow> string \<Rightarrow> nbt_tag \<Rightarrow> nbt_enc" where
  "gzip_compress_nbt z name tag = bind_res (write_named_tag 10 name tag) (\<lambda>raw. Inr (gzip_encode z raw))"

definition decompress :: "(bytes \<Rightarrow> bytes option) \<Rightarrow> bytes \<Rightarrow> nbt_enc" where
  "decompress decode bs = (case decode bs of Some raw \<Rightarrow> Inr raw | None \<Rightarrow> Inl (AnvilError (StorageIo ''corrupt deflate stream'')))"

definition decompress_gzip :: "compressors \<Rightarrow> bytes \<Rightarrow> nbt_enc" where
  "decompress_gzip z = decompress (gzip_decode z)"

definition decompress_zlib :: "compressors \<Rightarrow> bytes \<Rightarrow> nbt_enc" where
  "decompress_zlib z = decompress (zlib_decode z)"

section \<open>Round trip\<close>

interpretation nb: byte_reader read_exact
  by unfold_locales (auto simp: read_exact_def)

lemma nbt_writes_u8: "writes nbt_read_u8 (nbt_write_u8 v) v"
  unfolding nbt_read_u8_def by (rule writesI [OF nbt_write_u8_def nb.parses_hd])

lemma nbt_writes_i8: "writes nbt_read_i8 (nbt_write_i8 v) v"
  unfolding nbt_read_i8_def nbt_read_u8_def by (rule writesI [OF nbt_write_i8_def nb.parses_hd])

lemma nbt_writes_i16: "writes nbt_read_i16 (nbt_write_i16 v) v"
  unfolding nbt_read_i16_def by (rule writesI [OF nbt_write_i16_def nb.parses_be]) simp

lemma nbt_writes_i32: "writes nbt_read_i32 (nbt_write_i32 v) v"
  unfolding nbt_read_i32_def by (rule writesI [OF nbt_write_i32_def nb.parses_be]) simp

lemma nbt_writes_i64: "writes nbt_read_i64 (nbt_write_i64 v) v"
  unfolding nbt_read_i64_def by (rule writesI [OF nbt_write_i64_def nb.parses_be]) simp

lemma nbt_writes_f32: "writes nbt_read_f32 (nbt_write_f32 v) v"
  unfolding nbt_read_f32_def by (rule writesI [OF nbt_write_f32_def nb.parses_be]) simp

lemma nbt_writes_f64: "writes nbt_read_f64 (nbt_write_f64 v) v"
  unfolding nbt_read_f64_def by (rule writesI [OF nbt_write_f64_def nb.parses_be]) simp

lemma nbt_writes_all: "length bs = n \<Longrightarrow> writes (read_exact n) (nbt_write_all bs) bs"
  by (rule writesI [OF nbt_write_all_def nb.parses_read])

lemma sint_small_nat: "n < 2 ^ 31 \<Longrightarrow> sint (word_of_nat n :: i32) = int n"
  by (simp add: signed_of_nat signed_take_bit_int_eq_self)

lemma nbt_writes_len:
  assumes "n < 2 ^ 31"
  shows "writes (nbt_read_len message) (nbt_write_len n) n"
proof -
  have "unat (word_of_nat n :: i32) = n"
    using assms by (simp add: unat_of_nat take_bit_nat_eq_self)
  then show ?thesis
    using assms sint_small_nat [OF assms] unfolding nbt_read_len_def nbt_write_len_def
    by (simp, intro writes_tail [OF nbt_writes_i32]) simp
qed

definition nbt_string_ok :: "string \<Rightarrow> bool" where
  "nbt_string_ok s \<longleftrightarrow> length s < 2 ^ 16 \<and> utf8_valid (as_bytes s)"

lemma nbt_writes_string:
  assumes "nbt_string_ok s"
  shows "writes read_string_u16 (write_string_u16 s) s"
proof -
  let ?n = "word_of_nat (length s) :: u16"
  have n: "unat ?n = length s"
    using assms by (simp add: nbt_string_ok_def unat_of_nat take_bit_nat_eq_self)
  have len: "writes (read_exact 2) (nbt_write_i16 ?n) (be_bytes 2 ?n)"
    by (rule writesI [OF nbt_write_i16_def nb.parses_read]) simp
  have body: "writes (read_exact (unat (of_be_bytes (be_bytes 2 ?n) :: u16))) (nbt_write_all (as_bytes s)) (as_bytes s)"
    by (rule nbt_writes_all) (simp add: n)
  show ?thesis
    using assms unfolding read_string_u16_def write_string_u16_def nbt_string_ok_def
    by (auto intro!: writes_bind [OF len] writes_bind [OF body] writes_sret simp: chars_of_bytes)
qed

function nbt_ok :: "nbt_tag \<Rightarrow> bool" where
  "nbt_ok (NbtByte _) = True"
| "nbt_ok (NbtShort _) = True"
| "nbt_ok (NbtInt _) = True"
| "nbt_ok (NbtLong _) = True"
| "nbt_ok (NbtFloat _) = True"
| "nbt_ok (NbtDouble _) = True"
| "nbt_ok (NbtByteArray bs) = (length bs < 2 ^ 31)"
| "nbt_ok (NbtString s) = nbt_string_ok s"
| "nbt_ok (NbtList t vs) = (length vs < 2 ^ 31 \<and> list_all (\<lambda>v. tag_type v = t \<and> nbt_ok v) vs)"
| "nbt_ok (NbtCompound m) = (bt_ok m \<and> list_all (\<lambda>e. nbt_string_ok (fst e) \<and> nbt_ok (snd e)) m)"
| "nbt_ok (NbtIntArray vs) = (length vs < 2 ^ 31)"
  by pat_completeness auto
termination
  by (relation "measure size") (auto simp del: nbt_tag.size dest!: nbt_size_list nbt_size_compound)

text \<open>A tag is written, and read back with any bound above the number of its bytes.\<close>

definition nbt_written :: "nbt_tag \<Rightarrow> bool" where
  "nbt_written v \<longleftrightarrow> (\<exists>bs. write_tag_payload v = Inr bs \<and>
     (\<forall>n > length bs. writes (read_tag_payload n (tag_type v)) (write_tag_payload v) v))"

lemma nbt_writtenI:
  assumes "write_tag_payload v = Inr bs"
    and "\<And>n. length bs \<le> n \<Longrightarrow> writes (read_tag_payload (Suc n) (tag_type v)) (write_tag_payload v) v"
  shows "nbt_written v"
  unfolding nbt_written_def
proof (intro exI [of _ bs] conjI allI impI assms(1))
  fix n assume "length bs < n"
  then show "writes (read_tag_payload n (tag_type v)) (write_tag_payload v) v"
    using assms(2) [of "n - 1"] by (cases n) auto
qed

lemma nbt_writtenD: "nbt_written v \<Longrightarrow> write_tag_payload v = Inr bs \<Longrightarrow> length bs < n \<Longrightarrow>
    writes (read_tag_payload n (tag_type v)) (write_tag_payload v) v"
  by (auto simp: nbt_written_def)

lemma nbt_written_leaf:
  assumes "\<And>n. writes (read_tag_payload (Suc n) (tag_type v)) (write_tag_payload v) v"
  shows "nbt_written v"
  using writes_Inr [OF assms] assms by (auto intro: nbt_writtenI)

lemma nbt_written_list:
  assumes len: "length vs < 2 ^ 31" and vs: "\<And>v. v \<in> set vs \<Longrightarrow> tag_type v = t \<and> nbt_written v"
  shows "nbt_written (NbtList t vs)"
proof -
  let ?e = write_tag_payload
  have "\<exists>bs. ?e v = Inr bs" if "v \<in> set vs" for v using vs [OF that] by (auto simp: nbt_written_def)
  then obtain ys where ys: "wseq (map ?e vs) = Inr ys" using wseq_concat [of "map ?e vs"] by force
  obtain bs where bs: "?e (NbtList t vs) = Inr bs" and le: "length ys < length bs"
    using len ys by (auto simp: wseq.simps nbt_write_len_def nbt_write_i32_def nbt_write_u8_def)
  show ?thesis
  proof (rule nbt_writtenI [OF bs])
    fix n assume n: "length bs \<le> n"
    have "writes (read_tag_payload n t) (?e v) v" if v: "v \<in> set vs" for v
    proof -
      obtain xs where "?e v = Inr xs" "length xs \<le> length ys" using wseq_member [OF ys, of "?e v"] v by auto
      then show ?thesis using nbt_writtenD [of v xs n] vs [OF v] le n by auto
    qed
    then have "writes (read_times (length vs) (read_tag_payload n t)) (wseq (map ?e vs)) vs" by (rule writes_times)
    then show "writes (read_tag_payload (Suc n) (tag_type (NbtList t vs))) (?e (NbtList t vs)) (NbtList t vs)"
      using len by (auto intro!: writes_bind [OF nbt_writes_u8] writes_bind [OF nbt_writes_len] writes_bind [of "read_times _ _"]
          writes_sret)
  qed
qed

lemma nbt_entries_written:
  assumes "\<And>e. e \<in> set m \<Longrightarrow> nbt_string_ok (fst e) \<and> nbt_written (snd e)"
    and "wseq [wseq (map (\<lambda>e. write_named_tag (tag_type (snd e)) (fst e) (snd e)) m), nbt_write_u8 0] = Inr bs"
    and "length bs \<le> n"
  shows "parses (read_compound_entries n) bs m"
  using assms
proof (induction m arbitrary: n bs)
  case Nil
  then have "bs = [0]" by (simp add: wseq.simps nbt_write_u8_def)
  moreover obtain k where "n = Suc k" using Nil \<open>bs = [0]\<close> by (cases n) auto
  moreover have "parses nbt_read_u8 [0] 0" unfolding nbt_read_u8_def by (rule nb.parses_hd)
  ultimately show ?case by (auto intro!: parses_bind_last)
next
  case (Cons e m)
  obtain t where t: "t = tag_type (snd e)" "t \<noteq> 0" by (cases "snd e") auto
  from Cons.prems(2) obtain ns vs ys where
    ns: "write_string_u16 (fst e) = Inr ns" and vs: "write_tag_payload (snd e) = Inr vs"
    and ys: "wseq [wseq (map (\<lambda>e. write_named_tag (tag_type (snd e)) (fst e) (snd e)) m), nbt_write_u8 0] = Inr ys"
    and bs: "bs = [t] @ ns @ vs @ ys"
    by (auto simp: wseq.simps bind_res_eq_Inr nbt_write_u8_def t)
  obtain k where k: "n = Suc k" "length vs < k" "length ys \<le> k"
    using Cons.prems(3) bs ys by (cases n) (auto simp: wseq.simps bind_res_eq_Inr nbt_write_u8_def)
  have name: "parses read_string_u16 ns (fst e)"
    using nbt_writes_string [of "fst e"] Cons.prems(1) [of e] ns by (auto simp: writes_def)
  have payload: "parses (read_tag_payload k t) vs (snd e)"
    using nbt_writtenD [of "snd e" vs k] Cons.prems(1) [of e] vs k t by (auto simp: writes_def)
  have "parses (read_compound_entries k) ys m"
    using Cons.IH [OF _ ys k(3)] Cons.prems(1) by simp
  then have "parses (sbind (read_compound_entries k) (\<lambda>es. sret ((fst e, snd e) # es))) ys (e # m)"
    by (rule parses_bind_last) auto
  then have "parses (sbind (read_tag_payload k t) (\<lambda>v. sbind (read_compound_entries k) (\<lambda>es. sret ((fst e, v) # es))))
      (vs @ ys) (e # m)"
    by (rule parses_bind [OF payload])
  then have "parses (sbind read_string_u16 (\<lambda>name. sbind (read_tag_payload k t) (\<lambda>v.
      sbind (read_compound_entries k) (\<lambda>es. sret ((name, v) # es))))) (ns @ vs @ ys) (e # m)"
    by (rule parses_bind [OF name])
  then have "parses (if t = 0 then sret [] else sbind read_string_u16 (\<lambda>name. sbind (read_tag_payload k t) (\<lambda>v.
      sbind (read_compound_entries k) (\<lambda>es. sret ((name, v) # es))))) (ns @ vs @ ys) (e # m)"
    using t(2) by simp
  moreover have "parses nbt_read_u8 [t] t" unfolding nbt_read_u8_def by (rule nb.parses_hd)
  ultimately show ?case
    unfolding k(1) bs read_compound_entries.simps by (intro parses_bind)
qed

lemma nbt_written_compound:
  assumes ok: "bt_ok m" and es: "\<And>e. e \<in> set m \<Longrightarrow> nbt_string_ok (fst e) \<and> nbt_written (snd e)"
  shows "nbt_written (NbtCompound m)"
proof -
  let ?w = "\<lambda>e. write_named_tag (tag_type (snd e)) (fst e) (snd e)"
  have "\<exists>bs. ?w e = Inr bs" if e: "e \<in> set m" for e
  proof -
    obtain ns where "write_string_u16 (fst e) = Inr ns" using writes_Inr [OF nbt_writes_string] es [OF e] by blast
    moreover obtain vs where "write_tag_payload (snd e) = Inr vs" using es [OF e] by (auto simp: nbt_written_def)
    ultimately show ?thesis by (simp add: wseq.simps nbt_write_u8_def)
  qed
  then obtain ys where ys: "wseq (map ?w m) = Inr ys" using wseq_concat [of "map ?w m"] by force
  then obtain bs where bs: "write_tag_payload (NbtCompound m) = Inr bs" by (simp add: wseq.simps nbt_write_u8_def)
  show ?thesis
  proof (rule nbt_writtenI [OF bs])
    fix n assume "length bs \<le> n"
    then have "parses (read_compound_entries n) bs m" using es bs by (intro nbt_entries_written) simp_all
    then show "writes (read_tag_payload (Suc n) (tag_type (NbtCompound m))) (write_tag_payload (NbtCompound m)) (NbtCompound m)"
      unfolding writes_def bs using ok by (auto intro!: parses_bind_last simp: bt_collect_id)
  qed
qed

lemma nbt_ok_written: "nbt_ok v \<Longrightarrow> nbt_written v"
proof (induction v rule: nbt_ok.induct)
  case (9 t vs)
  then show ?case by (intro nbt_written_list) (auto simp: list_all_iff)
next
  case (10 m)
  then show ?case by (intro nbt_written_compound) (auto simp: list_all_iff)
next
  case (7 bs)
  then show ?case
    by (intro nbt_written_leaf) (auto intro!: writes_bind [OF nbt_writes_len] writes_bind [OF nbt_writes_all] writes_sret)
next
  case (11 vs)
  have "writes (read_times (length vs) nbt_read_i32) (wseq (map nbt_write_i32 vs)) vs"
    by (rule writes_times) (rule nbt_writes_i32)
  with 11 show ?case
    by (intro nbt_written_leaf) (auto intro!: writes_bind [OF nbt_writes_len] writes_bind [of "read_times _ _"] writes_sret)
qed (auto intro!: nbt_written_leaf writes_tail [OF nbt_writes_i8] writes_tail [OF nbt_writes_i16] writes_tail [OF nbt_writes_i32]
    writes_tail [OF nbt_writes_i64] writes_tail [OF nbt_writes_f32] writes_tail [OF nbt_writes_f64] writes_tail [OF nbt_writes_string])

lemma nbt_named_written:
  assumes "nbt_ok tag" and "nbt_string_ok name"
  obtains raw where "write_named_tag t name tag = Inr raw"
proof -
  obtain ns where "write_string_u16 name = Inr ns" using writes_Inr [OF nbt_writes_string [OF assms(2)]] by blast
  moreover obtain vs where "write_tag_payload tag = Inr vs" using nbt_ok_written [OF assms(1)] by (auto simp: nbt_written_def)
  ultimately show ?thesis using that by (simp add: wseq.simps nbt_write_u8_def)
qed

lemma read_nbt_written:
  assumes ok: "nbt_ok (NbtCompound m)" "nbt_string_ok name"
    and raw: "write_named_tag 10 name (NbtCompound m) = Inr raw" and fits: "length raw \<le> isize_max"
  shows "read_nbt raw = Inr (NbtCompound m)"
proof -
  let ?tag = "NbtCompound m"
  obtain ns vs where ns: "write_string_u16 name = Inr ns" and vs: "write_tag_payload ?tag = Inr vs"
    and bs: "raw = [10] @ ns @ vs"
    using raw by (auto simp del: write_tag_payload.simps simp: wseq.simps bind_res_eq_Inr nbt_write_u8_def)
  have payload: "parses (read_tag_payload n 10) vs ?tag" if "length vs < n" for n
    using nbt_writtenD [OF nbt_ok_written [OF ok(1)] vs that] vs by (auto simp: writes_def simp del: write_tag_payload.simps)
  have "parses (sbind (sget (\<lambda>r. Suc (remaining r))) (\<lambda>n. read_tag_payload n 10)) vs ?tag"
    unfolding parses_def
  proof (intro allI impI)
    fix r ys assume r: "cursor_ok r" "cursor_rest r = vs @ ys"
    have "length vs < Suc (remaining r)"
      using arg_cong [OF r(2), of length] by (simp add: cursor_rest_def remaining_def)
    from parsesD [OF payload [OF this] r]
    show "sbind (sget (\<lambda>r. Suc (remaining r))) (\<lambda>n. read_tag_payload n 10) r = (Inr ?tag, cursor_adv (length vs) r)"
      by (simp add: sbind_def sget_def)
  qed
  moreover have "parses read_string_u16 ns name"
    using nbt_writes_string [OF ok(2)] ns by (auto simp: writes_def)
  ultimately have "parses (sbind read_string_u16 (\<lambda>_. sbind (sget (\<lambda>r. Suc (remaining r))) (\<lambda>n. read_tag_payload n 10)))
      (ns @ vs) ?tag"
    by (intro parses_bind)
  moreover have "parses nbt_read_u8 [10] 10" unfolding nbt_read_u8_def by (rule nb.parses_hd)
  ultimately have "parses (sbind nbt_read_u8 (\<lambda>t.
      if t \<noteq> 10 then sfail (invalid_data ''root nbt tag must be a compound'')
      else sbind read_string_u16 (\<lambda>_. sbind (sget (\<lambda>r. Suc (remaining r))) (\<lambda>n. read_tag_payload n t)))) raw ?tag"
    unfolding bs by (intro parses_bind [of nbt_read_u8 _ 10]) simp_all
  from parses_run [OF this fits] show ?thesis unfolding read_nbt_def .
qed

subsection \<open>The bound on the depth is never met\<close>

lemma advances_exact [advances_intros]: "advances (read_exact n)"
  by (auto simp: advances_def read_exact_def)

lemma advances_nbt_readers [advances_intros]:
  "advances nbt_read_u8" "advances nbt_read_i8" "advances nbt_read_i16" "advances nbt_read_i32" "advances nbt_read_i64"
  "advances nbt_read_f32" "advances nbt_read_f64" "advances (nbt_read_len message)" "advances read_string_u16"
  by (auto simp: nbt_read_u8_def nbt_read_i8_def nbt_read_i16_def nbt_read_i32_def nbt_read_i64_def nbt_read_f32_def
      nbt_read_f64_def nbt_read_len_def read_string_u16_def intro!: advances_intros)

lemma advances_cond: "(b \<Longrightarrow> advances p) \<Longrightarrow> (\<not> b \<Longrightarrow> advances q) \<Longrightarrow> advances (if b then p else q)"
  by simp

lemma advances_nbt [advances_intros]: "advances (read_tag_payload n t)" "advances (read_compound_entries n)"
proof (induction n t and n rule: read_tag_payload_read_compound_entries.induct)
  case (2 n t)
  then show ?case unfolding read_tag_payload.simps
    by (intro advances_cond advances_bind advances_sret advances_sfail advances_times advances_nbt_readers advances_exact)
next
  case (4 n)
  then show ?case unfolding read_compound_entries.simps
    by (intro advances_bind advances_cond advances_sret advances_nbt_readers)
qed (simp_all add: advances_sfail)

text \<open>A reader that consumes leaves fewer bytes for what follows.\<close>

definition consumes :: "'a nbt_dec \<Rightarrow> bool" where
  "consumes p \<longleftrightarrow> (\<forall>r x r'. cursor_ok r \<longrightarrow> p r = (Inr x, r') \<longrightarrow> cursor_ok r' \<and> remaining r' < remaining r)"

lemma consumes_exact: "0 < n \<Longrightarrow> consumes (read_exact n)"
  by (auto simp: consumes_def read_exact_def remaining_def cursor_rest_def cursor_ok_def split: if_splits)

lemma consumes_bind:
  assumes p: "consumes p" and f: "\<And>x. advances (f x)"
  shows "consumes (sbind p f)"
  unfolding consumes_def
proof (intro allI impI)
  fix r x r' assume r: "cursor_ok r" "sbind p f r = (Inr x, r')"
  then obtain y s where y: "p r = (Inr y, s)" "f y s = (Inr x, r')"
    by (auto simp: sbind_def split: prod.split_asm sum.split_asm)
  then have s: "cursor_ok s" "remaining s < remaining r" using p r by (auto simp: consumes_def)
  with advancesD [OF f s(1) y(2)] show "cursor_ok r' \<and> remaining r' < remaining r" by (auto simp: remaining_def)
qed

lemma consumes_u8: "consumes nbt_read_u8"
  unfolding nbt_read_u8_def by (intro consumes_bind consumes_exact advances_intros) simp

lemma consumes_string: "consumes read_string_u16"
  unfolding read_string_u16_def by (intro consumes_bind consumes_exact advances_intros) simp

lemma agree_consumes:
  assumes p: "consumes p" and fg: "\<And>x k'. k' < k \<Longrightarrow> agree k' (f x) (g x)"
  shows "agree k (sbind p f) (sbind p g)"
  unfolding agree_def
proof (intro allI impI)
  fix r assume r: "cursor_ok r" "remaining r \<le> k"
  show "sbind p f r = sbind p g r"
  proof (cases "p r")
    case (Pair res r')
    show ?thesis
    proof (cases res)
      case (Inr x)
      then have "cursor_ok r'" "remaining r' < k" using p r Pair by (auto simp: consumes_def dest!: spec [of _ r])
      then show ?thesis using fg [of "remaining r'" x] Pair Inr by (simp add: sbind_def agree_def)
    qed (simp add: sbind_def Pair)
  qed
qed

lemma agree_if: "agree k p p' \<Longrightarrow> agree k q q' \<Longrightarrow> agree k (if b then p else q) (if b then p' else q')"
  by simp

lemma nbt_eof: "agree 0 (sbind nbt_read_u8 f) (sfail read_exact_eof)"
  by (auto simp: agree_def nbt_read_u8_def read_exact_def sbind_def sfail_def cursor_ok_def remaining_def cursor_rest_def)

lemma agree_sym: "agree k p q \<Longrightarrow> agree k q p"
  by (simp add: agree_def)

lemma nbt_fuel:
  "(\<forall>n m t. k < n \<longrightarrow> k < m \<longrightarrow> agree k (read_tag_payload n t) (read_tag_payload m t)) \<and>
   (\<forall>n m. k \<le> n \<longrightarrow> k \<le> m \<longrightarrow> agree k (read_compound_entries n) (read_compound_entries m))"
proof (induction k rule: less_induct)
  case (less k)
  have entries: "agree k (read_compound_entries n) (read_compound_entries m)" if nm: "k \<le> n" "k \<le> m" for n m
  proof (cases k)
    case 0
    have "agree 0 (read_compound_entries n) (sfail read_exact_eof)" for n
      by (cases n) (simp_all add: nbt_eof agree_refl)
    then show ?thesis using 0 by (metis agree_def)
  next
    case (Suc j)
    with nm obtain n' m' where n': "n = Suc n'" "m = Suc m'" "j \<le> n'" "j \<le> m'" by (metis Suc_le_D Suc_le_mono)
    have payload: "agree i (read_tag_payload n' t) (read_tag_payload m' t)" if "i < j" for i t
      using less [of i] n' Suc that by auto
    have entries: "agree i (read_compound_entries n') (read_compound_entries m')" if "i < k" for i
      using less [of i] n' Suc that by auto
    show ?thesis unfolding n'(1,2) read_compound_entries.simps
    proof (intro agree_consumes [OF consumes_u8] agree_if agree_refl agree_consumes [OF consumes_string])
      fix i t h name assume i: "i < k" "h < i"
      show "agree h (sbind (read_tag_payload n' t) (\<lambda>v. sbind (read_compound_entries n') (\<lambda>es. sret ((name, v) # es))))
          (sbind (read_tag_payload m' t) (\<lambda>v. sbind (read_compound_entries m') (\<lambda>es. sret ((name, v) # es))))"
        using i Suc by (intro agree_bind agree_refl payload entries advances_intros) simp_all
    qed
  qed
  have payload: "agree k (read_tag_payload n t) (read_tag_payload m t)" if nm: "k < n" "k < m" for n m t
  proof -
    from nm obtain n' m' where n': "n = Suc n'" "m = Suc m'" "k \<le> n'" "k \<le> m'" by (metis Suc_le_D Suc_le_mono Suc_leI)
    have IH: "agree i (read_tag_payload n' c) (read_tag_payload m' c)" if "i < k" for i c
      using less [OF that] n' that by auto
    show ?thesis unfolding n'(1,2) read_tag_payload.simps
      by (intro agree_if agree_refl agree_consumes [OF consumes_u8] agree_bind agree_times IH entries n' advances_intros)
  qed
  from entries payload show ?case by blast
qed

text \<open>So \<open>read_nbt\<close> fails only where the reader without a bound would.\<close>

end
