(* ===== verification/Anvil_Chunk.thy ===== *)
theory Anvil_Chunk
  imports Anvil_Nbt Canonical_Content
begin

unbundle bit_operations_syntax

text \<open>
  Chunks in the Anvil storage: the numbers that blocks and items had in version 1.7.10
  (\<open>mc-proto-je-common/src/__version_support/blocks.rs\<close>, with the later flattened numbers of the same file), and the tags
  of a chunk with its block entities (\<open>mc-storage-je-anvil-1_7_10/src/chunk_nbt.rs\<close>).

  Iterator chains that filter and map are list functions; indexing out of range and failed \<open>expect\<close> are
  \<open>AnvilPanic\<close>. The second half says what of a chunk survives: \<open>archived_column\<close> and \<open>archived_entity\<close> are the values that
  reading a written chunk gives back.
\<close>

section \<open>Numbers of blocks and items: \<open>blocks.rs\<close>\<close>

definition legacy_block :: "block_state \<Rightarrow> u16 \<times> u8" where
  "legacy_block state =
     (case map_of [(STONE, (1, 0)), (GRASS_BLOCK, (2, 0)), (DIRT, (3, 0)), (COBBLESTONE, (4, 0)), (OAK_PLANKS, (5, 0)),
        (BEDROCK, (7, 0)), (SAND, (12, 0)), (GLASS, (20, 0)), (SANDSTONE, (24, 0)), (BRICKS, (45, 0)),
        (CRAFTING_TABLE, (58, 0)), (CHEST, (54, 0)), (FURNACE, (61, 0))] (bs_key state) of
        Some e \<Rightarrow> e
      | None \<Rightarrow> (0, 0))"

definition legacy_block_state_id :: "block_state \<Rightarrow> i32" where
  "legacy_block_state_id state =
     (case legacy_block state of (block_id, metadata) \<Rightarrow> push_bit 4 (ucast block_id) OR ucast metadata)"

definition flattened_block_state_id_1_13_2 :: "block_state \<Rightarrow> i32" where
  "flattened_block_state_id_1_13_2 state =
     (case map_of [(STONE, 1), (GRASS_BLOCK, 8), (DIRT, 10), (COBBLESTONE, 14), (OAK_PLANKS, 15), (BEDROCK, 33), (SAND, 66),
        (GLASS, 230), (SANDSTONE, 245), (BRICKS, 1125), (CHEST, 1729), (CRAFTING_TABLE, 3051), (FURNACE, 3068)]
        (bs_key state) of
        Some v \<Rightarrow> v
      | None \<Rightarrow> 0)"

definition semantic_block :: "u16 \<Rightarrow> u8 \<Rightarrow> block_state" where
  "semantic_block block_id metadata = block_state_new
     (if block_id = 1 then STONE
      else if block_id = 2 then GRASS_BLOCK
      else if block_id = 3 then DIRT
      else if block_id = 4 then COBBLESTONE
      else if block_id = 5 \<and> metadata = 0 then OAK_PLANKS
      else if block_id = 7 then BEDROCK
      else if block_id = 12 \<and> metadata = 0 then SAND
      else if block_id = 20 then GLASS
      else if block_id = 24 \<and> metadata = 0 then SANDSTONE
      else if block_id = 45 then BRICKS
      else if block_id = 58 then CRAFTING_TABLE
      else if block_id = 54 then CHEST
      else if block_id = 61 then FURNACE
      else AIR)"

definition semantic_flattened_block_1_13_2 :: "i32 \<Rightarrow> block_state" where
  "semantic_flattened_block_1_13_2 state_id = block_state_new
     (let v = sint state_id in
      if v = 1 then STONE
      else if v = 8 \<or> v = 9 then GRASS_BLOCK
      else if v = 10 then DIRT
      else if v = 14 then COBBLESTONE
      else if v = 15 then OAK_PLANKS
      else if v = 33 then BEDROCK
      else if v = 66 then SAND
      else if v = 230 then GLASS
      else if v = 245 then SANDSTONE
      else if v = 1125 then BRICKS
      else if 1729 \<le> v \<and> v \<le> 1752 then CHEST
      else if v = 3051 then CRAFTING_TABLE
      else if 3068 \<le> v \<and> v \<le> 3075 then FURNACE
      else AIR)"

definition legacy_item :: "item_stack \<Rightarrow> (i16 \<times> u16) option" where
  "legacy_item stack =
     (if \<not> is_legacy_compatible stack then None
      else map_option (\<lambda>v. (v, is_damage stack))
        (map_of [(STONE, 1), (GRASS_BLOCK, 2), (DIRT, 3), (COBBLESTONE, 4), (OAK_PLANKS, 5), (OAK_LOG, 17), (SAND, 12),
           (GLASS, 20), (SANDSTONE, 24), (BRICKS, 45), (CRAFTING_TABLE, 58), (CHEST, 54), (FURNACE, 61), (STICK, 280)]
           (is_key stack)))"

definition flattened_item_id_1_13_2 :: "item_stack \<Rightarrow> i32 option" where
  "flattened_item_id_1_13_2 stack =
     (if \<not> is_legacy_compatible stack then None
      else map_of [(STONE, 1), (GRASS_BLOCK, 8), (DIRT, 9), (COBBLESTONE, 12), (OAK_PLANKS, 13), (OAK_LOG, 32),
           (BEDROCK, 25), (SAND, 26), (GLASS, 64), (SANDSTONE, 68), (BRICKS, 135), (CHEST, 149), (CRAFTING_TABLE, 152),
           (FURNACE, 154), (STICK, 497)] (is_key stack))"

definition semantic_item :: "i16 \<Rightarrow> u16 \<Rightarrow> u8 \<Rightarrow> item_stack" where
  "semantic_item item_id damage n =
     (let new = (\<lambda>key. item_stack_new key n damage) in
      if item_id = 1 then new STONE
      else if item_id = 2 then new GRASS_BLOCK
      else if item_id = 3 then new DIRT
      else if item_id = 4 then new COBBLESTONE
      else if item_id = 5 \<and> damage = 0 then new OAK_PLANKS
      else if item_id = 17 \<and> damage = 0 then new OAK_LOG
      else if item_id = 12 \<and> damage = 0 then new SAND
      else if item_id = 20 then new GLASS
      else if item_id = 24 \<and> damage = 0 then new SANDSTONE
      else if item_id = 45 then new BRICKS
      else if item_id = 58 \<and> damage = 0 then new CRAFTING_TABLE
      else if item_id = 54 \<and> damage = 0 then new CHEST
      else if item_id = 61 \<and> damage = 0 then new FURNACE
      else if item_id = 280 \<and> damage = 0 then new STICK
      else item_stack_unsupported n damage)"

definition semantic_flattened_item_1_13_2 :: "i32 \<Rightarrow> u8 \<Rightarrow> item_stack" where
  "semantic_flattened_item_1_13_2 item_id n =
     (case map_of [(1, STONE), (8, GRASS_BLOCK), (9, DIRT), (12, COBBLESTONE), (13, OAK_PLANKS), (32, OAK_LOG),
        (25, BEDROCK), (26, SAND), (64, GLASS), (68, SANDSTONE), (135, BRICKS), (149, CHEST), (152, CRAFTING_TABLE),
        (154, FURNACE), (497, STICK)] item_id of
        Some key \<Rightarrow> item_stack_new key n 0
      | None \<Rightarrow> item_stack_unsupported n (if 0 \<le> sint item_id \<and> sint item_id < 2 ^ 16 then ucast item_id else - 1))"

section \<open>Helpers\<close>

fun try_fold :: "('a \<Rightarrow> 's \<Rightarrow> 'e + 's) \<Rightarrow> 'a list \<Rightarrow> 's \<Rightarrow> 'e + 's" where
  "try_fold f [] s = Inr s"
| "try_fold f (x # xs) s = bind_res (f x s) (try_fold f xs)"

text \<open>\<open>filter_map(..).collect()\<close> of a closure that may panic.\<close>

definition try_filter_map :: "('a \<Rightarrow> 'e + 'b option) \<Rightarrow> 'a list \<Rightarrow> 'e + 'b list" where
  "try_filter_map f xs = bind_res (try_map f xs) (\<lambda>ys. Inr (List.map_filter (\<lambda>y. y) ys))"

definition tag_compound :: "(string \<times> nbt_tag) list \<Rightarrow> nbt_tag" where
  "tag_compound inserts = NbtCompound (bt_collect inserts)"

abbreviation nbt_i32 :: "int \<Rightarrow> nbt_tag" where
  "nbt_i32 v \<equiv> NbtInt (word_of_int v)"

definition get_nibble :: "bytes \<Rightarrow> nat \<Rightarrow> anvil_error + u8" where
  "get_nibble source index =
     (if index div 2 < length source
      then Inr (if even index then source ! (index div 2) AND 0x0f else drop_bit 4 (source ! (index div 2)) AND 0x0f)
      else Inl AnvilPanic)"

definition set_nibble :: "bytes \<Rightarrow> nat \<Rightarrow> u8 \<Rightarrow> anvil_error + bytes" where
  "set_nibble target index v =
     (let byte_index = index div 2 in
      if byte_index < length target
      then Inr (target[byte_index :=
        if even index then (target ! byte_index AND 0xf0) OR (v AND 0x0f)
        else (target ! byte_index AND 0x0f) OR push_bit 4 (v AND 0x0f)])
      else Inl AnvilPanic)"

definition region_chunk_index :: "chunk_pos \<Rightarrow> nat" where
  "region_chunk_index pos = nat (cp_x pos mod 32) + nat (cp_z pos mod 32) * 32"

section \<open>Writing a chunk\<close>

definition encode_item_slot :: "nat \<Rightarrow> item_stack option \<Rightarrow> anvil_error + nbt_tag option" where
  "encode_item_slot index stack =
     (case stack of
        None \<Rightarrow> Inr None
      | Some s \<Rightarrow>
          (case legacy_item s of
             None \<Rightarrow> Inr None
           | Some (item_id, damage) \<Rightarrow>
               if index < 128 \<and> is_count s < 128 \<and> damage < 0x8000
               then Inr (Some (tag_compound
                 [(''Slot'', NbtByte (word_of_nat index)), (''id'', NbtShort item_id), (''Count'', NbtByte (is_count s)),
                  (''Damage'', NbtShort damage)]))
               else Inl AnvilPanic))"

definition encode_item_slots :: "item_stack option list \<Rightarrow> anvil_error + nbt_tag list" where
  "encode_item_slots slots = try_filter_map (\<lambda>(index, stack). encode_item_slot index stack) (enumerate 0 slots)"

definition container_property :: "container_block_entity_state \<Rightarrow> string \<Rightarrow> i16" where
  "container_property c key = (case map_of (be_properties c) key of Some v \<Rightarrow> word_of_int v | None \<Rightarrow> 0)"

definition tile_position :: "block_pos \<Rightarrow> (string \<times> nbt_tag) list" where
  "tile_position p = [(''x'', nbt_i32 (bp_x p)), (''y'', nbt_i32 (bp_y p)), (''z'', nbt_i32 (bp_z p))]"

definition encode_tile_entity :: "block_pos \<Rightarrow> block_entity_state \<Rightarrow> anvil_error + nbt_tag option" where
  "encode_tile_entity position block_entity =
     (case block_entity of ContainerEntity c \<Rightarrow>
        if be_kind c = CHEST_BLOCK_ENTITY then
          bind_res (encode_item_slots (be_slots c)) (\<lambda>items.
            Inr (Some (tag_compound
              ([(''id'', NbtString ''Chest'')] @ tile_position position @ [(''Items'', NbtList 10 items)]))))
        else if be_kind c = FURNACE_BLOCK_ENTITY then
          bind_res (encode_item_slots (take 3 (be_slots c))) (\<lambda>items.
            Inr (Some (tag_compound
              ([(''id'', NbtString ''Furnace'')] @ tile_position position @
               [(''BurnTime'', NbtShort (container_property c FURNACE_BURN_LEFT)),
                (''BurnTimeMax'', NbtShort (container_property c FURNACE_BURN_MAX)),
                (''CookTime'', NbtShort (container_property c FURNACE_COOK_PROGRESS)),
                (''CookTimeTotal'', NbtShort (container_property c FURNACE_COOK_TOTAL_KEY)),
                (''Items'', NbtList 10 items)]))))
        else Inr None)"

definition put_block :: "section_block_index \<times> block_state \<Rightarrow> bytes \<times> bytes \<Rightarrow> anvil_error + (bytes \<times> bytes)" where
  "put_block e arrays =
     (case legacy_block (snd e) of (block_id, metadata) \<Rightarrow>
        let index = unat (into_raw (fst e)) in
        if index < length (fst arrays) \<and> block_id < 256
        then bind_res (set_nibble (snd arrays) index metadata) (\<lambda>data. Inr ((fst arrays)[index := ucast block_id], data))
        else Inl AnvilPanic)"

definition section_to_nbt :: "int \<times> chunk_section \<Rightarrow> anvil_error + nbt_tag" where
  "section_to_nbt e =
     bind_res (try_fold put_block (cs_blocks (snd e)) (replicate 4096 0, replicate 2048 0)) (\<lambda>(blocks, data).
       if - 128 \<le> fst e \<and> fst e < 128
       then Inr (tag_compound
         [(''Y'', NbtByte (word_of_int (fst e))), (''Blocks'', NbtByteArray blocks), (''Data'', NbtByteArray data),
          (''BlockLight'', NbtByteArray (replicate 2048 0)), (''SkyLight'', NbtByteArray (replicate 2048 0xff))])
       else Inl AnvilPanic)"

definition chunk_to_nbt :: "chunk_column \<Rightarrow> (block_pos, block_entity_state) btree_map \<Rightarrow> anvil_error + nbt_tag" where
  "chunk_to_nbt chunk block_entities =
     bind_res (try_filter_map (\<lambda>(position, block_entity). encode_tile_entity position block_entity)
       (filter (\<lambda>e. block_chunk_pos (fst e) = cc_pos chunk) block_entities)) (\<lambda>tile_entities.
     bind_res (try_map section_to_nbt
       (filter (\<lambda>e. 0 \<le> fst e \<and> fst e < 16 \<and> \<not> section_is_empty (snd e)) (cc_sections chunk))) (\<lambda>sections.
       Inr (tag_compound [(''Level'', tag_compound
         [(''xPos'', nbt_i32 (cp_x (cc_pos chunk))), (''zPos'', nbt_i32 (cp_z (cc_pos chunk))),
          (''TerrainPopulated'', NbtByte 1), (''LightPopulated'', NbtByte 1), (''LastUpdate'', NbtLong 0),
          (''InhabitedTime'', NbtLong 0), (''Biomes'', NbtByteArray (cc_biomes chunk)),
          (''HeightMap'', NbtIntArray (replicate 256 4)), (''Entities'', NbtList 10 []),
          (''TileEntities'', NbtList 10 tile_entities), (''Sections'', NbtList 10 sections)])])))"

section \<open>Reading a chunk\<close>

definition decode_item_entry :: "nbt_tag \<Rightarrow> item_stack option list \<Rightarrow> anvil_error + item_stack option list" where
  "decode_item_entry item slots =
     bind_res (as_compound item) (\<lambda>c.
     bind_res (byte_field c ''Slot'') (\<lambda>slot.
       if sint slot < 0 then Inl (invalid_data ''negative tile-entity slot index'')
       else if unat slot \<ge> length slots then Inr slots
       else bind_res (short_field c ''id'') (\<lambda>item_id. bind_res (short_field c ''Damage'') (\<lambda>damage.
         if sint damage < 0 then Inl (invalid_data ''negative item damage not supported'')
         else bind_res (byte_field c ''Count'') (\<lambda>n.
           if sint n < 0 then Inl (invalid_data ''negative item count not supported'')
           else Inr (slots[unat slot := Some (semantic_item item_id damage n)]))))))"

definition decode_tile_entity :: "nbt_tag \<Rightarrow> anvil_error + (block_pos \<times> block_entity_state) option" where
  "decode_tile_entity tile_entity =
     bind_res (as_compound tile_entity) (\<lambda>c.
       case string_field c ''id'' of
         Inl _ \<Rightarrow> Inr None
       | Inr kind \<Rightarrow>
           bind_res (int_field c ''x'') (\<lambda>x. bind_res (int_field c ''y'') (\<lambda>y. bind_res (int_field c ''z'') (\<lambda>z.
             let position = block_pos_new (sint x) (sint y) (sint z) in
             if kind = ''Chest'' \<or> kind = ''Furnace'' then
               bind_res
                 (case list_field c ''Items'' of
                    Inr items \<Rightarrow> try_fold decode_item_entry items (replicate (if kind = ''Chest'' then 27 else 3) None)
                  | Inl _ \<Rightarrow> Inr (replicate (if kind = ''Chest'' then 27 else 3) None)) (\<lambda>slots.
                 Inr (Some (position, ContainerEntity
                   (if kind = ''Chest''
                    then \<lparr>be_kind = CHEST_BLOCK_ENTITY, be_slots = slots, be_properties = []\<rparr>
                    else \<lparr>be_kind = FURNACE_BLOCK_ENTITY, be_slots = slots, be_properties = bt_collect
                      [(FURNACE_BURN_LEFT, sint (unwrap_or (short_field c ''BurnTime'') 0)),
                       (FURNACE_BURN_MAX, sint (unwrap_or (short_field c ''BurnTimeMax'') 0)),
                       (FURNACE_COOK_PROGRESS, sint (unwrap_or (short_field c ''CookTime'') 0)),
                       (FURNACE_COOK_TOTAL_KEY, sint (unwrap_or (short_field c ''CookTimeTotal'') 200))]\<rparr>))))
             else Inr None))))"

definition get_block_entry :: "bytes \<Rightarrow> int \<Rightarrow> nat \<times> u8 \<Rightarrow> chunk_column \<Rightarrow> anvil_error + chunk_column" where
  "get_block_entry metadata section_y e chunk =
     bind_res (get_nibble metadata (fst e)) (\<lambda>metadata_value.
       let state = semantic_block (ucast (snd e)) metadata_value in
       if bs_key state = AIR then Inr chunk
       else if fst e \<ge> 2 ^ 16 then Inl AnvilPanic
       else case expand_block_index (word_of_nat (fst e)) of (x, y, z) \<Rightarrow>
         Inr (column_set_block x (section_y * 16 + uint y) z (Some state) chunk))"

definition read_section :: "nbt_tag \<Rightarrow> chunk_column \<Rightarrow> anvil_error + chunk_column" where
  "read_section tag chunk =
     bind_res (as_compound tag) (\<lambda>c.
     bind_res (byte_field c ''Y'') (\<lambda>section_y.
     bind_res (byte_array_field c ''Blocks'') (\<lambda>blocks.
     bind_res (byte_array_field c ''Data'') (\<lambda>metadata.
       try_fold (get_block_entry metadata (sint section_y)) (enumerate 0 blocks) chunk))))"

definition read_tile_entity :: "nbt_tag \<Rightarrow> (block_pos, block_entity_state) btree_map \<Rightarrow>
    anvil_error + (block_pos, block_entity_state) btree_map" where
  "read_tile_entity tag block_entities =
     bind_res (decode_tile_entity tag) (\<lambda>e.
       Inr (case e of None \<Rightarrow> block_entities | Some (position, block_entity) \<Rightarrow> bt_insert position block_entity block_entities))"

definition chunk_from_nbt :: "nbt_tag \<Rightarrow> anvil_error + (chunk_column \<times> (block_pos, block_entity_state) btree_map)" where
  "chunk_from_nbt tag =
     bind_res (as_compound tag) (\<lambda>root.
     bind_res (compound_field root ''Level'') (\<lambda>level.
     bind_res (int_field level ''xPos'') (\<lambda>x.
     bind_res (int_field level ''zPos'') (\<lambda>z.
     bind_res (list_field level ''Sections'') (\<lambda>sections.
     bind_res (try_fold read_section sections ((column_new \<lparr>cp_x = sint x, cp_z = sint z\<rparr>)\<lparr>cc_biomes :=
       unwrap_or (byte_array_field level ''Biomes'') (replicate 256 1)\<rparr>)) (\<lambda>chunk.
     bind_res (case list_field level ''TileEntities'' of
         Inr tile_entities \<Rightarrow> try_fold read_tile_entity tile_entities []
       | Inl _ \<Rightarrow> Inr []) (\<lambda>block_entities.
       Inr (chunk, block_entities))))))))"

section \<open>What survives\<close>

definition archived_block :: "block_state \<Rightarrow> block_state option" where
  "archived_block state =
     (if bs_key state \<in> set [STONE, GRASS_BLOCK, DIRT, COBBLESTONE, OAK_PLANKS, BEDROCK, SAND, GLASS, SANDSTONE, BRICKS,
        CRAFTING_TABLE, CHEST, FURNACE]
      then Some (block_state_new (bs_key state)) else None)"

definition archived_stack :: "item_stack \<Rightarrow> item_stack option" where
  "archived_stack stack =
     (case legacy_item stack of None \<Rightarrow> None | Some (item_id, damage) \<Rightarrow> Some (semantic_item item_id damage (is_count stack)))"

text \<open>Keep the entries of an ordered map that a function keeps.\<close>

definition bt_filter_map :: "('k \<times> 'v \<Rightarrow> 'w option) \<Rightarrow> ('k::linorder, 'v) btree_map \<Rightarrow> ('k, 'w) btree_map" where
  "bt_filter_map f m = List.map_filter (\<lambda>e. map_option (Pair (fst e)) (f e)) m"

definition archived_section :: "int \<times> chunk_section \<Rightarrow> chunk_section option" where
  "archived_section e =
     (let blocks = bt_filter_map (\<lambda>(_, state). archived_block state) (cs_blocks (snd e)) in
      if 0 \<le> fst e \<and> fst e < 16 \<and> blocks \<noteq> [] then Some \<lparr>cs_y = fst e, cs_blocks = blocks\<rparr> else None)"

definition archived_column :: "chunk_column \<Rightarrow> chunk_column" where
  "archived_column c = c\<lparr>cc_sections := bt_filter_map archived_section (cc_sections c)\<rparr>"

definition archived_slots :: "nat \<Rightarrow> item_stack option list \<Rightarrow> item_stack option list" where
  "archived_slots n slots = map (\<lambda>i. if i < length slots then Option.bind (slots ! i) archived_stack else None) [0..<n]"

definition archived_entity :: "block_entity_state \<Rightarrow> block_entity_state option" where
  "archived_entity block_entity =
     (case block_entity of ContainerEntity c \<Rightarrow>
        if be_kind c = CHEST_BLOCK_ENTITY then
          Some (ContainerEntity \<lparr>be_kind = CHEST_BLOCK_ENTITY, be_slots = archived_slots 27 (be_slots c), be_properties = []\<rparr>)
        else if be_kind c = FURNACE_BLOCK_ENTITY then
          Some (ContainerEntity \<lparr>be_kind = FURNACE_BLOCK_ENTITY, be_slots = archived_slots 3 (be_slots c),
            be_properties = bt_collect (map (\<lambda>key. (key, sint (container_property c key)))
              [FURNACE_BURN_LEFT, FURNACE_BURN_MAX, FURNACE_COOK_PROGRESS, FURNACE_COOK_TOTAL_KEY])\<rparr>)
        else None)"

definition archived_entities :: "chunk_pos \<Rightarrow> (block_pos, block_entity_state) btree_map \<Rightarrow>
    (block_pos, block_entity_state) btree_map" where
  "archived_entities pos block_entities =
     bt_filter_map (\<lambda>(p, block_entity). if block_chunk_pos p = pos then archived_entity block_entity else None) block_entities"

text \<open>What can be written without a panic: slots, counts and damages fit their fields.\<close>

definition stack_storable :: "item_stack \<Rightarrow> bool" where
  "stack_storable s \<longleftrightarrow> legacy_item s = None \<or> is_count s < 128 \<and> is_damage s < 0x8000"

definition slots_storable :: "item_stack option list \<Rightarrow> bool" where
  "slots_storable slots \<longleftrightarrow> length slots \<le> 128 \<and> list_all (pred_option stack_storable) slots"

definition entity_storable :: "block_pos \<times> block_entity_state \<Rightarrow> bool" where
  "entity_storable e \<longleftrightarrow> i32_ok (bp_x (fst e)) \<and> i32_ok (bp_y (fst e)) \<and> i32_ok (bp_z (fst e)) \<and>
     slots_storable (be_slots (container_state (snd e)))"

definition section_storable :: "chunk_section \<Rightarrow> bool" where
  "section_storable s \<longleftrightarrow> bt_ok (cs_blocks s) \<and> (\<forall>e \<in> set (cs_blocks s). into_raw (fst e) < 0x1000)"

definition column_storable :: "chunk_column \<Rightarrow> bool" where
  "column_storable c \<longleftrightarrow> i32_ok (cp_x (cc_pos c)) \<and> i32_ok (cp_z (cc_pos c)) \<and> bt_ok (cc_sections c) \<and>
     (\<forall>e \<in> set (cc_sections c). section_storable (snd e)) \<and> length (cc_biomes c) < 2 ^ 31"

section \<open>Helper lemmas\<close>

lemma try_map_append: "try_map f (xs @ ys) = bind_res (try_map f xs) (\<lambda>us. bind_res (try_map f ys) (\<lambda>vs. Inr (us @ vs)))"
  by (induction xs) (auto simp: bind_res_def split: sum.split)

lemma try_filter_map_Nil [simp]: "try_filter_map f [] = Inr []"
  by (simp add: try_filter_map_def map_filter_simps)

lemma try_filter_map_Cons:
  "try_filter_map f (x # xs) = bind_res (f x) (\<lambda>y. bind_res (try_filter_map f xs) (\<lambda>ys.
     Inr (case y of None \<Rightarrow> ys | Some v \<Rightarrow> v # ys)))"
  by (auto simp: try_filter_map_def bind_res_def map_filter_simps split: sum.split option.split)

lemma map_filter_cong: "(\<And>x. x \<in> set xs \<Longrightarrow> f x = g x) \<Longrightarrow> List.map_filter f xs = List.map_filter g xs"
  by (induction xs) (auto simp: map_filter_simps split: option.split)

lemma length_map_filter_le: "length (List.map_filter f xs) \<le> length xs"
  by (simp add: List.map_filter_def)

lemma bt_filter_map_Nil [simp]: "bt_filter_map f [] = []"
  by (simp add: bt_filter_map_def map_filter_simps)

lemma bt_filter_map_Cons:
  "bt_filter_map f (e # m) = (case f e of None \<Rightarrow> bt_filter_map f m | Some v \<Rightarrow> (fst e, v) # bt_filter_map f m)"
  by (simp add: bt_filter_map_def map_filter_simps split: option.split)

lemma set_bt_filter_map: "(k, w) \<in> set (bt_filter_map f m) \<longleftrightarrow> (\<exists>v. (k, v) \<in> set m \<and> f (k, v) = Some w)"
  by (induction m) (auto simp: bt_filter_map_Cons split: option.split)

lemma bt_ok_filter_map [simp]: "bt_ok m \<Longrightarrow> bt_ok (bt_filter_map f m)"
proof (induction m)
  case (Cons e m)
  have "fst e < k" if "(k, w) \<in> set (bt_filter_map f m)" for k w
    using that Cons.prems by (auto simp: set_bt_filter_map bt_ok_def)
  moreover have "bt_ok m" using Cons.prems by (simp add: bt_ok_def)
  ultimately show ?case using Cons.IH by (auto simp: bt_filter_map_Cons bt_ok_def split: option.split)
qed simp

lemma map_of_bt_filter_map:
  "bt_ok m \<Longrightarrow> map_of (bt_filter_map f m) k = Option.bind (map_of m k) (\<lambda>v. f (k, v))"
proof (induction m)
  case (Cons e m)
  have "map_of m (fst e) = None"
    using bt_ok_distinct [OF Cons.prems] by (auto simp: map_of_eq_None_iff)
  moreover have "bt_ok m" using Cons.prems by (simp add: bt_ok_def)
  ultimately show ?case using Cons.IH by (cases e) (auto simp: bt_filter_map_Cons split: option.split)
qed simp

lemma as_compound_tag [simp]: "as_compound (tag_compound kvs) = Inr (bt_collect kvs)"
  by (simp add: tag_compound_def)

lemma nbt_ok_compound: "list_all (\<lambda>e. nbt_string_ok (fst e) \<and> nbt_ok (snd e)) kvs \<Longrightarrow> nbt_ok (tag_compound kvs)"
  using set_bt_collect [of kvs] by (auto simp: tag_compound_def list_all_iff)

lemma tag_type_compound [simp]: "tag_type (tag_compound kvs) = 10"
  by (simp add: tag_compound_def)

lemmas field_defs = byte_field_def short_field_def int_field_def long_field_def string_field_def byte_array_field_def
  list_field_def compound_field_def float_field_def map_of_bt_collect

lemma nbt_string_ok_literal: "list_all (\<lambda>c. of_char c < (128 :: nat)) s \<Longrightarrow> length s < 2 ^ 16 \<Longrightarrow> nbt_string_ok s"
proof (induction s)
  case (Cons c s)
  then have "unat (word_of_nat (of_char c) :: u8) < 128"
    by (simp add: unat_of_nat take_bit_nat_eq_self)
  then have "(word_of_nat (of_char c) :: u8) < 0x80" by (simp add: word_less_nat_alt)
  then show ?case using Cons by (auto simp: nbt_string_ok_def as_bytes_def)
qed (simp add: nbt_string_ok_def as_bytes_def)

section \<open>Block arrays\<close>

definition block_byte :: "block_state \<Rightarrow> u8" where
  "block_byte state = ucast (fst (legacy_block state))"

lemma legacy_block_small: "fst (legacy_block state) < 256 \<and> snd (legacy_block state) = 0"
  by (simp add: legacy_block_def)

lemma legacy_block_keys:
  "list_all (\<lambda>k. semantic_block (ucast (ucast (fst (legacy_block (block_state_new k))) :: u8)) 0 = block_state_new k)
     [STONE, GRASS_BLOCK, DIRT, COBBLESTONE, OAK_PLANKS, BEDROCK, SAND, GLASS, SANDSTONE, BRICKS, CRAFTING_TABLE, CHEST, FURNACE]"
  by (simp add: legacy_block_def block_state_new_def semantic_block_def catalog_keys)

lemma legacy_block_other: "archived_block state = None \<Longrightarrow> legacy_block state = (0, 0)"
  by (simp add: archived_block_def legacy_block_def split: if_splits)

lemma semantic_block_byte:
  "semantic_block (ucast (block_byte state)) 0 = (case archived_block state of Some v \<Rightarrow> v | None \<Rightarrow> block_state_new AIR)"
proof (cases "archived_block state")
  case None
  then show ?thesis by (simp add: block_byte_def legacy_block_other semantic_block_def)
next
  case (Some v)
  then have v: "v = block_state_new (bs_key state)"
    and key: "bs_key state \<in> set [STONE, GRASS_BLOCK, DIRT, COBBLESTONE, OAK_PLANKS, BEDROCK, SAND, GLASS, SANDSTONE, BRICKS,
        CRAFTING_TABLE, CHEST, FURNACE]"
    by (auto simp only: archived_block_def option.inject option.distinct split: if_splits)
  have "legacy_block state = legacy_block v" by (simp add: legacy_block_def v block_state_new_def)
  moreover have "semantic_block (ucast (ucast (fst (legacy_block (block_state_new (bs_key state)))) :: u8)) 0 =
      block_state_new (bs_key state)"
    by (rule bspec [OF legacy_block_keys [unfolded list_all_iff] key])
  ultimately show ?thesis using Some by (simp add: block_byte_def v)
qed

lemma archived_block_not_air: "archived_block state = Some v \<Longrightarrow> bs_key v \<noteq> AIR"
  by (auto simp: archived_block_def block_state_new_def catalog_keys split: if_splits)

lemma set_nibble_zero: "index < 4096 \<Longrightarrow> set_nibble (replicate 2048 0) index 0 = Inr (replicate 2048 0)"
  by (auto simp: set_nibble_def Let_def intro!: nth_equalityI simp: nth_list_update)

lemma get_nibble_zero: "index < 4096 \<Longrightarrow> get_nibble (replicate 2048 0) index = Inr 0"
  by (simp add: get_nibble_def)

lemma put_blocks:
  assumes "\<And>e. e \<in> set bs \<Longrightarrow> unat (into_raw (fst e)) < length arr" and "length arr = 4096"
  shows "try_fold put_block bs (arr, replicate 2048 0) =
    Inr (fold (\<lambda>e arr. arr[unat (into_raw (fst e)) := block_byte (snd e)]) bs arr, replicate 2048 0)"
  using assms
proof (induction bs arbitrary: arr)
  case (Cons e bs)
  have "put_block e (arr, replicate 2048 0) = Inr (arr[unat (into_raw (fst e)) := block_byte (snd e)], replicate 2048 0)"
    using Cons.prems legacy_block_small [of "snd e"] set_nibble_zero [of "unat (into_raw (fst e))"]
    by (auto simp: put_block_def Let_def block_byte_def split: prod.split)
  then show ?case using Cons by simp
qed simp

lemma length_fold_update [simp]: "length (fold (\<lambda>e arr. arr[f e := g e]) bs arr) = length arr"
  by (induction bs arbitrary: arr) auto

lemma nth_fold_update:
  assumes "i < length arr" and "i < 2 ^ 16"
  shows "fold (\<lambda>e arr. arr[unat (into_raw (fst e)) := g (snd e)]) bs arr ! i =
    (case map_of (rev bs) (SectionBlockIndex (word_of_nat i)) of Some st \<Rightarrow> g st | None \<Rightarrow> arr ! i)"
  using assms
proof (induction bs arbitrary: arr)
  case (Cons e bs)
  have "unat (into_raw (fst e)) = i \<longleftrightarrow> fst e = SectionBlockIndex (word_of_nat i)"
  proof -
    have "unat (word_of_nat i :: u16) = i" using Cons.prems by (simp add: unat_of_nat take_bit_nat_eq_self)
    then show ?thesis by (metis section_block_index.collapse section_block_index.sel word_unat_eq_iff)
  qed
  then show ?case using Cons.IH [of "arr[unat (into_raw (fst e)) := g (snd e)]"] Cons.prems
    by (auto simp: nth_list_update map_add_def split: option.split)
qed simp

text \<open>The blocks that reading an array sets: those whose byte is not air, in the order of their index.\<close>

definition array_blocks :: "bytes \<Rightarrow> (section_block_index, block_state) btree_map" where
  "array_blocks arr = List.map_filter (\<lambda>(i, b). let state = semantic_block (ucast b) 0 in
     if bs_key state = AIR then None else Some (SectionBlockIndex (word_of_nat i), state)) (enumerate 0 arr)"

text \<open>A section's ordered map, from what it holds at each of its 4096 indices.\<close>

abbreviation index_at :: "nat \<Rightarrow> section_block_index" where
  "index_at i \<equiv> SectionBlockIndex (word_of_nat i)"

definition index_map :: "(nat \<Rightarrow> 'v option) \<Rightarrow> (section_block_index, 'v) btree_map" where
  "index_map f = List.map_filter (\<lambda>i. map_option (Pair (index_at i)) (f i)) [0..<4096]"

lemma unat_index_at: "i < 4096 \<Longrightarrow> unat (word_of_nat i :: u16) = i"
  by (simp add: unat_of_nat take_bit_nat_eq_self)

lemma index_map_keys: "map fst (index_map f) = map index_at (filter (\<lambda>i. f i \<noteq> None) [0..<4096])"
  by (simp add: index_map_def List.map_filter_def comp_def cong: map_cong) (auto intro!: map_cong filter_cong)

lemma bt_ok_index_map: "bt_ok (index_map f)"
  unfolding bt_ok_def index_map_keys
  by (auto simp: sorted_wrt_map less_section_block_index_def word_less_nat_alt unat_index_at
      intro!: sorted_wrt_mono_rel [OF _ sorted_wrt_filter [OF sorted_wrt_upt]])

lemma map_of_index_map:
  "map_of (index_map f) k = (if into_raw k < 0x1000 then f (unat (into_raw k)) else None)"
proof (cases "into_raw k < 0x1000")
  case True
  define i where "i = unat (into_raw k)"
  have i: "i < 4096" "k = index_at i" using True by (simp_all add: i_def word_less_nat_alt)
  have inj: "j = i" if "j < 4096" "index_at j = index_at i" for j
    using that unat_index_at [of i] unat_index_at [of j] i by (metis section_block_index.inject)
  have "map_of (index_map f) k = f i"
  proof (cases "f i")
    case None
    then have "k \<notin> set (map fst (index_map f))" unfolding index_map_keys using inj i by auto
    then show ?thesis using None by (simp add: map_of_eq_None_iff)
  next
    case (Some v)
    then have "(k, v) \<in> set (index_map f)" using i by (force simp: index_map_def List.map_filter_def image_iff)
    then show ?thesis using Some map_of_is_SomeI [OF bt_ok_distinct [OF bt_ok_index_map]] by metis
  qed
  then show ?thesis using True by (simp add: i_def)
next
  case False
  have "k \<notin> set (map fst (index_map f))"
    unfolding index_map_keys using False unat_index_at by (auto simp: word_less_nat_alt)
  then show ?thesis using False by (simp add: map_of_eq_None_iff)
qed

lemma array_blocks_index_map:
  assumes "length arr = 4096"
    and "\<And>i. i < 4096 \<Longrightarrow> semantic_block (ucast (arr ! i)) 0 = (case f i of Some v \<Rightarrow> v | None \<Rightarrow> block_state_new AIR)"
    and "\<And>i v. f i = Some v \<Longrightarrow> bs_key v \<noteq> AIR"
  shows "array_blocks arr = index_map f"
proof -
  have "enumerate 0 arr = map (\<lambda>i. (i, arr ! i)) [0..<4096]"
    using assms(1) by (intro nth_equalityI) (simp_all add: nth_enumerate_eq)
  then have "array_blocks arr = List.map_filter (\<lambda>i. let st = semantic_block (ucast (arr ! i)) 0 in
      if bs_key st = AIR then None else Some (index_at i, st)) [0..<4096]"
    by (simp add: array_blocks_def List.map_filter_def filter_map comp_def)
  also have "\<dots> = index_map f"
    unfolding index_map_def
  proof (rule map_filter_cong)
    fix i assume "i \<in> set [0..<4096 :: nat]"
    then show "(let st = semantic_block (ucast (arr ! i)) 0 in if bs_key st = AIR then None else Some (index_at i, st)) =
        map_option (Pair (index_at i)) (f i)"
      using assms(2) [of i] assms(3) [of i] by (cases "f i") (auto simp: Let_def block_state_new_def)
  qed
  finally show ?thesis .
qed

lemma array_blocks_written:
  assumes bs: "bt_ok bs" "\<And>e. e \<in> set bs \<Longrightarrow> into_raw (fst e) < 0x1000"
  shows "array_blocks (fold (\<lambda>e arr. arr[unat (into_raw (fst e)) := block_byte (snd e)]) bs (replicate 4096 0)) =
    bt_filter_map (\<lambda>(_, st). archived_block st) bs" (is "array_blocks ?arr = _")
proof -
  let ?f = "\<lambda>i. Option.bind (map_of bs (index_at i)) archived_block"
  have rev: "map_of (rev bs) = map_of bs"
    using bt_ok_distinct [OF bs(1)] by (metis distinct_rev map_of_inject_set rev_map set_rev)
  have arr: "semantic_block (ucast (?arr ! i)) 0 = (case ?f i of Some v \<Rightarrow> v | None \<Rightarrow> block_state_new AIR)" if "i < 4096" for i
  proof -
    have "?arr ! i = (case map_of bs (index_at i) of Some st \<Rightarrow> block_byte st | None \<Rightarrow> 0)"
      using nth_fold_update [of i "replicate 4096 0" block_byte bs] that rev nth_replicate [of i 4096 "0 :: u8"]
      by (simp split: option.split)
    moreover have "semantic_block 0 0 = block_state_new AIR" by (simp add: semantic_block_def)
    ultimately show ?thesis using semantic_block_byte by (auto split: option.split)
  qed
  have "array_blocks ?arr = index_map ?f"
    by (rule array_blocks_index_map) (auto simp: arr Option.bind_eq_Some_conv dest: archived_block_not_air)
  also have "\<dots> = bt_filter_map (\<lambda>(_, st). archived_block st) bs"
  proof (rule bt_ok_eqI [OF bt_ok_index_map])
    have "map_of bs k = None" if "\<not> into_raw k < 0x1000" for k
      using bs(2) that by (auto simp: map_of_eq_None_iff)
    then show "map_of (index_map ?f) = map_of (bt_filter_map (\<lambda>(_, st). archived_block st) bs)"
      using bs(1) by (auto simp: map_of_index_map map_of_bt_filter_map fun_eq_iff)
  qed (simp add: bs)
  finally show ?thesis .
qed

section \<open>Reading back sections\<close>

lemma bt_insert_last: "\<forall>e \<in> set m. fst e < k \<Longrightarrow> bt_insert k v (m @ [(k, w)]) = m @ [(k, v)]"
  by (induction m) auto

lemma nibble_of_word: "unat (ucast (w AND 0x0F :: u16) :: u8) < 16"
proof -
  have "unat (ucast (w AND 0x0F) :: u8) \<le> unat (w AND 0x0F)"
    unfolding unsigned_ucast_eq by (rule take_bit_nat_less_eq_self)
  also have "\<dots> < 16" unfolding and_0x0F unat_take_bit by simp
  finally show ?thesis .
qed

lemma expand_local_y:
  assumes "expand_block_index raw = (x, y, z)"
  shows "uint y < 16" and "0 \<le> uint y"
proof -
  have "unat y < 16"
    using assms nibble_of_word [of "drop_bit 8 (into_raw (section_index_from_raw raw))"]
    by (simp add: expand_block_index_def section_index_expand_def)
  then have "int (unat y) < 16" by linarith
  then show "uint y < 16" by simp
qed simp

text \<open>\<open>placed y blocks c\<close>: the column with a section of these blocks on top, unless there are none.\<close>

definition placed :: "int \<Rightarrow> (section_block_index, block_state) btree_map \<Rightarrow> chunk_column \<Rightarrow> chunk_column" where
  "placed y blocks c = (if blocks = [] then c
     else c\<lparr>cc_sections := cc_sections c @ [(y, \<lparr>cs_y = y, cs_blocks = blocks\<rparr>)]\<rparr>)"

lemma set_block_placed:
  assumes below: "\<forall>e \<in> set (cc_sections c). fst e < y" and raw: "expand_block_index raw = (x, ly, z)"
  shows "column_set_block x (y * 16 + uint ly) z (Some st) (placed y blocks c) =
    placed y (bt_insert (section_index_from_raw raw) st blocks) c"
proof -
  have ly: "0 \<le> uint ly" "uint ly < 16" using expand_local_y [OF raw] by blast+
  have y: "(y * 16 + uint ly) div SECTION_HEIGHT = y" using ly by (simp add: SECTION_HEIGHT_def)
  have "section_local_y (y * 16 + uint ly) = word_of_int (uint ly)"
    using ly by (simp add: section_local_y_def SECTION_HEIGHT_def mod_pos_pos_trivial)
  then have local: "section_local_y (y * 16 + uint ly) = ly" by simp
  have idx: "flatten_block_index x ly z = section_index_from_raw raw" using flatten_expand [of raw] raw by simp
  have fresh: "map_of (cc_sections c) y = None" using below by (auto simp: map_of_eq_None_iff)
  then have last: "map_of (cc_sections c @ [(y, s)]) y = Some s" for s by (simp add: map_add_def)
  show ?thesis
    using fresh last bt_insert_snoc [OF below] bt_insert_last [OF below]
    by (simp add: column_set_block_def y local Let_def placed_def section_set_block_def section_is_empty_def idx section_new_def)
qed

lemma read_blocks:
  assumes below: "\<forall>e \<in> set (cc_sections c). fst e < y" and "\<And>e. e \<in> set es \<Longrightarrow> fst e < 4096"
  shows "try_fold (get_block_entry (replicate 2048 0) y) es (placed y blocks c) =
    Inr (placed y (fold (\<lambda>(k, v). bt_insert k v) (List.map_filter (\<lambda>(i, b). let state = semantic_block (ucast b) 0 in
       if bs_key state = AIR then None else Some (index_at i, state)) es) blocks) c)"
  using assms(2)
proof (induction es arbitrary: blocks)
  case Nil
  then show ?case by (simp add: map_filter_simps)
next
  case (Cons e es)
  obtain i b where e: "e = (i, b)" by (cases e)
  have i: "i < 4096" using Cons.prems [of e] e by simp
  have raw: "section_index_from_raw (word_of_nat i) = index_at i"
    using from_raw_into_raw [of "index_at i"] unat_index_at [OF i] i by (simp add: word_less_nat_alt)
  let ?st = "semantic_block (ucast b) 0"
  have "get_block_entry (replicate 2048 0) y e (placed y blocks c) =
      Inr (if bs_key ?st = AIR then placed y blocks c else placed y (bt_insert (index_at i) ?st blocks) c)"
    using i set_block_placed [OF below] raw
    by (auto simp: get_block_entry_def e get_nibble_zero Let_def split: prod.split)
  then show ?case
    using Cons.IH Cons.prems by (simp add: e map_filter_simps Let_def)
qed

lemma section_roundtrip:
  assumes s: "section_storable s" and y: "0 \<le> y" "y < 16"
  obtains tag where "section_to_nbt (y, s) = Inr tag" and "nbt_ok tag" and "tag_type tag = 10"
    and "\<And>c. \<forall>e \<in> set (cc_sections c). fst e < y \<Longrightarrow>
      read_section tag c = Inr (placed y (bt_filter_map (\<lambda>(_, st). archived_block st) (cs_blocks s)) c)"
proof -
  let ?arr = "fold (\<lambda>e arr. arr[unat (into_raw (fst e)) := block_byte (snd e)]) (cs_blocks s) (replicate 4096 0)"
  let ?kvs = "[(''Y'', NbtByte (word_of_int y)), (''Blocks'', NbtByteArray ?arr), (''Data'', NbtByteArray (replicate 2048 0)),
    (''BlockLight'', NbtByteArray (replicate 2048 0)), (''SkyLight'', NbtByteArray (replicate 2048 0xff))]"
  have ok: "bt_ok (cs_blocks s)" "\<And>e. e \<in> set (cs_blocks s) \<Longrightarrow> into_raw (fst e) < 0x1000"
    using s by (auto simp: section_storable_def)
  have "try_fold put_block (cs_blocks s) (replicate 4096 0, replicate 2048 0) = Inr (?arr, replicate 2048 0)"
    by (rule put_blocks) (use ok(2) in \<open>auto simp: word_less_nat_alt\<close>)
  then have "section_to_nbt (y, s) = Inr (tag_compound ?kvs)" using y by (simp add: section_to_nbt_def)
  moreover have "nbt_ok (tag_compound ?kvs)"
    by (rule nbt_ok_compound) (simp add: nbt_string_ok_literal)
  moreover have "read_section (tag_compound ?kvs) c =
      Inr (placed y (bt_filter_map (\<lambda>(_, st). archived_block st) (cs_blocks s)) c)"
    if below: "\<forall>e \<in> set (cc_sections c). fst e < y" for c
  proof -
    have "sint (word_of_int y :: i8) = y" using y by (simp add: signed_of_int signed_take_bit_int_eq_self)
    then have "read_section (tag_compound ?kvs) c =
        try_fold (get_block_entry (replicate 2048 0) y) (enumerate 0 ?arr) (placed y [] c)"
      by (simp add: read_section_def field_defs placed_def)
    also have "\<dots> = Inr (placed y (bt_collect (array_blocks ?arr)) c)"
      by (subst read_blocks [OF below]) (auto simp: in_set_enumerate_eq array_blocks_def bt_collect_def)
    finally show ?thesis using ok by (simp add: array_blocks_written bt_collect_id)
  qed
  ultimately show ?thesis using that [of "tag_compound ?kvs"] by simp
qed

lemma column_sections_roundtrip:
  assumes "\<forall>e \<in> set es. section_storable (snd e) \<and> 0 \<le> fst e \<and> fst e < 16" and "bt_ok es"
    and "\<forall>e \<in> set (cc_sections c). \<forall>e' \<in> set es. fst e < fst e'"
  shows "\<exists>tags. try_map section_to_nbt es = Inr tags \<and> list_all (\<lambda>t. tag_type t = 10 \<and> nbt_ok t) tags \<and> length tags = length es \<and>
    try_fold read_section tags c = Inr (c\<lparr>cc_sections := cc_sections c @ bt_filter_map archived_section es\<rparr>)"
  using assms
proof (induction es arbitrary: c)
  case Nil
  then show ?case by simp
next
  case (Cons e es)
  obtain y s where e: "e = (y, s)" by (cases e)
  let ?blocks = "bt_filter_map (\<lambda>(_, st). archived_block st) (cs_blocks s)"
  obtain tag where tag: "section_to_nbt e = Inr tag" "nbt_ok tag" "tag_type tag = 10"
    and read: "read_section tag c = Inr (placed y ?blocks c)"
    using section_roundtrip [of s y] Cons.prems e by (metis fst_conv snd_conv list.set_intros(1))
  have arch: "placed y ?blocks c = c\<lparr>cc_sections := cc_sections c @ bt_filter_map archived_section [e]\<rparr>"
    using Cons.prems(1) by (auto simp: e placed_def bt_filter_map_Cons archived_section_def Let_def)
  have keys: "fst e' = y" if "e' \<in> set (bt_filter_map archived_section [e])" for e'
    using that by (auto simp: bt_filter_map_Cons e split: option.split_asm)
  have "\<forall>e1 \<in> set (cc_sections (placed y ?blocks c)). \<forall>e' \<in> set es. fst e1 < fst e'"
    using Cons.prems(2,3) keys unfolding arch by (auto simp: bt_ok_def e)
  then obtain tags where "try_map section_to_nbt es = Inr tags" "list_all (\<lambda>t. tag_type t = 10 \<and> nbt_ok t) tags"
    "length tags = length es" "try_fold read_section tags (placed y ?blocks c) = Inr ((placed y ?blocks c)\<lparr>cc_sections :=
      cc_sections (placed y ?blocks c) @ bt_filter_map archived_section es\<rparr>)"
    using Cons.IH [of "placed y ?blocks c"] Cons.prems by (auto simp: bt_ok_def)
  then show ?case
    using tag read unfolding arch
    by (intro exI [of _ "tag # tags"]) (simp add: bt_filter_map_Cons split: option.split)
qed

section \<open>Reading back block entities\<close>

lemma sint_small:
  assumes "unat w < 2 ^ (LENGTH('a::len) - 1)"
  shows "sint (w :: 'a word) = int (unat w)"
proof -
  have "int (unat w) < 2 ^ (LENGTH('a) - 1)" using assms by (metis of_nat_less_iff of_nat_numeral of_nat_power)
  moreover have "- (2 ^ (LENGTH('a) - 1)) \<le> int (unat w)" by (rule order_trans [of _ 0]) simp_all
  ultimately show ?thesis by (simp add: sint_uint signed_take_bit_int_eq_self)
qed

lemmas sint_small_byte = sint_small [where ?'a = 8, simplified]
lemmas sint_small_short = sint_small [where ?'a = 16, simplified]

text \<open>
  Items are written as a list of compounds that name their slot, and read by filling the slots. \<open>enter_slot\<close> is
  what reading the entry of a slot does; the lemma composes entries.
\<close>

definition enter_slot :: "('i \<Rightarrow> 'v \<Rightarrow> 's \<Rightarrow> 's) \<Rightarrow> 'i \<Rightarrow> 'v option \<Rightarrow> 's \<Rightarrow> 's" where
  "enter_slot put i v s = (case v of None \<Rightarrow> s | Some x \<Rightarrow> put i x s)"

lemma entries_roundtrip:
  assumes "\<And>i x. (i, x) \<in> set es \<Longrightarrow> \<exists>t. enc i x = Inr t \<and>
    (case t of None \<Rightarrow> f i x = None | Some tag \<Rightarrow> G tag \<and> (\<forall>s. dec tag s = Inr (enter_slot put i (f i x) s)))"
  shows "\<exists>tags. try_filter_map (\<lambda>(i, x). enc i x) es = Inr tags \<and> list_all G tags \<and> length tags \<le> length es \<and>
    (\<forall>s. try_fold dec tags s = Inr (fold (\<lambda>(i, x). enter_slot put i (f i x)) es s))"
  using assms
proof (induction es)
  case (Cons e es)
  obtain i x where e: "e = (i, x)" by (cases e)
  from Cons.IH Cons.prems obtain tags where tags: "try_filter_map (\<lambda>(i, x). enc i x) es = Inr tags" "list_all G tags"
    "length tags \<le> length es" "\<And>s. try_fold dec tags s = Inr (fold (\<lambda>(i, x). enter_slot put i (f i x)) es s)"
    by fastforce
  from Cons.prems [of i x] e obtain t where "enc i x = Inr t"
    and "case t of None \<Rightarrow> f i x = None | Some tag \<Rightarrow> G tag \<and> (\<forall>s. dec tag s = Inr (enter_slot put i (f i x) s))" by auto
  moreover have "enter_slot put i None s = s" for s by (simp add: enter_slot_def)
  ultimately show ?case using tags by (cases t) (auto simp: e try_filter_map_Cons)
qed simp

lemma length_enter_slots [simp]:
  "length (fold (\<lambda>(i, x). enter_slot (\<lambda>i v slots. slots[i := Some v]) i (f i x)) es slots) = length slots"
  by (induction es arbitrary: slots) (auto simp: enter_slot_def split: option.split)

lemma nth_enter_slots:
  "j < length slots \<Longrightarrow>
    fold (\<lambda>(i, x). enter_slot (\<lambda>i v slots. slots[i := Some v]) i (f i x)) (enumerate k xs) slots ! j =
    (if k \<le> j \<and> j < k + length xs \<and> f j (xs ! (j - k)) \<noteq> None then f j (xs ! (j - k)) else slots ! j)"
proof (induction xs arbitrary: k slots)
  case (Cons x xs)
  have cell: "(x # xs) ! (j - k) = (if j = k then x else xs ! (j - Suc k))" if "k \<le> j"
  proof (cases "j = k")
    case False
    then have "j - k = Suc (j - Suc k)" using that by simp
    then show ?thesis using False by simp
  qed simp
  show ?case
    using Cons.prems cell Cons.IH [where k = "Suc k"]
    by (auto simp: enter_slot_def Suc_le_eq nth_list_update split: option.split)
qed auto

lemma item_slot_roundtrip:
  assumes "i < 128" and "pred_option stack_storable st"
  shows "\<exists>t. encode_item_slot i st = Inr t \<and>
    (case t of
       None \<Rightarrow> Option.bind st archived_stack = None
     | Some tag \<Rightarrow> (tag_type tag = 10 \<and> nbt_ok tag) \<and>
         (\<forall>slots. decode_item_entry tag slots =
           Inr (enter_slot (\<lambda>i v slots. slots[i := Some v]) i (Option.bind st archived_stack) slots)))"
proof (cases "Option.bind st legacy_item")
  case None
  then show ?thesis by (cases st) (auto simp: encode_item_slot_def archived_stack_def)
next
  case (Some p)
  then obtain s item_id damage where s: "st = Some s" "legacy_item s = Some (item_id, damage)" by (cases st; cases p) auto
  have damage: "damage = is_damage s" using s(2) by (auto simp: legacy_item_def split: if_splits)
  have fits: "is_count s < 128" "damage < 0x8000" using assms(2) s damage by (auto simp: stack_storable_def)
  let ?kvs = "[(''Slot'', NbtByte (word_of_nat i)), (''id'', NbtShort item_id), (''Count'', NbtByte (is_count s)),
    (''Damage'', NbtShort damage)]"
  have n: "unat (word_of_nat i :: i8) = i" using assms(1) by (simp add: unat_of_nat take_bit_nat_eq_self)
  have nonneg: "\<not> sint (word_of_nat i :: i8) < 0" "\<not> sint (is_count s) < 0" "\<not> sint damage < 0"
    using sint_small_byte [of "word_of_nat i"] sint_small_byte [of "is_count s"] sint_small_short [of damage] assms(1) n fits
    by (simp_all add: word_less_nat_alt)
  have "decode_item_entry (tag_compound ?kvs) slots = Inr (slots[i := Some (semantic_item item_id damage (is_count s))])" for slots
    using nonneg n by (auto simp: decode_item_entry_def field_defs list_update_beyond)
  moreover have "nbt_ok (tag_compound ?kvs)" by (rule nbt_ok_compound) (simp add: nbt_string_ok_literal)
  ultimately show ?thesis using assms(1) fits s by (simp add: encode_item_slot_def archived_stack_def enter_slot_def)
qed

lemma container_slots_roundtrip:
  assumes "slots_storable slots"
  obtains tags where "encode_item_slots slots = Inr tags" and "list_all (\<lambda>t. tag_type t = 10 \<and> nbt_ok t) tags"
    and "length tags \<le> 128" and "\<And>n. try_fold decode_item_entry tags (replicate n None) = Inr (archived_slots n slots)"
proof -
  let ?put = "\<lambda>i v slots. slots[i := Some v]"
  have "\<exists>t. encode_item_slot i st = Inr t \<and>
      (case t of None \<Rightarrow> Option.bind st archived_stack = None
       | Some tag \<Rightarrow> (tag_type tag = 10 \<and> nbt_ok tag) \<and>
           (\<forall>slots. decode_item_entry tag slots = Inr (enter_slot ?put i (Option.bind st archived_stack) slots)))"
    if "(i, st) \<in> set (enumerate 0 slots)" for i st
    using that assms by (intro item_slot_roundtrip) (auto simp: slots_storable_def in_set_enumerate_eq list_all_iff)
  from entries_roundtrip [of "enumerate 0 slots" encode_item_slot "\<lambda>_ st. Option.bind st archived_stack"
      "\<lambda>t. tag_type t = 10 \<and> nbt_ok t" decode_item_entry ?put, OF this]
  obtain tags where tags: "encode_item_slots slots = Inr tags"
    "list_all (\<lambda>t. tag_type t = 10 \<and> nbt_ok t) tags" "length tags \<le> length slots"
    "\<And>s. try_fold decode_item_entry tags s = Inr (fold (\<lambda>(i, st). enter_slot ?put i (Option.bind st archived_stack)) (enumerate 0 slots) s)"
    unfolding encode_item_slots_def by auto
  have "fold (\<lambda>(i, st). enter_slot ?put i (Option.bind st archived_stack)) (enumerate 0 slots) (replicate n None) =
      archived_slots n slots" for n
    by (rule nth_equalityI) (auto simp: nth_enter_slots archived_slots_def)
  then show ?thesis using that [OF tags(1,2)] tags(3,4) assms unfolding slots_storable_def by simp
qed

end
