(* ===== verification/Anvil_Column.thy ===== *)
theory Anvil_Column
  imports Anvil_Chunk
begin

unbundle bit_operations_syntax

text \<open>
  Chunks written by the Anvil storage are read back as \<open>archived_column\<close> and \<open>archived_entities\<close> say.
\<close>

section \<open>Block entities\<close>

lemma sint_word_i32: "i32_ok v \<Longrightarrow> sint (word_of_int v :: i32) = v"
  by (simp add: i32_ok_def signed_of_int signed_take_bit_int_eq_self)

lemma archived_slots_take: "n \<le> m \<Longrightarrow> archived_slots n (take m slots) = archived_slots n slots"
  by (auto simp: archived_slots_def)

lemma slots_storable_take: "slots_storable slots \<Longrightarrow> slots_storable (take n slots)"
  by (auto simp: slots_storable_def list_all_iff dest: in_set_takeD)

definition tile_fields :: "string \<Rightarrow> block_pos \<Rightarrow> (string \<times> nbt_tag) list \<Rightarrow> (string \<times> nbt_tag) list" where
  "tile_fields kind p rest = [(''id'', NbtString kind)] @ tile_position p @ rest"

lemma tile_head:
  assumes "entity_storable (p, be)" and rest: "\<And>k. k \<in> fst ` set rest \<Longrightarrow> k \<notin> {''id'', ''x'', ''y'', ''z''}"
  shows "string_field (bt_collect (tile_fields kind p rest)) ''id'' = Inr kind"
    and "bind_res (int_field (bt_collect (tile_fields kind p rest)) ''x'') (\<lambda>x.
         bind_res (int_field (bt_collect (tile_fields kind p rest)) ''y'') (\<lambda>y.
         bind_res (int_field (bt_collect (tile_fields kind p rest)) ''z'') (\<lambda>z.
           f (block_pos_new (sint x) (sint y) (sint z))))) = f p"
proof -
  have none: "map_of (rev rest) k = None" if "k \<in> {''id'', ''x'', ''y'', ''z''}" for k
    using rest [of k] that by (auto simp: map_of_eq_None_iff)
  have lookup: "map_of (bt_collect (tile_fields kind p rest)) k =
      map_of (rev ([(''id'', NbtString kind)] @ tile_position p)) k" if "k \<in> {''id'', ''x'', ''y'', ''z''}" for k
    using none [OF that] by (simp add: map_of_bt_collect tile_fields_def map_add_def)
  show "string_field (bt_collect (tile_fields kind p rest)) ''id'' = Inr kind"
    by (simp add: string_field_def lookup tile_position_def)
  have "block_pos_new (bp_x p) (bp_y p) (bp_z p) = p" by (simp add: block_pos_new_def)
  then show "bind_res (int_field (bt_collect (tile_fields kind p rest)) ''x'') (\<lambda>x.
         bind_res (int_field (bt_collect (tile_fields kind p rest)) ''y'') (\<lambda>y.
         bind_res (int_field (bt_collect (tile_fields kind p rest)) ''z'') (\<lambda>z.
           f (block_pos_new (sint x) (sint y) (sint z))))) = f p"
    using assms(1) by (simp add: int_field_def lookup tile_position_def entity_storable_def sint_word_i32)
qed

lemma tile_fields_ok:
  assumes "nbt_string_ok kind" and "list_all (\<lambda>e. nbt_string_ok (fst e) \<and> nbt_ok (snd e)) rest"
  shows "nbt_ok (tag_compound (tile_fields kind p rest))"
  using assms by (intro nbt_ok_compound) (simp add: tile_fields_def tile_position_def nbt_string_ok_literal)

lemma tile_lookup: "k \<in> fst ` set rest \<Longrightarrow> map_of (bt_collect (tile_fields kind p rest)) k = map_of (rev rest) k"
proof -
  assume "k \<in> fst ` set rest"
  then obtain v where "map_of (rev rest) k = Some v"
    by (metis map_of_eq_None_iff not_None_eq set_rev)
  then show ?thesis by (simp add: map_of_bt_collect tile_fields_def map_add_def)
qed

lemma chest_roundtrip:
  assumes ok: "entity_storable (p, ContainerEntity c)" and kind: "be_kind c = CHEST_BLOCK_ENTITY"
  obtains tag where "encode_tile_entity p (ContainerEntity c) = Inr (Some tag)" and "tag_type tag = 10" and "nbt_ok tag"
    and "decode_tile_entity tag = Inr (Some (p, the (archived_entity (ContainerEntity c))))"
proof -
  have slots: "slots_storable (be_slots c)" using ok by (simp add: entity_storable_def)
  obtain items where items: "encode_item_slots (be_slots c) = Inr items" "list_all (\<lambda>t. tag_type t = 10 \<and> nbt_ok t) items"
    "length items \<le> 128" "\<And>n. try_fold decode_item_entry items (replicate n None) = Inr (archived_slots n (be_slots c))"
    using container_slots_roundtrip [OF slots] by blast
  let ?rest = "[(''Items'', NbtList 10 items)]"
  have list: "list_field (bt_collect (tile_fields ''Chest'' p ?rest)) ''Items'' = Inr items"
    by (simp add: list_field_def tile_lookup)
  note head = tile_head [OF ok, of ?rest "''Chest''"]
  have "decode_tile_entity (tag_compound (tile_fields ''Chest'' p ?rest)) =
      Inr (Some (p, the (archived_entity (ContainerEntity c))))"
    unfolding decode_tile_entity_def as_compound_tag bind_res_Inr Let_def
    by (subst head(1), simp, simp only: sum.case, subst head(2), simp) (simp add: list items(4) archived_entity_def kind)
  moreover have "nbt_ok (tag_compound (tile_fields ''Chest'' p ?rest))"
    using items by (intro tile_fields_ok) (simp_all add: nbt_string_ok_literal)
  moreover have "encode_tile_entity p (ContainerEntity c) = Inr (Some (tag_compound (tile_fields ''Chest'' p ?rest)))"
    using items(1) kind by (simp add: encode_tile_entity_def tile_fields_def)
  ultimately show ?thesis using that by simp
qed

lemma furnace_roundtrip:
  assumes ok: "entity_storable (p, ContainerEntity c)" and kind: "be_kind c = FURNACE_BLOCK_ENTITY"
  obtains tag where "encode_tile_entity p (ContainerEntity c) = Inr (Some tag)" and "tag_type tag = 10" and "nbt_ok tag"
    and "decode_tile_entity tag = Inr (Some (p, the (archived_entity (ContainerEntity c))))"
proof -
  have slots: "slots_storable (take 3 (be_slots c))" using ok by (simp add: entity_storable_def slots_storable_take)
  obtain items where items: "encode_item_slots (take 3 (be_slots c)) = Inr items"
    "list_all (\<lambda>t. tag_type t = 10 \<and> nbt_ok t) items" "length items \<le> 128"
    "\<And>n. try_fold decode_item_entry items (replicate n None) = Inr (archived_slots n (take 3 (be_slots c)))"
    using container_slots_roundtrip [OF slots] by blast
  have other: "be_kind c \<noteq> CHEST_BLOCK_ENTITY" using kind by (simp add: id_keys)
  let ?rest = "[(''BurnTime'', NbtShort (container_property c FURNACE_BURN_LEFT)),
       (''BurnTimeMax'', NbtShort (container_property c FURNACE_BURN_MAX)),
       (''CookTime'', NbtShort (container_property c FURNACE_COOK_PROGRESS)),
       (''CookTimeTotal'', NbtShort (container_property c FURNACE_COOK_TOTAL_KEY)), (''Items'', NbtList 10 items)]"
  let ?c = "bt_collect (tile_fields ''Furnace'' p ?rest)"
  have fields: "list_field ?c ''Items'' = Inr items"
    "short_field ?c ''BurnTime'' = Inr (container_property c FURNACE_BURN_LEFT)"
    "short_field ?c ''BurnTimeMax'' = Inr (container_property c FURNACE_BURN_MAX)"
    "short_field ?c ''CookTime'' = Inr (container_property c FURNACE_COOK_PROGRESS)"
    "short_field ?c ''CookTimeTotal'' = Inr (container_property c FURNACE_COOK_TOTAL_KEY)"
    by (simp_all add: list_field_def short_field_def tile_lookup)
  note head = tile_head [OF ok, of ?rest "''Furnace''"]
  have "decode_tile_entity (tag_compound (tile_fields ''Furnace'' p ?rest)) =
      Inr (Some (p, the (archived_entity (ContainerEntity c))))"
    unfolding decode_tile_entity_def as_compound_tag bind_res_Inr Let_def
    by (subst head(1), force, simp only: sum.case, subst head(2), force)
      (simp add: fields items(4) archived_entity_def kind other [unfolded kind] archived_slots_take)
  moreover have "nbt_ok (tag_compound (tile_fields ''Furnace'' p ?rest))"
    using items by (intro tile_fields_ok) (simp_all add: nbt_string_ok_literal)
  moreover have "encode_tile_entity p (ContainerEntity c) = Inr (Some (tag_compound (tile_fields ''Furnace'' p ?rest)))"
    using items(1) kind other by (simp add: encode_tile_entity_def tile_fields_def)
  ultimately show ?thesis using that by simp
qed

lemma tile_entity_roundtrip:
  assumes ok: "entity_storable (p, be)"
  obtains t where "encode_tile_entity p be = Inr t"
    and "case t of
       None \<Rightarrow> archived_entity be = None
     | Some tag \<Rightarrow> tag_type tag = 10 \<and> nbt_ok tag \<and>
         (\<exists>v. archived_entity be = Some v \<and> decode_tile_entity tag = Inr (Some (p, v)))"
proof -
  obtain c where c: "be = ContainerEntity c" by (cases be)
  consider (chest) "be_kind c = CHEST_BLOCK_ENTITY" | (furnace) "be_kind c = FURNACE_BLOCK_ENTITY"
    | (other) "be_kind c \<noteq> CHEST_BLOCK_ENTITY" "be_kind c \<noteq> FURNACE_BLOCK_ENTITY" by blast
  then show ?thesis
  proof cases
    case chest
    have "\<exists>v. archived_entity be = Some v" using chest by (simp add: archived_entity_def c)
    with chest_roundtrip [OF ok [unfolded c] chest] that show ?thesis by (fastforce simp: c)
  next
    case furnace
    have "\<exists>v. archived_entity be = Some v" using furnace by (simp add: archived_entity_def c)
    with furnace_roundtrip [OF ok [unfolded c] furnace] that show ?thesis by (fastforce simp: c)
  next
    case other
    then show ?thesis using that [of None] by (simp add: encode_tile_entity_def archived_entity_def c)
  qed
qed

lemma tile_entities_roundtrip:
  assumes "list_all entity_storable es" and "bt_ok es" and "\<forall>e \<in> set acc. \<forall>e' \<in> set es. fst e < fst e'"
  shows "\<exists>tags. try_filter_map (\<lambda>(p, be). encode_tile_entity p be) es = Inr tags \<and>
    list_all (\<lambda>t. tag_type t = 10 \<and> nbt_ok t) tags \<and> length tags \<le> length es \<and>
    try_fold read_tile_entity tags acc = Inr (acc @ bt_filter_map (\<lambda>(p, be). archived_entity be) es)"
  using assms
proof (induction es arbitrary: acc)
  case Nil
  then show ?case by simp
next
  case (Cons e es)
  obtain p be where e: "e = (p, be)" by (cases e)
  obtain t where t: "encode_tile_entity p be = Inr t"
    and dec: "case t of
       None \<Rightarrow> archived_entity be = None
     | Some tag \<Rightarrow> tag_type tag = 10 \<and> nbt_ok tag \<and>
         (\<exists>v. archived_entity be = Some v \<and> decode_tile_entity tag = Inr (Some (p, v)))"
    using tile_entity_roundtrip [of p be] Cons.prems e by auto
  let ?acc = "acc @ bt_filter_map (\<lambda>(p, be). archived_entity be) [e]"
  have "\<forall>e1 \<in> set ?acc. \<forall>e' \<in> set es. fst e1 < fst e'"
    using Cons.prems(2,3) by (auto simp: bt_ok_def e bt_filter_map_Cons split: option.split_asm)
  then obtain tags where tags: "try_filter_map (\<lambda>(p, be). encode_tile_entity p be) es = Inr tags"
    "list_all (\<lambda>t. tag_type t = 10 \<and> nbt_ok t) tags" "length tags \<le> length es"
    "try_fold read_tile_entity tags ?acc = Inr (?acc @ bt_filter_map (\<lambda>(p, be). archived_entity be) es)"
    using Cons.IH [of ?acc] Cons.prems by (auto simp: bt_ok_def)
  have below: "\<forall>e1 \<in> set acc. fst e1 < p" using Cons.prems(3) e by auto
  show ?case
  proof (cases t)
    case None
    then show ?thesis using t tags dec by (simp add: e try_filter_map_Cons bt_filter_map_Cons)
  next
    case (Some tag)
    then obtain v where v: "tag_type tag = 10" "nbt_ok tag" "archived_entity be = Some v"
      and "read_tile_entity tag acc = Inr (acc @ [(p, v)])"
      using dec bt_insert_snoc [OF below] by (auto simp: read_tile_entity_def)
    then show ?thesis using t tags Some by (simp add: e try_filter_map_Cons bt_filter_map_Cons)
  qed
qed

section \<open>Reading back a chunk\<close>

lemma bt_ok_filter: "bt_ok m \<Longrightarrow> bt_ok (filter P m)"
  by (induction m) (auto simp: bt_ok_def)

lemma bt_filter_map_filter:
  "(\<And>e. e \<in> set m \<Longrightarrow> \<not> P e \<Longrightarrow> f e = None) \<Longrightarrow> bt_filter_map f (filter P m) = bt_filter_map f m"
  by (induction m) (auto simp: bt_filter_map_Cons split: option.split)

lemma bt_filter_map_cong: "(\<And>e. e \<in> set m \<Longrightarrow> f e = g e) \<Longrightarrow> bt_filter_map f m = bt_filter_map g m"
  unfolding bt_filter_map_def by (rule map_filter_cong) simp

lemma archived_entities_filter:
  "bt_filter_map (\<lambda>(p, be). archived_entity be) (filter (\<lambda>e. block_chunk_pos (fst e) = pos) bes) = archived_entities pos bes"
proof -
  have "bt_filter_map (\<lambda>(p, be). archived_entity be) (filter (\<lambda>e. block_chunk_pos (fst e) = pos) bes) =
      bt_filter_map (\<lambda>(p, be). if block_chunk_pos p = pos then archived_entity be else None)
        (filter (\<lambda>e. block_chunk_pos (fst e) = pos) bes)"
    by (rule bt_filter_map_cong) auto
  then show ?thesis unfolding archived_entities_def by (simp add: bt_filter_map_filter split_beta)
qed

lemma sections_at_most_16:
  assumes "bt_ok es" and "\<forall>e \<in> set es. 0 \<le> fst e \<and> fst e < (16 :: int)"
  shows "length es \<le> 16"
proof -
  have "set (map fst es) \<subseteq> {0..<16}" using assms(2) by auto
  then have "card (set (map fst es)) \<le> card {0..<16 :: int}" by (intro card_mono) simp_all
  then show ?thesis using distinct_card [OF bt_ok_distinct [OF assms(1)]] by simp
qed

text \<open>The fields of the compound \<open>Level\<close>.\<close>

definition level_tags :: "chunk_column \<Rightarrow> nbt_tag list \<Rightarrow> nbt_tag list \<Rightarrow> (string \<times> nbt_tag) list" where
  "level_tags c tiles sections =
     [(''xPos'', nbt_i32 (cp_x (cc_pos c))), (''zPos'', nbt_i32 (cp_z (cc_pos c))),
      (''TerrainPopulated'', NbtByte 1), (''LightPopulated'', NbtByte 1), (''LastUpdate'', NbtLong 0),
      (''InhabitedTime'', NbtLong 0), (''Biomes'', NbtByteArray (cc_biomes c)),
      (''HeightMap'', NbtIntArray (replicate 256 4)), (''Entities'', NbtList 10 []),
      (''TileEntities'', NbtList 10 tiles), (''Sections'', NbtList 10 sections)]"

lemma level_fields:
  "int_field (bt_collect (level_tags c tiles sections)) ''xPos'' = Inr (word_of_int (cp_x (cc_pos c)))"
  "int_field (bt_collect (level_tags c tiles sections)) ''zPos'' = Inr (word_of_int (cp_z (cc_pos c)))"
  "byte_array_field (bt_collect (level_tags c tiles sections)) ''Biomes'' = Inr (cc_biomes c)"
  "list_field (bt_collect (level_tags c tiles sections)) ''TileEntities'' = Inr tiles"
  "list_field (bt_collect (level_tags c tiles sections)) ''Sections'' = Inr sections"
  by (simp_all add: field_defs level_tags_def)

lemma level_root: "compound_field (bt_collect [(''Level'', tag_compound kvs)]) ''Level'' = Inr (bt_collect kvs)"
  by (simp add: compound_field_def map_of_bt_collect)

lemma level_ok:
  assumes "list_all (\<lambda>t. tag_type t = 10 \<and> nbt_ok t) tiles" and "length tiles < 2 ^ 31"
    and "list_all (\<lambda>t. tag_type t = 10 \<and> nbt_ok t) sections" and "length sections < 2 ^ 31" and "length (cc_biomes c) < 2 ^ 31"
  shows "nbt_ok (tag_compound [(''Level'', tag_compound (level_tags c tiles sections))])"
proof -
  have "list_all (\<lambda>e. nbt_string_ok (fst e)) (level_tags c tiles sections)"
    by (simp add: level_tags_def nbt_string_ok_literal)
  moreover have "list_all (\<lambda>e. nbt_ok (snd e)) (level_tags c tiles sections)"
    using assms by (simp add: level_tags_def)
  ultimately have "nbt_ok (tag_compound (level_tags c tiles sections))"
    by (intro nbt_ok_compound) (simp add: list_all_iff)
  then show ?thesis by (intro nbt_ok_compound) (simp add: nbt_string_ok_literal)
qed

lemma chunk_to_nbt_level:
  "chunk_to_nbt c bes = bind_res (try_filter_map (\<lambda>(p, be). encode_tile_entity p be)
       (filter (\<lambda>e. block_chunk_pos (fst e) = cc_pos c) bes)) (\<lambda>tiles.
     bind_res (try_map section_to_nbt
       (filter (\<lambda>e. 0 \<le> fst e \<and> fst e < 16 \<and> \<not> section_is_empty (snd e)) (cc_sections c))) (\<lambda>sections.
       Inr (tag_compound [(''Level'', tag_compound (level_tags c tiles sections))])))"
  unfolding chunk_to_nbt_def level_tags_def ..

lemma chunk_from_level:
  assumes "column_storable c"
    and "try_fold read_section sections ((column_new (cc_pos c))\<lparr>cc_biomes := cc_biomes c\<rparr>) = Inr col"
    and "try_fold read_tile_entity tiles [] = Inr es"
  shows "chunk_from_nbt (tag_compound [(''Level'', tag_compound (level_tags c tiles sections))]) = Inr (col, es)"
proof -
  have "sint (word_of_int (cp_x (cc_pos c)) :: i32) = cp_x (cc_pos c)" "sint (word_of_int (cp_z (cc_pos c)) :: i32) = cp_z (cc_pos c)"
    using assms(1) by (auto simp: column_storable_def sint_word_i32)
  moreover have "\<lparr>cp_x = cp_x (cc_pos c), cp_z = cp_z (cc_pos c)\<rparr> = cc_pos c" by simp
  ultimately show ?thesis
    using assms(2,3) unfolding chunk_from_nbt_def as_compound_tag bind_res_Inr level_root level_fields unwrap_or_Inr
    by (simp only: sum.case bind_res_Inr)
qed

lemma chunk_roundtrip:
  assumes c: "column_storable c" and bes: "bt_ok bes" "list_all entity_storable bes" "length bes < 2 ^ 31"
  obtains m where "chunk_to_nbt c bes = Inr (NbtCompound m)" and "nbt_ok (NbtCompound m)"
    and "chunk_from_nbt (NbtCompound m) = Inr (archived_column c, archived_entities (cc_pos c) bes)"
proof -
  let ?es = "filter (\<lambda>e. 0 \<le> fst e \<and> fst e < 16 \<and> \<not> section_is_empty (snd e)) (cc_sections c)"
  let ?bes = "filter (\<lambda>e. block_chunk_pos (fst e) = cc_pos c) bes"
  let ?c = "(column_new (cc_pos c))\<lparr>cc_biomes := cc_biomes c\<rparr>"
  have es: "bt_ok ?es" "\<forall>e \<in> set ?es. section_storable (snd e) \<and> 0 \<le> fst e \<and> fst e < 16"
    using c by (auto simp: column_storable_def bt_ok_filter)
  obtain sections where sections: "try_map section_to_nbt ?es = Inr sections"
    "list_all (\<lambda>t. tag_type t = 10 \<and> nbt_ok t) sections" "length sections = length ?es"
    "try_fold read_section sections ?c = Inr (?c\<lparr>cc_sections := cc_sections ?c @ bt_filter_map archived_section ?es\<rparr>)"
    using column_sections_roundtrip [OF es(2,1), of ?c] by (auto simp: column_new_def)
  obtain tiles where tiles: "try_filter_map (\<lambda>(p, be). encode_tile_entity p be) ?bes = Inr tiles"
    "list_all (\<lambda>t. tag_type t = 10 \<and> nbt_ok t) tiles" "length tiles \<le> length ?bes"
    "try_fold read_tile_entity tiles [] = Inr ([] @ bt_filter_map (\<lambda>(p, be). archived_entity be) ?bes)"
    using tile_entities_roundtrip [of ?bes "[]"] bes bt_ok_filter [OF bes(1)] by (auto simp: list_all_iff)
  have "length ?es \<le> 16" using sections_at_most_16 [OF es(1)] es(2) by blast
  then have small: "length sections < 2 ^ 31" using sections(3) by simp
  have small': "length tiles < 2 ^ 31" using tiles(3) bes(3) length_filter_le [of _ bes] le_less_trans by metis
  have "bt_filter_map archived_section ?es = bt_filter_map archived_section (cc_sections c)"
    by (rule bt_filter_map_filter) (auto simp: archived_section_def Let_def section_is_empty_def)
  then have col: "?c\<lparr>cc_sections := cc_sections ?c @ bt_filter_map archived_section ?es\<rparr> = archived_column c"
    by (simp add: archived_column_def column_new_def)
  let ?tag = "tag_compound [(''Level'', tag_compound (level_tags c tiles sections))]"
  have "chunk_from_nbt ?tag = Inr (archived_column c, archived_entities (cc_pos c) bes)"
    using chunk_from_level [OF c sections(4) tiles(4)] unfolding col archived_entities_filter by simp
  moreover have "chunk_to_nbt c bes = Inr ?tag"
    unfolding chunk_to_nbt_level sections(1) tiles(1) by simp
  moreover have "nbt_ok ?tag"
    using c by (intro level_ok tiles(2) sections(2) small small') (simp add: column_storable_def)
  ultimately show ?thesis using that unfolding tag_compound_def by blast
qed

end
