(* ===== verification/Anvil_Player.thy ===== *)
theory Anvil_Player
  imports Anvil_Column
begin

unbundle bit_operations_syntax

text \<open>
  The tags of the world's settings and of the players in the Anvil storage, \<open>level.rs\<close> and \<open>playerdata.rs\<close> of the crate
  \<open>mc-storage-je-anvil-1_7_10\<close>, without the files they are written to (\<open>Anvil_Region\<close>), and what of them survives.
\<close>

section \<open>Settings: \<open>level.rs\<close>\<close>

definition to_ascii_lowercase :: "string \<Rightarrow> string" where
  "to_ascii_lowercase s = map (\<lambda>c. if 65 \<le> (of_char c :: nat) \<and> (of_char c :: nat) \<le> 90 then char_of ((of_char c :: nat) + 32) else c) s"

definition to_ascii_uppercase :: "string \<Rightarrow> string" where
  "to_ascii_uppercase s = map (\<lambda>c. if 97 \<le> (of_char c :: nat) \<and> (of_char c :: nat) \<le> 122 then char_of ((of_char c :: nat) - 32) else c) s"

definition level_to_nbt :: "world_meta \<Rightarrow> nbt_tag" where
  "level_to_nbt meta = tag_compound [(''Data'', tag_compound
     [(''version'', NbtInt 19133), (''LevelName'', NbtString (wm_level_name meta)),
      (''generatorName'', NbtString (to_ascii_lowercase (wm_level_type meta))),
      (''SpawnX'', nbt_i32 (bp_x (wm_spawn meta))), (''SpawnY'', nbt_i32 (bp_y (wm_spawn meta))),
      (''SpawnZ'', nbt_i32 (bp_z (wm_spawn meta))), (''RandomSeed'', NbtLong (wm_seed meta)),
      (''Time'', NbtLong (wm_time meta)), (''GameType'', NbtInt (ucast (wm_game_mode meta))),
      (''Difficulty'', NbtByte (wm_difficulty meta)), (''MapFeatures'', NbtByte 0), (''initialized'', NbtByte 1)])]"

definition level_from_nbt :: "nbt_tag \<Rightarrow> anvil_error + world_meta" where
  "level_from_nbt tag =
     bind_res (as_compound tag) (\<lambda>root. bind_res (compound_field root ''Data'') (\<lambda>data. Inr
       \<lparr>wm_level_name = unwrap_or (string_field data ''LevelName'') ''world'',
        wm_seed = unwrap_or (long_field data ''RandomSeed'') 0,
        wm_spawn = block_pos_new (sint (unwrap_or (int_field data ''SpawnX'') 0)) (sint (unwrap_or (int_field data ''SpawnY'') 4))
          (sint (unwrap_or (int_field data ''SpawnZ'') 0)),
        wm_dimension = Overworld,
        wm_age = unwrap_or (long_field data ''Time'') 0,
        wm_time = unwrap_or (long_field data ''Time'') 0,
        wm_level_type = to_ascii_uppercase (unwrap_or (string_field data ''generatorName'') ''flat''),
        wm_game_mode = (let v = unwrap_or (int_field data ''GameType'') 0 in if 0 \<le> sint v \<and> sint v < 256 then ucast v else 0),
        wm_difficulty = unwrap_or (byte_field data ''Difficulty'') 1,
        wm_max_players = 20\<rparr>))"

section \<open>Players: \<open>playerdata.rs\<close>\<close>

definition PLAYERDATA_OFFHAND_SLOT :: i8 where "PLAYERDATA_OFFHAND_SLOT = - 106"

definition window_slot_to_playerdata_slot :: "nat \<Rightarrow> i8 option" where
  "window_slot_to_playerdata_slot window_slot =
     (if 9 \<le> window_slot \<and> window_slot \<le> 35 then Some (word_of_nat window_slot)
      else if 36 \<le> window_slot \<and> window_slot \<le> 44 then Some (word_of_nat (window_slot - 36))
      else None)"

definition playerdata_slot_to_window_slot :: "i8 \<Rightarrow> u8 option" where
  "playerdata_slot_to_window_slot slot =
     (if 0 \<le> sint slot \<and> sint slot \<le> 8 then Some (36 + slot)
      else if 9 \<le> sint slot \<and> sint slot \<le> 35 then Some slot
      else None)"

definition player_item_tag :: "i8 \<Rightarrow> i16 \<times> u16 \<Rightarrow> u8 \<Rightarrow> anvil_error + nbt_tag" where
  "player_item_tag slot item n =
     (if n < 128 then Inr (tag_compound [(''Slot'', NbtByte slot), (''id'', NbtShort (fst item)), (''Damage'', NbtShort (snd item)),
        (''Count'', NbtByte n)])
      else Inl AnvilPanic)"

definition encode_player_slot :: "nat \<Rightarrow> item_stack option \<Rightarrow> anvil_error + nbt_tag option" where
  "encode_player_slot window_slot stack =
     (case stack of
        None \<Rightarrow> Inr None
      | Some s \<Rightarrow>
          (case legacy_item s of
             None \<Rightarrow> Inr None
           | Some item \<Rightarrow>
               if window_slot \<ge> 256 then Inl AnvilPanic
               else (case window_slot_to_playerdata_slot window_slot of
                       None \<Rightarrow> Inr None
                     | Some slot \<Rightarrow> bind_res (player_item_tag slot item (is_count s)) (\<lambda>tag. Inr (Some tag)))))"

definition inventory_to_nbt :: "player_inventory \<Rightarrow> anvil_error + nbt_tag list" where
  "inventory_to_nbt inventory =
     bind_res (try_filter_map (\<lambda>(window_slot, stack). encode_player_slot window_slot stack) (enumerate 0 (pi_slots inventory))) (\<lambda>entries.
       case Option.bind (pi_offhand inventory) (\<lambda>s. map_option (\<lambda>item. (s, item)) (legacy_item s)) of
         None \<Rightarrow> Inr entries
       | Some (s, item) \<Rightarrow> bind_res (player_item_tag PLAYERDATA_OFFHAND_SLOT item (is_count s)) (\<lambda>tag. Inr (entries @ [tag])))"

definition read_inventory_entry :: "nbt_tag \<Rightarrow> player_inventory \<Rightarrow> anvil_error + player_inventory" where
  "read_inventory_entry entry inventory =
     bind_res (as_compound entry) (\<lambda>c.
     bind_res (byte_field c ''Slot'') (\<lambda>slot.
       let n = unwrap_or (byte_field c ''Count'') 0 in
       if sint n \<le> 0 then Inr inventory
       else bind_res (short_field c ''id'') (\<lambda>item_id.
         let stack = semantic_item item_id (unwrap_or (short_field c ''Damage'') 0) n in
         if is_key stack = ''minecraft:unsupported'' then Inr inventory
         else if slot = PLAYERDATA_OFFHAND_SLOT then Inr (snd (inventory_set_slot Offhand (Some stack) inventory))
         else (case playerdata_slot_to_window_slot slot of
                 None \<Rightarrow> Inr inventory
               | Some window_slot \<Rightarrow> Inr (snd (inventory_set window_slot (Some stack) inventory))))))"

fun inventory_from_tag :: "nbt_tag \<Rightarrow> anvil_error + player_inventory" where
  "inventory_from_tag (NbtList _ entries) = try_fold read_inventory_entry entries inventory_new_empty"
| "inventory_from_tag _ = Inl (invalid_data ''expected inventory list'')"

definition player_to_nbt :: "player_snapshot \<Rightarrow> anvil_error + nbt_tag" where
  "player_to_nbt player =
     bind_res (inventory_to_nbt (ps_inventory player)) (\<lambda>inventory. Inr (tag_compound
       [(''Pos'', NbtList 6 [NbtDouble (v_x (ps_position player)), NbtDouble (v_y (ps_position player)),
          NbtDouble (v_z (ps_position player))]),
        (''Rotation'', NbtList 5 [NbtFloat (ps_yaw player), NbtFloat (ps_pitch player)]),
        (''UUIDMost'', NbtLong (ucast (drop_bit 64 (ps_id player)))), (''UUIDLeast'', NbtLong (ucast (ps_id player))),
        (''Dimension'', NbtInt 0), (''OnGround'', NbtByte (if ps_on_ground player then 1 else 0)),
        (''Health'', NbtFloat (ps_health player)), (''foodLevel'', NbtInt (scast (ps_food player))),
        (''foodSaturationLevel'', NbtFloat (ps_food_saturation player)),
        (''SelectedItemSlot'', NbtInt (ucast (ps_selected_hotbar_slot player))),
        (''Inventory'', NbtList 10 inventory), (''Name'', NbtString (ps_username player))]))"

text \<open>\<open>values[i]\<close>.\<close>

definition tag_at :: "nbt_tag list \<Rightarrow> nat \<Rightarrow> anvil_error + nbt_tag" where
  "tag_at tags i = (if i < length tags then Inr (tags ! i) else Inl AnvilPanic)"

definition player_from_nbt :: "nbt_tag \<Rightarrow> anvil_error + player_snapshot" where
  "player_from_nbt root =
     bind_res (as_compound root) (\<lambda>c.
     bind_res (list_field c ''Pos'') (\<lambda>pos.
     bind_res (list_field c ''Rotation'') (\<lambda>rotation.
     bind_res (long_field c ''UUIDMost'') (\<lambda>most.
     bind_res (long_field c ''UUIDLeast'') (\<lambda>least.
     bind_res (case map_of c ''Inventory'' of Some tag \<Rightarrow> inventory_from_tag tag | None \<Rightarrow> Inr creative_starter_inventory) (\<lambda>inventory.
     bind_res (bind_res (tag_at pos 0) double_from_tag) (\<lambda>x.
     bind_res (bind_res (tag_at pos 1) double_from_tag) (\<lambda>y.
     bind_res (bind_res (tag_at pos 2) double_from_tag) (\<lambda>z.
     bind_res (bind_res (tag_at rotation 0) float_from_tag) (\<lambda>yaw.
     bind_res (bind_res (tag_at rotation 1) float_from_tag) (\<lambda>pitch. Inr
       \<lparr>ps_id = push_bit 64 (ucast most) OR ucast least,
        ps_username = unwrap_or (string_field c ''Name'') ''player'',
        ps_position = \<lparr>v_x = x, v_y = y, v_z = z\<rparr>, ps_yaw = yaw, ps_pitch = pitch,
        ps_on_ground = (unwrap_or (byte_field c ''OnGround'') 1 \<noteq> 0), ps_dimension = Overworld,
        ps_health = unwrap_or (float_field c ''Health'') 0x41A00000,
        ps_food = (let v = sint (unwrap_or (int_field c ''foodLevel'') 20) in
          if - (2 ^ 15) \<le> v \<and> v < 2 ^ 15 then word_of_int v else 20),
        ps_food_saturation = unwrap_or (float_field c ''foodSaturationLevel'') 0x40A00000,
        ps_inventory = inventory,
        ps_selected_hotbar_slot = (let v = sint (unwrap_or (int_field c ''SelectedItemSlot'') 0) in
          min (if 0 \<le> v \<and> v < 256 then word_of_int v else 0) 8)\<rparr>)))))))))))"

section \<open>What survives\<close>

definition archived_meta :: "world_meta \<Rightarrow> world_meta" where
  "archived_meta meta = meta\<lparr>wm_dimension := Overworld, wm_age := wm_time meta,
     wm_level_type := to_ascii_uppercase (to_ascii_lowercase (wm_level_type meta)), wm_max_players := 20\<rparr>"

definition archived_carried :: "item_stack \<Rightarrow> item_stack option" where
  "archived_carried stack =
     (case archived_stack stack of
        None \<Rightarrow> None
      | Some v \<Rightarrow> if is_count v = 0 \<or> is_key v = ''minecraft:unsupported'' then None else Some v)"

definition archived_inventory :: "player_inventory \<Rightarrow> player_inventory" where
  "archived_inventory inventory =
     \<lparr>pi_slots = map (\<lambda>i. if 9 \<le> i then Option.bind (pi_slots inventory ! i) archived_carried else None) [0..<PLAYER_INVENTORY_SLOT_COUNT],
      pi_offhand = Option.bind (pi_offhand inventory) archived_carried\<rparr>"

definition archived_player :: "player_snapshot \<Rightarrow> player_snapshot" where
  "archived_player player = player\<lparr>ps_dimension := Overworld, ps_inventory := archived_inventory (ps_inventory player),
     ps_selected_hotbar_slot := min (ps_selected_hotbar_slot player) 8\<rparr>"

definition carried_storable :: "item_stack \<Rightarrow> bool" where
  "carried_storable s \<longleftrightarrow> legacy_item s = None \<or> is_count s < 128"

definition player_storable :: "player_snapshot \<Rightarrow> bool" where
  "player_storable player \<longleftrightarrow> inventory_ok (ps_inventory player) \<and>
     list_all (pred_option carried_storable) (pi_slots (ps_inventory player)) \<and>
     pred_option carried_storable (pi_offhand (ps_inventory player)) \<and> nbt_string_ok (ps_username player)"

definition meta_storable :: "world_meta \<Rightarrow> bool" where
  "meta_storable meta \<longleftrightarrow> nbt_string_ok (wm_level_name meta) \<and> nbt_string_ok (to_ascii_lowercase (wm_level_type meta)) \<and>
     i32_ok (bp_x (wm_spawn meta)) \<and> i32_ok (bp_y (wm_spawn meta)) \<and> i32_ok (bp_z (wm_spawn meta))"

section \<open>Reading back\<close>

lemma sint_ucast_byte: "sint (ucast (b :: u8) :: i32) = uint b"
proof -
  have small: "unat b < 2 ^ 8" using unsigned_less [of b, where ?'a = nat] by simp
  then have "unat (ucast b :: i32) = unat b" unfolding unsigned_ucast_eq by (intro take_bit_nat_eq_self) simp
  moreover have "unat b < 2 ^ 31" using small by simp
  ultimately show ?thesis using sint_small [where ?'a = 32, of "ucast b"] by simp
qed

lemma uint_byte_range: "0 \<le> uint (b :: u8)" "uint (b :: u8) < 256"
  using unsigned_less [of b, where ?'a = int] by simp_all

definition level_data :: "world_meta \<Rightarrow> (string \<times> nbt_tag) list" where
  "level_data meta =
     [(''version'', NbtInt 19133), (''LevelName'', NbtString (wm_level_name meta)),
      (''generatorName'', NbtString (to_ascii_lowercase (wm_level_type meta))),
      (''SpawnX'', nbt_i32 (bp_x (wm_spawn meta))), (''SpawnY'', nbt_i32 (bp_y (wm_spawn meta))),
      (''SpawnZ'', nbt_i32 (bp_z (wm_spawn meta))), (''RandomSeed'', NbtLong (wm_seed meta)),
      (''Time'', NbtLong (wm_time meta)), (''GameType'', NbtInt (ucast (wm_game_mode meta))),
      (''Difficulty'', NbtByte (wm_difficulty meta)), (''MapFeatures'', NbtByte 0), (''initialized'', NbtByte 1)]"

lemma level_data_fields:
  "string_field (bt_collect (level_data meta)) ''LevelName'' = Inr (wm_level_name meta)"
  "string_field (bt_collect (level_data meta)) ''generatorName'' = Inr (to_ascii_lowercase (wm_level_type meta))"
  "int_field (bt_collect (level_data meta)) ''SpawnX'' = Inr (word_of_int (bp_x (wm_spawn meta)))"
  "int_field (bt_collect (level_data meta)) ''SpawnY'' = Inr (word_of_int (bp_y (wm_spawn meta)))"
  "int_field (bt_collect (level_data meta)) ''SpawnZ'' = Inr (word_of_int (bp_z (wm_spawn meta)))"
  "long_field (bt_collect (level_data meta)) ''RandomSeed'' = Inr (wm_seed meta)"
  "long_field (bt_collect (level_data meta)) ''Time'' = Inr (wm_time meta)"
  "int_field (bt_collect (level_data meta)) ''GameType'' = Inr (ucast (wm_game_mode meta))"
  "byte_field (bt_collect (level_data meta)) ''Difficulty'' = Inr (wm_difficulty meta)"
  by (simp_all add: field_defs level_data_def)

lemma level_to_nbt_data: "level_to_nbt meta = tag_compound [(''Data'', tag_compound (level_data meta))]"
  unfolding level_to_nbt_def level_data_def ..

lemma level_roundtrip:
  assumes "meta_storable meta"
  shows "level_from_nbt (level_to_nbt meta) = Inr (archived_meta meta)"
proof -
  have mode: "ucast (ucast (wm_game_mode meta) :: i32) = wm_game_mode meta"
    by (rule bit_word_eqI) (simp add: bit_ucast_iff)
  have root: "compound_field (bt_collect [(''Data'', tag_compound kvs)]) ''Data'' = Inr (bt_collect kvs)" for kvs
    by (simp add: compound_field_def map_of_bt_collect)
  have "block_pos_new (bp_x p) (bp_y p) (bp_z p) = p" for p by (simp add: block_pos_new_def)
  then show ?thesis
    using assms unfolding level_from_nbt_def level_to_nbt_data as_compound_tag bind_res_Inr root level_data_fields unwrap_or_Inr
    by (simp add: archived_meta_def sint_ucast_byte uint_byte_range mode meta_storable_def sint_word_i32)
qed

lemma level_ok_nbt:
  assumes "meta_storable meta"
  shows "nbt_ok (level_to_nbt meta)"
proof -
  have "list_all (\<lambda>e. nbt_string_ok (fst e)) (level_data meta)" by (simp add: level_data_def nbt_string_ok_literal)
  moreover have "list_all (\<lambda>e. nbt_ok (snd e)) (level_data meta)" using assms by (simp add: level_data_def meta_storable_def)
  ultimately have "nbt_ok (tag_compound (level_data meta))" by (intro nbt_ok_compound) (simp add: list_all_iff)
  then show ?thesis unfolding level_to_nbt_data by (intro nbt_ok_compound) (simp add: nbt_string_ok_literal)
qed

subsection \<open>Inventories\<close>

definition put_slot :: "nat \<Rightarrow> item_stack \<Rightarrow> player_inventory \<Rightarrow> player_inventory" where
  "put_slot i v inventory = inventory\<lparr>pi_slots := (pi_slots inventory)[i := Some v]\<rparr>"

lemma player_item_fields:
  assumes "player_item_tag slot item n = Inr tag"
  obtains c where "tag = NbtCompound c" and "nbt_ok tag" and "byte_field c ''Slot'' = Inr slot"
    and "short_field c ''id'' = Inr (fst item)" and "short_field c ''Damage'' = Inr (snd item)" and "byte_field c ''Count'' = Inr n"
proof -
  let ?kvs = "[(''Slot'', NbtByte slot), (''id'', NbtShort (fst item)), (''Damage'', NbtShort (snd item)), (''Count'', NbtByte n)]"
  have tag: "tag = tag_compound ?kvs" using assms by (simp add: player_item_tag_def split: if_splits)
  have "nbt_ok tag" unfolding tag by (rule nbt_ok_compound) (simp add: nbt_string_ok_literal)
  then show ?thesis using that [of "bt_collect ?kvs"] by (simp add: tag tag_compound_def field_defs)
qed

lemma read_player_item:
  assumes s: "legacy_item s = Some item" "is_count s < 128" and tag: "player_item_tag slot item (is_count s) = Inr tag"
  shows "read_inventory_entry tag inventory =
    (case archived_carried s of
       None \<Rightarrow> Inr inventory
     | Some v \<Rightarrow>
         if slot = PLAYERDATA_OFFHAND_SLOT then Inr (snd (inventory_set_slot Offhand (Some v) inventory))
         else (case playerdata_slot_to_window_slot slot of
                 None \<Rightarrow> Inr inventory
               | Some window_slot \<Rightarrow> Inr (snd (inventory_set window_slot (Some v) inventory))))"
proof -
  obtain c where c: "tag = NbtCompound c" "byte_field c ''Slot'' = Inr slot" "short_field c ''id'' = Inr (fst item)"
    "short_field c ''Damage'' = Inr (snd item)" "byte_field c ''Count'' = Inr (is_count s)"
    using player_item_fields [OF tag] by blast
  have pos: "sint (is_count s) \<le> 0 \<longleftrightarrow> is_count s = 0"
    using sint_small_byte [of "is_count s"] s(2) by (simp add: word_less_nat_alt uint_0_iff)
  have arch: "archived_stack s = Some (semantic_item (fst item) (snd item) (is_count s))"
    using s(1) by (simp add: archived_stack_def split_beta)
  have "is_count (semantic_item (fst item) (snd item) n) = n" for n
    by (simp add: semantic_item_def Let_def item_stack_new_def item_stack_unsupported_def)
  then show ?thesis
    using pos by (simp add: read_inventory_entry_def c archived_carried_def arch Let_def)
qed

lemma window_slots:
  assumes "9 \<le> i" and "i < 45"
  obtains slot where "window_slot_to_playerdata_slot i = Some slot" and "slot \<noteq> PLAYERDATA_OFFHAND_SLOT"
    and "playerdata_slot_to_window_slot slot = Some (word_of_nat i)" and "unat (word_of_nat i :: u8) = i"
proof -
  define k where "k = (if i \<le> 35 then i else i - 36)"
  define slot :: i8 where "slot = word_of_nat k"
  have k: "k < 128" using assms by (simp add: k_def less_imp_diff_less)
  have n: "unat slot = k" "unat (word_of_nat i :: u8) = i"
    using assms k by (simp_all add: slot_def unat_of_nat take_bit_nat_eq_self)
  have "sint slot = int k" using sint_small [where ?'a = 8, of slot] k unfolding n(1) by simp
  moreover have "(36 + word_of_nat (i - 36) :: u8) = word_of_nat i" if "\<not> i \<le> 35"
  proof -
    have "(36 + word_of_nat (i - 36) :: u8) = word_of_nat (36 + (i - 36))" by simp
    then show ?thesis using that by simp
  qed
  moreover have "slot \<noteq> PLAYERDATA_OFFHAND_SLOT"
  proof
    assume "slot = PLAYERDATA_OFFHAND_SLOT"
    then have "unat slot = 150" by (simp add: PLAYERDATA_OFFHAND_SLOT_def)
    then show False using n(1) k by simp
  qed
  moreover have "window_slot_to_playerdata_slot i = Some slot"
    using assms by (simp add: window_slot_to_playerdata_slot_def slot_def k_def)
  ultimately show ?thesis
    using that [of slot] n(2) assms by (simp add: playerdata_slot_to_window_slot_def slot_def k_def split: if_splits)
qed

lemma archived_carried_None: "legacy_item s = None \<Longrightarrow> archived_carried s = None"
  by (simp add: archived_carried_def archived_stack_def)

lemma player_slot_roundtrip:
  assumes "i < 45" and "pred_option carried_storable st"
  shows "\<exists>t. encode_player_slot i st = Inr t \<and>
    (case t of
       None \<Rightarrow> (if 9 \<le> i then Option.bind st archived_carried else None) = None
     | Some tag \<Rightarrow> (tag_type tag = 10 \<and> nbt_ok tag) \<and>
         (\<forall>inventory. read_inventory_entry tag inventory =
           Inr (enter_slot put_slot i (if 9 \<le> i then Option.bind st archived_carried else None) inventory)))"
proof (cases "9 \<le> i \<and> Option.bind st legacy_item \<noteq> None")
  case False
  show ?thesis
  proof (cases "Option.bind st legacy_item")
    case None
    then have "Option.bind st archived_carried = None" and "encode_player_slot i st = Inr None"
      by (cases st; simp add: archived_carried_None encode_player_slot_def)+
    then show ?thesis by simp
  next
    case (Some item)
    then obtain s where s: "st = Some s" "legacy_item s = Some item" by (cases st) auto
    have i: "\<not> 9 \<le> i" using False Some by simp
    then have "encode_player_slot i st = Inr None"
      using s by (simp add: encode_player_slot_def window_slot_to_playerdata_slot_def)
    then show ?thesis using i by simp
  qed
next
  case True
  then obtain s item where s: "st = Some s" "legacy_item s = Some item" by (cases st) auto
  have n: "is_count s < 128" using assms(2) s by (simp add: carried_storable_def)
  obtain slot where slot: "window_slot_to_playerdata_slot i = Some slot" "slot \<noteq> PLAYERDATA_OFFHAND_SLOT"
    "playerdata_slot_to_window_slot slot = Some (word_of_nat i)" "unat (word_of_nat i :: u8) = i"
    using window_slots [of i] True assms(1) by blast
  obtain tag where tag: "player_item_tag slot item (is_count s) = Inr tag" using n by (simp add: player_item_tag_def)
  have "nbt_ok tag \<and> tag_type tag = 10" by (rule player_item_fields [OF tag]) auto
  moreover have "encode_player_slot i st = Inr (Some tag)" using assms(1) s slot(1) tag by (simp add: encode_player_slot_def)
  moreover have "read_inventory_entry tag inventory = Inr (enter_slot put_slot i (archived_carried s) inventory)" for inventory
    using slot assms(1) unfolding read_player_item [OF s(2) n tag]
    by (simp add: enter_slot_def inventory_set_def put_slot_def slot_counts split: option.split)
  ultimately show ?thesis using s True by simp
qed

lemma try_fold_append: "try_fold f (xs @ ys) s = bind_res (try_fold f xs s) (try_fold f ys)"
  by (induction xs arbitrary: s) (auto simp: bind_res_def split: sum.split)

lemma put_slots:
  "fold (\<lambda>(i, x). enter_slot put_slot i (f i x)) es inventory = inventory\<lparr>pi_slots :=
     fold (\<lambda>(i, x). enter_slot (\<lambda>i v slots. slots[i := Some v]) i (f i x)) es (pi_slots inventory)\<rparr>"
  by (induction es arbitrary: inventory) (auto simp: enter_slot_def put_slot_def split: option.split)

lemma inventory_roundtrip:
  assumes ok: "inventory_ok inventory" and slots: "list_all (pred_option carried_storable) (pi_slots inventory)"
    and offhand: "pred_option carried_storable (pi_offhand inventory)"
  obtains tags where "inventory_to_nbt inventory = Inr tags" and "list_all (\<lambda>t. tag_type t = 10 \<and> nbt_ok t) tags"
    and "length tags \<le> 46" and "inventory_from_tag (NbtList 10 tags) = Inr (archived_inventory inventory)"
proof -
  let ?f = "\<lambda>i st. if 9 \<le> i then Option.bind st archived_carried else None"
  let ?es = "enumerate 0 (pi_slots inventory)" and ?G = "\<lambda>t. tag_type t = 10 \<and> nbt_ok t"
  have len: "length (pi_slots inventory) = 45" using ok by (simp add: inventory_ok_def slot_counts)
  have "\<exists>t. encode_player_slot i st = Inr t \<and>
      (case t of None \<Rightarrow> ?f i st = None | Some tag \<Rightarrow> ?G tag \<and>
         (\<forall>s. read_inventory_entry tag s = Inr (enter_slot put_slot i (?f i st) s)))"
    if "(i, st) \<in> set ?es" for i st
    using that slots len by (intro player_slot_roundtrip) (auto simp: in_set_enumerate_eq list_all_iff)
  from entries_roundtrip [of ?es encode_player_slot ?f ?G read_inventory_entry put_slot, OF this]
  obtain tags where tags: "try_filter_map (\<lambda>(i, st). encode_player_slot i st) ?es = Inr tags" "list_all ?G tags" "length tags \<le> 45"
    and read: "\<And>s. try_fold read_inventory_entry tags s = Inr (fold (\<lambda>(i, st). enter_slot put_slot i (?f i st)) ?es s)"
    using len by auto
  let ?slots = "fold (\<lambda>(i, x). enter_slot (\<lambda>i v slots. slots[i := Some v]) i (?f i x)) ?es (replicate 45 None)"
  have main: "?slots = pi_slots (archived_inventory inventory)"
    by (rule nth_equalityI) (auto simp: nth_enter_slots archived_inventory_def slot_counts len)
  have read_tags: "try_fold read_inventory_entry tags inventory_new_empty = Inr \<lparr>pi_slots = pi_slots (archived_inventory inventory), pi_offhand = None\<rparr>"
    unfolding read put_slots by (simp add: inventory_new_empty_def slot_counts main)
  show ?thesis
  proof (cases "Option.bind (pi_offhand inventory) legacy_item")
    case None
    have arch: "Option.bind (pi_offhand inventory) archived_carried = None"
      and "Option.bind (pi_offhand inventory) (\<lambda>s. map_option (\<lambda>item. (s, item)) (legacy_item s)) = None"
      using None by (cases "pi_offhand inventory"; simp add: archived_carried_None)+
    then have "inventory_to_nbt inventory = Inr tags" using tags(1) by (simp add: inventory_to_nbt_def)
    then show ?thesis
      using that tags read_tags arch by (simp add: archived_inventory_def)
  next
    case (Some item)
    then obtain s where s: "pi_offhand inventory = Some s" "legacy_item s = Some item" by (cases "pi_offhand inventory") auto
    have n: "is_count s < 128" using offhand s by (simp add: carried_storable_def)
    obtain tag where tag: "player_item_tag PLAYERDATA_OFFHAND_SLOT item (is_count s) = Inr tag" using n by (simp add: player_item_tag_def)
    have G: "?G tag" by (rule player_item_fields [OF tag]) auto
    have "inventory_to_nbt inventory = Inr (tags @ [tag])" using tags(1) s tag by (simp add: inventory_to_nbt_def)
    moreover have "inventory_from_tag (NbtList 10 (tags @ [tag])) = Inr (archived_inventory inventory)"
      using read_tags read_player_item [OF s(2) n tag]
      by (simp add: try_fold_append inventory_set_slot_def archived_inventory_def s split: option.split)
    ultimately show ?thesis using that tags(2,3) G by simp
  qed
qed

subsection \<open>Players\<close>

definition player_tags :: "player_snapshot \<Rightarrow> nbt_tag list \<Rightarrow> (string \<times> nbt_tag) list" where
  "player_tags player inventory =
     [(''Pos'', NbtList 6 [NbtDouble (v_x (ps_position player)), NbtDouble (v_y (ps_position player)),
        NbtDouble (v_z (ps_position player))]),
      (''Rotation'', NbtList 5 [NbtFloat (ps_yaw player), NbtFloat (ps_pitch player)]),
      (''UUIDMost'', NbtLong (ucast (drop_bit 64 (ps_id player)))), (''UUIDLeast'', NbtLong (ucast (ps_id player))),
      (''Dimension'', NbtInt 0), (''OnGround'', NbtByte (if ps_on_ground player then 1 else 0)),
      (''Health'', NbtFloat (ps_health player)), (''foodLevel'', NbtInt (scast (ps_food player))),
      (''foodSaturationLevel'', NbtFloat (ps_food_saturation player)),
      (''SelectedItemSlot'', NbtInt (ucast (ps_selected_hotbar_slot player))),
      (''Inventory'', NbtList 10 inventory), (''Name'', NbtString (ps_username player))]"

lemma player_fields:
  fixes player inventory defines "c \<equiv> bt_collect (player_tags player inventory)"
  shows "list_field c ''Pos'' = Inr [NbtDouble (v_x (ps_position player)), NbtDouble (v_y (ps_position player)),
      NbtDouble (v_z (ps_position player))]"
    and "list_field c ''Rotation'' = Inr [NbtFloat (ps_yaw player), NbtFloat (ps_pitch player)]"
    and "long_field c ''UUIDMost'' = Inr (ucast (drop_bit 64 (ps_id player)))"
    and "long_field c ''UUIDLeast'' = Inr (ucast (ps_id player))"
    and "byte_field c ''OnGround'' = Inr (if ps_on_ground player then 1 else 0)"
    and "float_field c ''Health'' = Inr (ps_health player)"
    and "int_field c ''foodLevel'' = Inr (scast (ps_food player))"
    and "float_field c ''foodSaturationLevel'' = Inr (ps_food_saturation player)"
    and "int_field c ''SelectedItemSlot'' = Inr (ucast (ps_selected_hotbar_slot player))"
    and "map_of c ''Inventory'' = Some (NbtList 10 inventory)"
    and "string_field c ''Name'' = Inr (ps_username player)"
  unfolding c_def by (simp_all add: field_defs player_tags_def)

lemma uuid_halves: "push_bit 64 (ucast (ucast (drop_bit 64 u) :: u64)) OR ucast (ucast u :: u64) = (u :: 128 word)"
  by (rule bit_word_eqI) (auto simp: bit_or_iff bit_push_bit_iff bit_ucast_iff bit_drop_bit_eq)

lemma food_roundtrip:
  fixes v :: i16
  shows "(let w = sint (scast v :: i32) in if - (2 ^ 15) \<le> w \<and> w < 2 ^ 15 then word_of_int w else 20) = v"
proof -
  have range: "- (2 ^ 15) \<le> sint v" "sint v < 2 ^ 15" using sint_ge [of v] sint_lt [of v] by simp_all
  then have "sint (scast v :: i32) = sint v"
    by (simp add: signed_scast_eq signed_take_bit_int_eq_self)
  then show ?thesis using range by (simp add: Let_def)
qed

lemma hotbar_roundtrip:
  fixes v :: u8
  shows "(let w = sint (ucast v :: i32) in min (if 0 \<le> w \<and> w < 256 then word_of_int w else 0) 8) = min v 8"
  using uint_byte_range [of v] by (simp add: Let_def sint_ucast_byte)

lemma player_roundtrip:
  assumes "player_storable player"
  obtains m where "player_to_nbt player = Inr (NbtCompound m)" and "nbt_ok (NbtCompound m)"
    and "player_from_nbt (NbtCompound m) = Inr (archived_player player)"
proof -
  obtain tags where tags: "inventory_to_nbt (ps_inventory player) = Inr tags" "list_all (\<lambda>t. tag_type t = 10 \<and> nbt_ok t) tags"
    "length tags \<le> 46" "inventory_from_tag (NbtList 10 tags) = Inr (archived_inventory (ps_inventory player))"
    using inventory_roundtrip [of "ps_inventory player"] assms by (auto simp: player_storable_def)
  let ?c = "bt_collect (player_tags player tags)"
  have "list_all (\<lambda>e. nbt_string_ok (fst e)) (player_tags player tags)" by (simp add: player_tags_def nbt_string_ok_literal)
  moreover have "list_all (\<lambda>e. nbt_ok (snd e)) (player_tags player tags)"
    using tags(2,3) assms by (simp add: player_tags_def player_storable_def)
  ultimately have "nbt_ok (tag_compound (player_tags player tags))" by (intro nbt_ok_compound) (simp add: list_all_iff)
  moreover have "player_to_nbt player = Inr (tag_compound (player_tags player tags))"
    unfolding player_to_nbt_def tags(1) bind_res_Inr player_tags_def ..
  moreover have "player_from_nbt (tag_compound (player_tags player tags)) = Inr (archived_player player)"
    unfolding player_from_nbt_def as_compound_tag bind_res_Inr player_fields unwrap_or_Inr option.case tags(4) food_roundtrip
      hotbar_roundtrip uuid_halves
    by (simp add: tag_at_def archived_player_def)
  ultimately show ?thesis using that unfolding tag_compound_def by blast
qed

end
