(* ===== verification/Anvil_Region.thy ===== *)
theory Anvil_Region
  imports Anvil_Player "HOL-Library.Product_Lexorder"
begin

unbundle bit_operations_syntax

text \<open>
  The files of the Anvil storage: \<open>region.rs\<close>, the file parts of \<open>nbt.rs\<close>, \<open>level.rs\<close> and \<open>playerdata.rs\<close>, and the adapter
  of \<open>lib.rs\<close>, crate \<open>mc-storage-je-anvil-1_7_10\<close>.

  A world directory holds \<open>level.dat\<close> and the directories \<open>region\<close> and \<open>playerdata\<close>, each a map from file names to bytes.
  Any operation on a file may fail: \<open>storage_env\<close> says with which text. The rest of \<open>storage_env\<close> is
  the crates \<open>flate2\<close> and \<open>uuid\<close> and the order in which the operating system lists a directory. The arithmetic of sector
  numbers is that of a build with overflow checks.
\<close>

section \<open>The world directory\<close>

type_synonym directory = "string \<rightharpoonup> bytes"

record world_dir =
  wd_level_dat :: "bytes option"
  wd_region :: "directory option"
  wd_playerdata :: "directory option"

record storage_env =
  sv_compressors :: compressors
  sv_hyphenated :: "player_id \<Rightarrow> string"
  sv_read_dir :: "directory \<Rightarrow> string list"
  sv_fault :: "string \<Rightarrow> string option"

type_synonym 'a disk = "(world_dir, anvil_error, 'a) sr"

definition io_check :: "storage_env \<Rightarrow> string \<Rightarrow> unit disk" where
  "io_check env path = (case sv_fault env path of None \<Rightarrow> sret () | Some text \<Rightarrow> sfail (AnvilError (StorageIo text)))"

definition not_found :: anvil_error where
  "not_found = AnvilError (StorageIo ''No such file or directory'')"

definition fs_read :: "storage_env \<Rightarrow> string \<Rightarrow> (world_dir \<Rightarrow> bytes option) \<Rightarrow> bytes disk" where
  "fs_read env path file = sbind (io_check env path) (\<lambda>_. sbind (sget file) (\<lambda>bs. slift (case bs of None \<Rightarrow> Inl not_found | Some b \<Rightarrow> Inr b)))"

definition fs_write :: "storage_env \<Rightarrow> string \<Rightarrow> (world_dir \<Rightarrow> world_dir) \<Rightarrow> unit disk" where
  "fs_write env path update = sbind (io_check env path) (\<lambda>_. smod update)"

text \<open>The extension of a file name: what follows its last dot, unless that is the first character.\<close>

definition extension :: "string \<Rightarrow> string option" where
  "extension name =
     (let rest = dropWhile (\<lambda>c. c \<noteq> CHR ''.'') (rev name) in
      if length rest \<le> 1 then None else Some (rev (takeWhile (\<lambda>c. c \<noteq> CHR ''.'') (rev name))))"

definition in_region :: "string \<Rightarrow> world_dir \<Rightarrow> bytes option" where
  "in_region name w = Option.bind (wd_region w) (\<lambda>d. d name)"

definition in_playerdata :: "string \<Rightarrow> world_dir \<Rightarrow> bytes option" where
  "in_playerdata name w = Option.bind (wd_playerdata w) (\<lambda>d. d name)"

section \<open>Compressed tags in files: \<open>nbt.rs\<close>\<close>

definition write_gzip_nbt :: "storage_env \<Rightarrow> string \<Rightarrow> (bytes \<Rightarrow> world_dir \<Rightarrow> world_dir) \<Rightarrow> string \<Rightarrow> nbt_tag \<Rightarrow> unit disk" where
  "write_gzip_nbt env path update name tag =
     sbind (slift (gzip_compress_nbt (sv_compressors env) name tag)) (\<lambda>bs. fs_write env path (update bs))"

definition read_gzip_nbt :: "storage_env \<Rightarrow> string \<Rightarrow> (world_dir \<Rightarrow> bytes option) \<Rightarrow> nbt_tag disk" where
  "read_gzip_nbt env path file =
     sbind (fs_read env path file) (\<lambda>bs. slift (bind_res (decompress_gzip (sv_compressors env) bs) read_nbt))"

section \<open>Region files: \<open>region.rs\<close>\<close>

definition ANVIL_SECTOR_BYTES :: nat where "ANVIL_SECTOR_BYTES = 4096"
definition ANVIL_HEADER_BYTES :: nat where "ANVIL_HEADER_BYTES = ANVIL_SECTOR_BYTES * 2"
definition CHUNK_COMPRESSION_ZLIB :: u8 where "CHUNK_COMPRESSION_ZLIB = 2"

record region_buffer =
  rb_locations :: bytes
  rb_timestamps :: bytes
  rb_body :: bytes
  rb_sector_offset :: u32

text \<open>\<open>target[at..at + source.len()].copy_from_slice(source)\<close>.\<close>

definition copy_from_slice :: "nat \<Rightarrow> bytes \<Rightarrow> bytes \<Rightarrow> anvil_error + bytes" where
  "copy_from_slice at source target =
     (if at + length source \<le> length target
      then Inr (take at target @ source @ drop (at + length source) target) else Inl AnvilPanic)"

definition write_chunk :: "compressors \<Rightarrow> (block_pos, block_entity_state) btree_map \<Rightarrow> chunk_column \<Rightarrow> region_buffer \<Rightarrow>
    anvil_error + region_buffer" where
  "write_chunk z block_entities chunk buffer =
     (let index = region_chunk_index (cc_pos chunk) in
      bind_res (chunk_to_nbt chunk block_entities) (\<lambda>chunk_nbt.
      bind_res (zlib_compress_nbt z '''' chunk_nbt) (\<lambda>compressed.
        if length compressed + 1 \<ge> 2 ^ 32 then Inl (invalid_data ''compressed chunk too large'')
        else if length compressed + 5 \<ge> 2 ^ 32 then Inl AnvilPanic
        else
          let total_bytes = length compressed + 5;
              sector_count = div_ceil total_bytes ANVIL_SECTOR_BYTES;
              location = push_bit 8 (rb_sector_offset buffer) OR word_of_nat sector_count in
          bind_res (copy_from_slice (index * 4) (be_bytes 4 location) (rb_locations buffer)) (\<lambda>locations.
          bind_res (copy_from_slice (index * 4) (be_bytes 4 (0 :: u32)) (rb_timestamps buffer)) (\<lambda>timestamps. Inr
            \<lparr>rb_locations = locations, rb_timestamps = timestamps,
             rb_body = rb_body buffer @ be_bytes 4 (word_of_nat (length compressed + 1) :: u32) @ [CHUNK_COMPRESSION_ZLIB] @ compressed @
               replicate (sector_count * ANVIL_SECTOR_BYTES - total_bytes) 0,
             rb_sector_offset = saturating_add_word (rb_sector_offset buffer) (word_of_nat sector_count)\<rparr>)))))"

definition region_bytes :: "compressors \<Rightarrow> (block_pos, block_entity_state) btree_map \<Rightarrow> chunk_column list \<Rightarrow> nbt_enc" where
  "region_bytes z block_entities chunks =
     bind_res (try_fold (write_chunk z block_entities) chunks
       \<lparr>rb_locations = replicate ANVIL_SECTOR_BYTES 0, rb_timestamps = replicate ANVIL_SECTOR_BYTES 0, rb_body = [], rb_sector_offset = 2\<rparr>)
       (\<lambda>buffer. Inr (rb_locations buffer @ rb_timestamps buffer @ rb_body buffer))"

definition write_region_file :: "storage_env \<Rightarrow> string \<Rightarrow> chunk_column list \<Rightarrow> (block_pos, block_entity_state) btree_map \<Rightarrow> unit disk" where
  "write_region_file env name chunks block_entities =
     sbind (slift (region_bytes (sv_compressors env) block_entities chunks)) (\<lambda>bs.
       fs_write env (''region/'' @ name) (\<lambda>w. w\<lparr>wd_region := Some ((case wd_region w of Some d \<Rightarrow> d | None \<Rightarrow> Map.empty)(name \<mapsto> bs))\<rparr>))"

definition region_name :: "int \<times> int \<Rightarrow> string" where
  "region_name r = ''r.'' @ decimal_int (fst r) @ ''.'' @ decimal_int (snd r) @ ''.mca''"

definition region_of :: "chunk_pos \<Rightarrow> int \<times> int" where
  "region_of pos = (cp_x pos div 32, cp_z pos div 32)"

definition group_chunks :: "chunk_column list \<Rightarrow> (int \<times> int, chunk_column list) btree_map" where
  "group_chunks chunks = fold (\<lambda>chunk grouped.
     bt_insert (region_of (cc_pos chunk)) (case_option [] (\<lambda>cs. cs) (map_of grouped (region_of (cc_pos chunk))) @ [chunk]) grouped) chunks []"

definition write_regions :: "storage_env \<Rightarrow> (chunk_pos, chunk_column) btree_map \<Rightarrow> (block_pos, block_entity_state) btree_map \<Rightarrow> unit disk" where
  "write_regions env chunks block_entities =
     sbind (fs_write env ''region'' (\<lambda>w. w\<lparr>wd_region := Some (case wd_region w of Some d \<Rightarrow> d | None \<Rightarrow> Map.empty)\<rparr>)) (\<lambda>_.
     sfor (group_chunks (map snd chunks)) (\<lambda>(region, region_chunks).
       write_region_file env (region_name region) region_chunks block_entities))"

text \<open>One iteration of the reading loop; \<open>continue\<close> leaves the accumulators as they are.\<close>

definition read_chunk_at :: "compressors \<Rightarrow> bytes \<Rightarrow> nat \<Rightarrow> chunk_column list \<times> (block_pos, block_entity_state) btree_map \<Rightarrow>
    anvil_error + (chunk_column list \<times> (block_pos, block_entity_state) btree_map)" where
  "read_chunk_at z bs index acc =
     (let location = of_be_bytes (take 4 (drop (index * 4) bs)) :: u32 in
      if location = 0 then Inr acc
      else
        let sector_offset = unat (drop_bit 8 location);
            sector_count = unat (location AND 0xff);
            start = sector_offset * ANVIL_SECTOR_BYTES;
            stop = start + sector_count * ANVIL_SECTOR_BYTES in
        if stop > length bs \<or> start + 5 > stop then Inr acc
        else
          let len = unat (of_be_bytes (take 4 (drop start bs)) :: u32) in
          if len = 0 \<or> start + 4 + len > stop then Inr acc
          else
            let compression = bs ! (start + 4);
                payload = take (len - 1) (drop (start + 5) bs) in
            bind_res
              (if compression = 1 then decompress_gzip z payload
               else if compression = 2 then decompress_zlib z payload
               else Inl (invalid_data ''unsupported region compression'')) (\<lambda>decompressed.
            bind_res (bind_res (read_nbt decompressed) chunk_from_nbt) (\<lambda>(chunk, chunk_block_entities).
              Inr (fst acc @ [chunk], fold (\<lambda>(k, v). bt_insert k v) chunk_block_entities (snd acc)))))"

definition parse_region :: "compressors \<Rightarrow> bytes \<Rightarrow> anvil_error + (chunk_column list \<times> (block_pos, block_entity_state) btree_map)" where
  "parse_region z bs =
     (if length bs < ANVIL_HEADER_BYTES then Inl (invalid_data ''region file is too small'')
      else try_fold (read_chunk_at z bs) [0..<1024] ([], []))"

definition read_region_file :: "storage_env \<Rightarrow> string \<Rightarrow> (chunk_column list \<times> (block_pos, block_entity_state) btree_map) disk" where
  "read_region_file env name =
     sbind (fs_read env (''region/'' @ name) (in_region name)) (\<lambda>bs. slift (parse_region (sv_compressors env) bs))"

fun read_region_files :: "storage_env \<Rightarrow> string list \<Rightarrow> (chunk_pos, chunk_column) btree_map \<times> (block_pos, block_entity_state) btree_map \<Rightarrow>
    ((chunk_pos, chunk_column) btree_map \<times> (block_pos, block_entity_state) btree_map) disk" where
  "read_region_files env [] acc = sret acc"
| "read_region_files env (name # names) acc =
     (if extension name \<noteq> Some ''mca'' then read_region_files env names acc
      else sbind (read_region_file env name) (\<lambda>(chunks, block_entities).
        read_region_files env names
          (fold (\<lambda>c. bt_insert (cc_pos c) c) chunks (fst acc), fold (\<lambda>(k, v). bt_insert k v) block_entities (snd acc))))"

definition read_regions :: "storage_env \<Rightarrow> ((chunk_pos, chunk_column) btree_map \<times> (block_pos, block_entity_state) btree_map) disk" where
  "read_regions env = sbind (sget wd_region) (\<lambda>dir.
     case dir of
       None \<Rightarrow> sret ([], [])
     | Some d \<Rightarrow> sbind (io_check env ''region'') (\<lambda>_. read_region_files env (sv_read_dir env d) ([], [])))"

section \<open>Settings and players\<close>

definition write_level_dat :: "storage_env \<Rightarrow> world_meta \<Rightarrow> unit disk" where
  "write_level_dat env meta = write_gzip_nbt env ''level.dat'' (\<lambda>bs w. w\<lparr>wd_level_dat := Some bs\<rparr>) '''' (level_to_nbt meta)"

definition read_level_dat :: "storage_env \<Rightarrow> world_meta disk" where
  "read_level_dat env = sbind (read_gzip_nbt env ''level.dat'' wd_level_dat) (\<lambda>root. slift (level_from_nbt root))"

definition player_file :: "storage_env \<Rightarrow> player_id \<Rightarrow> string" where
  "player_file env p = sv_hyphenated env p @ ''.dat''"

definition write_playerdata :: "storage_env \<Rightarrow> (player_id, player_snapshot) btree_map \<Rightarrow> unit disk" where
  "write_playerdata env players =
     sbind (fs_write env ''playerdata'' (\<lambda>w. w\<lparr>wd_playerdata := Some (case wd_playerdata w of Some d \<Rightarrow> d | None \<Rightarrow> Map.empty)\<rparr>)) (\<lambda>_.
     sfor (map snd players) (\<lambda>player.
       sbind (slift (player_to_nbt player)) (\<lambda>root.
         write_gzip_nbt env (''playerdata/'' @ player_file env (ps_id player))
           (\<lambda>bs w. w\<lparr>wd_playerdata := Some ((case wd_playerdata w of Some d \<Rightarrow> d | None \<Rightarrow> Map.empty)(player_file env (ps_id player) \<mapsto> bs))\<rparr>)
           '''' root)))"

fun read_player_files :: "storage_env \<Rightarrow> string list \<Rightarrow> (player_id, player_snapshot) btree_map \<Rightarrow>
    (player_id, player_snapshot) btree_map disk" where
  "read_player_files env [] acc = sret acc"
| "read_player_files env (name # names) acc =
     (if extension name \<noteq> Some ''dat'' then read_player_files env names acc
      else sbind (read_gzip_nbt env (''playerdata/'' @ name) (in_playerdata name)) (\<lambda>root.
        sbind (slift (player_from_nbt root)) (\<lambda>player. read_player_files env names (bt_insert (ps_id player) player acc))))"

definition read_playerdata :: "storage_env \<Rightarrow> (player_id, player_snapshot) btree_map disk" where
  "read_playerdata env = sbind (sget wd_playerdata) (\<lambda>dir.
     case dir of
       None \<Rightarrow> sret []
     | Some d \<Rightarrow> sbind (io_check env ''playerdata'') (\<lambda>_. read_player_files env (sv_read_dir env d) []))"

section \<open>The adapter: \<open>lib.rs\<close>\<close>

definition load_snapshot :: "storage_env \<Rightarrow> world_snapshot option disk" where
  "load_snapshot env = sbind (sget wd_level_dat) (\<lambda>level.
     case level of
       None \<Rightarrow> sret None
     | Some _ \<Rightarrow>
         sbind (read_level_dat env) (\<lambda>meta. sbind (read_regions env) (\<lambda>(chunks, block_entities).
         sbind (read_playerdata env) (\<lambda>players.
           sret (Some \<lparr>wn_meta = meta, wn_chunks = chunks, wn_block_entities = block_entities, wn_players = players\<rparr>)))))"

definition save_snapshot :: "storage_env \<Rightarrow> world_snapshot \<Rightarrow> unit disk" where
  "save_snapshot env snapshot =
     sbind (io_check env '''') (\<lambda>_. sbind (write_level_dat env (wn_meta snapshot)) (\<lambda>_.
     sbind (write_regions env (wn_chunks snapshot) (wn_block_entities snapshot)) (\<lambda>_.
       write_playerdata env (wn_players snapshot))))"

end
