(* ===== verification/Anvil_Sectors.thy ===== *)
theory Anvil_Sectors
  imports Anvil_Region
begin

unbundle bit_operations_syntax

text \<open>
  Region files read back: what \<open>write_region_file\<close> writes, \<open>read_region_file\<close> reads.

  \<open>buffer_ok\<close> is the invariant of the writing loop: every entry of the location table is zero or points at whole
  sectors of the body that start with the chunk of that entry (\<open>stored_at\<close>). Sector numbers stay below \<open>2 ^ 24\<close> because a
  region has at most 1024 chunks of at most 255 sectors (\<open>chunk_fits\<close>). File names determine regions, and the chunks of a
  world are grouped by region.
\<close>

section \<open>Ordered maps filled from parts of one map\<close>

lemma map_of_subset: "bt_ok m \<Longrightarrow> set kvs \<subseteq> set m \<Longrightarrow> (k, v) \<in> set kvs \<Longrightarrow> map_of kvs k = Some v"
  by (metis bt_ok_distinct map_of_SomeD map_of_eq_Some_iff subsetD weak_map_of_SomeI)

lemma fold_bt_insert_set:
  assumes acc: "bt_ok acc" and target: "bt_ok m" and sub: "set acc \<subseteq> set m" "set kvs \<subseteq> set m"
  shows "bt_ok (fold (\<lambda>(k, v). bt_insert k v) kvs acc)" and "set (fold (\<lambda>(k, v). bt_insert k v) kvs acc) = set acc \<union> set kvs"
proof -
  let ?r = "fold (\<lambda>(k, v). bt_insert k v) kvs acc"
  show ok: "bt_ok ?r" using fold_bt_insert_inv [OF acc] by blast
  have r: "set ?r \<subseteq> set acc \<union> set kvs" using fold_bt_insert_inv [OF acc] by blast
  have look: "map_of ?r = map_of acc ++ map_of (rev kvs)" by (rule map_of_fold_bt_insert [OF acc])
  have "(k, v) \<in> set ?r" if kv: "(k, v) \<in> set acc \<union> set kvs" for k v
  proof -
    obtain v' where v': "map_of ?r k = Some v'"
    proof (cases "map_of (rev kvs) k")
      case None
      then have "k \<notin> fst ` set kvs" by (simp add: map_of_eq_None_iff)
      then have "(k, v) \<in> set acc" using kv by (metis UnE fst_conv imageI)
      then have "map_of acc k = Some v" by (rule map_of_subset [OF acc order_refl])
      then show ?thesis using that look None by (simp add: map_add_def)
    qed (use that look in \<open>simp add: map_add_def\<close>)
    then have "(k, v') \<in> set m" and "(k, v) \<in> set m" using r sub kv map_of_SomeD [OF v'] by blast+
    then have "v' = v" by (metis bt_ok_distinct [OF target] eq_key_imp_eq_value)
    then show ?thesis using map_of_SomeD [OF v'] by simp
  qed
  then show "set ?r = set acc \<union> set kvs" using r by auto
qed

lemma bt_ok_set_eqI: "bt_ok m \<Longrightarrow> bt_ok m' \<Longrightarrow> set m = set m' \<Longrightarrow> m = m'"
  by (intro bt_ok_eqI) (simp_all add: map_of_inject_set bt_ok_distinct)

section \<open>The location table of a region file\<close>

definition location_at :: "bytes \<Rightarrow> nat \<Rightarrow> u32" where
  "location_at bs i = of_be_bytes (take 4 (drop (i * 4) bs))"

lemma copy_location:
  assumes "i < n" and "length bs = 4 * n"
  obtains bs' where "copy_from_slice (i * 4) (be_bytes 4 w) bs = Inr bs'" and "length bs' = 4 * n"
    and "\<And>j. j < n \<Longrightarrow> location_at bs' j = (if j = i then w else location_at bs j)"
proof
  let ?bs = "take (i * 4) bs @ be_bytes 4 w @ drop (i * 4 + 4) bs"
  show "copy_from_slice (i * 4) (be_bytes 4 w) bs = Inr ?bs" using assms by (simp add: copy_from_slice_def)
  show len: "length ?bs = 4 * n" using assms by simp
  show "location_at ?bs j = (if j = i then w else location_at bs j)" if j: "j < n" for j
  proof (cases i j rule: linorder_cases)
    case equal
    then show ?thesis using assms by (simp add: location_at_def)
  next
    case less
    then have "j * 4 = i * 4 + 4 + (j * 4 - (i * 4 + 4))" by simp
    then have "drop (j * 4) ?bs = drop (j * 4) bs"
      using less assms by (simp add: drop_Cons' add.commute)
    then show ?thesis using less by (simp add: location_at_def)
  next
    case greater
    then have "take 4 (drop (j * 4) ?bs) = take 4 (drop (j * 4) (take (i * 4) bs))"
      using assms by simp
    also have "\<dots> = take 4 (drop (j * 4) bs)" using greater by (simp add: drop_take min_def)
    finally show ?thesis using greater by (simp add: location_at_def)
  qed
qed


section \<open>Writing a region\<close>

text \<open>The bytes of a chunk in the file: what \<open>write_chunk\<close> compresses.\<close>

definition chunk_raw :: "(block_pos, block_entity_state) btree_map \<Rightarrow> chunk_column \<Rightarrow> nbt_enc" where
  "chunk_raw block_entities chunk = bind_res (chunk_to_nbt chunk block_entities) (write_named_tag 10 '''')"

definition chunk_fits :: "compressors \<Rightarrow> (block_pos, block_entity_state) btree_map \<Rightarrow> chunk_column \<Rightarrow> bool" where
  "chunk_fits z block_entities chunk \<longleftrightarrow>
     (case chunk_raw block_entities chunk of
        Inl _ \<Rightarrow> False
      | Inr raw \<Rightarrow> length raw \<le> isize_max \<and> length (zlib_encode z raw) + 5 \<le> 255 * ANVIL_SECTOR_BYTES)"

definition chunk_blob :: "compressors \<Rightarrow> (block_pos, block_entity_state) btree_map \<Rightarrow> chunk_column \<Rightarrow> bytes" where
  "chunk_blob z block_entities chunk = (case chunk_raw block_entities chunk of Inl _ \<Rightarrow> [] | Inr raw \<Rightarrow> zlib_encode z raw)"

text \<open>A location entry points at a chunk in the body of the file; the body starts at sector 2.\<close>

definition stored_at :: "bytes \<Rightarrow> u32 \<Rightarrow> bytes \<Rightarrow> bool" where
  "stored_at body location blob \<longleftrightarrow> (\<exists>sector n.
     unat location = (sector + 2) * 256 + n \<and> 0 < n \<and> n < 256 \<and>
     (sector + n) * 4096 \<le> length body \<and> length blob + 5 \<le> n * 4096 \<and>
     take (length blob + 5) (drop (sector * 4096) body) =
       be_bytes 4 (word_of_nat (length blob + 1) :: u32) @ [CHUNK_COMPRESSION_ZLIB] @ blob)"

lemma stored_at_append: "stored_at body location blob \<Longrightarrow> stored_at (body @ rest) location blob"
proof -
  assume "stored_at body location blob"
  then obtain s n where s: "unat location = (s + 2) * 256 + n" "0 < n" "n < 256" "(s + n) * 4096 \<le> length body" "length blob + 5 \<le> n * 4096"
    "take (length blob + 5) (drop (s * 4096) body) = be_bytes 4 (word_of_nat (length blob + 1) :: u32) @ [CHUNK_COMPRESSION_ZLIB] @ blob"
    unfolding stored_at_def by blast
  have "length blob + 5 \<le> length (drop (s * 4096) body)" using s(4,5) by simp
  then have "take (length blob + 5) (drop (s * 4096) (body @ rest)) = take (length blob + 5) (drop (s * 4096) body)"
    using s(4) by simp
  then show ?thesis using s unfolding stored_at_def by (intro exI [of _ s] exI [of _ n]) simp
qed

definition buffer_ok :: "(nat \<Rightarrow> bytes option) \<Rightarrow> nat \<Rightarrow> region_buffer \<Rightarrow> bool" where
  "buffer_ok view n b \<longleftrightarrow> length (rb_locations b) = 4096 \<and> length (rb_timestamps b) = 4096 \<and>
     2 \<le> unat (rb_sector_offset b) \<and> unat (rb_sector_offset b) \<le> 2 + 255 * n \<and>
     length (rb_body b) = (unat (rb_sector_offset b) - 2) * 4096 \<and>
     (\<forall>i < 1024. case view i of None \<Rightarrow> location_at (rb_locations b) i = 0
        | Some blob \<Rightarrow> stored_at (rb_body b) (location_at (rb_locations b) i) blob)"

lemma region_chunk_index_less: "region_chunk_index pos < 1024"
proof -
  have "nat (a mod 32) < 32" for a :: int by (simp add: nat_less_iff)
  from this [of "cp_x pos"] this [of "cp_z pos"] show ?thesis by (simp add: region_chunk_index_def)
qed

lemma location_word:
  fixes off :: u32
  assumes "unat off < 2 ^ 24" and "n < 256"
  shows "unat (push_bit 8 off OR word_of_nat n) = unat off * 256 + n"
proof -
  have n: "take_bit 8 n = n" using assms(2) by (simp add: take_bit_nat_eq_self)
  have "push_bit 8 off AND word_of_nat n = (0 :: u32)"
  proof (rule bit_word_eqI)
    fix i
    have "bit n i \<Longrightarrow> i < 8" by (metis n bit_take_bit_iff)
    then show "bit (push_bit 8 off AND word_of_nat n) i = bit (0 :: u32) i"
      by (auto simp: bit_and_iff bit_push_bit_iff bit_simps)
  qed
  then have "push_bit 8 off OR word_of_nat n = push_bit 8 off + (word_of_nat n :: u32)"
    by (simp add: disjunctive_add_eq_or)
  moreover have "unat (push_bit 8 off + word_of_nat n :: u32) = unat off * 256 + n"
    using assms by (simp add: push_bit_eq_mult unat_word_ariths unat_of_nat take_bit_nat_eq_self)
  ultimately show ?thesis by simp
qed

lemma div_ceil_bounds:
  assumes "0 < n" and "n \<le> 255 * 4096"
  shows "0 < div_ceil n 4096" and "div_ceil n 4096 \<le> 255" and "n \<le> div_ceil n 4096 * 4096"
  using assms by (simp_all add: div_ceil_def)

lemma chunk_blob_written:
  assumes "chunk_fits z bes c"
  obtains tag where "chunk_to_nbt c bes = Inr tag" and "zlib_compress_nbt z '''' tag = Inr (chunk_blob z bes c)"
    and "length (chunk_blob z bes c) + 5 \<le> 255 * 4096"
  using assms unfolding chunk_fits_def chunk_blob_def chunk_raw_def zlib_compress_nbt_def ANVIL_SECTOR_BYTES_def
  by (auto simp: bind_res_def split: sum.splits)

lemma write_chunk_ok:
  assumes fits: "chunk_fits z bes c" and b: "buffer_ok view n b" and n: "n < 1024"
  obtains b' where "write_chunk z bes c b = Inr b'"
    and "buffer_ok (view(region_chunk_index (cc_pos c) \<mapsto> chunk_blob z bes c)) (Suc n) b'"
proof -
  define blob where "blob = chunk_blob z bes c"
  define i where "i = region_chunk_index (cc_pos c)"
  define off where "off = unat (rb_sector_offset b)"
  define k where "k = div_ceil (length blob + 5) 4096"
  have i: "i < 1024" by (simp add: i_def region_chunk_index_less)
  have b': "length (rb_locations b) = 4 * 1024" "length (rb_timestamps b) = 4 * 1024" "2 \<le> off" "off \<le> 2 + 255 * n"
    "length (rb_body b) = (off - 2) * 4096"
    and view: "\<And>j. j < 1024 \<Longrightarrow> case view j of None \<Rightarrow> location_at (rb_locations b) j = 0
        | Some blob \<Rightarrow> stored_at (rb_body b) (location_at (rb_locations b) j) blob"
    using b by (simp_all add: buffer_ok_def off_def)
  obtain tag where tag: "chunk_to_nbt c bes = Inr tag" "zlib_compress_nbt z '''' tag = Inr blob" "length blob + 5 \<le> 255 * 4096"
    using chunk_blob_written [OF fits] unfolding blob_def by blast
  have k: "0 < k" "k \<le> 255" "length blob + 5 \<le> k * 4096"
    using div_ceil_bounds [of "length blob + 5"] tag(3) by (simp_all add: k_def)
  let ?loc = "push_bit 8 (rb_sector_offset b) OR word_of_nat k"
  have loc: "unat ?loc = off * 256 + k"
    using location_word [of "rb_sector_offset b" k] b'(4) n k by (simp add: off_def)
  obtain locs where locs: "copy_from_slice (i * 4) (be_bytes 4 ?loc) (rb_locations b) = Inr locs" "length locs = 4 * 1024"
    "\<And>j. j < 1024 \<Longrightarrow> location_at locs j = (if j = i then ?loc else location_at (rb_locations b) j)"
    using copy_location [OF i b'(1)] by metis
  obtain times where times: "copy_from_slice (i * 4) (be_bytes 4 (0 :: u32)) (rb_timestamps b) = Inr times" "length times = 4 * 1024"
    using copy_location [OF i b'(2)] by metis
  define new where "new = be_bytes 4 (word_of_nat (length blob + 1) :: u32) @ [CHUNK_COMPRESSION_ZLIB] @ blob"
  define pad :: bytes where "pad = replicate (k * 4096 - (length blob + 5)) 0"
  define next_off where "next_off = saturating_add_word (rb_sector_offset b) (word_of_nat k)"
  have new: "length new = length blob + 5" by (simp add: new_def)
  have next_off: "unat next_off = off + k"
  proof -
    have "unat (word_of_nat k :: u32) = k" using k by (simp add: unat_of_nat take_bit_nat_eq_self)
    then show ?thesis using b'(4) n k by (simp add: next_off_def unat_saturating_add_word off_def)
  qed
  let ?b = "\<lparr>rb_locations = locs, rb_timestamps = times, rb_body = rb_body b @ new @ pad, rb_sector_offset = next_off\<rparr>"
  have len: "length (rb_body b @ new @ pad) = (off - 2 + k) * 4096" using b'(5) new k(3) by (simp add: pad_def algebra_simps)
  have "stored_at (rb_body b @ new @ pad) ?loc blob"
    unfolding stored_at_def
  proof (intro exI conjI)
    show "unat ?loc = (off - 2 + 2) * 256 + k" using loc b'(3) by simp
    show "take (length blob + 5) (drop ((off - 2) * 4096) (rb_body b @ new @ pad)) =
        be_bytes 4 (word_of_nat (length blob + 1) :: u32) @ [CHUNK_COMPRESSION_ZLIB] @ blob"
      using b'(5) new by (simp add: new_def)
  qed (use k len in simp_all)
  then have "case (view(i \<mapsto> blob)) j of None \<Rightarrow> location_at locs j = 0
      | Some x \<Rightarrow> stored_at (rb_body b @ new @ pad) (location_at locs j) x" if "j < 1024" for j
    using view [OF that] locs(3) [OF that] by (cases "view j") (auto intro: stored_at_append)
  then have "buffer_ok (view(i \<mapsto> blob)) (Suc n) ?b"
    unfolding buffer_ok_def region_buffer.simps using locs(2) times(2) b'(3,4) next_off k len by (intro conjI) simp_all
  moreover have "write_chunk z bes c b = Inr ?b"
    using tag locs(1) times(1)
    by (simp add: write_chunk_def ANVIL_SECTOR_BYTES_def i_def k_def new_def pad_def next_off_def Let_def)
  ultimately show ?thesis using that unfolding i_def blob_def by blast
qed

text \<open>The chunk of a list that a position of the location table belongs to.\<close>

definition chunk_at :: "chunk_column list \<Rightarrow> nat \<Rightarrow> chunk_column option" where
  "chunk_at chunks i = find (\<lambda>c. region_chunk_index (cc_pos c) = i) chunks"

abbreviation chunk_indices :: "chunk_column list \<Rightarrow> nat list" where
  "chunk_indices chunks \<equiv> map (\<lambda>c. region_chunk_index (cc_pos c)) chunks"

lemma chunk_at_snoc:
  "region_chunk_index (cc_pos c) \<notin> set (chunk_indices cs) \<Longrightarrow>
    chunk_at (cs @ [c]) = (chunk_at cs)(region_chunk_index (cc_pos c) \<mapsto> c)"
  by (induction cs) (auto simp: chunk_at_def fun_eq_iff)

lemma few_chunks: "distinct (chunk_indices cs) \<Longrightarrow> length cs \<le> 1024"
proof -
  assume d: "distinct (chunk_indices cs)"
  have "set (chunk_indices cs) \<subseteq> {..<1024}" using region_chunk_index_less by auto
  then have "card (set (chunk_indices cs)) \<le> card {..<1024 :: nat}" by (intro card_mono) simp_all
  then show ?thesis using distinct_card [OF d] by simp
qed

lemma write_chunks_ok:
  assumes "list_all (chunk_fits z bes) cs" and "distinct (chunk_indices cs)" and "buffer_ok (\<lambda>_. None) 0 b"
  obtains b' where "try_fold (write_chunk z bes) cs b = Inr b'"
    and "buffer_ok (\<lambda>i. map_option (chunk_blob z bes) (chunk_at cs i)) (length cs) b'"
  using assms(1,2)
proof (induction cs arbitrary: thesis rule: rev_induct)
  case Nil
  then show ?case using assms(3) by (simp add: chunk_at_def)
next
  case (snoc c cs)
  obtain b1 where b1: "try_fold (write_chunk z bes) cs b = Inr b1"
    "buffer_ok (\<lambda>i. map_option (chunk_blob z bes) (chunk_at cs i)) (length cs) b1"
    using snoc.IH snoc.prems(2,3) by auto
  have n: "length cs < 1024" using few_chunks [OF snoc.prems(3)] by simp
  have "chunk_fits z bes c" using snoc.prems(2) by simp
  from write_chunk_ok [OF this b1(2) n] obtain b2 where b2: "write_chunk z bes c b1 = Inr b2"
    "buffer_ok ((\<lambda>i. map_option (chunk_blob z bes) (chunk_at cs i))(region_chunk_index (cc_pos c) \<mapsto> chunk_blob z bes c)) (Suc (length cs)) b2"
    by blast
  have "(\<lambda>i. map_option (chunk_blob z bes) (chunk_at (cs @ [c]) i)) =
      (\<lambda>i. map_option (chunk_blob z bes) (chunk_at cs i))(region_chunk_index (cc_pos c) \<mapsto> chunk_blob z bes c)"
    using snoc.prems(3) by (subst chunk_at_snoc) (auto simp: fun_eq_iff)
  then show ?case using snoc.prems(1) b1 b2 by (simp add: try_fold_append)
qed

section \<open>Reading a region\<close>

lemma location_parts:
  fixes location :: u32
  assumes "unat location = s * 256 + n" and "n < 256"
  shows "unat (drop_bit 8 location) = s" and "unat (location AND 0xff) = n"
proof -
  have "unat (drop_bit 8 location) = unat location div 256" 
    using unsigned_less [of location, where ?'a = nat] by (simp only: unsigned_drop_bit_eq) (simp add: drop_bit_eq_div take_bit_nat_eq_self)
  then show "unat (drop_bit 8 location) = s" using assms by simp
  have "location AND 0xff = take_bit 8 location" by (simp add: take_bit_eq_mask mask_eq_exp_minus_1)
  then have "unat (location AND 0xff) = unat location mod 256" by (simp only: unsigned_take_bit_eq) (simp add: take_bit_eq_mod)
  then show "unat (location AND 0xff) = n" using assms by simp
qed

lemma chunk_blob_read:
  assumes z: "compressors_ok z" and c: "column_storable c" and bes: "bt_ok bes" "list_all entity_storable bes" "length bes < 2 ^ 31"
    and fits: "chunk_fits z bes c"
  shows "bind_res (decompress_zlib z (chunk_blob z bes c)) (\<lambda>raw. bind_res (read_nbt raw) chunk_from_nbt) =
    Inr (archived_column c, archived_entities (cc_pos c) bes)"
proof -
  obtain m where m: "chunk_to_nbt c bes = Inr (NbtCompound m)" "nbt_ok (NbtCompound m)"
    "chunk_from_nbt (NbtCompound m) = Inr (archived_column c, archived_entities (cc_pos c) bes)"
    using chunk_roundtrip [OF c bes] by blast
  obtain raw where raw: "write_named_tag 10 '''' (NbtCompound m) = Inr raw" "length raw \<le> isize_max"
    using fits m(1) by (auto simp del: write_named_tag.simps simp: chunk_fits_def chunk_raw_def split: sum.splits)
  have "nbt_string_ok ''''" by (simp add: nbt_string_ok_literal)
  then have "read_nbt raw = Inr (NbtCompound m)" using read_nbt_written [OF m(2) _ raw] by blast
  then show ?thesis
    using z raw(1) m by (simp del: write_named_tag.simps add: chunk_blob_def chunk_raw_def decompress_zlib_def decompress_def compressors_ok_def)
qed

text \<open>One entry of the table read back.\<close>

lemma read_chunk_stored:
  assumes bs: "bs = rb_locations b @ rb_timestamps b @ rb_body b" and len: "length (rb_locations b) = 4096" "length (rb_timestamps b) = 4096"
    and i: "i < 1024" and at: "stored_at (rb_body b) (location_at (rb_locations b) i) blob"
    and size: "length blob + 1 < 2 ^ 32"
  shows "read_chunk_at z bs i acc =
    bind_res (bind_res (decompress_zlib z blob) (\<lambda>raw. bind_res (read_nbt raw) chunk_from_nbt)) (\<lambda>(chunk, es).
      Inr (fst acc @ [chunk], fold (\<lambda>(k, v). bt_insert k v) es (snd acc)))"
proof -
  let ?loc = "location_at (rb_locations b) i"
  obtain s n where s: "unat ?loc = (s + 2) * 256 + n" "0 < n" "n < 256" "(s + n) * 4096 \<le> length (rb_body b)" "length blob + 5 \<le> n * 4096"
    and data: "take (length blob + 5) (drop (s * 4096) (rb_body b)) =
      be_bytes 4 (word_of_nat (length blob + 1) :: u32) @ [CHUNK_COMPRESSION_ZLIB] @ blob"
    using at unfolding stored_at_def by blast
  have loc: "of_be_bytes (take 4 (drop (i * 4) bs)) = ?loc"
    using i len by (simp add: bs location_at_def)
  have nz: "?loc \<noteq> 0" using s(1,2) by (metis add_is_0 less_numeral_extra(3) unsigned_0)
  have parts: "unat (drop_bit 8 ?loc) = s + 2" "unat (?loc AND 0xff) = n" using location_parts [OF s(1,3)] by simp_all
  define d where "d = drop ((s + 2) * 4096) bs"
  have d: "d = drop (s * 4096) (rb_body b)" using len by (simp add: d_def bs)
  have head: "take (length blob + 5) d = be_bytes 4 (word_of_nat (length blob + 1) :: u32) @ [CHUNK_COMPRESSION_ZLIB] @ blob"
    using data unfolding d .
  have dlen: "length blob + 5 \<le> length d" using s(4,5) by (simp add: d)
  define rest where "rest = drop (length blob + 5) d"
  have dd: "d = be_bytes 4 (word_of_nat (length blob + 1) :: u32) @ [CHUNK_COMPRESSION_ZLIB] @ blob @ rest"
    using append_take_drop_id [of "length blob + 5" d] unfolding head rest_def by simp
  have "unat (word_of_nat (length blob + 1) :: u32) = length blob + 1" using size by (simp only: unat_of_nat) (simp add: take_bit_nat_eq_self)
  moreover have "take 4 d = be_bytes 4 (word_of_nat (length blob + 1) :: u32)" unfolding dd by simp
  ultimately have "unat (of_be_bytes (take 4 (drop ((s + 2) * 4096) bs)) :: u32) = length blob + 1" by (simp add: d_def)
  moreover have "bs ! ((s + 2) * 4096 + 4) = 2"
  proof -
    have "bs ! ((s + 2) * 4096 + 4) = d ! 4" using len s(4,5) by (simp add: d_def bs nth_append add.commute)
    also have "\<dots> = 2" unfolding dd by (simp add: nth_append CHUNK_COMPRESSION_ZLIB_def)
    finally show ?thesis .
  qed
  moreover have "drop ((s + 2) * 4096 + 5) bs = drop 5 d" by (simp add: d_def add.commute)
  moreover have "drop 5 d = blob @ rest" unfolding dd by simp
  moreover have "(s + 2) * 4096 + n * 4096 \<le> length bs" using s(4) len by (simp add: bs)
  ultimately show ?thesis
    using nz s(2,5)
    by (simp add: read_chunk_at_def loc parts ANVIL_SECTOR_BYTES_def Let_def bind_res_def split: sum.split)
qed

text \<open>Reading the table visits the chunks of the region in the order of their entries.\<close>

definition region_sets :: "(block_pos, block_entity_state) btree_map \<Rightarrow> chunk_column set \<Rightarrow>
    chunk_column list \<times> (block_pos, block_entity_state) btree_map \<Rightarrow> bool" where
  "region_sets bes cs result \<longleftrightarrow> set (fst result) = archived_column ` cs \<and> bt_ok (snd result) \<and>
     set (snd result) = (\<Union>c \<in> cs. set (archived_entities (cc_pos c) bes))"

lemma archived_entities_sub: "set (archived_entities pos bes) \<subseteq> set (bt_filter_map (\<lambda>(p, be). archived_entity be) bes)"
  by (auto simp: archived_entities_def set_bt_filter_map split: if_splits)

lemma region_sets_insert:
  assumes bes: "bt_ok bes" and acc: "region_sets bes cs acc"
  shows "region_sets bes (Set.insert c cs)
    (fst acc @ [archived_column c], fold (\<lambda>(k, v). bt_insert k v) (archived_entities (cc_pos c) bes) (snd acc))"
proof -
  let ?m = "bt_filter_map (\<lambda>(p, be). archived_entity be) bes"
  have sub: "set (snd acc) \<subseteq> set ?m" using acc archived_entities_sub by (fastforce simp: region_sets_def)
  have "bt_ok (snd acc)" using acc by (simp add: region_sets_def)
  note fold_bt_insert_set [OF this bt_ok_filter_map [OF bes] sub archived_entities_sub [of "cc_pos c"]]
  then show ?thesis using acc by (auto simp: region_sets_def)
qed

lemma chunk_at_Some: "chunk_at cs i = Some c \<Longrightarrow> c \<in> set cs \<and> region_chunk_index (cc_pos c) = i"
  by (auto simp: chunk_at_def find_Some_iff)

lemma chunk_at_None: "chunk_at cs i = None \<longleftrightarrow> (\<forall>c \<in> set cs. region_chunk_index (cc_pos c) \<noteq> i)"
  by (auto simp: chunk_at_def find_None_iff)

lemma read_entries:
  assumes bes: "bt_ok bes" and distinct: "distinct (chunk_indices cs)"
    and entry: "\<And>i acc. i < n \<Longrightarrow> read_chunk_at z bs i acc = Inr (case chunk_at cs i of None \<Rightarrow> acc
      | Some c \<Rightarrow> (fst acc @ [archived_column c], fold (\<lambda>(k, v). bt_insert k v) (archived_entities (cc_pos c) bes) (snd acc)))"
  shows "\<exists>result. try_fold (read_chunk_at z bs) [0..<n] ([], []) = Inr result \<and>
    region_sets bes {c \<in> set cs. region_chunk_index (cc_pos c) < n} result"
  using entry
proof (induction n)
  case 0
  then show ?case by (simp add: region_sets_def)
next
  case (Suc n)
  then obtain result where r: "try_fold (read_chunk_at z bs) [0..<n] ([], []) = Inr result"
    "region_sets bes {c \<in> set cs. region_chunk_index (cc_pos c) < n} result" by fastforce
  show ?case
  proof (cases "chunk_at cs n")
    case None
    then have "{c \<in> set cs. region_chunk_index (cc_pos c) < Suc n} = {c \<in> set cs. region_chunk_index (cc_pos c) < n}"
      by (auto simp: chunk_at_None less_Suc_eq)
    then show ?thesis using r Suc.prems [of n result] None by (simp add: try_fold_append)
  next
    case (Some c)
    have "c' = c" if "c' \<in> set cs" "region_chunk_index (cc_pos c') = n" for c'
      using distinct that chunk_at_Some [OF Some] by (simp add: distinct_map inj_on_def)
    then have "{c \<in> set cs. region_chunk_index (cc_pos c) < Suc n} = Set.insert c {c \<in> set cs. region_chunk_index (cc_pos c) < n}"
      using chunk_at_Some [OF Some] by (auto simp: less_Suc_eq)
    then show ?thesis using r Suc.prems [of n result] Some region_sets_insert [OF bes r(2), of c] by (simp add: try_fold_append)
  qed
qed

definition columns_ok :: "compressors \<Rightarrow> (block_pos, block_entity_state) btree_map \<Rightarrow> chunk_column list \<Rightarrow> bool" where
  "columns_ok z bes cs \<longleftrightarrow> bt_ok bes \<and> list_all entity_storable bes \<and> length bes < 2 ^ 31 \<and>
     list_all (\<lambda>c. column_storable c \<and> chunk_fits z bes c) cs"

lemma region_roundtrip:
  assumes z: "compressors_ok z" and ok: "columns_ok z bes cs" and distinct: "distinct (chunk_indices cs)"
  obtains bs result where "region_bytes z bes cs = Inr bs" and "parse_region z bs = Inr result" and "region_sets bes (set cs) result"
proof -
  have bes: "bt_ok bes" "list_all entity_storable bes" "length bes < 2 ^ 31" and cs: "list_all (chunk_fits z bes) cs"
    and storable: "\<And>c. c \<in> set cs \<Longrightarrow> column_storable c \<and> chunk_fits z bes c"
    using ok by (auto simp: columns_ok_def list_all_iff)
  let ?b0 = "\<lparr>rb_locations = replicate ANVIL_SECTOR_BYTES 0, rb_timestamps = replicate ANVIL_SECTOR_BYTES 0, rb_body = [], rb_sector_offset = 2\<rparr>"
  have "(of_be_bytes [0, 0, 0, 0] :: u32) = 0" and four: "replicate 4 0 = [0, 0, 0, 0 :: u8]" by (simp_all add: of_be_bytes_def numeral_eq_Suc)
  then have "location_at (replicate 4096 0) i = 0" if "i < 1024" for i
  proof -
    have "4 \<le> 4096 - i * 4" using that by linarith
    then show ?thesis using \<open>(of_be_bytes [0, 0, 0, 0] :: u32) = 0\<close> by (simp add: location_at_def min_absorb1 four)
  qed
  then have "buffer_ok (\<lambda>_. None) 0 ?b0" by (simp add: buffer_ok_def ANVIL_SECTOR_BYTES_def)
  then obtain b where b: "try_fold (write_chunk z bes) cs ?b0 = Inr b"
    and buf: "buffer_ok (\<lambda>i. map_option (chunk_blob z bes) (chunk_at cs i)) (length cs) b"
    using write_chunks_ok [OF cs distinct] by blast
  let ?bs = "rb_locations b @ rb_timestamps b @ rb_body b"
  have len: "length (rb_locations b) = 4096" "length (rb_timestamps b) = 4096" using buf by (simp_all add: buffer_ok_def)
  have entry: "read_chunk_at z ?bs i acc = Inr (case chunk_at cs i of None \<Rightarrow> acc
      | Some c \<Rightarrow> (fst acc @ [archived_column c], fold (\<lambda>(k, v). bt_insert k v) (archived_entities (cc_pos c) bes) (snd acc)))"
    if i: "i < 1024" for i acc
  proof (cases "chunk_at cs i")
    case None
    then have "location_at (rb_locations b) i = 0" using buf i by (fastforce simp: buffer_ok_def)
    then have "(of_be_bytes (take 4 (drop (i * 4) ?bs)) :: u32) = 0" using i len by (simp add: location_at_def)
    then show ?thesis using None by (simp add: read_chunk_at_def)
  next
    case (Some c)
    have c: "column_storable c" "chunk_fits z bes c" using storable chunk_at_Some [OF Some] by blast+
    have "stored_at (rb_body b) (location_at (rb_locations b) i) (chunk_blob z bes c)"
      using buf i Some by (fastforce simp: buffer_ok_def)
    from read_chunk_stored [OF refl len i this] have "read_chunk_at z ?bs i acc =
        Inr (fst acc @ [archived_column c], fold (\<lambda>(k, v). bt_insert k v) (archived_entities (cc_pos c) bes) (snd acc))"
      if "length (chunk_blob z bes c) + 1 < 2 ^ 32"
      using that by (simp add: chunk_blob_read [OF z c(1) bes c(2)])
    moreover have "length (chunk_blob z bes c) + 1 < 2 ^ 32" using chunk_blob_written [OF c(2)] by fastforce
    ultimately show ?thesis using Some by simp
  qed
  have "{c \<in> set cs. region_chunk_index (cc_pos c) < 1024} = set cs" using region_chunk_index_less by auto
  then obtain result where "try_fold (read_chunk_at z ?bs) [0..<1024] ([], []) = Inr result" "region_sets bes (set cs) result"
    using read_entries [OF bes(1) distinct, of 1024 z ?bs] entry by (metis (no_types, lifting))
  moreover have "region_bytes z bes cs = Inr ?bs" using b by (simp add: region_bytes_def)
  moreover have "\<not> length ?bs < ANVIL_HEADER_BYTES" using len by (simp add: ANVIL_HEADER_BYTES_def ANVIL_SECTOR_BYTES_def)
  ultimately show ?thesis using that by (simp add: parse_region_def)
qed

section \<open>File names\<close>

definition digits_value :: "string \<Rightarrow> nat" where
  "digits_value s = fold (\<lambda>c v. v * 10 + (of_char c - 48)) s 0"

declare decimal.simps [simp del]

lemma decimal_value: "digits_value (decimal n) = n"
proof (induction n rule: decimal.induct)
  case (1 n)
  have "of_char (char_of (48 + k) :: char) = (48 + k :: nat)" if "k < 10" for k using that by simp
  then show ?case using 1 by (subst decimal.simps) (simp add: digits_value_def)
qed

lemma decimal_digits: "c \<in> set (decimal n) \<Longrightarrow> (48 :: nat) \<le> of_char c \<and> of_char c < (58 :: nat)"
proof (induction n rule: decimal.induct)
  case (1 n)
  then show ?case by (subst (asm) (2) decimal.simps) (auto split: if_splits)
qed

lemma decimal_inj: "decimal m = decimal n \<Longrightarrow> m = n"
  by (metis decimal_value)

lemma decimal_no_sign: "CHR ''-'' \<notin> set (decimal n)" and decimal_no_dot: "CHR ''.'' \<notin> set (decimal n)"
  using decimal_digits [of "CHR ''-''" n] decimal_digits [of "CHR ''.''" n] by auto

lemma decimal_int_inj: "decimal_int a = decimal_int b \<Longrightarrow> a = b"
  using decimal_no_sign [of "nat a"] decimal_no_sign [of "nat b"]
  by (auto simp: decimal_int_def dest!: decimal_inj split: if_splits) (metis list.set_intros(1))+

lemma decimal_int_no_dot: "CHR ''.'' \<notin> set (decimal_int a)"
  using decimal_no_dot by (auto simp: decimal_int_def)

lemma split_at_dot: "CHR ''.'' \<notin> set xs \<Longrightarrow> takeWhile (\<lambda>c. c \<noteq> CHR ''.'') (xs @ CHR ''.'' # ys) = xs \<and>
    dropWhile (\<lambda>c. c \<noteq> CHR ''.'') (xs @ CHR ''.'' # ys) = CHR ''.'' # ys"
  by (induction xs) auto

lemma dot_parts: "CHR ''.'' \<notin> set xs \<Longrightarrow> CHR ''.'' \<notin> set xs' \<Longrightarrow> xs @ CHR ''.'' # ys = xs' @ CHR ''.'' # ys' \<Longrightarrow> xs = xs' \<and> ys = ys'"
  by (metis split_at_dot list.inject)

lemma region_name_inj:
  assumes "region_name r = region_name r'"
  shows "r = r'"
proof -
  have "decimal_int (fst r) @ CHR ''.'' # (decimal_int (snd r) @ ''.mca'') = decimal_int (fst r') @ CHR ''.'' # (decimal_int (snd r') @ ''.mca'')"
    using assms by (simp add: region_name_def)
  from dot_parts [OF decimal_int_no_dot decimal_int_no_dot this]
  have "decimal_int (fst r) = decimal_int (fst r')" "decimal_int (snd r) = decimal_int (snd r')" by simp_all
  then show ?thesis by (simp add: prod_eq_iff decimal_int_inj)
qed

lemma region_name_extension: "extension (region_name r) = Some ''mca''"
  by (simp add: extension_def region_name_def)

lemma extension_dat: "stem \<noteq> '''' \<Longrightarrow> extension (stem @ ''.dat'') = Some ''dat''"
  by (simp add: extension_def Suc_le_eq)

section \<open>Chunks grouped by region\<close>

lemma group_chunks_snoc:
  "group_chunks (cs @ [c]) = (let r = region_of (cc_pos c) in
    bt_insert r (case_option [] (\<lambda>cs. cs) (map_of (group_chunks cs) r) @ [c]) (group_chunks cs))"
  by (simp add: group_chunks_def Let_def)

lemma group_chunks_filter:
  "bt_ok (group_chunks cs) \<and> map_of (group_chunks cs) r =
    (let g = filter (\<lambda>c. region_of (cc_pos c) = r) cs in if g = [] then None else Some g)"
proof (induction cs arbitrary: r rule: rev_induct)
  case Nil
  then show ?case by (simp add: group_chunks_def)
next
  case (snoc c cs)
  then show ?case by (auto simp: group_chunks_snoc Let_def)
qed

lemma base_32_unique:
  fixes m n m' n' :: nat
  assumes "m + n * 32 = m' + n' * 32" and "m < 32" and "m' < 32"
  shows "m = m'" and "n = n'"
proof -
  have "(m + n * 32) mod 32 = m" "(m' + n' * 32) mod 32 = m'" using assms(2,3) by simp_all
  then show "m = m'" using assms(1) by simp
  then show "n = n'" using assms(1) by simp
qed

lemma same_region_index:
  assumes "region_of p = region_of q" and "region_chunk_index p = region_chunk_index q"
  shows "p = q"
proof -
  have less: "nat (a mod 32) < 32" for a :: int by (simp add: nat_less_iff)
  have "nat (cp_x p mod 32) + nat (cp_z p mod 32) * 32 = nat (cp_x q mod 32) + nat (cp_z q mod 32) * 32"
    using assms(2) by (simp add: region_chunk_index_def)
  note base_32_unique [OF this less less]
  then have "cp_x p mod 32 = cp_x q mod 32" "cp_z p mod 32 = cp_z q mod 32" by (simp_all add: eq_nat_nat_iff)
  moreover have "cp_x p div 32 = cp_x q div 32" "cp_z p div 32 = cp_z q div 32" using assms(1) by (simp_all add: region_of_def)
  ultimately have "cp_x p = cp_x q" "cp_z p = cp_z q" by (metis mult_div_mod_eq)+
  then show ?thesis by simp
qed

end
