(* ===== verification/Anvil_Size.thy ===== *)
theory Anvil_Size
  imports Anvil_Sectors
begin

text \<open>
  How large the encoded chunks are. \<open>nbt_bytes\<close> counts the bytes of a tag; a chunk takes less than 200 KiB and less than
  5 KiB for every container in it, so that it fits the 255 sectors a region entry can describe (\<open>chunk_fits_small\<close>).
\<close>

section \<open>The size of a tag\<close>

function nbt_bytes :: "nbt_tag \<Rightarrow> nat" where
  "nbt_bytes (NbtByte _) = 1"
| "nbt_bytes (NbtShort _) = 2"
| "nbt_bytes (NbtInt _) = 4"
| "nbt_bytes (NbtLong _) = 8"
| "nbt_bytes (NbtFloat _) = 4"
| "nbt_bytes (NbtDouble _) = 8"
| "nbt_bytes (NbtByteArray bs) = 4 + length bs"
| "nbt_bytes (NbtString s) = 2 + length s"
| "nbt_bytes (NbtList _ vs) = 5 + sum_list (map nbt_bytes vs)"
| "nbt_bytes (NbtCompound m) = 1 + sum_list (map (\<lambda>e. 3 + length (fst e) + nbt_bytes (snd e)) m)"
| "nbt_bytes (NbtIntArray vs) = 4 + 4 * length vs"
  by pat_completeness auto
termination
  by (relation "measure size") (auto simp del: nbt_tag.size dest!: nbt_size_list nbt_size_compound)

definition enc_len :: "nbt_enc \<Rightarrow> nat" where
  "enc_len w = (case w of Inl _ \<Rightarrow> 0 | Inr bs \<Rightarrow> length bs)"

lemma enc_len_wseq: "enc_len (wseq ws) \<le> sum_list (map enc_len ws)"
proof (induction ws)
  case (Cons w ws)
  then show ?case by (cases w; cases "wseq ws") (simp_all add: enc_len_def wseq.simps)
qed (simp add: enc_len_def wseq.simps)

lemma enc_len_wseq_le: "sum_list (map enc_len ws) \<le> n \<Longrightarrow> enc_len (wseq ws) \<le> n"
  using enc_len_wseq [of ws] by simp

lemma enc_len_writers:
  "enc_len (nbt_write_u8 b) = 1" "enc_len (nbt_write_i8 b) = 1" "enc_len (nbt_write_i16 s) = 2" "enc_len (nbt_write_i32 i) = 4"
  "enc_len (nbt_write_i64 l) = 8" "enc_len (nbt_write_f32 f) = 4" "enc_len (nbt_write_f64 g) = 8" "enc_len (nbt_write_all bs) = length bs"
  by (simp_all add: enc_len_def nbt_write_u8_def nbt_write_i8_def nbt_write_i16_def nbt_write_i32_def nbt_write_i64_def
      nbt_write_f32_def nbt_write_f64_def nbt_write_all_def)

lemma enc_len_len: "enc_len (nbt_write_len n) \<le> 4"
  using enc_len_writers(4) by (simp add: nbt_write_len_def enc_len_def)

lemma enc_len_string: "enc_len (write_string_u16 s) \<le> 2 + length s"
proof (cases "length s < 2 ^ 16")
  case True
  then show ?thesis unfolding write_string_u16_def by (simp, intro enc_len_wseq_le) (simp add: enc_len_writers)
qed (simp add: write_string_u16_def enc_len_def)

lemma nbt_bytes_bound:
  "enc_len (write_named_tag t name tag) \<le> 3 + length name + nbt_bytes tag"
  "enc_len (write_tag_payload tag) \<le> nbt_bytes tag"
proof (induction t name tag and tag rule: write_named_tag_write_tag_payload.induct)
  case (1 t name tag)
  then show ?case
    using enc_len_string [of name] by (simp, intro enc_len_wseq_le) (simp add: enc_len_writers)
next
  case (8 bs)
  then show ?case using enc_len_len [of "length bs"] by (simp, intro enc_len_wseq_le) (simp add: enc_len_writers)
next
  case (10 t vs)
  have "sum_list (map (\<lambda>v. enc_len (write_tag_payload v)) vs) \<le> sum_list (map nbt_bytes vs)"
    using 10 by (intro sum_list_mono) auto
  then have "enc_len (wseq (map write_tag_payload vs)) \<le> sum_list (map nbt_bytes vs)"
    by (intro enc_len_wseq_le) (simp add: comp_def)
  then show ?case using enc_len_len [of "length vs"] by (simp, intro enc_len_wseq_le) (simp add: enc_len_writers)
next
  case (11 m)
  let ?w = "\<lambda>e. write_named_tag (tag_type (snd e)) (fst e) (snd e)"
  have "sum_list (map (\<lambda>e. enc_len (?w e)) m) \<le> sum_list (map (\<lambda>e. 3 + length (fst e) + nbt_bytes (snd e)) m)"
    using 11 by (intro sum_list_mono) auto
  then have "enc_len (wseq (map ?w m)) \<le> sum_list (map (\<lambda>e. 3 + length (fst e) + nbt_bytes (snd e)) m)"
    by (intro enc_len_wseq_le) (simp add: comp_def del: write_named_tag.simps)
  then show ?case by (simp del: write_named_tag.simps, intro enc_len_wseq_le) (simp add: enc_len_writers)
next
  case (12 vs)
  have "enc_len (wseq (map nbt_write_i32 vs)) \<le> 4 * length vs"
    by (intro enc_len_wseq_le) (simp add: comp_def enc_len_writers sum_list_triv)
  then show ?case using enc_len_len [of "length vs"] by (simp, intro enc_len_wseq_le) (simp add: enc_len_writers)
next
  case (9 s)
  then show ?case using enc_len_string [of s] by simp
qed (simp_all add: enc_len_writers)

lemma sum_bt_insert: "sum_list (map f (bt_insert k v m)) \<le> f (k, v) + sum_list (map (f :: _ \<Rightarrow> nat) m)"
  by (induction k v m rule: bt_insert.induct) auto

lemma sum_fold_bt_insert:
  "sum_list (map f (fold (\<lambda>(k, v). bt_insert k v) kvs m)) \<le> sum_list (map f kvs) + sum_list (map (f :: _ \<Rightarrow> nat) m)"
proof (induction kvs arbitrary: m)
  case (Cons e kvs)
  obtain k v where e: "e = (k, v)" by (cases e)
  show ?case using Cons.IH [of "bt_insert k v m"] sum_bt_insert [of f k v m] by (simp add: e)
qed simp

lemma nbt_bytes_compound: "nbt_bytes (tag_compound kvs) \<le> 1 + sum_list (map (\<lambda>e. 3 + length (fst e) + nbt_bytes (snd e)) kvs)"
  using sum_fold_bt_insert [of "\<lambda>e. 3 + length (fst e) + nbt_bytes (snd e)" kvs "[]"] by (simp add: tag_compound_def bt_collect_def)

lemma nbt_bytes_compound_le: "1 + sum_list (map (\<lambda>e. 3 + length (fst e) + nbt_bytes (snd e)) kvs) \<le> n \<Longrightarrow> nbt_bytes (tag_compound kvs) \<le> n"
  using nbt_bytes_compound [of kvs] by simp

section \<open>The size of a chunk\<close>

lemma try_filter_map_sum:
  assumes "\<And>x t. x \<in> set xs \<Longrightarrow> f x = Inr (Some t) \<Longrightarrow> g t \<le> k" and "try_filter_map f xs = Inr ts"
  shows "sum_list (map g ts) \<le> (k :: nat) * length xs"
  using assms
proof (induction xs arbitrary: ts)
  case (Cons x xs)
  then obtain y ys where y: "f x = Inr y" "try_filter_map f xs = Inr ys" "ts = (case y of None \<Rightarrow> ys | Some t \<Rightarrow> t # ys)"
    by (auto simp: try_filter_map_Cons bind_res_eq_Inr split: option.splits)
  have "sum_list (map g ys) \<le> k * length xs" using Cons.IH Cons.prems(1) y(2) by auto
  moreover have "g t \<le> k" if "y = Some t" for t using Cons.prems(1) [of x t] y(1) that by simp
  ultimately show ?case using y(3) by (cases y) fastforce+
qed simp

lemma try_map_sum:
  assumes "\<And>x t. x \<in> set xs \<Longrightarrow> f x = Inr t \<Longrightarrow> g t \<le> k" and "try_map f xs = Inr ts"
  shows "sum_list (map g ts) \<le> (k :: nat) * length xs"
  using assms
proof (induction xs arbitrary: ts)
  case (Cons x xs)
  then obtain y ys where y: "f x = Inr y" "try_map f xs = Inr ys" "ts = y # ys" by (auto simp: bind_res_eq_Inr)
  have "sum_list (map g ys) \<le> k * length xs" using Cons.IH Cons.prems(1) y(2) by auto
  moreover have "g y \<le> k" using Cons.prems(1) [of x y] y(1) by simp
  ultimately show ?case using y(3) by simp
qed simp

lemma item_slot_bytes: "encode_item_slot i st = Inr (Some t) \<Longrightarrow> nbt_bytes t \<le> 36"
  by (auto simp: encode_item_slot_def split: option.splits if_splits intro!: nbt_bytes_compound_le)

lemma item_slots_bytes: "encode_item_slots slots = Inr ts \<Longrightarrow> sum_list (map nbt_bytes ts) \<le> 36 * length slots"
  unfolding encode_item_slots_def
  by (drule try_filter_map_sum [where g = nbt_bytes and k = 36, rotated]) (auto dest: item_slot_bytes)

lemma tile_entity_bytes:
  assumes "encode_tile_entity p be = Inr (Some t)" and "length (be_slots (container_state be)) \<le> 128"
  shows "nbt_bytes t \<le> 5000"
proof -
  obtain c where c: "be = ContainerEntity c" by (cases be)
  have items: "sum_list (map nbt_bytes ts) \<le> 4608" if "encode_item_slots slots = Inr ts" "length slots \<le> 128" for slots ts
    using item_slots_bytes [OF that(1)] that(2) by simp
  have len: "length (be_slots c) \<le> 128" "length (take 3 (be_slots c)) \<le> 128" using assms(2) by (simp_all add: c)
  show ?thesis
    using assms(1) items [OF _ len(1)] items [OF _ len(2)]
    by (auto simp: c encode_tile_entity_def tile_position_def bind_res_eq_Inr split: if_splits intro!: nbt_bytes_compound_le)
qed

lemma put_blocks_length:
  "try_fold put_block bs arrays = Inr arrays' \<Longrightarrow> length (fst arrays') = length (fst arrays) \<and> length (snd arrays') = length (snd arrays)"
  by (induction bs arbitrary: arrays)
    (fastforce simp: bind_res_eq_Inr put_block_def set_nibble_def Let_def split: if_splits prod.splits)+

lemma section_bytes: "section_to_nbt e = Inr t \<Longrightarrow> nbt_bytes t \<le> 10400"
  by (auto simp: section_to_nbt_def bind_res_eq_Inr split: if_splits prod.splits dest!: put_blocks_length intro!: nbt_bytes_compound_le)

lemma chunk_bytes:
  assumes tag: "chunk_to_nbt c bes = Inr tag" and c: "column_storable c"
    and bes: "list_all entity_storable bes"
  shows "nbt_bytes tag \<le> 168000 + length (cc_biomes c) + 5000 * length (filter (\<lambda>e. block_chunk_pos (fst e) = cc_pos c) bes)"
proof -
  let ?es = "filter (\<lambda>e. 0 \<le> fst e \<and> fst e < 16 \<and> \<not> section_is_empty (snd e)) (cc_sections c)"
  let ?bes = "filter (\<lambda>e. block_chunk_pos (fst e) = cc_pos c) bes"
  obtain tiles sections where t: "try_filter_map (\<lambda>(p, be). encode_tile_entity p be) ?bes = Inr tiles" "try_map section_to_nbt ?es = Inr sections"
    "tag = tag_compound [(''Level'', tag_compound (level_tags c tiles sections))]"
    using tag by (auto simp: chunk_to_nbt_level bind_res_eq_Inr)
  have "nbt_bytes t \<le> 5000" if "e \<in> set ?bes" "(case e of (p, be) \<Rightarrow> encode_tile_entity p be) = Inr (Some t)" for e t
    using that bes by (intro tile_entity_bytes [of "fst e" "snd e"])
      (auto simp: list_all_iff entity_storable_def slots_storable_def split_beta)
  then have "sum_list (map nbt_bytes tiles) \<le> 5000 * length ?bes" by (rule try_filter_map_sum [OF _ t(1)])
  moreover have "length ?es \<le> 16" using c by (intro sections_at_most_16) (auto simp: column_storable_def bt_ok_filter)
  moreover have "sum_list (map nbt_bytes sections) \<le> 10400 * length ?es" by (rule try_map_sum [OF _ t(2)]) (rule section_bytes)
  ultimately have "nbt_bytes (tag_compound (level_tags c tiles sections)) \<le> 167900 + length (cc_biomes c) + 5000 * length ?bes"
    by (intro nbt_bytes_compound_le) (simp add: level_tags_def)
  then show ?thesis unfolding t(3) by (intro nbt_bytes_compound_le) simp
qed

text \<open>A chunk of a world fits its region entry, when compression does not make it more than 64 KiB larger.\<close>

lemma chunk_fits_small:
  assumes c: "column_storable c" and bes: "bt_ok bes" "list_all entity_storable bes" "length bes < 2 ^ 31"
    and small: "length (cc_biomes c) \<le> 256" "length (filter (\<lambda>e. block_chunk_pos (fst e) = cc_pos c) bes) \<le> 150"
    and z: "\<And>bs. length (zlib_encode z bs) \<le> length bs + 65536"
  shows "chunk_fits z bes c"
proof -
  obtain m where m: "chunk_to_nbt c bes = Inr (NbtCompound m)" "nbt_ok (NbtCompound m)" using chunk_roundtrip [OF c bes] by blast
  obtain raw where raw: "write_named_tag 10 '''' (NbtCompound m) = Inr raw"
    using nbt_named_written [OF m(2), of "''''"] by (auto simp: nbt_string_ok_literal)
  have "length raw \<le> 3 + nbt_bytes (NbtCompound m)"
    using nbt_bytes_bound(1) [of 10 "''''" "NbtCompound m"] unfolding raw by (simp add: enc_len_def)
  then have len: "length raw \<le> 918259" using chunk_bytes [OF m(1) c bes(2)] small by simp
  moreover have "918259 \<le> isize_max" by (simp add: isize_max_def)
  ultimately show ?thesis
    using z [of raw] raw m(1) by (simp add: chunk_fits_def chunk_raw_def ANVIL_SECTOR_BYTES_def del: write_named_tag.simps)
qed

section \<open>The size of settings and players\<close>

definition tag_fits :: "nbt_tag \<Rightarrow> bool" where
  "tag_fits tag \<longleftrightarrow> (case write_named_tag 10 '''' tag of Inl _ \<Rightarrow> False | Inr raw \<Rightarrow> length raw \<le> isize_max)"

lemma tag_fits_small:
  assumes "nbt_ok tag" and "nbt_bytes tag \<le> 1000000"
  shows "tag_fits tag"
proof -
  obtain raw where raw: "write_named_tag 10 '''' tag = Inr raw"
    using nbt_named_written [OF assms(1), of "''''"] by (auto simp: nbt_string_ok_literal)
  have "length raw \<le> 1000003"
    using nbt_bytes_bound(1) [of 10 "''''" tag] assms(2) unfolding raw by (simp add: enc_len_def)
  moreover have "1000003 \<le> isize_max" by (simp add: isize_max_def)
  ultimately show ?thesis using raw by (simp add: tag_fits_def del: write_named_tag.simps)
qed

lemma level_fits: "meta_storable meta \<Longrightarrow> tag_fits (level_to_nbt meta)"
proof (rule tag_fits_small [OF level_ok_nbt])
  assume meta: "meta_storable meta"
  then have "nbt_bytes (tag_compound (level_data meta)) \<le> 200000"
    by (intro nbt_bytes_compound_le) (simp add: level_data_def meta_storable_def nbt_string_ok_def)
  then show "nbt_bytes (level_to_nbt meta) \<le> 1000000" unfolding level_to_nbt_data by (intro nbt_bytes_compound_le) simp
qed

lemma player_slot_bytes: "encode_player_slot i st = Inr (Some t) \<Longrightarrow> nbt_bytes t \<le> 36"
  by (auto simp: encode_player_slot_def player_item_tag_def bind_res_eq_Inr split: option.splits if_splits intro!: nbt_bytes_compound_le)

lemma inventory_bytes:
  assumes "inventory_to_nbt inventory = Inr tags"
  shows "sum_list (map nbt_bytes tags) \<le> 36 * (length (pi_slots inventory) + 1)"
proof -
  obtain entries where e: "try_filter_map (\<lambda>(i, st). encode_player_slot i st) (enumerate 0 (pi_slots inventory)) = Inr entries"
    and tags: "tags = entries \<or> (\<exists>slot item n tag. player_item_tag slot item n = Inr tag \<and> tags = entries @ [tag])"
    using assms by (auto simp: inventory_to_nbt_def bind_res_eq_Inr split: option.splits) blast
  have "sum_list (map nbt_bytes entries) \<le> 36 * length (enumerate 0 (pi_slots inventory))"
    by (rule try_filter_map_sum [OF _ e]) (auto dest: player_slot_bytes)
  moreover have "nbt_bytes tag \<le> 36" if "player_item_tag slot item n = Inr tag" for slot item n tag
    using that by (auto simp: player_item_tag_def split: if_splits intro!: nbt_bytes_compound_le)
  ultimately show ?thesis using tags by fastforce
qed

lemma player_fits:
  assumes "player_storable player" and tag: "player_to_nbt player = Inr tag"
  shows "tag_fits tag"
proof (rule tag_fits_small)
  show "nbt_ok tag" using player_roundtrip [OF assms(1)] tag by (metis sum.inject(2))
  obtain tags where tags: "inventory_to_nbt (ps_inventory player) = Inr tags" "tag = tag_compound (player_tags player tags)"
    using tag unfolding player_to_nbt_def player_tags_def by (auto simp: bind_res_eq_Inr)
  have "length (pi_slots (ps_inventory player)) = 45" using assms(1) by (simp add: player_storable_def inventory_ok_def slot_counts)
  then have "sum_list (map nbt_bytes tags) \<le> 2000" using inventory_bytes [OF tags(1)] by simp
  then show "nbt_bytes tag \<le> 1000000"
    using assms(1) unfolding tags(2) by (intro nbt_bytes_compound_le) (simp add: player_tags_def player_storable_def nbt_string_ok_def)
qed

end
