(* ===== verification/Anvil_Laws.thy ===== *)
theory Anvil_Laws
  imports Anvil_Size
begin

text \<open>
  A saved world is loaded back: \<open>save_snapshot\<close> and \<open>load_snapshot\<close> of \<open>lib.rs\<close>, crate \<open>mc-storage-je-anvil-1_7_10\<close>.

  \<open>world_storable\<close> says which worlds can be written (ordered maps, values in the range of their fields, chunks that fit
  255 sectors), \<open>storage_env_ok\<close> what is relied on of the compression and UUID libraries and of directory listings, and
  \<open>saved_over\<close> that the directory holds no files of another world. \<open>archived_world\<close> is what the format keeps: 13 kinds of
  blocks, sections 0 to 15, containers in saved chunks, items with a number, and the settings but for age,
  dimension and player limit. The file system may fail at any write; then the fault is returned.
\<close>

section \<open>What a saved world keeps\<close>

definition archived_world :: "world_snapshot \<Rightarrow> world_snapshot" where
  "archived_world w =
     \<lparr>wn_meta = archived_meta (wn_meta w), wn_chunks = map (\<lambda>(p, c). (p, archived_column c)) (wn_chunks w),
      wn_block_entities = bt_filter_map (\<lambda>(p, be). if block_chunk_pos p \<in> set (map fst (wn_chunks w)) then archived_entity be else None)
        (wn_block_entities w),
      wn_players = map (\<lambda>(p, player). (p, archived_player player)) (wn_players w)\<rparr>"

definition players_ok :: "(player_id, player_snapshot) btree_map \<Rightarrow> bool" where
  "players_ok players \<longleftrightarrow> bt_ok players \<and> list_all (\<lambda>(p, player). ps_id player = p \<and> player_storable player) players"

definition world_storable :: "compressors \<Rightarrow> world_snapshot \<Rightarrow> bool" where
  "world_storable z w \<longleftrightarrow> meta_storable (wn_meta w) \<and>
     bt_ok (wn_chunks w) \<and> list_all (\<lambda>(p, c). cc_pos c = p) (wn_chunks w) \<and>
     columns_ok z (wn_block_entities w) (map snd (wn_chunks w)) \<and>
     players_ok (wn_players w)"

definition storage_env_ok :: "storage_env \<Rightarrow> bool" where
  "storage_env_ok env \<longleftrightarrow> compressors_ok (sv_compressors env) \<and> inj (sv_hyphenated env) \<and> (\<forall>p. sv_hyphenated env p \<noteq> '''') \<and>
     (\<forall>d. finite (dom d) \<longrightarrow> set (sv_read_dir env d) = dom d)"

text \<open>Every region or player file of the directory, if any, belongs to the world that is saved.\<close>

definition saved_over :: "storage_env \<Rightarrow> world_snapshot \<Rightarrow> world_dir \<Rightarrow> bool" where
  "saved_over env w dir \<longleftrightarrow>
     (\<forall>d. wd_region dir = Some d \<longrightarrow> finite (dom d) \<and>
        (\<forall>name \<in> dom d. extension name = Some ''mca'' \<longrightarrow> name \<in> (\<lambda>p. region_name (region_of p)) ` set (map fst (wn_chunks w)))) \<and>
     (\<forall>d. wd_playerdata dir = Some d \<longrightarrow> finite (dom d) \<and>
        (\<forall>name \<in> dom d. extension name = Some ''dat'' \<longrightarrow> name \<in> player_file env ` set (map fst (wn_players w))))"

section \<open>Compressed tags in files\<close>

abbreviation fault :: "storage_env \<Rightarrow> anvil_error \<Rightarrow> 's \<Rightarrow> bool" where
  "fault env e s \<equiv> \<exists>path text. sv_fault env path = Some text \<and> e = AnvilError (StorageIo text)"

lemma wp_io_check:
  "Q () s \<Longrightarrow> wp (io_check env path) Q (fault env) s"
  by (auto simp: io_check_def wp_simps split: option.split)

lemma wp_fs_write: "Q () (update s) \<Longrightarrow> wp (fs_write env path update) Q (fault env) s"
  unfolding fs_write_def wp_sbind by (rule wp_io_check) (simp add: wp_simps)

lemma gzip_roundtrip:
  assumes env: "compressors_ok (sv_compressors env)" and tag: "nbt_ok (NbtCompound m)" "tag_fits (NbtCompound m)"
  obtains bs where "gzip_compress_nbt (sv_compressors env) '''' (NbtCompound m) = Inr bs"
    and "bind_res (decompress_gzip (sv_compressors env) bs) read_nbt = Inr (NbtCompound m)"
proof -
  obtain raw where raw: "write_named_tag 10 '''' (NbtCompound m) = Inr raw" "length raw \<le> isize_max"
    using tag(2) by (auto simp: tag_fits_def simp del: write_named_tag.simps split: sum.splits)
  have "nbt_string_ok ''''" by (simp add: nbt_string_ok_literal)
  then have "read_nbt raw = Inr (NbtCompound m)" using read_nbt_written [OF tag(1) _ raw] by blast
  then show ?thesis
    using that [of "gzip_encode (sv_compressors env) raw"] raw(1) env
    by (simp del: write_named_tag.simps add: gzip_compress_nbt_def decompress_gzip_def decompress_def compressors_ok_def)
qed

lemma wp_write_gzip:
  assumes "gzip_compress_nbt (sv_compressors env) '''' tag = Inr bs" and "Q () (update bs s)"
  shows "wp (write_gzip_nbt env path update '''' tag) Q (fault env) s"
  using assms wp_fs_write [of Q "update bs" s env path] by (simp add: write_gzip_nbt_def wp_simps)

lemma read_gzip_stored:
  assumes "sv_fault env = (\<lambda>_. None)" and "get_file dir = Some bs"
    and "bind_res (decompress_gzip (sv_compressors env) bs) read_nbt = Inr tag"
  shows "read_gzip_nbt env path get_file dir = (Inr tag, dir)"
  using assms by (simp add: read_gzip_nbt_def fs_read_def io_check_def sr_defs)

text \<open>A loop with an invariant over the elements it has visited.\<close>

lemma wp_sfor_visited:
  assumes start: "I {} s" and step: "\<And>x V s. x \<in> set xs \<Longrightarrow> V \<subseteq> set xs \<Longrightarrow> I V s \<Longrightarrow> wp (f x) (\<lambda>_. I (Set.insert x V)) E s"
  shows "wp (sfor xs f) (\<lambda>_. I (set xs)) E s"
proof -
  have "wp (sfor ys f) (\<lambda>_. I (V \<union> set ys)) E s" if "set ys \<subseteq> set xs" "V \<subseteq> set xs" "I V s" for ys V s
    using that
  proof (induction ys arbitrary: V s)
    case Nil
    then show ?case by (simp add: wp_simps)
  next
    case (Cons y ys)
    have "wp (f y) (\<lambda>_. I (Set.insert y V)) E s" using Cons.prems by (intro step) auto
    then have "wp (f y) (\<lambda>_. wp (sfor ys f) (\<lambda>_. I (V \<union> set (y # ys))) E) E s"
    proof (rule wp_mono)
      fix s' assume "I (Set.insert y V) s'"
      then show "wp (sfor ys f) (\<lambda>_. I (V \<union> set (y # ys))) E s'"
        using Cons.IH [of "Set.insert y V" s'] Cons.prems by simp
    qed
    then show ?case by (simp add: wp_simps)
  qed
  from this [of xs "{}" s] start show ?thesis by simp
qed

section \<open>Region files in the world directory\<close>

definition regions_written :: "compressors \<Rightarrow> (block_pos, block_entity_state) btree_map \<Rightarrow> (int \<times> int, chunk_column list) btree_map \<Rightarrow>
    ((int \<times> int) \<times> chunk_column list) set \<Rightarrow> directory \<Rightarrow> bool" where
  "regions_written z bes groups V d \<longleftrightarrow> finite (dom d) \<and>
     (\<forall>name \<in> dom d. extension name = Some ''mca'' \<longrightarrow> name \<in> region_name ` fst ` set groups) \<and>
     (\<forall>r cs. (r, cs) \<in> V \<longrightarrow> (\<exists>bs. region_bytes z bes cs = Inr bs \<and> d (region_name r) = Some bs))"

lemma regions_written_insert:
  assumes "regions_written z bes groups V d" and "(r, cs) \<in> set groups" and "V \<subseteq> set groups" and "bt_ok groups"
    and "region_bytes z bes cs = Inr bs"
  shows "regions_written z bes groups (Set.insert (r, cs) V) (d(region_name r \<mapsto> bs))"
proof -
  have "\<exists>b. region_bytes z bes cs' = Inr b \<and> (d(region_name r \<mapsto> bs)) (region_name r') = Some b" if "(r', cs') \<in> V" for r' cs'
  proof (cases "r' = r")
    case True
    then have "cs' = cs" using that assms(2,3) bt_ok_distinct [OF assms(4)] by (metis eq_key_imp_eq_value subsetD)
    then show ?thesis using assms(5) True by simp
  next
    case False
    then have "region_name r' \<noteq> region_name r" using region_name_inj by blast
    moreover have "\<exists>b. region_bytes z bes cs' = Inr b \<and> d (region_name r') = Some b"
      using assms(1) that unfolding regions_written_def by blast
    ultimately show ?thesis by simp
  qed
  moreover have "region_name r \<in> region_name ` fst ` set groups" using assms(2) by force
  ultimately show ?thesis using assms(1,5) by (auto simp: regions_written_def)
qed

text \<open>The chunks of a world by region: each group is written and read back.\<close>

lemma group_members:
  assumes "(r, cs) \<in> set (group_chunks chunks)"
  shows "cs = filter (\<lambda>c. region_of (cc_pos c) = r) chunks" and "cs \<noteq> []"
proof -
  have ok: "bt_ok (group_chunks chunks)" and look: "map_of (group_chunks chunks) r =
      (let g = filter (\<lambda>c. region_of (cc_pos c) = r) chunks in if g = [] then None else Some g)"
    using group_chunks_filter by blast+
  have "map_of (group_chunks chunks) r = Some cs" using assms bt_ok_distinct [OF ok] by simp
  then show "cs = filter (\<lambda>c. region_of (cc_pos c) = r) chunks" and "cs \<noteq> []" using look by (auto simp: Let_def split: if_splits)
qed

lemma group_of:
  assumes "c \<in> set chunks"
  obtains cs where "(region_of (cc_pos c), cs) \<in> set (group_chunks chunks)" and "c \<in> set cs"
proof -
  let ?g = "filter (\<lambda>c'. region_of (cc_pos c') = region_of (cc_pos c)) chunks"
  have "c \<in> set ?g" using assms by simp
  then have "map_of (group_chunks chunks) (region_of (cc_pos c)) = Some ?g"
    using group_chunks_filter [of chunks "region_of (cc_pos c)"] by (auto simp: Let_def filter_empty_conv)
  then show ?thesis using that map_of_SomeD \<open>c \<in> set ?g\<close> by fastforce
qed

lemma group_ok:
  assumes g: "(r, cs) \<in> set (group_chunks chunks)" and ok: "columns_ok z bes chunks" and d: "distinct (map cc_pos chunks)"
  shows "columns_ok z bes cs" and "distinct (chunk_indices cs)"
proof -
  have cs: "cs = filter (\<lambda>c. region_of (cc_pos c) = r) chunks" by (rule group_members(1) [OF g])
  show "columns_ok z bes cs" using ok by (auto simp: cs columns_ok_def list_all_iff)
  have "distinct (map cc_pos cs)" using d unfolding cs by (rule distinct_map_filter)
  moreover have "inj_on region_chunk_index (cc_pos ` set cs)"
    by (rule inj_onI) (auto simp: cs intro: same_region_index)
  ultimately have "distinct (map region_chunk_index (map cc_pos cs))" by (subst distinct_map) simp
  then show "distinct (chunk_indices cs)" by (simp add: comp_def)
qed

lemma wp_write_regions:
  assumes z: "compressors_ok (sv_compressors env)" and ok: "columns_ok (sv_compressors env) bes (map snd chunks)"
    and pos: "bt_ok chunks" "list_all (\<lambda>(p, c). cc_pos c = p) chunks"
    and dir: "\<And>d. wd_region dir = Some d \<Longrightarrow> finite (dom d) \<and>
      (\<forall>name \<in> dom d. extension name = Some ''mca'' \<longrightarrow> name \<in> (\<lambda>p. region_name (region_of p)) ` set (map fst chunks))"
  shows "wp (write_regions env chunks bes)
    (\<lambda>_ dir'. \<exists>d. dir' = dir\<lparr>wd_region := Some d\<rparr> \<and>
      regions_written (sv_compressors env) bes (group_chunks (map snd chunks)) (set (group_chunks (map snd chunks))) d) (fault env) dir"
proof -
  let ?gs = "group_chunks (map snd chunks)" and ?z = "sv_compressors env"
  let ?d0 = "case wd_region dir of Some d \<Rightarrow> d | None \<Rightarrow> Map.empty"
  have keys: "map cc_pos (map snd chunks) = map fst chunks" using pos(2) by (induction chunks) auto
  have distinct: "distinct (map cc_pos (map snd chunks))" unfolding keys by (rule bt_ok_distinct [OF pos(1)])
  have "region_name (region_of p) \<in> region_name ` fst ` set ?gs" if "p \<in> set (map fst chunks)" for p
  proof -
    have "p \<in> set (map cc_pos (map snd chunks))" unfolding keys by (rule that)
    then obtain c where c: "c \<in> set (map snd chunks)" "cc_pos c = p" by auto
    show ?thesis by (rule group_of [OF c(1)]) (use c(2) in force)
  qed
  then have start: "regions_written ?z bes ?gs {} ?d0" using dir by (cases "wd_region dir") (fastforce simp: regions_written_def)+
  let ?I = "\<lambda>V dir'. \<exists>d. dir' = dir\<lparr>wd_region := Some d\<rparr> \<and> regions_written ?z bes ?gs V d"
  have "wp ((\<lambda>(r, cs). write_region_file env (region_name r) cs bes) g) (\<lambda>_. ?I (Set.insert g V)) (fault env) s"
    if g: "g \<in> set ?gs" and V: "V \<subseteq> set ?gs" and inv: "?I V s" for g V s
  proof -
    obtain r cs where rc: "g = (r, cs)" by (cases g)
    note cs = group_ok [OF g [unfolded rc] ok distinct]
    obtain bs where bs: "region_bytes ?z bes cs = Inr bs" using region_roundtrip [OF z cs] by blast
    obtain d where d: "s = dir\<lparr>wd_region := Some d\<rparr>" "regions_written ?z bes ?gs V d" using inv by blast
    have "regions_written ?z bes ?gs (Set.insert g V) (d(region_name r \<mapsto> bs))"
      unfolding rc using regions_written_insert [OF d(2) _ V _ bs] g rc group_chunks_filter by blast
    then show ?thesis
      unfolding rc prod.case write_region_file_def bs wp_simps sum.case by (intro wp_fs_write) (auto simp: d(1))
  qed
  from wp_sfor_visited [where I = ?I, OF _ this] start
  have "wp (sfor ?gs (\<lambda>(r, cs). write_region_file env (region_name r) cs bes)) (\<lambda>_. ?I (set ?gs)) (fault env) (dir\<lparr>wd_region := Some ?d0\<rparr>)"
    by blast
  then show ?thesis unfolding write_regions_def wp_sbind by (intro wp_fs_write)
qed

text \<open>What a set of region files holds.\<close>

definition named_chunks :: "(int \<times> int, chunk_column list) btree_map \<Rightarrow> string set \<Rightarrow> chunk_column set" where
  "named_chunks groups names = {c. \<exists>r cs. (r, cs) \<in> set groups \<and> region_name r \<in> names \<and> c \<in> set cs}"

definition chunk_entries :: "chunk_column set \<Rightarrow> (chunk_pos \<times> chunk_column) set" where
  "chunk_entries cs = (\<lambda>c. (cc_pos c, archived_column c)) ` cs"

definition entity_entries :: "(block_pos, block_entity_state) btree_map \<Rightarrow> chunk_column set \<Rightarrow> (block_pos \<times> block_entity_state) set" where
  "entity_entries bes cs = (\<Union>c \<in> cs. set (archived_entities (cc_pos c) bes))"

lemma chunk_entries_Un: "chunk_entries (A \<union> B) = chunk_entries A \<union> chunk_entries B"
  and entity_entries_Un: "entity_entries bes (A \<union> B) = entity_entries bes A \<union> entity_entries bes B"
  by (simp_all add: chunk_entries_def entity_entries_def image_Un)

lemma cc_pos_archived [simp]: "cc_pos (archived_column c) = cc_pos c"
  by (simp add: archived_column_def)

lemma fold_insert_columns:
  "fold (\<lambda>c. bt_insert (cc_pos c) c) cs acc = fold (\<lambda>(k, v). bt_insert k v) (map (\<lambda>c. (cc_pos c, c)) cs) acc"
  by (simp add: fold_map comp_def)

lemma named_chunks_insert:
  assumes "bt_ok groups"
  shows "(r, cs) \<in> set groups \<Longrightarrow> named_chunks groups (Set.insert (region_name r) names) = set cs \<union> named_chunks groups names"
    and "name \<notin> region_name ` fst ` set groups \<Longrightarrow> named_chunks groups (Set.insert name names) = named_chunks groups names"
proof -
  assume g: "(r, cs) \<in> set groups"
  have "cs' = cs" if "(r', cs') \<in> set groups" "region_name r' = region_name r" for r' cs'
    using that g bt_ok_distinct [OF assms] by (metis eq_key_imp_eq_value region_name_inj)
  then show "named_chunks groups (Set.insert (region_name r) names) = set cs \<union> named_chunks groups names"
    using g unfolding named_chunks_def by blast
next
  assume "name \<notin> region_name ` fst ` set groups"
  then have "region_name r \<noteq> name" if "(r, cs) \<in> set groups" for r cs using that by force
  then show "named_chunks groups (Set.insert name names) = named_chunks groups names"
    unfolding named_chunks_def by blast
qed

definition holds :: "('k::linorder, 'v) btree_map \<Rightarrow> ('k \<times> 'v) set \<Rightarrow> bool" where
  "holds m S \<longleftrightarrow> bt_ok m \<and> set m = S"

lemma holds_fold:
  assumes "holds acc S" and "bt_ok target" and "S \<subseteq> set target" and "set kvs \<subseteq> set target"
  shows "holds (fold (\<lambda>(k, v). bt_insert k v) kvs acc) (set kvs \<union> S)"
  using fold_bt_insert_set [of acc target kvs] assms by (auto simp: holds_def)

lemma holds_eq: "holds m (set m') \<Longrightarrow> bt_ok m' \<Longrightarrow> m = m'"
  by (simp add: holds_def bt_ok_set_eqI)

lemma read_region_files_ok:
  assumes z: "compressors_ok (sv_compressors env)" and quiet: "sv_fault env = (\<lambda>_. None)"
    and ok: "columns_ok (sv_compressors env) bes chunks" "distinct (map cc_pos chunks)"
    and d: "wd_region dir = Some d" "regions_written (sv_compressors env) bes (group_chunks chunks) (set (group_chunks chunks)) d"
    and cols: "bt_ok C" "chunk_entries (set chunks) \<subseteq> set C" and bes: "bt_ok bes"
    and acc: "holds (fst acc) (chunk_entries S)" "holds (snd acc) (entity_entries bes S)" "S \<subseteq> set chunks"
  shows "set names \<subseteq> dom d \<Longrightarrow> \<exists>acc'. read_region_files env names acc dir = (Inr acc', dir) \<and>
    holds (fst acc') (chunk_entries (named_chunks (group_chunks chunks) (set names) \<union> S)) \<and>
    holds (snd acc') (entity_entries bes (named_chunks (group_chunks chunks) (set names) \<union> S))"
  using acc
proof (induction names arbitrary: acc S)
  case Nil
  then show ?case by (simp add: sret_def named_chunks_def)
next
  case (Cons name names)
  let ?gs = "group_chunks chunks"
  have gs: "bt_ok ?gs" using group_chunks_filter by blast
  show ?case
  proof (cases "extension name = Some ''mca''")
    case False
    then have "name \<notin> region_name ` fst ` set ?gs" using region_name_extension by auto
    then show ?thesis using Cons False named_chunks_insert(2) [OF gs] by simp
  next
    case True
    then obtain r cs where name: "name = region_name r" and g: "(r, cs) \<in> set ?gs"
    proof -
      have "name \<in> region_name ` fst ` set ?gs" using d(2) Cons.prems(1) True by (simp add: regions_written_def)
      then show ?thesis using that by fastforce
    qed
    obtain bs result where bs: "region_bytes (sv_compressors env) bes cs = Inr bs" "parse_region (sv_compressors env) bs = Inr result"
      "region_sets bes (set cs) result"
      using region_roundtrip [OF z group_ok [OF g ok]] by blast
    have "d name = Some bs" using d(2) g bs(1) unfolding name regions_written_def by (metis sum.inject(2))
    then have step: "read_region_file env name dir = (Inr result, dir)"
      using d(1) bs(2) quiet by (simp add: read_region_file_def fs_read_def io_check_def in_region_def sr_defs)
    have sub: "set cs \<subseteq> set chunks" using group_members(1) [OF g] by auto
    have cols': "set (map (\<lambda>c. (cc_pos c, c)) (fst result)) = chunk_entries (set cs)" "set (snd result) = entity_entries bes (set cs)"
      using bs(3) by (simp_all add: region_sets_def chunk_entries_def entity_entries_def image_image)
    let ?acc = "(fold (\<lambda>c. bt_insert (cc_pos c) c) (fst result) (fst acc), fold (\<lambda>(k, v). bt_insert k v) (snd result) (snd acc))"
    have mono: "chunk_entries A \<subseteq> set C" if "A \<subseteq> set chunks" for A using cols(2) that by (auto simp: chunk_entries_def)
    have ents: "entity_entries bes A \<subseteq> set (bt_filter_map (\<lambda>(p, be). archived_entity be) bes)" for A
      using archived_entities_sub by (fastforce simp: entity_entries_def)
    have acc1: "holds (fst ?acc) (chunk_entries (set cs \<union> S))"
      unfolding fst_conv fold_insert_columns chunk_entries_Un cols'(1) [symmetric]
      by (rule holds_fold [OF Cons.prems(2) cols(1) mono [OF Cons.prems(4)]]) (simp only: cols'(1) mono [OF sub])
    have acc2: "holds (snd ?acc) (entity_entries bes (set cs \<union> S))"
      unfolding snd_conv entity_entries_Un cols'(2) [symmetric]
      by (rule holds_fold [OF Cons.prems(3) bt_ok_filter_map [OF bes] ents]) (simp only: cols'(2) ents)
    have "set names \<subseteq> dom d" and "set cs \<union> S \<subseteq> set chunks" using Cons.prems(1,4) sub by simp_all
    from Cons.IH [OF this(1) acc1 acc2 this(2)]
    obtain acc' where acc': "read_region_files env names ?acc dir = (Inr acc', dir)"
      "holds (fst acc') (chunk_entries (named_chunks ?gs (set names) \<union> (set cs \<union> S)))"
      "holds (snd acc') (entity_entries bes (named_chunks ?gs (set names) \<union> (set cs \<union> S)))" by blast
    have named: "named_chunks ?gs (set (name # names)) \<union> S = named_chunks ?gs (set names) \<union> (set cs \<union> S)"
      unfolding name list.set named_chunks_insert(1) [OF gs g] by blast
    have "read_region_files env (name # names) acc dir = read_region_files env names ?acc dir"
      using True step by (simp add: sbind_def split_beta)
    then show ?thesis unfolding named using acc' by (intro exI [of _ acc']) simp
  qed
qed

lemma named_chunks_all:
  assumes "regions_written z bes (group_chunks chunks) (set (group_chunks chunks)) d"
  shows "named_chunks (group_chunks chunks) (dom d) = set chunks"
proof (intro equalityI subsetI)
  fix c assume "c \<in> named_chunks (group_chunks chunks) (dom d)"
  then show "c \<in> set chunks" using group_members(1) by (fastforce simp: named_chunks_def)
next
  fix c assume "c \<in> set chunks"
  then obtain cs where g: "(region_of (cc_pos c), cs) \<in> set (group_chunks chunks)" "c \<in> set cs" by (rule group_of)
  then have "region_name (region_of (cc_pos c)) \<in> dom d" using assms unfolding regions_written_def by blast
  then show "c \<in> named_chunks (group_chunks chunks) (dom d)" using g unfolding named_chunks_def by blast
qed

lemma entity_entries_all:
  "entity_entries bes cs = set (bt_filter_map (\<lambda>(p, be). if block_chunk_pos p \<in> cc_pos ` cs then archived_entity be else None) bes)"
proof -
  have "(p, be) \<in> entity_entries bes cs \<longleftrightarrow>
      (p, be) \<in> set (bt_filter_map (\<lambda>(p, be). if block_chunk_pos p \<in> cc_pos ` cs then archived_entity be else None) bes)" for p be
    by (auto simp: entity_entries_def archived_entities_def set_bt_filter_map split: if_splits)
  then show ?thesis by auto
qed

lemma chunk_entries_all:
  assumes "list_all (\<lambda>(p, c). cc_pos c = p) chunks"
  shows "chunk_entries (set (map snd chunks)) = set (map (\<lambda>(p, c). (p, archived_column c)) chunks)"
  using assms by (induction chunks) (auto simp: chunk_entries_def)

lemma bt_ok_map_values [simp]: "bt_ok m \<Longrightarrow> bt_ok (map (\<lambda>(k, v). (k, f v)) m)"
  by (simp add: bt_ok_def comp_def split_beta)

lemma read_regions_ok:
  assumes env: "storage_env_ok env" "sv_fault env = (\<lambda>_. None)"
    and ok: "columns_ok (sv_compressors env) bes (map snd chunks)" and pos: "bt_ok chunks" "list_all (\<lambda>(p, c). cc_pos c = p) chunks"
    and d: "wd_region dir = Some d"
      "regions_written (sv_compressors env) bes (group_chunks (map snd chunks)) (set (group_chunks (map snd chunks))) d"
  shows "read_regions env dir = (Inr (map (\<lambda>(p, c). (p, archived_column c)) chunks,
    bt_filter_map (\<lambda>(p, be). if block_chunk_pos p \<in> set (map fst chunks) then archived_entity be else None) bes), dir)"
proof -
  let ?cs = "map snd chunks" and ?C = "map (\<lambda>(p, c). (p, archived_column c)) chunks"
  have keys: "map cc_pos ?cs = map fst chunks" using pos(2) by (induction chunks) auto
  have distinct: "distinct (map cc_pos ?cs)" unfolding keys by (rule bt_ok_distinct [OF pos(1)])
  have pos_set: "cc_pos ` set ?cs = set (map fst chunks)" using arg_cong [OF keys, of set] by (simp add: image_image)
  have z: "compressors_ok (sv_compressors env)" and names: "set (sv_read_dir env d) = dom d"
    using env(1) d(2) by (simp_all add: storage_env_ok_def regions_written_def)
  have bes: "bt_ok bes" using ok by (simp add: columns_ok_def)
  have C: "bt_ok ?C" using pos(1) by simp
  have sub: "chunk_entries (set ?cs) \<subseteq> set ?C" unfolding chunk_entries_all [OF pos(2)] by blast
  have empty: "holds (fst ([], [])) (chunk_entries {})" "holds (snd ([], [])) (entity_entries bes {})" "{} \<subseteq> set ?cs"
    by (simp_all add: holds_def chunk_entries_def entity_entries_def)
  obtain acc where acc: "read_region_files env (sv_read_dir env d) ([], []) dir = (Inr acc, dir)"
    "holds (fst acc) (chunk_entries (set ?cs))" "holds (snd acc) (entity_entries bes (set ?cs))"
    using read_region_files_ok [OF z env(2) ok distinct d C sub bes empty, of "sv_read_dir env d"] names named_chunks_all [OF d(2)] by auto
  have "fst acc = ?C" using holds_eq [OF acc(2) [unfolded chunk_entries_all [OF pos(2)]] C] .
  moreover have "snd acc = bt_filter_map (\<lambda>(p, be). if block_chunk_pos p \<in> set (map fst chunks) then archived_entity be else None) bes"
    using holds_eq [OF acc(3) [unfolded entity_entries_all pos_set]] bes by simp
  ultimately show ?thesis
    using acc(1) d(1) env(2) by (simp add: read_regions_def io_check_def sr_defs prod_eq_iff)
qed

section \<open>Player files\<close>

definition player_saved :: "storage_env \<Rightarrow> bytes \<Rightarrow> player_snapshot \<Rightarrow> bool" where
  "player_saved env bs player \<longleftrightarrow>
     bind_res (bind_res (decompress_gzip (sv_compressors env) bs) read_nbt) player_from_nbt = Inr (archived_player player)"

definition players_written :: "storage_env \<Rightarrow> (player_id, player_snapshot) btree_map \<Rightarrow> player_snapshot set \<Rightarrow> directory \<Rightarrow> bool" where
  "players_written env players V d \<longleftrightarrow> finite (dom d) \<and>
     (\<forall>name \<in> dom d. extension name = Some ''dat'' \<longrightarrow> name \<in> player_file env ` set (map fst players)) \<and>
     (\<forall>player \<in> V. \<exists>bs. player_saved env bs player \<and> d (player_file env (ps_id player)) = Some bs)"

lemma player_file_inj: "storage_env_ok env \<Longrightarrow> player_file env p = player_file env q \<Longrightarrow> p = q"
  by (auto simp: storage_env_ok_def player_file_def dest: injD)

lemma player_file_extension: "storage_env_ok env \<Longrightarrow> extension (player_file env p) = Some ''dat''"
  unfolding player_file_def by (rule extension_dat) (simp add: storage_env_ok_def)

lemma player_written:
  assumes env: "storage_env_ok env" and player: "players_ok players" "player \<in> set (map snd players)"
  obtains tag bs where "player_to_nbt player = Inr tag" and "gzip_compress_nbt (sv_compressors env) '''' tag = Inr bs"
    and "player_saved env bs player"
proof -
  have ok: "player_storable player"
    using player by (auto simp: players_ok_def list_all_iff)
  obtain m where m: "player_to_nbt player = Inr (NbtCompound m)" "nbt_ok (NbtCompound m)"
    "player_from_nbt (NbtCompound m) = Inr (archived_player player)"
    using player_roundtrip [OF ok] by blast
  have fits: "tag_fits (NbtCompound m)" by (rule player_fits [OF ok m(1)])
  have z: "compressors_ok (sv_compressors env)" using env by (simp add: storage_env_ok_def)
  obtain bs where "gzip_compress_nbt (sv_compressors env) '''' (NbtCompound m) = Inr bs"
    "bind_res (decompress_gzip (sv_compressors env) bs) read_nbt = Inr (NbtCompound m)"
    using gzip_roundtrip [OF z m(2) fits] by blast
  then show ?thesis using that m by (simp add: player_saved_def)
qed

lemma players_written_insert:
  assumes "storage_env_ok env" and "players_ok players" and "players_written env players V d" and "V \<subseteq> set (map snd players)"
    and "player \<in> set (map snd players)" and "player_saved env bs player"
  shows "players_written env players (Set.insert player V) (d(player_file env (ps_id player) \<mapsto> bs))"
proof -
  have key: "(ps_id q, q) \<in> set players" if "q \<in> set (map snd players)" for q
    using that assms(2) by (auto simp: players_ok_def list_all_iff)
  have ids: "distinct (map fst players)" using assms(2) by (simp add: players_ok_def bt_ok_distinct)
  have "\<exists>b. player_saved env b q \<and> (d(player_file env (ps_id player) \<mapsto> bs)) (player_file env (ps_id q)) = Some b" if "q \<in> V" for q
  proof (cases "ps_id q = ps_id player")
    case True
    have "q \<in> set (map snd players)" using that assms(4) by blast
    from eq_key_imp_eq_value [OF ids key [OF this, unfolded True] key [OF assms(5)]] have "q = player" .
    then show ?thesis using assms(6) by simp
  next
    case False
    then have "player_file env (ps_id q) \<noteq> player_file env (ps_id player)" using player_file_inj [OF assms(1)] by blast
    then show ?thesis using assms(3) that by (simp add: players_written_def)
  qed
  moreover have "player_file env (ps_id player) \<in> player_file env ` set (map fst players)"
    using imageI [OF key [OF assms(5)], of fst] by simp
  ultimately show ?thesis using assms(3,6) by (simp add: players_written_def)
qed

lemma wp_write_playerdata:
  assumes env: "storage_env_ok env" and ok: "players_ok players"
    and dir: "\<And>d. wd_playerdata dir = Some d \<Longrightarrow> finite (dom d) \<and>
      (\<forall>name \<in> dom d. extension name = Some ''dat'' \<longrightarrow> name \<in> player_file env ` set (map fst players))"
  shows "wp (write_playerdata env players)
    (\<lambda>_ dir'. \<exists>d. dir' = dir\<lparr>wd_playerdata := Some d\<rparr> \<and> players_written env players (set (map snd players)) d) (fault env) dir"
proof -
  let ?d0 = "case wd_playerdata dir of Some d \<Rightarrow> d | None \<Rightarrow> Map.empty" and ?ps = "map snd players"
  let ?I = "\<lambda>V dir'. \<exists>d. dir' = dir\<lparr>wd_playerdata := Some d\<rparr> \<and> players_written env players V d"
  let ?f = "\<lambda>player. sbind (slift (player_to_nbt player)) (\<lambda>root. write_gzip_nbt env (''playerdata/'' @ player_file env (ps_id player))
     (\<lambda>bs w. w\<lparr>wd_playerdata := Some ((case wd_playerdata w of Some d \<Rightarrow> d | None \<Rightarrow> Map.empty)(player_file env (ps_id player) \<mapsto> bs))\<rparr>) '''' root)"
  have start: "players_written env players {} ?d0" using dir by (cases "wd_playerdata dir") (simp_all add: players_written_def)
  have "wp (?f player) (\<lambda>_. ?I (Set.insert player V)) (fault env) s"
    if p: "player \<in> set ?ps" and V: "V \<subseteq> set ?ps" and inv: "?I V s" for player V s
  proof -
    obtain tag bs where tag: "player_to_nbt player = Inr tag" "gzip_compress_nbt (sv_compressors env) '''' tag = Inr bs"
      "player_saved env bs player"
      using player_written [OF env ok p] by blast
    obtain d where d: "s = dir\<lparr>wd_playerdata := Some d\<rparr>" "players_written env players V d" using inv by blast
    have "players_written env players (Set.insert player V) (d(player_file env (ps_id player) \<mapsto> bs))"
      by (rule players_written_insert [OF env ok d(2) V p tag(3)])
    then show ?thesis unfolding wp_simps tag(1) sum.case by (intro wp_write_gzip [OF tag(2)]) (auto simp: d(1))
  qed
  from wp_sfor_visited [where I = ?I and xs = ?ps, OF _ this] start
  have "wp (sfor ?ps ?f) (\<lambda>_. ?I (set ?ps)) (fault env) (dir\<lparr>wd_playerdata := Some ?d0\<rparr>)" by blast
  then show ?thesis unfolding write_playerdata_def wp_sbind by (intro wp_fs_write)
qed

lemma read_player_files_ok:
  assumes env: "storage_env_ok env" "sv_fault env = (\<lambda>_. None)" and ok: "players_ok players"
    and d: "wd_playerdata dir = Some d" "players_written env players (set (map snd players)) d"
  shows "set names \<subseteq> dom d \<Longrightarrow> holds acc S \<Longrightarrow> S \<subseteq> set (map (\<lambda>(p, player). (p, archived_player player)) players) \<Longrightarrow>
    \<exists>acc'. read_player_files env names acc dir = (Inr acc', dir) \<and>
      holds acc' ({(p, archived_player player) |p player. (p, player) \<in> set players \<and> player_file env p \<in> set names} \<union> S)"
proof (induction names arbitrary: acc S)
  case Nil
  then show ?case by (simp add: sret_def)
next
  case (Cons name names)
  let ?M = "map (\<lambda>(p, player). (p, archived_player player)) players"
  let ?E = "\<lambda>names. {(p, archived_player player) |p player. (p, player) \<in> set players \<and> player_file env p \<in> names}"
  have names: "set names \<subseteq> dom d" using Cons.prems(1) by simp
  show ?case
  proof (cases "extension name = Some ''dat''")
    case False
    then have "player_file env p \<noteq> name" for p using player_file_extension [OF env(1)] by auto
    then have "?E (set (name # names)) = ?E (set names)" by auto
    then show ?thesis using Cons.IH [OF names Cons.prems(2,3)] False by simp
  next
    case True
    then have "name \<in> player_file env ` set (map fst players)" using d(2) Cons.prems(1) by (simp add: players_written_def)
    then obtain p player where name: "name = player_file env p" and p: "(p, player) \<in> set players" by auto
    have id: "ps_id player = p" using ok p by (auto simp: players_ok_def list_all_iff)
    have bt: "bt_ok players" using ok by (simp add: players_ok_def)
    have "player \<in> set (map snd players)" using imageI [OF p, of snd] by simp
    then obtain bs where bs: "player_saved env bs player" "d name = Some bs"
      using d(2) id name unfolding players_written_def by blast
    obtain tag where tag: "bind_res (decompress_gzip (sv_compressors env) bs) read_nbt = Inr tag" "player_from_nbt tag = Inr (archived_player player)"
      using bs(1) by (auto simp: player_saved_def bind_res_eq_Inr)
    have read: "read_gzip_nbt env path (in_playerdata name) dir = (Inr tag, dir)" for path
      using tag(1) bs(2) d(1) by (intro read_gzip_stored [OF env(2)]) (simp_all add: in_playerdata_def)
    let ?e = "(p, archived_player player)"
    have e: "?e \<in> set ?M" using imageI [OF p, of "\<lambda>(p, player). (p, archived_player player)"] by simp
    have "holds (fold (\<lambda>(k, v). bt_insert k v) [?e] acc) (set [?e] \<union> S)"
      using e by (intro holds_fold [OF Cons.prems(2) bt_ok_map_values [OF bt] Cons.prems(3)]) simp
    then have step: "holds (bt_insert p (archived_player player) acc) (Set.insert ?e S)" by simp
    have "Set.insert ?e S \<subseteq> set ?M" using e Cons.prems(3) by blast
    from Cons.IH [OF names step this] obtain acc' where acc': "read_player_files env names (bt_insert p (archived_player player) acc) dir = (Inr acc', dir)"
      "holds acc' (?E (set names) \<union> Set.insert ?e S)" by blast
    have "q = p \<and> player' = player" if "(q, player') \<in> set players" "player_file env q = player_file env p" for q player'
      using that p player_file_inj [OF env(1)] bt_ok_distinct [OF bt] by (metis eq_key_imp_eq_value)
    then have "?E (set (name # names)) \<union> S = ?E (set names) \<union> Set.insert ?e S" using p unfolding name list.set by blast
    moreover have "read_player_files env (name # names) acc dir = read_player_files env names (bt_insert p (archived_player player) acc) dir"
      using True read tag(2) id by (simp add: sbind_def slift_def archived_player_def)
    ultimately show ?thesis using acc' by (intro exI [of _ acc']) simp
  qed
qed

lemma read_playerdata_ok:
  assumes env: "storage_env_ok env" "sv_fault env = (\<lambda>_. None)" and ok: "players_ok players"
    and d: "wd_playerdata dir = Some d" "players_written env players (set (map snd players)) d"
  shows "read_playerdata env dir = (Inr (map (\<lambda>(p, player). (p, archived_player player)) players), dir)"
proof -
  let ?M = "map (\<lambda>(p, player). (p, archived_player player)) players"
  have bt: "bt_ok players" using ok by (simp add: players_ok_def)
  have names: "set (sv_read_dir env d) = dom d" using env(1) d(2) by (simp add: storage_env_ok_def players_written_def)
  have "player_file env p \<in> dom d" if "(p, player) \<in> set players" for p player
  proof -
    have "ps_id player = p" using ok that by (auto simp: players_ok_def list_all_iff)
    moreover have "player \<in> set (map snd players)" using imageI [OF that, of snd] by simp
    ultimately show ?thesis using d(2) unfolding players_written_def by blast
  qed
  then have all: "{(p, archived_player player) |p player. (p, player) \<in> set players \<and> player_file env p \<in> dom d} = set ?M"
    by force
  have "holds [] {}" by (simp add: holds_def)
  from read_player_files_ok [OF env ok d _ this, of "sv_read_dir env d"] obtain acc
    where acc: "read_player_files env (sv_read_dir env d) [] dir = (Inr acc, dir)" "holds acc (set ?M)"
    unfolding names all by auto
  have "acc = ?M" using holds_eq [OF acc(2)] bt by simp
  then show ?thesis using acc(1) d(1) env(2) by (simp add: read_playerdata_def io_check_def sr_defs)
qed

section \<open>Saving and loading a world\<close>

lemma level_compound: obtains m where "level_to_nbt meta = NbtCompound m"
  unfolding level_to_nbt_data tag_compound_def by blast

lemma wp_write_level_dat:
  assumes env: "storage_env_ok env" and meta: "meta_storable meta"
  shows "wp (write_level_dat env meta) (\<lambda>_ dir'. \<exists>bs. dir' = dir\<lparr>wd_level_dat := Some bs\<rparr> \<and>
      bind_res (bind_res (decompress_gzip (sv_compressors env) bs) read_nbt) level_from_nbt = Inr (archived_meta meta)) (fault env) dir"
proof -
  obtain m where m: "level_to_nbt meta = NbtCompound m" by (rule level_compound)
  have z: "compressors_ok (sv_compressors env)" using env by (simp add: storage_env_ok_def)
  obtain bs where bs: "gzip_compress_nbt (sv_compressors env) '''' (NbtCompound m) = Inr bs"
    "bind_res (decompress_gzip (sv_compressors env) bs) read_nbt = Inr (NbtCompound m)"
    using gzip_roundtrip [OF z level_ok_nbt [OF meta, unfolded m] level_fits [OF meta, unfolded m]] by blast
  show ?thesis
    unfolding write_level_dat_def m
    by (rule wp_write_gzip [OF bs(1)]) (use level_roundtrip [OF meta] m bs(2) in auto)
qed

lemma read_level_dat_ok:
  assumes "sv_fault env = (\<lambda>_. None)" and "wd_level_dat dir = Some bs"
    and "bind_res (bind_res (decompress_gzip (sv_compressors env) bs) read_nbt) level_from_nbt = Inr meta"
  shows "read_level_dat env dir = (Inr meta, dir)"
proof -
  obtain tag where tag: "bind_res (decompress_gzip (sv_compressors env) bs) read_nbt = Inr tag" "level_from_nbt tag = Inr meta"
    using assms(3) by (auto simp: bind_res_eq_Inr)
  have "read_gzip_nbt env ''level.dat'' wd_level_dat dir = (Inr tag, dir)"
    using assms(1,2) tag(1) by (intro read_gzip_stored)
  then show ?thesis using tag(2) by (simp add: read_level_dat_def sbind_def slift_def)
qed

text \<open>What a directory holds after a world was saved in it.\<close>

definition world_written :: "storage_env \<Rightarrow> world_snapshot \<Rightarrow> world_dir \<Rightarrow> bool" where
  "world_written env w dir \<longleftrightarrow>
     (\<exists>bs. wd_level_dat dir = Some bs \<and>
        bind_res (bind_res (decompress_gzip (sv_compressors env) bs) read_nbt) level_from_nbt = Inr (archived_meta (wn_meta w))) \<and>
     (\<exists>d. wd_region dir = Some d \<and> regions_written (sv_compressors env) (wn_block_entities w) (group_chunks (map snd (wn_chunks w)))
        (set (group_chunks (map snd (wn_chunks w)))) d) \<and>
     (\<exists>d. wd_playerdata dir = Some d \<and> players_written env (wn_players w) (set (map snd (wn_players w))) d)"

lemma wp_save_snapshot:
  assumes env: "storage_env_ok env" and w: "world_storable (sv_compressors env) w" and dir: "saved_over env w dir"
  shows "wp (save_snapshot env w) (\<lambda>_. world_written env w) (fault env) dir"
proof -
  have z: "compressors_ok (sv_compressors env)" using env by (simp add: storage_env_ok_def)
  have ok: "columns_ok (sv_compressors env) (wn_block_entities w) (map snd (wn_chunks w))" "bt_ok (wn_chunks w)"
    "list_all (\<lambda>(p, c). cc_pos c = p) (wn_chunks w)" "players_ok (wn_players w)" "meta_storable (wn_meta w)"
    using w by (simp_all add: world_storable_def)
  show ?thesis
    unfolding save_snapshot_def wp_sbind
  proof (rule wp_io_check, rule wp_mono [OF wp_write_level_dat [OF env ok(5)]], elim exE conjE)
    fix x dir1 bs assume dir1: "dir1 = dir\<lparr>wd_level_dat := Some bs\<rparr>"
      "bind_res (bind_res (decompress_gzip (sv_compressors env) bs) read_nbt) level_from_nbt = Inr (archived_meta (wn_meta w))"
    have "wp (write_regions env (wn_chunks w) (wn_block_entities w)) (\<lambda>_ dir'. \<exists>d. dir' = dir1\<lparr>wd_region := Some d\<rparr> \<and>
        regions_written (sv_compressors env) (wn_block_entities w) (group_chunks (map snd (wn_chunks w)))
          (set (group_chunks (map snd (wn_chunks w)))) d) (fault env) dir1"
      using dir by (intro wp_write_regions [OF z ok(1,2,3)]) (simp add: dir1(1) saved_over_def)
    then show "wp (write_regions env (wn_chunks w) (wn_block_entities w))
        (\<lambda>_. wp (write_playerdata env (wn_players w)) (\<lambda>_. world_written env w) (fault env)) (fault env) dir1"
    proof (rule wp_mono, elim exE conjE)
      fix x dir2 d assume dir2: "dir2 = dir1\<lparr>wd_region := Some d\<rparr>"
        "regions_written (sv_compressors env) (wn_block_entities w) (group_chunks (map snd (wn_chunks w)))
          (set (group_chunks (map snd (wn_chunks w)))) d"
      have "wp (write_playerdata env (wn_players w)) (\<lambda>_ dir'. \<exists>d. dir' = dir2\<lparr>wd_playerdata := Some d\<rparr> \<and>
          players_written env (wn_players w) (set (map snd (wn_players w))) d) (fault env) dir2"
        using dir by (intro wp_write_playerdata [OF env ok(4)]) (simp add: dir1(1) dir2(1) saved_over_def)
      then show "wp (write_playerdata env (wn_players w)) (\<lambda>_. world_written env w) (fault env) dir2"
        by (rule wp_mono) (use dir1 dir2 in \<open>auto simp: world_written_def\<close>)
    qed
  qed
qed

lemma load_snapshot_written:
  assumes env: "storage_env_ok env" "sv_fault env = (\<lambda>_. None)" and w: "world_storable (sv_compressors env) w" and dir: "world_written env w dir"
  shows "load_snapshot env dir = (Inr (Some (archived_world w)), dir)"
proof -
  obtain bs d pd where level: "wd_level_dat dir = Some bs"
      "bind_res (bind_res (decompress_gzip (sv_compressors env) bs) read_nbt) level_from_nbt = Inr (archived_meta (wn_meta w))"
    and d: "wd_region dir = Some d" "regions_written (sv_compressors env) (wn_block_entities w) (group_chunks (map snd (wn_chunks w)))
        (set (group_chunks (map snd (wn_chunks w)))) d"
    and pd: "wd_playerdata dir = Some pd" "players_written env (wn_players w) (set (map snd (wn_players w))) pd"
    using dir unfolding world_written_def by blast
  have ok: "columns_ok (sv_compressors env) (wn_block_entities w) (map snd (wn_chunks w))" "bt_ok (wn_chunks w)"
    "list_all (\<lambda>(p, c). cc_pos c = p) (wn_chunks w)" "players_ok (wn_players w)"
    using w by (simp_all add: world_storable_def)
  show ?thesis
    by (simp add: load_snapshot_def sbind_def sget_def sret_def level(1) read_level_dat_ok [OF env(2) level]
      read_regions_ok [OF env ok(1-3) d] read_playerdata_ok [OF env ok(4) pd] archived_world_def)
qed


section \<open>An example\<close>

definition example_compressors :: compressors where
  "example_compressors = \<lparr>zlib_encode = \<lambda>bs. bs, zlib_decode = Some, gzip_encode = \<lambda>bs. bs, gzip_decode = Some\<rparr>"

definition example_env :: storage_env where
  "example_env = \<lparr>sv_compressors = example_compressors, sv_hyphenated = \<lambda>p. decimal (unat p),
     sv_read_dir = \<lambda>d. sorted_list_of_set (dom d), sv_fault = \<lambda>_. None\<rparr>"

definition example_world :: world_snapshot where
  "example_world =
     \<lparr>wn_meta = \<lparr>wm_level_name = ''world'', wm_seed = 7, wm_spawn = \<lparr>bp_x = 0, bp_y = 4, bp_z = 0\<rparr>, wm_dimension = Overworld,
        wm_age = 100, wm_time = 100, wm_level_type = ''FLAT'', wm_game_mode = 1, wm_difficulty = 2, wm_max_players = 20\<rparr>,
      wn_chunks = [(\<lparr>cp_x = 40, cp_z = - 1\<rparr>,
        (column_new \<lparr>cp_x = 40, cp_z = - 1\<rparr>)
          \<lparr>cc_sections := [(0, \<lparr>cs_y = 0, cs_blocks = [(SectionBlockIndex 0x231, block_state_new CHEST)]\<rparr>)]\<rparr>)],
      wn_block_entities = [(\<lparr>bp_x = 641, bp_y = 2, bp_z = - 13\<rparr>, ContainerEntity \<lparr>be_kind = CHEST_BLOCK_ENTITY,
        be_slots = Some (item_stack_new STONE 12 0) # replicate 26 None, be_properties = []\<rparr>)],
      wn_players = [(7, \<lparr>ps_id = 7, ps_username = ''ada'', ps_position = \<lparr>v_x = 0, v_y = 0x4010000000000000, v_z = 0\<rparr>,
        ps_yaw = 0, ps_pitch = 0, ps_on_ground = True, ps_dimension = Overworld, ps_health = 0x41A00000, ps_food = 20,
        ps_food_saturation = 0x40A00000,
        ps_inventory = snd (inventory_set 36 (Some (item_stack_new GLASS 64 0)) inventory_new_empty), ps_selected_hotbar_slot = 3\<rparr>)]\<rparr>"

lemma example_env_ok: "storage_env_ok example_env"
proof -
  have "inj (\<lambda>p :: player_id. decimal (unat p))" by (rule injI) (metis decimal_inj unsigned_word_eqI)
  moreover have "decimal n \<noteq> ''''" for n by (subst decimal.simps) simp
  ultimately show ?thesis by (simp add: storage_env_ok_def example_env_def example_compressors_def compressors_ok_def)
qed

lemma list_all_replicate: "P x \<Longrightarrow> list_all P (replicate n x)"
  by (induction n) simp_all

lemma list_all_update: "list_all P xs \<Longrightarrow> P x \<Longrightarrow> list_all P (xs[i := x])"
  by (induction xs arbitrary: i) (auto split: nat.split)

lemma example_meta: "meta_storable (wn_meta example_world)"
  by (simp add: example_world_def meta_storable_def nbt_string_ok_literal to_ascii_lowercase_def i32_ok_def)

lemma example_players: "players_ok (wn_players example_world)"
  by (simp add: example_world_def players_ok_def bt_ok_def player_storable_def nbt_string_ok_literal inventory_ok_def carried_storable_def inventory_set_def inventory_new_empty_def slot_counts
      list_all_replicate list_all_update item_stack_new_def)

lemma example_bes: "bt_ok (wn_block_entities example_world)" "list_all entity_storable (wn_block_entities example_world)"
   "length (wn_block_entities example_world) \<le> 150"
  by (simp_all add: example_world_def bt_ok_def entity_storable_def i32_ok_def slots_storable_def stack_storable_def
      list_all_replicate item_stack_new_def)

lemma example_chunks: "bt_ok (wn_chunks example_world)"
  "list_all (\<lambda>(p, c). cc_pos c = p \<and> column_storable c \<and> length (cc_biomes c) \<le> 256) (wn_chunks example_world)"
  by (simp_all add: example_world_def bt_ok_def column_storable_def section_storable_def column_new_def i32_ok_def)

lemmas example_storable = example_meta example_players example_bes example_chunks

lemma example_unchanged: "archived_world example_world = example_world"
  by code_simp

lemma example_world_storable: "world_storable example_compressors example_world"
proof -
  have "chunk_fits example_compressors (wn_block_entities example_world) c" if "c \<in> snd ` set (wn_chunks example_world)" for c
  proof (rule chunk_fits_small [OF _ example_storable(3,4)])
    show "column_storable c" "length (cc_biomes c) \<le> 256" using that example_storable(7) by (auto simp: list_all_iff)
    show "length (filter (\<lambda>e. block_chunk_pos (fst e) = cc_pos c) (wn_block_entities example_world)) \<le> 150"
      using example_storable(5) by (rule order_trans [OF length_filter_le])
  qed (use example_storable(5) in \<open>simp_all add: example_compressors_def\<close>)
  then show ?thesis
    using example_storable by (auto simp: world_storable_def columns_ok_def list_all_iff)
qed


end
