(* ===== verification/Spec2Isabelle.thy ===== *)
theory Spec2Isabelle
  imports RakNet_Delivery RakNet_Run Inventory_Laws Store_Laws Contract_Laws Anvil_Laws
begin

text \<open>
  Verification of RevyCraft, a Minecraft-compatible voxel server.

  \<^bold>\<open>The program.\<close> Bedrock clients reach the server over RakNet, a reliable datagram transport
  (\<open>crates/network/revy-raknet\<close>). Protocol adapters turn packets into commands for the game core
  (\<open>crates/core\<close>: the data model \<open>revy-voxel-model\<close>, the semantic vocabulary \<open>revy-voxel-semantic\<close>, the built-in content
  \<open>revy-voxel-rules\<close> and the core proper \<open>revy-voxel-core\<close>). The core is a value: every command forks the published version,
  works on the fork, and publishes it with a new revision. Gameplay plugins prepare commands against a version they only
  read; their effects are applied later, when what they read still holds. The server runtime
  (\<open>crates/runtime/revy-server-runtime\<close>) owns the published version (\<open>core_store.rs\<close>), saves it, and can hand it over to a
  reloaded runtime or to a new executable while clients stay connected: by a snapshot, by the commits made since
  (\<open>core_store/journal.rs\<close>, \<open>version.rs\<close>), and by checkpoints of the RakNet peers.

  \<^bold>\<open>Theories.\<close> One theory or more per component, in the order of the code; laws that span several components have theories
  of their own.

  \<^item> \<open>Prelude\<close>: machine integers, byte strings, the state-and-error monad \<open>sr\<close> in which every stateful operation is
    written, with its invariant rules (\<open>preserves\<close>), weakest preconditions (\<open>wp\<close>) and simulation (\<open>sim\<close>), byte cursors, and
    the ordered maps. \<open>Codec\<close>: what the binary formats share, and the calculus of their round trips. \<open>Float64\<close>: the IEEE
    numbers the core computes with.
  \<^item> \<open>RakNet_Sequence\<close> (\<open>sequence.rs\<close>, \<open>budget.rs\<close>): 24-bit sequence numbers, budgets, the history of datagrams.
    \<open>RakNet_Wire\<close> (\<open>wire.rs\<close>): datagrams and acknowledgements. \<open>RakNet_Peer\<close> and \<open>RakNet_Run\<close> (\<open>peer.rs\<close>):
    reliability, ordering, fragments, timers, and the run loop with its freeze for a cutover. \<open>RakNet_Transfer\<close>: the checkpoint of a
    peer and its restoration. \<open>RakNet_Delivery\<close>: what the receiver delivers.
  \<^item> \<open>Voxel_Model\<close> (\<open>revy-voxel-model\<close>): positions, blocks, sections and columns, items, inventories. \<open>Canonical_Content\<close> and
    \<open>Canonical_Behavior\<close> (\<open>revy-voxel-rules\<close>): catalogue, crafting, furnace, and the content interface.
  \<^item> \<open>Core_State\<close> (\<open>core/mod.rs\<close>, \<open>world.rs\<close>, \<open>state_backend.rs\<close>): the stores of the core, and the two backends of
    every operation, the core itself and the overlay of a transaction. \<open>Core_Inventory\<close> (\<open>core/inventory\<close>): clicks, windows,
    containers, dropped items. \<open>Core_Ops\<close> (\<open>canonical.rs\<close>, \<open>mutation.rs\<close>, \<open>mining.rs\<close>, \<open>login.rs\<close>, \<open>tick.rs\<close>): the operations,
    their events, the tick. \<open>Core_Transaction\<close> (\<open>transaction.rs\<close>, \<open>command.rs\<close>): read sets, transactions, logins, commands.
    \<open>Core_Version\<close> (\<open>version.rs\<close>): versions, mutations, snapshots and deltas. \<open>Core_Store\<close> (\<open>runtime/core_store.rs\<close>
    and its journal): publication, cutover, saving.
  \<^item> \<open>Contract_Binary\<close> (\<open>mc-plugin-contract\<close>: \<open>plugin.rs\<close>, \<open>binary.rs\<close>): the encoder, the decoder, envelopes.
    \<open>Contract_Items\<close>, \<open>Contract_Values\<close>, \<open>Contract_World\<close>, \<open>Contract_Commands\<close> (\<open>inventory.rs\<close>, \<open>shared.rs\<close>,
    \<open>gameplay_semantic.rs\<close>): what the values of the core look like on the wire. \<open>Contract_Capabilities\<close>
    (\<open>capabilities.rs\<close>): capability sets and their announcements. \<open>Contract_Messages\<close>: sealing and opening of messages, as a
    locale. \<open>Contract_Gameplay\<close> and \<open>Contract_Protocol\<close>: its four interpretations, the gameplay, storage, protocol
    and authentication channels (\<open>codec/*.rs\<close>).
  \<^item> \<open>Anvil_Nbt\<close>, \<open>Anvil_Chunk\<close>, \<open>Anvil_Player\<close>, \<open>Anvil_Region\<close> (\<open>mc-storage-je-anvil-1_7_10\<close>: \<open>nbt.rs\<close>, \<open>chunk_nbt.rs\<close>,
    \<open>level.rs\<close> and \<open>playerdata.rs\<close>, \<open>region.rs\<close> and \<open>lib.rs\<close>; the numbers of blocks and items of \<open>mc-proto-je-common\<close>): the
    storage adapter, from tags to region files and the world directory. \<open>Anvil_Column\<close>, \<open>Anvil_Sectors\<close>, \<open>Anvil_Size\<close>: chunks,
    region files and their sizes read back.

  \<^bold>\<open>What is shown.\<close>

  \<^item> \<open>RakNet_Delivery\<close>, \<open>RakNet_Run\<close>, \<open>RakNet_Transfer\<close>, \<open>RakNet_Wire\<close>: ordered payloads are delivered exactly once and in order
    however datagrams are lost, repeated and reordered; fragments are reassembled; every reachable peer
    keeps its budgets; a freeze is invisible to the client; a peer restored from its checkpoint is the peer that was
    checkpointed; the encodings are inverse to each other.
  \<^item> \<open>Core_Laws\<close>, \<open>Inventory_Laws\<close>, \<open>Canonical_Content\<close>, \<open>Voxel_Model\<close>: blocks and slots are independent; clicks and merges
    conserve items; furnace and crafting; events never reveal a player whose login is pending; mining and keep-alives.
  \<^item> \<open>Transaction_Laws\<close>: a transaction previews exactly what its commit does. The overlay refines the core, by a
    simulation for every operation (locale and interpretation in \<open>Core_State\<close>).
  \<^item> \<open>Core_Invariant\<close>, \<open>Version_Laws\<close>: the invariant of the core, by program logic for every operation, for every
    history from a loaded world; from it, that transfers validate. Replaying the log of a history gives its final version.
  \<^item> \<open>Store_Laws\<close>: the journal hands over every commit and every event of a cutover (locale \<open>store_history\<close>, interpreted for
    both kinds of journal), stays within its limits, and its loop ends; what is not dirty is on disk; a plugin's command
    is stale only if something it read has changed.
  \<^item> \<open>Contract_Laws\<close>: calls and answers cross the plugin boundary unchanged on every channel, and whatever the decoders
    accept is well formed, so that it can be sent on.
  \<^item> \<open>Anvil_Laws\<close>: a world that is saved is loaded back, up to what the format has no place for, or the fault of the file
    system is returned.

  \<^bold>\<open>Modelling.\<close> Mutable borrows are state passing; a panic is an error of its own type, so that a theorem that an operation
  returns excludes it. Loops are structural recursion or have a measure; the expiry loop of the journal, which may spin, is a
  partial function whose termination is a theorem. Integers are words where the code lets them wrap or saturate, and
  naturals bounded by \<open>usize_max\<close> for sizes. The nested item data of the plugin contract are decoded with as much fuel as
  there are bytes left, which is enough because every level of nesting reads at least one; so are the tags of the storage.
  Tokio tasks are interleavings of the sections that hold a lock. What is outside the repository is a parameter: serializers,
  compression, the allocator, plugins, clocks, the file system with its faults and the order of its listings.

  \<^bold>\<open>Not modelled.\<close> Sockets and the handshake of the RakNet server, sessions and their tasks, loading of plugins, the process handoff
  at the level of the operating system, configuration files, the individual protocol adapters,
  the JSON channel of administration plugins, administration and the build tool: they are input and output around the modelled core, or third-party formats.
\<close>

end
